(* ===== verification/Py_Prelude.thy ===== *)
theory Py_Prelude
  imports Main "HOL-Library.Word" "HOL-Library.AList" "HOL-Library.Code_Target_Nat"
begin

text \<open>
  The vocabulary every component of the development shares: Python exceptions as values of an
  error type and results as sums, byte strings as lists of \<open>8 word\<close>, Python slices, the
  \<open>struct\<close> formats the sources use, and dictionaries as insertion-ordered association lists.
  The locales at the end are the interfaces several components share: a codec (pack and parse are
  inverse) and a stack of two, a registry (a class is found under its key), a machine with an inductive
  invariant and a simulation of an abstract specification.
\<close>

unbundle bit_operations_syntax

named_theorems struct_simps \<open>the struct formats the sources use, as explicit byte patterns\<close>
named_theorems result_simps \<open>sequencing and re-raising of results\<close>

subsection \<open>Exceptions as values\<close>

text \<open>
  One constructor per exception class the modelled code raises or lets through. The text of an
  exception is only logged by the sources, so it is not part of the value.
\<close>

datatype py_error =
    MessageParseError
  | InvalidResponseAuthenticatorError
  | InvalidMessageAuthenticatorError
  | ValueError
  | StructError
  | KeyError
  | IndexError
  | TypeError
  | AttributeError
  | OverflowError
  | UnicodeError
  | AssertionError
  | OSError
  | RuntimeError
  | UnboundLocalError
  | DisconnectedException
  | GenericException

type_synonym 'a result = "py_error + 'a"

definition bind_result :: "'a result \<Rightarrow> ('a \<Rightarrow> 'b result) \<Rightarrow> 'b result" where
  "bind_result r f = (case r of Inl e \<Rightarrow> Inl e | Inr x \<Rightarrow> f x)"

definition reraise :: "py_error list \<Rightarrow> py_error \<Rightarrow> 'a result \<Rightarrow> 'a result" where
  \<comment> \<open>\<open>try: r except (E1, E2): raise e'\<close>\<close>
  "reraise es e' r = (case r of Inl e \<Rightarrow> Inl (if e \<in> set es then e' else e) | Inr x \<Rightarrow> Inr x)"

lemma bind_result_simps [simp, result_simps]:
  "bind_result (Inl e) f = Inl e"
  "bind_result (Inr x) f = f x"
  by (simp_all add: bind_result_def)

lemma reraise_simps [simp, result_simps]:
  "reraise es e' (Inl e) = Inl (if e \<in> set es then e' else e)"
  "reraise es e' (Inr x) = Inr x"
  by (simp_all add: reraise_def)

lemma bind_result_eq_Inr:
  "bind_result r f = Inr y \<longleftrightarrow> (\<exists>x. r = Inr x \<and> f x = Inr y)"
  by (cases r) simp_all

lemma bind_result_eq_Inl:
  "bind_result r f = Inl e \<longleftrightarrow> r = Inl e \<or> (\<exists>x. r = Inr x \<and> f x = Inl e)"
  by (cases r) simp_all

lemma reraise_eq_Inr [simp]: "reraise es e' r = Inr y \<longleftrightarrow> r = Inr y"
  by (cases r) simp_all

lemma bind_result_cong [fundef_cong]:
  "r = r' \<Longrightarrow> (\<And>x. r' = Inr x \<Longrightarrow> f x = f' x) \<Longrightarrow> bind_result r f = bind_result r' f'"
  by (cases r') simp_all

fun mapM_result :: "('a \<Rightarrow> 'b result) \<Rightarrow> 'a list \<Rightarrow> 'b list result" where
  "mapM_result f [] = Inr []"
| "mapM_result f (x # xs) =
     bind_result (f x) (\<lambda>y. bind_result (mapM_result f xs) (\<lambda>ys. Inr (y # ys)))"

lemma mapM_result_map_Inr: "(\<And>x. x \<in> set xs \<Longrightarrow> f x = Inr (g x)) \<Longrightarrow> mapM_result f xs = Inr (map g xs)"
  by (induction xs) simp_all

lemma mapM_result_length: "mapM_result f xs = Inr ys \<Longrightarrow> length ys = length xs"
  by (induction xs arbitrary: ys) (auto simp: bind_result_eq_Inr)

subsection \<open>Bytes and slices\<close>

type_synonym byte = "8 word"
type_synonym bytes = "byte list"

definition py_slice :: "nat \<Rightarrow> nat \<Rightarrow> 'a list \<Rightarrow> 'a list" where
  \<comment> \<open>\<open>xs[i:j]\<close> for bounds that are not negative; an empty range gives the empty list\<close>
  "py_slice i j xs = take (j - i) (drop i xs)"

definition py_take :: "int \<Rightarrow> 'a list \<Rightarrow> 'a list" where
  \<comment> \<open>\<open>xs[:k]\<close>; a negative bound counts from the end\<close>
  "py_take k xs = (if k < 0 then take (length xs - nat (- k)) xs else take (nat k) xs)"

definition py_insert :: "nat \<Rightarrow> 'a \<Rightarrow> 'a list \<Rightarrow> 'a list" where
  \<comment> \<open>\<open>xs.insert(i, x)\<close>: an index past the end appends\<close>
  "py_insert i x xs = take i xs @ x # drop i xs"

lemma length_py_slice [simp]: "length (py_slice i j xs) = min (j - i) (length xs - i)"
  by (simp add: py_slice_def)

lemma py_slice_Nil [simp]: "py_slice i j [] = []"
  by (simp add: py_slice_def)

lemma py_slice_append_exact:
  "length xs = i \<Longrightarrow> length ys = j - i \<Longrightarrow> py_slice i j (xs @ ys @ zs) = ys"
  by (simp add: py_slice_def)

lemma py_slice_to_end: "length xs \<le> j \<Longrightarrow> py_slice i j xs = drop i xs"
  by (simp add: py_slice_def)

lemma py_take_nonneg [simp]: "0 \<le> k \<Longrightarrow> py_take k xs = take (nat k) xs"
  by (simp add: py_take_def)

lemma py_take_Nil [simp]: "py_take k [] = []"
  by (simp add: py_take_def)

lemma uint_byte_bounds [simp]: "0 \<le> uint (b :: byte)" "uint (b :: byte) < 256"
  using uint_lt2p [of b] by simp_all

lemma uint_byte_le [simp]: "uint (b :: byte) \<le> 255"
  using uint_byte_bounds(2) [of b] by linarith

lemma uint_byte_div_mod [simp]: "uint (b :: byte) div 256 = 0" "uint (b :: byte) mod 256 = uint b"
  using uint_byte_bounds [of b] by simp_all

lemma uint_byte_of_int: "0 \<le> n \<Longrightarrow> n < 256 \<Longrightarrow> uint (word_of_int n :: byte) = n"
  by (simp add: uint_word_of_int)

lemma unat_byte_of_nat: "n < 256 \<Longrightarrow> unat (of_nat n :: byte) = n"
  by (simp add: unat_of_nat)

lemma byte_of_int_uint [simp]: "word_of_int (uint (b :: byte)) = b"
  by simp

subsection \<open>The struct module\<close>

text \<open>
  \<open>struct.pack\<close> and \<open>struct.unpack\<close> for network byte order (\<open>!\<close>), over the
  conversions the sources use: \<open>B\<close> (one byte), \<open>H\<close> (two bytes) and \<open>ns\<close> (exactly
  \<open>n\<close> bytes, a shorter argument padded with zeros and a longer one cut). An argument of the
  wrong kind or out of range, a wrong number of arguments and a buffer of the wrong size raise
  \<open>struct.error\<close>.
\<close>

datatype field = FB | FH | FS nat

datatype pyval = VInt int | VBytes bytes | VNone

fun field_size :: "field \<Rightarrow> nat" where
  "field_size FB = 1"
| "field_size FH = 2"
| "field_size (FS n) = n"

definition calcsize :: "field list \<Rightarrow> nat" where
  "calcsize fs = sum_list (map field_size fs)"

fun pack_field :: "field \<Rightarrow> pyval \<Rightarrow> bytes result" where
  "pack_field FB (VInt n) = (if 0 \<le> n \<and> n < 256 then Inr [word_of_int n] else Inl StructError)"
| "pack_field FH (VInt n) =
     (if 0 \<le> n \<and> n < 65536 then Inr [word_of_int (n div 256), word_of_int (n mod 256)]
      else Inl StructError)"
| "pack_field (FS k) (VBytes b) = Inr (take k b @ replicate (k - length b) 0)"
| "pack_field _ _ = Inl StructError"

fun struct_pack :: "field list \<Rightarrow> pyval list \<Rightarrow> bytes result" where
  "struct_pack [] [] = Inr []"
| "struct_pack (f # fs) (v # vs) =
     bind_result (pack_field f v) (\<lambda>b. bind_result (struct_pack fs vs) (\<lambda>bs. Inr (b @ bs)))"
| "struct_pack _ _ = Inl StructError"

fun unpack_field :: "field \<Rightarrow> bytes \<Rightarrow> pyval" where
  "unpack_field FB bs = VInt (uint (bs ! 0))"
| "unpack_field FH bs = VInt (256 * uint (bs ! 0) + uint (bs ! 1))"
| "unpack_field (FS k) bs = VBytes (take k bs)"

fun unpack_fields :: "field list \<Rightarrow> bytes \<Rightarrow> pyval list" where
  "unpack_fields [] bs = []"
| "unpack_fields (f # fs) bs = unpack_field f bs # unpack_fields fs (drop (field_size f) bs)"

definition struct_unpack :: "field list \<Rightarrow> bytes \<Rightarrow> pyval list result" where
  "struct_unpack fs bs =
     (if length bs = calcsize fs then Inr (unpack_fields fs bs) else Inl StructError)"

lemma calcsize_simps [simp, struct_simps]:
  "calcsize [] = 0"
  "calcsize (f # fs) = field_size f + calcsize fs"
  by (simp_all add: calcsize_def)

text \<open>A value a format can hold without loss.\<close>

fun fits :: "field \<Rightarrow> pyval \<Rightarrow> bool" where
  "fits FB (VInt n) = (0 \<le> n \<and> n < 256)"
| "fits FH (VInt n) = (0 \<le> n \<and> n < 65536)"
| "fits (FS k) (VBytes b) = (length b = k)"
| "fits _ _ = False"

lemma pack_field_fits:
  "fits f v \<Longrightarrow> \<exists>b. pack_field f v = Inr b \<and> length b = field_size f \<and> (\<forall>bs. unpack_field f (b @ bs) = v)"
  by (cases "(f, v)" rule: fits.cases) (auto simp: uint_word_of_int)

lemma struct_pack_fits:
  "list_all2 fits fs vs \<Longrightarrow>
     \<exists>b. struct_pack fs vs = Inr b \<and> length b = calcsize fs \<and> (\<forall>bs. unpack_fields fs (b @ bs) = vs)"
proof (induction fs vs rule: list_all2_induct)
  case Nil
  then show ?case by simp
next
  case (Cons f fs v vs)
  from Cons.hyps(1) obtain b where b: "pack_field f v = Inr b" "length b = field_size f"
    "\<And>bs. unpack_field f (b @ bs) = v"
    using pack_field_fits by blast
  from Cons.IH obtain b' where b': "struct_pack fs vs = Inr b'" "length b' = calcsize fs"
    "\<And>bs. unpack_fields fs (b' @ bs) = vs"
    by blast
  have "struct_pack (f # fs) (v # vs) = Inr (b @ b')"
    using b b' by simp
  moreover have "length (b @ b') = calcsize (f # fs)"
    using b b' by simp
  moreover have "unpack_fields (f # fs) ((b @ b') @ bs) = v # vs" for bs
    using b b' by simp
  ultimately show ?case by blast
qed

theorem struct_unpack_pack:
  assumes "list_all2 fits fs vs"
  shows "bind_result (struct_pack fs vs) (struct_unpack fs) = Inr vs"
proof -
  from struct_pack_fits [OF assms] obtain b
    where b: "struct_pack fs vs = Inr b" "length b = calcsize fs" "\<And>bs. unpack_fields fs (b @ bs) = vs"
    by blast
  from b(3) [of "[]"] show ?thesis
    using b by (simp add: struct_unpack_def)
qed

lemma pack_field_length: "pack_field f v = Inr b \<Longrightarrow> length b = field_size f"
  by (cases "(f, v)" rule: pack_field.cases) (auto split: if_splits)

lemma struct_pack_length: "struct_pack fs vs = Inr b \<Longrightarrow> length b = calcsize fs"
  by (induction fs vs arbitrary: b rule: struct_pack.induct)
    (auto simp: bind_result_eq_Inr dest: pack_field_length)

text \<open>The formats of the sources, as byte patterns.\<close>

lemma pack_single [struct_simps]:
  "struct_pack [f] [v] = pack_field f v"
  by (cases "pack_field f v") simp_all

lemma unpack_B [struct_simps]:
  "struct_unpack [FB] bs = (case bs of [a] \<Rightarrow> Inr [VInt (uint a)] | _ \<Rightarrow> Inl StructError)"
  by (auto simp: struct_unpack_def split: list.splits)

lemma unpack_S [struct_simps]:
  "struct_unpack [FS n] bs = (if length bs = n then Inr [VBytes bs] else Inl StructError)"
  by (simp add: struct_unpack_def)

lemma unpack_BB [struct_simps]:
  "struct_unpack [FB, FB] bs =
     (case bs of [a, b] \<Rightarrow> Inr [VInt (uint a), VInt (uint b)] | _ \<Rightarrow> Inl StructError)"
  by (auto simp: struct_unpack_def split: list.splits)

lemma unpack_BS [struct_simps]:
  "struct_unpack [FB, FS n] bs =
     (case bs of a # b \<Rightarrow> if length b = n then Inr [VInt (uint a), VBytes b] else Inl StructError
      | _ \<Rightarrow> Inl StructError)"
  by (auto simp: struct_unpack_def split: list.splits)

lemma unpack_BBH [struct_simps]:
  "struct_unpack [FB, FB, FH] bs =
     (case bs of [a, b, c, d] \<Rightarrow> Inr [VInt (uint a), VInt (uint b), VInt (256 * uint c + uint d)]
      | _ \<Rightarrow> Inl StructError)"
  by (auto simp: struct_unpack_def split: list.splits)

lemma pack_B [struct_simps]:
  "pack_field FB (VInt n) = (if 0 \<le> n \<and> n < 256 then Inr [word_of_int n] else Inl StructError)"
  by simp

subsection \<open>Dictionaries\<close>

text \<open>
  A dictionary keeps its insertion order, so it is an association list with distinct keys; the
  library's \<open>AList.update\<close> keeps the position of a key it overwrites and appends a new one, as
  \<open>d[k] = v\<close> does, and \<open>AList.delete\<close> is \<open>del d[k]\<close>.
\<close>

type_synonym ('k, 'v) dict = "('k \<times> 'v) list"

abbreviation dict_keys :: "('k, 'v) dict \<Rightarrow> 'k list" where
  "dict_keys d \<equiv> map fst d"

abbreviation dict_values :: "('k, 'v) dict \<Rightarrow> 'v list" where
  "dict_values d \<equiv> map snd d"

abbreviation dict_get :: "('k, 'v) dict \<Rightarrow> 'k \<Rightarrow> 'v option" where
  "dict_get d \<equiv> map_of d"

abbreviation dict_set :: "'k \<Rightarrow> 'v \<Rightarrow> ('k, 'v) dict \<Rightarrow> ('k, 'v) dict" where
  "dict_set \<equiv> AList.update"

abbreviation dict_del :: "'k \<Rightarrow> ('k, 'v) dict \<Rightarrow> ('k, 'v) dict" where
  "dict_del \<equiv> AList.delete"

abbreviation dict_ok :: "('k, 'v) dict \<Rightarrow> bool" where
  "dict_ok d \<equiv> distinct (map fst d)"

definition dict_index :: "('k, 'v) dict \<Rightarrow> 'k \<Rightarrow> 'v result" where
  \<comment> \<open>\<open>d[k]\<close>\<close>
  "dict_index d k = (case map_of d k of None \<Rightarrow> Inl KeyError | Some v \<Rightarrow> Inr v)"

lemma dict_ok_set [simp]: "dict_ok d \<Longrightarrow> dict_ok (dict_set k v d)"
  by (rule distinct_update)

lemma dict_ok_del [simp]: "dict_ok d \<Longrightarrow> dict_ok (dict_del k d)"
  by (rule distinct_delete)

lemma dict_set_fresh: "k \<notin> set (dict_keys d) \<Longrightarrow> dict_set k v d = d @ [(k, v)]"
  by (induction d) auto

lemma dict_set_new: "dict_get d k = None \<Longrightarrow> dict_set k v d = d @ [(k, v)]"
  by (induction d) (auto split: if_splits)

lemma dict_get_set: "dict_get (dict_set k v d) k' = (if k' = k then Some v else dict_get d k')"
  by (simp add: update_conv')

lemma dict_get_del: "dict_get (dict_del k d) k' = (if k' = k then None else dict_get d k')"
  by (simp add: delete_conv')

lemma dict_keys_set: "set (dict_keys (dict_set k v d)) = insert k (set (dict_keys d))"
  by (simp add: dom_update)

lemma dict_values_set: "set (dict_values (dict_set k v d)) \<subseteq> insert v (set (dict_values d))"
  by (induction d) auto

lemma dict_keys_get: "k \<in> set (dict_keys d) \<longleftrightarrow> dict_get d k \<noteq> None"
  by (auto simp: map_of_eq_None_iff)

subsection \<open>Interfaces\<close>

text \<open>
  A codec: on valid values packing succeeds and parsing what was packed gives the value back.
\<close>

locale codec =
  fixes valid :: "'a \<Rightarrow> bool"
    and enc :: "'a \<Rightarrow> bytes result"
    and dec :: "bytes \<Rightarrow> 'a result"
  assumes enc_total: "valid x \<Longrightarrow> \<exists>bs. enc x = Inr bs"
    and dec_enc: "valid x \<Longrightarrow> enc x = Inr bs \<Longrightarrow> dec bs = Inr x"
begin

lemma roundtrip: "valid x \<Longrightarrow> bind_result (enc x) dec = Inr x"
  using enc_total dec_enc by fastforce

lemma enc_inject: "valid x \<Longrightarrow> valid y \<Longrightarrow> enc x = enc y \<Longrightarrow> x = y"
  by (metis dec_enc enc_total sum.inject(2))

end

text \<open>
  One protocol layer carried in another: the packed inner value is the payload of a valid frame of
  the outer layer, and \<open>unwrap\<close> reads it back.
\<close>

locale codec_stack = inner: codec vi ei di + outer: codec vo eo du
  for vi :: "'a \<Rightarrow> bool" and ei :: "'a \<Rightarrow> bytes result" and di :: "bytes \<Rightarrow> 'a result"
    and vo :: "'f \<Rightarrow> bool" and eo :: "'f \<Rightarrow> bytes result" and du :: "bytes \<Rightarrow> 'f result" +
  fixes fits_in :: "'a \<Rightarrow> bool"
    and wrap :: "'a \<Rightarrow> bytes \<Rightarrow> 'f"
    and unwrap :: "'f \<Rightarrow> bytes"
  assumes wrap_valid: "vi x \<Longrightarrow> fits_in x \<Longrightarrow> ei x = Inr p \<Longrightarrow> vo (wrap x p)"
    and unwrap_wrap: "unwrap (wrap x p) = p"
begin

lemma stack_total: "vi x \<Longrightarrow> fits_in x \<Longrightarrow> \<exists>bs. bind_result (ei x) (\<lambda>p. eo (wrap x p)) = Inr bs"
  using inner.enc_total outer.enc_total wrap_valid by fastforce

lemma stack_frame:
  assumes "vi x" and "fits_in x" and "bind_result (ei x) (\<lambda>p. eo (wrap x p)) = Inr bs"
  shows "\<exists>p. ei x = Inr p \<and> du bs = Inr (wrap x p) \<and> di (unwrap (wrap x p)) = Inr x"
proof -
  from assms(3) obtain p where p: "ei x = Inr p" "eo (wrap x p) = Inr bs"
    by (auto simp: bind_result_eq_Inr)
  from assms(1,2) p(1) have "vo (wrap x p)" by (rule wrap_valid)
  then have "du bs = Inr (wrap x p)" using p(2) by (rule outer.dec_enc)
  moreover have "di (unwrap (wrap x p)) = Inr x"
    using assms(1) p(1) by (simp add: unwrap_wrap inner.dec_enc)
  ultimately show ?thesis using p(1) by blast
qed

sublocale stacked: codec "\<lambda>x. vi x \<and> fits_in x" "\<lambda>x. bind_result (ei x) (\<lambda>p. eo (wrap x p))"
  "\<lambda>bs. bind_result (du bs) (\<lambda>f. di (unwrap f))"
proof
  fix x bs
  show "vi x \<and> fits_in x \<Longrightarrow> \<exists>bs. bind_result (ei x) (\<lambda>p. eo (wrap x p)) = Inr bs"
    using stack_total by blast
  show "vi x \<and> fits_in x \<Longrightarrow> bind_result (ei x) (\<lambda>p. eo (wrap x p)) = Inr bs \<Longrightarrow>
      bind_result (du bs) (\<lambda>f. di (unwrap f)) = Inr x"
    using stack_frame by fastforce
qed

end

text \<open>A registry of classes under their numeric type, filled by a class decorator.\<close>

locale registry =
  fixes key :: "'c \<Rightarrow> int" and find_class :: "int \<Rightarrow> 'c option"
  assumes find_key: "find_class (key c) = Some c"
    and find_sound: "find_class k = Some c \<Longrightarrow> key c = k"
begin

lemma key_inject: "key c = key d \<longleftrightarrow> c = d"
  by (metis find_key option.inject)

lemma find_iff: "find_class k = Some c \<longleftrightarrow> key c = k"
  using find_key find_sound by blast

lemma find_None: "find_class k = None \<longleftrightarrow> k \<notin> range key"
  by (metis find_iff not_None_eq rangeE rangeI)

end

text \<open>A deterministic machine over a list of events, and an invariant its admissible steps keep.\<close>

locale machine =
  fixes start :: 's
    and step :: "'s \<Rightarrow> 'e \<Rightarrow> 's"
    and admissible :: "'e \<Rightarrow> bool"
    and inv :: "'s \<Rightarrow> bool"
  assumes inv_start: "inv start"
    and inv_step: "inv s \<Longrightarrow> admissible e \<Longrightarrow> inv (step s e)"
begin

lemma inv_run_from: "inv s \<Longrightarrow> list_all admissible es \<Longrightarrow> inv (foldl step s es)"
  by (induction es arbitrary: s) (auto intro: inv_step)

lemma inv_run: "list_all admissible es \<Longrightarrow> inv (foldl step start es)"
  by (rule inv_run_from) (rule inv_start)

text \<open>A property that only one kind of step establishes was established by such a step.\<close>

lemma first_step:
  assumes "list_all admissible es" "inv s" "P (foldl step s es)" "\<not> P s"
    and cause: "\<And>s e. inv s \<Longrightarrow> admissible e \<Longrightarrow> P (step s e) \<Longrightarrow> P s \<or> C s e"
  shows "\<exists>es1 e es2. es = es1 @ e # es2 \<and> inv (foldl step s es1) \<and> C (foldl step s es1) e"
  using assms(1-4)
proof (induction es arbitrary: s)
  case (Cons e es)
  show ?case
  proof (cases "P (step s e)")
    case True
    with Cons.prems cause have "C s e" by auto
    with Cons.prems(2) show ?thesis by (intro exI [of _ "[]"] exI [of _ e] exI [of _ es]) simp
  next
    case False
    with Cons.prems inv_step [of s e] Cons.IH [of "step s e"] obtain es1 e' es2
      where "es = es1 @ e' # es2" "inv (foldl step (step s e) es1)" "C (foldl step (step s e) es1) e'"
      by auto
    then show ?thesis by (intro exI [of _ "e # es1"] exI [of _ e'] exI [of _ es2]) simp
  qed
qed simp

end

text \<open>A functional refinement: the steps of a system follow those of an abstract specification.\<close>

locale simulation =
  fixes step :: "'s \<Rightarrow> 'e \<Rightarrow> 's"
    and spec :: "'a \<Rightarrow> 'e \<Rightarrow> 'a"
    and abs_state :: "'s \<Rightarrow> 'a"
    and inv :: "'s \<Rightarrow> bool"
    and admissible :: "'e \<Rightarrow> bool"
  assumes sim: "inv s \<Longrightarrow> admissible e \<Longrightarrow> inv (step s e) \<and> abs_state (step s e) = spec (abs_state s) e"
begin

lemma run:
  "inv s \<Longrightarrow> list_all admissible es \<Longrightarrow>
     inv (foldl step s es) \<and> abs_state (foldl step s es) = foldl spec (abs_state s) es"
  by (induction es arbitrary: s) (auto dest: sim)

end

end
