(* ===== verification/Py_Text.thy ===== *)
theory Py_Text
  imports Py_Prelude
begin

text \<open>
  Python text. A \<open>str\<close> is the list of its code points; \<open>encode\<close> and \<open>decode\<close> are
  strict UTF-8 as the language defines it (no overlong forms, no surrogates, nothing above
  0x10FFFF), so that what the packet classes do to identities, user names and shared secrets is
  what the interpreter does. Hexadecimal digits, \<open>split\<close>, \<open>join\<close> and \<open>replace\<close> follow.
\<close>

type_synonym ustr = "nat list"

definition ascii :: "string \<Rightarrow> ustr" where
  "ascii s = map of_char s"

subsection \<open>UTF-8\<close>

definition byte_of :: "nat \<Rightarrow> byte" where
  "byte_of n = of_nat n"

lemma unat_byte_of: "n < 256 \<Longrightarrow> unat (byte_of n) = n"
  by (simp add: byte_of_def unat_of_nat)

lemma byte_of_unat [simp]: "byte_of (unat b) = b"
  by (simp add: byte_of_def)

definition scalar_value :: "nat \<Rightarrow> bool" where
  "scalar_value c \<longleftrightarrow> c < 0xD800 \<or> (0xE000 \<le> c \<and> c < 0x110000)"

definition utf8_char :: "nat \<Rightarrow> bytes" where
  "utf8_char c =
     (if c < 0x80 then [byte_of c]
      else if c < 0x800 then [byte_of (192 + c div 64), byte_of (128 + c mod 64)]
      else if c < 0x10000 then
        [byte_of (224 + c div 4096), byte_of (128 + c div 64 mod 64), byte_of (128 + c mod 64)]
      else
        [byte_of (240 + c div 262144), byte_of (128 + c div 4096 mod 64),
         byte_of (128 + c div 64 mod 64), byte_of (128 + c mod 64)])"

fun utf8_encode :: "ustr \<Rightarrow> bytes result" where
  "utf8_encode [] = Inr []"
| "utf8_encode (c # cs) =
     (if scalar_value c then bind_result (utf8_encode cs) (\<lambda>bs. Inr (utf8_char c @ bs))
      else Inl UnicodeError)"

definition continuation :: "byte \<Rightarrow> bool" where
  "continuation b \<longleftrightarrow> 128 \<le> unat b \<and> unat b < 192"

definition utf8_two :: "byte \<Rightarrow> byte \<Rightarrow> nat option" where
  "utf8_two a b =
     (let c = (unat a - 192) * 64 + (unat b - 128)
      in if continuation b \<and> 0x80 \<le> c then Some c else None)"

definition utf8_three :: "byte \<Rightarrow> byte \<Rightarrow> byte \<Rightarrow> nat option" where
  "utf8_three a b d =
     (let c = (unat a - 224) * 4096 + (unat b - 128) * 64 + (unat d - 128)
      in if continuation b \<and> continuation d \<and> 0x800 \<le> c \<and> scalar_value c then Some c else None)"

definition utf8_four :: "byte \<Rightarrow> byte \<Rightarrow> byte \<Rightarrow> byte \<Rightarrow> nat option" where
  "utf8_four a b d e =
     (let c = (unat a - 240) * 262144 + (unat b - 128) * 4096 + (unat d - 128) * 64 + (unat e - 128)
      in if continuation b \<and> continuation d \<and> continuation e \<and> 0x10000 \<le> c \<and> scalar_value c
         then Some c else None)"

definition utf8_next :: "bytes \<Rightarrow> (nat \<times> bytes) option" where
  \<comment> \<open>the first character of a byte string and the bytes after it\<close>
  "utf8_next bs =
     (case bs of
        [] \<Rightarrow> None
      | a # r1 \<Rightarrow>
          if unat a < 128 then Some (unat a, r1)
          else if unat a < 192 then None
          else (case r1 of
            [] \<Rightarrow> None
          | b # r2 \<Rightarrow>
              if unat a < 224 then map_option (\<lambda>c. (c, r2)) (utf8_two a b)
              else (case r2 of
                [] \<Rightarrow> None
              | d # r3 \<Rightarrow>
                  if unat a < 240 then map_option (\<lambda>c. (c, r3)) (utf8_three a b d)
                  else if unat a < 248 then
                    (case r3 of [] \<Rightarrow> None | e # r4 \<Rightarrow> map_option (\<lambda>c. (c, r4)) (utf8_four a b d e))
                  else None)))"

lemma utf8_next_shorter: "utf8_next bs = Some (c, r) \<Longrightarrow> length r < length bs"
  by (auto simp: utf8_next_def split: list.splits if_splits)

function utf8_decode :: "bytes \<Rightarrow> ustr result" where
  "utf8_decode bs =
     (if bs = [] then Inr []
      else case utf8_next bs of
        None \<Rightarrow> Inl UnicodeError
      | Some (c, r) \<Rightarrow> bind_result (utf8_decode r) (\<lambda>cs. Inr (c # cs)))"
  by pat_completeness auto
termination
  by (relation "measure length") (auto dest: utf8_next_shorter)

declare utf8_decode.simps [simp del]

lemma utf8_decode_Nil [simp]: "utf8_decode [] = Inr []"
  by (simp add: utf8_decode.simps)

lemma utf8_decode_step:
  "utf8_next bs = Some (c, r) \<Longrightarrow> utf8_decode bs = bind_result (utf8_decode r) (\<lambda>cs. Inr (c # cs))"
  by (subst utf8_decode.simps) (auto simp: utf8_next_def)

lemma split_64: "(n::nat) = n div 64 * 64 + n mod 64"
  by simp

lemma split_4096: "(n::nat) = n div 4096 * 4096 + (n div 64 mod 64 * 64 + n mod 64)"
proof -
  have "n div 4096 = n div 64 div 64" by (simp add: div_mult2_eq [symmetric])
  then show ?thesis using split_64 [of n] split_64 [of "n div 64"] by linarith
qed

lemma split_262144:
  "(n::nat) = n div 262144 * 262144 + (n div 4096 mod 64 * 4096 + (n div 64 mod 64 * 64 + n mod 64))"
proof -
  have "n div 262144 = n div 4096 div 64" by (simp add: div_mult2_eq [symmetric])
  then show ?thesis using split_4096 [of n] split_64 [of "n div 4096"] by linarith
qed

lemma utf8_next_char: "scalar_value c \<Longrightarrow> utf8_next (utf8_char c @ r) = Some (c, r)"
proof -
  assume sv: "scalar_value c"
  then have ub: "c < 0x110000" by (auto simp: scalar_value_def)
  have hi: "c div 262144 < 5" "c div 4096 mod 64 < 64" "c div 64 mod 64 < 64" "c mod 64 < 64"
    using ub by auto
  consider "c < 0x80" | "0x80 \<le> c" "c < 0x800" | "0x800 \<le> c" "c < 0x10000" | "0x10000 \<le> c"
    by linarith
  then show ?thesis
  proof cases
    case 1
    then show ?thesis by (simp add: utf8_char_def utf8_next_def unat_byte_of)
  next
    case 2
    then have q: "c div 64 < 32" by simp
    from 2 split_64 [of c, symmetric] show ?thesis
      by (simp add: q utf8_char_def utf8_next_def utf8_two_def continuation_def unat_byte_of)
  next
    case 3
    then have q: "c div 4096 < 16" by simp
    from 3 sv split_4096 [of c, symmetric] show ?thesis
      by (simp add: q hi utf8_char_def utf8_next_def utf8_three_def continuation_def unat_byte_of
          add.assoc)
  next
    case 4
    have q: "240 + c div 262144 < 256" "240 + c div 262144 < 248"
      using hi(1) by simp_all
    from 4 sv split_262144 [of c, symmetric] show ?thesis
      by (simp add: q hi utf8_char_def utf8_next_def utf8_four_def continuation_def unat_byte_of
          add.assoc)
  qed
qed

theorem utf8_decode_encode: "utf8_encode s = Inr bs \<Longrightarrow> utf8_decode bs = Inr s"
proof (induction s arbitrary: bs)
  case Nil
  then show ?case by simp
next
  case (Cons c s)
  then obtain r where "scalar_value c" "utf8_encode s = Inr r" "bs = utf8_char c @ r"
    by (auto simp: bind_result_eq_Inr split: if_splits)
  with Cons.IH show ?case
    by (simp add: utf8_decode_step utf8_next_char)
qed

lemma unat_byte_less: "unat (b :: byte) < 256"
  using unsigned_less [of b] by simp

lemma base64_digits: "z < 64 \<Longrightarrow> (q * 64 + z) div 64 = q" "z < 64 \<Longrightarrow> (q * 64 + z) mod 64 = (z::nat)"
  by simp_all

lemma div_4096: "(n::nat) div 4096 = n div 64 div 64"
  by (simp add: div_mult2_eq [symmetric])

lemma div_262144: "(n::nat) div 262144 = n div 64 div 64 div 64"
  by (simp add: div_mult2_eq [symmetric])

lemma utf8_next_sound: "utf8_next bs = Some (c, r) \<Longrightarrow> scalar_value c \<and> bs = utf8_char c @ r"
proof -
  assume n: "utf8_next bs = Some (c, r)"
  then obtain a r1 where a: "bs = a # r1" by (auto simp: utf8_next_def split: list.splits)
  consider "unat a < 128" | "192 \<le> unat a" "unat a < 224" | "224 \<le> unat a" "unat a < 240"
    | "240 \<le> unat a" "unat a < 248"
    using n a by (fastforce simp: utf8_next_def split: list.splits if_splits)
  then show ?thesis
  proof cases
    case 1
    with n a show ?thesis
      by (auto simp: utf8_next_def utf8_char_def scalar_value_def)
  next
    case 2
    with n a obtain b where b: "r1 = b # r" and two: "utf8_two a b = Some c"
      by (auto simp: utf8_next_def split: list.splits if_splits)
    define x where "x = unat a - 192"
    define y where "y = unat b - 128"
    from two have c: "c = x * 64 + y" "128 \<le> c" "y < 64" "unat b = 128 + y" "unat a = 192 + x" "x < 32"
      using 2 by (auto simp: utf8_two_def continuation_def x_def y_def Let_def split: if_splits)
    then have "c < 2048" "c div 64 = x" "c mod 64 = y" by auto
    then have "utf8_char c = [a, b]"
      using c by (simp add: utf8_char_def) (metis byte_of_unat)
    moreover have "scalar_value c" using \<open>c < 2048\<close> by (simp add: scalar_value_def)
    ultimately show ?thesis using a b by simp
  next
    case 3
    with n a obtain b d where b: "r1 = b # d # r" and three: "utf8_three a b d = Some c"
      by (auto simp: utf8_next_def split: list.splits if_splits)
    define x where "x = unat a - 224"
    define y where "y = unat b - 128"
    define z where "z = unat d - 128"
    from three have c: "c = x * 4096 + y * 64 + z" "2048 \<le> c" "scalar_value c" "y < 64" "z < 64"
      "unat b = 128 + y" "unat d = 128 + z" "unat a = 224 + x" "x < 16"
      using 3 by (auto simp: utf8_three_def continuation_def x_def y_def z_def Let_def split: if_splits)
    have "c = (x * 64 + y) * 64 + z" using c(1) by simp
    then have "c div 64 = x * 64 + y" "c mod 64 = z" using c(5) by (simp_all only: base64_digits)
    then have q: "c div 4096 = x" "c div 64 mod 64 = y" "c mod 64 = z"
      using c(4) by (simp_all only: div_4096 base64_digits)
    have "c < 65536" using c(1,4,5,9) by simp
    then have "utf8_char c = [a, b, d]"
      using c(2,6-8) q \<open>c < 65536\<close> by (simp add: utf8_char_def) (metis byte_of_unat)
    then show ?thesis using a b c(3) by simp
  next
    case 4
    with n a obtain b d e where b: "r1 = b # d # e # r" and four: "utf8_four a b d e = Some c"
      by (auto simp: utf8_next_def split: list.splits if_splits)
    define x where "x = unat a - 240"
    define y where "y = unat b - 128"
    define z where "z = unat d - 128"
    define w where "w = unat e - 128"
    from four have c: "c = x * 262144 + y * 4096 + z * 64 + w" "65536 \<le> c" "scalar_value c"
      "y < 64" "z < 64" "w < 64"
      "unat b = 128 + y" "unat d = 128 + z" "unat e = 128 + w" "unat a = 240 + x" "x < 8"
      using 4 by (auto simp: utf8_four_def continuation_def x_def y_def z_def w_def Let_def split: if_splits)
    have "c = ((x * 64 + y) * 64 + z) * 64 + w" using c(1) by simp
    then have "c div 64 = (x * 64 + y) * 64 + z" "c mod 64 = w"
      using c(6) by (simp_all only: base64_digits)
    then have q: "c div 262144 = x" "c div 4096 mod 64 = y" "c div 64 mod 64 = z" "c mod 64 = w"
      using c(4,5) by (simp_all only: div_4096 div_262144 base64_digits)
    then have "utf8_char c = [a, b, d, e]"
      using c(2,7-10) q by (simp add: utf8_char_def) (metis byte_of_unat)
    then show ?thesis using a b c(3) by simp
  qed
qed

theorem utf8_encode_decode: "utf8_decode bs = Inr s \<Longrightarrow> utf8_encode s = Inr bs"
proof (induction bs arbitrary: s rule: utf8_decode.induct)
  case (1 bs)
  show ?case
  proof (cases "bs = []")
    case True
    with "1.prems" show ?thesis by simp
  next
    case False
    with "1.prems" obtain c r where n: "utf8_next bs = Some (c, r)"
      by (subst (asm) utf8_decode.simps) (auto split: option.splits)
    with "1.prems" obtain cs where cs: "utf8_decode r = Inr cs" "s = c # cs"
      by (auto simp: utf8_decode_step bind_result_eq_Inr)
    from "1.IH" [OF False n refl cs(1)] utf8_next_sound [OF n] cs(2) show ?thesis by simp
  qed
qed

lemma utf8_encode_ascii: "\<forall>c\<in>set s. c < 128 \<Longrightarrow> utf8_encode s = Inr (map byte_of s)"
  by (induction s) (auto simp: scalar_value_def utf8_char_def)

lemma utf8_encode_append:
  "utf8_encode (s @ t) = bind_result (utf8_encode s) (\<lambda>a. bind_result (utf8_encode t) (\<lambda>b. Inr (a @ b)))"
proof (induction s)
  case Nil
  show ?case by (cases "utf8_encode t") simp_all
next
  case (Cons c s)
  then show ?case by (cases "utf8_encode s"; cases "utf8_encode t") simp_all
qed

subsection \<open>Hexadecimal digits\<close>

definition hex_digit :: "nat \<Rightarrow> nat" where
  "hex_digit n = (if n < 10 then 48 + n else 87 + n)"

definition hex_value :: "nat \<Rightarrow> nat option" where
  \<comment> \<open>digits \<open>0-9\<close>, \<open>a-f\<close> and \<open>A-F\<close>\<close>
  "hex_value c =
     (if 48 \<le> c \<and> c < 58 then Some (c - 48)
      else if 97 \<le> c \<and> c < 103 then Some (c - 87)
      else if 65 \<le> c \<and> c < 71 then Some (c - 55)
      else None)"

definition format_02x :: "byte \<Rightarrow> ustr" where
  "format_02x b = [hex_digit (unat b div 16), hex_digit (unat b mod 16)]"

fun hex_number :: "nat \<Rightarrow> ustr \<Rightarrow> nat option" where
  "hex_number acc [] = Some acc"
| "hex_number acc (c # cs) =
     (case hex_value c of None \<Rightarrow> None | Some d \<Rightarrow> hex_number (16 * acc + d) cs)"

definition int_base16 :: "ustr \<Rightarrow> int result" where
  \<comment> \<open>\<open>int(s, 16)\<close> on a string of hexadecimal digits\<close>
  "int_base16 s =
     (if s = [] then Inl ValueError
      else case hex_number 0 s of None \<Rightarrow> Inl ValueError | Some n \<Rightarrow> Inr (int n))"

lemma hex_value_digit: "n < 16 \<Longrightarrow> hex_value (hex_digit n) = Some n"
  by (auto simp: hex_value_def hex_digit_def)

lemma hex_digit_range: "n < 16 \<Longrightarrow> 48 \<le> hex_digit n \<and> hex_digit n < 103 \<and> hex_digit n \<noteq> 58"
  by (auto simp: hex_digit_def)

lemma hex_number_format [simp]:
  "hex_number acc (format_02x b @ s) = hex_number (256 * acc + unat b) s"
proof -
  have "16 * (16 * acc + unat b div 16) + unat b mod 16 = 256 * acc + unat b" by simp
  moreover have "unat b div 16 < 16" using unat_byte_less [of b] by simp
  ultimately show ?thesis
    by (simp add: format_02x_def hex_value_digit add.commute)
qed

lemma format_02x_nonempty [simp]: "format_02x b \<noteq> []"
  by (simp add: format_02x_def)

lemma int_base16_format: "int_base16 (format_02x b) = Inr (uint b)"
  using hex_number_format [of 0 b "[]"] by (simp add: int_base16_def)

lemma int_base16_pair: "int_base16 (format_02x a @ format_02x b) = Inr (256 * uint a + uint b)"
  using hex_number_format [of "unat a" b "[]"] by (simp add: int_base16_def)

subsection \<open>Splitting, joining, replacing\<close>

fun split_on :: "'a \<Rightarrow> 'a list \<Rightarrow> 'a list list" where
  "split_on s [] = [[]]"
| "split_on s (c # cs) =
     (if c = s then [] # split_on s cs
      else case split_on s cs of p # ps \<Rightarrow> (c # p) # ps | [] \<Rightarrow> [[c]])"

fun join_with :: "'a list \<Rightarrow> 'a list list \<Rightarrow> 'a list" where
  "join_with sep [] = []"
| "join_with sep [p] = p"
| "join_with sep (p # q # ps) = p @ sep @ join_with sep (q # ps)"

definition replace_char :: "'a \<Rightarrow> 'a list \<Rightarrow> 'a list \<Rightarrow> 'a list" where
  "replace_char c r s = concat (map (\<lambda>x. if x = c then r else [x]) s)"

lemma split_on_nonempty [simp]: "split_on s cs \<noteq> []"
  by (induction cs) (auto split: list.splits)

lemma split_on_no_sep: "s \<notin> set p \<Longrightarrow> split_on s p = [p]"
  by (induction p) auto

lemma split_on_append: "s \<notin> set p \<Longrightarrow> split_on s (p @ s # cs) = p # split_on s cs"
  by (induction p) auto

lemma split_on_join: "ps \<noteq> [] \<Longrightarrow> \<forall>p\<in>set ps. s \<notin> set p \<Longrightarrow> split_on s (join_with [s] ps) = ps"
  by (induction "[s]" ps rule: join_with.induct) (auto simp: split_on_no_sep split_on_append)

lemma join_split: "join_with [s] (split_on s cs) = cs"
proof (induction cs)
  case Nil
  then show ?case by simp
next
  case (Cons c cs)
  obtain p ps where "split_on s cs = p # ps" by (cases "split_on s cs") auto
  with Cons show ?case by (cases ps) auto
qed

lemma replace_char_absent: "c \<notin> set p \<Longrightarrow> replace_char c r p = p"
  by (induction p) (auto simp: replace_char_def)

lemma replace_char_append: "replace_char c r (p @ q) = replace_char c r p @ replace_char c r q"
  by (simp add: replace_char_def)

lemma replace_char_join:
  "\<forall>p\<in>set ps. c \<notin> set p \<Longrightarrow> replace_char c r (join_with [c] ps) = join_with r ps"
proof (induction "[c]" ps rule: join_with.induct)
  case (3 p q ps)
  moreover have "replace_char c r (c # s) = r @ replace_char c r s" for s
    by (simp add: replace_char_def)
  ultimately show ?case by (simp add: replace_char_append replace_char_absent)
qed (simp add: replace_char_def, simp add: replace_char_absent)

end
