(* ===== verification/Link_Layer.thy ===== *)
theory Link_Layer
  imports Py_Text
begin

text \<open>
  The link layer of the 802.1X test module (\<open>subset/dot1x/authenticator\<close>): MAC addresses
  (\<open>mac_address.py\<close>), Ethernet frames (\<open>ethernet_packet.py\<close>) and EAPOL packets
  (\<open>auth_8021x.py\<close>). The lemmas show that printing and reading a MAC address are inverse, that
  both packet classes are codecs, and that a parsed Ethernet frame packs to the bytes it came from.
\<close>

subsection \<open>MAC addresses (mac_address.py)\<close>

record mac_address =
  address :: bytes

text \<open>
  \<open>_MAC_REGEX\<close>: six groups of one or two hexadecimal digits separated by colons, matched from
  the start to the end of the string.
\<close>

definition hex_group :: "ustr \<Rightarrow> bool" where
  "hex_group g \<longleftrightarrow> length g \<in> {1, 2} \<and> list_all (\<lambda>c. hex_value c \<noteq> None) g"

definition MAC_REGEX :: "ustr \<Rightarrow> bool" where
  "MAC_REGEX s \<longleftrightarrow> (let gs = split_on 58 s in length gs = 6 \<and> list_all hex_group gs)"

definition from_string :: "ustr \<Rightarrow> mac_address result" where
  "from_string s =
     (if \<not> MAC_REGEX s then Inl ValueError
      else bind_result (mapM_result int_base16 (split_on 58 s))
             (\<lambda>ns. if list_all (\<lambda>n. 0 \<le> n \<and> n < 256) ns
                    then Inr \<lparr>address = map word_of_int ns\<rparr> else Inl ValueError))"

definition mac_str :: "mac_address \<Rightarrow> ustr" where
  "mac_str m = join_with [58] (map format_02x (address m))"

definition mac_eq :: "mac_address \<Rightarrow> mac_address \<Rightarrow> bool" where
  "mac_eq m n \<longleftrightarrow> address m = address n"

lemma format_02x_group: "hex_group (format_02x b)"
  using unat_byte_less [of b] by (simp add: hex_group_def format_02x_def hex_value_digit)

lemma format_02x_no_colon: "58 \<notin> set (format_02x b)"
proof -
  have "unat b div 16 < 16" "unat b mod 16 < 16" using unat_byte_less [of b] by simp_all
  then show ?thesis using hex_digit_range by (fastforce simp: format_02x_def)
qed

lemma split_mac_str: "address m \<noteq> [] \<Longrightarrow> split_on 58 (mac_str m) = map format_02x (address m)"
  by (simp add: mac_str_def split_on_join format_02x_no_colon)

lemma mapM_int_base16: "mapM_result int_base16 (map format_02x bs) = Inr (map uint bs)"
  by (induction bs) (simp_all add: int_base16_format)

lemma from_string_mac_str:
  assumes "length (address m) = 6"
  shows "from_string (mac_str m) = Inr m"
proof -
  from assms have "address m \<noteq> []" by auto
  then have "MAC_REGEX (mac_str m)"
    using assms by (simp add: MAC_REGEX_def split_mac_str list_all_iff format_02x_group)
  then show ?thesis
    using \<open>address m \<noteq> []\<close>
    by (simp add: from_string_def split_mac_str mapM_int_base16 list_all_iff uint_byte_bounds
        comp_def)
qed

lemma int_base16_group: "hex_group g \<Longrightarrow> \<exists>n. int_base16 g = Inr n \<and> 0 \<le> n \<and> n < 256"
proof -
  assume g: "hex_group g"
  have v: "hex_value c = Some d \<Longrightarrow> d < 16" for c d
    by (auto simp: hex_value_def split: if_splits)
  from g consider c where "g = [c]" "hex_value c \<noteq> None"
    | c d where "g = [c, d]" "hex_value c \<noteq> None" "hex_value d \<noteq> None"
    by (auto simp: hex_group_def length_Suc_conv numeral_2_eq_2)
  then show ?thesis
  proof cases
    case 1
    with v show ?thesis by (fastforce simp: int_base16_def)
  next
    case 2
    then obtain a b where ab: "hex_value c = Some a" "hex_value d = Some b" by blast
    have "16 * a + b < 256" using v [OF ab(1)] v [OF ab(2)] by simp
    with 2 ab show ?thesis by (simp add: int_base16_def)
  qed
qed

lemma mapM_groups:
  "list_all hex_group gs \<Longrightarrow>
     \<exists>ns. mapM_result int_base16 gs = Inr ns \<and> length ns = length gs \<and> list_all (\<lambda>n. 0 \<le> n \<and> n < 256) ns"
proof (induction gs)
  case (Cons g gs)
  then obtain n ns where "int_base16 g = Inr n" "0 \<le> n" "n < 256" "mapM_result int_base16 gs = Inr ns"
    "length ns = length gs" "list_all (\<lambda>n. 0 \<le> n \<and> n < 256) ns"
    using int_base16_group by fastforce
  then show ?case by simp
qed simp

text \<open>
  The regular expression decides acceptance: a string that matches gives six bytes, every other
  string raises \<open>ValueError\<close>.
\<close>

lemma from_string_total:
  "(MAC_REGEX s \<longrightarrow> (\<exists>m. from_string s = Inr m \<and> length (address m) = 6)) \<and>
   (\<not> MAC_REGEX s \<longrightarrow> from_string s = Inl ValueError)"
proof -
  have "\<exists>m. from_string s = Inr m \<and> length (address m) = 6" if "MAC_REGEX s"
  proof -
    from that have "list_all hex_group (split_on 58 s)" and l: "length (split_on 58 s) = 6"
      by (simp_all add: MAC_REGEX_def Let_def)
    then obtain ns where "mapM_result int_base16 (split_on 58 s) = Inr ns" "length ns = 6"
      "list_all (\<lambda>n. 0 \<le> n \<and> n < 256) ns"
      using mapM_groups by fastforce
    then show ?thesis using that by (simp add: from_string_def)
  qed
  then show ?thesis by (simp add: from_string_def)
qed

subsection \<open>Ethernet frames (ethernet\_packet.py)\<close>

definition ETHERNET_HEADER_LENGTH :: nat where
  "ETHERNET_HEADER_LENGTH = 6 + 6 + 2"

record ethernet_packet =
  dst_mac :: mac_address
  src_mac :: mac_address
  ethertype :: int
  eth_data :: bytes

definition ethernet_packet_parse :: "bytes \<Rightarrow> ethernet_packet result" where
  "ethernet_packet_parse packed_message =
     bind_result
       (reraise [StructError] MessageParseError
          (struct_unpack [FS 6, FS 6, FH] (take ETHERNET_HEADER_LENGTH packed_message)))
       (\<lambda>vs. case vs of
          [VBytes dst, VBytes src, VInt et] \<Rightarrow>
            Inr \<lparr>dst_mac = \<lparr>address = dst\<rparr>, src_mac = \<lparr>address = src\<rparr>, ethertype = et,
                 eth_data = drop ETHERNET_HEADER_LENGTH packed_message\<rparr>
        | _ \<Rightarrow> Inl ValueError)"

definition ethernet_packet_pack :: "ethernet_packet \<Rightarrow> bytes result" where
  "ethernet_packet_pack p =
     bind_result
       (struct_pack [FS 6, FS 6, FH]
          [VBytes (address (dst_mac p)), VBytes (address (src_mac p)), VInt (ethertype p)])
       (\<lambda>header. Inr (header @ eth_data p))"

definition ethernet_ok :: "ethernet_packet \<Rightarrow> bool" where
  "ethernet_ok p \<longleftrightarrow> length (address (dst_mac p)) = 6 \<and> length (address (src_mac p)) = 6 \<and>
     0 \<le> ethertype p \<and> ethertype p < 65536"

lemma unpack_ethernet:
  "length d = 6 \<Longrightarrow> length s = 6 \<Longrightarrow>
     struct_unpack [FS 6, FS 6, FH] (d @ s @ [a, b]) =
       Inr [VBytes d, VBytes s, VInt (256 * uint a + uint b)]"
  by (simp add: struct_unpack_def)

lemma H_bytes:
  "0 \<le> n \<Longrightarrow> n < 65536 \<Longrightarrow>
     256 * uint (word_of_int (n div 256) :: byte) + uint (word_of_int (n mod 256) :: byte) = n"
  by (simp add: uint_word_of_int)

lemma H_of_bytes:
  "word_of_int ((256 * uint a + uint b) div 256) = (a :: byte)"
  "word_of_int ((256 * uint a + uint b) mod 256) = (b :: byte)"
  using uint_byte_bounds [of b] by (simp_all add: div_add1_eq)

lemma H_range: "0 \<le> 256 * uint (a :: byte) + uint (b :: byte)" "256 * uint a + uint b < 65536"
  using uint_byte_bounds [of a] uint_byte_bounds [of b] by linarith+

interpretation ethernet: codec ethernet_ok ethernet_packet_pack ethernet_packet_parse
proof
  fix p :: ethernet_packet
  assume ok: "ethernet_ok p"
  then show "\<exists>bs. ethernet_packet_pack p = Inr bs"
    by (auto simp: ethernet_packet_pack_def ethernet_ok_def)
  fix bs
  assume "ethernet_packet_pack p = Inr bs"
  then have "bs = address (dst_mac p) @ address (src_mac p) @
      [word_of_int (ethertype p div 256), word_of_int (ethertype p mod 256)] @ eth_data p"
    using ok by (auto simp: ethernet_packet_pack_def ethernet_ok_def)
  then show "ethernet_packet_parse bs = Inr p"
    using ok by (simp add: ethernet_packet_parse_def ethernet_ok_def ETHERNET_HEADER_LENGTH_def
        unpack_ethernet [simplified] H_bytes)
qed

lemma ethernet_packet_parse_exact:
  "ethernet_packet_parse bs =
     (if length bs < 14 then Inl MessageParseError
      else Inr \<lparr>dst_mac = \<lparr>address = take 6 bs\<rparr>, src_mac = \<lparr>address = py_slice 6 12 bs\<rparr>,
                ethertype = 256 * uint (bs ! 12) + uint (bs ! 13), eth_data = drop 14 bs\<rparr>)"
  by (auto simp: ethernet_packet_parse_def ETHERNET_HEADER_LENGTH_def struct_unpack_def py_slice_def
      take_drop min_def)

lemma ethernet_reassemble:
  assumes "14 \<le> length bs"
  shows "take 6 bs @ py_slice 6 12 bs @ [bs ! 12, bs ! 13] @ drop 14 bs = bs"
proof -
  have "drop 12 bs = bs ! 12 # bs ! 13 # drop 14 bs"
    using assms by (simp add: Cons_nth_drop_Suc [symmetric] numeral_eq_Suc)
  then have "py_slice 6 12 bs @ [bs ! 12, bs ! 13] @ drop 14 bs = drop 6 bs"
    using append_take_drop_id [of 6 "drop 6 bs"] by (simp add: py_slice_def)
  then show ?thesis by (metis append_take_drop_id)
qed


lemma ethernet_pack_parse:
  assumes "ethernet_packet_parse bs = Inr p"
  shows "ethernet_ok p \<and> ethernet_packet_pack p = Inr bs"
proof -
  from assms have l: "14 \<le> length bs"
    and p: "p = \<lparr>dst_mac = \<lparr>address = take 6 bs\<rparr>, src_mac = \<lparr>address = py_slice 6 12 bs\<rparr>,
                ethertype = 256 * uint (bs ! 12) + uint (bs ! 13), eth_data = drop 14 bs\<rparr>"
    by (auto simp: ethernet_packet_parse_exact split: if_splits)
  from l have "ethernet_ok p" using H_range by (simp add: p ethernet_ok_def)
  moreover have "ethernet_packet_pack p = Inr bs"
    using l ethernet_reassemble [OF l]
    by (simp add: p ethernet_packet_pack_def H_range H_of_bytes)
  ultimately show ?thesis by blast
qed

subsection \<open>EAPOL packets (auth\_8021x.py)\<close>

definition AUTH_8021X_HEADER_LENGTH :: nat where
  "AUTH_8021X_HEADER_LENGTH = 1 + 1 + 2"

record auth_8021x =
  version :: int
  packet_type :: int
  eapol_data :: bytes

definition auth_8021x_parse :: "bytes \<Rightarrow> auth_8021x result" where
  "auth_8021x_parse packed_message =
     bind_result
       (reraise [StructError] MessageParseError
          (struct_unpack [FB, FB, FH] (take AUTH_8021X_HEADER_LENGTH packed_message)))
       (\<lambda>vs. case vs of
          [VInt v, VInt t, VInt len] \<Rightarrow>
            Inr \<lparr>version = v, packet_type = t,
                 eapol_data = py_slice AUTH_8021X_HEADER_LENGTH
                   (AUTH_8021X_HEADER_LENGTH + nat len) packed_message\<rparr>
        | _ \<Rightarrow> Inl ValueError)"

definition auth_8021x_pack :: "auth_8021x \<Rightarrow> bytes result" where
  "auth_8021x_pack p =
     bind_result
       (struct_pack [FB, FB, FH]
          [VInt (version p), VInt (packet_type p), VInt (int (length (eapol_data p)))])
       (\<lambda>header. Inr (header @ eapol_data p))"

definition auth_8021x_ok :: "auth_8021x \<Rightarrow> bool" where
  "auth_8021x_ok p \<longleftrightarrow> 0 \<le> version p \<and> version p < 256 \<and>
     0 \<le> packet_type p \<and> packet_type p < 256 \<and> length (eapol_data p) < 65536"

lemma auth_8021x_pack_ok:
  "auth_8021x_ok p \<Longrightarrow> auth_8021x_pack p =
     Inr ([word_of_int (version p), word_of_int (packet_type p),
           word_of_int (int (length (eapol_data p)) div 256),
           word_of_int (int (length (eapol_data p)) mod 256)] @ eapol_data p)"
  by (simp add: auth_8021x_pack_def auth_8021x_ok_def)

lemma auth_8021x_parse_header:
  "auth_8021x_parse (a # b # c # d # r) =
     Inr \<lparr>version = uint a, packet_type = uint b, eapol_data = take (nat (256 * uint c + uint d)) r\<rparr>"
  by (simp add: auth_8021x_parse_def AUTH_8021X_HEADER_LENGTH_def struct_simps py_slice_def)

lemma auth_8021x_parse_short:
  "length bs < 4 \<Longrightarrow> auth_8021x_parse bs = Inl MessageParseError"
  by (simp add: auth_8021x_parse_def AUTH_8021X_HEADER_LENGTH_def struct_unpack_def)

interpretation eapol: codec auth_8021x_ok auth_8021x_pack auth_8021x_parse
proof
  fix p :: auth_8021x
  assume ok: "auth_8021x_ok p"
  then show "\<exists>bs. auth_8021x_pack p = Inr bs" by (simp add: auth_8021x_pack_ok)
  fix bs
  assume "auth_8021x_pack p = Inr bs"
  then show "auth_8021x_parse bs = Inr p"
    using ok by (auto simp: auth_8021x_pack_ok auth_8021x_parse_header auth_8021x_ok_def
        H_bytes uint_byte_of_int)
qed

text \<open>
  Padding after the declared length, which a switch adds to short frames, does not reach the
  payload.
\<close>

lemma auth_8021x_parse_padded:
  "auth_8021x_ok p \<Longrightarrow> auth_8021x_pack p = Inr bs \<Longrightarrow> auth_8021x_parse (bs @ padding) = Inr p"
  by (auto simp: auth_8021x_pack_ok auth_8021x_parse_header auth_8021x_ok_def H_bytes
      uint_byte_of_int)

subsection \<open>Properties\<close>

text \<open>\<open>MacAddress.from_string\<close> accepts exactly the strings \<open>_MAC_REGEX\<close> matches; what it
  returns has six bytes, and a string it does not accept raises \<open>ValueError\<close>, nothing else.\<close>

theorem mac_from_string_decides:
  "case from_string s of
     Inr m \<Rightarrow> MAC_REGEX s \<and> length (address m) = 6
   | Inl e \<Rightarrow> \<not> MAC_REGEX s \<and> e = ValueError"
  using from_string_total [of s] by (cases "MAC_REGEX s") auto

end
