(* ===== verification/Eap_Packets.thy ===== *)
theory Eap_Packets
  imports Link_Layer
begin

text \<open>
  EAP packets (\<open>subset/dot1x/authenticator/eap.py\<close>): one constructor per packet class, the
  registry of parsers that \<open>register_parser\<close> fills, \<open>Eap.parse\<close> and the \<open>pack\<close> method of
  every class. The lemmas show that the classes form a codec on the packets the format can hold,
  that a parsed packet other than a Legacy-NAK packs to the bytes it came from, and what a
  Legacy-NAK loses when it is packed again.
\<close>

subsection \<open>Packet classes\<close>

definition EAP_HEADER_LENGTH :: nat where
  "EAP_HEADER_LENGTH = 1 + 1 + 2"

definition EAP_TYPE_LENGTH :: nat where
  "EAP_TYPE_LENGTH = 1"

lemma eap_lengths [simp]: "EAP_HEADER_LENGTH = 4" "EAP_TYPE_LENGTH = 1"
  by (simp_all add: EAP_HEADER_LENGTH_def EAP_TYPE_LENGTH_def)

abbreviation (input) REQUEST :: int where "REQUEST \<equiv> 1"
abbreviation (input) RESPONSE :: int where "RESPONSE \<equiv> 2"
abbreviation (input) SUCCESS :: int where "SUCCESS \<equiv> 3"
abbreviation (input) FAILURE :: int where "FAILURE \<equiv> 4"

text \<open>
  Arguments are \<open>code\<close>, \<open>packet_id\<close> and the fields of the class; \<open>desired_auth_types\<close>
  of a Legacy-NAK is the tuple that \<open>struct.unpack\<close> returns.
\<close>

datatype eap =
    EapIdentity int int ustr
  | EapMd5Challenge int int bytes bytes
  | EapSuccess int
  | EapFailure int
  | EapLegacyNak int int "bytes list"
  | EapTLS int int int bytes
  | EapTTLS int int int bytes
  | EapPEAP int int int bytes

datatype eap_class = IDENTITY | LEGACY_NAK | MD5_CHALLENGE | TLS | TTLS | PEAP

fun PACKET_TYPE :: "eap_class \<Rightarrow> int" where
  "PACKET_TYPE IDENTITY = 1"
| "PACKET_TYPE LEGACY_NAK = 3"
| "PACKET_TYPE MD5_CHALLENGE = 4"
| "PACKET_TYPE TLS = 13"
| "PACKET_TYPE TTLS = 21"
| "PACKET_TYPE PEAP = 25"

definition PARSERS :: "int \<Rightarrow> eap_class option" where
  "PARSERS t =
     (if t = 1 then Some IDENTITY else if t = 4 then Some MD5_CHALLENGE
      else if t = 3 then Some LEGACY_NAK else if t = 13 then Some TLS
      else if t = 21 then Some TTLS else if t = 25 then Some PEAP else None)"

interpretation eap_parsers: registry PACKET_TYPE PARSERS
proof
  fix c k
  show "PARSERS (PACKET_TYPE c) = Some c" by (cases c) (simp_all add: PARSERS_def)
  show "PARSERS k = Some c \<Longrightarrow> PACKET_TYPE c = k"
    by (auto simp: PARSERS_def split: if_splits)
qed

subsection \<open>Parsing\<close>

definition eap_identity_parse :: "int \<Rightarrow> int \<Rightarrow> bytes \<Rightarrow> eap result" where
  "eap_identity_parse code packet_id packed_message =
     bind_result (reraise [UnicodeError] MessageParseError (utf8_decode packed_message))
       (\<lambda>identity. Inr (EapIdentity code packet_id identity))"

definition eap_md5_challenge_parse :: "int \<Rightarrow> int \<Rightarrow> bytes \<Rightarrow> eap result" where
  "eap_md5_challenge_parse code packet_id packed_message =
     bind_result
       (reraise [StructError] MessageParseError (struct_unpack [FB] (take 1 packed_message)))
       (\<lambda>vs. case vs of
          [VInt value_length] \<Rightarrow>
            Inr (EapMd5Challenge code packet_id
                  (py_slice 1 (1 + nat value_length) packed_message)
                  (drop (1 + nat value_length) packed_message))
        | _ \<Rightarrow> Inl ValueError)"

definition eap_legacy_nak_parse :: "int \<Rightarrow> int \<Rightarrow> bytes \<Rightarrow> eap result" where
  "eap_legacy_nak_parse code packet_id packed_msg =
     (let value_len = length packed_msg in
      bind_result (reraise [StructError] MessageParseError (struct_unpack [FS value_len] packed_msg))
        (\<lambda>vs. case vs of
           [VBytes b] \<Rightarrow> Inr (EapLegacyNak code packet_id [b])
         | _ \<Rightarrow> Inl ValueError))"

definition eap_tls_base_parse :: "(int \<Rightarrow> int \<Rightarrow> int \<Rightarrow> bytes \<Rightarrow> eap) \<Rightarrow> int \<Rightarrow> int \<Rightarrow> bytes \<Rightarrow> eap result" where
  "eap_tls_base_parse cls code packet_id packed_msg =
     (let value_len = length packed_msg;
          fmt = (if value_len > 1 then [FB, FS (value_len - 1)] else [FB]) in
      bind_result (reraise [StructError] MessageParseError (struct_unpack fmt packed_msg))
        (\<lambda>vs. if value_len > 1
          then (case vs of [VInt flags, VBytes extra_data] \<Rightarrow> Inr (cls code packet_id flags extra_data)
                | _ \<Rightarrow> Inl ValueError)
          else (case vs of VInt flags # _ \<Rightarrow> Inr (cls code packet_id flags []) | _ \<Rightarrow> Inl ValueError)))"

fun eap_class_parse :: "eap_class \<Rightarrow> int \<Rightarrow> int \<Rightarrow> bytes \<Rightarrow> eap result" where
  "eap_class_parse IDENTITY = eap_identity_parse"
| "eap_class_parse MD5_CHALLENGE = eap_md5_challenge_parse"
| "eap_class_parse LEGACY_NAK = eap_legacy_nak_parse"
| "eap_class_parse TLS = eap_tls_base_parse EapTLS"
| "eap_class_parse TTLS = eap_tls_base_parse EapTTLS"
| "eap_class_parse PEAP = eap_tls_base_parse EapPEAP"

definition eap_packet_parse :: "bytes \<Rightarrow> eap result" where
  "eap_packet_parse packed_message =
     bind_result
       (reraise [StructError] MessageParseError
          (struct_unpack [FB, FB, FH] (take EAP_HEADER_LENGTH packed_message)))
       (\<lambda>vs. case vs of
          [VInt code, VInt packet_id, VInt len] \<Rightarrow>
            if code = REQUEST \<or> code = RESPONSE then
              bind_result
                (reraise [StructError] MessageParseError
                   (struct_unpack [FB]
                      (py_slice EAP_HEADER_LENGTH (EAP_HEADER_LENGTH + EAP_TYPE_LENGTH) packed_message)))
                (\<lambda>us. case us of
                   [VInt pkt_type] \<Rightarrow>
                     (let data = py_slice (EAP_HEADER_LENGTH + EAP_TYPE_LENGTH) (nat len) packed_message in
                      case PARSERS pkt_type of
                        None \<Rightarrow> Inl MessageParseError
                      | Some cls \<Rightarrow> eap_class_parse cls code packet_id data)
                 | _ \<Rightarrow> Inl ValueError)
            else if code = SUCCESS then Inr (EapSuccess packet_id)
            else if code = FAILURE then Inr (EapFailure packet_id)
            else Inl MessageParseError
        | _ \<Rightarrow> Inl ValueError)"

subsection \<open>Packing\<close>

definition eap_base_pack :: "int \<Rightarrow> int \<Rightarrow> eap_class \<Rightarrow> bytes \<Rightarrow> bytes result" where
  \<comment> \<open>\<open>Eap.pack\<close>\<close>
  "eap_base_pack code packet_id cls packed_body =
     bind_result
       (struct_pack [FB, FB, FH, FB]
          [VInt code, VInt packet_id,
           VInt (int (EAP_HEADER_LENGTH + EAP_TYPE_LENGTH + length packed_body)),
           VInt (PACKET_TYPE cls)])
       (\<lambda>header. Inr (header @ packed_body))"

definition eap_tls_base_pack :: "int \<Rightarrow> int \<Rightarrow> eap_class \<Rightarrow> int \<Rightarrow> bytes \<Rightarrow> bytes result" where
  "eap_tls_base_pack code packet_id cls flags extra_data =
     bind_result
       (if extra_data \<noteq> []
        then struct_pack [FB, FS (length extra_data)] [VInt flags, VBytes extra_data]
        else struct_pack [FB] [VInt flags])
       (\<lambda>packed. eap_base_pack code packet_id cls packed)"

fun eap_packet_pack :: "eap \<Rightarrow> bytes result" where
  "eap_packet_pack (EapIdentity code packet_id identity) =
     bind_result (utf8_encode identity)
       (\<lambda>packed_identity. eap_base_pack code packet_id IDENTITY packed_identity)"
| "eap_packet_pack (EapMd5Challenge code packet_id challenge extra_data) =
     bind_result (struct_pack [FB] [VInt (int (length challenge))])
       (\<lambda>value_length. eap_base_pack code packet_id MD5_CHALLENGE (value_length @ challenge @ extra_data))"
| "eap_packet_pack (EapSuccess packet_id) =
     struct_pack [FB, FB, FH] [VInt SUCCESS, VInt packet_id, VInt (int EAP_HEADER_LENGTH)]"
| "eap_packet_pack (EapFailure packet_id) =
     struct_pack [FB, FB, FH] [VInt FAILURE, VInt packet_id, VInt (int EAP_HEADER_LENGTH)]"
| "eap_packet_pack (EapLegacyNak code packet_id desired_auth_types) =
     bind_result (struct_pack [FS (length desired_auth_types)] (map VBytes desired_auth_types))
       (\<lambda>packed_legacy_nak. eap_base_pack code packet_id LEGACY_NAK packed_legacy_nak)"
| "eap_packet_pack (EapTLS code packet_id flags extra_data) =
     eap_tls_base_pack code packet_id TLS flags extra_data"
| "eap_packet_pack (EapTTLS code packet_id flags extra_data) =
     eap_tls_base_pack code packet_id TTLS flags extra_data"
| "eap_packet_pack (EapPEAP code packet_id flags extra_data) =
     eap_tls_base_pack code packet_id PEAP flags extra_data"

subsection \<open>The packets the format can hold\<close>

definition header_ok :: "int \<Rightarrow> int \<Rightarrow> bool" where
  "header_ok code packet_id \<longleftrightarrow>
     (code = REQUEST \<or> code = RESPONSE) \<and> 0 \<le> packet_id \<and> packet_id < 256"

definition tls_ok :: "int \<Rightarrow> int \<Rightarrow> int \<Rightarrow> bytes \<Rightarrow> bool" where
  "tls_ok code packet_id flags extra_data \<longleftrightarrow>
     header_ok code packet_id \<and> 0 \<le> flags \<and> flags < 256 \<and> length extra_data + 6 < 65536"

fun eap_ok :: "eap \<Rightarrow> bool" where
  "eap_ok (EapIdentity code packet_id identity) =
     (header_ok code packet_id \<and>
      (case utf8_encode identity of Inl _ \<Rightarrow> False | Inr bs \<Rightarrow> length bs + 5 < 65536))"
| "eap_ok (EapMd5Challenge code packet_id challenge extra_data) =
     (header_ok code packet_id \<and> length challenge < 256 \<and>
      length challenge + length extra_data + 6 < 65536)"
| "eap_ok (EapSuccess packet_id) = (0 \<le> packet_id \<and> packet_id < 256)"
| "eap_ok (EapFailure packet_id) = (0 \<le> packet_id \<and> packet_id < 256)"
| "eap_ok (EapLegacyNak code packet_id desired_auth_types) =
     (header_ok code packet_id \<and> (case desired_auth_types of [t] \<Rightarrow> length t = 1 | _ \<Rightarrow> False))"
| "eap_ok (EapTLS code packet_id flags extra_data) = tls_ok code packet_id flags extra_data"
| "eap_ok (EapTTLS code packet_id flags extra_data) = tls_ok code packet_id flags extra_data"
| "eap_ok (EapPEAP code packet_id flags extra_data) = tls_ok code packet_id flags extra_data"

subsection \<open>Headers\<close>

lemma PACKET_TYPE_range: "0 \<le> PACKET_TYPE c \<and> PACKET_TYPE c < 256"
  by (cases c) simp_all

lemma eap_base_pack_ok:
  assumes "0 \<le> code" "code < 256" "0 \<le> packet_id" "packet_id < 256" "length body + 5 < 65536"
  shows "eap_base_pack code packet_id cls body =
    Inr ([word_of_int code, word_of_int packet_id, word_of_int ((int (length body) + 5) div 256),
          word_of_int ((int (length body) + 5) mod 256), word_of_int (PACKET_TYPE cls)] @ body)"
  using assms PACKET_TYPE_range [of cls]
  by (simp add: eap_base_pack_def add.commute)

lemma eap_base_pack_Inr:
  "eap_base_pack code packet_id cls body = Inr bs \<Longrightarrow>
     0 \<le> code \<and> code < 256 \<and> 0 \<le> packet_id \<and> packet_id < 256 \<and> length body + 5 < 65536"
  by (auto simp: eap_base_pack_def bind_result_eq_Inr
      split: if_splits)

lemma eap_packet_parse_request:
  assumes "uint a = REQUEST \<or> uint a = RESPONSE"
  shows "eap_packet_parse (a # b # c # d # t # r) =
    (case PARSERS (uint t) of
       None \<Rightarrow> Inl MessageParseError
     | Some cls \<Rightarrow> eap_class_parse cls (uint a) (uint b) (take (nat (256 * uint c + uint d) - 5) r))"
  using assms
  by (simp add: eap_packet_parse_def struct_simps
      py_slice_def)

lemma eap_packet_parse_final:
  "uint a = SUCCESS \<Longrightarrow> eap_packet_parse (a # b # c # d # r) = Inr (EapSuccess (uint b))"
  "uint a = FAILURE \<Longrightarrow> eap_packet_parse (a # b # c # d # r) = Inr (EapFailure (uint b))"
  by (simp_all add: eap_packet_parse_def struct_simps)

lemma eap_packet_parse_base_pack:
  assumes "eap_base_pack code packet_id cls body = Inr bs" and "header_ok code packet_id"
  shows "eap_packet_parse bs = eap_class_parse cls code packet_id body"
proof -
  have len: "length body + 5 < 65536" using eap_base_pack_Inr [OF assms(1)] by simp
  have "bs = [word_of_int code, word_of_int packet_id, word_of_int ((int (length body) + 5) div 256),
          word_of_int ((int (length body) + 5) mod 256), word_of_int (PACKET_TYPE cls)] @ body"
    using assms len by (auto simp: eap_base_pack_ok header_ok_def)
  moreover have "uint (word_of_int code :: byte) = code" "uint (word_of_int packet_id :: byte) = packet_id"
    "uint (word_of_int (PACKET_TYPE cls) :: byte) = PACKET_TYPE cls"
    using assms(2) PACKET_TYPE_range [of cls] by (auto simp: header_ok_def uint_byte_of_int)
  moreover have "256 * uint (word_of_int ((int (length body) + 5) div 256) :: byte) +
      uint (word_of_int ((int (length body) + 5) mod 256) :: byte) = int (length body) + 5"
    using len by (intro H_bytes) simp_all
  moreover have "code = REQUEST \<or> code = RESPONSE" using assms(2) by (simp add: header_ok_def)
  ultimately show ?thesis
    by (simp add: eap_packet_parse_request eap_parsers.find_key nat_add_distrib)
qed

subsection \<open>Bodies\<close>

lemma eap_tls_base_parse_body:
  "eap_tls_base_parse cls code packet_id body =
     (case body of [] \<Rightarrow> Inl MessageParseError | f # e \<Rightarrow> Inr (cls code packet_id (uint f) e))"
  by (auto simp: eap_tls_base_parse_def struct_simps split: list.splits)

lemma eap_md5_challenge_parse_body:
  "eap_md5_challenge_parse code packet_id body =
     (case body of [] \<Rightarrow> Inl MessageParseError
      | l # r \<Rightarrow> Inr (EapMd5Challenge code packet_id (take (nat (uint l)) r) (drop (nat (uint l)) r)))"
  by (auto simp: eap_md5_challenge_parse_def struct_simps py_slice_def split: list.splits)

lemma eap_legacy_nak_parse_body:
  "eap_legacy_nak_parse code packet_id body = Inr (EapLegacyNak code packet_id [body])"
  by (simp add: eap_legacy_nak_parse_def struct_simps)

lemma eap_tls_base_pack_body:
  "eap_tls_base_pack code packet_id cls flags e =
     (if 0 \<le> flags \<and> flags < 256 then eap_base_pack code packet_id cls (word_of_int flags # e)
      else Inl StructError)"
  by (simp add: eap_tls_base_pack_def)

lemmas eap_bodies =
  eap_tls_base_parse_body eap_md5_challenge_parse_body eap_legacy_nak_parse_body
  eap_tls_base_pack_body

lemma header_ok_range: "header_ok code i \<Longrightarrow> 0 \<le> code \<and> code < 256 \<and> 0 \<le> i \<and> i < 256"
  by (auto simp: header_ok_def)

lemma eap_packet_total: "eap_ok e \<Longrightarrow> \<exists>bs. eap_packet_pack e = Inr bs"
proof (cases e)
  case (EapLegacyNak code i ts)
  moreover assume "eap_ok e"
  ultimately show ?thesis
    using header_ok_range
    by (auto simp: eap_base_pack_ok split: list.splits)
qed (auto simp: eap_base_pack_ok eap_tls_base_pack_body tls_ok_def
    dest: header_ok_range split: sum.splits)

lemma tls_roundtrip:
  assumes "tls_ok code i flags e" and "eap_tls_base_pack code i cls flags e = Inr bs"
    and "eap_class_parse cls = eap_tls_base_parse con"
  shows "eap_packet_parse bs = Inr (con code i flags e)"
  using assms
  by (auto simp: tls_ok_def eap_bodies eap_packet_parse_base_pack uint_byte_of_int split: if_splits)

lemma eap_packet_roundtrip:
  assumes "eap_ok e" and "eap_packet_pack e = Inr bs"
  shows "eap_packet_parse bs = Inr e"
proof (cases e)
  case (EapIdentity code i s)
  with assms obtain b where b: "utf8_encode s = Inr b" "length b + 5 < 65536" "header_ok code i"
    "eap_base_pack code i IDENTITY b = Inr bs"
    by (auto split: sum.splits)
  then show ?thesis
    using EapIdentity by (simp add: eap_packet_parse_base_pack eap_identity_parse_def utf8_decode_encode)
next
  case (EapMd5Challenge code i c x)
  with assms show ?thesis
    by (auto simp: eap_packet_parse_base_pack eap_bodies uint_byte_of_int unat_byte_of_nat)
next
  case (EapSuccess i)
  with assms show ?thesis
    by (auto simp: eap_packet_parse_final uint_byte_of_int)
next
  case (EapFailure i)
  with assms show ?thesis
    by (auto simp: eap_packet_parse_final uint_byte_of_int)
next
  case (EapLegacyNak code i ts)
  with assms obtain t where "ts = [t]" "length t = 1" "header_ok code i"
    "eap_base_pack code i LEGACY_NAK t = Inr bs"
    by (auto split: list.splits)
  then show ?thesis using EapLegacyNak by (simp add: eap_packet_parse_base_pack eap_bodies)
qed (use assms in \<open>auto intro: tls_roundtrip\<close>)

interpretation eap_codec: codec eap_ok eap_packet_pack eap_packet_parse
  by unfold_locales (rule eap_packet_total, assumption, rule eap_packet_roundtrip)

subsection \<open>Packing what was parsed\<close>

text \<open>
  A packet that is consistent with itself: the length field is the length, Success and Failure end
  after the header, the MD5 value lies within the packet, and it is not a Legacy-NAK.
\<close>

definition eap_consistent :: "bytes \<Rightarrow> bool" where
  "eap_consistent m \<longleftrightarrow>
     4 \<le> length m \<and> 256 * uint (m ! 2) + uint (m ! 3) = int (length m) \<and>
     (uint (m ! 0) = SUCCESS \<or> uint (m ! 0) = FAILURE \<longrightarrow> length m = 4) \<and>
     (uint (m ! 0) = REQUEST \<or> uint (m ! 0) = RESPONSE \<longrightarrow>
        5 \<le> length m \<and> uint (m ! 4) \<noteq> 3 \<and>
        (uint (m ! 4) = 4 \<longrightarrow> 6 \<le> length m \<and> uint (m ! 5) \<le> int (length m) - 6))"

lemma eap_packet_parse_bad_code:
  assumes "uint a \<notin> {REQUEST, RESPONSE, SUCCESS, FAILURE}"
  shows "eap_packet_parse (a # b # c # d # r) = Inl MessageParseError"
  using assms by (simp add: eap_packet_parse_def struct_simps)

lemma eap_base_pack_received:
  assumes "256 * uint c + uint d = int (length body) + 5" and "PACKET_TYPE cls = uint t"
    and "length body + 5 < 65536"
  shows "eap_base_pack (uint a) (uint b) cls body = Inr (a # b # c # d # t # body)"
proof -
  have "(int (length body) + 5) div 256 = uint c" "(int (length body) + 5) mod 256 = uint d"
    using assms(1) [symmetric] by (simp_all add: div_add1_eq)
  then show ?thesis
    using assms(2,3) uint_byte_bounds [of a] uint_byte_bounds [of b] by (simp add: eap_base_pack_ok)
qed

lemma eap_packet_pack_parse_request:
  assumes e: "eap_class_parse cls (uint a) (uint b) body = Inr e"
    and len: "256 * uint c + uint d = int (length body) + 5" and t: "PACKET_TYPE cls = uint t"
    and small: "length body + 5 < 65536"
    and md5: "cls = MD5_CHALLENGE \<Longrightarrow> body \<noteq> [] \<and> uint (hd body) < int (length body)"
    and nak: "cls \<noteq> LEGACY_NAK"
  shows "eap_packet_pack e = Inr (a # b # c # d # t # body)"
proof (cases cls)
  case IDENTITY
  with e obtain s where "utf8_decode body = Inr s" "e = EapIdentity (uint a) (uint b) s"
    by (auto simp: eap_identity_parse_def bind_result_eq_Inr)
  then show ?thesis
    using eap_base_pack_received [OF len t small, of a b] IDENTITY by (simp add: utf8_encode_decode)
next
  case MD5_CHALLENGE
  with md5 obtain l r where b: "body = l # r" "uint l \<le> int (length r)"
    by (cases body) auto
  with e MD5_CHALLENGE
  have "e = EapMd5Challenge (uint a) (uint b) (take (nat (uint l)) r) (drop (nat (uint l)) r)"
    by (simp add: eap_bodies)
  moreover have "length (take (nat (uint l)) r) = nat (uint l)"
    using b(2) by (subst length_take) linarith
  ultimately show ?thesis
    using eap_base_pack_received [OF len t small, of a b] MD5_CHALLENGE b(1)
    by simp
next
  case LEGACY_NAK
  with nak show ?thesis by simp
qed (use e eap_base_pack_received [OF len t small, of a b] in
    \<open>auto simp: eap_bodies split: list.splits\<close>)

lemma eap_final_pack:
  assumes "256 * uint c + uint d = 4"
  shows "struct_pack [FB, FB, FH] [VInt (uint a), VInt (uint b), VInt 4] = Inr [a, b, c, d]"
proof -
  have "word_of_int (4 div 256) = c" "word_of_int (4 mod 256) = d"
    by (simp_all only: assms [symmetric] H_of_bytes)
  then show ?thesis using uint_byte_bounds [of a] uint_byte_bounds [of b] by simp
qed

theorem eap_packet_pack_parse:
  assumes p: "eap_packet_parse m = Inr e" and c: "eap_consistent m"
  shows "eap_packet_pack e = Inr m"
proof -
  from c obtain a b c' d r where m: "m = a # b # c' # d # r"
    by (auto simp: eap_consistent_def numeral_eq_Suc Suc_le_length_iff)
  consider "uint a = SUCCESS" | "uint a = FAILURE" | "uint a = REQUEST \<or> uint a = RESPONSE"
    using p eap_packet_parse_bad_code [of a b c' d r] m by fastforce
  then show ?thesis
  proof cases
    case 1
    with c m have "r = []" "256 * uint c' + uint d = 4" by (auto simp: eap_consistent_def)
    moreover have "e = EapSuccess (uint b)" using p m 1 by (simp add: eap_packet_parse_final)
    ultimately show ?thesis using m 1 eap_final_pack [of c' d a b] by simp
  next
    case 2
    with c m have "r = []" "256 * uint c' + uint d = 4" by (auto simp: eap_consistent_def)
    moreover have "e = EapFailure (uint b)" using p m 2 by (simp add: eap_packet_parse_final)
    ultimately show ?thesis using m 2 eap_final_pack [of c' d a b] by simp
  next
    case 3
    with c m obtain t body where r: "r = t # body" by (cases r) (auto simp: eap_consistent_def)
    have len: "256 * uint c' + uint d = int (length body) + 5"
      using c m r by (simp add: eap_consistent_def)
    have small: "length body + 5 < 65536"
      using len H_range [of c' d] by simp
    obtain cls where cls: "PARSERS (uint t) = Some cls"
      and e: "eap_class_parse cls (uint a) (uint b) body = Inr e"
      using p 3 m r len by (auto simp: eap_packet_parse_request split: option.splits)
    from cls have t: "PACKET_TYPE cls = uint t" by (rule eap_parsers.find_sound)
    show ?thesis unfolding m r
    proof (rule eap_packet_pack_parse_request [OF e len t small])
      show "cls \<noteq> LEGACY_NAK" using c m r t 3 by (auto simp: eap_consistent_def)
      show "body \<noteq> [] \<and> uint (hd body) < int (length body)" if "cls = MD5_CHALLENGE"
        using c m r t 3 that by (cases body) (auto simp: eap_consistent_def)
    qed
  qed
qed

text \<open>
  \<open>EapLegacyNak.parse\<close> keeps the tuple of \<open>struct.unpack\<close>, which has one element, and
  \<open>pack\<close> uses the length of that tuple as the length of the list of types: exactly one byte is
  packed, whatever was received.
\<close>

lemma eap_legacy_nak_repack:
  assumes "header_ok code packet_id"
    and "eap_class_parse LEGACY_NAK code packet_id types = Inr e"
  shows "eap_packet_pack e = eap_base_pack code packet_id LEGACY_NAK [if types = [] then 0 else hd types]"
  using assms by (cases types) (auto simp: eap_bodies)

end
