(* ===== verification/Eap_Messages.thy ===== *)
theory Eap_Messages
  imports Eap_Packets
begin

text \<open>
  The EAP half of \<open>subset/dot1x/authenticator/message_parser.py\<close>: the message classes, the
  parsers from an Ethernet frame down to a message and the packers back. (The RADIUS half of that
  file is in \<open>Radius_Messages\<close>.) The lemmas show that what the module sends it would read back,
  that every failure of the parsers is a \<open>MessageParseError\<close>, which the receive loop catches, and
  that a message parsed from the wire is forwarded byte for byte.
\<close>

subsection \<open>Messages\<close>

text \<open>
  The field \<open>src_mac\<close> holds a \<open>MacAddress\<close> when the message was parsed, a string when the
  module built it itself, and \<open>None\<close> when it was read from a RADIUS attribute.
\<close>

datatype mac_ref = NoMac | MacObj mac_address | MacStr ustr

datatype eap_message =
    SuccessMessage mac_ref int
  | FailureMessage mac_ref int
  | IdentityMessage mac_ref int int ustr
  | LegacyNakMessage mac_ref int int "bytes list"
  | Md5ChallengeMessage mac_ref int int bytes bytes
  | TlsMessage mac_ref int int int bytes
  | TtlsMessage mac_ref int int int bytes
  | PeapMessage mac_ref int int int bytes
  | EapolStartMessage mac_ref
  | EapolLogoffMessage mac_ref

fun message_src_mac :: "eap_message \<Rightarrow> mac_ref" where
  "message_src_mac (SuccessMessage s _) = s"
| "message_src_mac (FailureMessage s _) = s"
| "message_src_mac (IdentityMessage s _ _ _) = s"
| "message_src_mac (LegacyNakMessage s _ _ _) = s"
| "message_src_mac (Md5ChallengeMessage s _ _ _ _) = s"
| "message_src_mac (TlsMessage s _ _ _ _) = s"
| "message_src_mac (TtlsMessage s _ _ _ _) = s"
| "message_src_mac (PeapMessage s _ _ _ _) = s"
| "message_src_mac (EapolStartMessage s) = s"
| "message_src_mac (EapolLogoffMessage s) = s"

text \<open>The \<open>build\<close> class methods, chosen by \<open>EAP_MESSAGES\<close> from the class of the packet.\<close>

fun message_build :: "mac_ref \<Rightarrow> eap \<Rightarrow> eap_message" where
  "message_build src (EapIdentity code packet_id identity) = IdentityMessage src packet_id code identity"
| "message_build src (EapMd5Challenge code packet_id challenge extra_data) =
     Md5ChallengeMessage src packet_id code challenge extra_data"
| "message_build src (EapLegacyNak code packet_id desired_auth_types) =
     LegacyNakMessage src packet_id code desired_auth_types"
| "message_build src (EapTLS code packet_id flags extra_data) = TlsMessage src packet_id code flags extra_data"
| "message_build src (EapTTLS code packet_id flags extra_data) = TtlsMessage src packet_id code flags extra_data"
| "message_build src (EapPEAP code packet_id flags extra_data) = PeapMessage src packet_id code flags extra_data"
| "message_build src (EapSuccess packet_id) = SuccessMessage src packet_id"
| "message_build src (EapFailure packet_id) = FailureMessage src packet_id"

subsection \<open>MessageParser\<close>

definition eap_parse :: "bytes \<Rightarrow> mac_ref \<Rightarrow> eap_message result" where
  "eap_parse data src = bind_result (eap_packet_parse data) (\<lambda>eap. Inr (message_build src eap))"

definition one_x_parse :: "bytes \<Rightarrow> mac_ref \<Rightarrow> eap_message result" where
  "one_x_parse data src =
     bind_result (auth_8021x_parse data)
       (\<lambda>p. if packet_type p = 0 then eap_parse (eapol_data p) src
             else if packet_type p = 1 then Inr (EapolStartMessage src)
             else if packet_type p = 2 then Inr (EapolLogoffMessage src)
             else Inl MessageParseError)"

definition ethernet_parse :: "bytes \<Rightarrow> (eap_message \<times> mac_address) result" where
  "ethernet_parse packed_message =
     bind_result (ethernet_packet_parse packed_message)
       (\<lambda>p. if ethertype p \<noteq> 0x888e then Inl MessageParseError
             else bind_result (one_x_parse (eth_data p) (MacObj (src_mac p)))
                    (\<lambda>m. Inr (m, dst_mac p)))"

subsection \<open>MessagePacker\<close>

fun eap_pack :: "eap_message \<Rightarrow> (int \<times> int \<times> bytes) result" where
  "eap_pack (IdentityMessage _ message_id code identity) =
     bind_result (eap_packet_pack (EapIdentity code message_id identity)) (\<lambda>data. Inr (1, 0, data))"
| "eap_pack (LegacyNakMessage _ message_id code desired_auth_types) =
     bind_result (eap_packet_pack (EapLegacyNak code message_id desired_auth_types)) (\<lambda>data. Inr (1, 0, data))"
| "eap_pack (Md5ChallengeMessage _ message_id code challenge extra_data) =
     bind_result (eap_packet_pack (EapMd5Challenge code message_id challenge extra_data)) (\<lambda>data. Inr (1, 0, data))"
| "eap_pack (TlsMessage _ message_id code flags extra_data) =
     bind_result (eap_packet_pack (EapTLS code message_id flags extra_data)) (\<lambda>data. Inr (1, 0, data))"
| "eap_pack (TtlsMessage _ message_id code flags extra_data) =
     bind_result (eap_packet_pack (EapTTLS code message_id flags extra_data)) (\<lambda>data. Inr (1, 0, data))"
| "eap_pack (PeapMessage _ message_id code flags extra_data) =
     bind_result (eap_packet_pack (EapPEAP code message_id flags extra_data)) (\<lambda>data. Inr (1, 0, data))"
| "eap_pack (SuccessMessage _ message_id) =
     bind_result (eap_packet_pack (EapSuccess message_id)) (\<lambda>data. Inr (1, 0, data))"
| "eap_pack (FailureMessage _ message_id) =
     bind_result (eap_packet_pack (EapFailure message_id)) (\<lambda>data. Inr (1, 0, data))"
| "eap_pack (EapolStartMessage _) = Inr (1, 1, [])"
| "eap_pack (EapolLogoffMessage _) = Inr (1, 2, [])"

definition message_pack :: "eap_message \<Rightarrow> bytes result" where
  \<comment> \<open>\<open>MessagePacker.pack\<close>\<close>
  "message_pack message =
     bind_result (eap_pack message)
       (\<lambda>(v, t, data). auth_8021x_pack \<lparr>version = v, packet_type = t, eapol_data = data\<rparr>)"

definition ethernet_pack :: "eap_message \<Rightarrow> mac_address \<Rightarrow> mac_address \<Rightarrow> bytes result" where
  "ethernet_pack message src dst =
     bind_result (message_pack message)
       (\<lambda>data. ethernet_packet_pack
          \<lparr>dst_mac = dst, src_mac = src, ethertype = 0x888e, eth_data = data\<rparr>)"

subsection \<open>Messages as EAP packets\<close>

fun message_eap :: "eap_message \<Rightarrow> eap option" where
  "message_eap (IdentityMessage _ i code s) = Some (EapIdentity code i s)"
| "message_eap (LegacyNakMessage _ i code ts) = Some (EapLegacyNak code i ts)"
| "message_eap (Md5ChallengeMessage _ i code c x) = Some (EapMd5Challenge code i c x)"
| "message_eap (TlsMessage _ i code f x) = Some (EapTLS code i f x)"
| "message_eap (TtlsMessage _ i code f x) = Some (EapTTLS code i f x)"
| "message_eap (PeapMessage _ i code f x) = Some (EapPEAP code i f x)"
| "message_eap (SuccessMessage _ i) = Some (EapSuccess i)"
| "message_eap (FailureMessage _ i) = Some (EapFailure i)"
| "message_eap (EapolStartMessage _) = None"
| "message_eap (EapolLogoffMessage _) = None"

lemma message_eap_build [simp]: "message_eap (message_build src e) = Some e"
  by (cases e) simp_all

lemma message_src_build [simp]: "message_src_mac (message_build src e) = src"
  by (cases e) simp_all

lemma message_build_eap: "message_eap m = Some e \<Longrightarrow> message_build (message_src_mac m) e = m"
  by (cases m) auto

lemma eap_pack_eap:
  "message_eap m = Some e \<Longrightarrow> eap_pack m = bind_result (eap_packet_pack e) (\<lambda>data. Inr (1, 0, data))"
  by (cases m) auto

lemma eap_packet_pack_length: "eap_packet_pack e = Inr bs \<Longrightarrow> length bs < 65536"
proof -
  have base: "eap_base_pack c i cls body = Inr bs \<Longrightarrow> length bs < 65536" for c i cls body
    using eap_base_pack_Inr [of c i cls body bs] by (auto simp: eap_base_pack_ok)
  assume "eap_packet_pack e = Inr bs"
  then show ?thesis
    by (cases e)
      (auto simp: bind_result_eq_Inr eap_tls_base_pack_body split: if_splits dest: base
        simp del: struct_pack.simps dest!: struct_pack_length)
qed

interpretation eap_over_eapol: codec_stack eap_ok eap_packet_pack eap_packet_parse
  auth_8021x_ok auth_8021x_pack auth_8021x_parse
  "\<lambda>_. True" "\<lambda>_ p. \<lparr>version = 1, packet_type = 0, eapol_data = p\<rparr>" eapol_data
  by unfold_locales (auto simp: auth_8021x_ok_def dest: eap_packet_pack_length)

definition message_ok :: "mac_ref \<Rightarrow> eap_message \<Rightarrow> bool" where
  "message_ok src m \<longleftrightarrow> message_src_mac m = src \<and> (case message_eap m of None \<Rightarrow> True | Some e \<Rightarrow> eap_ok e)"

interpretation one_x: codec "message_ok src" message_pack "\<lambda>data. one_x_parse data src" for src
proof
  fix m :: eap_message
  assume ok: "message_ok src m"
  show "\<exists>bs. message_pack m = Inr bs"
  proof (cases "message_eap m")
    case None
    then show ?thesis
      by (cases m) (auto simp: message_pack_def auth_8021x_pack_ok auth_8021x_ok_def)
  next
    case (Some e)
    then show ?thesis using ok eap_over_eapol.stacked.enc_total [of e]
      by (simp add: message_pack_def eap_pack_eap message_ok_def) (auto simp: bind_result_eq_Inr)
  qed
  fix bs
  assume bs: "message_pack m = Inr bs"
  show "one_x_parse bs src = Inr m"
  proof (cases "message_eap m")
    case None
    then show ?thesis using bs ok
      by (cases m)
        (auto simp: message_pack_def message_ok_def auth_8021x_pack_ok auth_8021x_ok_def
          one_x_parse_def auth_8021x_parse_header)
  next
    case (Some e)
    then obtain p where p: "eap_packet_pack e = Inr p"
        "auth_8021x_pack \<lparr>version = 1, packet_type = 0, eapol_data = p\<rparr> = Inr bs"
      using bs by (auto simp: message_pack_def eap_pack_eap bind_result_eq_Inr)
    with ok Some have "auth_8021x_parse bs = Inr \<lparr>version = 1, packet_type = 0, eapol_data = p\<rparr>"
      and "eap_packet_parse p = Inr e"
      using eap_over_eapol.stack_frame [of e bs] by (auto simp: message_ok_def)
    with ok Some show ?thesis
      by (auto simp: one_x_parse_def eap_parse_def message_ok_def message_build_eap)
  qed
qed

text \<open>A message of the module inside an Ethernet frame from \<open>src\<close> to \<open>dst\<close>.\<close>

lemma message_pack_ethernet_ok:
  "length (address src) = 6 \<Longrightarrow> length (address dst) = 6 \<Longrightarrow>
     ethernet_ok \<lparr>dst_mac = dst, src_mac = src, ethertype = 0x888e, eth_data = p\<rparr>"
  by (simp add: ethernet_ok_def)

lemma ethernet_pack_total:
  assumes "message_ok (MacObj src) m" "length (address src) = 6" "length (address dst) = 6"
  shows "\<exists>bs. ethernet_pack m src dst = Inr bs"
proof -
  from one_x.enc_total [OF assms(1)] obtain p where "message_pack m = Inr p" by blast
  with ethernet.enc_total [OF message_pack_ethernet_ok [OF assms(2,3)], of p] show ?thesis
    by (simp add: ethernet_pack_def)
qed

lemma ethernet_parse_pack:
  assumes "message_ok (MacObj src) m" "length (address src) = 6" "length (address dst) = 6"
    and "ethernet_pack m src dst = Inr bs"
  shows "ethernet_parse bs = Inr (m, dst)"
proof -
  from assms(4) obtain p where p: "message_pack m = Inr p"
    "ethernet_packet_pack \<lparr>dst_mac = dst, src_mac = src, ethertype = 0x888e, eth_data = p\<rparr> = Inr bs"
    by (auto simp: ethernet_pack_def bind_result_eq_Inr)
  from ethernet.dec_enc [OF message_pack_ethernet_ok [OF assms(2,3)] p(2)]
    one_x.dec_enc [OF assms(1) p(1)]
  show ?thesis by (simp add: ethernet_parse_def)
qed

subsection \<open>Failures of the parsers\<close>

text \<open>
  The receive loop of \<open>eap_module.py\<close> catches \<open>MessageParseError\<close> only, so it matters that no
  other exception leaves the parsers, whatever bytes arrive.
\<close>

lemma utf8_decode_error: "utf8_decode bs = Inl e \<Longrightarrow> e = UnicodeError"
proof (induction bs rule: utf8_decode.induct)
  case (1 bs)
  have "utf8_decode bs = (if bs = [] then Inr [] else case utf8_next bs of None \<Rightarrow> Inl UnicodeError
      | Some (c, r) \<Rightarrow> bind_result (utf8_decode r) (\<lambda>cs. Inr (c # cs)))"
    by (rule utf8_decode.simps)
  with 1 show ?case by (auto simp: bind_result_eq_Inl split: if_splits option.splits)
qed

lemma eap_class_parse_error: "eap_class_parse cls c i b = Inl e \<Longrightarrow> e = MessageParseError"
  by (cases cls)
    (auto simp: eap_identity_parse_def eap_bodies bind_result_eq_Inl reraise_def
      split: list.splits sum.splits dest: utf8_decode_error)

lemma eap_packet_parse_error: "eap_packet_parse bs = Inl e \<Longrightarrow> e = MessageParseError"
  by (auto simp: eap_packet_parse_def struct_simps py_slice_def
      split: list.splits if_splits option.splits dest: eap_class_parse_error)

lemma auth_8021x_parse_error: "auth_8021x_parse bs = Inl e \<Longrightarrow> e = MessageParseError"
  by (auto simp: auth_8021x_parse_def struct_simps split: list.splits)

lemma one_x_parse_error: "one_x_parse bs src = Inl e \<Longrightarrow> e = MessageParseError"
  by (auto simp: one_x_parse_def eap_parse_def bind_result_eq_Inl split: if_splits
      dest: auth_8021x_parse_error eap_packet_parse_error)

lemma ethernet_parse_error: "ethernet_parse bs = Inl e \<Longrightarrow> e = MessageParseError"
  by (auto simp: ethernet_parse_def ethernet_packet_parse_exact split: if_splits
      dest: one_x_parse_error simp: bind_result_eq_Inl)

subsection \<open>Forwarding\<close>

text \<open>
  What \<open>EAPMessage.create\<close> puts into a RADIUS request for a parsed message is the packet that
  was received.
\<close>

lemma eap_pack_parse:
  assumes "eap_parse bs src = Inr m" and "eap_consistent bs"
  shows "eap_pack m = Inr (1, 0, bs)"
proof -
  from assms(1) obtain e where e: "eap_packet_parse bs = Inr e" "m = message_build src e"
    by (auto simp: eap_parse_def bind_result_eq_Inr)
  with eap_packet_pack_parse [OF e(1) assms(2)] show ?thesis
    using eap_pack_eap [of m e] by simp
qed

subsection \<open>Properties\<close>

text \<open>A frame the module packs for a message, from one MAC address to another, is parsed back
  to the same message and destination.\<close>

theorem eap_frame_roundtrip:
  assumes "message_ok (MacObj src) m" "length (address src) = 6" "length (address dst) = 6"
  shows "bind_result (ethernet_pack m src dst) ethernet_parse = Inr (m, dst)"
  using ethernet_pack_total [OF assms] ethernet_parse_pack [OF assms] by auto

lemma eap_frame_roundtrip_witness:
  "bind_result
     (ethernet_pack (IdentityMessage (MacObj \<lparr>address = [1, 2, 3, 4, 5, 6]\<rparr>) 7 2 (ascii ''user''))
        \<lparr>address = [1, 2, 3, 4, 5, 6]\<rparr> \<lparr>address = [9, 8, 7, 6, 5, 4]\<rparr>) ethernet_parse =
   Inr (IdentityMessage (MacObj \<lparr>address = [1, 2, 3, 4, 5, 6]\<rparr>) 7 2 (ascii ''user''),
     \<lparr>address = [9, 8, 7, 6, 5, 4]\<rparr>)"
  by (rule eap_frame_roundtrip)
    (simp_all add: message_ok_def header_ok_def ascii_def utf8_encode_ascii scalar_value_def utf8_char_def)

text \<open>Whatever bytes arrive, the only exception that leaves \<open>MessageParser.ethernet_parse\<close> is
  \<open>MessageParseError\<close>, the one the receive loop catches.\<close>

theorem ethernet_parse_only_parse_errors:
  "case ethernet_parse bs of Inr r \<Rightarrow> True | Inl e \<Rightarrow> e = MessageParseError"
  using ethernet_parse_error [of bs] by (cases "ethernet_parse bs") auto

text \<open>A self-consistent EAP packet that was parsed is packed again byte for byte, so the RADIUS
  server sees what the supplicant sent.\<close>

theorem eap_repacked_unchanged:
  assumes "eap_parse bs src = Inr m" and "eap_consistent bs"
  shows "eap_pack m = Inr (1, 0, bs)"
  by (rule eap_pack_parse [OF assms])

lemma eap_repacked_unchanged_witness:
  "eap_pack (IdentityMessage NoMac 7 2 [117]) = Inr (1, 0, [2, 7, 0, 6, 1, 117])"
  by (rule eap_repacked_unchanged [of "[2, 7, 0, 6, 1, 117]" NoMac])
    (code_simp, simp add: eap_consistent_def)

end
