(* ===== verification/Radius_Datatypes.thy ===== *)
theory Radius_Datatypes
  imports Eap_Messages
begin

text \<open>
  RADIUS attribute data types (\<open>subset/dot1x/authenticator/radius_datatypes.py\<close>): the classes
  \<open>Integer\<close>, \<open>Enum\<close>, \<open>Text\<close>, \<open>String\<close>, \<open>Concat\<close> and \<open>Vsa\<close> with their
  constructors, \<open>parse\<close>, \<open>pack\<close>, \<open>data\<close> and length methods. The lemmas show that what
  is parsed packs to the same bytes, that \<open>Concat\<close> splits its data into attributes of at most
  253 bytes which join to the data again, and that the length methods are the packed lengths.
\<close>

subsection \<open>Classes and objects\<close>

datatype dt_class = Integer | Enum | Text | String | Concat | Vsa

text \<open>An object: its class and \<open>bytes_data\<close>, which is \<open>None\<close> when nothing was stored.\<close>

record data_type =
  dt_class :: dt_class
  bytes_data :: "bytes option"

text \<open>The Python values the constructors take and \<open>data\<close> returns.\<close>

datatype raw = RawNone | RawInt int | RawStr ustr | RawBytes bytes

definition AVP_HEADER_LEN :: nat where
  "AVP_HEADER_LEN = 1 + 1"

fun DATA_TYPE_VALUE :: "dt_class \<Rightarrow> int" where
  "DATA_TYPE_VALUE Integer = 1"
| "DATA_TYPE_VALUE Enum = 2"
| "DATA_TYPE_VALUE Text = 4"
| "DATA_TYPE_VALUE String = 5"
| "DATA_TYPE_VALUE Concat = 6"
| "DATA_TYPE_VALUE Vsa = 14"

fun MAX_DATA_LENGTH :: "dt_class \<Rightarrow> nat" where
  "MAX_DATA_LENGTH Integer = 4"
| "MAX_DATA_LENGTH Enum = 4"
| "MAX_DATA_LENGTH _ = 253"

fun MIN_DATA_LENGTH :: "dt_class \<Rightarrow> nat" where
  "MIN_DATA_LENGTH Integer = 4"
| "MIN_DATA_LENGTH Enum = 4"
| "MIN_DATA_LENGTH Vsa = 5"
| "MIN_DATA_LENGTH _ = 1"

definition is_valid_length :: "dt_class \<Rightarrow> bytes \<Rightarrow> unit result" where
  "is_valid_length cls packed_value =
     (let len = length packed_value in
      if len < MIN_DATA_LENGTH cls \<or> len > MAX_DATA_LENGTH cls \<or>
         length packed_value > MAX_DATA_LENGTH cls \<or> len \<noteq> length packed_value
      then Inl ValueError else Inr ())"

subsection \<open>Constructors\<close>

definition to_bytes :: "nat \<Rightarrow> int \<Rightarrow> bytes result" where
  \<comment> \<open>\<open>n.to_bytes(k, 'big')\<close>\<close>
  "to_bytes k n =
     (if n < 0 \<or> n \<ge> 256 ^ k then Inl OverflowError
      else Inr (map (\<lambda>i. word_of_int (n div 256 ^ i mod 256)) (rev [0..<k])))"

fun from_bytes_acc :: "int \<Rightarrow> bytes \<Rightarrow> int" where
  "from_bytes_acc acc [] = acc"
| "from_bytes_acc acc (b # bs) = from_bytes_acc (256 * acc + uint b) bs"

definition from_bytes :: "bytes \<Rightarrow> int" where
  \<comment> \<open>\<open>int.from_bytes(bs, 'big')\<close>\<close>
  "from_bytes bs = from_bytes_acc 0 bs"

definition ascii_space :: "nat \<Rightarrow> bool" where
  "ascii_space c \<longleftrightarrow> c = 32 \<or> (9 \<le> c \<and> c \<le> 13)"

fun fromhex :: "ustr \<Rightarrow> bytes result" where
  \<comment> \<open>\<open>bytes.fromhex(s)\<close>: pairs of digits, blanks allowed between the pairs\<close>
  "fromhex [] = Inr []"
| "fromhex [c] = (if ascii_space c then Inr [] else Inl ValueError)"
| "fromhex (c # d # s) =
     (if ascii_space c then fromhex (d # s)
      else case (hex_value c, hex_value d) of
        (Some h, Some l) \<Rightarrow> bind_result (fromhex s) (\<lambda>bs. Inr (of_nat (16 * h + l) # bs))
      | _ \<Rightarrow> Inl ValueError)"

fun truthy :: "raw \<Rightarrow> bool" where
  "truthy RawNone = False"
| "truthy (RawInt n) = (n \<noteq> 0)"
| "truthy (RawStr s) = (s \<noteq> [])"
| "truthy (RawBytes b) = (b \<noteq> [])"

definition integer_init :: "dt_class \<Rightarrow> raw \<Rightarrow> data_type result" where
  \<comment> \<open>\<open>Integer.__init__\<close> and \<open>Enum.__init__\<close> with \<open>raw_data\<close>\<close>
  "integer_init cls raw_data =
     (if truthy raw_data
      then (case raw_data of
          RawInt n \<Rightarrow> bind_result (reraise [OverflowError] ValueError (to_bytes (MAX_DATA_LENGTH cls) n))
            (\<lambda>b. Inr \<lparr>dt_class = cls, bytes_data = Some b\<rparr>)
        | _ \<Rightarrow> Inl AttributeError)
      else Inr \<lparr>dt_class = cls, bytes_data = None\<rparr>)"

definition checked :: "dt_class \<Rightarrow> bytes \<Rightarrow> data_type result" where
  "checked cls b = bind_result (is_valid_length cls b) (\<lambda>_. Inr \<lparr>dt_class = cls, bytes_data = Some b\<rparr>)"

fun data_type_init :: "dt_class \<Rightarrow> raw \<Rightarrow> data_type result" where
  "data_type_init Integer raw_data = integer_init Integer raw_data"
| "data_type_init Enum raw_data = integer_init Enum raw_data"
| "data_type_init Text raw_data =
     (case raw_data of
        RawNone \<Rightarrow> Inr \<lparr>dt_class = Text, bytes_data = None\<rparr>
      | RawStr s \<Rightarrow> bind_result (utf8_encode s) (checked Text)
      | _ \<Rightarrow> Inl AttributeError)"
| "data_type_init String raw_data =
     (case raw_data of
        RawNone \<Rightarrow> Inr \<lparr>dt_class = String, bytes_data = None\<rparr>
      | RawBytes b \<Rightarrow> checked String b
      | RawStr s \<Rightarrow> bind_result (utf8_encode s) (checked String)
      | _ \<Rightarrow> Inl AttributeError)"
| "data_type_init Concat raw_data =
     (if truthy raw_data
      then (case raw_data of
          RawStr s \<Rightarrow> bind_result (fromhex s) (\<lambda>b. Inr \<lparr>dt_class = Concat, bytes_data = Some b\<rparr>)
        | _ \<Rightarrow> Inl TypeError)
      else Inr \<lparr>dt_class = Concat, bytes_data = None\<rparr>)"
| "data_type_init Vsa raw_data =
     (if truthy raw_data
      then (case raw_data of RawBytes b \<Rightarrow> checked Vsa b | _ \<Rightarrow> Inl TypeError)
      else Inr \<lparr>dt_class = Vsa, bytes_data = None\<rparr>)"

subsection \<open>parse\<close>

definition unpack_bytes :: "dt_class \<Rightarrow> nat \<Rightarrow> bytes \<Rightarrow> data_type result" where
  \<comment> \<open>\<open>cls(struct.unpack("!ns", packed_value)[0])\<close>\<close>
  "unpack_bytes cls n packed_value =
     bind_result (struct_unpack [FS n] packed_value)
       (\<lambda>vs. case vs of VBytes b # _ \<Rightarrow> Inr \<lparr>dt_class = cls, bytes_data = Some b\<rparr> | _ \<Rightarrow> Inl TypeError)"

fun data_type_parse :: "dt_class \<Rightarrow> bytes \<Rightarrow> data_type result" where
  "data_type_parse Concat packed_value =
     reraise [StructError] MessageParseError (unpack_bytes Concat (length packed_value) packed_value)"
| "data_type_parse Integer packed_value =
     reraise [ValueError, StructError] MessageParseError
       (bind_result (is_valid_length Integer packed_value) (\<lambda>_. unpack_bytes Integer 4 packed_value))"
| "data_type_parse Enum packed_value =
     reraise [ValueError, StructError] MessageParseError
       (bind_result (is_valid_length Enum packed_value) (\<lambda>_. unpack_bytes Enum 4 packed_value))"
| "data_type_parse cls packed_value =
     reraise [ValueError, StructError] MessageParseError
       (bind_result (is_valid_length cls packed_value)
          (\<lambda>_. unpack_bytes cls (length packed_value) packed_value))"

subsection \<open>Lengths\<close>

definition bytes_len :: "bytes option \<Rightarrow> nat result" where
  "bytes_len b = (case b of None \<Rightarrow> Inl TypeError | Some bs \<Rightarrow> Inr (length bs))"

definition data_length :: "data_type \<Rightarrow> nat result" where
  "data_length d =
     (if dt_class d = Integer \<or> dt_class d = Enum then Inr 4 else bytes_len (bytes_data d))"

text \<open>
  \<open>Concat.full_length\<close> takes \<open>math.ceil\<close> of a float quotient plus one. The quotient of a
  length by 253 is either an integer, and then exact, or at least 1/253 away from one, so for every
  length a packet can have the float result is that of exact arithmetic, which is written here.
\<close>

definition concat_full_length :: "nat \<Rightarrow> nat" where
  "concat_full_length n =
     AVP_HEADER_LEN * ((n + 252) div 253 + 1) + n - AVP_HEADER_LEN"

definition full_length :: "data_type \<Rightarrow> nat result" where
  "full_length d =
     (if dt_class d = Concat
      then bind_result (bytes_len (bytes_data d)) (\<lambda>n. Inr (concat_full_length n))
      else bind_result (data_length d) (\<lambda>n. Inr (n + AVP_HEADER_LEN)))"

subsection \<open>pack and data\<close>

definition bytes_arg :: "bytes option \<Rightarrow> pyval" where
  "bytes_arg b = (case b of None \<Rightarrow> VNone | Some bs \<Rightarrow> VBytes bs)"

text \<open>The loop of \<open>Concat.pack\<close>, with its variables \<open>i\<close> and \<open>length\<close>.\<close>

function chunk_loop :: "int \<Rightarrow> bytes \<Rightarrow> nat \<Rightarrow> nat \<Rightarrow> bytes result" where
  "chunk_loop attribute_type data i len =
     (if i < length data then
        let len' = (if i + 253 > length data then length data mod 253 else len);
            chunk = py_slice i (i + len') data
        in bind_result
             (struct_pack [FB, FB, FS (length chunk)]
                [VInt attribute_type, VInt (int (length chunk + AVP_HEADER_LEN)), VBytes chunk])
             (\<lambda>packed. bind_result (chunk_loop attribute_type data (i + 253) len')
                (\<lambda>rest. Inr (packed @ rest)))
      else Inr [])"
  by pat_completeness auto
termination
  by (relation "measure (\<lambda>(t, data, i, len). length data - i)") auto

definition concat_pack :: "int \<Rightarrow> bytes option \<Rightarrow> bytes result" where
  "concat_pack attribute_type b =
     (case b of None \<Rightarrow> Inl TypeError | Some data \<Rightarrow> chunk_loop attribute_type data 0 253)"

definition data_type_pack :: "data_type \<Rightarrow> int \<Rightarrow> bytes result" where
  "data_type_pack d attribute_type =
     (if dt_class d = Concat then concat_pack attribute_type (bytes_data d)
      else if dt_class d = Integer \<or> dt_class d = Enum then struct_pack [FS 4] [bytes_arg (bytes_data d)]
      else bind_result (bytes_len (bytes_data d))
             (\<lambda>n. struct_pack [FS n] [bytes_arg (bytes_data d)]))"

definition data_type_data :: "data_type \<Rightarrow> raw result" where
  "data_type_data d =
     (case dt_class d of
        Integer \<Rightarrow> (case bytes_data d of None \<Rightarrow> Inl TypeError | Some b \<Rightarrow> Inr (RawInt (from_bytes b)))
      | Enum \<Rightarrow> (case bytes_data d of None \<Rightarrow> Inl TypeError | Some b \<Rightarrow> Inr (RawInt (from_bytes b)))
      | Text \<Rightarrow> (case bytes_data d of None \<Rightarrow> Inl AttributeError
                 | Some b \<Rightarrow> bind_result (utf8_decode b) (\<lambda>s. Inr (RawStr s)))
      | _ \<Rightarrow> Inr (case bytes_data d of None \<Rightarrow> RawNone | Some b \<Rightarrow> RawBytes b))"

declare chunk_loop.simps [simp del]

subsection \<open>Parsing and packing fixed data\<close>

definition length_ok :: "dt_class \<Rightarrow> bytes \<Rightarrow> bool" where
  "length_ok cls b \<longleftrightarrow> MIN_DATA_LENGTH cls \<le> length b \<and> length b \<le> MAX_DATA_LENGTH cls"

lemma is_valid_length_iff: "is_valid_length cls b = (if length_ok cls b then Inr () else Inl ValueError)"
  by (auto simp: is_valid_length_def length_ok_def Let_def)

lemma data_type_parse_eq:
  "data_type_parse cls b =
     (if cls = Concat \<or> length_ok cls b then Inr \<lparr>dt_class = cls, bytes_data = Some b\<rparr>
      else Inl MessageParseError)"
  by (cases cls) (auto simp: is_valid_length_iff unpack_bytes_def struct_simps length_ok_def)

lemma data_type_pack_fixed:
  "cls \<noteq> Concat \<Longrightarrow> length_ok cls b \<Longrightarrow>
     data_type_pack \<lparr>dt_class = cls, bytes_data = Some b\<rparr> t = Inr b"
  by (cases cls) (auto simp: data_type_pack_def bytes_arg_def bytes_len_def length_ok_def)

lemma full_length_fixed:
  "cls \<noteq> Concat \<Longrightarrow> length_ok cls b \<Longrightarrow>
     full_length \<lparr>dt_class = cls, bytes_data = Some b\<rparr> = Inr (length b + 2)"
  by (cases cls)
    (auto simp: full_length_def data_length_def bytes_len_def length_ok_def AVP_HEADER_LEN_def)

lemma length_ok_bounds: "length_ok cls b \<Longrightarrow> 1 \<le> length b \<and> length b \<le> 253"
  by (cases cls) (auto simp: length_ok_def)

subsection \<open>Splitting long data\<close>

text \<open>The reference for \<open>Concat.pack\<close>: pieces of 253 bytes, the last one shorter.\<close>

function avp_split :: "bytes \<Rightarrow> bytes list" where
  "avp_split b = (if b = [] then [] else take 253 b # avp_split (drop 253 b))"
  by pat_completeness auto
termination
  by (relation "measure length") auto

declare avp_split.simps [simp del]

definition avp :: "int \<Rightarrow> bytes \<Rightarrow> bytes" where
  "avp t chunk = [word_of_int t, word_of_int (int (length chunk + 2))] @ chunk"

lemma avp_split_Nil [simp]: "avp_split [] = []"
  by (simp add: avp_split.simps)

lemma avp_split_step: "b \<noteq> [] \<Longrightarrow> avp_split b = take 253 b # avp_split (drop 253 b)"
  by (simp add: avp_split.simps)

lemma concat_avp_split: "concat (avp_split b) = b"
proof (induction b rule: avp_split.induct)
  case (1 b)
  then show ?case by (cases "b = []") (simp_all add: avp_split_step)
qed

lemma avp_split_bounds: "c \<in> set (avp_split b) \<Longrightarrow> 1 \<le> length c \<and> length c \<le> 253"
proof (induction b rule: avp_split.induct)
  case (1 b)
  then show ?case by (cases "b = []") (auto simp: avp_split_step Suc_le_eq)
qed

lemma length_avp_split: "length (avp_split b) = (length b + 252) div 253"
proof (induction b rule: avp_split.induct)
  case (1 b)
  show ?case
  proof (cases "b = []")
    case False
    then have "length (avp_split b) = Suc ((length b - 253 + 252) div 253)"
      using 1 by (simp add: avp_split_step)
    moreover have "0 < length b" using False by simp
    ultimately show ?thesis
    proof (cases "length b \<le> 253")
      case True
      have "length b + 252 = (length b - 1) + 253" using \<open>0 < length b\<close> by linarith
      then have "(length b + 252) div 253 = 1" using True by simp
      with True \<open>length (avp_split b) = _\<close> show ?thesis by simp
    next
      case False
      then obtain n where n: "length b = n + 253" by (metis le_add_diff_inverse2 nat_le_linear)
      have "(n + 252 + 253) div 253 = Suc ((n + 252) div 253)" by simp
      with n \<open>length (avp_split b) = _\<close> show ?thesis by simp
    qed
  qed simp
qed

lemma avp_pack:
  "0 \<le> t \<Longrightarrow> t < 256 \<Longrightarrow> length c \<le> 253 \<Longrightarrow>
     struct_pack [FB, FB, FS (length c)] [VInt t, VInt (int (length c + AVP_HEADER_LEN)), VBytes c] =
       Inr (avp t c)"
  by (simp add: avp_def AVP_HEADER_LEN_def)

lemma chunk_loop_eq:
  assumes "0 \<le> t" "t < 256" "i mod 253 = 0"
  shows "chunk_loop t data i 253 = Inr (concat (map (avp t) (avp_split (drop i data))))"
  using assms(3)
proof (induction "length data - i" arbitrary: i rule: less_induct)
  case less
  show ?case
  proof (cases "i < length data")
    case False
    then show ?thesis by (subst chunk_loop.simps) simp
  next
    case True
    define len' where "len' = (if i + 253 > length data then length data mod 253 else 253)"
    have short: "length data mod 253 = length data - i" if "i + 253 > length data"
    proof -
      obtain k where k: "i = 253 * k" using less.prems by (metis mod_0_imp_dvd dvdE)
      have "length data = 253 * k + (length data - i)" "length data - i < 253"
        using True that k by simp_all
      then show ?thesis by (metis mod_mult_self4 mod_less mult.commute add.commute)
    qed
    have chunk: "py_slice i (i + len') data = take 253 (drop i data)"
      using short by (auto simp: py_slice_def len'_def)
    have tail: "chunk_loop t data (i + 253) len' = Inr (concat (map (avp t) (avp_split (drop (i + 253) data))))"
    proof (cases "i + 253 > length data")
      case True
      then show ?thesis by (subst chunk_loop.simps) simp
    next
      case False
      have "(i + 253) mod 253 = 0" using less.prems by simp
      moreover have "length data - (i + 253) < length data - i" using True by simp
      ultimately show ?thesis using False less.hyps [of "i + 253"] by (simp add: len'_def)
    qed
    have c253: "length (take 253 (drop i data)) \<le> 253" by simp
    have "chunk_loop t data i 253 =
        Inr (avp t (take 253 (drop i data)) @ concat (map (avp t) (avp_split (drop (i + 253) data))))"
      by (subst chunk_loop.simps)
        (simp only: True if_True Let_def len'_def [symmetric] chunk avp_pack [OF assms(1,2) c253]
          tail bind_result_simps)
    then show ?thesis using True by (simp add: avp_split_step add.commute)
  qed
qed

lemma concat_pack_eq:
  "0 \<le> t \<Longrightarrow> t < 256 \<Longrightarrow> concat_pack t (Some b) = Inr (concat (map (avp t) (avp_split b)))"
  by (simp add: concat_pack_def chunk_loop_eq)

lemma sum_avp_lengths:
  "length (concat (map (avp t) cs)) = length (concat cs) + 2 * length cs"
  by (induction cs) (simp_all add: avp_def)

lemma concat_full_length_eq: "length (concat (map (avp t) (avp_split b))) = concat_full_length (length b)"
  by (simp add: sum_avp_lengths concat_avp_split length_avp_split concat_full_length_def
      AVP_HEADER_LEN_def)

end
