(* ===== verification/Radius_Attributes.thy ===== *)
theory Radius_Attributes
  imports Radius_Datatypes Eap_Messages
begin

text \<open>
  RADIUS attributes (\<open>subset/dot1x/authenticator/radius_attributes.py\<close>): the attribute classes
  and the registry \<open>register_attribute_type\<close> fills, their factory, parser and packer, and the
  password hiding of User-Password. MD5 is a parameter (\<open>hashlib\<close> is not code of the
  repository). The lemmas show that the registry is a bijection between classes and type numbers,
  that an attribute packs to its type, its length and its data, and that decrypting an encrypted
  password gives the password back.
\<close>

subsection \<open>Attribute classes\<close>

datatype attr_class =
    UserName
  | UserPassword
  | NASIPAddress
  | NASPort
  | ServiceType
  | FilterId
  | FramedMTU
  | ReplyMessage
  | State
  | VendorSpecific
  | SessionTimeout
  | CalledStationId
  | CallingStationId
  | NASIdentifier
  | AcctSessionId
  | NASPortType
  | TunnelType
  | TunnelMediumType
  | ConnectInfo
  | EAPMessage
  | MessageAuthenticator
  | TunnelPrivateGroupID
  | NASFilterRule

fun TYPE_NO :: "attr_class \<Rightarrow> int" where
  "TYPE_NO UserName = 1"
| "TYPE_NO UserPassword = 2"
| "TYPE_NO NASIPAddress = 4"
| "TYPE_NO NASPort = 5"
| "TYPE_NO ServiceType = 6"
| "TYPE_NO FilterId = 11"
| "TYPE_NO FramedMTU = 12"
| "TYPE_NO ReplyMessage = 18"
| "TYPE_NO State = 24"
| "TYPE_NO VendorSpecific = 26"
| "TYPE_NO SessionTimeout = 27"
| "TYPE_NO CalledStationId = 30"
| "TYPE_NO CallingStationId = 31"
| "TYPE_NO NASIdentifier = 32"
| "TYPE_NO AcctSessionId = 44"
| "TYPE_NO NASPortType = 61"
| "TYPE_NO TunnelType = 64"
| "TYPE_NO TunnelMediumType = 65"
| "TYPE_NO ConnectInfo = 77"
| "TYPE_NO EAPMessage = 79"
| "TYPE_NO MessageAuthenticator = 80"
| "TYPE_NO TunnelPrivateGroupID = 81"
| "TYPE_NO NASFilterRule = 92"

fun DATA_TYPE :: "attr_class \<Rightarrow> dt_class" where
  "DATA_TYPE UserName = Text"
| "DATA_TYPE UserPassword = String"
| "DATA_TYPE NASIPAddress = String"
| "DATA_TYPE NASPort = Integer"
| "DATA_TYPE ServiceType = Enum"
| "DATA_TYPE FilterId = Text"
| "DATA_TYPE FramedMTU = Integer"
| "DATA_TYPE ReplyMessage = Text"
| "DATA_TYPE State = String"
| "DATA_TYPE VendorSpecific = Vsa"
| "DATA_TYPE SessionTimeout = Integer"
| "DATA_TYPE CalledStationId = Text"
| "DATA_TYPE CallingStationId = Text"
| "DATA_TYPE NASIdentifier = Text"
| "DATA_TYPE AcctSessionId = Text"
| "DATA_TYPE NASPortType = Enum"
| "DATA_TYPE TunnelType = Enum"
| "DATA_TYPE TunnelMediumType = Enum"
| "DATA_TYPE ConnectInfo = Text"
| "DATA_TYPE EAPMessage = Concat"
| "DATA_TYPE MessageAuthenticator = String"
| "DATA_TYPE TunnelPrivateGroupID = String"
| "DATA_TYPE NASFilterRule = String"

fun DESCRIPTION :: "attr_class \<Rightarrow> string" where
  "DESCRIPTION UserName = ''User-Name''"
| "DESCRIPTION UserPassword = ''User-Password''"
| "DESCRIPTION NASIPAddress = ''NAS-IP-Address''"
| "DESCRIPTION NASPort = ''NAS-Port''"
| "DESCRIPTION ServiceType = ''Service-Type''"
| "DESCRIPTION FilterId = ''Filter-Id''"
| "DESCRIPTION FramedMTU = ''Framed-MTU''"
| "DESCRIPTION ReplyMessage = ''Reply-Message''"
| "DESCRIPTION State = ''State''"
| "DESCRIPTION VendorSpecific = ''Vendor-Specific''"
| "DESCRIPTION SessionTimeout = ''Session-Timeout''"
| "DESCRIPTION CalledStationId = ''Called-Station-Id''"
| "DESCRIPTION CallingStationId = ''Calling-Station-Id''"
| "DESCRIPTION NASIdentifier = ''NAS-Identifier''"
| "DESCRIPTION AcctSessionId = ''Acct-Session-Id''"
| "DESCRIPTION NASPortType = ''NAS-Port-Type''"
| "DESCRIPTION TunnelType = ''Tunnel-Type''"
| "DESCRIPTION TunnelMediumType = ''Tunnel-Medium-Type''"
| "DESCRIPTION ConnectInfo = ''Connect-Info''"
| "DESCRIPTION EAPMessage = ''EAP-Message''"
| "DESCRIPTION MessageAuthenticator = ''Message-Authenticator''"
| "DESCRIPTION TunnelPrivateGroupID = ''Tunnel-Private-Group-ID''"
| "DESCRIPTION NASFilterRule = ''NAS-Filter-Rule''"

definition attr_classes :: "attr_class list" where
  \<comment> \<open>the classes in the order the decorator registers them\<close>
  "attr_classes =
     [UserName, UserPassword, NASIPAddress, NASPort, ServiceType, FilterId, FramedMTU, ReplyMessage,
      State, VendorSpecific, SessionTimeout, CalledStationId, CallingStationId, NASIdentifier,
      AcctSessionId, NASPortType, TunnelType, TunnelMediumType, ConnectInfo, EAPMessage,
      MessageAuthenticator, TunnelPrivateGroupID, NASFilterRule]"

definition ATTRIBUTE_TYPES :: "int \<Rightarrow> attr_class option" where
  "ATTRIBUTE_TYPES t = map_of (map (\<lambda>c. (TYPE_NO c, c)) attr_classes) t"

lemma attr_classes_all: "c \<in> set attr_classes"
  by (cases c) (simp_all add: attr_classes_def)

lemma distinct_type_numbers: "distinct (map TYPE_NO attr_classes)"
  by (simp add: attr_classes_def)

interpretation attr_registry: registry TYPE_NO ATTRIBUTE_TYPES
proof
  fix c k
  show "ATTRIBUTE_TYPES (TYPE_NO c) = Some c"
    using distinct_type_numbers attr_classes_all [of c]
    by (auto simp: ATTRIBUTE_TYPES_def comp_def intro!: map_of_is_SomeI)
  show "ATTRIBUTE_TYPES k = Some c \<Longrightarrow> TYPE_NO c = k"
    by (auto simp: ATTRIBUTE_TYPES_def dest!: map_of_SomeD)
qed

lemma TYPE_NO_range: "0 \<le> TYPE_NO c \<and> TYPE_NO c < 256"
  by (cases c) simp_all

lemma DATA_TYPE_Concat: "DATA_TYPE c = Concat \<longleftrightarrow> c = EAPMessage"
  by (cases c) simp_all

lemma DESCRIPTION_inject: "DESCRIPTION c = DESCRIPTION d \<longleftrightarrow> c = d"
  by (cases c; cases d) simp_all

subsection \<open>Attributes\<close>

record attribute =
  attr_class :: attr_class
  attr_data :: data_type

text \<open>The argument of \<open>create\<close>: an EAP message, or a plain Python value.\<close>

datatype create_arg = Plain raw | EapObject eap_message

definition attribute_create :: "attr_class \<Rightarrow> create_arg \<Rightarrow> attribute result" where
  "attribute_create cls arg =
     (case arg of
        Plain raw_data \<Rightarrow> bind_result (data_type_init (DATA_TYPE cls) raw_data)
          (\<lambda>d. Inr \<lparr>attr_class = cls, attr_data = d\<rparr>)
      | EapObject m \<Rightarrow>
          if cls = EAPMessage
          then bind_result (eap_pack m)
                 (\<lambda>(v, t, data). Inr \<lparr>attr_class = cls,
                    attr_data = \<lparr>dt_class = Concat, bytes_data = Some data\<rparr>\<rparr>)
          else Inl AttributeError)"

definition attribute_parse :: "attr_class \<Rightarrow> bytes \<Rightarrow> attribute result" where
  "attribute_parse cls packed_value =
     bind_result (data_type_parse (DATA_TYPE cls) packed_value)
       (\<lambda>d. Inr \<lparr>attr_class = cls, attr_data = d\<rparr>)"

definition attribute_full_length :: "attribute \<Rightarrow> nat result" where
  "attribute_full_length a = full_length (attr_data a)"

definition attribute_pack :: "attribute \<Rightarrow> bytes result" where
  "attribute_pack a =
     (if attr_class a = EAPMessage then data_type_pack (attr_data a) (TYPE_NO (attr_class a))
      else bind_result (attribute_full_length a)
        (\<lambda>n. bind_result (struct_pack [FB, FB] [VInt (TYPE_NO (attr_class a)), VInt (int n)])
        (\<lambda>tl. bind_result (data_type_pack (attr_data a) (TYPE_NO (attr_class a)))
        (\<lambda>v. Inr (tl @ v)))))"

text \<open>\<open>data()\<close>: an EAP-Message is parsed into a message, every other attribute into its value.\<close>

datatype attr_value = PlainValue raw | EapValue eap_message

definition attribute_data :: "attribute \<Rightarrow> attr_value result" where
  "attribute_data a =
     (if attr_class a = EAPMessage
      then bind_result (data_type_data (attr_data a))
        (\<lambda>v. case v of
           RawBytes b \<Rightarrow> bind_result (eap_parse b NoMac) (\<lambda>m. Inr (EapValue m))
         | _ \<Rightarrow> Inl TypeError)
      else bind_result (data_type_data (attr_data a)) (\<lambda>v. Inr (PlainValue v)))"

definition attribute_bytes :: "attribute \<Rightarrow> bytes option" where
  "attribute_bytes a = bytes_data (attr_data a)"

definition set_attribute_bytes :: "bytes option \<Rightarrow> attribute \<Rightarrow> attribute" where
  "set_attribute_bytes v a = a\<lparr>attr_data := (attr_data a)\<lparr>bytes_data := v\<rparr>\<rparr>"

subsection \<open>User-Password\<close>

datatype secret_arg = SecretStr ustr | SecretBytes bytes
datatype authenticator_arg = AuthInt int | AuthBytes bytes

definition secret_bytes :: "secret_arg \<Rightarrow> bytes result" where
  "secret_bytes s = (case s of SecretStr u \<Rightarrow> utf8_encode u | SecretBytes b \<Rightarrow> Inr b)"

definition authenticator_bytes :: "authenticator_arg \<Rightarrow> bytes result" where
  "authenticator_bytes a = (case a of AuthInt n \<Rightarrow> to_bytes 16 n | AuthBytes b \<Rightarrow> Inr b)"

definition xor_bytes :: "bytes \<Rightarrow> bytes \<Rightarrow> bytes" where
  \<comment> \<open>\<open>[x ^ y for x, y in zip(a, b)]\<close>\<close>
  "xor_bytes a b = map (\<lambda>(x, y). x XOR y) (zip a b)"

function encrypt_loop :: "(bytes \<Rightarrow> bytes) \<Rightarrow> bytes \<Rightarrow> bytes \<Rightarrow> bytes \<Rightarrow> bytes" where
  "encrypt_loop md5 secret b_sec padded =
     (if length padded > 0 then
        let c_sec = xor_bytes b_sec (take 16 padded)
        in c_sec @ encrypt_loop md5 secret (md5 (secret @ c_sec)) (drop 16 padded)
      else [])"
  by pat_completeness auto
termination
  by (relation "measure (\<lambda>(m, s, b, p). length p)") auto

definition encrypt :: "(bytes \<Rightarrow> bytes) \<Rightarrow> secret_arg \<Rightarrow> authenticator_arg \<Rightarrow> ustr \<Rightarrow> bytes result" where
  "encrypt md5 secret req_authenticator password =
     bind_result (secret_bytes secret)
       (\<lambda>sec. bind_result (authenticator_bytes req_authenticator)
       (\<lambda>ra. let padded_width = (length password + 15) div 16 * 16 in
         bind_result (utf8_encode (password @ replicate (padded_width - length password) 0))
         (\<lambda>padded. Inr (encrypt_loop md5 sec (md5 (sec @ ra)) padded))))"

definition ascii_decode :: "bytes \<Rightarrow> ustr result" where
  "ascii_decode b = (if list_all (\<lambda>x. unat x < 128) b then Inr (map unat b) else Inl UnicodeError)"

function decrypt_loop :: "(bytes \<Rightarrow> bytes) \<Rightarrow> bytes \<Rightarrow> bytes \<Rightarrow> bytes \<Rightarrow> ustr result" where
  "decrypt_loop md5 secret b_sec ciphertext =
     (if length ciphertext > 0 then
        let c_sec = take 16 ciphertext
        in bind_result (ascii_decode (xor_bytes b_sec c_sec))
             (\<lambda>p. bind_result (decrypt_loop md5 secret (md5 (secret @ c_sec)) (drop 16 ciphertext))
             (\<lambda>rest. Inr (p @ rest)))
      else Inr [])"
  by pat_completeness auto
termination
  by (relation "measure (\<lambda>(m, s, b, p). length p)") auto

definition strip_nul :: "ustr \<Rightarrow> ustr" where
  "strip_nul s = rev (dropWhile (\<lambda>c. c = 0) (rev (dropWhile (\<lambda>c. c = 0) s)))"

definition decrypt :: "(bytes \<Rightarrow> bytes) \<Rightarrow> secret_arg \<Rightarrow> authenticator_arg \<Rightarrow> bytes \<Rightarrow> ustr result" where
  "decrypt md5 secret req_authenticator ciphertext =
     bind_result (secret_bytes secret)
       (\<lambda>sec. bind_result (authenticator_bytes req_authenticator)
       (\<lambda>ra. bind_result (decrypt_loop md5 sec (md5 (sec @ ra)) ciphertext)
       (\<lambda>cleartext. Inr (strip_nul cleartext))))"

declare encrypt_loop.simps [simp del] decrypt_loop.simps [simp del]

subsection \<open>What an attribute packs to\<close>

text \<open>
  A well-formed attribute holds data of its class with a length the class admits; an EAP-Message
  of any length but zero is split over several type-length-value triples.
\<close>

definition attribute_ok :: "attribute \<Rightarrow> bool" where
  "attribute_ok a \<longleftrightarrow> dt_class (attr_data a) = DATA_TYPE (attr_class a) \<and>
     (case attribute_bytes a of None \<Rightarrow> False
      | Some b \<Rightarrow> if attr_class a = EAPMessage then b \<noteq> [] else length_ok (DATA_TYPE (attr_class a)) b)"

definition chunks :: "attribute \<Rightarrow> bytes list" where
  "chunks a = (let b = the (attribute_bytes a) in if attr_class a = EAPMessage then avp_split b else [b])"

definition avps :: "attribute \<Rightarrow> bytes" where
  "avps a = concat (map (avp (TYPE_NO (attr_class a))) (chunks a))"

lemma attribute_okE:
  assumes "attribute_ok a"
  obtains c b where "a = \<lparr>attr_class = c, attr_data = \<lparr>dt_class = DATA_TYPE c, bytes_data = Some b\<rparr>\<rparr>"
    and "c = EAPMessage \<Longrightarrow> b \<noteq> []" and "c \<noteq> EAPMessage \<Longrightarrow> length_ok (DATA_TYPE c) b"
  using assms by (cases a; cases "attr_data a")
    (auto simp: attribute_ok_def attribute_bytes_def split: option.splits if_splits)

lemma length_avp [simp]: "length (avp t c) = length c + 2"
  by (simp add: avp_def)

lemma avp_header:
  "0 \<le> t \<Longrightarrow> t < 256 \<Longrightarrow> length c \<le> 253 \<Longrightarrow>
     struct_pack [FB, FB] [VInt t, VInt (int (length c + 2))] = Inr (take 2 (avp t c))"
  by (simp add: avp_def)

lemma attribute_pack_avps:
  assumes "attribute_ok a"
  shows "attribute_pack a = Inr (avps a)"
  using assms
proof (cases rule: attribute_okE)
  case (1 c b)
  show ?thesis
  proof (cases "c = EAPMessage")
    case True
    with 1 TYPE_NO_range [of c] show ?thesis
      by (simp add: attribute_pack_def data_type_pack_def avps_def chunks_def attribute_bytes_def
          concat_pack_eq)
  next
    case False
    then have "DATA_TYPE c \<noteq> Concat" by (simp add: DATA_TYPE_Concat)
    with 1 False length_ok_bounds [of "DATA_TYPE c" b] TYPE_NO_range [of c] show ?thesis
      by (simp add: attribute_pack_def attribute_full_length_def full_length_fixed
          data_type_pack_fixed avps_def chunks_def attribute_bytes_def avp_def)
  qed
qed

lemma attribute_full_length_avps:
  assumes "attribute_ok a"
  shows "attribute_full_length a = Inr (length (avps a))"
  using assms
proof (cases rule: attribute_okE)
  case (1 c b)
  show ?thesis
  proof (cases "c = EAPMessage")
    case True
    with 1 concat_full_length_eq [of "TYPE_NO c" b] show ?thesis
      by (simp add: attribute_full_length_def full_length_def bytes_len_def avps_def chunks_def
          attribute_bytes_def)
  next
    case False
    then have "DATA_TYPE c \<noteq> Concat" by (simp add: DATA_TYPE_Concat)
    with 1 False show ?thesis
      by (simp add: attribute_full_length_def full_length_fixed avps_def chunks_def attribute_bytes_def)
  qed
qed

lemma chunks_bounds: "attribute_ok a \<Longrightarrow> ch \<in> set (chunks a) \<Longrightarrow> 1 \<le> length ch \<and> length ch \<le> 253"
  by (erule attribute_okE)
    (auto simp: chunks_def attribute_bytes_def Let_def avp_split_bounds length_ok_bounds
      split: if_splits dest: avp_split_bounds length_ok_bounds)

lemma concat_chunks: "attribute_ok a \<Longrightarrow> concat (chunks a) = the (attribute_bytes a)"
  by (simp add: chunks_def concat_avp_split Let_def)

lemma attribute_parse_ok:
  "attribute_parse cls b = Inr a \<Longrightarrow>
     a = \<lparr>attr_class = cls, attr_data = \<lparr>dt_class = DATA_TYPE cls, bytes_data = Some b\<rparr>\<rparr> \<and>
     (cls = EAPMessage \<or> length_ok (DATA_TYPE cls) b)"
  by (auto simp: attribute_parse_def bind_result_eq_Inr data_type_parse_eq DATA_TYPE_Concat
      split: if_splits)

lemma attribute_parse_bytes:
  "attribute_ok a \<Longrightarrow> attr_class a \<noteq> EAPMessage \<Longrightarrow>
     attribute_parse (attr_class a) (the (attribute_bytes a)) = Inr a"
  by (erule attribute_okE) (simp add: attribute_parse_def attribute_bytes_def data_type_parse_eq)

lemma eap_message_parse:
  "attribute_parse EAPMessage b =
     Inr \<lparr>attr_class = EAPMessage, attr_data = \<lparr>dt_class = Concat, bytes_data = Some b\<rparr>\<rparr>"
  by (simp add: attribute_parse_def data_type_parse_eq)

lemma attribute_parse_error: "attribute_parse cls b = Inl e \<Longrightarrow> e = MessageParseError"
  by (auto simp: attribute_parse_def bind_result_eq_Inl data_type_parse_eq split: if_splits)

subsection \<open>Hiding and recovering a password\<close>

lemma xor_bytes_self: "length a = length b \<Longrightarrow> xor_bytes a (xor_bytes a b) = b"
proof (induction a b rule: list_induct2)
  case Nil
  then show ?case by (simp add: xor_bytes_def)
next
  case (Cons x xs y ys)
  have "x XOR (x XOR y) = y" by (simp flip: xor.assoc)
  with Cons show ?case by (simp add: xor_bytes_def)
qed

lemma length_xor_bytes [simp]: "length (xor_bytes a b) = min (length a) (length b)"
  by (simp add: xor_bytes_def)

lemma ascii_decode_append:
  "list_all (\<lambda>x. unat x < 128) a \<Longrightarrow> ascii_decode a = Inr (map unat a)"
  by (simp add: ascii_decode_def)

lemma decrypt_encrypt_loop:
  assumes md5: "\<And>x. length (md5 x) = 16"
  shows "length b_sec = 16 \<Longrightarrow> 16 dvd length p \<Longrightarrow> list_all (\<lambda>x. unat x < 128) p \<Longrightarrow>
     decrypt_loop md5 sec b_sec (encrypt_loop md5 sec b_sec p) = Inr (map unat p)"
proof (induction p arbitrary: b_sec rule: measure_induct_rule [where f = length])
  case (less p)
  show ?case
  proof (cases "p = []")
    case True
    then show ?thesis by (simp add: encrypt_loop.simps decrypt_loop.simps)
  next
    case False
    with less.prems(2) have l16: "16 \<le> length p" by (auto dest: dvd_imp_le)
    define c where "c = xor_bytes b_sec (take 16 p)"
    have c: "length c = 16" "xor_bytes b_sec c = take 16 p"
      using l16 less.prems(1) by (simp_all add: c_def xor_bytes_self)
    have "list_all (\<lambda>x. unat x < 128) (take 16 p @ drop 16 p)" using less.prems(3) by simp
    then have asc: "list_all (\<lambda>x. unat x < 128) (take 16 p)" "list_all (\<lambda>x. unat x < 128) (drop 16 p)"
      by (simp_all only: list_all_append)
    have rest: "decrypt_loop md5 sec (md5 (sec @ c)) (encrypt_loop md5 sec (md5 (sec @ c)) (drop 16 p)) =
        Inr (map unat (drop 16 p))"
      using less.IH [of "drop 16 p" "md5 (sec @ c)"] l16 less.prems(2) md5 asc(2)
      by (simp add: dvd_diff_nat)
    have "encrypt_loop md5 sec b_sec p = c @ encrypt_loop md5 sec (md5 (sec @ c)) (drop 16 p)"
      using False by (subst encrypt_loop.simps) (simp add: Let_def c_def)
    then show ?thesis
      using c rest asc(1)
      by (subst decrypt_loop.simps)
        (simp add: Let_def ascii_decode_append flip: map_append)
  qed
qed

lemma strip_nul_padded:
  assumes "pw = [] \<or> hd pw \<noteq> 0 \<and> last pw \<noteq> 0"
  shows "strip_nul (pw @ replicate n 0) = pw"
proof (cases "pw = []")
  case True
  have "dropWhile (\<lambda>c. c = 0) (replicate n (0 :: nat)) = []" by (simp add: dropWhile_eq_Nil_conv)
  then show ?thesis using True by (simp add: strip_nul_def)
next
  case False
  with assms have "hd pw \<noteq> 0" "last pw \<noteq> 0" by auto
  have "dropWhile (\<lambda>c. c = 0) (pw @ replicate n 0) = pw @ replicate n 0"
    using False \<open>hd pw \<noteq> 0\<close> by (cases pw) simp_all
  moreover have "dropWhile (\<lambda>c. c = 0) (replicate n 0 @ rev pw) = rev pw"
  proof -
    have "dropWhile (\<lambda>c. c = 0) (rev pw) = rev pw"
      using False \<open>last pw \<noteq> 0\<close> by (cases pw rule: rev_cases) simp_all
    then show ?thesis by (induction n) simp_all
  qed
  ultimately show ?thesis by (simp add: strip_nul_def)
qed

lemma padded_width: "n \<le> (n + 15) div 16 * (16 :: nat)"
  by presburger

lemma decrypt_encrypt:
  assumes md5: "\<And>x. length (md5 x) = 16"
    and sec: "secret_bytes secret = Inr sec" and ra: "authenticator_bytes req_authenticator = Inr ra"
    and pw: "list_all (\<lambda>c. c < 128) pw" "pw = [] \<or> hd pw \<noteq> 0 \<and> last pw \<noteq> 0"
  shows "bind_result (encrypt md5 secret req_authenticator pw) (decrypt md5 secret req_authenticator) = Inr pw"
proof -
  define w where "w = (length pw + 15) div 16 * 16"
  define padded where "padded = pw @ replicate (w - length pw) 0"
  have asc: "list_all (\<lambda>c. c < 128) padded" using pw(1) by (auto simp: padded_def list_all_iff)
  have enc: "utf8_encode padded = Inr (map byte_of padded)" using asc utf8_encode_ascii [of padded] by (simp add: list_all_iff)
  have dec: "map unat (map byte_of padded) = padded"
    using asc by (induction padded) (simp_all add: unat_byte_of)
  have "length padded = w" using padded_width [of "length pw"] by (simp add: padded_def w_def)
  then have "16 dvd length (map byte_of padded)" by (simp add: w_def)
  moreover have "list_all (\<lambda>x. unat x < 128) (map byte_of padded)"
    using asc by (induction padded) (simp_all add: unat_byte_of)
  ultimately have "decrypt_loop md5 sec (md5 (sec @ ra))
      (encrypt_loop md5 sec (md5 (sec @ ra)) (map byte_of padded)) = Inr padded"
    using decrypt_encrypt_loop [of md5 "md5 (sec @ ra)" "map byte_of padded" sec, OF md5 md5] dec by simp
  moreover have "strip_nul padded = pw"
    unfolding padded_def by (rule strip_nul_padded [OF pw(2)])
  ultimately show ?thesis
    using enc by (simp add: encrypt_def decrypt_def sec ra Let_def padded_def w_def)
qed

subsection \<open>Properties\<close>

text \<open>\<open>Attribute.pack\<close> on a well-formed attribute gives type-length-value triples that each hold
  1 to 253 bytes, that together hold exactly the attribute's bytes, and whose total length is
  \<open>full_length()\<close>; an EAP-Message longer than one triple is split, everything else is one triple.\<close>

theorem attribute_pack_triples:
  assumes "attribute_ok a"
  shows "attribute_pack a = Inr (concat (map (avp (TYPE_NO (attr_class a))) (chunks a))) \<and>
    concat (chunks a) = the (attribute_bytes a) \<and>
    list_all (\<lambda>c. 1 \<le> length c \<and> length c \<le> 253) (chunks a) \<and>
    attribute_full_length a = Inr (length (concat (map (avp (TYPE_NO (attr_class a))) (chunks a))))"
  using attribute_pack_avps [OF assms] attribute_full_length_avps [OF assms] concat_chunks [OF assms]
    chunks_bounds [OF assms]
  by (simp add: avps_def list_all_iff)

lemma attribute_pack_triples_witness:
  "let a = \<lparr>attr_class = EAPMessage, attr_data = \<lparr>dt_class = Concat, bytes_data = Some (replicate 300 1)\<rparr>\<rparr>
   in attribute_pack a = Inr (concat (map (avp 79) (chunks a))) \<and>
      attribute_full_length a = Inr (length (concat (map (avp 79) (chunks a))))"
proof -
  let ?a = "\<lparr>attr_class = EAPMessage, attr_data = \<lparr>dt_class = Concat, bytes_data = Some (replicate 300 1)\<rparr>\<rparr>"
  have "attribute_ok ?a" by (simp add: attribute_ok_def attribute_bytes_def)
  from attribute_pack_triples [OF this] show ?thesis by (simp add: Let_def)
qed

text \<open>\<open>UserPassword.decrypt\<close> recovers what \<open>UserPassword.encrypt\<close> hid, for every secret and
  request authenticator and every ASCII password that neither starts nor ends with NUL, given that
  MD5 digests have 16 bytes.\<close>

theorem user_password_roundtrip:
  assumes "\<And>x. length (md5 x) = 16"
    and "secret_bytes secret = Inr sec" and "authenticator_bytes req_authenticator = Inr ra"
    and "list_all (\<lambda>c. c < 128) pw" and "pw = [] \<or> hd pw \<noteq> 0 \<and> last pw \<noteq> 0"
  shows "bind_result (encrypt md5 secret req_authenticator pw) (decrypt md5 secret req_authenticator) = Inr pw"
  by (rule decrypt_encrypt [OF assms])

lemma user_password_roundtrip_witness:
  "bind_result
     (encrypt (\<lambda>x. replicate 16 (of_nat (length x))) (SecretBytes [1, 2]) (AuthBytes [3]) (ascii ''a longer password than 16''))
     (decrypt (\<lambda>x. replicate 16 (of_nat (length x))) (SecretBytes [1, 2]) (AuthBytes [3])) =
   Inr (ascii ''a longer password than 16'')"
  by (rule user_password_roundtrip) (simp_all add: secret_bytes_def authenticator_bytes_def ascii_def)

end
