(* ===== verification/Radius_Packet.thy ===== *)
theory Radius_Packet
  imports Radius_Attributes
begin

text \<open>
  RADIUS packets (\<open>subset/dot1x/authenticator/radius.py\<close>): the attribute list with its parser,
  which merges the pieces of an EAP-Message, the packet classes, building a request with its
  Message-Authenticator, and the validation of received packets. MD5 and HMAC-MD5 are parameters.
  The lemmas show that a packed attribute list parses back, that the declared length is the packed
  length, that a built request is accepted by the parser, that an accepted packet carries the
  authenticators the shared secret gives, and when the attribute parser returns.
\<close>

declare DESCRIPTION.simps [simp del]

subsection \<open>RadiusAttributesList\<close>

type_synonym concat_dict = "(int, (attribute \<times> int) list) dict"

text \<open>The local variables of \<open>extract_attributes\<close>.\<close>

record extract_state =
  pos :: nat
  index :: int
  last_attribute :: int
  attributes_out :: "attribute list"
  attributes_to_concat :: concat_dict

definition extract_start :: extract_state where
  "extract_start = \<lparr>pos = 0, index = -1, last_attribute = -1, attributes_out = [],
     attributes_to_concat = []\<rparr>"

definition concat_append :: "int \<Rightarrow> attribute \<times> int \<Rightarrow> concat_dict \<Rightarrow> concat_dict" where
  \<comment> \<open>create the list of a type that has none, then append to it\<close>
  "concat_append t p d =
     (let d' = (if dict_get d t = None then dict_set t [] d else d)
      in dict_set t (the (dict_get d' t) @ [p]) d')"

definition visit :: "extract_state \<Rightarrow> nat \<Rightarrow> attribute \<Rightarrow> extract_state" where
  \<comment> \<open>the part of an iteration after the attribute was parsed\<close>
  "visit s attr_length a =
     (let t = TYPE_NO (attr_class a);
          is_concat = (DATA_TYPE (attr_class a) = Concat);
          i = (if \<not> is_concat \<or> last_attribute s \<noteq> t then index s + 1 else index s)
      in \<lparr>pos = pos s + attr_length, index = i, last_attribute = t,
          attributes_out = attributes_out s @ [a],
          attributes_to_concat =
            (if is_concat then concat_append t (a, i) (attributes_to_concat s)
             else attributes_to_concat s)\<rparr>)"

definition extract_step :: "bytes \<Rightarrow> extract_state \<Rightarrow> extract_state result" where
  \<comment> \<open>one iteration of the loop\<close>
  "extract_step attributes_data s =
     (case struct_unpack [FB, FB] (py_slice (pos s) (pos s + 2) attributes_data) of
        Inr [VInt type_, VInt attr_length] \<Rightarrow>
          (let data = py_slice (pos s + 2) (pos s + nat attr_length) attributes_data;
               packed_value = py_take (attr_length - 2) data
           in case ATTRIBUTE_TYPES type_ of
                None \<Rightarrow> Inl MessageParseError
              | Some cls \<Rightarrow> bind_result (attribute_parse cls packed_value)
                  (\<lambda>a. Inr (visit s (nat attr_length) a)))
      | _ \<Rightarrow> Inl MessageParseError)"

partial_function (option) extract_attributes ::
    "bytes \<Rightarrow> extract_state \<Rightarrow> extract_state result option" where
  "extract_attributes attributes_data s =
     (if pos s < length attributes_data
      then (case extract_step attributes_data s of
              Inl e \<Rightarrow> Some (Inl e)
            | Inr s' \<Rightarrow> extract_attributes attributes_data s')
      else Some (Inr s))"

declare extract_attributes.simps [code]

definition concatenated :: "int \<times> (attribute \<times> int) list \<Rightarrow> (attribute \<times> int) result" where
  "concatenated e =
     (case e of (t, list_) \<Rightarrow>
        (case ATTRIBUTE_TYPES t of
           None \<Rightarrow> Inl KeyError
         | Some cls \<Rightarrow>
             bind_result (attribute_parse cls (concat (map (\<lambda>(d, i). the (attribute_bytes d)) list_)))
               (\<lambda>a. Inr (a, snd (last list_)))))"

definition merge_concat_attributes ::
    "attribute list \<Rightarrow> concat_dict \<Rightarrow> attribute list result" where
  "merge_concat_attributes attributes to_concat =
     bind_result (mapM_result concatenated to_concat)
       (\<lambda>cas. let kept = foldl (\<lambda>as (ca, i). filter (\<lambda>x. attr_class x \<noteq> attr_class ca) as) attributes cas
               in Inr (foldl (\<lambda>as (ca, i). py_insert (nat i) ca as) kept cas))"

definition attributes_parse :: "bytes \<Rightarrow> attribute list result option" where
  \<comment> \<open>\<open>RadiusAttributesList.parse\<close>; \<open>None\<close> when the loop never ends\<close>
  "attributes_parse attributes_data =
     (case extract_attributes attributes_data extract_start of
        None \<Rightarrow> None
      | Some (Inl e) \<Rightarrow> Some (Inl e)
      | Some (Inr s) \<Rightarrow> Some (merge_concat_attributes (attributes_out s) (attributes_to_concat s)))"

fun attributes_find :: "string \<Rightarrow> attribute list \<Rightarrow> attribute option" where
  "attributes_find item [] = None"
| "attributes_find item (a # as) =
     (if item = DESCRIPTION (attr_class a) then Some a else attributes_find item as)"

fun attributes_indexof :: "string \<Rightarrow> attribute list \<Rightarrow> nat result" where
  "attributes_indexof item [] = Inl ValueError"
| "attributes_indexof item (a # as) =
     (if item = DESCRIPTION (attr_class a) then Inr 0
      else bind_result (attribute_full_length a)
        (\<lambda>n. bind_result (attributes_indexof item as) (\<lambda>i. Inr (n + i))))"

fun attributes_len :: "attribute list \<Rightarrow> nat result" where
  "attributes_len [] = Inr 0"
| "attributes_len (a # as) =
     bind_result (attribute_full_length a) (\<lambda>n. bind_result (attributes_len as) (\<lambda>m. Inr (n + m)))"

fun attributes_pack :: "attribute list \<Rightarrow> bytes result" where
  "attributes_pack [] = Inr []"
| "attributes_pack (a # as) =
     bind_result (attribute_pack a) (\<lambda>b. bind_result (attributes_pack as) (\<lambda>bs. Inr (b @ bs)))"

fun attributes_to_dict :: "attribute list \<Rightarrow> (string, attr_value) dict \<Rightarrow> (string, attr_value) dict result" where
  "attributes_to_dict [] ret = Inr ret"
| "attributes_to_dict (a # as) ret =
     bind_result (attribute_data a)
       (\<lambda>v. attributes_to_dict as (dict_set (DESCRIPTION (attr_class a)) v ret))"

subsection \<open>RadiusPacket\<close>

datatype packet_class = RadiusAccessRequest | RadiusAccessAccept | RadiusAccessReject | RadiusAccessChallenge

fun CODE :: "packet_class \<Rightarrow> int" where
  "CODE RadiusAccessRequest = 1"
| "CODE RadiusAccessAccept = 2"
| "CODE RadiusAccessReject = 3"
| "CODE RadiusAccessChallenge = 11"

definition PACKET_TYPE_PARSERS :: "int \<Rightarrow> packet_class option" where
  "PACKET_TYPE_PARSERS code =
     map_of (map (\<lambda>c. (CODE c, c))
       [RadiusAccessRequest, RadiusAccessAccept, RadiusAccessReject, RadiusAccessChallenge]) code"

interpretation packet_registry: registry CODE PACKET_TYPE_PARSERS
proof
  fix c k
  show "PACKET_TYPE_PARSERS (CODE c) = Some c"
    by (cases c) (simp_all add: PACKET_TYPE_PARSERS_def)
  show "PACKET_TYPE_PARSERS k = Some c \<Longrightarrow> CODE c = k"
    by (auto simp: PACKET_TYPE_PARSERS_def split: if_splits)
qed

record radius_packet =
  rclass :: packet_class
  packet_id :: int
  authenticator :: bytes
  attributes :: "attribute list"
  packed :: "bytes option"

definition RADIUS_HEADER_LENGTH :: nat where
  "RADIUS_HEADER_LENGTH = 1 + 1 + 2 + 16"

definition radius_bytes :: "radius_packet \<Rightarrow> bytes result" where
  "radius_bytes p =
     bind_result (attributes_len (attributes p))
       (\<lambda>n. bind_result (struct_pack [FB, FB, FH, FS 16]
               [VInt (CODE (rclass p)), VInt (packet_id p), VInt (int (RADIUS_HEADER_LENGTH + n)),
                VBytes (authenticator p)])
       (\<lambda>header. bind_result (attributes_pack (attributes p)) (\<lambda>b. Inr (header @ b))))"

definition radius_packet_pack :: "radius_packet \<Rightarrow> radius_packet result" where
  \<comment> \<open>\<open>pack\<close> stores the packed bytes in the packet and returns them\<close>
  "radius_packet_pack p = bind_result (radius_bytes p) (\<lambda>b. Inr (p\<lparr>packed := Some b\<rparr>))"

fun poke :: "bytes \<Rightarrow> nat \<Rightarrow> bytes \<Rightarrow> nat list \<Rightarrow> bytes result" where
  \<comment> \<open>\<open>for i in range(16): packed[i + position] = message_authenticator[i]\<close>\<close>
  "poke ma position buf [] = Inr buf"
| "poke ma position buf (i # is) =
     (if i < length ma \<and> i + position < length buf
      then poke ma position (buf[i + position := ma ! i]) is
      else Inl IndexError)"

text \<open>\<open>build\<close>: the packet afterwards; what is returned is its \<open>packed\<close> field.\<close>

definition build_packed ::
    "(bytes \<Rightarrow> bytes \<Rightarrow> bytes) \<Rightarrow> ustr option \<Rightarrow> radius_packet \<Rightarrow> radius_packet result" where
  "build_packed hmac secret p =
     (case attributes_indexof (DESCRIPTION MessageAuthenticator) (attributes p) of
        Inl e \<Rightarrow> if e = ValueError then Inr p else Inl e
      | Inr n \<Rightarrow>
          (case secret of
             None \<Rightarrow> Inr p
           | Some s \<Rightarrow>
               if s = [] then Inr p
               else bind_result (utf8_encode s)
                 (\<lambda>key. bind_result
                    (poke (hmac key (the (packed p))) (n + RADIUS_HEADER_LENGTH + 2) (the (packed p)) [0..<16])
                    (\<lambda>b. Inr (p\<lparr>packed := Some b\<rparr>)))))"

definition radius_build ::
    "(bytes \<Rightarrow> bytes \<Rightarrow> bytes) \<Rightarrow> ustr option \<Rightarrow> radius_packet \<Rightarrow> radius_packet result" where
  "radius_build hmac secret p =
     bind_result (if packed p = None \<or> packed p = Some [] then radius_packet_pack p else Inr p)
       (build_packed hmac secret)"

subsection \<open>Validation\<close>

definition validate_response_authenticator ::
    "(bytes \<Rightarrow> bytes) \<Rightarrow> radius_packet \<Rightarrow> bytes \<Rightarrow> ustr \<Rightarrow> int \<Rightarrow> radius_packet result" where
  "validate_response_authenticator md5 p request_authenticator secret code =
     (if request_authenticator \<noteq> [] \<and> code \<in> {3, 2, 11}
      then bind_result (radius_packet_pack (p\<lparr>authenticator := request_authenticator\<rparr>))
        (\<lambda>p'. bind_result (utf8_encode secret)
        (\<lambda>sec. if md5 (the (packed p') @ sec) \<noteq> authenticator p
                then Inl InvalidResponseAuthenticatorError else Inr p'))
      else Inr p)"

fun zero_first :: "string \<Rightarrow> attribute list \<Rightarrow> attribute list" where
  \<comment> \<open>assigning \<open>bytes_data\<close> of the attribute that \<open>find\<close> returned\<close>
  "zero_first item [] = []"
| "zero_first item (a # as) =
     (if item = DESCRIPTION (attr_class a) then set_attribute_bytes (Some (replicate 16 0)) a # as
      else a # zero_first item as)"

definition validate_message_authenticator ::
    "(bytes \<Rightarrow> bytes \<Rightarrow> bytes) \<Rightarrow> radius_packet \<Rightarrow> ustr \<Rightarrow> bytes \<Rightarrow> radius_packet result" where
  "validate_message_authenticator hmac p secret request_authenticator =
     (case attributes_find (DESCRIPTION MessageAuthenticator) (attributes p) of
        None \<Rightarrow> Inr p
      | Some message_authenticator \<Rightarrow>
          bind_result (radius_packet_pack (p\<lparr>authenticator := request_authenticator,
              attributes := zero_first (DESCRIPTION MessageAuthenticator) (attributes p)\<rparr>))
            (\<lambda>p'. bind_result (utf8_encode secret)
            (\<lambda>key. if attribute_bytes message_authenticator \<noteq> Some (hmac key (the (packed p')))
                    then Inl InvalidMessageAuthenticatorError else Inr p')))"

definition validate_packet ::
    "(bytes \<Rightarrow> bytes) \<Rightarrow> (bytes \<Rightarrow> bytes \<Rightarrow> bytes) \<Rightarrow> radius_packet \<Rightarrow> ustr option \<Rightarrow> bytes \<Rightarrow> int \<Rightarrow>
       radius_packet result" where
  "validate_packet md5 hmac p secret request_authenticator code =
     (if secret = None \<or> secret = Some [] then Inl ValueError
      else bind_result (validate_response_authenticator md5 p request_authenticator (the secret) code)
        (\<lambda>p'. bind_result (validate_message_authenticator hmac p' (the secret) request_authenticator)
        (\<lambda>_. Inr p)))"

definition radius_finish ::
    "(bytes \<Rightarrow> bytes) \<Rightarrow> (bytes \<Rightarrow> bytes \<Rightarrow> bytes) \<Rightarrow> ustr option \<Rightarrow> (int, bytes) dict \<Rightarrow>
       packet_class \<Rightarrow> int \<Rightarrow> bytes \<Rightarrow> attribute list \<Rightarrow> radius_packet result" where
  \<comment> \<open>the part of \<open>Radius.parse\<close> after the attributes were parsed\<close>
  "radius_finish md5 hmac secret ids cls pid auth as =
     bind_result
       (if CODE cls = 1 then Inr auth else reraise [KeyError] MessageParseError (dict_index ids pid))
       (\<lambda>request_authenticator.
          reraise [InvalidMessageAuthenticatorError, InvalidResponseAuthenticatorError] MessageParseError
            (validate_packet md5 hmac
               \<lparr>rclass = cls, packet_id = pid, authenticator = auth, attributes = as, packed = None\<rparr>
               secret request_authenticator (CODE cls)))"

definition radius_parse_packet ::
    "(bytes \<Rightarrow> bytes) \<Rightarrow> (bytes \<Rightarrow> bytes \<Rightarrow> bytes) \<Rightarrow> bytes \<Rightarrow> ustr option \<Rightarrow> (int, bytes) dict \<Rightarrow>
       radius_packet result option" where
  \<comment> \<open>\<open>Radius.parse\<close>\<close>
  "radius_parse_packet md5 hmac packed_message secret ids =
     (case struct_unpack [FB, FB, FH, FS 16] (take RADIUS_HEADER_LENGTH packed_message) of
        Inr [VInt code, VInt pid, VInt len, VBytes auth] \<Rightarrow>
          (case PACKET_TYPE_PARSERS code of
             None \<Rightarrow> Some (Inl MessageParseError)
           | Some cls \<Rightarrow>
               (case attributes_parse (drop RADIUS_HEADER_LENGTH packed_message) of
                  None \<Rightarrow> None
                | Some r \<Rightarrow> Some (bind_result r (radius_finish md5 hmac secret ids cls pid auth))))
      | _ \<Rightarrow> Some (Inl MessageParseError))"

subsection \<open>Packing attribute lists\<close>

definition list_avps :: "attribute list \<Rightarrow> bytes" where
  "list_avps as = concat (map avps as)"

lemma list_avps_simps [simp]: "list_avps [] = []" "list_avps (a # as) = avps a @ list_avps as"
  by (simp_all add: list_avps_def)

lemma attributes_pack_avps: "list_all attribute_ok as \<Longrightarrow> attributes_pack as = Inr (list_avps as)"
  by (induction as) (simp_all add: attribute_pack_avps)

lemma attributes_len_avps: "list_all attribute_ok as \<Longrightarrow> attributes_len as = Inr (length (list_avps as))"
  by (induction as) (simp_all add: attribute_full_length_avps)

text \<open>The attributes before the first one with a description.\<close>

definition before :: "string \<Rightarrow> attribute list \<Rightarrow> attribute list" where
  "before item = takeWhile (\<lambda>a. DESCRIPTION (attr_class a) \<noteq> item)"

lemma attributes_indexof_before:
  "list_all attribute_ok as \<Longrightarrow>
     attributes_indexof item as =
       (if attributes_find item as = None then Inl ValueError else Inr (length (list_avps (before item as))))"
  by (induction as) (auto simp: attribute_full_length_avps before_def)

lemma attributes_find_Some:
  "attributes_find item as = Some a \<Longrightarrow>
     \<exists>ys. as = before item as @ a # ys \<and> DESCRIPTION (attr_class a) = item"
  by (induction as) (auto simp: before_def split: if_splits)

lemma attributes_find_None: "attributes_find item as = None \<longleftrightarrow> (\<forall>a\<in>set as. DESCRIPTION (attr_class a) \<noteq> item)"
  by (induction as) auto

subsection \<open>Extracting what was packed\<close>

lemma avp_at:
  assumes "pos s = length pre" "length c \<le> 253" "attribute_parse cls c = Inr a"
  shows "extract_step (pre @ avp (TYPE_NO cls) c @ rest) s = Inr (visit s (length c + 2) a)"
proof -
  have t: "uint (word_of_int (TYPE_NO cls) :: byte) = TYPE_NO cls"
    and l: "uint (word_of_int (int (length c + 2)) :: byte) = int (length c + 2)"
    using TYPE_NO_range [of cls] assms(2) by (simp add: uint_byte_of_int, intro uint_byte_of_int) simp_all
  have hd: "py_slice (pos s) (pos s + 2) (pre @ avp (TYPE_NO cls) c @ rest) =
      [word_of_int (TYPE_NO cls), word_of_int (int (length c + 2))]"
    using assms(1) by (simp add: py_slice_def avp_def)
  have dt: "py_slice (pos s + 2) (pos s + (length c + 2)) (pre @ avp (TYPE_NO cls) c @ rest) = c"
    using assms(1) by (simp add: py_slice_def avp_def)
  have n: "nat (int (length c + 2)) = length c + 2" "0 \<le> int (length c + 2) - 2"
    "nat (int (length c + 2) - 2) = length c" by simp_all
  have tk: "take (length c) c = c" by simp
  show ?thesis
    by (simp only: extract_step_def hd unpack_BB list.case t l sum.case pyval.case n dt Let_def
        attr_registry.find_key option.case assms(3) bind_result_simps py_take_nonneg tk)
qed

text \<open>The visits of a list of attributes, piece by piece.\<close>

definition pieces :: "attribute \<Rightarrow> attribute list" where
  "pieces a = map (\<lambda>c. \<lparr>attr_class = attr_class a,
     attr_data = \<lparr>dt_class = DATA_TYPE (attr_class a), bytes_data = Some c\<rparr>\<rparr>) (chunks a)"

definition visits :: "extract_state \<Rightarrow> attribute list \<Rightarrow> extract_state" where
  "visits = foldl (\<lambda>s a. visit s (length (the (attribute_bytes a)) + 2) a)"

definition piece_ok :: "attribute \<Rightarrow> bool" where
  "piece_ok a \<longleftrightarrow> (\<exists>c b. a = \<lparr>attr_class = c, attr_data = \<lparr>dt_class = DATA_TYPE c, bytes_data = Some b\<rparr>\<rparr> \<and>
     length b \<le> 253 \<and> attribute_parse c b = Inr a)"

definition piece_avp :: "attribute \<Rightarrow> bytes" where
  "piece_avp a = avp (TYPE_NO (attr_class a)) (the (attribute_bytes a))"

lemma pos_visit [simp]: "pos (visit s n a) = pos s + n"
  by (simp add: visit_def Let_def)

lemma extract_pieces:
  "list_all piece_ok ps \<Longrightarrow> pos s = length pre \<Longrightarrow>
     extract_attributes (pre @ concat (map piece_avp ps)) s = Some (Inr (visits s ps))"
proof (induction ps arbitrary: pre s)
  case Nil
  then show ?case by (subst extract_attributes.simps) (simp add: visits_def)
next
  case (Cons a ps)
  then obtain b where a: "a = \<lparr>attr_class = attr_class a,
        attr_data = \<lparr>dt_class = DATA_TYPE (attr_class a), bytes_data = Some b\<rparr>\<rparr>"
    and b: "length b \<le> 253" "attribute_parse (attr_class a) b = Inr a"
    by (auto simp: piece_ok_def)
  then have ab: "attribute_bytes a = Some b" by (metis attribute_bytes_def attribute.select_convs(2)
      data_type.select_convs(2))
  let ?data = "pre @ concat (map piece_avp (a # ps))"
  have data: "?data = pre @ avp (TYPE_NO (attr_class a)) b @ concat (map piece_avp ps)"
    by (simp add: piece_avp_def ab)
  have step: "extract_step ?data s = Inr (visit s (length b + 2) a)"
    unfolding data by (rule avp_at [OF Cons.prems(2) b])
  have "extract_attributes ((pre @ piece_avp a) @ concat (map piece_avp ps)) (visit s (length b + 2) a) =
      Some (Inr (visits (visit s (length b + 2) a) ps))"
    using Cons by (intro Cons.IH) (simp_all add: piece_avp_def ab)
  then show ?case
    using Cons.prems(2) step
    by (subst extract_attributes.simps) (simp add: visits_def ab piece_avp_def)
qed

lemma avps_pieces: "avps a = concat (map piece_avp (pieces a))"
  by (simp add: avps_def pieces_def piece_avp_def attribute_bytes_def comp_def)

lemma list_avps_pieces: "list_avps as = concat (map piece_avp (concat (map pieces as)))"
  by (induction as) (simp_all add: avps_pieces)

lemma pieces_ok: "attribute_ok a \<Longrightarrow> list_all piece_ok (pieces a)"
proof (erule attribute_okE)
  fix c b
  assume a: "a = \<lparr>attr_class = c, attr_data = \<lparr>dt_class = DATA_TYPE c, bytes_data = Some b\<rparr>\<rparr>"
    and ok: "c \<noteq> EAPMessage \<Longrightarrow> length_ok (DATA_TYPE c) b"
  show "list_all piece_ok (pieces a)"
  proof (cases "c = EAPMessage")
    case True
    then show ?thesis using a
      by (auto simp: pieces_def list_all_iff piece_ok_def chunks_def attribute_bytes_def
          eap_message_parse dest: avp_split_bounds)
  next
    case False
    then show ?thesis using a ok length_ok_bounds [of "DATA_TYPE c" b]
      by (auto simp: pieces_def list_all_iff piece_ok_def chunks_def attribute_bytes_def
          attribute_parse_def data_type_parse_eq)
  qed
qed

lemma extract_list:
  "list_all attribute_ok as \<Longrightarrow>
     extract_attributes (list_avps as) extract_start = Some (Inr (visits extract_start (concat (map pieces as))))"
  using extract_pieces [of "concat (map pieces as)" extract_start "[]"]
  by (simp add: list_avps_pieces extract_start_def list_all_iff pieces_ok)
    (metis list_all_iff pieces_ok)

subsection \<open>Merging the pieces\<close>

abbreviation is_eap :: "attribute \<Rightarrow> bool" where
  "is_eap a \<equiv> attr_class a = EAPMessage"

lemma visits_simps [simp]:
  "visits s [] = s"
  "visits s (a # as) = visits (visit s (length (the (attribute_bytes a)) + 2) a) as"
  "visits s (as @ bs) = visits (visits s as) bs"
  by (simp_all add: visits_def)

lemma visits_plain:
  "list_all (\<lambda>a. \<not> is_eap a) ps \<Longrightarrow>
     attributes_out (visits s ps) = attributes_out s @ ps \<and>
     attributes_to_concat (visits s ps) = attributes_to_concat s \<and>
     index (visits s ps) = index s + int (length ps) \<and>
     (last_attribute s \<noteq> 79 \<longrightarrow> last_attribute (visits s ps) \<noteq> 79)"
proof (induction ps arbitrary: s)
  case (Cons a ps)
  then have "DATA_TYPE (attr_class a) \<noteq> Concat" "TYPE_NO (attr_class a) \<noteq> 79"
    using attr_registry.key_inject [of "attr_class a" EAPMessage] by (simp_all add: DATA_TYPE_Concat)
  with Cons show ?case by (simp add: visit_def Let_def)
qed simp

lemma visits_eap_tail:
  "list_all is_eap ps \<Longrightarrow> last_attribute s = 79 \<Longrightarrow> attributes_to_concat s = [(79, l)] \<Longrightarrow>
     attributes_out (visits s ps) = attributes_out s @ ps \<and>
     attributes_to_concat (visits s ps) = [(79, l @ map (\<lambda>p. (p, index s)) ps)] \<and>
     index (visits s ps) = index s"
  by (induction ps arbitrary: s l) (simp_all add: visit_def Let_def concat_append_def)

lemma visits_eap:
  assumes "list_all is_eap ps" "ps \<noteq> []" "last_attribute s \<noteq> 79" "attributes_to_concat s = []"
  shows "attributes_out (visits s ps) = attributes_out s @ ps \<and>
     attributes_to_concat (visits s ps) = [(79, map (\<lambda>p. (p, index s + 1)) ps)] \<and>
     index (visits s ps) = index s + 1"
proof -
  from assms(2) obtain a qs where ps: "ps = a # qs" by (cases ps) auto
  let ?s = "visit s (length (the (attribute_bytes a)) + 2) a"
  have "last_attribute ?s = 79" "attributes_to_concat ?s = [(79, [(a, index s + 1)])]"
    "index ?s = index s + 1" "attributes_out ?s = attributes_out s @ [a]"
    using assms ps by (simp_all add: visit_def Let_def concat_append_def)
  with visits_eap_tail [of qs ?s "[(a, index s + 1)]"] assms(1) show ?thesis
    by (simp add: ps)
qed

lemma pieces_plain: "attribute_ok a \<Longrightarrow> \<not> is_eap a \<Longrightarrow> pieces a = [a]"
  by (erule attribute_okE) (simp add: pieces_def chunks_def attribute_bytes_def)

lemma concat_pieces_plain:
  "list_all attribute_ok as \<Longrightarrow> list_all (\<lambda>a. \<not> is_eap a) as \<Longrightarrow> concat (map pieces as) = as"
  by (induction as) (simp_all add: pieces_plain)

lemma pieces_eap:
  assumes "attribute_ok a" "is_eap a"
  shows "pieces a \<noteq> []" "list_all is_eap (pieces a)"
    and "concat (map (\<lambda>p. the (attribute_bytes p)) (pieces a)) = the (attribute_bytes a)"
    and "attribute_parse EAPMessage (the (attribute_bytes a)) = Inr a"
proof -
  from assms obtain b where a: "a = \<lparr>attr_class = EAPMessage, attr_data = \<lparr>dt_class = Concat, bytes_data = Some b\<rparr>\<rparr>"
    and b: "b \<noteq> []"
    by (elim attribute_okE) auto
  show "pieces a \<noteq> []" using a b by (simp add: pieces_def chunks_def attribute_bytes_def avp_split_step)
  show "list_all is_eap (pieces a)" using a by (simp add: pieces_def list_all_iff)
  show "concat (map (\<lambda>p. the (attribute_bytes p)) (pieces a)) = the (attribute_bytes a)"
    using a by (simp add: pieces_def chunks_def attribute_bytes_def concat_avp_split comp_def)
  show "attribute_parse EAPMessage (the (attribute_bytes a)) = Inr a"
    using a by (simp add: eap_message_parse attribute_bytes_def)
qed

lemma merge_single:
  assumes "list_all (\<lambda>a. \<not> is_eap a) xs" "list_all (\<lambda>a. \<not> is_eap a) ys" "attribute_ok e" "is_eap e"
  shows "merge_concat_attributes (xs @ pieces e @ ys) [(79, map (\<lambda>p. (p, int (length xs))) (pieces e))] =
    Inr (xs @ e # ys)"
proof -
  note e = pieces_eap [OF assms(3,4)]
  have cls: "ATTRIBUTE_TYPES 79 = Some EAPMessage" using attr_registry.find_key [of EAPMessage] by simp
  have "concatenated (79, map (\<lambda>p. (p, int (length xs))) (pieces e)) = Inr (e, int (length xs))"
    using e by (simp add: concatenated_def cls comp_def last_map)
  moreover have "filter (\<lambda>x. \<not> is_eap x) (xs @ pieces e @ ys) = xs @ ys"
    using assms(1,2) e(2) by (simp add: list_all_iff)
  ultimately show ?thesis
    by (simp add: merge_concat_attributes_def assms(4) py_insert_def)
qed

lemma attributes_parse_pack:
  assumes ok: "list_all attribute_ok as" and one: "length (filter is_eap as) \<le> 1"
  shows "attributes_parse (list_avps as) = Some (Inr as)"
proof (cases "filter is_eap as")
  case Nil
  then have plain: "list_all (\<lambda>a. \<not> is_eap a) as" by (simp add: filter_empty_conv list_all_iff)
  then show ?thesis
    using extract_list [OF ok] concat_pieces_plain [OF ok plain] visits_plain [OF plain, of extract_start]
    by (simp add: attributes_parse_def merge_concat_attributes_def extract_start_def)
next
  case (Cons e es)
  then have "filter is_eap as = [e]" using one by simp
  from filter_eq_ConsD [OF this] obtain xs ys where as: "as = xs @ e # ys" and e: "is_eap e"
    and xs: "list_all (\<lambda>a. \<not> is_eap a) xs" and none: "filter is_eap ys = []"
    by (auto simp: list_all_iff)
  from none have ys: "list_all (\<lambda>a. \<not> is_eap a) ys" by (simp add: filter_empty_conv list_all_iff)
  have okc: "attribute_ok e" "list_all attribute_ok xs" "list_all attribute_ok ys"
    using ok as by simp_all
  let ?s1 = "visits extract_start xs" and ?s2 = "visits (visits extract_start xs) (pieces e)"
  have s1: "attributes_out ?s1 = xs" "attributes_to_concat ?s1 = []" "index ?s1 + 1 = int (length xs)"
    "last_attribute ?s1 \<noteq> 79"
    using visits_plain [OF xs, of extract_start] by (simp_all add: extract_start_def)
  have s2: "attributes_out ?s2 = xs @ pieces e"
    "attributes_to_concat ?s2 = [(79, map (\<lambda>p. (p, int (length xs))) (pieces e))]"
    using visits_eap [OF pieces_eap(2,1) [OF okc(1) e] s1(4,2)] s1(1,3) by simp_all
  show ?thesis
    using extract_list [OF ok] visits_plain [OF ys, of ?s2] s2 merge_single [OF xs ys okc(1) e]
    by (simp add: attributes_parse_def as concat_pieces_plain okc xs ys)
qed

subsection \<open>What the attribute parser returns\<close>

definition parsed_ok :: "attribute \<Rightarrow> bool" where
  "parsed_ok a \<longleftrightarrow> (\<exists>b. attribute_parse (attr_class a) b = Inr a)"

definition extract_inv :: "extract_state \<Rightarrow> bool" where
  "extract_inv s \<longleftrightarrow> list_all parsed_ok (attributes_out s) \<and>
     (attributes_to_concat s = [] \<and> list_all (\<lambda>a. \<not> is_eap a) (attributes_out s) \<or>
      (\<exists>l. attributes_to_concat s = [(79, l)]))"

lemma extract_stepE:
  assumes "extract_step d s = Inr s'"
  obtains x y cls v a where "py_slice (pos s) (pos s + 2) d = [x, y]"
    and "ATTRIBUTE_TYPES (uint x) = Some cls" and "attribute_parse cls v = Inr a"
    and "v = py_take (uint y - 2) (py_slice (pos s + 2) (pos s + nat (uint y)) d)"
    and "s' = visit s (nat (uint y)) a"
  using assms unfolding extract_step_def
  by (auto simp: struct_simps bind_result_eq_Inr Let_def split: list.splits option.splits)

lemma extract_step_error: "extract_step d s = Inl e \<Longrightarrow> e = MessageParseError"
  unfolding extract_step_def
  by (auto simp: struct_simps bind_result_eq_Inl Let_def split: list.splits option.splits
      dest: attribute_parse_error)

lemma extract_inv_start [simp]: "extract_inv extract_start"
  by (simp add: extract_inv_def extract_start_def)

lemma extract_inv_step:
  assumes "extract_inv s" "extract_step d s = Inr s'"
  shows "extract_inv s'"
proof -
  from assms(2) obtain cls v a n where a: "attribute_parse cls v = Inr a" "s' = visit s n a"
    by (rule extract_stepE)
  then have "attr_class a = cls" using attribute_parse_ok by fastforce
  with a have "parsed_ok a" by (auto simp: parsed_ok_def)
  with assms(1) show ?thesis
    by (cases "is_eap a") (auto simp: a(2) extract_inv_def visit_def Let_def DATA_TYPE_Concat concat_append_def)
qed

lemma extract_attributes_result:
  assumes "extract_attributes d s = Some r" "extract_inv s"
  shows "r = Inl MessageParseError \<or> (\<exists>s'. r = Inr s' \<and> extract_inv s')"
  using assms
proof (induction rule: extract_attributes.raw_induct [rotated 1, consumes 1])
  case (1 f d s r)
  show ?case
  proof (cases "extract_step d s")
    case (Inl e)
    with 1 extract_step_error [OF Inl] show ?thesis by (auto split: if_splits)
  next
    case (Inr s')
    with 1 extract_inv_step [OF _ Inr] show ?thesis by (auto split: if_splits)
  qed
qed

lemma merge_ok:
  assumes "extract_inv s"
  shows "\<exists>as. merge_concat_attributes (attributes_out s) (attributes_to_concat s) = Inr as \<and>
    list_all parsed_ok as \<and> length (filter is_eap as) \<le> 1"
proof (cases "attributes_to_concat s = []")
  case True
  then show ?thesis using assms
    by (auto simp: extract_inv_def merge_concat_attributes_def list_all_iff filter_empty_conv)
next
  case False
  then obtain l where l: "attributes_to_concat s = [(79, l)]" using assms by (auto simp: extract_inv_def)
  have cls: "ATTRIBUTE_TYPES 79 = Some EAPMessage" using attr_registry.find_key [of EAPMessage] by simp
  let ?kept = "filter (\<lambda>x. \<not> is_eap x) (attributes_out s)"
  let ?e = "\<lparr>attr_class = EAPMessage, attr_data = \<lparr>dt_class = Concat,
    bytes_data = Some (concat (map (\<lambda>(d, i). the (attribute_bytes d)) l))\<rparr>\<rparr>"
  let ?as = "py_insert (nat (snd (last l))) ?e ?kept"
  have "merge_concat_attributes (attributes_out s) (attributes_to_concat s) = Inr ?as"
    by (simp add: merge_concat_attributes_def l concatenated_def cls eap_message_parse)
  moreover have "list_all parsed_ok ?as"
    using assms
    by (auto simp: extract_inv_def py_insert_def list_all_iff parsed_ok_def eap_message_parse
        dest!: in_set_takeD in_set_dropD)
  moreover have "filter is_eap (take n ?kept) = []" "filter is_eap (drop n ?kept) = []" for n
    by (auto simp: filter_empty_conv dest: in_set_takeD in_set_dropD)
  then have "length (filter is_eap ?as) \<le> 1" by (simp add: py_insert_def)
  ultimately show ?thesis by blast
qed

lemma attributes_parse_result:
  "attributes_parse d = Some r \<Longrightarrow>
     r = Inl MessageParseError \<or> (\<exists>as. r = Inr as \<and> list_all parsed_ok as \<and> length (filter is_eap as) \<le> 1)"
  using extract_attributes_result [of d extract_start] merge_ok
  by (auto simp: attributes_parse_def split: option.splits sum.splits)

lemma parsed_ok_attribute_ok:
  "parsed_ok a \<Longrightarrow> attribute_bytes a \<noteq> Some [] \<Longrightarrow> attribute_ok a"
proof -
  assume "parsed_ok a" and ne: "attribute_bytes a \<noteq> Some []"
  then obtain c b where a: "a = \<lparr>attr_class = c, attr_data = \<lparr>dt_class = DATA_TYPE c, bytes_data = Some b\<rparr>\<rparr>"
    and b: "c = EAPMessage \<or> length_ok (DATA_TYPE c) b"
    using attribute_parse_ok unfolding parsed_ok_def by blast
  from ne b show "attribute_ok a" unfolding a by (auto simp: attribute_ok_def attribute_bytes_def)
qed

subsection \<open>When the attribute parser returns\<close>

text \<open>No two neighbouring bytes are the header of an EAP-Message of declared length zero.\<close>

definition no_empty_eap_header :: "bytes \<Rightarrow> bool" where
  "no_empty_eap_header d \<longleftrightarrow> (\<forall>i < length d - 1. \<not> (d ! i = 79 \<and> d ! (i + 1) = 0))"

lemma extract_step_progress:
  assumes "extract_step d s = Inr s'" "no_empty_eap_header d"
  shows "pos s < pos s'"
proof (rule ccontr)
  assume stuck: "\<not> pos s < pos s'"
  from assms(1) obtain x y cls v a where sl: "py_slice (pos s) (pos s + 2) d = [x, y]"
    and cls: "ATTRIBUTE_TYPES (uint x) = Some cls" and a: "attribute_parse cls v = Inr a"
    and v: "v = py_take (uint y - 2) (py_slice (pos s + 2) (pos s + nat (uint y)) d)"
    and s': "s' = visit s (nat (uint y)) a"
    by (rule extract_stepE)
  have y: "uint y = 0" using stuck s' uint_byte_bounds(1) [of y] by (simp del: uint_byte_bounds nat_uint_eq)
  then have "v = []" using v by (simp add: py_slice_def)
  then have "cls = EAPMessage" using attribute_parse_ok [OF a] length_ok_bounds [of "DATA_TYPE cls" "[]"] by auto
  then have "uint x = 79" using attr_registry.find_sound [OF cls] by simp
  have len: "pos s + 1 < length d"
    using arg_cong [OF sl, of length] by simp
  moreover have "d ! pos s = x" "d ! (pos s + 1) = y"
    using arg_cong [OF sl, of "\<lambda>l. l ! 0"] arg_cong [OF sl, of "\<lambda>l. l ! 1"] len
    by (simp_all add: py_slice_def)
  moreover have "x = 79" "y = 0"
    using \<open>uint x = 79\<close> y by (metis byte_of_int_uint word_of_int_numeral, simp add: uint_0_iff)
  ultimately show False using assms(2) by (auto simp: no_empty_eap_header_def)
qed

lemma extract_attributes_returns:
  "no_empty_eap_header d \<Longrightarrow> \<exists>r. extract_attributes d s = Some r"
proof (induction "length d - pos s" arbitrary: s rule: less_induct)
  case less
  show ?case
  proof (cases "pos s < length d")
    case False
    then show ?thesis by (subst extract_attributes.simps) simp
  next
    case True
    show ?thesis
    proof (cases "extract_step d s")
      case (Inl e)
      with True show ?thesis by (subst extract_attributes.simps) simp
    next
      case (Inr s')
      with less.prems have "pos s < pos s'" by (rule extract_step_progress [rotated])
      with True less have "\<exists>r. extract_attributes d s' = Some r" by (intro less.hyps) auto
      with True Inr show ?thesis by (subst extract_attributes.simps) simp
    qed
  qed
qed

lemma attributes_parse_returns: "no_empty_eap_header d \<Longrightarrow> \<exists>r. attributes_parse d = Some r"
  using extract_attributes_returns [of d extract_start]
  by (auto simp: attributes_parse_def split: sum.splits)

lemma stalled_step:
  "pos s = 0 \<Longrightarrow> \<exists>a. extract_step (79 # 0 # rest) s = Inr (visit s 0 a)"
proof -
  assume s: "pos s = 0"
  have cls: "ATTRIBUTE_TYPES 79 = Some EAPMessage" using attr_registry.find_key [of EAPMessage] by simp
  have "py_slice (pos s) (pos s + 2) (79 # 0 # rest) = [79, 0 :: byte]" using s by (simp add: py_slice_def)
  then show ?thesis using s
    by (simp add: extract_step_def unpack_BB cls py_slice_def eap_message_parse) blast
qed

lemma extract_attributes_stalls:
  "extract_attributes d s = Some r \<Longrightarrow> d = 79 # 0 # rest \<longrightarrow> pos s = 0 \<longrightarrow> False"
proof (induction rule: extract_attributes.raw_induct [rotated 1, consumes 1])
  case (1 f d s r)
  show ?case
  proof (intro impI)
    assume d: "d = 79 # 0 # rest" and s: "pos s = 0"
    obtain a where "extract_step d s = Inr (visit s 0 a)" using stalled_step [OF s] d by blast
    with 1(2) d s have "f d (visit s 0 a) = Some r" by simp
    from 1(1) [OF this] d s show False by simp
  qed
qed

lemma attributes_parse_stalls: "attributes_parse (79 # 0 # rest) = None"
  using extract_attributes_stalls [of "79 # 0 # rest" extract_start]
  by (cases "extract_attributes (79 # 0 # rest) extract_start")
    (auto simp: attributes_parse_def extract_start_def)

subsection \<open>Packed packets\<close>

definition radius_ok :: "radius_packet \<Rightarrow> bool" where
  "radius_ok p \<longleftrightarrow> 0 \<le> packet_id p \<and> packet_id p < 256 \<and> length (authenticator p) = 16 \<and>
     list_all attribute_ok (attributes p) \<and> length (filter is_eap (attributes p)) \<le> 1 \<and>
     RADIUS_HEADER_LENGTH + length (list_avps (attributes p)) < 65536"

definition radius_header :: "radius_packet \<Rightarrow> bytes" where
  "radius_header p =
     (let n = int (RADIUS_HEADER_LENGTH + length (list_avps (attributes p)))
      in [word_of_int (CODE (rclass p)), word_of_int (packet_id p), word_of_int (n div 256), word_of_int (n mod 256)]
         @ authenticator p)"

lemma CODE_range: "0 \<le> CODE c" "CODE c < 256"
  by (cases c; simp)+

lemma radius_bytes_ok: "radius_ok p \<Longrightarrow> radius_bytes p = Inr (radius_header p @ list_avps (attributes p))"
  using CODE_range [of "rclass p"]
  by (simp add: radius_ok_def radius_bytes_def attributes_len_avps attributes_pack_avps radius_header_def
      Let_def RADIUS_HEADER_LENGTH_def)

lemma length_radius_header: "radius_ok p \<Longrightarrow> length (radius_header p) = RADIUS_HEADER_LENGTH"
  by (simp add: radius_header_def radius_ok_def Let_def RADIUS_HEADER_LENGTH_def)

lemma unpack_radius_header:
  assumes "radius_ok p"
  shows "\<exists>n. struct_unpack [FB, FB, FH, FS 16] (radius_header p) =
    Inr [VInt (CODE (rclass p)), VInt (packet_id p), VInt n, VBytes (authenticator p)]"
  using assms CODE_range [of "rclass p"]
  by (simp add: struct_unpack_def radius_header_def radius_ok_def Let_def numeral_2_eq_2 uint_byte_of_int)

lemma radius_parse_packed:
  assumes "radius_ok p"
  shows "radius_parse_packet md5 hmac (radius_header p @ list_avps (attributes p)) secret ids =
    Some (radius_finish md5 hmac secret ids (rclass p) (packet_id p) (authenticator p) (attributes p))"
proof -
  obtain n where n: "struct_unpack [FB, FB, FH, FS 16] (radius_header p) =
      Inr [VInt (CODE (rclass p)), VInt (packet_id p), VInt n, VBytes (authenticator p)]"
    using unpack_radius_header [OF assms] by blast
  have "attributes_parse (list_avps (attributes p)) = Some (Inr (attributes p))"
    using assms by (intro attributes_parse_pack) (simp_all add: radius_ok_def)
  then show ?thesis
    by (simp add: radius_parse_packet_def length_radius_header [OF assms] n packet_registry.find_key)
qed

subsection \<open>Building a packet\<close>

lemma poke_append: "poke ma q buf (is @ js) = bind_result (poke ma q buf is) (\<lambda>b. poke ma q b js)"
  by (induction "is" arbitrary: buf) simp_all

lemma poke_range:
  "n \<le> length ma \<Longrightarrow> q + n \<le> length buf \<Longrightarrow>
     poke ma q buf [0..<n] = Inr (take q buf @ take n ma @ drop (q + n) buf)"
proof (induction n)
  case (Suc n)
  then have split: "drop (q + n) buf = buf ! (q + n) # drop (q + Suc n) buf"
    by (simp add: Cons_nth_drop_Suc)
  from Suc show ?case
    by (simp add: poke_append split take_Suc_conv_app_nth list_update_append nth_append min_def)
qed simp

definition with_ma :: "bytes \<Rightarrow> attribute list \<Rightarrow> attribute list" where
  \<comment> \<open>the list with other bytes in its first Message-Authenticator\<close>
  "with_ma ma as =
     (let b = before (DESCRIPTION MessageAuthenticator) as
      in b @ map (set_attribute_bytes (Some ma)) (take 1 (drop (length b) as)) @ drop (length b + 1) as)"

lemma before_append:
  "list_all (\<lambda>a. attr_class a \<noteq> c) xs \<Longrightarrow> attr_class m = c \<Longrightarrow> before (DESCRIPTION c) (xs @ m # ys) = xs"
  by (induction xs) (auto simp: before_def DESCRIPTION_inject)

lemma with_ma_split:
  "list_all (\<lambda>a. attr_class a \<noteq> MessageAuthenticator) xs \<Longrightarrow> attr_class m = MessageAuthenticator \<Longrightarrow>
     with_ma ma (xs @ m # ys) = xs @ set_attribute_bytes (Some ma) m # ys"
  by (simp add: with_ma_def before_append)

lemma zero_first_split:
  "list_all (\<lambda>a. attr_class a \<noteq> c) xs \<Longrightarrow> attr_class m = c \<Longrightarrow>
     zero_first (DESCRIPTION c) (xs @ m # ys) = xs @ set_attribute_bytes (Some (replicate 16 0)) m # ys"
  by (induction xs) (auto simp: DESCRIPTION_inject)

lemma find_split:
  assumes "attributes_find (DESCRIPTION c) as = Some m"
  obtains xs ys where "as = xs @ m # ys" "list_all (\<lambda>a. attr_class a \<noteq> c) xs" "attr_class m = c"
    "before (DESCRIPTION c) as = xs"
proof -
  from attributes_find_Some [OF assms] obtain ys where "as = before (DESCRIPTION c) as @ m # ys"
    "attr_class m = c" by (auto simp: DESCRIPTION_inject)
  moreover have "list_all (\<lambda>a. attr_class a \<noteq> c) (before (DESCRIPTION c) as)"
    by (auto simp: before_def list_all_iff dest!: set_takeWhileD)
  ultimately show thesis using that by blast
qed

lemma find_append:
  "list_all (\<lambda>a. attr_class a \<noteq> c) xs \<Longrightarrow> attr_class m = c \<Longrightarrow> attributes_find (DESCRIPTION c) (xs @ m # ys) = Some m"
  by (induction xs) (auto simp: DESCRIPTION_inject)

lemma ma_avps:
  assumes "attribute_ok m" "attr_class m = MessageAuthenticator" "length b = 16"
  shows "avps (set_attribute_bytes (Some b) m) = [80, 18] @ b" "attribute_ok (set_attribute_bytes (Some b) m)"
  using assms
  by (auto elim!: attribute_okE simp: set_attribute_bytes_def avps_def chunks_def attribute_bytes_def avp_def
      attribute_ok_def length_ok_def)

lemma list_avps_append [simp]: "list_avps (as @ bs) = list_avps as @ list_avps bs"
  by (simp add: list_avps_def)

lemma radius_build_ok:
  assumes p: "radius_ok p" "packed p = None" and s: "s \<noteq> []" "utf8_encode s = Inr key"
    and m: "attributes_find (DESCRIPTION MessageAuthenticator) (attributes p) = Some m"
      "attribute_bytes m = Some (replicate 16 0)"
    and hmac: "\<And>k x. length (hmac k x) = 16"
  shows "radius_build hmac (Some s) p =
    Inr (p\<lparr>packed := Some (radius_header p @
      list_avps (with_ma (hmac key (radius_header p @ list_avps (attributes p))) (attributes p)))\<rparr>)"
proof -
  obtain xs ys where as: "attributes p = xs @ m # ys" and xs: "list_all (\<lambda>a. attr_class a \<noteq> MessageAuthenticator) xs"
    and mc: "attr_class m = MessageAuthenticator" and be: "before (DESCRIPTION MessageAuthenticator) (attributes p) = xs"
    using find_split [OF m(1)] by blast
  let ?b = "radius_header p @ list_avps (attributes p)"
  let ?ma = "hmac key ?b"
  have mok: "attribute_ok m" using p(1) as by (simp add: radius_ok_def)
  have m0: "set_attribute_bytes (Some (replicate 16 0)) m = m"
    using m(2) by (simp add: set_attribute_bytes_def attribute_bytes_def)
  have avm: "avps m = [80, 18] @ replicate 16 0" using ma_avps(1) [OF mok mc, of "replicate 16 0"] m0 by simp
  have pk: "radius_packet_pack p = Inr (p\<lparr>packed := Some ?b\<rparr>)"
    by (simp add: radius_packet_pack_def radius_bytes_ok [OF p(1)])
  have ix: "attributes_indexof (DESCRIPTION MessageAuthenticator) (attributes p) = Inr (length (list_avps xs))"
    using p(1) m(1) be by (simp add: radius_ok_def attributes_indexof_before)
  have buf: "?b = (radius_header p @ list_avps xs @ [80, 18]) @ replicate 16 0 @ list_avps ys"
    by (simp add: as avm)
  have q: "length (radius_header p @ list_avps xs @ [80, 18 :: byte]) = length (list_avps xs) + RADIUS_HEADER_LENGTH + 2"
    by (simp add: length_radius_header [OF p(1)])
  have "poke ?ma (length (list_avps xs) + RADIUS_HEADER_LENGTH + 2) ?b [0..<16] =
      Inr ((radius_header p @ list_avps xs @ [80, 18]) @ ?ma @ list_avps ys)"
    using poke_range [of 16 ?ma "length (radius_header p @ list_avps xs @ [80, 18 :: byte])" ?b] hmac q
    by (simp add: buf add.commute)
  moreover have "list_avps (with_ma ?ma (attributes p)) = list_avps xs @ [80, 18] @ ?ma @ list_avps ys"
    using ma_avps(1) [OF mok mc hmac] with_ma_split [OF xs mc, of ?ma ys] by (simp add: as)
  ultimately show ?thesis
    using s p(2) by (simp add: radius_build_def pk build_packed_def ix)
qed

lemma built_radius_ok:
  assumes "radius_ok p" "length ma = 16"
    "attributes_find (DESCRIPTION MessageAuthenticator) (attributes p) = Some m" "length (the (attribute_bytes m)) = 16"
  shows "radius_ok (p\<lparr>attributes := with_ma ma (attributes p)\<rparr>)"
    "radius_header (p\<lparr>attributes := with_ma ma (attributes p)\<rparr>) = radius_header p"
proof -
  obtain xs ys where as: "attributes p = xs @ m # ys" and xs: "list_all (\<lambda>a. attr_class a \<noteq> MessageAuthenticator) xs"
    and mc: "attr_class m = MessageAuthenticator"
    using find_split [OF assms(3)] by blast
  have mok: "attribute_ok m" using assms(1) as by (simp add: radius_ok_def)
  have m: "set_attribute_bytes (Some (the (attribute_bytes m))) m = m"
    using mok by (auto elim!: attribute_okE simp: set_attribute_bytes_def attribute_bytes_def)
  have len: "length (list_avps (with_ma ma (attributes p))) = length (list_avps (attributes p))"
    using ma_avps(1) [OF mok mc assms(2)] ma_avps(1) [OF mok mc assms(4)] assms(2,4) m
    by (simp add: as with_ma_split [OF xs mc])
  have "attr_class (set_attribute_bytes (Some ma) m) = attr_class m" by (simp add: set_attribute_bytes_def)
  then show "radius_ok (p\<lparr>attributes := with_ma ma (attributes p)\<rparr>)"
    using assms(1) len ma_avps(2) [OF mok mc assms(2)]
    by (simp add: radius_ok_def as with_ma_split [OF xs mc] mc)
  show "radius_header (p\<lparr>attributes := with_ma ma (attributes p)\<rparr>) = radius_header p"
    using len by (simp add: radius_header_def)
qed

lemma with_ma_zeroed:
  assumes "attributes_find (DESCRIPTION MessageAuthenticator) as = Some m"
    "attribute_bytes m = Some (replicate 16 0)"
  shows "zero_first (DESCRIPTION MessageAuthenticator) (with_ma ma as) = as"
    and "attributes_find (DESCRIPTION MessageAuthenticator) (with_ma ma as) = Some (set_attribute_bytes (Some ma) m)"
proof -
  obtain xs ys where as: "as = xs @ m # ys" and xs: "list_all (\<lambda>a. attr_class a \<noteq> MessageAuthenticator) xs"
    and mc: "attr_class m = MessageAuthenticator"
    using find_split [OF assms(1)] by blast
  have c: "attr_class (set_attribute_bytes (Some ma) m) = MessageAuthenticator"
    by (simp add: set_attribute_bytes_def mc)
  have "set_attribute_bytes (Some (replicate 16 0)) (set_attribute_bytes (Some ma) m) = m"
    using assms(2) by (simp add: set_attribute_bytes_def attribute_bytes_def)
  with zero_first_split [OF xs c, of ys] show "zero_first (DESCRIPTION MessageAuthenticator) (with_ma ma as) = as"
    by (simp add: as with_ma_split [OF xs mc])
  show "attributes_find (DESCRIPTION MessageAuthenticator) (with_ma ma as) = Some (set_attribute_bytes (Some ma) m)"
    unfolding as with_ma_split [OF xs mc] by (rule find_append [OF xs c])
qed

text \<open>A request that was built is accepted, with its Message-Authenticator filled in.\<close>

lemma radius_parse_build:
  assumes p: "radius_ok p" "packed p = None" "rclass p = RadiusAccessRequest"
    and s: "s \<noteq> []" "utf8_encode s = Inr key"
    and m: "attributes_find (DESCRIPTION MessageAuthenticator) (attributes p) = Some m"
      "attribute_bytes m = Some (replicate 16 0)"
    and hmac: "\<And>k x. length (hmac k x) = 16"
  shows "bind_result (radius_build hmac (Some s) p)
      (\<lambda>q. the (radius_parse_packet md5 hmac (the (packed q)) (Some s) ids)) =
    Inr (p\<lparr>attributes := with_ma (hmac key (radius_header p @ list_avps (attributes p))) (attributes p)\<rparr>)"
proof -
  let ?ma = "hmac key (radius_header p @ list_avps (attributes p))"
  let ?q = "p\<lparr>attributes := with_ma ?ma (attributes p)\<rparr>"
  have q: "radius_ok ?q" "radius_header ?q = radius_header p"
    using built_radius_ok [OF p(1) hmac m(1)] m(2) by simp_all
  have self: "?q\<lparr>authenticator := authenticator p, attributes := attributes p\<rparr> = p" by simp
  have fin: "radius_finish md5 hmac (Some s) ids RadiusAccessRequest (packet_id p) (authenticator p)
      (with_ma ?ma (attributes p)) = Inr ?q"
  proof -
    let ?r = "\<lparr>rclass = RadiusAccessRequest, packet_id = packet_id p, authenticator = authenticator p,
      attributes = attributes p, packed = None\<rparr>"
    have r: "?r = p" using p(2,3) by simp
    have "radius_packet_pack ?r = Inr (p\<lparr>packed := Some (radius_header p @ list_avps (attributes p))\<rparr>)"
      unfolding r by (simp add: radius_packet_pack_def radius_bytes_ok [OF p(1)])
    then show ?thesis
      using s p(2,3)
      by (simp add: radius_finish_def validate_packet_def validate_response_authenticator_def
          validate_message_authenticator_def with_ma_zeroed [OF m] set_attribute_bytes_def attribute_bytes_def
         )
  qed
  have "radius_parse_packet md5 hmac (radius_header p @ list_avps (with_ma ?ma (attributes p))) (Some s) ids =
      Some (Inr ?q)"
    using radius_parse_packed [OF q(1), of md5 hmac "Some s" ids] q(2) fin p(3) by simp
  then show ?thesis by (simp add: radius_build_ok [OF p(1,2) s m hmac])
qed

subsection \<open>Accepted packets are authentic\<close>

definition request_auth :: "(int, bytes) dict \<Rightarrow> radius_packet \<Rightarrow> bytes option" where
  "request_auth ids p =
     (if rclass p = RadiusAccessRequest then Some (authenticator p) else dict_get ids (packet_id p))"

text \<open>
  The two checks of RFC 2865 and RFC 3579 a reply must pass: the response authenticator is the
  digest of the packet with the request's authenticator, followed by the secret; a
  Message-Authenticator is the keyed digest of the packet with the request's authenticator and the
  Message-Authenticator zeroed.
\<close>

definition response_auth_valid :: "(bytes \<Rightarrow> bytes) \<Rightarrow> bytes \<Rightarrow> bytes \<Rightarrow> radius_packet \<Rightarrow> bool" where
  "response_auth_valid md5 key ra p \<longleftrightarrow>
     (case radius_bytes (p\<lparr>authenticator := ra\<rparr>) of
        Inl _ \<Rightarrow> False | Inr b \<Rightarrow> md5 (b @ key) = authenticator p)"

definition message_auth_valid :: "(bytes \<Rightarrow> bytes \<Rightarrow> bytes) \<Rightarrow> bytes \<Rightarrow> bytes \<Rightarrow> radius_packet \<Rightarrow> bool" where
  "message_auth_valid hmac key ra p \<longleftrightarrow>
     (case attributes_find (DESCRIPTION MessageAuthenticator) (attributes p) of
        None \<Rightarrow> True
      | Some m \<Rightarrow>
          (case radius_bytes (p\<lparr>authenticator := ra,
             attributes := zero_first (DESCRIPTION MessageAuthenticator) (attributes p)\<rparr>) of
             Inl _ \<Rightarrow> False | Inr b \<Rightarrow> attribute_bytes m = Some (hmac key b)))"

text \<open>
  The packet a datagram holds, byte by byte: its code and identifier are the first two bytes, its
  authenticator the sixteen bytes from the fourth, its attributes what follows the header.
\<close>

definition datagram_holds :: "bytes \<Rightarrow> radius_packet \<Rightarrow> bool" where
  "datagram_holds bs p \<longleftrightarrow>
     RADIUS_HEADER_LENGTH \<le> length bs \<and> CODE (rclass p) = uint (bs ! 0) \<and> packet_id p = uint (bs ! 1) \<and>
     authenticator p = take 16 (drop 4 bs) \<and>
     attributes_parse (drop RADIUS_HEADER_LENGTH bs) = Some (Inr (attributes p))"

lemma unpack_header_fields:
  assumes "struct_unpack [FB, FB, FH, FS 16] (take RADIUS_HEADER_LENGTH bs) =
    Inr [VInt code, VInt pid, VInt len, VBytes auth]"
  shows "RADIUS_HEADER_LENGTH \<le> length bs \<and> code = uint (bs ! 0) \<and> pid = uint (bs ! 1) \<and>
    auth = take 16 (drop 4 bs)"
proof -
  from assms have len: "20 \<le> length bs"
    by (auto simp: struct_unpack_def RADIUS_HEADER_LENGTH_def split: if_splits)
  then obtain a b c d r where bs: "bs = a # b # c # d # r"
    by (auto simp: numeral_eq_Suc Suc_le_length_iff)
  show ?thesis
    using assms len by (simp add: bs struct_unpack_def RADIUS_HEADER_LENGTH_def)
qed

lemma PACKET_TYPE_PARSERS_code: "PACKET_TYPE_PARSERS code = Some cls \<Longrightarrow> CODE cls = code"
  by (auto simp: PACKET_TYPE_PARSERS_def split: if_splits)

lemma radius_bytes_packed [simp]: "radius_bytes (p\<lparr>packed := x\<rparr>) = radius_bytes p"
  by (simp add: radius_bytes_def)

lemma CODE_response: "CODE c \<in> {3, 2, 11} \<longleftrightarrow> c \<noteq> RadiusAccessRequest"
  by (cases c) simp_all

lemma validate_packet_sound:
  assumes "validate_packet md5 hmac p secret ra (CODE (rclass p)) = Inr q"
    "utf8_encode (the secret) = Inr key"
  shows "q = p \<and> secret \<noteq> None \<and> secret \<noteq> Some [] \<and>
    (rclass p \<noteq> RadiusAccessRequest \<longrightarrow> ra \<noteq> [] \<longrightarrow> response_auth_valid md5 key ra p) \<and>
    message_auth_valid hmac key ra p"
proof -
  from assms obtain p1 p2 where q: "q = p" "secret \<noteq> None" "secret \<noteq> Some []"
    and v1: "validate_response_authenticator md5 p ra (the secret) (CODE (rclass p)) = Inr p1"
    and v2: "validate_message_authenticator hmac p1 (the secret) ra = Inr p2"
    by (auto simp: validate_packet_def bind_result_eq_Inr split: if_splits)
  have a: "rclass p \<noteq> RadiusAccessRequest \<Longrightarrow> ra \<noteq> [] \<Longrightarrow> response_auth_valid md5 key ra p"
    using v1 assms(2)
    by (auto simp: validate_response_authenticator_def response_auth_valid_def radius_packet_pack_def
        bind_result_eq_Inr CODE_response simp del: insert_iff split: if_splits)
  have p1: "p1 = p \<or> (\<exists>b. p1 = p\<lparr>authenticator := ra, packed := Some b\<rparr>)"
    using v1 by (auto simp: validate_response_authenticator_def radius_packet_pack_def bind_result_eq_Inr
        split: if_splits)
  have "radius_bytes (p1\<lparr>authenticator := ra, attributes := x\<rparr>) =
      radius_bytes (p\<lparr>authenticator := ra, attributes := x\<rparr>)" and at: "attributes p1 = attributes p" for x
    using p1 by (auto simp: radius_bytes_def)
  then have "message_auth_valid hmac key ra p"
    using v2 assms(2)
    by (auto simp: validate_message_authenticator_def message_auth_valid_def radius_packet_pack_def
        bind_result_eq_Inr split: option.splits if_splits)
  with a q show ?thesis by blast
qed

lemma radius_parse_sound:
  assumes "radius_parse_packet md5 hmac bs (Some s) ids = Some (Inr p)" "utf8_encode s = Inr key"
  shows "s \<noteq> [] \<and> datagram_holds bs p \<and> (\<exists>ra. request_auth ids p = Some ra \<and>
    (rclass p \<noteq> RadiusAccessRequest \<longrightarrow> ra \<noteq> [] \<longrightarrow> response_auth_valid md5 key ra p) \<and>
    message_auth_valid hmac key ra p)"
proof -
  from assms(1) obtain code cls pid len auth as where
    fin: "radius_finish md5 hmac (Some s) ids cls pid auth as = Inr p"
    and hdr: "struct_unpack [FB, FB, FH, FS 16] (take RADIUS_HEADER_LENGTH bs) =
      Inr [VInt code, VInt pid, VInt len, VBytes auth]"
    and cls: "PACKET_TYPE_PARSERS code = Some cls"
    and attrs: "attributes_parse (drop RADIUS_HEADER_LENGTH bs) = Some (Inr as)"
    by (auto simp: radius_parse_packet_def bind_result_eq_Inr
        split: sum.splits list.splits pyval.splits option.splits)
  let ?p = "\<lparr>rclass = cls, packet_id = pid, authenticator = auth, attributes = as, packed = None\<rparr>"
  from fin obtain ra where ra: "(if CODE cls = 1 then Inr auth
      else reraise [KeyError] MessageParseError (dict_index ids pid)) = Inr ra"
    and v: "validate_packet md5 hmac ?p (Some s) ra (CODE cls) = Inr p"
    by (auto simp: radius_finish_def bind_result_eq_Inr)
  have sound: "p = ?p \<and> Some s \<noteq> Some [] \<and>
      (rclass ?p \<noteq> RadiusAccessRequest \<longrightarrow> ra \<noteq> [] \<longrightarrow> response_auth_valid md5 key ra ?p) \<and>
      message_auth_valid hmac key ra ?p"
    using validate_packet_sound [of md5 hmac ?p "Some s" ra p key] v assms(2) by simp
  have "request_auth ids ?p = Some ra"
    using ra by (cases cls) (auto simp: request_auth_def dict_index_def split: option.splits)
  moreover have "datagram_holds bs ?p"
    using unpack_header_fields [OF hdr] PACKET_TYPE_PARSERS_code [OF cls] attrs by (simp add: datagram_holds_def)
  ultimately show ?thesis using sound by auto
qed

subsection \<open>Properties\<close>

interpretation attribute_list: codec "\<lambda>as. list_all attribute_ok as \<and> length (filter is_eap as) \<le> 1"
  attributes_pack "\<lambda>b. the (attributes_parse b)"
  by unfold_locales (auto simp: attributes_pack_avps attributes_parse_pack)

text \<open>Parsing a packed attribute list gives the list back, with the pieces of a long EAP-Message
  merged in their place, and \<open>__len__\<close> is the number of bytes packed.\<close>

theorem attribute_list_roundtrip:
  assumes "list_all attribute_ok as" and "length (filter is_eap as) \<le> 1"
  shows "\<exists>b. attributes_pack as = Inr b \<and> attributes_parse b = Some (Inr as) \<and> attributes_len as = Inr (length b)"
  using attributes_pack_avps [OF assms(1)] attributes_parse_pack [OF assms] attributes_len_avps [OF assms(1)] by blast

definition example_attributes :: "attribute list" where
  "example_attributes =
     [\<lparr>attr_class = UserName, attr_data = \<lparr>dt_class = Text, bytes_data = Some [117, 115]\<rparr>\<rparr>,
      \<lparr>attr_class = EAPMessage, attr_data = \<lparr>dt_class = Concat, bytes_data = Some (replicate 600 3)\<rparr>\<rparr>,
      \<lparr>attr_class = MessageAuthenticator, attr_data = \<lparr>dt_class = String, bytes_data = Some (replicate 16 0)\<rparr>\<rparr>]"

lemma example_attributes_ok:
  "list_all attribute_ok example_attributes" "length (filter is_eap example_attributes) \<le> 1"
  by (simp_all add: example_attributes_def attribute_ok_def attribute_bytes_def length_ok_def)

lemma attribute_list_roundtrip_witness:
  "\<exists>b. attributes_pack example_attributes = Inr b \<and> attributes_parse b = Some (Inr example_attributes) \<and>
     attributes_len example_attributes = Inr (length b)"
  by (rule attribute_list_roundtrip [OF example_attributes_ok])

text \<open>The attribute parser returns on every input in which no two neighbouring bytes are 79, 0
  (the header of an EAP-Message of declared length zero), although the length byte decides how far
  the loop advances.\<close>

theorem attribute_parser_returns:
  assumes "no_empty_eap_header d"
  shows "\<exists>r. attributes_parse d = Some r"
  by (rule attributes_parse_returns [OF assms])

lemma attribute_parser_returns_witness: "\<exists>r. attributes_parse [1, 3, 117, 79, 2] = Some r"
  by (rule attribute_parser_returns) code_simp

text \<open>The attribute parser never returns on a list that starts with an EAP-Message of declared
  length zero: the position is not advanced, so the loop reads the same header for ever.\<close>

theorem attribute_parser_diverges: "attributes_parse (79 # 0 # rest) = None"
  by (rule attributes_parse_stalls)

text \<open>C39: what the attribute parser returns is \<open>MessageParseError\<close> or a list of attributes that their
  classes accept, with at most one EAP-Message.\<close>

theorem attribute_parser_result:
  "case attributes_parse d of
     None \<Rightarrow> True
   | Some (Inl e) \<Rightarrow> e = MessageParseError
   | Some (Inr as) \<Rightarrow> list_all parsed_ok as \<and> length (filter is_eap as) \<le> 1"
  using attributes_parse_result [of d] by (auto split: option.splits sum.splits)

text \<open>C22: a request that \<open>RadiusPacket.build\<close> signed is accepted by \<open>Radius.parse\<close> under the same
  secret, and what is parsed is the request with its Message-Authenticator filled in.\<close>

theorem built_request_accepted:
  assumes "radius_ok p" "packed p = None" "rclass p = RadiusAccessRequest"
    and "s \<noteq> []" "utf8_encode s = Inr key"
    and "attributes_find (DESCRIPTION MessageAuthenticator) (attributes p) = Some m"
      "attribute_bytes m = Some (replicate 16 0)"
    and "\<And>k x. length (hmac k x) = 16"
  shows "bind_result (radius_build hmac (Some s) p)
      (\<lambda>q. the (radius_parse_packet md5 hmac (the (packed q)) (Some s) ids)) =
    Inr (p\<lparr>attributes := with_ma (hmac key (radius_header p @ list_avps (attributes p))) (attributes p)\<rparr>)"
  by (rule radius_parse_build [OF assms])

definition example_request :: radius_packet where
  "example_request = \<lparr>rclass = RadiusAccessRequest, packet_id = 7, authenticator = replicate 16 9,
     attributes = [\<lparr>attr_class = UserName, attr_data = \<lparr>dt_class = Text, bytes_data = Some [117, 115]\<rparr>\<rparr>,
       \<lparr>attr_class = MessageAuthenticator, attr_data = \<lparr>dt_class = String, bytes_data = Some (replicate 16 0)\<rparr>\<rparr>],
     packed = None\<rparr>"

lemma example_request_ok: "radius_ok example_request"
  by (simp add: radius_ok_def example_request_def attribute_ok_def attribute_bytes_def length_ok_def
      RADIUS_HEADER_LENGTH_def avps_def chunks_def)

lemma built_request_accepted_witness:
  "\<exists>q. bind_result (radius_build (\<lambda>k x. replicate 16 (of_nat (length x))) (Some (ascii ''SECRET'')) example_request)
      (\<lambda>q. the (radius_parse_packet (\<lambda>x. x) (\<lambda>k x. replicate 16 (of_nat (length x))) (the (packed q))
         (Some (ascii ''SECRET'')) [])) = Inr q"
proof -
  have "utf8_encode (ascii ''SECRET'') = Inr (map byte_of (ascii ''SECRET''))"
    by (rule utf8_encode_ascii) (simp add: ascii_def)
  from built_request_accepted [OF example_request_ok _ _ _ this, of _ "\<lambda>k x. replicate 16 (of_nat (length x))"]
  show ?thesis
    by (fastforce simp: example_request_def ascii_def DESCRIPTION.simps attribute_bytes_def)
qed

text \<open>C23: a packet \<open>Radius.parse\<close> returns for a datagram is the packet that datagram holds, the
  secret is not empty, and the packet was checked against the secret: it is an Access-Request, whose
  own authenticator stands for the request's, or a reply to a request with a known authenticator; a
  reply whose request's authenticator is not empty carries the response authenticator of that
  request; and if the packet has a Message-Authenticator, that is the keyed digest of the packet.
  Exempt are the response authenticator of an Access-Request and of a reply to a request with an
  empty authenticator, and the Message-Authenticator of a packet that has none.\<close>

theorem parsed_packet_authentic:
  assumes "radius_parse_packet md5 hmac bs (Some s) ids = Some (Inr p)" "utf8_encode s = Inr key"
  shows "s \<noteq> [] \<and> datagram_holds bs p \<and> (\<exists>ra. request_auth ids p = Some ra \<and>
    (rclass p = RadiusAccessRequest \<or> ra = [] \<or> response_auth_valid md5 key ra p) \<and>
    message_auth_valid hmac key ra p)"
  using radius_parse_sound [OF assms] by blast

definition example_reject :: radius_packet where
  "example_reject = \<lparr>rclass = RadiusAccessReject, packet_id = 5, authenticator = replicate 16 1, attributes = [],
     packed = None\<rparr>"

lemma example_reject_parsed:
  "radius_parse_packet (\<lambda>x. replicate 16 1) (\<lambda>k x. x) (radius_header example_reject @ list_avps [])
     (Some [65]) [(5, replicate 16 2)] = Some (Inr example_reject)"
proof -
  have "radius_ok example_reject" by (simp add: radius_ok_def example_reject_def RADIUS_HEADER_LENGTH_def)
  from radius_parse_packed [OF this, of "\<lambda>x. replicate 16 1" "\<lambda>k x. x" "Some [65]" "[(5, replicate 16 2)]"] show ?thesis
    by (simp add: example_reject_def radius_finish_def validate_packet_def validate_response_authenticator_def
        validate_message_authenticator_def dict_index_def radius_packet_pack_def radius_bytes_def
        RADIUS_HEADER_LENGTH_def scalar_value_def)
qed

lemma parsed_packet_authentic_witness:
  "datagram_holds (radius_header example_reject @ list_avps []) example_reject \<and>
   (\<exists>ra. request_auth [(5, replicate 16 2)] example_reject = Some ra \<and>
     (rclass example_reject = RadiusAccessRequest \<or> ra = [] \<or>
      response_auth_valid (\<lambda>x. replicate 16 1) [65] ra example_reject) \<and>
     message_auth_valid (\<lambda>k x. x) [65] ra example_reject)"
  using parsed_packet_authentic [OF example_reject_parsed, of "[65]"]
  by (auto simp: scalar_value_def utf8_char_def byte_of_def)

end
