(* ===== verification/Threads.thy ===== *)
theory Threads
  imports Py_Prelude
begin

text \<open>
  The two things the threaded code of the 802.1X test shares. Operations that raise after they have
  changed an object are functions from a state to a result and the changed state. The send loops of
  \<open>eap_module.py\<close> and \<open>radius_module.py\<close> have the same shape
  (\<open>while not shut_down: packet = queue.get(); if packet: send\<close>); the locale
  \<open>sender_loop\<close> states what such a loop does to its queue, one atomic step at a time, and shows
  that no message queued after the shutdown is ever taken from the queue, whatever the interleaving.
\<close>

subsection \<open>Operations with state and exceptions\<close>

type_synonym ('s, 'a) op = "'s \<Rightarrow> 'a result \<times> 's"

definition ret_op :: "'a \<Rightarrow> ('s, 'a) op" where
  "ret_op x s = (Inr x, s)"

definition raise_op :: "py_error \<Rightarrow> ('s, 'a) op" where
  "raise_op e s = (Inl e, s)"

definition lift_op :: "'a result \<Rightarrow> ('s, 'a) op" where
  "lift_op r s = (r, s)"

definition modify_op :: "('s \<Rightarrow> 's) \<Rightarrow> ('s, unit) op" where
  "modify_op f s = (Inr (), f s)"

definition bind_op :: "('s, 'a) op \<Rightarrow> ('a \<Rightarrow> ('s, 'b) op) \<Rightarrow> ('s, 'b) op" where
  "bind_op m f s = (case m s of (Inl e, s') \<Rightarrow> (Inl e, s') | (Inr x, s') \<Rightarrow> f x s')"

definition then_op :: "('s, 'a) op \<Rightarrow> ('s, 'b) op \<Rightarrow> ('s, 'b) op" where
  "then_op m n = bind_op m (\<lambda>_. n)"

definition zoom_snd :: "('w, 'a) op \<Rightarrow> ('s \<times> 'w, 'a) op" where
  \<comment> \<open>a call back into the owner of an object\<close>
  "zoom_snd m s = (case m (snd s) of (r, w) \<Rightarrow> (r, (fst s, w)))"

definition get_op :: "('s \<Rightarrow> 'a) \<Rightarrow> ('s, 'a) op" where
  "get_op f s = (Inr (f s), s)"

definition read_op :: "('s \<Rightarrow> ('s, 'a) op) \<Rightarrow> ('s, 'a) op" where
  \<comment> \<open>an operation that looks at the state first\<close>
  "read_op f s = f s s"

definition assert_op :: "bool \<Rightarrow> ('s, unit) op" where
  "assert_op b = (if b then ret_op () else raise_op AssertionError)"

definition try_op :: "('s, 'a) op \<Rightarrow> (py_error \<Rightarrow> ('s, 'a) op) \<Rightarrow> ('s, 'a) op" where
  \<comment> \<open>\<open>try: m except Exception as e: h(e)\<close>; what \<open>m\<close> did before it raised stays done\<close>
  "try_op m h s = (case m s of (Inl e, s') \<Rightarrow> h e s' | (Inr x, s') \<Rightarrow> (Inr x, s'))"

fun for_op :: "'b list \<Rightarrow> ('b \<Rightarrow> ('s, unit) op) \<Rightarrow> ('s, unit) op" where
  "for_op [] body = ret_op ()"
| "for_op (x # xs) body = then_op (body x) (for_op xs body)"

named_theorems op_simps \<open>the operations on states, unfolded\<close>

lemmas [op_simps] = ret_op_def raise_op_def lift_op_def modify_op_def bind_op_def then_op_def zoom_snd_def get_op_def
  assert_op_def try_op_def read_op_def

subsection \<open>Send loops\<close>

text \<open>
  Where a send loop is: before the test of \<open>shut_down\<close>, before \<open>queue.get\<close>, or ended (by the
  test or by an exception).
\<close>

datatype pc = AtCheck | AtGet | Finished

text \<open>What may happen next: the thread runs, or another thread queues a message.\<close>

datatype ('i, 'm) sched = Run 'i | Put 'm

locale sender_loop =
  fixes queue :: "'s \<Rightarrow> 'm option list"
    and stopped :: "'s \<Rightarrow> bool"
    and at :: "'s \<Rightarrow> pc"
    and run :: "'i \<Rightarrow> 's \<Rightarrow> 's"
    and put :: "'m \<Rightarrow> 's \<Rightarrow> 's"
    and stop :: "'s \<Rightarrow> 's"
  assumes run_stopped: "stopped (run i s) = stopped s"
    and run_check: "at s = AtCheck \<Longrightarrow>
      queue (run i s) = queue s \<and> at (run i s) = (if stopped s then Finished else AtGet)"
    and run_empty: "at s = AtGet \<Longrightarrow> queue s = [] \<Longrightarrow> run i s = s"
    and run_get: "at s = AtGet \<Longrightarrow> queue s \<noteq> [] \<Longrightarrow>
      queue (run i s) = tl (queue s) \<and> at (run i s) \<noteq> AtGet"
    and run_finished: "at s = Finished \<Longrightarrow> run i s = s"
    and put_queue: "queue (put m s) = queue s @ [Some m]"
    and put_stopped: "stopped (put m s) = stopped s"
    and put_at: "at (put m s) = at s"
    and stop_queue: "queue (stop s) = queue s @ [None]"
    and stop_stopped: "stopped (stop s)"
begin

definition sched_step :: "'s \<Rightarrow> ('i, 'm) sched \<Rightarrow> 's" where
  "sched_step s e = (case e of Run i \<Rightarrow> run i s | Put m \<Rightarrow> put m s)"

definition puts :: "('i, 'm) sched list \<Rightarrow> 'm list" where
  "puts es = concat (map (\<lambda>e. case e of Run _ \<Rightarrow> [] | Put m \<Rightarrow> [m]) es)"

lemma late_messages_from:
  assumes "stopped s" "queue s = pre @ map Some late" "at s = AtGet \<longrightarrow> pre \<noteq> []"
  shows "\<exists>pre'. queue (foldl sched_step s es) = pre' @ map Some (late @ puts es)"
  using assms
proof (induction es arbitrary: s pre late)
  case Nil
  then show ?case by (simp add: puts_def)
next
  case (Cons e es)
  show ?case
  proof (cases e)
    case (Put m)
    then show ?thesis
      using Cons.IH [of "put m s" pre "late @ [m]"] Cons.prems
      by (simp add: sched_step_def puts_def put_queue put_stopped put_at)
  next
    case (Run i)
    have "\<exists>pre'. queue (run i s) = pre' @ map Some late \<and> (at (run i s) = AtGet \<longrightarrow> pre' \<noteq> [])"
    proof (cases "at s")
      case AtCheck
      then show ?thesis using Cons.prems run_check [of s i] by auto
    next
      case AtGet
      with Cons.prems have "pre \<noteq> []" "queue s \<noteq> []" by auto
      with AtGet Cons.prems(2) run_get [of s i] show ?thesis by auto
    next
      case Finished
      then show ?thesis using Cons.prems run_finished [of s i] by auto
    qed
    then obtain pre' where "queue (run i s) = pre' @ map Some late" "at (run i s) = AtGet \<longrightarrow> pre' \<noteq> []"
      by blast
    with Run Cons.IH [of "run i s" pre' late] Cons.prems(1) show ?thesis
      by (simp add: sched_step_def puts_def run_stopped)
  qed
qed

text \<open>Whatever was queued after the shutdown is still in the queue.\<close>

lemma late_messages_stay:
  "\<exists>pre. queue (foldl sched_step (stop s) es) = pre @ map Some (puts es)"
  using late_messages_from [of "stop s" "queue s @ [None]" "[]" es] by (simp add: stop_stopped stop_queue)

text \<open>The thread ends: after three of its own steps once shut down, however they are scheduled.\<close>

lemma stopped_finishes:
  assumes "stopped s" "at s = AtGet \<longrightarrow> queue s \<noteq> []"
  shows "at (run k (run j s)) = Finished"
proof (cases "at s")
  case AtCheck
  with assms(1) have "at (run j s) = Finished" using run_check by simp
  then show ?thesis using run_finished by simp
next
  case AtGet
  with assms(2) have a: "at (run j s) \<noteq> AtGet" using run_get by blast
  show ?thesis
  proof (cases "at (run j s)")
    case AtCheck
    then show ?thesis using run_check [of "run j s" k] assms(1) by (simp add: run_stopped)
  next
    case Finished
    then show ?thesis using run_finished by simp
  qed (use a in simp)
next
  case Finished
  then show ?thesis using run_finished by simp
qed

end


subsection \<open>Invariants of operations\<close>

text \<open>
  An operation keeps an invariant when the state it leaves satisfies it, also when it raises. The
  rules follow the structure of the operations, so that the invariant of a handler is shown from
  those of its steps.
\<close>

definition keeps :: "('s \<Rightarrow> bool) \<Rightarrow> ('s, 'a) op \<Rightarrow> bool" where
  "keeps I m \<longleftrightarrow> (\<forall>s. I s \<longrightarrow> I (snd (m s)))"

named_theorems keeps_intros \<open>an operation keeps an invariant when its parts do\<close>

lemma keepsD: "keeps I m \<Longrightarrow> I s \<Longrightarrow> I (snd (m s))"
  by (simp add: keeps_def)

lemma keeps_basic [keeps_intros]:
  "keeps I (ret_op x)" "keeps I (raise_op e)" "keeps I (lift_op r)" "keeps I (get_op f)" "keeps I (assert_op b)"
  by (simp_all add: keeps_def op_simps)

lemma keeps_modify [keeps_intros]: "(\<And>s. I s \<Longrightarrow> I (f s)) \<Longrightarrow> keeps I (modify_op f)"
  by (simp add: keeps_def op_simps)

lemma keeps_bind [keeps_intros]: "keeps I m \<Longrightarrow> (\<And>x. keeps I (f x)) \<Longrightarrow> keeps I (bind_op m f)"
  by (auto simp: keeps_def bind_op_def split: prod.splits sum.splits)

lemma keeps_then [keeps_intros]: "keeps I m \<Longrightarrow> keeps I n \<Longrightarrow> keeps I (then_op m n)"
  unfolding then_op_def by (rule keeps_bind)

lemma keeps_try [keeps_intros]: "keeps I m \<Longrightarrow> (\<And>e. keeps I (h e)) \<Longrightarrow> keeps I (try_op m h)"
  by (auto simp: keeps_def try_op_def split: prod.splits sum.splits)

lemma keeps_for [keeps_intros]: "(\<And>x. keeps I (body x)) \<Longrightarrow> keeps I (for_op xs body)"
  by (induction xs) (auto intro: keeps_intros)

lemma keeps_if [keeps_intros]: "(b \<Longrightarrow> keeps I m) \<Longrightarrow> (\<not> b \<Longrightarrow> keeps I n) \<Longrightarrow> keeps I (if b then m else n)"
  by simp

lemma keeps_option [keeps_intros]:
  "keeps I m \<Longrightarrow> (\<And>x. keeps I (f x)) \<Longrightarrow> keeps I (case v of None \<Rightarrow> m | Some x \<Rightarrow> f x)"
  by (simp split: option.splits)

lemma keeps_pair [keeps_intros]: "(\<And>x y. keeps I (f x y)) \<Longrightarrow> keeps I (case p of (x, y) \<Rightarrow> f x y)"
  by (simp split: prod.splits)

lemma keeps_read [keeps_intros]: "(\<And>s. I s \<Longrightarrow> keeps I (f s)) \<Longrightarrow> keeps I (read_op f)"
  by (simp add: keeps_def read_op_def)

text \<open>
  Pre- and postconditions: from \<open>P\<close> the operation ends in \<open>Q\<close> with its result, or raises in \<open>R\<close>.
\<close>

definition ensures :: "('s \<Rightarrow> bool) \<Rightarrow> ('s, 'a) op \<Rightarrow> ('a \<Rightarrow> 's \<Rightarrow> bool) \<Rightarrow> ('s \<Rightarrow> bool) \<Rightarrow> bool" where
  "ensures P m Q R \<longleftrightarrow> (\<forall>s. P s \<longrightarrow> (case m s of (Inl e, s') \<Rightarrow> R s' | (Inr x, s') \<Rightarrow> Q x s'))"

lemma ensures_bind: "ensures P m Q R \<Longrightarrow> (\<And>x. ensures (Q x) (f x) Q' R) \<Longrightarrow> ensures P (bind_op m f) Q' R"
  by (fastforce simp: ensures_def bind_op_def split: prod.splits sum.splits)

lemma ensures_then: "ensures P m (\<lambda>_. Q) R \<Longrightarrow> ensures Q n Q' R \<Longrightarrow> ensures P (then_op m n) Q' R"
  unfolding then_op_def by (rule ensures_bind)

lemma ensures_try: "ensures P m Q R' \<Longrightarrow> (\<And>e. ensures R' (h e) Q R) \<Longrightarrow> ensures P (try_op m h) Q R"
  by (fastforce simp: ensures_def try_op_def split: prod.splits sum.splits)

lemma ensures_read: "(\<And>s. P s \<Longrightarrow> ensures P (f s) Q R) \<Longrightarrow> ensures P (read_op f) Q R"
  by (simp add: ensures_def read_op_def)

lemma ensures_ret: "(\<And>s. P s \<Longrightarrow> Q x s) \<Longrightarrow> ensures P (ret_op x) Q R"
  by (simp add: ensures_def op_simps)

lemma ensures_weaken: "ensures P m Q R \<Longrightarrow> (\<And>s. R s \<Longrightarrow> R' s) \<Longrightarrow> ensures P m Q R'"
  by (fastforce simp: ensures_def split: prod.splits sum.splits)

lemma keeps_ensures: "keeps I m \<Longrightarrow> ensures I m (\<lambda>_. I) I"
  by (force simp: keeps_def ensures_def split: prod.splits sum.splits)

lemma ensures_snd: "ensures P m (\<lambda>_. Q) Q \<Longrightarrow> P s \<Longrightarrow> Q (snd (m s))"
  by (cases "m s") (auto simp: ensures_def split: prod.splits sum.splits)

lemma ensures_final: "(\<And>s. P s \<Longrightarrow> Q (snd (m s))) \<Longrightarrow> ensures P m (\<lambda>_. Q) Q"
  unfolding ensures_def by (simp add: case_prod_beta sum.case_eq_if)

lemma ensures_keeps: "ensures I m (\<lambda>_. I) I \<Longrightarrow> keeps I m"
  unfolding keeps_def by (blast intro: ensures_snd)

text \<open>
  A frame: whatever the operation does, the states before and after are related. For a preorder the
  rules follow the structure of the operations again.
\<close>

definition frames :: "('s \<Rightarrow> 's \<Rightarrow> bool) \<Rightarrow> ('s, 'a) op \<Rightarrow> bool" where
  "frames R m \<longleftrightarrow> (\<forall>s. R s (snd (m s)))"

lemma framesD: "frames R m \<Longrightarrow> R s (snd (m s))"
  by (simp add: frames_def)

lemma frames_mono: "frames R m \<Longrightarrow> (\<And>s s'. R s s' \<Longrightarrow> R' s s') \<Longrightarrow> frames R' m"
  by (simp add: frames_def)

lemma keeps_frame: "frames R m \<Longrightarrow> (\<And>s s'. I s \<Longrightarrow> R s s' \<Longrightarrow> I s') \<Longrightarrow> keeps I m"
  unfolding frames_def keeps_def by blast

locale step_frame =
  fixes R :: "'s \<Rightarrow> 's \<Rightarrow> bool"
  assumes refl: "R s s"
    and trans: "R s s' \<Longrightarrow> R s' s'' \<Longrightarrow> R s s''"
begin

lemma basic:
  "frames R (ret_op x)" "frames R (raise_op e)" "frames R (lift_op r)" "frames R (get_op f)" "frames R (assert_op b)"
  by (simp_all add: frames_def op_simps refl)

lemma modify: "(\<And>s. R s (f s)) \<Longrightarrow> frames R (modify_op f)"
  by (simp add: frames_def op_simps)

lemma bind: "frames R m \<Longrightarrow> (\<And>x. frames R (f x)) \<Longrightarrow> frames R (bind_op m f)"
  unfolding frames_def bind_op_def by (auto split: prod.splits sum.splits) (metis trans snd_conv)+

lemma seq: "frames R m \<Longrightarrow> frames R n \<Longrightarrow> frames R (then_op m n)"
  unfolding then_op_def by (rule bind)

lemma catch: "frames R m \<Longrightarrow> (\<And>e. frames R (h e)) \<Longrightarrow> frames R (try_op m h)"
  unfolding frames_def try_op_def by (auto split: prod.splits sum.splits) (metis trans snd_conv)+

lemma loop: "(\<And>x. frames R (body x)) \<Longrightarrow> frames R (for_op xs body)"
  by (induction xs) (auto intro: basic seq)

lemma cond: "frames R m \<Longrightarrow> frames R n \<Longrightarrow> frames R (if b then m else n)"
  by simp

lemma opt: "frames R m \<Longrightarrow> (\<And>x. frames R (f x)) \<Longrightarrow> frames R (case v of None \<Rightarrow> m | Some x \<Rightarrow> f x)"
  by (simp split: option.splits)

lemma pair: "(\<And>x y. frames R (f x y)) \<Longrightarrow> frames R (case p of (x, y) \<Rightarrow> f x y)"
  by (simp split: prod.splits)

lemma read: "(\<And>s. frames R (f s)) \<Longrightarrow> frames R (read_op f)"
  by (simp add: frames_def read_op_def)

lemmas intros = basic modify bind seq catch loop cond opt pair read

end

end
