(* ===== verification/Radius_Module.thy ===== *)
theory Radius_Module
  imports Radius_Packet Threads
begin

text \<open>
  The RADIUS half of \<open>message_parser.py\<close> (\<open>radius_pack\<close>, \<open>radius_mab_pack\<close>) and
  \<open>radius_module.py\<close>: packet identifiers, the tables from identifiers to authenticators and
  supplicants, the outbound queue, and one iteration of the send and of the receive loop. The
  lemmas show that a request carries the EAP packet it was given unchanged and passes validation,
  that identifiers stay in one byte, and that a reply is handed over for the supplicant of the
  request with its identifier.
\<close>

subsection \<open>MessagePacker, RADIUS half\<close>

definition zero16 :: bytes where
  "zero16 = replicate 16 0"

definition raw_of_option :: "ustr option \<Rightarrow> raw" where
  "raw_of_option u = (case u of None \<Rightarrow> RawNone | Some s \<Rightarrow> RawStr s)"

definition nas_port_attr :: "int option \<Rightarrow> attribute result list" where
  \<comment> \<open>\<open>if nas_port: attr_list.append(NASPort.create(nas_port))\<close>\<close>
  "nas_port_attr nas_port =
     (case nas_port of None \<Rightarrow> [] | Some n \<Rightarrow>
        if n = 0 then [] else [attribute_create NASPort (Plain (RawInt n))])"

definition state_attr :: "bytes option \<Rightarrow> attribute result list" where
  "state_attr state =
     (case state of None \<Rightarrow> [] | Some b \<Rightarrow>
        if b = [] then [] else [attribute_create State (Plain (RawBytes b))])"

definition sequence_result :: "'a result list \<Rightarrow> 'a list result" where
  "sequence_result = mapM_result (\<lambda>r. r)"

definition access_request_build ::
    "(bytes \<Rightarrow> bytes \<Rightarrow> bytes) \<Rightarrow> int \<Rightarrow> bytes \<Rightarrow> ustr option \<Rightarrow> attribute list \<Rightarrow> bytes result" where
  \<comment> \<open>\<open>RadiusAccessRequest(id, authenticator, attributes).build(secret)\<close>\<close>
  "access_request_build hmac radius_packet_id request_authenticator secret attr_list =
     bind_result (radius_build hmac secret
         \<lparr>rclass = RadiusAccessRequest, packet_id = radius_packet_id,
          authenticator = request_authenticator, attributes = attr_list, packed = None\<rparr>)
       (\<lambda>p. Inr (the (packed p)))"

definition mab_attributes ::
    "(bytes \<Rightarrow> bytes) \<Rightarrow> ustr \<Rightarrow> bytes \<Rightarrow> ustr \<Rightarrow> int option \<Rightarrow> attribute result list" where
  "mab_attributes md5 src request_authenticator secret nas_port =
     (let no_dots_mac = replace_char 58 [] src
      in [attribute_create UserName (Plain (RawStr no_dots_mac)),
          attribute_create CallingStationId (Plain (RawStr (replace_char 58 [45] src)))]
         @ nas_port_attr nas_port
         @ [bind_result (encrypt md5 (SecretStr secret) (AuthBytes request_authenticator) no_dots_mac)
              (\<lambda>ciphertext. attribute_create UserPassword (Plain (RawBytes ciphertext))),
            attribute_create MessageAuthenticator (Plain (RawBytes zero16))])"

definition radius_mab_pack ::
    "(bytes \<Rightarrow> bytes) \<Rightarrow> (bytes \<Rightarrow> bytes \<Rightarrow> bytes) \<Rightarrow> ustr \<Rightarrow> int \<Rightarrow> bytes \<Rightarrow> ustr \<Rightarrow> int option \<Rightarrow> bytes result" where
  "radius_mab_pack md5 hmac src radius_packet_id request_authenticator secret nas_port =
     bind_result (sequence_result (mab_attributes md5 src request_authenticator secret nas_port))
       (access_request_build hmac radius_packet_id request_authenticator (Some secret))"

definition request_attributes ::
    "eap_message \<Rightarrow> ustr \<Rightarrow> ustr option \<Rightarrow> bytes option \<Rightarrow> int option \<Rightarrow> attribute list \<Rightarrow> attribute result list" where
  "request_attributes eap_message src username state nas_port extra_attributes =
     [attribute_create UserName (Plain (raw_of_option username)),
      attribute_create CallingStationId (Plain (RawStr src))]
     @ nas_port_attr nas_port
     @ map Inr extra_attributes
     @ [attribute_create EAPMessage (EapObject eap_message)]
     @ state_attr state
     @ [attribute_create MessageAuthenticator (Plain (RawBytes zero16))]"

definition radius_pack ::
    "(bytes \<Rightarrow> bytes \<Rightarrow> bytes) \<Rightarrow> eap_message \<Rightarrow> ustr \<Rightarrow> ustr option \<Rightarrow> int \<Rightarrow> bytes \<Rightarrow> bytes option \<Rightarrow>
       ustr option \<Rightarrow> int option \<Rightarrow> attribute list \<Rightarrow> bytes result" where
  "radius_pack hmac eap_message src username radius_packet_id request_authenticator state secret
       nas_port extra_attributes =
     bind_result
       (sequence_result (request_attributes eap_message src username state nas_port extra_attributes))
       (access_request_build hmac radius_packet_id request_authenticator secret)"

subsection \<open>port_id_to_int\<close>

definition port_id_to_int :: "ustr \<Rightarrow> int result" where
  "port_id_to_int port_id =
     (case drop 3 (split_on 58 port_id) of
        [dp, port_half_1, port_half_2] \<Rightarrow>
          bind_result (int_base16 dp)
            (\<lambda>d. bind_result (int_base16 (port_half_1 @ port_half_2))
            (\<lambda>p. bind_result (struct_pack [FH, FH] [VInt d, VInt p]) (\<lambda>b. Inr (from_bytes b))))
      | _ \<Rightarrow> Inl ValueError)"

subsection \<open>RadiusModule\<close>

record radius_packet_info =
  payload :: eap_message
  info_src_mac :: ustr
  info_identity :: "ustr option"
  info_state :: "bytes option"
  info_port_id :: int

record radius_module =
  radius_secret :: "ustr option"
  rad_queue :: "radius_packet_info option list"
  next_radius_id :: int
  packet_id_to_request_authenticator :: "(int, bytes) dict"
  packet_id_to_mac :: "(int, ustr \<times> int) dict"
  module_id :: ustr
  rad_shut_down :: bool
  rad_pc :: pc
  rad_sent :: "bytes list"
  rad_socket_open :: bool

definition radius_module_init :: "ustr option \<Rightarrow> ustr \<Rightarrow> radius_module" where
  "radius_module_init secret mid =
     \<lparr>radius_secret = secret, rad_queue = [], next_radius_id = 0,
      packet_id_to_request_authenticator = [], packet_id_to_mac = [], module_id = mid,
      rad_shut_down = False, rad_pc = AtCheck, rad_sent = [], rad_socket_open = True\<rparr>"

definition get_next_radius_packet_id :: "radius_module \<Rightarrow> int \<times> radius_module" where
  "get_next_radius_packet_id m =
     (next_radius_id m, m\<lparr>next_radius_id := (next_radius_id m + 1) mod 256\<rparr>)"

definition prepare_extra_radius_attributes :: "radius_module \<Rightarrow> attribute list result" where
  "prepare_extra_radius_attributes m =
     sequence_result
       [attribute_create CalledStationId (Plain (RawStr (module_id m))),
        attribute_create NASPortType (Plain (RawInt 15)),
        attribute_create NASIdentifier (Plain (RawStr (module_id m)))]"

text \<open>
  \<open>_encode_radius_response\<close>. The argument \<open>request_authenticator\<close> is what
  \<open>os.urandom(16)\<close> returned. The tables are updated before anything can fail, so the module is
  returned beside the result.
\<close>

definition encode_radius_response ::
    "(bytes \<Rightarrow> bytes \<Rightarrow> bytes) \<Rightarrow> bytes \<Rightarrow> radius_packet_info \<Rightarrow> radius_module \<Rightarrow> bytes result \<times> radius_module" where
  "encode_radius_response hmac request_authenticator info m =
     (let (radius_packet_id, m1) = get_next_radius_packet_id m;
          m2 = m1\<lparr>packet_id_to_mac :=
                 dict_set radius_packet_id (info_src_mac info, info_port_id info) (packet_id_to_mac m1)\<rparr>;
          m3 = m2\<lparr>packet_id_to_request_authenticator :=
                 dict_set radius_packet_id request_authenticator (packet_id_to_request_authenticator m2)\<rparr>
      in (bind_result (prepare_extra_radius_attributes m3)
            (\<lambda>extra. radius_pack hmac (payload info) (info_src_mac info) (info_identity info)
               radius_packet_id request_authenticator (info_state info) (radius_secret m3)
               (Some (info_port_id info)) extra), m3))"

definition decode_radius_response ::
    "(bytes \<Rightarrow> bytes) \<Rightarrow> (bytes \<Rightarrow> bytes \<Rightarrow> bytes) \<Rightarrow> bytes \<Rightarrow> radius_module \<Rightarrow> radius_packet result option" where
  "decode_radius_response md5 hmac packed_message m =
     radius_parse_packet md5 hmac packed_message (radius_secret m) (packet_id_to_request_authenticator m)"

definition send_radius_packet :: "radius_packet_info \<Rightarrow> radius_module \<Rightarrow> radius_module" where
  "send_radius_packet info m = m\<lparr>rad_queue := rad_queue m @ [Some info]\<rparr>"

text \<open>
  Shutting down closes the socket. \<open>shutdown\<close> on the unconnected socket raises
  \<open>ENOTCONN\<close>, which is ignored; on a closed socket it raises another \<open>OSError\<close>.
\<close>

definition radius_shut_down_module :: "radius_module \<Rightarrow> radius_module" where
  "radius_shut_down_module m =
     m\<lparr>rad_shut_down := True, rad_queue := rad_queue m @ [None], rad_socket_open := False\<rparr>"

definition radius_shut_down_op :: "(radius_module, unit) op" where
  "radius_shut_down_op m = (if rad_socket_open m then Inr () else Inl OSError, radius_shut_down_module m)"

text \<open>
  One atomic step of the thread that runs \<open>send_radius_messages\<close>: the test of \<open>shut_down\<close>, or
  \<open>queue.get\<close> (which blocks while the queue is empty) and what follows it. An exception ends the
  thread.
\<close>

definition send_radius_step ::
    "(bytes \<Rightarrow> bytes \<Rightarrow> bytes) \<Rightarrow> bytes \<Rightarrow> radius_module \<Rightarrow> radius_module" where
  "send_radius_step hmac urandom m =
     (case rad_pc m of
        Finished \<Rightarrow> m
      | AtCheck \<Rightarrow> m\<lparr>rad_pc := (if rad_shut_down m then Finished else AtGet)\<rparr>
      | AtGet \<Rightarrow>
          (case rad_queue m of
             [] \<Rightarrow> m
           | None # q \<Rightarrow> m\<lparr>rad_queue := q, rad_pc := AtCheck\<rparr>
           | Some info # q \<Rightarrow>
               (case encode_radius_response hmac urandom info (m\<lparr>rad_queue := q\<rparr>) of
                  (Inl e, m') \<Rightarrow> m'\<lparr>rad_pc := Finished\<rparr>
                | (Inr packed_message, m') \<Rightarrow>
                    m'\<lparr>rad_sent := rad_sent m' @ [packed_message], rad_pc := AtCheck\<rparr>)))"

record radius_packet_attributes =
  rpa_eap_message :: "eap_message option"
  rpa_state :: "bytes option"

fun scan_attributes ::
    "attribute list \<Rightarrow> radius_packet_attributes \<Rightarrow> radius_packet_attributes result" where
  \<comment> \<open>the loop over \<open>radius.attributes.attributes\<close>\<close>
  "scan_attributes [] r = Inr r"
| "scan_attributes (a # as) r =
     bind_result
       (if attr_class a = EAPMessage
        then bind_result (attribute_data a)
          (\<lambda>v. case v of EapValue m \<Rightarrow> Inr (r\<lparr>rpa_eap_message := Some m\<rparr>) | _ \<Rightarrow> Inl TypeError)
        else if attr_class a = State
        then bind_result (attribute_data a)
          (\<lambda>v. case v of PlainValue (RawBytes b) \<Rightarrow> Inr (r\<lparr>rpa_state := Some b\<rparr>) | _ \<Rightarrow> Inl TypeError)
        else Inr r)
       (scan_attributes as)"

text \<open>
  What the body of the loop in \<open>receive_radius_messages\<close> comes to for a datagram. The loop tests
  \<open>shut_down\<close> before it waits for the datagram, so one may still be handled after the shutdown.
\<close>

datatype radius_outcome =
    RadiusLoops
  | RadiusIgnored
  | RadiusRaised py_error
  | RadiusCallback ustr radius_packet_attributes packet_class

definition receive_radius_step ::
    "(bytes \<Rightarrow> bytes) \<Rightarrow> (bytes \<Rightarrow> bytes \<Rightarrow> bytes) \<Rightarrow> bytes \<Rightarrow> radius_module \<Rightarrow> radius_outcome" where
  "receive_radius_step md5 hmac packed_message m =
     (case decode_radius_response md5 hmac packed_message m of
        None \<Rightarrow> RadiusLoops
      | Some (Inl e) \<Rightarrow> if e = MessageParseError then RadiusIgnored else RadiusRaised e
      | Some (Inr radius) \<Rightarrow>
          (case scan_attributes (attributes radius) \<lparr>rpa_eap_message = None, rpa_state = None\<rparr> of
             Inl e \<Rightarrow> RadiusRaised e
           | Inr attrs \<Rightarrow>
               (case dict_get (packet_id_to_mac m) (packet_id radius) of
                  None \<Rightarrow> RadiusRaised KeyError
                | Some (src, port_id) \<Rightarrow> RadiusCallback src attrs (rclass radius))))"

definition send_opening_packet :: "radius_module \<Rightarrow> radius_module result" where
  "send_opening_packet m =
     bind_result (from_string (ascii ''01:80:C2:00:00:03''))
       (\<lambda>mac. bind_result (port_id_to_int (ascii ''01:80:c2:00:00:03''))
       (\<lambda>port_id. Inr (send_radius_packet
          \<lparr>payload = IdentityMessage (MacObj mac) 208 2 (ascii ''user''),
           info_src_mac = ascii ''02:42:ac:17:00:6f'', info_identity = Some (ascii ''user''),
           info_state = None, info_port_id = port_id\<rparr> m)))"

subsection \<open>The send loop\<close>

lemma encode_radius_response_frame:
  "encode_radius_response hmac ra info m = (r, m') \<Longrightarrow>
     rad_queue m' = rad_queue m \<and> rad_shut_down m' = rad_shut_down m \<and> rad_pc m' = rad_pc m \<and>
     rad_sent m' = rad_sent m \<and> radius_secret m' = radius_secret m \<and> module_id m' = module_id m"
  by (auto simp: encode_radius_response_def Let_def get_next_radius_packet_id_def)

interpretation rad_loop: sender_loop rad_queue rad_shut_down rad_pc "send_radius_step hmac"
  send_radius_packet radius_shut_down_module for hmac
proof
  fix i and s :: radius_module
  show "rad_shut_down (send_radius_step hmac i s) = rad_shut_down s"
    by (auto simp: send_radius_step_def split: pc.splits list.splits option.splits prod.splits sum.splits
        dest!: encode_radius_response_frame)
  show "rad_pc s = AtGet \<Longrightarrow> rad_queue s \<noteq> [] \<Longrightarrow>
      rad_queue (send_radius_step hmac i s) = tl (rad_queue s) \<and> rad_pc (send_radius_step hmac i s) \<noteq> AtGet"
    by (auto simp: send_radius_step_def split: list.splits option.splits prod.splits sum.splits
        dest!: encode_radius_response_frame)
qed (simp_all add: send_radius_step_def send_radius_packet_def radius_shut_down_module_def)

subsection \<open>Packet identifiers\<close>

definition module_inv :: "radius_module \<Rightarrow> bool" where
  "module_inv m \<longleftrightarrow> 0 \<le> next_radius_id m \<and> next_radius_id m < 256 \<and>
     dict_ok (packet_id_to_mac m) \<and> dict_ok (packet_id_to_request_authenticator m) \<and>
     set (dict_keys (packet_id_to_mac m)) = set (dict_keys (packet_id_to_request_authenticator m)) \<and>
     set (dict_keys (packet_id_to_mac m)) \<subseteq> {0..255} \<and>
     (\<forall>a\<in>set (dict_values (packet_id_to_request_authenticator m)). length a = 16)"

lemma module_inv_init: "module_inv (radius_module_init secret mid)"
  by (simp add: module_inv_def radius_module_init_def)

lemma module_inv_encode:
  assumes "module_inv m" "length ra = 16"
  shows "module_inv (snd (encode_radius_response hmac ra info m))"
proof -
  have "length a = 16" if "a \<in> set (map snd (AList.update (next_radius_id m) ra (packet_id_to_request_authenticator m)))" for a
  proof -
    have "a = ra \<or> a \<in> set (map snd (packet_id_to_request_authenticator m))"
      using that dict_values_set [of "next_radius_id m" ra "packet_id_to_request_authenticator m"] by blast
    then show ?thesis using assms unfolding module_inv_def by blast
  qed
  with assms show ?thesis
    by (simp add: module_inv_def encode_radius_response_def Let_def get_next_radius_packet_id_def
        dict_keys_set del: set_map) metis
qed

text \<open>The reply to the request just sent is matched with that request.\<close>

lemma encode_registers:
  "encode_radius_response hmac ra info m = (r, m') \<Longrightarrow>
     dict_get (packet_id_to_mac m') (next_radius_id m) = Some (info_src_mac info, info_port_id info) \<and>
     dict_get (packet_id_to_request_authenticator m') (next_radius_id m) = Some ra \<and>
     (\<forall>i. i \<noteq> next_radius_id m \<longrightarrow>
        dict_get (packet_id_to_mac m') i = dict_get (packet_id_to_mac m) i \<and>
        dict_get (packet_id_to_request_authenticator m') i = dict_get (packet_id_to_request_authenticator m) i)"
  by (auto simp: encode_radius_response_def Let_def get_next_radius_packet_id_def dict_get_set)

fun encode_all ::
    "(bytes \<Rightarrow> bytes \<Rightarrow> bytes) \<Rightarrow> (bytes \<times> radius_packet_info) list \<Rightarrow> radius_module \<Rightarrow> radius_module" where
  "encode_all hmac [] m = m"
| "encode_all hmac ((ra, info) # xs) m = encode_all hmac xs (snd (encode_radius_response hmac ra info m))"

lemma next_id_after:
  "0 \<le> next_radius_id m \<Longrightarrow> next_radius_id m < 256 \<Longrightarrow>
     next_radius_id (encode_all hmac xs m) = (next_radius_id m + int (length xs)) mod 256"
proof (induction xs arbitrary: m)
  case (Cons x xs)
  obtain ra info where x: "x = (ra, info)" by (cases x)
  let ?m = "snd (encode_radius_response hmac ra info m)"
  have n: "next_radius_id ?m = (next_radius_id m + 1) mod 256"
    by (simp add: encode_radius_response_def Let_def get_next_radius_packet_id_def)
  then have "next_radius_id (encode_all hmac xs ?m) = (next_radius_id ?m + int (length xs)) mod 256"
    by (intro Cons.IH) simp_all
  with n show ?case by (simp add: x mod_add_left_eq add.assoc)
qed simp

subsection \<open>port_id_to_int\<close>

lemma port_id_to_int_mac:
  assumes "address mac = [a, b, c, d, e, f]"
  shows "port_id_to_int (mac_str mac) = Inr (65536 * uint d + 256 * uint e + uint f)"
proof -
  have "split_on 58 (mac_str mac) = map format_02x [a, b, c, d, e, f]"
    using split_mac_str [of mac] assms by simp
  moreover have "uint d < 65536" "256 * uint e + uint f < 65536"
    using uint_byte_bounds [of d] uint_byte_bounds [of e] uint_byte_bounds [of f] by linarith+
  ultimately show ?thesis
    by (simp add: port_id_to_int_def int_base16_format int_base16_pair from_bytes_def uint_byte_of_int)
qed

subsection \<open>Created attributes are well formed\<close>

lemma to_bytes_length: "to_bytes k n = Inr b \<Longrightarrow> length b = k"
  by (auto simp: to_bytes_def split: if_splits)

lemma integer_init_ok:
  "integer_init cls raw = Inr d \<Longrightarrow> bytes_data d = Some b \<Longrightarrow> dt_class d = cls \<and> length b = MAX_DATA_LENGTH cls"
  by (auto simp: integer_init_def bind_result_eq_Inr split: if_splits raw.splits dest: to_bytes_length)

lemma checked_ok: "checked cls b = Inr d \<Longrightarrow> dt_class d = cls \<and> bytes_data d = Some b \<and> length_ok cls b"
  by (auto simp: checked_def bind_result_eq_Inr is_valid_length_iff split: if_splits)

lemma data_type_init_ok:
  "data_type_init cls raw = Inr d \<Longrightarrow> cls \<noteq> Concat \<Longrightarrow> bytes_data d = Some b \<Longrightarrow>
     dt_class d = cls \<and> length_ok cls b"
  by (cases cls)
    (auto simp: bind_result_eq_Inr length_ok_def split: raw.splits if_splits
      dest!: integer_init_ok checked_ok)

lemma attribute_create_plain:
  assumes "attribute_create c (Plain raw) = Inr a" "c \<noteq> EAPMessage" "attribute_bytes a \<noteq> None"
  shows "attr_class a = c \<and> attribute_ok a"
  using assms DATA_TYPE_Concat [of c]
  by (auto simp: attribute_create_def bind_result_eq_Inr attribute_ok_def attribute_bytes_def
      dest: data_type_init_ok)

lemma attribute_create_class: "attribute_create c arg = Inr a \<Longrightarrow> attr_class a = c"
  by (auto simp: attribute_create_def bind_result_eq_Inr split: create_arg.splits if_splits)

lemma create_text:
  "DATA_TYPE c = Text \<Longrightarrow> attribute_create c (Plain (RawStr s)) = Inr a \<Longrightarrow> attr_class a = c \<and> attribute_ok a"
  by (rule attribute_create_plain [of c "RawStr s"])
    (auto simp: attribute_create_def bind_result_eq_Inr attribute_bytes_def dest: checked_ok)

lemma create_string:
  "DATA_TYPE c = String \<Longrightarrow> attribute_create c (Plain (RawBytes b)) = Inr a \<Longrightarrow>
     attr_class a = c \<and> attribute_ok a \<and> attribute_bytes a = Some b"
  using attribute_create_plain [of c "RawBytes b" a]
  by (cases "c = EAPMessage")
    (auto simp: attribute_create_def bind_result_eq_Inr attribute_bytes_def dest: checked_ok)

lemma create_number:
  "DATA_TYPE c = Integer \<or> DATA_TYPE c = Enum \<Longrightarrow> n \<noteq> 0 \<Longrightarrow>
     attribute_create c (Plain (RawInt n)) = Inr a \<Longrightarrow> attr_class a = c \<and> attribute_ok a"
  by (rule attribute_create_plain [of c "RawInt n"])
    (auto simp: attribute_create_def bind_result_eq_Inr attribute_bytes_def integer_init_def)

lemma sequence_result_Inr: "sequence_result rs = Inr as \<longleftrightarrow> rs = map Inr as"
proof (induction rs arbitrary: as)
  case (Cons r rs)
  then show ?case by (cases as) (auto simp: sequence_result_def bind_result_eq_Inr)
qed (auto simp: sequence_result_def)

lemma prepare_extra_ok:
  assumes "prepare_extra_radius_attributes m = Inr extra"
  shows "list_all attribute_ok extra \<and> map attr_class extra = [CalledStationId, NASPortType, NASIdentifier]"
  using assms unfolding prepare_extra_radius_attributes_def sequence_result_Inr
  by (auto dest!: sym [of _ "attribute_create _ _"] create_text [rotated] create_number [rotated 2])

subsection \<open>A request carries the EAP packet unchanged\<close>

lemma eap_packet_nonempty: "eap_packet_parse bs = Inr e \<Longrightarrow> bs \<noteq> []"
  by (auto simp: eap_packet_parse_def struct_simps)

lemma create_eap:
  assumes "eap_parse bs src = Inr m" "eap_consistent bs" "attribute_create EAPMessage (EapObject m) = Inr a"
  shows "attr_class a = EAPMessage \<and> attribute_ok a \<and> attribute_bytes a = Some bs"
proof -
  have "bs \<noteq> []" using assms(1) eap_packet_nonempty by (auto simp: eap_parse_def bind_result_eq_Inr)
  with assms(3) eap_pack_parse [OF assms(1,2)] show ?thesis
    by (auto simp: attribute_create_def bind_result_eq_Inr attribute_ok_def attribute_bytes_def)
qed

lemma nas_port_attr_ok:
  "nas_port_attr port = map Inr as \<Longrightarrow> list_all attribute_ok as \<and> list_all (\<lambda>a. attr_class a = NASPort) as"
  by (auto simp: nas_port_attr_def split: option.splits if_splits dest: create_number [rotated 2])

lemma state_attr_ok:
  "state_attr st = map Inr as \<Longrightarrow> list_all attribute_ok as \<and> list_all (\<lambda>a. attr_class a = State) as"
  by (auto simp: state_attr_def split: option.splits if_splits dest: create_string [rotated])

text \<open>The attributes of a request, in order.\<close>

lemma request_attributes_shape:
  assumes "sequence_result (request_attributes m src (Some user) st port extra) = Inr as"
    and "eap_parse bs s = Inr m" "eap_consistent bs" "list_all attribute_ok extra"
  obtains u c ps e ss ma where "as = u # c # ps @ extra @ e # ss @ [ma]"
    and "list_all attribute_ok as" and "attr_class u = UserName" "attr_class c = CallingStationId"
    and "list_all (\<lambda>a. attr_class a = NASPort) ps" "list_all (\<lambda>a. attr_class a = State) ss"
    and "attr_class e = EAPMessage" "attribute_bytes e = Some bs"
    and "attr_class ma = MessageAuthenticator" "attribute_bytes ma = Some zero16"
proof -
  from assms(1) have eq: "[attribute_create UserName (Plain (RawStr user)),
      attribute_create CallingStationId (Plain (RawStr src))] @ nas_port_attr port @ map Inr extra @
      [attribute_create EAPMessage (EapObject m)] @ state_attr st @
      [attribute_create MessageAuthenticator (Plain (RawBytes zero16))] = map Inr as"
    by (simp add: sequence_result_Inr request_attributes_def raw_of_option_def)
  then obtain u c ps e ss ma where as: "as = u # c # ps @ extra @ e # ss @ [ma]"
    and u: "attribute_create UserName (Plain (RawStr user)) = Inr u"
    and c: "attribute_create CallingStationId (Plain (RawStr src)) = Inr c"
    and ps: "nas_port_attr port = map Inr ps" and e: "attribute_create EAPMessage (EapObject m) = Inr e"
    and ss: "state_attr st = map Inr ss"
    and ma: "attribute_create MessageAuthenticator (Plain (RawBytes zero16)) = Inr ma"
    by (auto simp: append_eq_map_conv Cons_eq_map_conv map_eq_append_conv
        dest!: map_injective [OF _ inj_Inr])
  note u' = create_text [OF _ u] and c' = create_text [OF _ c] and e' = create_eap [OF assms(2,3) e]
    and ma' = create_string [OF _ ma] and ps' = nas_port_attr_ok [OF ps] and ss' = state_attr_ok [OF ss]
  show thesis by (rule that [OF as]) (use assms(4) as u' c' e' ma' ps' ss' in simp_all)
qed

lemma access_request_build_fits:
  assumes "access_request_build hmac i ra secret as = Inr out" "list_all attribute_ok as"
  shows "0 \<le> i \<and> i < 256 \<and> RADIUS_HEADER_LENGTH + length (list_avps as) < 65536"
  using assms
  by (auto simp: access_request_build_def radius_build_def bind_result_eq_Inr radius_packet_pack_def
      radius_bytes_def attributes_len_avps split: if_splits)

lemma radius_pack_accepted:
  assumes pack: "radius_pack hmac m src (Some user) i ra st (Some sec) port extra = Inr out"
    and eap: "eap_parse bs s = Inr m" "eap_consistent bs"
    and extra: "list_all attribute_ok extra"
      "list_all (\<lambda>a. attr_class a \<notin> {EAPMessage, MessageAuthenticator}) extra"
    and ra: "length ra = 16" and sec: "sec \<noteq> []" "utf8_encode sec = Inr key"
    and hmac: "\<And>k x. length (hmac k x) = 16"
  shows "\<exists>p. radius_parse_packet md5 hmac out (Some sec) ids = Some (Inr p) \<and>
    rclass p = RadiusAccessRequest \<and> packet_id p = i \<and> authenticator p = ra \<and>
    (\<exists>a. attributes_find (DESCRIPTION EAPMessage) (attributes p) = Some a \<and> attribute_bytes a = Some bs)"
proof -
  from pack obtain as where
    as: "sequence_result (request_attributes m src (Some user) st port extra) = Inr as"
    and out: "access_request_build hmac i ra (Some sec) as = Inr out"
    by (auto simp: radius_pack_def bind_result_eq_Inr)
  obtain u c ps e ss ma
    where sh: "as = u # c # ps @ extra @ e # ss @ [ma]" and ok: "list_all attribute_ok as"
    and cl: "attr_class u = UserName" "attr_class c = CallingStationId"
      "list_all (\<lambda>a. attr_class a = NASPort) ps" "list_all (\<lambda>a. attr_class a = State) ss"
      "attr_class e = EAPMessage" and eb: "attribute_bytes e = Some bs"
    and mc: "attr_class ma = MessageAuthenticator" and mb: "attribute_bytes ma = Some zero16"
    by (rule request_attributes_shape [OF as eap extra(1)])
  have pre: "list_all (\<lambda>a. attr_class a \<noteq> EAPMessage) (u # c # ps @ extra)"
    "list_all (\<lambda>a. attr_class a \<noteq> EAPMessage) (ss @ [ma])"
    "list_all (\<lambda>a. attr_class a \<noteq> MessageAuthenticator) (u # c # ps @ extra @ e # ss)"
    using cl mc extra(2) by (auto simp: list_all_iff)
  let ?p = "\<lparr>rclass = RadiusAccessRequest, packet_id = i, authenticator = ra, attributes = as, packed = None\<rparr>"
  have "filter is_eap as = [e]"
    using pre(1,2) cl(5) by (auto simp: sh list_all_iff filter_empty_conv)
  then have pok: "radius_ok ?p"
    using access_request_build_fits [OF out ok] ok ra by (simp add: radius_ok_def)
  have fma: "attributes_find (DESCRIPTION MessageAuthenticator) as = Some ma"
    using find_append [OF pre(3) mc, of "[]"] by (simp add: sh)
  let ?as = "with_ma (hmac key (radius_header ?p @ list_avps as)) as"
  let ?q = "?p\<lparr>attributes := ?as\<rparr>"
  have acc: "bind_result (radius_build hmac (Some sec) ?p)
      (\<lambda>q. the (radius_parse_packet md5 hmac (the (packed q)) (Some sec) ids)) = Inr ?q"
    using radius_parse_build [OF pok _ _ sec, of ma hmac md5 ids] fma mb hmac by (simp add: zero16_def)
  have bld: "radius_build hmac (Some sec) ?p = Inr (?p\<lparr>packed := Some (radius_header ?p @ list_avps ?as)\<rparr>)"
    using radius_build_ok [OF pok _ sec, of ma hmac] fma mb hmac by (simp add: zero16_def)
  have "radius_parse_packet md5 hmac out (Some sec) ids \<noteq> None"
    using radius_parse_packed [of ?q md5 hmac "Some sec" ids] built_radius_ok [OF pok hmac, of ma] fma mb out bld
    by (simp add: access_request_build_def zero16_def)
  moreover have "the (radius_parse_packet md5 hmac out (Some sec) ids) = Inr ?q"
    using acc out bld by (simp add: access_request_build_def)
  moreover have "attributes_find (DESCRIPTION EAPMessage) ?as = Some e"
    using with_ma_split [OF pre(3) mc, of _ "[]"] find_append [OF pre(1) cl(5)] by (simp add: sh)
  ultimately show ?thesis using eb by auto
qed

subsection \<open>Received packets\<close>

lemma receive_radius_callbackD:
  assumes "receive_radius_step md5 hmac bs m = RadiusCallback src attrs cls"
  shows "(\<exists>p port. decode_radius_response md5 hmac bs m = Some (Inr p) \<and> rclass p = cls \<and>
    dict_get (packet_id_to_mac m) (packet_id p) = Some (src, port))"
  using assms unfolding receive_radius_step_def
  by (auto split: if_splits option.splits sum.splits)

lemma receive_radius_authentic:
  assumes "receive_radius_step md5 hmac bs m = RadiusCallback src attrs cls"
    and "radius_secret m = Some s" "utf8_encode s = Inr key" "cls \<noteq> RadiusAccessRequest" "module_inv m"
  shows "\<exists>p port ra. datagram_holds bs p \<and> rclass p = cls \<and> dict_get (packet_id_to_mac m) (packet_id p) = Some (src, port) \<and>
    dict_get (packet_id_to_request_authenticator m) (packet_id p) = Some ra \<and>
    response_auth_valid md5 key ra p \<and> message_auth_valid hmac key ra p"
proof -
  from receive_radius_callbackD [OF assms(1)] obtain p port where
    p: "radius_parse_packet md5 hmac bs (Some s) (packet_id_to_request_authenticator m) = Some (Inr p)"
    "rclass p = cls" "dict_get (packet_id_to_mac m) (packet_id p) = Some (src, port)"
    using assms(2) by (auto simp: decode_radius_response_def)
  from radius_parse_sound [OF p(1) assms(3)] p(2) assms(4) obtain ra where
    ra: "datagram_holds bs p" "dict_get (packet_id_to_request_authenticator m) (packet_id p) = Some ra"
    "ra \<noteq> [] \<longrightarrow> response_auth_valid md5 key ra p" "message_auth_valid hmac key ra p"
    by (auto simp: request_auth_def)
  have "length ra = 16"
    using assms(5) map_of_SomeD [OF ra(2)] by (fastforce simp: module_inv_def)
  with ra p show ?thesis by auto
qed

text \<open>
  An Access-Request is validated against its own authenticator: without a Message-Authenticator it
  is accepted from anyone, whatever the secret.
\<close>

lemma unauthenticated_request:
  assumes "radius_ok p" "rclass p = RadiusAccessRequest" "packed p = None" "s \<noteq> []"
    "attributes_find (DESCRIPTION MessageAuthenticator) (attributes p) = None"
  shows "radius_parse_packet md5 hmac (radius_header p @ list_avps (attributes p)) (Some s) ids = Some (Inr p)"
proof -
  have "\<lparr>rclass = RadiusAccessRequest, packet_id = packet_id p, authenticator = authenticator p,
      attributes = attributes p, packed = None\<rparr> = p"
    using assms(2,3) by simp
  then show ?thesis
    using assms
    by (simp add: radius_parse_packed radius_finish_def validate_packet_def
        validate_response_authenticator_def validate_message_authenticator_def)
qed

text \<open>An EAP-Message that is no EAP packet makes the receive loop raise.\<close>

lemma scan_attributes_bad_eap:
  assumes "attribute_bytes e = Some b" "dt_class (attr_data e) = Concat" "is_eap e" "eap_parse b NoMac = Inl err"
    "list_all (\<lambda>a. attr_class a \<notin> {EAPMessage, State}) xs"
  shows "scan_attributes (xs @ e # ys) r = Inl MessageParseError"
proof -
  have "err = MessageParseError"
    using assms(4) eap_packet_parse_error by (auto simp: eap_parse_def bind_result_eq_Inl)
  with assms show ?thesis
    by (induction xs arbitrary: r) (auto simp: attribute_data_def data_type_data_def attribute_bytes_def)
qed

lemma receive_radius_returns:
  "no_empty_eap_header (drop RADIUS_HEADER_LENGTH bs) \<Longrightarrow> receive_radius_step md5 hmac bs m \<noteq> RadiusLoops"
  using attributes_parse_returns [of "drop RADIUS_HEADER_LENGTH bs"]
  by (auto simp: receive_radius_step_def decode_radius_response_def radius_parse_packet_def
      split: option.splits sum.splits list.splits pyval.splits prod.splits)

subsection \<open>Properties\<close>

text \<open>C29: what \<open>radius_pack\<close> makes of a parsed EAP packet is a request that \<open>Radius.parse\<close> accepts
  under the shared secret, with the identifier and authenticator it was given, and whose
  EAP-Message holds exactly the bytes of the supplicant's packet. The packet is one whose parse
  keeps all its bytes (\<open>eap_consistent\<close>: the length field is the length of the packet, a Success or
  Failure has four bytes, a Request or Response has a type, which is not Legacy-NAK, and the value
  size of an MD5-Challenge lies within the packet); the extra attributes pack and are neither an EAP-Message nor
  a Message-Authenticator; the authenticator and the keyed digests have sixteen bytes.\<close>

theorem radius_request_forwards_eap:
  assumes "radius_pack hmac m src (Some user) i ra st (Some sec) port extra = Inr out"
    and "eap_parse bs s = Inr m" "eap_consistent bs"
    and "list_all attribute_ok extra"
      "list_all (\<lambda>a. attr_class a \<notin> {EAPMessage, MessageAuthenticator}) extra"
    and "length ra = 16" and "sec \<noteq> []" "utf8_encode sec = Inr key"
    and "\<And>k x. length (hmac k x) = 16"
  shows "\<exists>p. radius_parse_packet md5 hmac out (Some sec) ids = Some (Inr p) \<and>
    rclass p = RadiusAccessRequest \<and> packet_id p = i \<and> authenticator p = ra \<and>
    (\<exists>a. attributes_find (DESCRIPTION EAPMessage) (attributes p) = Some a \<and> attribute_bytes a = Some bs)"
  by (rule radius_pack_accepted [OF assms])

lemma radius_request_forwards_eap_witness:
  "\<exists>out p. radius_pack (\<lambda>k x. replicate 16 7) (IdentityMessage NoMac 7 2 [117]) (ascii ''00:11:22:33:44:55'')
       (Some [117]) 3 (replicate 16 9) None (Some [65]) (Some 5) [] = Inr out \<and>
     radius_parse_packet (\<lambda>x. x) (\<lambda>k x. replicate 16 7) out (Some [65]) [] = Some (Inr p) \<and>
     rclass p = RadiusAccessRequest \<and> packet_id p = 3 \<and> authenticator p = replicate 16 9 \<and>
     (\<exists>a. attributes_find (DESCRIPTION EAPMessage) (attributes p) = Some a \<and>
        attribute_bytes a = Some [2, 7, 0, 6, 1, 117])"
proof -
  have "case radius_pack (\<lambda>k x. replicate 16 7) (IdentityMessage NoMac 7 2 [117]) (ascii ''00:11:22:33:44:55'')
       (Some [117]) 3 (replicate 16 9) None (Some [65]) (Some 5) [] of Inr _ \<Rightarrow> True | Inl _ \<Rightarrow> False"
    by code_simp
  then obtain out where out: "radius_pack (\<lambda>k x. replicate 16 7) (IdentityMessage NoMac 7 2 [117])
      (ascii ''00:11:22:33:44:55'') (Some [117]) 3 (replicate 16 9) None (Some [65]) (Some 5) [] = Inr out"
    by (auto split: sum.splits)
  have "eap_parse [2, 7, 0, 6, 1, 117] NoMac = Inr (IdentityMessage NoMac 7 2 [117])"
    "eap_consistent [2, 7, 0, 6, 1, 117]"
    by (code_simp, simp add: eap_consistent_def)
  from radius_request_forwards_eap [OF out this, of "[65]" "\<lambda>x. x" "[]"] out show ?thesis
    by (auto simp: scalar_value_def utf8_char_def byte_of_def)
qed

text \<open>C40: the identifiers of requests count up from 0 and wrap at 256; after any number of requests
  the next one is again a byte, and the tables map identifiers of one byte, the same ones, to the
  supplicant and to a 16-byte authenticator.\<close>

theorem radius_ids_wrap:
  assumes "list_all (\<lambda>(ra, info). length ra = 16) xs"
  shows "next_radius_id (encode_all hmac xs (radius_module_init secret mid)) = int (length xs) mod 256 \<and>
    module_inv (encode_all hmac xs (radius_module_init secret mid))"
proof -
  have "module_inv m \<Longrightarrow> module_inv (encode_all hmac xs m)" for m
    using assms
  proof (induction xs arbitrary: m)
    case (Cons x xs)
    then show ?case by (cases x) (simp add: module_inv_encode)
  qed simp
  with next_id_after [of "radius_module_init secret mid" hmac xs] module_inv_init show ?thesis
    by (simp add: radius_module_init_def)
qed

lemma radius_ids_wrap_witness:
  "next_radius_id (encode_all (\<lambda>k x. x)
     (replicate 257 (replicate 16 0, \<lparr>payload = EapolStartMessage NoMac, info_src_mac = [], info_identity = None,
        info_state = None, info_port_id = 0\<rparr>)) (radius_module_init None [])) = 1"
  using radius_ids_wrap [of "replicate 257 (replicate 16 0, \<lparr>payload = EapolStartMessage NoMac, info_src_mac = [],
      info_identity = None, info_state = None, info_port_id = 0\<rparr>)" "\<lambda>k x. x" None "[]"]
  by (simp add: list_all_iff)

text \<open>An Access-Request without a Message-Authenticator is returned by \<open>Radius.parse\<close> whatever
  the secret is and whoever sent it: the receive loop treats it like an authenticated reply.\<close>

theorem forged_request_accepted:
  assumes "radius_ok p" "rclass p = RadiusAccessRequest" "packed p = None" "s \<noteq> []"
    "attributes_find (DESCRIPTION MessageAuthenticator) (attributes p) = None"
  shows "radius_parse_packet md5 hmac (radius_header p @ list_avps (attributes p)) (Some s) ids = Some (Inr p)"
  by (rule unauthenticated_request [OF assms])

lemma forged_request_accepted_witness:
  "radius_parse_packet (\<lambda>x. [1]) (\<lambda>k x. [2]) ([1, 0, 0, 20] @ replicate 16 0) (Some (ascii ''SECRET'')) [] =
     Some (Inr \<lparr>rclass = RadiusAccessRequest, packet_id = 0, authenticator = replicate 16 0, attributes = [],
       packed = None\<rparr>)"
  using forged_request_accepted [of "\<lparr>rclass = RadiusAccessRequest, packet_id = 0, authenticator = replicate 16 0,
      attributes = [], packed = None\<rparr>" "ascii ''SECRET''" "\<lambda>x. [1]" "\<lambda>k x. [2]" "[]"]
  by (simp add: radius_ok_def RADIUS_HEADER_LENGTH_def radius_header_def ascii_def)

end
