(* ===== verification/Eap_Module.thy ===== *)
theory Eap_Module
  imports Eap_Messages Threads
begin

text \<open>
  \<open>eap_module.py\<close>: the EAP side of the authenticator, with the address the socket learned, the
  outbound queue, one step of the send thread and one pass of the receive loop. The socket itself
  (\<open>eap_socket.py\<close>) appears as the frames it delivers and the list of frames it was given.
\<close>

record eap_module =
  eap_address :: mac_address
  authenticator_mac :: "mac_address option"
  eap_queue :: "bytes option list"
  eap_shut_down :: bool
  eap_pc :: pc
  eap_sent :: "bytes list"
  eap_socket_open :: bool

definition eap_module_init :: "mac_address \<Rightarrow> eap_module" where
  "eap_module_init mac =
     \<lparr>eap_address = mac, authenticator_mac = None, eap_queue = [], eap_shut_down = False,
      eap_pc = AtCheck, eap_sent = [], eap_socket_open = True\<rparr>"

text \<open>\<open>str(self.authenticator_mac)\<close>\<close>

definition get_auth_mac :: "eap_module \<Rightarrow> ustr" where
  "get_auth_mac m = (case authenticator_mac m of None \<Rightarrow> ascii ''None'' | Some a \<Rightarrow> mac_str a)"

definition send_packed_eap_message :: "bytes \<Rightarrow> eap_module \<Rightarrow> eap_module" where
  "send_packed_eap_message eap_message m = m\<lparr>eap_queue := eap_queue m @ [Some eap_message]\<rparr>"

definition ethernet_pack_from :: "eap_message \<Rightarrow> mac_address option \<Rightarrow> mac_address \<Rightarrow> bytes result" where
  \<comment> \<open>packing with the source \<open>None\<close> fails at \<open>self.src_mac.address\<close>\<close>
  "ethernet_pack_from message port_id dst =
     (case port_id of
        None \<Rightarrow> bind_result (message_pack message) (\<lambda>_. Inl AttributeError)
      | Some src \<Rightarrow> ethernet_pack message src dst)"

definition send_eap_message :: "ustr \<Rightarrow> eap_message \<Rightarrow> (eap_module, unit) op" where
  "send_eap_message src data m =
     bind_op (lift_op (from_string src))
       (\<lambda>dst. bind_op (lift_op (ethernet_pack_from data (authenticator_mac m) dst))
       (\<lambda>packed_message. modify_op (send_packed_eap_message packed_message))) m"

definition send_eapol_response :: "ustr \<Rightarrow> (eap_module, unit) op" where
  "send_eapol_response src m =
     bind_op (lift_op (from_string src))
       (\<lambda>dst. bind_op (lift_op (ethernet_pack_from (IdentityMessage (MacStr src) 255 1 []) (authenticator_mac m) dst))
       (\<lambda>packed_message. modify_op (send_packed_eap_message packed_message))) m"

definition eap_shut_down_module :: "eap_module \<Rightarrow> eap_module" where
  "eap_shut_down_module m =
     m\<lparr>eap_shut_down := True, eap_queue := eap_queue m @ [None], eap_socket_open := False\<rparr>"

text \<open>
  One atomic step of the thread that runs \<open>send_eap_messages\<close>. The argument says whether the
  socket accepts the frame; when it raises, the thread ends.
\<close>

definition send_eap_step :: "bool \<Rightarrow> eap_module \<Rightarrow> eap_module" where
  "send_eap_step accepts m =
     (case eap_pc m of
        Finished \<Rightarrow> m
      | AtCheck \<Rightarrow> m\<lparr>eap_pc := (if eap_shut_down m then Finished else AtGet)\<rparr>
      | AtGet \<Rightarrow>
          (case eap_queue m of
             [] \<Rightarrow> m
           | outbound_packet # q \<Rightarrow>
               (if outbound_packet = None \<or> outbound_packet = Some []
                then m\<lparr>eap_queue := q, eap_pc := AtCheck\<rparr>
                else if accepts
                then m\<lparr>eap_queue := q, eap_sent := eap_sent m @ [the outbound_packet], eap_pc := AtCheck\<rparr>
                else m\<lparr>eap_queue := q, eap_pc := Finished\<rparr>)))"

text \<open>
  What the body of the loop in \<open>receive_eap_messages\<close> comes to for what the socket returned. The
  loop tests \<open>shut_down\<close> before it waits, so a frame may still be handled after the shutdown.
\<close>

datatype eap_outcome =
    EapIgnored
  | EapRaised py_error
  | EapCallback ustr eap_message bool

definition is_eapol_start :: "eap_message \<Rightarrow> bool" where
  "is_eapol_start m = (case m of EapolStartMessage _ \<Rightarrow> True | _ \<Rightarrow> False)"

definition mac_ref_str :: "mac_ref \<Rightarrow> ustr" where
  "mac_ref_str r = (case r of NoMac \<Rightarrow> ascii ''None'' | MacObj a \<Rightarrow> mac_str a | MacStr s \<Rightarrow> s)"

definition receive_eap_step :: "bytes option \<Rightarrow> eap_module \<Rightarrow> eap_outcome \<times> eap_module" where
  "receive_eap_step packed_message m =
     (if packed_message = None \<or> packed_message = Some [] then (EapIgnored, m)
      else case ethernet_parse (the packed_message) of
        Inl e \<Rightarrow> (if e = MessageParseError then EapIgnored else EapRaised e, m)
      | Inr (eap, dst) \<Rightarrow>
          (let is_eapol = is_eapol_start eap;
               m' = (if is_eapol then m\<lparr>authenticator_mac := Some (eap_address m)\<rparr> else m)
           in (EapCallback (mac_ref_str (message_src_mac eap)) eap is_eapol, m')))"

interpretation eap_loop: sender_loop eap_queue eap_shut_down eap_pc send_eap_step
  send_packed_eap_message eap_shut_down_module
  by unfold_locales
    (auto simp: send_eap_step_def send_packed_eap_message_def eap_shut_down_module_def
      split: pc.splits list.splits)

text \<open>Every frame is ignored or handed over: no frame makes the receive loop raise.\<close>

lemma receive_eap_never_raises: "fst (receive_eap_step bs m) \<noteq> EapRaised e"
  using ethernet_parse_error
  by (auto simp: receive_eap_step_def Let_def split: sum.splits prod.splits)

lemma ethernet_parse_src:
  "ethernet_parse bs = Inr (m, dst) \<Longrightarrow> \<exists>src. message_src_mac m = MacObj src \<and> length (address src) = 6"
proof -
  assume a: "ethernet_parse bs = Inr (m, dst)"
  then obtain p where p: "ethernet_packet_parse bs = Inr p" "one_x_parse (eth_data p) (MacObj (src_mac p)) = Inr m"
    by (auto simp: ethernet_parse_def bind_result_eq_Inr split: if_splits)
  have "length (address (src_mac p)) = 6"
    using p(1) by (auto simp: ethernet_packet_parse_exact split: if_splits)
  moreover have "message_src_mac m = MacObj (src_mac p)"
    using p(2) by (auto simp: one_x_parse_def eap_parse_def bind_result_eq_Inr split: if_splits)
  ultimately show ?thesis by blast
qed

text \<open>The supplicant a frame is attributed to is the source address of that frame, in a form that
  \<open>MacAddress.from_string\<close> reads back, so that replies reach it.\<close>

lemma receive_eap_callback:
  assumes "receive_eap_step (Some bs) m = (EapCallback src eap flag, m')"
  shows "\<exists>mac dst. ethernet_parse bs = Inr (eap, dst) \<and> message_src_mac eap = MacObj mac \<and> src = mac_str mac \<and>
    from_string src = Inr mac \<and> flag = is_eapol_start eap \<and>
    m' = (if flag then m\<lparr>authenticator_mac := Some (eap_address m)\<rparr> else m)"
proof -
  from assms obtain dst where p: "ethernet_parse bs = Inr (eap, dst)"
    and s: "src = mac_ref_str (message_src_mac eap)" "flag = is_eapol_start eap"
    and m': "m' = (if flag then m\<lparr>authenticator_mac := Some (eap_address m)\<rparr> else m)"
    by (auto simp: receive_eap_step_def Let_def split: if_splits sum.splits prod.splits)
  from ethernet_parse_src [OF p] obtain mac where "message_src_mac eap = MacObj mac" "length (address mac) = 6"
    by blast
  with p s m' from_string_mac_str [of mac] show ?thesis by (auto simp: mac_ref_str_def)
qed

end
