(* ===== verification/Authenticator.thy ===== *)
theory Authenticator
  imports Complex_Main Radius_Module Eap_Module
begin

text \<open>
  \<open>authenticator.py\<close> and \<open>heartbeat_scheduler.py\<close>: the state machine of one supplicant, the
  authenticator that owns the machines, the results and the two modules, and the runs of the whole
  system over the frames, datagrams and timer ticks that arrive. Each handler is one atomic step: the
  threads of the program interleave between handlers in the model, while in the code they hold a lock
  only around each access to a shared field, so what two handlers do at the same time is not covered. The clock
  reading of a step is its argument \<open>now\<close>. An exception that leaves a handler ends the receive
  thread that called it; the timer logs exceptions and goes on.
\<close>

subsection \<open>AuthStateMachine\<close>

datatype sm_state = START | SUPPLICANT | RADIUS | FAIL | SUCCESS

text \<open>\<open>_retry_func\<close> with \<open>_retry_args\<close>: one of the two send callbacks.\<close>

datatype retry = RetryEap ustr "eap_message option" | RetryRadius radius_packet_info

record auth_sm =
  sm_state :: "sm_state option"
  sm_src_mac :: ustr
  identity :: "ustr option"
  authentication_mac :: ustr
  radius_state :: "bytes option"
  idle_time :: real
  max_retry_count :: nat
  current_timeout :: "real option"
  retry_action :: "retry option"
  current_retries :: "nat option"

definition auth_sm_init :: "ustr \<Rightarrow> ustr \<Rightarrow> real \<Rightarrow> nat \<Rightarrow> auth_sm" where
  "auth_sm_init src auth_mac idle retry_count =
     \<lparr>sm_state = None, sm_src_mac = src, identity = None, authentication_mac = auth_mac,
      radius_state = None, idle_time = idle, max_retry_count = retry_count, current_timeout = None,
      retry_action = None, current_retries = None\<rparr>"

text \<open>The state of the authenticator object and of the threads it starts.\<close>

record auth_world =
  state_machines :: "(ustr, auth_sm) dict"
  results :: "(ustr, bool) dict"
  w_eap :: eap_module
  w_radius :: radius_module
  w_idle_time :: real
  w_max_retry_count :: nat
  eapol_timeout :: "real option"
  timer_run :: bool
  eap_rx_alive :: bool
  radius_rx_alive :: bool

type_synonym sm_op = "(auth_sm \<times> auth_world, unit) op"

definition state_transition :: "sm_state \<Rightarrow> sm_state option \<Rightarrow> sm_op" where
  "state_transition target expected s =
     (if expected \<noteq> None \<and> sm_state (fst s) \<noteq> expected then raise_op AssertionError s
      else modify_op (\<lambda>(sm, w). (sm\<lparr>sm_state := Some target\<rparr>, w)) s)"

definition set_timeout :: "real \<Rightarrow> sm_op" where
  \<comment> \<open>\<open>_set_timeout(self._idle_time)\<close>\<close>
  "set_timeout now = modify_op (\<lambda>(sm, w). (sm\<lparr>current_timeout := Some (now + idle_time sm)\<rparr>, w))"

definition clear_timeout :: sm_op where
  "clear_timeout = modify_op (\<lambda>(sm, w). (sm\<lparr>current_timeout := None\<rparr>, w))"

definition set_retry_actions :: "retry \<Rightarrow> sm_op" where
  "set_retry_actions r =
     modify_op (\<lambda>(sm, w). (sm\<lparr>retry_action := Some r, current_retries := Some 0\<rparr>, w))"

subsection \<open>Callbacks of the authenticator\<close>

definition on_eap :: "(eap_module, 'a) op \<Rightarrow> (auth_world, 'a) op" where
  "on_eap f w = (case f (w_eap w) of (r, m) \<Rightarrow> (r, w\<lparr>w_eap := m\<rparr>))"

definition on_radius :: "(radius_module, 'a) op \<Rightarrow> (auth_world, 'a) op" where
  "on_radius f w = (case f (w_radius w) of (r, m) \<Rightarrow> (r, w\<lparr>w_radius := m\<rparr>))"

definition send_eap_response :: "ustr \<Rightarrow> eap_message option \<Rightarrow> (auth_world, unit) op" where
  "send_eap_response src message =
     (case message of
        None \<Rightarrow> on_eap (send_eapol_response src)
      | Some m \<Rightarrow> on_eap (send_eap_message src m))"

definition send_radius_request :: "radius_packet_info \<Rightarrow> (auth_world, unit) op" where
  "send_radius_request info = on_radius (modify_op (send_radius_packet info))"

definition end_authentication :: "(auth_world, unit) op" where
  "end_authentication =
     then_op (modify_op (\<lambda>w. w\<lparr>timer_run := False\<rparr>))
       (then_op (on_radius radius_shut_down_op) (on_eap (modify_op eap_shut_down_module)))"

definition pop_state_machine :: "ustr \<Rightarrow> (auth_world, unit) op" where
  "pop_state_machine src w =
     (if dict_get (state_machines w) src = None then raise_op KeyError w
      else modify_op (\<lambda>w. w\<lparr>state_machines := dict_del src (state_machines w)\<rparr>) w)"

definition process_test_result :: "ustr option \<Rightarrow> bool \<Rightarrow> (auth_world, unit) op" where
  "process_test_result src is_success =
     then_op
       (case src of
          None \<Rightarrow> ret_op ()
        | Some mac \<Rightarrow>
            if mac = [] then ret_op ()
            else then_op (modify_op (\<lambda>w. w\<lparr>results := dict_set mac is_success (results w)\<rparr>))
                   (pop_state_machine mac))
       end_authentication"

definition run_retry :: "retry \<Rightarrow> (auth_world, unit) op" where
  "run_retry r = (case r of RetryEap src m \<Rightarrow> send_eap_response src m | RetryRadius info \<Rightarrow> send_radius_request info)"

subsection \<open>Events of the state machine\<close>

definition sm_initialize :: "real \<Rightarrow> sm_op" where
  "sm_initialize now s =
     then_op (state_transition START None)
       (then_op (set_timeout now) (set_retry_actions (RetryEap (sm_src_mac (fst s)) None))) s"

definition sm_received_eapol_start :: "real \<Rightarrow> sm_op" where
  "sm_received_eapol_start now s =
     then_op (state_transition SUPPLICANT (Some START))
       (then_op (set_timeout now)
       (then_op (set_retry_actions (RetryEap (sm_src_mac (fst s)) None))
         (zoom_snd (send_eap_response (sm_src_mac (fst s)) None)))) s"

definition sm_learn_identity :: "eap_message \<Rightarrow> auth_sm \<Rightarrow> auth_sm" where
  "sm_learn_identity m sm =
     (case m of
        IdentityMessage _ _ _ ident \<Rightarrow>
          if identity sm = None \<or> identity sm = Some [] then sm\<lparr>identity := Some ident\<rparr> else sm
      | _ \<Rightarrow> sm)"

definition sm_packet_info :: "eap_message \<Rightarrow> int \<Rightarrow> auth_sm \<Rightarrow> radius_packet_info" where
  "sm_packet_info m port_id sm =
     \<lparr>payload = m, info_src_mac = sm_src_mac sm, info_identity = identity sm,
      info_state = radius_state sm, info_port_id = port_id\<rparr>"

definition sm_received_eap_request :: "real \<Rightarrow> eap_message \<Rightarrow> sm_op" where
  "sm_received_eap_request now m =
     then_op (modify_op (\<lambda>(sm, w). (sm_learn_identity m sm, w)))
       (then_op (state_transition RADIUS (Some SUPPLICANT))
       (\<lambda>s. bind_op (lift_op (port_id_to_int (authentication_mac (fst s))))
         (\<lambda>port_id. let info = sm_packet_info m port_id (fst s)
           in then_op (set_timeout now)
                (then_op (set_retry_actions (RetryRadius info)) (zoom_snd (send_radius_request info)))) s))"

definition sm_received_radius_response ::
    "real \<Rightarrow> eap_message option \<Rightarrow> bytes option \<Rightarrow> packet_class \<Rightarrow> sm_op" where
  "sm_received_radius_response now pl rstate ptype s0 =
     (let src = sm_src_mac (fst s0) in
      then_op (modify_op (\<lambda>(sm, w). (sm\<lparr>radius_state := rstate\<rparr>, w)))
        (if ptype = RadiusAccessReject
         then then_op (state_transition FAIL (Some RADIUS))
                (then_op (zoom_snd (process_test_result (Some src) False))
                   (zoom_snd (send_eap_response src (Some (FailureMessage (MacStr src) 255)))))
         else if ptype = RadiusAccessAccept
         then then_op (state_transition sm_state.SUCCESS (Some RADIUS))
                (then_op (zoom_snd (process_test_result (Some src) True)) (zoom_snd (send_eap_response src pl)))
         else then_op (state_transition SUPPLICANT (Some RADIUS))
                (then_op (set_timeout now)
                (then_op (set_retry_actions (RetryEap src pl)) (zoom_snd (send_eap_response src pl)))))) s0"

definition sm_handle_timeout :: sm_op where
  "sm_handle_timeout s =
     (let src = sm_src_mac (fst s) in
      then_op (state_transition FAIL None)
        (then_op clear_timeout
        (then_op (zoom_snd (process_test_result (Some src) False))
           (zoom_snd (send_eap_response src (Some (FailureMessage (MacStr src) 255)))))) s)"

definition sm_handle_timer :: "real \<Rightarrow> sm_op" where
  "sm_handle_timer now s =
     (case current_timeout (fst s) of
        None \<Rightarrow> ret_op () s
      | Some t \<Rightarrow>
          if t = 0 \<or> \<not> now > t then ret_op () s
          else (case current_retries (fst s) of
             None \<Rightarrow> raise_op TypeError s
           | Some n \<Rightarrow>
               if n < max_retry_count (fst s)
               then then_op (modify_op (\<lambda>(sm, w). (sm\<lparr>current_retries := Some (n + 1)\<rparr>, w)))
                      (then_op (set_timeout now)
                        (case retry_action (fst s) of
                           None \<Rightarrow> raise_op TypeError
                         | Some r \<Rightarrow> zoom_snd (run_retry r))) s
               else sm_handle_timeout s))"

subsection \<open>Handlers of the authenticator\<close>

definition store_sm :: "ustr \<Rightarrow> auth_sm \<Rightarrow> auth_world \<Rightarrow> auth_world" where
  \<comment> \<open>the dictionary holds the machine that was changed, unless it was popped meanwhile\<close>
  "store_sm src sm w =
     (if dict_get (state_machines w) src = None then w
      else w\<lparr>state_machines := dict_set src sm (state_machines w)\<rparr>)"

definition on_sm :: "ustr \<Rightarrow> sm_op \<Rightarrow> (auth_world, unit) op" where
  "on_sm src f w =
     (case dict_get (state_machines w) src of
        None \<Rightarrow> raise_op KeyError w
      | Some sm \<Rightarrow> (case f (sm, w) of (r, (sm', w')) \<Rightarrow> (r, store_sm src sm' w')))"

definition add_state_machine :: "real \<Rightarrow> ustr \<Rightarrow> auth_world \<Rightarrow> auth_world" where
  "add_state_machine now src w =
     (let sm = auth_sm_init src (get_auth_mac (w_eap w)) (w_idle_time w) (w_max_retry_count w);
          (r, (sm', w')) = sm_initialize now (sm, w)
      in w'\<lparr>state_machines := dict_set src sm' (state_machines w')\<rparr>)"

definition received_eap_request ::
    "real \<Rightarrow> ustr \<Rightarrow> eap_message \<Rightarrow> bool \<Rightarrow> (auth_world, unit) op" where
  "received_eap_request now src m is_eapol w =
     (if is_eapol
      then (if dict_get (state_machines w) src = None \<and> dict_get (results w) src = None
            then on_sm src (sm_received_eapol_start now) (add_state_machine now src w)
            else ret_op () w)
      else on_sm src (sm_received_eap_request now m) w)"

definition received_radius_response ::
    "real \<Rightarrow> ustr \<Rightarrow> radius_packet_attributes \<Rightarrow> packet_class \<Rightarrow> (auth_world, unit) op" where
  "received_radius_response now src attrs ptype =
     on_sm src (sm_received_radius_response now (rpa_eap_message attrs) (rpa_state attrs) ptype)"

fun timers :: "real \<Rightarrow> nat \<Rightarrow> ustr list \<Rightarrow> (auth_world, unit) op" where
  \<comment> \<open>iterating over a dictionary whose size changed raises \<open>RuntimeError\<close>\<close>
  "timers now n [] = ret_op ()"
| "timers now n (src # srcs) =
     then_op (on_sm src (sm_handle_timer now))
       (\<lambda>w. if length (state_machines w) \<noteq> n then raise_op RuntimeError w else timers now n srcs w)"

definition handle_sm_timeout :: "real \<Rightarrow> (auth_world, unit) op" where
  "handle_sm_timeout now w =
     (if state_machines w = [] \<and> eapol_timeout w \<noteq> None \<and> eapol_timeout w \<noteq> Some 0
      then (if now > the (eapol_timeout w) then process_test_result None False w else ret_op () w)
      else timers now (length (state_machines w)) (dict_keys (state_machines w)) w)"

subsection \<open>Runs\<close>

datatype auth_event =
    EapFrame "bytes option"
  | RadiusDatagram bytes
  | Tick
  | EapSender bool
  | RadiusSender bytes

definition rx_result :: "(auth_world \<Rightarrow> auth_world) \<Rightarrow> unit result \<times> auth_world \<Rightarrow> auth_world" where
  \<comment> \<open>an exception ends the receive thread\<close>
  "rx_result kill rw = (case rw of (Inl e, w) \<Rightarrow> kill w | (Inr u, w) \<Rightarrow> w)"

definition eap_frame_step :: "real \<Rightarrow> bytes option \<Rightarrow> auth_world \<Rightarrow> auth_world" where
  "eap_frame_step now frame w =
     (if \<not> eap_rx_alive w then w
      else case receive_eap_step frame (w_eap w) of
        (EapIgnored, m) \<Rightarrow> w\<lparr>w_eap := m\<rparr>
      | (EapRaised e, m) \<Rightarrow> w\<lparr>w_eap := m, eap_rx_alive := False\<rparr>
      | (EapCallback src msg is_eapol, m) \<Rightarrow>
          rx_result (\<lambda>w. w\<lparr>eap_rx_alive := False\<rparr>) (received_eap_request now src msg is_eapol (w\<lparr>w_eap := m\<rparr>)))"

definition radius_datagram_step ::
    "(bytes \<Rightarrow> bytes) \<Rightarrow> (bytes \<Rightarrow> bytes \<Rightarrow> bytes) \<Rightarrow> real \<Rightarrow> bytes \<Rightarrow> auth_world \<Rightarrow> auth_world" where
  "radius_datagram_step md5 hmac now bs w =
     (if \<not> radius_rx_alive w then w
      else case receive_radius_step md5 hmac bs (w_radius w) of
        RadiusIgnored \<Rightarrow> w
      | RadiusLoops \<Rightarrow> w\<lparr>radius_rx_alive := False\<rparr>
      | RadiusRaised e \<Rightarrow> w\<lparr>radius_rx_alive := False\<rparr>
      | RadiusCallback src attrs ptype \<Rightarrow>
          rx_result (\<lambda>w. w\<lparr>radius_rx_alive := False\<rparr>) (received_radius_response now src attrs ptype w))"

definition periodic_task :: "real \<Rightarrow> auth_world \<Rightarrow> auth_world" where
  "periodic_task now w = (if timer_run w then snd (handle_sm_timeout now w) else w)"

definition auth_step ::
    "(bytes \<Rightarrow> bytes) \<Rightarrow> (bytes \<Rightarrow> bytes \<Rightarrow> bytes) \<Rightarrow> auth_world \<Rightarrow> real \<times> auth_event \<Rightarrow> auth_world" where
  "auth_step md5 hmac w ev =
     (case ev of (now, e) \<Rightarrow>
        (case e of
           EapFrame frame \<Rightarrow> eap_frame_step now frame w
         | RadiusDatagram bs \<Rightarrow> radius_datagram_step md5 hmac now bs w
         | Tick \<Rightarrow> periodic_task now w
         | EapSender accepts \<Rightarrow> w\<lparr>w_eap := send_eap_step accepts (w_eap w)\<rparr>
         | RadiusSender urandom \<Rightarrow> w\<lparr>w_radius := send_radius_step hmac urandom (w_radius w)\<rparr>))"

definition HEARTBEAT_INTERVAL :: real where "HEARTBEAT_INTERVAL = 3"
definition IDLE_TIME :: real where "IDLE_TIME = 9"
definition RETRY_COUNT :: nat where "RETRY_COUNT = 3"
definition EAPOL_IDLE_TIME :: real where "EAPOL_IDLE_TIME = 180"

definition auth_setup :: "real \<Rightarrow> mac_address \<Rightarrow> ustr option \<Rightarrow> ustr \<Rightarrow> auth_world" where
  "auth_setup now eap_mac secret radius_id =
     \<lparr>state_machines = [], results = [], w_eap = eap_module_init eap_mac,
      w_radius = radius_module_init secret radius_id, w_idle_time = IDLE_TIME,
      w_max_retry_count = RETRY_COUNT, eapol_timeout = Some (now + EAPOL_IDLE_TIME), timer_run = True,
      eap_rx_alive = True, radius_rx_alive = True\<rparr>"

definition auth_run ::
    "(bytes \<Rightarrow> bytes) \<Rightarrow> (bytes \<Rightarrow> bytes \<Rightarrow> bytes) \<Rightarrow> auth_world \<Rightarrow> (real \<times> auth_event) list \<Rightarrow> auth_world" where
  "auth_run md5 hmac = foldl (auth_step md5 hmac)"

subsection \<open>The verdict\<close>

fun result_loop :: "(ustr \<times> bool) list \<Rightarrow> ustr \<times> string \<Rightarrow> ustr \<times> string" where
  "result_loop [] acc = acc"
| "result_loop ((src, is_success) # rs) (result_str, test_result) =
     result_loop rs
       (result_str @ ascii ''Authentication for '' @ src @ ascii '' '' @
          ascii (if is_success then ''succeeded'' else ''failed'') @ ascii ''.'',
        if is_success then test_result else ''fail'')"

definition authentication_verdict :: "(ustr, bool) dict \<Rightarrow> ustr \<times> string" where
  \<comment> \<open>\<open>run_authentication_test\<close> after the threads have ended\<close>
  "authentication_verdict res =
     (if res = [] then (ascii ''Authentication failed. No EAPOL messages received.'', ''skip'')
      else result_loop res ([], ''pass''))"

subsection \<open>What the callbacks change\<close>

declare map_of_eq_Some_iff [simp del] Some_eq_map_of_iff [simp del]

lemma on_eap_frame [simp]:
  "state_machines (snd (on_eap f w)) = state_machines w" "results (snd (on_eap f w)) = results w"
  "w_radius (snd (on_eap f w)) = w_radius w"
  by (simp_all add: on_eap_def split: prod.splits)

lemma send_eap_response_frame [simp]:
  "state_machines (snd (send_eap_response src m w)) = state_machines w"
  "results (snd (send_eap_response src m w)) = results w"
  "w_radius (snd (send_eap_response src m w)) = w_radius w"
  by (simp_all add: send_eap_response_def split: option.splits)

lemma send_radius_request_eq:
  "send_radius_request info w = (Inr (), w\<lparr>w_radius := send_radius_packet info (w_radius w)\<rparr>)"
  by (simp add: send_radius_request_def on_radius_def op_simps)

lemma snd_then_op:
  "snd (then_op m n s) = (case fst (m s) of Inl e \<Rightarrow> snd (m s) | Inr x \<Rightarrow> snd (n (snd (m s))))"
  by (auto simp: op_simps split: prod.splits sum.splits)

lemma snd_zoom_snd: "snd (zoom_snd m s) = (fst s, snd (m (snd s)))"
  by (simp add: op_simps split: prod.splits)

lemma fst_zoom_snd: "fst (zoom_snd m s) = fst (m (snd s))"
  by (simp add: op_simps split: prod.splits)

lemma modify_op_eq [simp]: "modify_op f s = (Inr (), f s)"
  by (simp add: op_simps)

lemma then_modify [simp]: "then_op (modify_op f) n s = n (f s)"
  by (simp add: op_simps)

lemma end_authentication_eq:
  "end_authentication w =
     (if rad_socket_open (w_radius w)
      then (Inr (), w\<lparr>timer_run := False, w_radius := radius_shut_down_module (w_radius w),
              w_eap := eap_shut_down_module (w_eap w)\<rparr>)
      else (Inl OSError, w\<lparr>timer_run := False, w_radius := radius_shut_down_module (w_radius w)\<rparr>))"
  by (simp add: end_authentication_def on_radius_def on_eap_def radius_shut_down_op_def op_simps)

lemma process_test_result_eq:
  assumes "src \<noteq> []" "dict_get (state_machines w) src \<noteq> None"
  shows "process_test_result (Some src) b w =
    end_authentication (w\<lparr>results := dict_set src b (results w), state_machines := dict_del src (state_machines w)\<rparr>)"
  using assms
  by (auto simp: process_test_result_def then_op_def bind_op_def pop_state_machine_def)

lemma process_test_result_None: "process_test_result None b w = end_authentication w"
  by (simp add: process_test_result_def op_simps)

lemma end_authentication_tables [simp]:
  "state_machines (snd (end_authentication w)) = state_machines w"
  "results (snd (end_authentication w)) = results w"
  "w_radius (snd (end_authentication w)) = radius_shut_down_module (w_radius w)"
  by (simp_all add: end_authentication_eq)

lemma module_inv_frame [simp]:
  "module_inv (radius_shut_down_module m) = module_inv m"
  "module_inv (send_radius_packet info m) = module_inv m"
  by (simp_all add: module_inv_def radius_shut_down_module_def send_radius_packet_def)

lemma secret_frame [simp]:
  "radius_secret (radius_shut_down_module m) = radius_secret m"
  "radius_secret (send_radius_packet info m) = radius_secret m"
  by (simp_all add: radius_shut_down_module_def send_radius_packet_def)

subsection \<open>The invariant of a state machine\<close>

definition sm_ok :: "auth_sm \<Rightarrow> bool" where
  "sm_ok sm \<longleftrightarrow> (sm_state sm = Some SUPPLICANT \<or> sm_state sm = Some RADIUS) \<and>
     current_timeout sm \<noteq> None \<and> retry_action sm \<noteq> None \<and>
     (\<exists>n. current_retries sm = Some n \<and> n \<le> max_retry_count sm)"

text \<open>
  What an operation on a machine may do: keep the tables and leave a machine that is well formed, or
  end the authentication of its supplicant, with success only when \<open>acc\<close>.
\<close>

definition sm_effect :: "bool \<Rightarrow> auth_sm \<times> auth_world \<Rightarrow> auth_sm \<times> auth_world \<Rightarrow> bool" where
  "sm_effect acc s s' \<longleftrightarrow>
     (sm_ok (fst s') \<and> sm_src_mac (fst s') = sm_src_mac (fst s) \<and>
        state_machines (snd s') = state_machines (snd s) \<and> results (snd s') = results (snd s) \<or>
      (\<exists>b. state_machines (snd s') = dict_del (sm_src_mac (fst s)) (state_machines (snd s)) \<and>
        results (snd s') = dict_set (sm_src_mac (fst s)) b (results (snd s)) \<and> (b \<longrightarrow> acc))) \<and>
     (module_inv (w_radius (snd s)) \<longrightarrow> module_inv (w_radius (snd s'))) \<and>
     radius_secret (w_radius (snd s')) = radius_secret (w_radius (snd s))"

definition present :: "auth_sm \<times> auth_world \<Rightarrow> bool" where
  "present s \<longleftrightarrow> sm_src_mac (fst s) \<noteq> [] \<and> dict_get (state_machines (snd s)) (sm_src_mac (fst s)) \<noteq> None"

lemma sm_received_eapol_start_eq:
  assumes "sm_state (fst s) = Some START"
  shows "snd (sm_received_eapol_start now s) =
    ((fst s)\<lparr>sm_state := Some SUPPLICANT, current_timeout := Some (now + idle_time (fst s)),
       retry_action := Some (RetryEap (sm_src_mac (fst s)) None), current_retries := Some 0\<rparr>,
     snd (send_eap_response (sm_src_mac (fst s)) None (snd s)))"
  using assms
  by (cases s)
    (simp add: sm_received_eapol_start_def state_transition_def set_timeout_def set_retry_actions_def
      snd_then_op snd_zoom_snd)

lemma sm_learn_identity_frame [simp]:
  "sm_state (sm_learn_identity m sm) = sm_state sm" "sm_src_mac (sm_learn_identity m sm) = sm_src_mac sm"
  "sm_ok (sm_learn_identity m sm) = sm_ok sm"
  "authentication_mac (sm_learn_identity m sm) = authentication_mac sm"
  by (cases m; simp add: sm_learn_identity_def sm_ok_def)+

lemma sm_effect_eap_request:
  assumes "sm_ok (fst s)"
  shows "sm_effect False s (snd (sm_received_eap_request now m s))"
proof (cases s)
  case (Pair sm w)
  then have ok: "sm_ok sm" using assms by simp
  show ?thesis
  proof (cases "sm_state sm = Some SUPPLICANT")
    case False
    then show ?thesis using ok
      by (simp add: Pair sm_received_eap_request_def state_transition_def snd_then_op sm_effect_def op_simps)
  next
    case True
    show ?thesis
    proof (cases "port_id_to_int (authentication_mac sm)")
      case (Inl e)
      have "sm_ok (sm_learn_identity m sm\<lparr>sm_state := Some RADIUS\<rparr>)"
        using ok sm_learn_identity_frame(3) [of m sm] by (simp add: sm_ok_def)
      with True Inl show ?thesis
        by (simp add: Pair sm_received_eap_request_def state_transition_def snd_then_op sm_effect_def
            bind_op_def lift_op_def)
    next
      case (Inr p)
      with True show ?thesis
        by (simp add: Pair sm_received_eap_request_def state_transition_def snd_then_op sm_effect_def
            bind_op_def lift_op_def Let_def set_timeout_def set_retry_actions_def snd_zoom_snd
            send_radius_request_eq sm_ok_def)
    qed
  qed
qed

lemma sm_ends:
  assumes "present (sm, w)" "sm_src_mac sm' = sm_src_mac sm" "b \<longrightarrow> acc"
  shows "sm_effect acc (sm, w)
    (snd (then_op (zoom_snd (process_test_result (Some (sm_src_mac sm)) b)) (zoom_snd (send_eap_response x y)) (sm', w)))"
  using assms
  by (auto simp: present_def snd_then_op snd_zoom_snd fst_zoom_snd process_test_result_eq sm_effect_def
      split: sum.splits)

lemma sm_effect_radius_response:
  assumes "sm_ok (fst s)" "present s"
  shows "sm_effect (pt = RadiusAccessAccept \<and> sm_state (fst s) = Some RADIUS) s
    (snd (sm_received_radius_response now pl st pt s))"
proof (cases s)
  case (Pair sm w)
  then have ok: "sm_ok sm" "present (sm, w)" using assms by simp_all
  show ?thesis
  proof (cases "sm_state sm = Some RADIUS")
    case False
    then show ?thesis using ok
      by (cases pt) (simp_all add: Pair sm_received_radius_response_def Let_def state_transition_def
          then_op_def bind_op_def raise_op_def sm_effect_def sm_ok_def)
  next
    case True
    have r: "then_op (state_transition x (Some RADIUS)) n (sm\<lparr>radius_state := st\<rparr>, w) =
        n (sm\<lparr>radius_state := st, sm_state := Some x\<rparr>, w)" for x and n :: sm_op
      using True by (simp add: then_op_def bind_op_def state_transition_def)
    show ?thesis
    proof (cases pt)
      case RadiusAccessAccept
      with True r sm_ends [OF ok(2), of "sm\<lparr>radius_state := st, sm_state := Some sm_state.SUCCESS\<rparr>"] show ?thesis
        by (simp add: Pair sm_received_radius_response_def Let_def)
    next
      case RadiusAccessReject
      with True r sm_ends [OF ok(2), of "sm\<lparr>radius_state := st, sm_state := Some FAIL\<rparr>"] show ?thesis
        by (simp add: Pair sm_received_radius_response_def Let_def)
    next
      case RadiusAccessRequest
      with r show ?thesis
        by (simp add: Pair sm_received_radius_response_def Let_def set_timeout_def set_retry_actions_def
            snd_zoom_snd sm_effect_def sm_ok_def)
    next
      case RadiusAccessChallenge
      with r show ?thesis
        by (simp add: Pair sm_received_radius_response_def Let_def set_timeout_def set_retry_actions_def
            snd_zoom_snd sm_effect_def sm_ok_def)
    qed
  qed
qed

lemma run_retry_frame [simp]:
  "state_machines (snd (run_retry r w)) = state_machines w" "results (snd (run_retry r w)) = results w"
  "module_inv (w_radius (snd (run_retry r w))) = module_inv (w_radius w)"
  "radius_secret (w_radius (snd (run_retry r w))) = radius_secret (w_radius w)"
  by (simp_all add: run_retry_def send_radius_request_eq split: retry.splits)

lemma sm_handle_timeout_eq:
  "sm_handle_timeout (sm, w) =
     then_op (zoom_snd (process_test_result (Some (sm_src_mac sm)) False))
       (zoom_snd (send_eap_response (sm_src_mac sm) (Some (FailureMessage (MacStr (sm_src_mac sm)) 255))))
       (sm\<lparr>sm_state := Some FAIL, current_timeout := None\<rparr>, w)"
  by (simp add: sm_handle_timeout_def Let_def state_transition_def clear_timeout_def then_op_def bind_op_def)

lemma sm_effect_timer:
  assumes "sm_ok (fst s)" "present s"
  shows "sm_effect False s (snd (sm_handle_timer now s))"
proof (cases s)
  case (Pair sm w)
  then obtain t n r where sm: "current_timeout sm = Some t" "current_retries sm = Some n" "n \<le> max_retry_count sm"
    "retry_action sm = Some r" and ok: "sm_ok sm"
    using assms(1) by (auto simp: sm_ok_def)
  consider "t = 0 \<or> \<not> now > t" | "t \<noteq> 0" "now > t" "n < max_retry_count sm"
    | "t \<noteq> 0" "now > t" "\<not> n < max_retry_count sm" by blast
  then show ?thesis
  proof cases
    case 1
    then show ?thesis using sm ok by (simp add: Pair sm_handle_timer_def sm_effect_def ret_op_def)
  next
    case 2
    then show ?thesis using sm ok
      by (simp add: Pair sm_handle_timer_def sm_effect_def set_timeout_def snd_zoom_snd) (simp add: sm_ok_def)
  next
    case 3
    then show ?thesis
      using sm sm_ends [of sm w "sm\<lparr>sm_state := Some FAIL, current_timeout := None\<rparr>" False False] assms(2)
      by (simp add: Pair sm_handle_timer_def sm_handle_timeout_eq)
  qed
qed

subsection \<open>The invariant of the authenticator\<close>

definition auth_inv :: "auth_world \<Rightarrow> bool" where
  "auth_inv w \<longleftrightarrow> dict_ok (state_machines w) \<and> dict_ok (results w) \<and> module_inv (w_radius w) \<and>
     (\<forall>k sm. dict_get (state_machines w) k = Some sm \<longrightarrow>
        sm_ok sm \<and> sm_src_mac sm = k \<and> k \<noteq> [] \<and> dict_get (results w) k = None)"

text \<open>
  What a handler may do to the authenticator: keep the invariant, never change a result, and add a
  successful one only where \<open>acc\<close> says so.
\<close>

definition auth_effect :: "(ustr \<Rightarrow> bool) \<Rightarrow> auth_world \<Rightarrow> auth_world \<Rightarrow> bool" where
  "auth_effect acc w w' \<longleftrightarrow> auth_inv w' \<and>
     (\<forall>k b. dict_get (results w) k = Some b \<longrightarrow> dict_get (results w') k = Some b) \<and>
     (\<forall>k. dict_get (results w') k = Some True \<longrightarrow> dict_get (results w) k = Some True \<or> acc k) \<and>
     radius_secret (w_radius w') = radius_secret (w_radius w)"

lemma auth_effect_refl: "auth_inv w \<Longrightarrow> auth_effect acc w w"
  by (simp add: auth_effect_def)

lemma auth_effect_trans: "auth_effect acc w w' \<Longrightarrow> auth_effect acc w' w'' \<Longrightarrow> auth_effect acc w w''"
  by (auto simp: auth_effect_def)

lemma auth_effect_mono: "auth_effect acc w w' \<Longrightarrow> (\<And>k. acc k \<Longrightarrow> acc' k) \<Longrightarrow> auth_effect acc' w w'"
  by (auto simp: auth_effect_def)

lemma auth_effect_same:
  assumes "auth_inv w" "state_machines w' = state_machines w" "results w' = results w"
    "module_inv (w_radius w')" "radius_secret (w_radius w') = radius_secret (w_radius w)"
  shows "auth_effect acc w w'"
  using assms by (simp add: auth_effect_def auth_inv_def)

lemma auth_effect_from_eap: "auth_effect acc (w\<lparr>w_eap := m\<rparr>) w' = auth_effect acc w w'"
  by (simp add: auth_effect_def)

lemma auth_effect_rx:
  "auth_effect acc w (snd rw) \<Longrightarrow> auth_effect acc w (rx_result (\<lambda>w. w\<lparr>eap_rx_alive := x\<rparr>) rw)"
  "auth_effect acc w (snd rw) \<Longrightarrow> auth_effect acc w (rx_result (\<lambda>w. w\<lparr>radius_rx_alive := x\<rparr>) rw)"
  by (cases rw; cases "fst rw"; simp add: auth_effect_def auth_inv_def rx_result_def)+

lemma on_sm_effect:
  assumes inv: "auth_inv w"
    and f: "\<And>sm. dict_get (state_machines w) src = Some sm \<Longrightarrow> sm_effect (acc sm) (sm, w) (snd (f (sm, w)))"
  shows "auth_effect (\<lambda>k. k = src \<and> (\<exists>sm. dict_get (state_machines w) src = Some sm \<and> acc sm)) w (snd (on_sm src f w))"
proof (cases "dict_get (state_machines w) src")
  case None
  then show ?thesis using inv by (simp add: on_sm_def raise_op_def auth_effect_refl)
next
  case (Some sm)
  obtain sm' w' where sw: "snd (f (sm, w)) = (sm', w')" by (cases "snd (f (sm, w))")
  then have res: "snd (on_sm src f w) = store_sm src sm' w'"
    using Some by (auto simp: on_sm_def split: prod.splits)
  have src: "sm_src_mac sm = src" "sm_ok sm" "src \<noteq> []" "dict_get (results w) src = None"
    using inv Some by (auto simp: auth_inv_def)
  from f [OF Some] sw src consider
    (keep) "sm_ok sm'" "sm_src_mac sm' = src" "state_machines w' = state_machines w" "results w' = results w"
      "module_inv (w_radius w')" "radius_secret (w_radius w') = radius_secret (w_radius w)"
    | (finish) b where "state_machines w' = dict_del src (state_machines w)"
      "results w' = dict_set src b (results w)" "b \<longrightarrow> acc sm"
      "module_inv (w_radius w')" "radius_secret (w_radius w') = radius_secret (w_radius w)"
    using inv by (auto simp: sm_effect_def auth_inv_def)
  then show ?thesis
  proof cases
    case keep
    with inv Some src show ?thesis
      by (auto simp: res store_sm_def auth_effect_def auth_inv_def dict_get_set split: if_splits)
  next
    case finish
    then have "store_sm src sm' w' = w'" by (simp add: store_sm_def dict_get_del)
    with finish inv Some src show ?thesis
      by (auto simp: res auth_effect_def auth_inv_def dict_get_set dict_get_del split: if_splits)
  qed
qed

lemma present_of_inv: "auth_inv w \<Longrightarrow> dict_get (state_machines w) src = Some sm \<Longrightarrow> present (sm, w) \<and> sm_ok sm"
  by (auto simp: auth_inv_def present_def)

lemma received_radius_response_effect:
  assumes "auth_inv w"
  shows "auth_effect (\<lambda>k. k = src \<and> (\<exists>sm. dict_get (state_machines w) src = Some sm \<and>
      pt = RadiusAccessAccept \<and> sm_state sm = Some RADIUS)) w
    (snd (received_radius_response now src attrs pt w))"
  unfolding received_radius_response_def
  by (rule on_sm_effect [OF assms], drule present_of_inv [OF assms])
    (metis sm_effect_radius_response fst_conv)

lemma timers_effect: "auth_inv w \<Longrightarrow> auth_effect (\<lambda>_. False) w (snd (timers now n srcs w))"
proof (induction srcs arbitrary: w)
  case Nil
  then show ?case by (simp add: ret_op_def auth_effect_refl)
next
  case (Cons src srcs)
  let ?w = "snd (on_sm src (sm_handle_timer now) w)"
  have "auth_effect (\<lambda>k. k = src \<and> (\<exists>sm. dict_get (state_machines w) src = Some sm \<and> False)) w ?w"
    by (rule on_sm_effect [OF Cons.prems], drule present_of_inv [OF Cons.prems])
      (metis sm_effect_timer fst_conv)
  then have w: "auth_effect (\<lambda>_. False) w ?w" by (rule auth_effect_mono) simp
  then have "auth_inv ?w" by (simp add: auth_effect_def)
  then have "auth_effect (\<lambda>_. False) ?w (snd (timers now n srcs ?w))" by (rule Cons.IH)
  with w show ?case
    by (auto simp: snd_then_op raise_op_def split: sum.splits intro: auth_effect_trans)
qed

lemma handle_sm_timeout_effect: "auth_inv w \<Longrightarrow> auth_effect (\<lambda>_. False) w (snd (handle_sm_timeout now w))"
  using timers_effect [of w now "length (state_machines w)" "dict_keys (state_machines w)"]
  by (auto simp: handle_sm_timeout_def process_test_result_None ret_op_def auth_effect_refl
      intro!: auth_effect_same simp: auth_inv_def)

lemma add_state_machine_eq:
  "add_state_machine now src w =
     w\<lparr>state_machines := dict_set src
        \<lparr>sm_state = Some START, sm_src_mac = src, identity = None, authentication_mac = get_auth_mac (w_eap w),
         radius_state = None, idle_time = w_idle_time w, max_retry_count = w_max_retry_count w,
         current_timeout = Some (now + w_idle_time w), retry_action = Some (RetryEap src None),
         current_retries = Some 0\<rparr> (state_machines w)\<rparr>"
  by (simp add: add_state_machine_def sm_initialize_def state_transition_def set_timeout_def
      set_retry_actions_def auth_sm_init_def then_op_def bind_op_def)

text \<open>
  Between the creation of a machine and the end of \<open>received_eapol_start\<close> it is in the start
  state; the handler never leaves it there.
\<close>

lemma received_eap_request_effect:
  assumes inv: "auth_inv w" and src: "src \<noteq> []"
  shows "auth_effect (\<lambda>_. False) w (snd (received_eap_request now src m is_eapol w))"
proof (cases is_eapol)
  case False
  have "auth_effect (\<lambda>k. k = src \<and> (\<exists>sm. dict_get (state_machines w) src = Some sm \<and> False)) w
      (snd (on_sm src (sm_received_eap_request now m) w))"
    by (rule on_sm_effect [OF inv], drule present_of_inv [OF inv]) (metis sm_effect_eap_request fst_conv)
  then show ?thesis using False by (auto simp: received_eap_request_def intro: auth_effect_mono)
next
  case True
  show ?thesis
  proof (cases "dict_get (state_machines w) src = None \<and> dict_get (results w) src = None")
    case False
    with True inv show ?thesis by (auto simp: received_eap_request_def ret_op_def auth_effect_refl)
  next
    case new: True
    let ?w = "add_state_machine now src w"
    obtain sm where sm: "dict_get (state_machines ?w) src = Some sm" "sm_state sm = Some START"
      "sm_src_mac sm = src" "max_retry_count sm = w_max_retry_count w"
      by (auto simp: add_state_machine_eq dict_get_set)
    let ?sm = "sm\<lparr>sm_state := Some SUPPLICANT, current_timeout := Some (now + idle_time sm),
      retry_action := Some (RetryEap src None), current_retries := Some 0\<rparr>"
    let ?w' = "snd (send_eap_response src None ?w)"
    have "snd (received_eap_request now src m is_eapol w) = store_sm src ?sm ?w'"
      using True new sm(1,3) sm_received_eapol_start_eq [of "(sm, ?w)" now] sm(2)
      by (auto simp: received_eap_request_def on_sm_def split: prod.splits)
    moreover have "sm_ok ?sm" by (simp add: sm_ok_def)
    ultimately show ?thesis
      using inv src new sm(3)
      by (auto simp: auth_effect_def auth_inv_def store_sm_def dict_get_set add_state_machine_eq
          split: if_splits)
  qed
qed

lemma mac_str_nonempty: "length (address mac) = 6 \<Longrightarrow> mac_str mac \<noteq> []"
  using split_mac_str [of mac] by (cases "address mac") auto

lemma eap_frame_step_effect:
  assumes "auth_inv w"
  shows "auth_effect (\<lambda>_. False) w (eap_frame_step now frame w)"
proof (cases "eap_rx_alive w")
  case False
  then show ?thesis using assms by (simp add: eap_frame_step_def auth_effect_refl)
next
  case True
  obtain out m where out: "receive_eap_step frame (w_eap w) = (out, m)"
    by (cases "receive_eap_step frame (w_eap w)")
  show ?thesis
  proof (cases out)
    case (EapCallback src msg is_eapol)
    then obtain bs where bs: "frame = Some bs" using out by (cases frame) (simp_all add: receive_eap_step_def)
    have "receive_eap_step (Some bs) (w_eap w) = (EapCallback src msg is_eapol, m)"
      using out EapCallback bs by simp
    from receive_eap_callback [OF this] obtain mac dst where p: "ethernet_parse bs = Inr (msg, dst)"
      "message_src_mac msg = MacObj mac" "src = mac_str mac" by blast
    from ethernet_parse_src [OF p(1)] have "length (address mac) = 6" unfolding p(2) by blast
    with p(3) have src: "src \<noteq> []" by (simp only: mac_str_nonempty not_False_eq_True)
    have inv: "auth_inv (w\<lparr>w_eap := m\<rparr>)" using assms by (simp add: auth_inv_def)
    from received_eap_request_effect [OF inv src, of now msg is_eapol] have
      "auth_effect (\<lambda>_. False) w (snd (received_eap_request now src msg is_eapol (w\<lparr>w_eap := m\<rparr>)))"
      by (simp only: auth_effect_from_eap)
    from auth_effect_rx(1) [OF this] show ?thesis using True out EapCallback by (simp add: eap_frame_step_def)
  qed (use assms True out in \<open>auto simp: eap_frame_step_def intro!: auth_effect_same simp: auth_inv_def\<close>)
qed

lemma send_radius_step_module_inv:
  "module_inv m \<Longrightarrow> length urandom = 16 \<Longrightarrow> module_inv (send_radius_step hmac urandom m)"
proof -
  assume inv: "module_inv m" and len: "length urandom = 16"
  have upd: "module_inv (m\<lparr>rad_pc := x\<rparr>) = module_inv m" "module_inv (m\<lparr>rad_sent := y\<rparr>) = module_inv m"
    "module_inv (m\<lparr>rad_queue := q\<rparr>) = module_inv m" for m :: radius_module and x y q
    by (simp_all add: module_inv_def)
  have enc: "module_inv m'" if "encode_radius_response hmac urandom info (m\<lparr>rad_queue := q\<rparr>) = (r, m')" for info q r m'
    using module_inv_encode [of "m\<lparr>rad_queue := q\<rparr>" urandom hmac info] that inv len upd by simp
  show "module_inv (send_radius_step hmac urandom m)"
    using inv enc by (auto simp: send_radius_step_def upd split: pc.splits list.splits option.splits prod.splits sum.splits)
qed

lemma send_radius_step_secret [simp]: "radius_secret (send_radius_step hmac urandom m) = radius_secret m"
  by (auto simp: send_radius_step_def split: pc.splits list.splits option.splits prod.splits sum.splits
      dest!: encode_radius_response_frame)

text \<open>The events whose random bytes are what \<open>os.urandom(16)\<close> may return.\<close>

definition event_ok :: "real \<times> auth_event \<Rightarrow> bool" where
  "event_ok ev \<longleftrightarrow> (case snd ev of RadiusSender urandom \<Rightarrow> length urandom = 16 | _ \<Rightarrow> True)"

text \<open>The event that makes an authentication succeed.\<close>

definition accepts ::
    "(bytes \<Rightarrow> bytes) \<Rightarrow> (bytes \<Rightarrow> bytes \<Rightarrow> bytes) \<Rightarrow> auth_world \<Rightarrow> real \<times> auth_event \<Rightarrow> ustr \<Rightarrow> bool" where
  "accepts md5 hmac w ev src \<longleftrightarrow>
     (case snd ev of
        RadiusDatagram bs \<Rightarrow>
          (case receive_radius_step md5 hmac bs (w_radius w) of
             RadiusCallback src' attrs pt \<Rightarrow> src' = src \<and> pt = RadiusAccessAccept \<and>
               map_option sm_state (dict_get (state_machines w) src) = Some (Some RADIUS)
           | _ \<Rightarrow> False)
      | _ \<Rightarrow> False)"

lemma radius_datagram_step_effect:
  assumes "auth_inv w"
  shows "auth_effect (accepts md5 hmac w (now, RadiusDatagram bs)) w (radius_datagram_step md5 hmac now bs w)"
proof (cases "radius_rx_alive w")
  case False
  then show ?thesis using assms by (simp add: radius_datagram_step_def auth_effect_refl)
next
  case True
  show ?thesis
  proof (cases "receive_radius_step md5 hmac bs (w_radius w)")
    case (RadiusCallback src attrs pt)
    have "auth_effect (accepts md5 hmac w (now, RadiusDatagram bs)) w (snd (received_radius_response now src attrs pt w))"
      by (rule auth_effect_mono [OF received_radius_response_effect [OF assms]])
        (auto simp: accepts_def RadiusCallback)
    from auth_effect_rx(2) [OF this] show ?thesis using True RadiusCallback by (simp add: radius_datagram_step_def)
  qed (use assms True in \<open>auto simp: radius_datagram_step_def intro!: auth_effect_same simp: auth_inv_def\<close>)
qed

lemma auth_step_effect:
  assumes "auth_inv w" "event_ok ev"
  shows "auth_effect (accepts md5 hmac w ev) w (auth_step md5 hmac w ev)"
proof (cases ev)
  case (Pair now e)
  show ?thesis
  proof (cases e)
    case (EapFrame frame)
    then show ?thesis using eap_frame_step_effect [OF assms(1), of now frame]
      by (auto simp: Pair auth_step_def intro: auth_effect_mono)
  next
    case (RadiusDatagram bs)
    then show ?thesis using radius_datagram_step_effect [OF assms(1)] by (simp add: Pair auth_step_def)
  next
    case Tick
    then show ?thesis using handle_sm_timeout_effect [OF assms(1), of now] assms(1)
      by (auto simp: Pair auth_step_def periodic_task_def auth_effect_refl intro: auth_effect_mono)
  next
    case (EapSender b)
    then show ?thesis using assms(1) by (auto simp: Pair auth_step_def intro!: auth_effect_same simp: auth_inv_def)
  next
    case (RadiusSender u)
    then show ?thesis using assms send_radius_step_module_inv [of "w_radius w" u hmac]
      by (auto simp: Pair auth_step_def event_ok_def intro!: auth_effect_same simp: auth_inv_def)
  qed
qed

subsection \<open>Runs of the authenticator\<close>

lemma auth_inv_setup: "auth_inv (auth_setup now mac secret rid)"
  by (simp add: auth_inv_def auth_setup_def module_inv_init)

interpretation authenticator: machine "auth_setup now mac secret rid" "auth_step md5 hmac" event_ok auth_inv
  for now mac secret rid md5 hmac
  using auth_step_effect by unfold_locales (auto simp: auth_inv_setup auth_effect_def)

lemma auth_run_results:
  "auth_inv w \<Longrightarrow> list_all event_ok es \<Longrightarrow> dict_get (results w) k = Some b \<Longrightarrow>
     dict_get (results (auth_run md5 hmac w es)) k = Some b"
proof (induction es arbitrary: w)
  case (Cons ev es)
  then have "auth_effect (accepts md5 hmac w ev) w (auth_step md5 hmac w ev)"
    by (intro auth_step_effect) simp_all
  with Cons show ?case by (auto simp: auth_run_def auth_effect_def)
qed (simp add: auth_run_def)

lemma auth_run_secret:
  "auth_inv w \<Longrightarrow> list_all event_ok es \<Longrightarrow>
     radius_secret (w_radius (auth_run md5 hmac w es)) = radius_secret (w_radius w)"
proof (induction es arbitrary: w)
  case (Cons ev es)
  then have "auth_effect (accepts md5 hmac w ev) w (auth_step md5 hmac w ev)"
    by (intro auth_step_effect) simp_all
  with Cons show ?case by (auto simp: auth_run_def auth_effect_def)
qed (simp add: auth_run_def)

lemma success_has_cause:
  assumes "list_all event_ok es"
    and "dict_get (results (auth_run md5 hmac (auth_setup now mac secret rid) es)) src = Some True"
  shows "\<exists>es1 ev es2. es = es1 @ ev # es2 \<and> auth_inv (auth_run md5 hmac (auth_setup now mac secret rid) es1) \<and>
    accepts md5 hmac (auth_run md5 hmac (auth_setup now mac secret rid) es1) ev src"
  unfolding auth_run_def
proof (rule authenticator.first_step [where P = "\<lambda>w. dict_get (results w) src = Some True"
      and C = "\<lambda>w ev. accepts md5 hmac w ev src"])
  show "\<not> dict_get (results (auth_setup now mac secret rid)) src = Some True"
    by (simp add: auth_setup_def)
  fix w ev
  assume "auth_inv w" "event_ok ev" "dict_get (results (auth_step md5 hmac w ev)) src = Some True"
  with auth_step_effect [of w ev md5 hmac] show "dict_get (results w) src = Some True \<or> accepts md5 hmac w ev src"
    by (auto simp: auth_effect_def)
qed (use assms auth_inv_setup in \<open>auto simp: auth_run_def\<close>)

text \<open>An authentication only succeeds on an Access-Accept that the shared secret authenticates.\<close>

lemma success_authentic:
  assumes "list_all event_ok es" "utf8_encode s = Inr key"
    and "dict_get (results (auth_run md5 hmac (auth_setup now mac (Some s) rid) es)) src = Some True"
  shows "\<exists>es1 t bs es2 p port ra. es = es1 @ (t, RadiusDatagram bs) # es2 \<and>
    datagram_holds bs p \<and> rclass p = RadiusAccessAccept \<and>
    (let m = w_radius (auth_run md5 hmac (auth_setup now mac (Some s) rid) es1)
     in dict_get (packet_id_to_mac m) (packet_id p) = Some (src, port) \<and>
        dict_get (packet_id_to_request_authenticator m) (packet_id p) = Some ra) \<and>
    response_auth_valid md5 key ra p \<and> message_auth_valid hmac key ra p"
proof -
  let ?w = "\<lambda>es. auth_run md5 hmac (auth_setup now mac (Some s) rid) es"
  obtain es1 ev es2 where es: "es = es1 @ ev # es2" and inv: "auth_inv (?w es1)" and acc: "accepts md5 hmac (?w es1) ev src"
    using success_has_cause [OF assms(1,3)] by blast
  obtain t bs attrs where ev: "ev = (t, RadiusDatagram bs)"
    and cb: "receive_radius_step md5 hmac bs (w_radius (?w es1)) = RadiusCallback src attrs RadiusAccessAccept"
    using acc by (cases ev) (auto simp: accepts_def split: auth_event.splits radius_outcome.splits)
  have "list_all event_ok es1" using assms(1) es by simp
  from auth_run_secret [OF auth_inv_setup this] have sec: "radius_secret (w_radius (?w es1)) = Some s"
    by (simp add: auth_setup_def radius_module_init_def)
  have "module_inv (w_radius (?w es1))" using inv by (simp add: auth_inv_def)
  from receive_radius_authentic [OF cb sec assms(2) _ this] es ev show ?thesis
    unfolding Let_def by blast
qed

subsection \<open>Timeouts\<close>

fun late_ticks :: "real \<Rightarrow> real \<Rightarrow> real list \<Rightarrow> bool" where
  \<comment> \<open>each tick comes after the timeout that the previous one set\<close>
  "late_ticks idle t [] = True"
| "late_ticks idle t (x # xs) = (t < x \<and> late_ticks idle (x + idle) xs)"

lemma run_retry_more [simp]:
  "timer_run (snd (run_retry r w)) = timer_run w"
  by (simp add: run_retry_def send_radius_request_eq send_eap_response_def on_eap_def split: retry.splits option.splits prod.splits)

lemma run_retry_socket [simp]:
  "rad_socket_open (w_radius (snd (run_retry r w))) = rad_socket_open (w_radius w)"
  by (simp add: run_retry_def send_radius_request_eq send_eap_response_def on_eap_def send_radius_packet_def
      split: retry.splits option.splits prod.splits)

lemma send_eap_message_shut_down: "eap_shut_down (snd (send_eap_message src m e)) = eap_shut_down e"
  by (auto simp: send_eap_message_def bind_op_def lift_op_def modify_op_def send_packed_eap_message_def
      split: sum.splits)

lemma send_eap_response_shut_down:
  "eap_shut_down (w_eap (snd (send_eap_response src (Some m) w))) = eap_shut_down (w_eap w)"
  "state_machines (snd (send_eap_response src (Some m) w)) = state_machines w"
  "results (snd (send_eap_response src (Some m) w)) = results w"
  "timer_run (snd (send_eap_response src (Some m) w)) = timer_run w"
  "w_radius (snd (send_eap_response src (Some m) w)) = w_radius w"
  using send_eap_message_shut_down [of src m "w_eap w"]
  by (auto simp: send_eap_response_def on_eap_def split: prod.splits)

lemma tick_one:
  assumes "state_machines w = [(src, sm)]" "timer_run w"
  shows "auth_step md5 hmac w (now, Tick) = snd (on_sm src (sm_handle_timer now) w)"
  using assms
  by (auto simp: auth_step_def periodic_task_def handle_sm_timeout_def op_simps split: prod.splits sum.splits)

lemma tick_retries:
  assumes "state_machines w = [(src, sm)]" "timer_run w" "current_timeout sm = Some t" "t \<noteq> 0" "t < now"
    "current_retries sm = Some n" "n < max_retry_count sm" "retry_action sm = Some r"
  shows "state_machines (auth_step md5 hmac w (now, Tick)) =
      [(src, sm\<lparr>current_retries := Some (n + 1), current_timeout := Some (now + idle_time sm)\<rparr>)]"
    and "timer_run (auth_step md5 hmac w (now, Tick))"
    and "rad_socket_open (w_radius (auth_step md5 hmac w (now, Tick))) = rad_socket_open (w_radius w)"
proof -
  have "sm_handle_timer now (sm, w) = zoom_snd (run_retry r)
      (sm\<lparr>current_retries := Some (n + 1), current_timeout := Some (now + idle_time sm)\<rparr>, w)"
    using assms by (simp add: sm_handle_timer_def set_timeout_def)
  then have "auth_step md5 hmac w (now, Tick) =
      store_sm src (sm\<lparr>current_retries := Some (n + 1), current_timeout := Some (now + idle_time sm)\<rparr>) (snd (run_retry r w))"
    unfolding tick_one [OF assms(1,2)]
    using assms(1) by (simp add: on_sm_def zoom_snd_def split: prod.splits)
  then show "state_machines (auth_step md5 hmac w (now, Tick)) =
      [(src, sm\<lparr>current_retries := Some (n + 1), current_timeout := Some (now + idle_time sm)\<rparr>)]"
    and "timer_run (auth_step md5 hmac w (now, Tick))"
    and "rad_socket_open (w_radius (auth_step md5 hmac w (now, Tick))) = rad_socket_open (w_radius w)"
    using assms(1,2) by (simp_all add: store_sm_def)
qed

lemma tick_fails:
  assumes "state_machines w = [(src, sm)]" "timer_run w" "current_timeout sm = Some t" "t \<noteq> 0" "t < now"
    "current_retries sm = Some n" "\<not> n < max_retry_count sm" "sm_src_mac sm = src" "src \<noteq> []"
  shows "dict_get (results (auth_step md5 hmac w (now, Tick))) src = Some False \<and>
    state_machines (auth_step md5 hmac w (now, Tick)) = [] \<and> \<not> timer_run (auth_step md5 hmac w (now, Tick)) \<and>
    rad_shut_down (w_radius (auth_step md5 hmac w (now, Tick))) \<and>
    (rad_socket_open (w_radius w) \<longrightarrow> eap_shut_down (w_eap (auth_step md5 hmac w (now, Tick))))"
proof -
  let ?w = "w\<lparr>results := dict_set src False (results w), state_machines := []\<rparr>"
  have "snd (sm_handle_timer now (sm, w)) = snd (then_op (zoom_snd (process_test_result (Some src) False))
       (zoom_snd (send_eap_response src (Some (FailureMessage (MacStr src) 255))))
       (sm\<lparr>sm_state := Some FAIL, current_timeout := None\<rparr>, w))"
    using assms by (simp add: sm_handle_timer_def sm_handle_timeout_eq)
  moreover have "process_test_result (Some src) False w = end_authentication ?w"
    using assms(1,9) by (simp add: process_test_result_eq)
  ultimately have "\<exists>w'. snd (snd (sm_handle_timer now (sm, w))) = w' \<and> state_machines w' = [] \<and>
      results w' = dict_set src False (results w) \<and> \<not> timer_run w' \<and> rad_shut_down (w_radius w') \<and>
      (rad_socket_open (w_radius w) \<longrightarrow> eap_shut_down (w_eap w'))"
    by (auto simp: snd_then_op snd_zoom_snd fst_zoom_snd end_authentication_eq radius_shut_down_module_def
        eap_shut_down_module_def send_eap_response_shut_down split: if_splits prod.splits)
  moreover have "auth_step md5 hmac w (now, Tick) =
      store_sm src (fst (snd (sm_handle_timer now (sm, w)))) (snd (snd (sm_handle_timer now (sm, w))))"
    unfolding tick_one [OF assms(1,2)] using assms(1) by (simp add: on_sm_def split: prod.splits)
  ultimately show ?thesis by (auto simp: store_sm_def dict_get_set)
qed

lemma timeout_fails:
  assumes "state_machines w = [(src, sm)]" "timer_run w" "sm_src_mac sm = src" "src \<noteq> []"
    "current_timeout sm = Some t" "0 < t" "0 \<le> idle_time sm" "retry_action sm \<noteq> None"
    "current_retries sm = Some n" "n \<le> max_retry_count sm"
    "length ts = max_retry_count sm - n + 1" "late_ticks (idle_time sm) t ts"
  shows "dict_get (results (auth_run md5 hmac w (map (\<lambda>x. (x, Tick)) ts))) src = Some False \<and>
    state_machines (auth_run md5 hmac w (map (\<lambda>x. (x, Tick)) ts)) = [] \<and>
    \<not> timer_run (auth_run md5 hmac w (map (\<lambda>x. (x, Tick)) ts)) \<and>
    rad_shut_down (w_radius (auth_run md5 hmac w (map (\<lambda>x. (x, Tick)) ts))) \<and>
    (rad_socket_open (w_radius w) \<longrightarrow> eap_shut_down (w_eap (auth_run md5 hmac w (map (\<lambda>x. (x, Tick)) ts))))"
  using assms
proof (induction ts arbitrary: w sm n t)
  case (Cons x xs)
  show ?case
  proof (cases "n < max_retry_count sm")
    case True
    from Cons.prems obtain r where r: "retry_action sm = Some r" by auto
    let ?w = "auth_step md5 hmac w (x, Tick)"
    let ?sm = "sm\<lparr>current_retries := Some (n + 1), current_timeout := Some (x + idle_time sm)\<rparr>"
    have "state_machines ?w = [(src, ?sm)]" "timer_run ?w"
      and same: "rad_socket_open (w_radius ?w) = rad_socket_open (w_radius w)"
      using tick_retries [of w src sm t x n r md5 hmac] Cons.prems r True by auto
    then have "dict_get (results (auth_run md5 hmac ?w (map (\<lambda>x. (x, Tick)) xs))) src = Some False \<and>
        state_machines (auth_run md5 hmac ?w (map (\<lambda>x. (x, Tick)) xs)) = [] \<and>
        \<not> timer_run (auth_run md5 hmac ?w (map (\<lambda>x. (x, Tick)) xs)) \<and>
        rad_shut_down (w_radius (auth_run md5 hmac ?w (map (\<lambda>x. (x, Tick)) xs))) \<and>
        (rad_socket_open (w_radius w) \<longrightarrow> eap_shut_down (w_eap (auth_run md5 hmac ?w (map (\<lambda>x. (x, Tick)) xs))))"
      unfolding same [symmetric] using Cons.prems True by (intro Cons.IH [of ?w ?sm "x + idle_time sm" "n + 1"]) auto
    then show ?thesis by (simp add: auth_run_def)
  next
    case False
    with Cons.prems have "xs = []" by simp
    with tick_fails [of w src sm t x n md5 hmac] Cons.prems False show ?thesis by (simp add: auth_run_def)
  qed
qed simp

subsection \<open>The verdict\<close>

lemma result_loop_verdict:
  "snd (result_loop rs (s, v)) = (if \<forall>(k, b)\<in>set rs. b then v else ''fail'')"
  by (induction rs arbitrary: s v) (auto split: prod.splits)

lemma authentication_verdict_eq:
  "snd (authentication_verdict res) =
     (if res = [] then ''skip'' else if \<forall>(k, b)\<in>set res. b then ''pass'' else ''fail'')"
  by (simp add: authentication_verdict_def result_loop_verdict)

subsection \<open>Messages that are lost and threads that end\<close>

lemma accept_queues_after_shutdown:
  assumes "dict_get (state_machines w) src = Some sm" "sm_state sm = Some RADIUS" "sm_src_mac sm = src" "src \<noteq> []"
    "rpa_eap_message attrs = Some m"
    "received_radius_response now src attrs RadiusAccessAccept w = (Inr (), w')"
  shows "\<exists>frame. w_eap w' = send_packed_eap_message frame (eap_shut_down_module (w_eap w))"
proof -
  let ?sm = "sm\<lparr>radius_state := rpa_state attrs, sm_state := Some sm_state.SUCCESS\<rparr>"
  have "sm_received_radius_response now (Some m) (rpa_state attrs) RadiusAccessAccept (sm, w) =
      then_op (zoom_snd (process_test_result (Some src) True)) (zoom_snd (send_eap_response src (Some m))) (?sm, w)"
    using assms(2,3) by (simp add: sm_received_radius_response_def Let_def state_transition_def then_op_def bind_op_def)
  moreover have "process_test_result (Some src) True w =
      end_authentication (w\<lparr>results := dict_set src True (results w), state_machines := dict_del src (state_machines w)\<rparr>)"
    using assms(1,4) by (simp add: process_test_result_eq)
  ultimately show ?thesis
    using assms(1,5,6)
    by (auto simp: received_radius_response_def on_sm_def then_op_def bind_op_def zoom_snd_def end_authentication_eq
        store_sm_def send_eap_response_def on_eap_def send_eap_message_def lift_op_def
        split: prod.splits sum.splits if_splits)
qed

lemma stray_frame_ends_reception:
  assumes "eap_rx_alive w" "bs \<noteq> []" "ethernet_parse bs = Inr (m, dst)" "\<not> is_eapol_start m"
    "dict_get (state_machines w) (mac_ref_str (message_src_mac m)) = None"
  shows "eap_frame_step now (Some bs) w = w\<lparr>eap_rx_alive := False\<rparr>"
  using assms
  by (simp add: eap_frame_step_def receive_eap_step_def received_eap_request_def on_sm_def raise_op_def rx_result_def)

lemma eap_reception_stays_ended:
  "\<not> eap_rx_alive w \<Longrightarrow> eap_frame_step now frame w = w"
  by (simp add: eap_frame_step_def)

subsection \<open>Properties\<close>

text \<open>The run of one successful authentication, with constant functions for the digests.\<close>

definition example_src :: bytes where
  "example_src = [2, 66, 172, 23, 0, 111]"

definition example_zero :: bytes where
  "example_zero = replicate 16 0"

definition example_start_frame :: bytes where
  "example_start_frame = [1, 128, 194, 0, 0, 3] @ example_src @ [0x88, 0x8e, 1, 1, 0, 0]"

definition example_identity_frame :: bytes where
  "example_identity_frame = [1, 128, 194, 0, 0, 3] @ example_src @ [0x88, 0x8e, 1, 0, 0, 6, 2, 7, 0, 6, 1, 117]"

definition example_world :: auth_world where
  "example_world = auth_setup 0 \<lparr>address = [2, 66, 172, 24, 0, 112]\<rparr> (Some [65]) [66]"

definition example_events :: "(real \<times> auth_event) list" where
  "example_events =
     [(1, EapFrame (Some example_start_frame)), (2, EapFrame (Some example_identity_frame)),
      (3, RadiusSender example_zero), (3, RadiusSender example_zero),
      (4, RadiusDatagram ([2, 0, 0, 20] @ example_zero))]"

lemma example_run_succeeds:
  "dict_get (results (auth_run (\<lambda>x. example_zero) (\<lambda>k x. example_zero) example_world example_events))
     (mac_str \<lparr>address = example_src\<rparr>) = Some True"
  by code_simp

lemma example_events_ok: "list_all event_ok example_events"
  by (simp add: example_events_def event_ok_def example_zero_def)

text \<open>C1: whatever frames, datagrams and timer ticks arrive, in whatever order, a supplicant is only
  recorded as authenticated after a datagram that holds an Access-Accept which answers a request
  sent for that supplicant: the code, identifier, authenticator and attributes read from the bytes of
  that datagram are those of an Access-Accept, the tables of the module at its arrival give its
  identifier to the supplicant, and it carries the response authenticator (and, if present, the
  Message-Authenticator) which the shared secret gives for the authenticator of that request.\<close>

theorem success_only_by_authentic_accept:
  assumes "list_all event_ok es" "utf8_encode s = Inr key"
    and "dict_get (results (auth_run md5 hmac (auth_setup now mac (Some s) rid) es)) src = Some True"
  shows "\<exists>es1 t bs es2 p port ra. es = es1 @ (t, RadiusDatagram bs) # es2 \<and>
    datagram_holds bs p \<and> rclass p = RadiusAccessAccept \<and>
    (let m = w_radius (auth_run md5 hmac (auth_setup now mac (Some s) rid) es1)
     in dict_get (packet_id_to_mac m) (packet_id p) = Some (src, port) \<and>
        dict_get (packet_id_to_request_authenticator m) (packet_id p) = Some ra) \<and>
    response_auth_valid md5 key ra p \<and> message_auth_valid hmac key ra p"
  by (rule success_authentic [OF assms])

lemma success_only_by_authentic_accept_witness:
  "\<exists>es1 t bs es2 p port ra. example_events = es1 @ (t, RadiusDatagram bs) # es2 \<and>
    datagram_holds bs p \<and> rclass p = RadiusAccessAccept \<and>
    dict_get (packet_id_to_mac (w_radius (auth_run (\<lambda>x. example_zero) (\<lambda>k x. example_zero) example_world es1)))
      (packet_id p) = Some (mac_str \<lparr>address = example_src\<rparr>, port) \<and>
    dict_get (packet_id_to_request_authenticator
      (w_radius (auth_run (\<lambda>x. example_zero) (\<lambda>k x. example_zero) example_world es1))) (packet_id p) = Some ra \<and>
    response_auth_valid (\<lambda>x. example_zero) [65] ra p \<and> message_auth_valid (\<lambda>k x. example_zero) [65] ra p"
proof -
  have "utf8_encode [65] = Inr [65]" by (simp add: scalar_value_def utf8_char_def byte_of_def)
  from success_only_by_authentic_accept [OF example_events_ok this
      example_run_succeeds [unfolded example_world_def]]
  show ?thesis unfolding example_world_def Let_def by (simp only: conj_assoc)
qed

text \<open>C25: in every run, each machine the authenticator holds is talking to the supplicant or to the
  server, has a timeout and a retry action, has retried at most \<open>RETRY_COUNT\<close> times per message
  exchange as its limit says, belongs to the address it is filed under, and that address has no
  result yet.\<close>

theorem machines_well_formed:
  assumes "list_all event_ok es"
    and "dict_get (state_machines (auth_run md5 hmac (auth_setup now mac secret rid) es)) src = Some sm"
  shows "sm_state sm \<in> {Some SUPPLICANT, Some RADIUS} \<and> current_timeout sm \<noteq> None \<and> retry_action sm \<noteq> None \<and>
    (\<exists>n. current_retries sm = Some n \<and> n \<le> max_retry_count sm) \<and> sm_src_mac sm = src \<and>
    dict_get (results (auth_run md5 hmac (auth_setup now mac secret rid) es)) src = None"
proof -
  have "auth_inv (auth_run md5 hmac (auth_setup now mac secret rid) es)"
    unfolding auth_run_def by (rule authenticator.inv_run [OF assms(1)])
  with assms(2) show ?thesis by (auto simp: auth_inv_def sm_ok_def)
qed

lemma example_run_machine:
  "case dict_get (state_machines (auth_run (\<lambda>x. x) (\<lambda>k x. x) example_world (take 1 example_events)))
     (mac_str \<lparr>address = example_src\<rparr>) of None \<Rightarrow> False | Some sm \<Rightarrow> True"
  by code_simp

lemma machines_well_formed_witness:
  "\<exists>sm. dict_get (state_machines (auth_run (\<lambda>x. x) (\<lambda>k x. x) example_world (take 1 example_events)))
       (mac_str \<lparr>address = example_src\<rparr>) = Some sm \<and> sm_state sm \<in> {Some SUPPLICANT, Some RADIUS}"
proof -
  obtain sm where sm: "dict_get (state_machines (auth_run (\<lambda>x. x) (\<lambda>k x. x) example_world (take 1 example_events)))
      (mac_str \<lparr>address = example_src\<rparr>) = Some sm"
    using example_run_machine by (auto split: option.splits)
  have "list_all event_ok (take 1 example_events)" by (simp add: example_events_def event_ok_def)
  from machines_well_formed [OF this sm [unfolded example_world_def]] sm show ?thesis by blast
qed

text \<open>A result is final: once a supplicant has one, no later event of the run changes it.\<close>

theorem results_final:
  assumes "list_all event_ok (es @ es')"
    and "dict_get (results (auth_run md5 hmac (auth_setup now mac secret rid) es)) src = Some b"
  shows "dict_get (results (auth_run md5 hmac (auth_setup now mac secret rid) (es @ es'))) src = Some b"
proof -
  have "auth_inv (auth_run md5 hmac (auth_setup now mac secret rid) es)"
    unfolding auth_run_def using assms(1) by (intro authenticator.inv_run) simp
  from auth_run_results [OF this _ assms(2), of es'] assms(1) show ?thesis by (simp add: auth_run_def)
qed

lemma results_final_witness:
  "dict_get (results (auth_run (\<lambda>x. example_zero) (\<lambda>k x. example_zero) example_world (example_events @ [(99, Tick)])))
     (mac_str \<lparr>address = example_src\<rparr>) = Some True"
  unfolding example_world_def
  by (rule results_final [OF _ example_run_succeeds [unfolded example_world_def]])
    (simp add: example_events_ok, simp add: event_ok_def)

text \<open>C26: a supplicant that stops answering fails. The authenticator has a state machine for this one
  supplicant only, and from here on nothing happens but ticks of the timer, each after the timeout
  that the previous one set: once the timer has found the timeout exceeded one time more than the
  retries that are left, the result of the supplicant is failure, its state machine is removed, the
  timer is stopped, and both modules are shut down: the RADIUS module, and then the EAP module (unless
  the RADIUS socket had already been closed, whose second shutdown raises).\<close>

theorem silent_supplicant_fails:
  assumes "state_machines w = [(src, sm)]" "timer_run w" "sm_src_mac sm = src" "src \<noteq> []"
    "current_timeout sm = Some t" "0 < t" "0 \<le> idle_time sm" "retry_action sm \<noteq> None"
    "current_retries sm = Some n" "n \<le> max_retry_count sm"
    "length ts = max_retry_count sm - n + 1" "late_ticks (idle_time sm) t ts"
  shows "dict_get (results (auth_run md5 hmac w (map (\<lambda>x. (x, Tick)) ts))) src = Some False \<and>
    state_machines (auth_run md5 hmac w (map (\<lambda>x. (x, Tick)) ts)) = [] \<and>
    \<not> timer_run (auth_run md5 hmac w (map (\<lambda>x. (x, Tick)) ts)) \<and>
    rad_shut_down (w_radius (auth_run md5 hmac w (map (\<lambda>x. (x, Tick)) ts))) \<and>
    (rad_socket_open (w_radius w) \<longrightarrow> eap_shut_down (w_eap (auth_run md5 hmac w (map (\<lambda>x. (x, Tick)) ts))))"
  by (rule timeout_fails [OF assms])

definition example_waiting :: auth_world where
  "example_waiting = example_world\<lparr>state_machines :=
     [([49], (auth_sm_init [49] [] 9 3)\<lparr>sm_state := Some RADIUS, current_timeout := Some 10,
        retry_action := Some (RetryEap [49] None), current_retries := Some 1\<rparr>)]\<rparr>"

lemma silent_supplicant_fails_witness:
  "dict_get (results (auth_run (\<lambda>x. x) (\<lambda>k x. x) example_waiting (map (\<lambda>x. (x, Tick)) [12, 24, 36]))) [49] = Some False \<and>
   state_machines (auth_run (\<lambda>x. x) (\<lambda>k x. x) example_waiting (map (\<lambda>x. (x, Tick)) [12, 24, 36])) = [] \<and>
   \<not> timer_run (auth_run (\<lambda>x. x) (\<lambda>k x. x) example_waiting (map (\<lambda>x. (x, Tick)) [12, 24, 36])) \<and>
   rad_shut_down (w_radius (auth_run (\<lambda>x. x) (\<lambda>k x. x) example_waiting (map (\<lambda>x. (x, Tick)) [12, 24, 36]))) \<and>
   eap_shut_down (w_eap (auth_run (\<lambda>x. x) (\<lambda>k x. x) example_waiting (map (\<lambda>x. (x, Tick)) [12, 24, 36])))"
  using silent_supplicant_fails [of example_waiting "[49]" "(auth_sm_init [49] [] 9 3)\<lparr>sm_state := Some RADIUS,
      current_timeout := Some 10, retry_action := Some (RetryEap [49] None), current_retries := Some 1\<rparr>" 10 1 "[12, 24, 36]" "\<lambda>x. x" "\<lambda>k x. x"]
  by (simp add: example_waiting_def example_world_def auth_setup_def auth_sm_init_def radius_module_init_def)

text \<open>\<open>run_authentication_test\<close> reports \<open>skip\<close> exactly when there is no result, \<open>pass\<close> when
  there are results and all are successes, and \<open>fail\<close> otherwise.\<close>

theorem verdict_of_results:
  "snd (authentication_verdict res) =
     (if res = [] then ''skip'' else if \<forall>b\<in>snd ` set res. b then ''pass'' else ''fail'')"
  by (auto simp: authentication_verdict_eq)

lemma verdict_of_results_witness:
  "snd (authentication_verdict [([1], True), ([2], False)]) = ''fail''"
  using verdict_of_results [of "[([1], True), ([2], False)]"] by simp

text \<open>The EAP message of the server's Access-Accept is queued after the shutdown of the EAP module
  and is never sent: whatever the send thread and other threads do next, it stays in the queue.\<close>

theorem final_eap_message_never_sent:
  assumes "dict_get (state_machines w) src = Some sm" "sm_state sm = Some RADIUS" "sm_src_mac sm = src" "src \<noteq> []"
    "rpa_eap_message attrs = Some m"
    "received_radius_response now src attrs RadiusAccessAccept w = (Inr (), w')"
  shows "\<exists>frame. \<forall>es. \<exists>pre. eap_queue (foldl eap_loop.sched_step (w_eap w') es) =
    pre @ map Some (frame # eap_loop.puts es)"
proof -
  obtain frame where "w_eap w' = send_packed_eap_message frame (eap_shut_down_module (w_eap w))"
    using accept_queues_after_shutdown [OF assms] by blast
  then have "foldl eap_loop.sched_step (w_eap w') es =
      foldl eap_loop.sched_step (eap_shut_down_module (w_eap w)) (Put frame # es)" for es
    by (simp add: eap_loop.sched_step_def)
  moreover have "eap_loop.puts (Put frame # es) = frame # eap_loop.puts es" for es :: "(bool, bytes) sched list"
    by (simp add: eap_loop.puts_def)
  ultimately show ?thesis using eap_loop.late_messages_stay [of "w_eap w" "Put frame # _"] by metis
qed

definition example_radius_world :: auth_world where
  "example_radius_world = example_world\<lparr>state_machines :=
     [(mac_str \<lparr>address = example_src\<rparr>, (auth_sm_init (mac_str \<lparr>address = example_src\<rparr>) [] 9 3)\<lparr>sm_state := Some RADIUS\<rparr>)],
     w_eap := (eap_module_init \<lparr>address = example_src\<rparr>)\<lparr>authenticator_mac := Some \<lparr>address = example_src\<rparr>\<rparr>\<rparr>"

lemma example_accept_handled:
  "case received_radius_response 5 (mac_str \<lparr>address = example_src\<rparr>)
     \<lparr>rpa_eap_message = Some (SuccessMessage NoMac 7), rpa_state = None\<rparr> RadiusAccessAccept example_radius_world of
     (Inr u, w) \<Rightarrow> True | _ \<Rightarrow> False"
  by code_simp

lemma final_eap_message_never_sent_witness:
  "\<exists>w' frame. received_radius_response 5 (mac_str \<lparr>address = example_src\<rparr>)
       \<lparr>rpa_eap_message = Some (SuccessMessage NoMac 7), rpa_state = None\<rparr> RadiusAccessAccept example_radius_world = (Inr (), w') \<and>
     (\<exists>pre. eap_queue (foldl eap_loop.sched_step (w_eap w') [Run True, Run True, Run True]) = pre @ [Some frame])"
proof -
  obtain w' where w': "received_radius_response 5 (mac_str \<lparr>address = example_src\<rparr>)
      \<lparr>rpa_eap_message = Some (SuccessMessage NoMac 7), rpa_state = None\<rparr> RadiusAccessAccept example_radius_world = (Inr (), w')"
    using example_accept_handled by (auto split: prod.splits sum.splits)
  have ne: "mac_str \<lparr>address = example_src\<rparr> \<noteq> []"
    by (rule mac_str_nonempty) (simp add: example_src_def)
  obtain frame where "\<forall>es. \<exists>pre. eap_queue (foldl eap_loop.sched_step (w_eap w') es) =
      pre @ map Some (frame # eap_loop.puts es)"
    using final_eap_message_never_sent [OF _ _ _ ne _ w', of "(auth_sm_init (mac_str \<lparr>address = example_src\<rparr>) [] 9 3)
        \<lparr>sm_state := Some RADIUS\<rparr>" "SuccessMessage NoMac 7"]
    by (auto simp: example_radius_world_def auth_sm_init_def)
  from this [rule_format, of "[Run True, Run True, Run True]"] w' show ?thesis
    by (auto simp: eap_loop.puts_def)
qed

text \<open>One EAP frame other than an EAPOL-Start from an address without a state machine (for
  example before its EAPOL-Start, or after its result) ends the receive thread, and from then on
  every frame of every supplicant is ignored.\<close>

theorem stray_eap_frame_ends_reception:
  assumes "eap_rx_alive w" "bs \<noteq> []" "ethernet_parse bs = Inr (m, dst)" "\<not> is_eapol_start m"
    "dict_get (state_machines w) (mac_ref_str (message_src_mac m)) = None"
  shows "eap_frame_step now' frame (eap_frame_step now (Some bs) w) = w\<lparr>eap_rx_alive := False\<rparr>"
  using stray_frame_ends_reception [OF assms, of now] by (simp add: eap_reception_stays_ended)

lemma stray_eap_frame_ends_reception_witness:
  "eap_frame_step 2 (Some example_start_frame) (eap_frame_step 1 (Some example_identity_frame) example_world) =
     example_world\<lparr>eap_rx_alive := False\<rparr>"
proof -
  have "case ethernet_parse example_identity_frame of Inr (m, dst) \<Rightarrow> \<not> is_eapol_start m | Inl e \<Rightarrow> False" by code_simp
  then obtain m dst where m: "ethernet_parse example_identity_frame = Inr (m, dst)" "\<not> is_eapol_start m"
    by (auto split: sum.splits)
  show ?thesis
    by (rule stray_eap_frame_ends_reception [OF _ _ m])
      (simp_all add: example_world_def auth_setup_def example_identity_frame_def)
qed

end
