(* ===== verification/Gateways.thy ===== *)
theory Gateways
  imports Py_Prelude Threads
begin

text \<open>
  \<open>daq/base_gateway.py\<close>: the switch ports a gateway owns, the allocation of test ports, the
  targets attached to it, the DHCP callback, the warm-up of its hosts and the discovery of a host in
  a list of subnets. Starting containers and running commands in them is not part of the model; the
  answers of \<open>ping\<close> and the lines \<open>arp-scan\<close> wrote are arguments. The locale
  \<open>allocator\<close> is the contract between an owner of numbered resources and its clients.
\<close>

subsection \<open>Allocators\<close>

text \<open>
  Numbers handed out by an owner with a finite pool. A client may rely on getting a free number of
  the pool, and on failing only when the pool is used up.
\<close>

locale allocator =
  fixes ok :: "'s \<Rightarrow> bool"
    and used :: "'s \<Rightarrow> int set"
    and pool :: "'s \<Rightarrow> int set"
    and alloc :: "'s \<Rightarrow> int result \<times> 's"
    and release :: "int \<Rightarrow> 's \<Rightarrow> unit result \<times> 's"
  assumes alloc_Inr: "ok s \<Longrightarrow> alloc s = (Inr n, s') \<Longrightarrow>
      ok s' \<and> n \<in> pool s \<and> n \<notin> used s \<and> used s' = insert n (used s) \<and> pool s' = pool s"
    and alloc_Inl: "ok s \<Longrightarrow> alloc s = (Inl e, s') \<Longrightarrow> pool s \<subseteq> used s \<and> s' = s"
    and release_Inr: "ok s \<Longrightarrow> n \<in> used s \<Longrightarrow> release n s = (r, s') \<Longrightarrow>
      ok s' \<and> r = Inr () \<and> used s' = used s - {n} \<and> pool s' = pool s"
    and release_Inl: "ok s \<Longrightarrow> n \<notin> used s \<Longrightarrow> \<exists>e. release n s = (Inl e, s)"
begin

lemma alloc_progress: "ok s \<Longrightarrow> \<not> pool s \<subseteq> used s \<Longrightarrow> \<exists>n s'. alloc s = (Inr n, s')"
  using alloc_Inl by (cases "alloc s"; cases "fst (alloc s)") auto

text \<open>Allocating and releasing restores what is in use.\<close>

lemma release_alloc:
  assumes "ok s" "alloc s = (Inr n, s')" "release n s' = (r, s'')"
  shows "r = Inr () \<and> used s'' = used s \<and> pool s'' = pool s"
proof -
  from alloc_Inr [OF assms(1,2)] have a: "ok s'" "n \<notin> used s" "used s' = insert n (used s)" "pool s' = pool s"
    by auto
  then have "n \<in> used s'" by simp
  from release_Inr [OF a(1) this assms(3)] a show ?thesis by auto
qed

fun alloc_many :: "nat \<Rightarrow> 's \<Rightarrow> int list result \<times> 's" where
  "alloc_many 0 s = (Inr [], s)"
| "alloc_many (Suc k) s =
     (case alloc s of
        (Inl e, s') \<Rightarrow> (Inl e, s')
      | (Inr n, s') \<Rightarrow>
          (case alloc_many k s' of (Inl e, s'') \<Rightarrow> (Inl e, s'') | (Inr ns, s'') \<Rightarrow> (Inr (n # ns), s'')))"

text \<open>No two clients hold the same number.\<close>

lemma alloc_many_distinct:
  "ok s \<Longrightarrow> alloc_many k s = (Inr ns, s') \<Longrightarrow>
     length ns = k \<and> distinct ns \<and> set ns \<subseteq> pool s \<and> set ns \<inter> used s = {} \<and> used s' = used s \<union> set ns"
proof (induction k arbitrary: s ns)
  case (Suc k)
  then obtain n s1 ms where n: "alloc s = (Inr n, s1)" and ms: "alloc_many k s1 = (Inr ms, s')" "ns = n # ms"
    by (auto split: prod.splits sum.splits)
  from alloc_Inr [OF Suc.prems(1) n] have "ok s1" by simp
  from Suc.IH [OF this ms(1)] alloc_Inr [OF Suc.prems(1) n] ms(2) show ?case by auto
qed simp

end

subsection \<open>BaseGateway\<close>

definition GATEWAY_OFFSET :: int where "GATEWAY_OFFSET = 0"
definition DUMMY_OFFSET :: int where "DUMMY_OFFSET = 1"
definition TEST_OFFSET_START :: int where "TEST_OFFSET_START = 2"
definition NUM_SET_PORTS :: int where "NUM_SET_PORTS = 6"
definition SET_SPACING :: int where "SET_SPACING = 10"
definition PING_RETRY_COUNT :: nat where "PING_RETRY_COUNT = 5"

lemmas gateway_consts = GATEWAY_OFFSET_def DUMMY_OFFSET_def TEST_OFFSET_START_def NUM_SET_PORTS_def SET_SPACING_def

text \<open>
  The state a gateway keeps about ports and targets; \<open>targets\<close> has the keys of the dictionary of
  attached devices, and a device object in \<open>ready\<close> is referred to by a number.
\<close>

record gateway =
  gw_name :: string
  port_set :: int
  targets :: "string list"
  test_ports :: "int list"
  ready :: "nat list"
  activated :: bool
  is_native :: bool

definition gateway_init :: "string \<Rightarrow> int \<Rightarrow> bool \<Rightarrow> gateway result" where
  "gateway_init name pset native =
     (if pset > 0
      then Inr \<lparr>gw_name = name, port_set = pset, targets = [], test_ports = [], ready = [], activated = False,
                is_native = native\<rparr>
      else Inl AssertionError)"

definition switch_port :: "gateway \<Rightarrow> int \<Rightarrow> int" where
  "switch_port g offset = port_set g * SET_SPACING + offset"

definition gateway_activate :: "gateway \<Rightarrow> gateway" where
  "gateway_activate g = g\<lparr>activated := True\<rparr>"

text \<open>The loop \<open>while test_port in self.test_ports\<close>.\<close>

function next_free :: "int list \<Rightarrow> int \<Rightarrow> int" where
  "next_free ports p = (if p \<in> set ports then next_free ports (p + 1) else p)"
  by pat_completeness auto
termination
proof (relation "measure (\<lambda>(ports, p). card {q \<in> set ports. p \<le> q})")
  fix ports :: "int list" and p
  assume p: "p \<in> set ports"
  have "p \<in> {q \<in> set ports. p \<le> q}" "p \<notin> {q \<in> set ports. p + 1 \<le> q}" using p by auto
  moreover have "{q \<in> set ports. p + 1 \<le> q} \<subseteq> {q \<in> set ports. p \<le> q}" by auto
  ultimately have "{q \<in> set ports. p + 1 \<le> q} \<subset> {q \<in> set ports. p \<le> q}" by blast
  then have "card {q \<in> set ports. p + 1 \<le> q} < card {q \<in> set ports. p \<le> q}"
    by (intro psubset_card_mono) auto
  then show "((ports, p + 1), ports, p) \<in> measure (\<lambda>(ports, p). card {q \<in> set ports. p \<le> q})" by simp
qed simp

declare next_free.simps [simp del]

definition allocate_test_port :: "gateway \<Rightarrow> int result \<times> gateway" where
  "allocate_test_port g =
     (let test_port = next_free (test_ports g) (switch_port g TEST_OFFSET_START);
          limit_port = switch_port g NUM_SET_PORTS
      in if test_port < limit_port then (Inr test_port, g\<lparr>test_ports := test_ports g @ [test_port]\<rparr>)
         else (Inl AssertionError, g))"

definition release_test_port :: "int \<Rightarrow> gateway \<Rightarrow> unit result \<times> gateway" where
  "release_test_port test_port g =
     (if test_port \<in> set (test_ports g) then (Inr (), g\<lparr>test_ports := remove1 test_port (test_ports g)\<rparr>)
      else (Inl AssertionError, g))"

definition get_possible_test_ports :: "gateway \<Rightarrow> int list" where
  "get_possible_test_ports g = [switch_port g TEST_OFFSET_START .. switch_port g NUM_SET_PORTS - 1]"

definition is_target_expected :: "string option \<Rightarrow> gateway \<Rightarrow> bool" where
  "is_target_expected target g = (case target of None \<Rightarrow> False | Some mac \<Rightarrow> mac \<in> set (targets g))"

text \<open>\<open>_dhcp_callback\<close>: the call of \<open>runner.ip_notify\<close> it makes, if any.\<close>

definition dhcp_callback :: "string \<Rightarrow> string option \<Rightarrow> bool \<Rightarrow> gateway \<Rightarrow> (string \<times> string option) option" where
  "dhcp_callback state target has_exception g =
     (let expected = is_target_expected target g;
          use_state = (if is_native g \<and> \<not> expected then ''NEW'' else state)
      in if expected \<or> is_native g \<or> has_exception then Some (use_state, target) else None)"

definition attach_target :: "string \<Rightarrow> gateway \<Rightarrow> nat result \<times> gateway" where
  "attach_target mac g =
     (if mac \<in> set (targets g) then (Inl AssertionError, g)
      else (Inr (length (targets g) + 1), g\<lparr>targets := targets g @ [mac]\<rparr>))"

definition detach_target :: "string \<Rightarrow> gateway \<Rightarrow> nat result \<times> gateway" where
  "detach_target mac g =
     (if mac \<in> set (targets g) then (Inr (length (remove1 mac (targets g))), g\<lparr>targets := remove1 mac (targets g)\<rparr>)
      else (Inl AssertionError, g))"

definition target_ready :: "nat \<Rightarrow> gateway \<Rightarrow> nat list \<times> gateway" where
  "target_ready dv g =
     (let r = (if dv \<in> set (ready g) then ready g else ready g @ [dv]) in (r, g\<lparr>ready := r\<rparr>))"

definition get_targets :: "gateway \<Rightarrow> string list" where
  "get_targets g = targets g"

definition gateway_terminate :: "gateway \<Rightarrow> unit result" where
  \<comment> \<open>the assertion that guards the termination of the hosts\<close>
  "gateway_terminate g = (if targets g = [] then Inr () else Inl AssertionError)"

subsection \<open>Warm-up\<close>

text \<open>
  The end of \<open>_initialize\<close>. The answer of the \<open>k\<close>-th ping is \<open>ping k\<close>; \<open>warmup\<close> is the loop that
  retries the first one and returns the number of pings made, then four more must be answered.
\<close>

fun warmup :: "(nat \<Rightarrow> bool) \<Rightarrow> nat \<Rightarrow> nat \<Rightarrow> nat result" where
  "warmup ping 0 k = Inl AssertionError"
| "warmup ping (Suc retry) k =
     (if ping k then Inr (Suc k)
      else if retry = 0 then Inl AssertionError else warmup ping retry (Suc k))"

definition initialize_pings :: "(nat \<Rightarrow> bool) \<Rightarrow> unit result" where
  "initialize_pings ping =
     bind_result (warmup ping PING_RETRY_COUNT 0)
       (\<lambda>k. if ping k \<and> ping (k + 1) \<and> ping (k + 2) \<and> ping (k + 3) then Inr () else Inl AssertionError)"

lemma warmup_Inr: "warmup ping n k = Inr m \<longleftrightarrow> (\<exists>j<n. m = Suc (k + j) \<and> ping (k + j) \<and> (\<forall>i<j. \<not> ping (k + i)))"
proof (induction ping n k rule: warmup.induct)
  case (2 ping retry k)
  show ?case
  proof (cases "ping k")
    case True
    have "j = 0" if "\<forall>i<j. \<not> ping (k + i)" for j using that True by (cases j) auto
    with True show ?thesis by (auto intro: exI [of _ 0])
  next
    case False
    have "warmup ping (Suc retry) k = Inr m \<longleftrightarrow>
        (\<exists>j<retry. m = Suc (Suc k + j) \<and> ping (Suc k + j) \<and> (\<forall>i<j. \<not> ping (Suc k + i)))"
      using 2 False by (cases "retry = 0") auto
    also have "\<dots> \<longleftrightarrow> (\<exists>j<Suc retry. m = Suc (k + j) \<and> ping (k + j) \<and> (\<forall>i<j. \<not> ping (k + i)))"
      using False by (simp add: Ex_less_Suc2 All_less_Suc2)
    finally show ?thesis .
  qed
qed simp

text \<open>A gateway comes up exactly when one of the first five pings is answered and the four pings after it.\<close>

lemma initialize_pings_iff:
  "initialize_pings ping = Inr () \<longleftrightarrow>
     (\<exists>j<5. (\<forall>i<j. \<not> ping i) \<and> ping j \<and> ping (j + 1) \<and> ping (j + 2) \<and> ping (j + 3) \<and> ping (j + 4))"
proof -
  have "initialize_pings ping = Inr () \<longleftrightarrow>
      (\<exists>k. warmup ping 5 0 = Inr k \<and> ping k \<and> ping (k + 1) \<and> ping (k + 2) \<and> ping (k + 3))"
    by (auto simp: initialize_pings_def bind_result_eq_Inr PING_RETRY_COUNT_def split: if_splits)
  then show ?thesis unfolding warmup_Inr by (auto simp: eval_nat_numeral)
qed

subsection \<open>Discovery\<close>

text \<open>
  \<open>_discover_host_hangup_callback\<close> and \<open>discover_host\<close>. The parameters \<open>parse_ip\<close> and
  \<open>same_mac\<close> stand for \<open>ipaddress.ip_address\<close> and the comparison of two \<open>netaddr.EUI\<close>;
  \<open>None\<close> is one of the exceptions the code catches. The lines written by \<open>arp-scan\<close> for a subnet
  are given by \<open>scan\<close>.
\<close>

fun split_tab :: "string \<Rightarrow> string list" where
  "split_tab [] = [[]]"
| "split_tab (c # cs) =
     (if c = CHR 0x09 then [] # split_tab cs
      else (case split_tab cs of p # ps \<Rightarrow> (c # p) # ps | [] \<Rightarrow> [[c]]))"

definition process_line ::
    "(string \<Rightarrow> 'ip option) \<Rightarrow> (string \<Rightarrow> string \<Rightarrow> bool option) \<Rightarrow> string \<Rightarrow> string \<Rightarrow> 'ip option" where
  "process_line parse_ip same_mac mac line =
     (case filter (\<lambda>section. section \<noteq> []) (split_tab line) of
        s0 # s1 # _ \<Rightarrow>
          (case parse_ip s0 of
             None \<Rightarrow> None
           | Some device_ip \<Rightarrow> (if same_mac mac s1 = Some True then Some device_ip else None))
      | _ \<Rightarrow> None)"

fun first_match :: "('a \<Rightarrow> 'b option) \<Rightarrow> 'a list \<Rightarrow> 'b option" where
  "first_match f [] = None"
| "first_match f (x # xs) = (case f x of Some y \<Rightarrow> Some y | None \<Rightarrow> first_match f xs)"

definition scan_result ::
    "(string \<Rightarrow> 'ip option) \<Rightarrow> (string \<Rightarrow> string \<Rightarrow> bool option) \<Rightarrow> string \<Rightarrow> string list \<Rightarrow> 'ip option" where
  "scan_result parse_ip same_mac mac lines = first_match (process_line parse_ip same_mac mac) lines"

fun discover_host ::
    "(string \<Rightarrow> 'ip option) \<Rightarrow> (string \<Rightarrow> string \<Rightarrow> bool option) \<Rightarrow> ('net \<Rightarrow> string list) \<Rightarrow> string \<Rightarrow> 'net list \<Rightarrow>
       'ip option \<times> 'net list" where
  \<comment> \<open>what the callback is called with, and the subnets left unscanned\<close>
  "discover_host parse_ip same_mac scan mac [] = (None, [])"
| "discover_host parse_ip same_mac scan mac (subnet # subnets) =
     (case scan_result parse_ip same_mac mac (scan subnet) of
        Some ip \<Rightarrow> (Some ip, subnets)
      | None \<Rightarrow> discover_host parse_ip same_mac scan mac subnets)"

subsection \<open>Test ports\<close>

lemma next_free_bounds: "p \<le> next_free ports p \<and> next_free ports p \<notin> set ports \<and> {p..<next_free ports p} \<subseteq> set ports"
proof (induction ports p rule: next_free.induct)
  case (1 ports p)
  show ?case
  proof (cases "p \<in> set ports")
    case True
    with 1 have ih: "p + 1 \<le> next_free ports (p + 1)" "next_free ports (p + 1) \<notin> set ports"
      "{p + 1..<next_free ports (p + 1)} \<subseteq> set ports" by auto
    moreover have "next_free ports p = next_free ports (p + 1)" using True by (simp add: next_free.simps)
    moreover have "{p..<next_free ports (p + 1)} = insert p {p + 1..<next_free ports (p + 1)}" using ih(1) by auto
    ultimately show ?thesis using True by auto
  next
    case False
    then show ?thesis by (simp add: next_free.simps)
  qed
qed

definition test_port_pool :: "gateway \<Rightarrow> int set" where
  "test_port_pool g = {switch_port g TEST_OFFSET_START..<switch_port g NUM_SET_PORTS}"

definition gateway_ok :: "gateway \<Rightarrow> bool" where
  "gateway_ok g \<longleftrightarrow> 0 < port_set g \<and> distinct (test_ports g) \<and> set (test_ports g) \<subseteq> test_port_pool g \<and>
     distinct (targets g)"

lemma pool_update [simp]: "test_port_pool (g\<lparr>test_ports := x\<rparr>) = test_port_pool g"
  by (simp add: test_port_pool_def switch_port_def)

lemma allocate_ok: "gateway_ok g \<Longrightarrow> gateway_ok (snd (allocate_test_port g))"
  using next_free_bounds [of "switch_port g TEST_OFFSET_START" "test_ports g"]
  by (auto simp: gateway_ok_def allocate_test_port_def Let_def test_port_pool_def switch_port_def)

lemma release_ok: "gateway_ok g \<Longrightarrow> gateway_ok (snd (release_test_port p g))"
  by (auto simp: gateway_ok_def release_test_port_def test_port_pool_def switch_port_def dest: in_set_remove1)

lemma attach_ok: "gateway_ok g \<Longrightarrow> gateway_ok (snd (attach_target mac g))"
  by (auto simp: gateway_ok_def attach_target_def test_port_pool_def switch_port_def)

lemma detach_ok: "gateway_ok g \<Longrightarrow> gateway_ok (snd (detach_target mac g))"
  by (auto simp: gateway_ok_def detach_target_def test_port_pool_def switch_port_def)

text \<open>The pool of a gateway is the four ports from offset 2 to offset 5.\<close>

interpretation test_port: allocator gateway_ok "\<lambda>g. set (test_ports g)" test_port_pool
  allocate_test_port release_test_port
proof
  fix g g' :: gateway and n e r
  let ?n = "next_free (test_ports g) (switch_port g TEST_OFFSET_START)"
  have b: "switch_port g TEST_OFFSET_START \<le> ?n" "?n \<notin> set (test_ports g)"
    "{switch_port g TEST_OFFSET_START..<?n} \<subseteq> set (test_ports g)"
    using next_free_bounds by auto
  assume ok: "gateway_ok g"
  show "allocate_test_port g = (Inr n, g') \<Longrightarrow> gateway_ok g' \<and> n \<in> test_port_pool g \<and> n \<notin> set (test_ports g) \<and>
      set (test_ports g') = insert n (set (test_ports g)) \<and> test_port_pool g' = test_port_pool g"
    using b allocate_ok [OF ok]
    by (auto simp: allocate_test_port_def Let_def test_port_pool_def switch_port_def split: if_splits)
  show "allocate_test_port g = (Inl e, g') \<Longrightarrow> test_port_pool g \<subseteq> set (test_ports g) \<and> g' = g"
    using b(3) by (auto simp: allocate_test_port_def Let_def test_port_pool_def split: if_splits)
  show "n \<in> set (test_ports g) \<Longrightarrow> release_test_port n g = (r, g') \<Longrightarrow>
      gateway_ok g' \<and> r = Inr () \<and> set (test_ports g') = set (test_ports g) - {n} \<and> test_port_pool g' = test_port_pool g"
    using ok release_ok [OF ok, of n] by (auto simp: release_test_port_def gateway_ok_def)
  show "n \<notin> set (test_ports g) \<Longrightarrow> \<exists>e. release_test_port n g = (Inl e, g)"
    by (simp add: release_test_port_def)
qed

lemma possible_test_ports: "set (get_possible_test_ports g) = test_port_pool g"
  by (auto simp: get_possible_test_ports_def test_port_pool_def)

lemma card_test_port_pool: "card (test_port_pool g) = 4"
  by (simp add: test_port_pool_def switch_port_def gateway_consts)

text \<open>Gateways with different port sets own disjoint ranges of switch ports.\<close>

lemma switch_ports_disjoint:
  assumes "0 \<le> i" "i < SET_SPACING" "0 \<le> j" "j < SET_SPACING" "switch_port g i = switch_port h j"
  shows "port_set g = port_set h \<and> i = j"
proof -
  have "10 * port_set g + i = 10 * port_set h + j" "0 \<le> i" "i < 10" "0 \<le> j" "j < 10"
    using assms by (simp_all add: switch_port_def gateway_consts)
  then show ?thesis by presburger
qed

subsection \<open>Discovery\<close>

lemma first_match_None: "first_match f xs = None \<longleftrightarrow> (\<forall>x\<in>set xs. f x = None)"
  by (induction xs) (auto split: option.splits)

lemma first_match_Some:
  "first_match f xs = Some y \<Longrightarrow> \<exists>us x vs. xs = us @ x # vs \<and> f x = Some y \<and> (\<forall>u\<in>set us. f u = None)"
proof (induction xs)
  case (Cons x xs)
  show ?case
  proof (cases "f x")
    case None
    with Cons obtain us z vs where "xs = us @ z # vs" "f z = Some y" "\<forall>u\<in>set us. f u = None" by auto
    with None show ?thesis by (intro exI [of _ "x # us"] exI [of _ z] exI [of _ vs]) simp
  next
    case (Some z)
    with Cons.prems show ?thesis by (intro exI [of _ "[]"] exI [of _ x] exI [of _ xs]) simp
  qed
qed simp

lemma discover_host_first:
  "fst (discover_host parse_ip same_mac scan mac nets) =
     first_match (\<lambda>n. scan_result parse_ip same_mac mac (scan n)) nets"
  by (induction nets) (auto split: option.splits)

subsection \<open>Properties\<close>

text \<open>Allocating test ports hands out distinct free ports of the gateway's four-port range;
  as long as fewer than four are in use an allocation succeeds, when all are in use it fails and
  changes nothing, and releasing a port makes exactly that port free again.\<close>

theorem test_port_allocation:
  assumes "gateway_ok g"
  shows "case allocate_test_port g of
     (Inl e, g') \<Rightarrow> e = AssertionError \<and> g' = g \<and> set (test_ports g) = test_port_pool g
   | (Inr p, g') \<Rightarrow> gateway_ok g' \<and> p \<in> test_port_pool g \<and> p \<notin> set (test_ports g) \<and>
       (case release_test_port p g' of
          (Inl e, g'') \<Rightarrow> False
        | (Inr u, g'') \<Rightarrow> gateway_ok g'' \<and> set (test_ports g'') = set (test_ports g))"
proof -
  obtain r g' where a: "allocate_test_port g = (r, g')" by (cases "allocate_test_port g")
  show ?thesis
  proof (cases r)
    case (Inl e)
    have "e = AssertionError" using a Inl by (auto simp: allocate_test_port_def Let_def split: if_splits)
    with a Inl test_port.alloc_Inl [OF assms, of e g'] assms show ?thesis by (auto simp: gateway_ok_def)
  next
    case (Inr p)
    with a have a': "allocate_test_port g = (Inr p, g')" by simp
    obtain r'' g'' where b: "release_test_port p g' = (r'', g'')" by (cases "release_test_port p g'")
    from test_port.alloc_Inr [OF assms a'] test_port.release_alloc [OF assms a' b]
      test_port.release_Inr [of g' p r'' g''] b a'
    show ?thesis by auto
  qed
qed

lemma test_port_allocation_witness:
  "case allocate_test_port \<lparr>gw_name = ''gw'', port_set = 2, targets = [], test_ports = [22, 24], ready = [],
     activated = False, is_native = False\<rparr> of
     (Inl e, g') \<Rightarrow> False | (Inr p, g') \<Rightarrow> p \<notin> {22, 24}"
  using test_port_allocation [of "\<lparr>gw_name = ''gw'', port_set = 2, targets = [], test_ports = [22, 24], ready = [],
      activated = False, is_native = False\<rparr>"]
  by (auto simp: gateway_ok_def test_port_pool_def switch_port_def gateway_consts allocate_test_port_def
      next_free.simps Let_def)

text \<open>Host discovery scans the subnets in order and reports the address of the first line that
  names the device's MAC in the first subnet that has one; it reports none only after scanning all
  subnets without finding any.\<close>

theorem discovery_reports_first_match:
  "case fst (discover_host parse_ip same_mac scan mac nets) of
     None \<Rightarrow> list_all (\<lambda>n. list_all (\<lambda>l. process_line parse_ip same_mac mac l = None) (scan n)) nets
   | Some ip \<Rightarrow> (\<exists>ns n ns' ls l ls'. nets = ns @ n # ns' \<and> scan n = ls @ l # ls' \<and>
       process_line parse_ip same_mac mac l = Some ip \<and>
       list_all (\<lambda>l. process_line parse_ip same_mac mac l = None) (concat (map scan ns) @ ls))"
proof (cases "fst (discover_host parse_ip same_mac scan mac nets)")
  case None
  then have "list_all (\<lambda>n. list_all (\<lambda>l. process_line parse_ip same_mac mac l = None) (scan n)) nets"
    by (simp add: discover_host_first first_match_None scan_result_def list_all_iff)
  with None show ?thesis by simp
next
  case (Some ip)
  then have "first_match (\<lambda>n. scan_result parse_ip same_mac mac (scan n)) nets = Some ip"
    by (simp only: discover_host_first)
  from first_match_Some [OF this] obtain ns n ns' where n: "nets = ns @ n # ns'"
    "scan_result parse_ip same_mac mac (scan n) = Some ip"
    "\<forall>u\<in>set ns. scan_result parse_ip same_mac mac (scan u) = None"
    by blast
  from first_match_Some [OF n(2) [unfolded scan_result_def]] obtain ls l ls' where "scan n = ls @ l # ls'"
    "process_line parse_ip same_mac mac l = Some ip" "\<forall>u\<in>set ls. process_line parse_ip same_mac mac u = None"
    by blast
  then have "nets = ns @ n # ns' \<and> scan n = ls @ l # ls' \<and> process_line parse_ip same_mac mac l = Some ip \<and>
      list_all (\<lambda>l. process_line parse_ip same_mac mac l = None) (concat (map scan ns) @ ls)"
    using n by (auto simp: scan_result_def first_match_None list_all_iff)
  then have "\<exists>ns n ns' ls l ls'. nets = ns @ n # ns' \<and> scan n = ls @ l # ls' \<and>
      process_line parse_ip same_mac mac l = Some ip \<and>
      list_all (\<lambda>l. process_line parse_ip same_mac mac l = None) (concat (map scan ns) @ ls)"
    by blast
  with Some show ?thesis by simp
qed

end
