(* ===== verification/Py_Values.thy ===== *)
theory Py_Values
  imports Py_Prelude
begin

text \<open>
  The values of JSON and YAML documents (configuration files, ACL rules and templates) as the
  sources handle them: dictionaries with string keys, lists, numbers, strings, booleans and
  \<open>None\<close>; a number with a fraction or an exponent is kept as its text. Truth values, \<open>int()\<close> of a value and \<open>%d\<close> formatting.
\<close>

datatype val =
    Nil_val
  | Flag bool
  | Num int
  | Frac string
  | Str string
  | Seq "val list"
  | Dict "(string \<times> val) list"

type_synonym vdict = "(string, val) dict"

fun truth :: "val \<Rightarrow> bool" where
  "truth Nil_val = False"
| "truth (Flag b) = b"
| "truth (Num n) = (n \<noteq> 0)"
| "truth (Frac s) = list_ex (\<lambda>c. c \<in> set ''123456789'') (takeWhile (\<lambda>c. c \<notin> set ''eE'') s)"
| "truth (Str s) = (s \<noteq> [])"
| "truth (Seq xs) = (xs \<noteq> [])"
| "truth (Dict d) = (d \<noteq> [])"

definition digit_val :: "char \<Rightarrow> int option" where
  "digit_val c = (let n = of_char c :: nat in if 48 \<le> n \<and> n \<le> 57 then Some (int (n - 48)) else None)"

fun digits_val :: "int \<Rightarrow> string \<Rightarrow> int option" where
  "digits_val acc [] = Some acc"
| "digits_val acc (c # cs) =
     (case digit_val c of None \<Rightarrow> None | Some d \<Rightarrow> digits_val (10 * acc + d) cs)"

fun val_int :: "val \<Rightarrow> int result" where
  \<comment> \<open>\<open>int(v)\<close> on numbers, on fractions without exponent and on strings of decimal digits\<close>
  "val_int (Num n) = Inr n"
| "val_int (Frac s) =
     (let neg = (s \<noteq> [] \<and> hd s = CHR ''-'');
          whole = takeWhile (\<lambda>c. c \<noteq> CHR ''.'') (if neg then tl s else s) in
      case digits_val 0 whole of None \<Rightarrow> Inl ValueError | Some n \<Rightarrow> Inr (if neg then - n else n))"
| "val_int (Flag b) = Inr (if b then 1 else 0)"
| "val_int (Str s) =
     (if s = [] then Inl ValueError
      else case digits_val 0 s of None \<Rightarrow> Inl ValueError | Some n \<Rightarrow> Inr n)"
| "val_int _ = Inl TypeError"

fun show_nat_acc :: "nat \<Rightarrow> nat \<Rightarrow> string \<Rightarrow> string" where
  "show_nat_acc 0 n acc = acc"
| "show_nat_acc (Suc fuel) n acc =
     (let acc' = char_of (48 + n mod 10) # acc in if n < 10 then acc' else show_nat_acc fuel (n div 10) acc')"

definition show_nat :: "nat \<Rightarrow> string" where
  \<comment> \<open>\<open>n\<close> is more than the number of its digits, so the fuel is never used up\<close>
  "show_nat n = show_nat_acc (n + 1) n []"

definition show_int :: "int \<Rightarrow> string" where
  \<comment> \<open>\<open>'%d' % n\<close>\<close>
  "show_int n = (if n < 0 then CHR ''-'' # show_nat (nat (- n)) else show_nat (nat n))"

definition starts_with :: "string \<Rightarrow> string \<Rightarrow> bool" where
  "starts_with s p = (take (length p) s = p)"

text \<open>Formatting numbers is injective: the digits read back to the number.\<close>

lemma digits_val_append: "digits_val a (xs @ ys) = (case digits_val a xs of None \<Rightarrow> None | Some b \<Rightarrow> digits_val b ys)"
  by (induction xs arbitrary: a) (auto split: option.splits)

lemma digit_val_char: "d < 10 \<Longrightarrow> digit_val (char_of (48 + d)) = Some (int d)"
  by (simp add: digit_val_def Let_def)

lemma show_nat_acc_suffix: "show_nat_acc fuel n acc = show_nat_acc fuel n [] @ acc"
proof (induction fuel arbitrary: n acc)
  case (Suc fuel)
  show ?case
    using Suc [of "n div 10" "char_of (48 + n mod 10) # acc"] Suc [of "n div 10" "[char_of (48 + n mod 10)]"]
    by (simp add: Let_def)
qed simp

lemma digits_show_nat_acc: "n < fuel \<Longrightarrow> digits_val 0 (show_nat_acc fuel n []) = Some (int n)"
proof (induction fuel arbitrary: n)
  case (Suc fuel)
  show ?case
  proof (cases "n < 10")
    case True
    then show ?thesis by (simp add: digit_val_char)
  next
    case False
    then have small: "n div 10 < fuel" using Suc.prems by simp
    have n10: "10 * int (n div 10) + int (n mod 10) = int n"
      by (metis mult_div_mod_eq of_nat_add of_nat_mult of_nat_numeral)
    from Suc.IH [OF small] have "digits_val 0 (show_nat_acc fuel (n div 10) [char_of (48 + n mod 10)]) = Some (int n)"
      by (subst show_nat_acc_suffix) (simp add: digits_val_append digit_val_char n10)
    then show ?thesis using False by simp
  qed
qed simp

lemma digits_show_nat: "digits_val 0 (show_nat n) = Some (int n)"
  unfolding show_nat_def by (rule digits_show_nat_acc) simp

lemma show_nat_inject: "show_nat m = show_nat n \<longleftrightarrow> m = n"
  by (metis digits_show_nat of_nat_eq_iff option.inject)

lemma show_int_inject: "0 \<le> a \<Longrightarrow> 0 \<le> b \<Longrightarrow> show_int a = show_int b \<longleftrightarrow> a = b"
  by (simp add: show_int_def show_nat_inject eq_nat_nat_iff)

lemma show_nat_digits: "c \<in> set (show_nat n) \<Longrightarrow> digit_val c \<noteq> None"
proof -
  have "digits_val a s = Some m \<Longrightarrow> c \<in> set s \<Longrightarrow> digit_val c \<noteq> None" for a s m
    by (induction s arbitrary: a) (auto split: option.splits)
  then show "c \<in> set (show_nat n) \<Longrightarrow> digit_val c \<noteq> None" using digits_show_nat by blast
qed

end
