(* ===== verification/Topology.thy ===== *)
theory Topology
  imports Gateways Py_Values
begin

text \<open>
  \<open>daq/topology.py\<close>: the FAUCET configuration of the two switches. The theory has the VLAN plan
  and the interfaces of both switches, the table of port targets and the devices of each gateway
  set, the direction of device and port traffic, and the generation of the access lists, with the
  device-specific templates. The template files and the device specification are what the YAML
  loader returned; what the code writes to files is kept in the state. A device object is referred to
  by a number, and its attributes are read through an argument when the code reads them. An empty
  template stands for a template file that is empty.
  A rule of an access list is the dictionary the code stores under the key \<open>rule\<close>.
\<close>

subsection \<open>Constants\<close>

definition BROADCAST_MAC :: string where "BROADCAST_MAC = ''ff:ff:ff:ff:ff:ff''"
definition IPV4_DL_TYPE :: string where "IPV4_DL_TYPE = ''0x0800''"
definition MIRROR_PORT_BASE :: int where "MIRROR_PORT_BASE = 1000"
definition SWITCH_LOCAL_PORT :: int where "SWITCH_LOCAL_PORT = MIRROR_PORT_BASE"
definition LOCAL_VLAN :: int where "LOCAL_VLAN = 1000"
definition DUMP_VLAN :: int where "DUMP_VLAN = 999"
definition PRI_DPID :: int where "PRI_DPID = 1"
definition PRI_TRUNK_PORT :: int where "PRI_TRUNK_PORT = 1"
definition NO_VLAN :: string where "NO_VLAN = ''0x0000/0x1000''"
definition OFPP_IN_PORT :: int where "OFPP_IN_PORT = 0xfffffff8"
definition DOT1X_ETH_TYPE :: int where "DOT1X_ETH_TYPE = 0x888e"

lemmas topology_consts = MIRROR_PORT_BASE_def SWITCH_LOCAL_PORT_def LOCAL_VLAN_def DUMP_VLAN_def
  PRI_TRUNK_PORT_def OFPP_IN_PORT_def

definition pri_name :: string where "pri_name = ''pri''"
definition sec_name :: string where "sec_name = ''sec''"

definition INCOMING_ACL_FORMAT :: "string \<Rightarrow> string" where
  "INCOMING_ACL_FORMAT name = ''dp_'' @ name @ ''_incoming_acl''"

definition PORTSET_ACL_FORMAT :: "string \<Rightarrow> int \<Rightarrow> string" where
  "PORTSET_ACL_FORMAT name n = ''dp_'' @ name @ ''_portset_'' @ show_int n @ ''_acl''"

definition LOCAL_ACL_FORMAT :: "string \<Rightarrow> string" where
  "LOCAL_ACL_FORMAT name = ''dp_'' @ name @ ''_local_acl''"

definition PORT_ACL_NAME_FORMAT :: "string \<Rightarrow> int \<Rightarrow> string" where
  "PORT_ACL_NAME_FORMAT name n = ''dp_'' @ name @ ''_port_'' @ show_int n @ ''_acl''"

definition FROM_ACL_KEY_FORMAT :: "string \<Rightarrow> string" where
  "FROM_ACL_KEY_FORMAT t = ''@from:template_'' @ t @ ''_acl''"

definition TO_ACL_KEY_FORMAT :: "string \<Rightarrow> string" where
  "TO_ACL_KEY_FORMAT t = ''@to:template_'' @ t @ ''_acl''"

definition MAC_PREFIX :: string where "MAC_PREFIX = ''@mac:''"
definition DNS_PREFIX :: string where "DNS_PREFIX = ''@dns:''"
definition CTL_PREFIX :: string where "CTL_PREFIX = ''@ctrl:''"

subsection \<open>State\<close>

text \<open>What the code reads of a device specification; \<open>controllers\<close> maps a controller to its
  controlees, and those to their MAC addresses.\<close>

record device_spec =
  spec_type :: "string option"
  spec_group :: "string option"
  spec_default_allow :: "bool option"
  spec_controllers :: "(string, (string, string list) dict) dict option"

record port_target =
  t_port :: int
  t_port_set :: int
  t_mac :: string
  t_group :: string
  t_fake :: "string option"

type_synonym rule = vdict
type_synonym acl_template = "(string, rule list) dict"
type_synonym interface = vdict

record topology =
  sec_port :: int
  sec_dpid :: int
  ext_ofip :: "string option"
  ext_intf :: "string option"
  ext_faucet :: bool
  vlan_start :: "int option"
  vlan_end :: int
  egress_vlan :: "int option"
  native_vlan :: "int option"
  interface_names :: "string list"
  device_specs :: "(string, device_spec) dict option"
  port_targets :: "(int, port_target) dict"
  set_devices :: "(int, nat list) dict"
  pri_interfaces :: "(int, interface) dict"
  sec_interfaces :: "(int, interface) dict"
  main_acls :: "(string, rule list) dict"
  port_acls :: "(int, rule list) dict"

text \<open>The attributes of a device object that the topology reads.\<close>

record topo_device =
  td_mac :: string
  td_vlan :: "int option"
  td_assigned :: "int option"
  td_port_no :: "int option"
  td_gateway :: "gateway option"

definition has_specs :: "topology \<Rightarrow> bool" where
  \<comment> \<open>\<open>if self._device_specs\<close>\<close>
  "has_specs t \<longleftrightarrow> device_specs t \<noteq> None"

definition mac_addrs :: "topology \<Rightarrow> (string, device_spec) dict" where
  \<comment> \<open>\<open>self._device_specs['macAddrs']\<close>\<close>
  "mac_addrs t = (case device_specs t of None \<Rightarrow> [] | Some d \<Rightarrow> d)"

subsection \<open>Ports and VLANs\<close>

definition get_device_intfs :: "topology \<Rightarrow> string list" where
  "get_device_intfs t =
     map (\<lambda>port. if port \<le> int (length (interface_names t)) then interface_names t ! nat (port - 1)
                 else sec_name @ ''-'' @ show_int port) [1 .. sec_port t - 1]"

definition use_vlan_triggers :: "topology \<Rightarrow> bool" where
  "use_vlan_triggers t = (vlan_start t \<noteq> None \<and> vlan_start t \<noteq> Some 0)"

definition port_set_vlan :: "int option \<Rightarrow> int" where
  "port_set_vlan pset =
     (case pset of None \<Rightarrow> DUMP_VLAN | Some n \<Rightarrow> if n = 0 then DUMP_VLAN else LOCAL_VLAN + n)"

definition get_port_vlan :: "int \<Rightarrow> topology \<Rightarrow> int" where
  "get_port_vlan port_no t = port_set_vlan (map_option t_port_set (dict_get (port_targets t) port_no))"

definition vlan_tags :: "topology \<Rightarrow> int list" where
  "vlan_tags t =
     (if use_vlan_triggers t then [the (vlan_start t) .. vlan_end t] @ [LOCAL_VLAN]
      else [LOCAL_VLAN .. LOCAL_VLAN + sec_port t - 1])"

definition mirror_port :: "int \<Rightarrow> int" where
  "mirror_port input_port = MIRROR_PORT_BASE + input_port"

definition mirror_iface_name :: "int \<Rightarrow> string" where
  "mirror_iface_name input_port = ''mirror-'' @ show_int input_port"

definition get_gw_ports :: "int \<Rightarrow> int list" where
  "get_gw_ports pset = [SET_SPACING * pset .. SET_SPACING * pset + NUM_SET_PORTS - 1]"

definition get_bcast_ports :: "int \<Rightarrow> int list" where
  "get_bcast_ports pset = [1, SWITCH_LOCAL_PORT] @ get_gw_ports pset"

subsection \<open>Interfaces\<close>

definition make_mirror_interface :: "int \<Rightarrow> interface" where
  "make_mirror_interface input_port = [(''name'', Str (mirror_iface_name input_port)), (''output_only'', Flag True)]"

definition make_local_interface :: interface where
  "make_local_interface =
     [(''name'', Str ''local_switch''), (''native_vlan'', Num LOCAL_VLAN), (''acl_in'', Str (LOCAL_ACL_FORMAT pri_name))]"

definition make_gw_interface :: "topology \<Rightarrow> int \<Rightarrow> interface" where
  "make_gw_interface t pset =
     [(''acl_in'', Str (PORTSET_ACL_FORMAT pri_name pset)),
      (''native_vlan'', Num (if use_vlan_triggers t then DUMP_VLAN else port_set_vlan (Some pset)))]"

definition make_in_port_interface :: interface where
  "make_in_port_interface = [(''description'', Str ''OFPP_IN_PORT''), (''output_only'', Flag True)]"

definition make_pri_trunk_interface :: "topology \<Rightarrow> interface" where
  "make_pri_trunk_interface t =
     [(''acl_in'', Str (INCOMING_ACL_FORMAT pri_name)),
      (case native_vlan t of
         Some v \<Rightarrow> if v \<noteq> 0 then (''native_vlan'', Num v) else (''tagged_vlans'', Seq (map Num (vlan_tags t)))
       | None \<Rightarrow> (''tagged_vlans'', Seq (map Num (vlan_tags t)))),
      (''name'', Str ''trunk_pri'')]"

definition make_sec_trunk_interface :: "topology \<Rightarrow> interface" where
  "make_sec_trunk_interface t =
     [(''acl_in'', Str (INCOMING_ACL_FORMAT sec_name)), (''tagged_vlans'', Seq (map Num (vlan_tags t))),
      (''name'', Str (case ext_intf t of None \<Rightarrow> ''trunk_sec'' | Some i \<Rightarrow> if i = [] then ''trunk_sec'' else i))]"

definition make_sec_port_interface :: "topology \<Rightarrow> int \<Rightarrow> interface" where
  "make_sec_port_interface t port_no =
     [(''acl_in'', Str (PORT_ACL_NAME_FORMAT sec_name port_no)),
      (''native_vlan'', Num (if use_vlan_triggers t then port_set_vlan (Some port_no) else DUMP_VLAN))]"

definition set_entries :: "('k \<times> 'v) list \<Rightarrow> ('k, 'v) dict \<Rightarrow> ('k, 'v) dict" where
  \<comment> \<open>a sequence of assignments \<open>d[k] = v\<close>\<close>
  "set_entries kvs d = foldl (\<lambda>d (k, v). dict_set k v d) d kvs"

definition make_pri_interfaces :: "topology \<Rightarrow> (int, interface) dict" where
  "make_pri_interfaces t =
     set_entries
       ([(PRI_TRUNK_PORT, make_pri_trunk_interface t), (OFPP_IN_PORT, make_in_port_interface)]
        @ concat (map (\<lambda>pset. map (\<lambda>port. (port, make_gw_interface t pset)) (get_gw_ports pset)
              @ [(mirror_port pset, make_mirror_interface pset)]) [1 .. sec_port t - 1])
        @ [(SWITCH_LOCAL_PORT, make_local_interface)]) []"

definition make_sec_interfaces :: "topology \<Rightarrow> (int, interface) dict" where
  "make_sec_interfaces t =
     set_entries ((sec_port t, make_sec_trunk_interface t)
        # map (\<lambda>port. (port, make_sec_port_interface t port)) [1 .. sec_port t - 1]) []"

definition make_acl_include :: "topology \<Rightarrow> string list" where
  "make_acl_include t =
     ''dp_port_acls.yaml'' # map (\<lambda>port. ''port_acls/dp_'' @ sec_name @ ''_port_'' @ show_int port @ ''_acl.yaml'') [1 .. sec_port t - 1]"

definition has_sec_switch :: "topology \<Rightarrow> bool" where
  "has_sec_switch t = (sec_dpid t \<noteq> 0 \<and> sec_port t \<noteq> 0)"

definition make_base_network_topology :: "topology \<Rightarrow> topology" where
  "make_base_network_topology t =
     t\<lparr>pri_interfaces := make_pri_interfaces t,
       sec_interfaces := (if has_sec_switch t then make_sec_interfaces t else [])\<rparr>"

subsection \<open>Rules\<close>

definition maybe_apply :: "string \<Rightarrow> vdict \<Rightarrow> string \<Rightarrow> vdict \<Rightarrow> vdict result" where
  "maybe_apply keyword origin source target =
     (case dict_get origin source of
        None \<Rightarrow> Inr target
      | Some v \<Rightarrow>
          if v = Nil_val then Inr target
          else if dict_get target keyword \<noteq> None then Inl AssertionError
          else Inr (dict_set keyword v target))"

fun maybe_apply_all :: "(string \<times> vdict \<times> string) list \<Rightarrow> vdict \<Rightarrow> vdict result" where
  "maybe_apply_all [] target = Inr target"
| "maybe_apply_all ((keyword, origin, source) # xs) target =
     bind_result (maybe_apply keyword origin source target) (maybe_apply_all xs)"

definition in_vlan_of :: "vdict \<Rightarrow> vdict" where
  "in_vlan_of kwargs =
     (case dict_get kwargs ''in_vlan'' of
        None \<Rightarrow> []
      | Some v \<Rightarrow> [(''pop_vlans'', Flag True), (''vlan_vid'', v)])"

definition make_acl_rule :: "vdict \<Rightarrow> rule result" where
  "make_acl_rule kwargs =
     bind_result
       (maybe_apply_all
          [(''port'', kwargs, ''port''), (''ports'', kwargs, ''ports''), (''vlan_vid'', kwargs, ''out_vid''),
           (''swap_vid'', kwargs, ''swap_vid''), (''pop_vlans'', in_vlan_of kwargs, ''pop_vlans'')] [])
       (\<lambda>output. bind_result
          (maybe_apply_all [(''allow'', kwargs, ''allow''), (''mirror'', kwargs, ''mirror'')]
             (if output = [] then [] else [(''output'', Dict output)]))
       (\<lambda>actions.
          maybe_apply_all
            [(''dl_type'', kwargs, ''dl_type''), (''dl_src'', kwargs, ''dl_src''), (''dl_dst'', kwargs, ''dl_dst''),
             (''nw_proto'', kwargs, ''nw_proto''), (''udp_src'', kwargs, ''udp_src''), (''udp_dst'', kwargs, ''udp_dst''),
             (''vlan_vid'', in_vlan_of kwargs, ''vlan_vid''), (''vlan_vid'', kwargs, ''vlan_vid''),
             (''ipv4_dst'', kwargs, ''ipv4_dst''), (''eth_type'', kwargs, ''eth_type'')]
            [(''actions'', Dict actions)]))"

definition add_acl_rule :: "vdict \<Rightarrow> rule list \<Rightarrow> rule list result" where
  "add_acl_rule kwargs acl = bind_result (make_acl_rule kwargs) (\<lambda>r. Inr (acl @ [r]))"

fun add_acl_rules :: "vdict list \<Rightarrow> rule list \<Rightarrow> rule list result" where
  "add_acl_rules [] acl = Inr acl"
| "add_acl_rules (k # ks) acl = bind_result (add_acl_rule k acl) (add_acl_rules ks)"

definition opt_num :: "int option \<Rightarrow> val" where
  "opt_num v = (case v of None \<Rightarrow> Nil_val | Some n \<Rightarrow> Num n)"

definition nums :: "int list \<Rightarrow> val" where
  "nums ps = Seq (map Num ps)"

subsection \<open>The access lists of the primary switch\<close>

type_synonym portset_acls = "(int, rule list) dict"

definition add_portset_rule :: "int \<Rightarrow> vdict \<Rightarrow> portset_acls \<Rightarrow> portset_acls result" where
  \<comment> \<open>\<open>self._add_acl_rule(portset_acls[port_set], ...)\<close>\<close>
  "add_portset_rule pset kwargs acls =
     bind_result (dict_index acls pset)
       (\<lambda>acl. bind_result (add_acl_rule kwargs acl) (\<lambda>acl'. Inr (dict_set pset acl' acls)))"

fun fold_result :: "('a \<Rightarrow> 's \<Rightarrow> 's result) \<Rightarrow> 'a list \<Rightarrow> 's \<Rightarrow> 's result" where
  \<comment> \<open>a \<open>for\<close> loop whose body may raise\<close>
  "fold_result f [] s = Inr s"
| "fold_result f (x # xs) s = bind_result (f x s) (fold_result f xs)"

definition dot1x_allow_kwargs :: "int list \<Rightarrow> int option \<Rightarrow> int option \<Rightarrow> vdict list" where
  \<comment> \<open>\<open>_add_dot1x_allow_rule\<close>: the rule it adds, if any\<close>
  "dot1x_allow_kwargs ports vlan_vid out_vid =
     (if vlan_vid \<noteq> None \<and> vlan_vid \<noteq> Some 0
      then [[(''eth_type'', Num DOT1X_ETH_TYPE), (''ports'', nums ports), (''vlan_vid'', opt_num vlan_vid)]]
      else if out_vid \<noteq> None \<and> out_vid \<noteq> Some 0
      then [[(''eth_type'', Num DOT1X_ETH_TYPE), (''ports'', nums ports), (''out_vid'', opt_num out_vid)]]
      else [])"

definition all_set_devices :: "topology \<Rightarrow> nat list" where
  "all_set_devices t = concat (dict_values (set_devices t))"

definition device_port_vlan :: "topo_device \<Rightarrow> topology \<Rightarrow> int" where
  "device_port_vlan d t = (case td_port_no d of None \<Rightarrow> DUMP_VLAN | Some p \<Rightarrow> get_port_vlan p t)"

definition dot1x_incoming_kwargs :: "(nat \<Rightarrow> topo_device) \<Rightarrow> topology \<Rightarrow> vdict list" where
  \<comment> \<open>\<open>_add_dot1x_incoming_rule\<close>, the rules of the incoming list\<close>
  "dot1x_incoming_kwargs dev t =
     concat (map (\<lambda>dv. case td_gateway (dev dv) of
         None \<Rightarrow> []
       | Some g \<Rightarrow>
           if get_possible_test_ports g = [] then []
           else dot1x_allow_kwargs (get_possible_test_ports g) (Some (device_port_vlan (dev dv) t)) None)
       (all_set_devices t))"

definition dot1x_secondary_kwargs :: "(nat \<Rightarrow> topo_device) \<Rightarrow> topology \<Rightarrow> vdict list" where
  \<comment> \<open>\<open>_add_dot1x_incoming_rule\<close>, the rules of the secondary list\<close>
  "dot1x_secondary_kwargs dev t =
     concat (map (\<lambda>dv. case (td_gateway (dev dv), td_port_no (dev dv)) of
         (Some g, Some p) \<Rightarrow>
           if p = 0 then [] else dot1x_allow_kwargs [p] (Some (device_port_vlan (dev dv) t)) None
       | _ \<Rightarrow> [])
       (all_set_devices t))"

definition generate_switch_local_acls :: "topology \<Rightarrow> portset_acls \<Rightarrow> (portset_acls \<times> rule list) result" where
  "generate_switch_local_acls t acls =
     (let ip = (case ext_ofip t of None \<Rightarrow> '''' | Some s \<Rightarrow> s);
          psets = (if ip = [] then [] else [1 .. sec_port t - 1])
      in bind_result
           (fold_result (\<lambda>pset. add_portset_rule pset
              [(''ports'', nums [SWITCH_LOCAL_PORT]), (''ipv4_dst'', Str ip), (''dl_type'', Str IPV4_DL_TYPE)]) psets acls)
           (\<lambda>acls'. bind_result (add_acl_rule [(''ports'', nums (concat (map get_gw_ports psets)))] [])
             (\<lambda>local_acl. Inr (acls', local_acl))))"

definition add_mirror :: "port_target \<Rightarrow> (int, (string \<times> int) list) dict \<Rightarrow> (int, (string \<times> int) list) dict" where
  "add_mirror tg m =
     (let old = (case dict_get m (t_port_set tg) of None \<Rightarrow> [] | Some l \<Rightarrow> l)
      in dict_set (t_port_set tg) (old @ [(t_mac tg, mirror_port (t_port tg))]) m)"

definition generate_port_target_acls ::
    "topology \<Rightarrow> portset_acls \<Rightarrow> (portset_acls \<times> (int, (string \<times> int) list) dict) result" where
  "generate_port_target_acls t acls =
     bind_result
       (fold_result (\<lambda>tg. add_portset_rule (t_port_set tg)
          [(''dl_dst'', Str (t_mac tg)), (''ports'', nums [mirror_port (t_port tg)]), (''allow'', Num 1)])
          (dict_values (port_targets t)) acls)
       (\<lambda>acls'. Inr (acls', foldl (\<lambda>m tg. add_mirror tg m) [] (dict_values (port_targets t))))"

definition mirror_kwargs :: "(string \<times> int) list \<Rightarrow> vdict list" where
  \<comment> \<open>the rules \<open>_generate_mirror_acls\<close> adds to the incoming list for one port set\<close>
  "mirror_kwargs mirror_tuples =
     concat (map (\<lambda>(src, src_mirror).
         [[(''dl_src'', Str src), (''dl_dst'', Str BROADCAST_MAC), (''vlan_vid'', Str NO_VLAN),
           (''ports'', nums (map snd mirror_tuples))]]
         @ map (\<lambda>(dst, dst_mirror).
             [(''dl_src'', Str src), (''dl_dst'', Str dst), (''vlan_vid'', Str NO_VLAN),
              (''ports'', nums [src_mirror, dst_mirror])])
           (filter (\<lambda>(dst, dst_mirror). dst \<noteq> src) mirror_tuples)
         @ [[(''dl_src'', Str src), (''vlan_vid'', Str NO_VLAN), (''ports'', nums [src_mirror])]])
       mirror_tuples)"

definition generate_mirror_acls ::
    "(int, (string \<times> int) list) dict \<Rightarrow> rule list \<times> portset_acls \<Rightarrow> (rule list \<times> portset_acls) result" where
  "generate_mirror_acls port_set_mirrors =
     fold_result (\<lambda>(pset, mirror_tuples) (incoming, acls).
         bind_result (add_acl_rules (mirror_kwargs mirror_tuples) incoming)
           (\<lambda>incoming'. bind_result
             (add_portset_rule pset
                [(''dl_dst'', Str BROADCAST_MAC), (''ports'', nums (map snd mirror_tuples @ [SWITCH_LOCAL_PORT])),
                 (''allow'', Num 1)] acls)
             (\<lambda>acls'. Inr (incoming', acls'))))
       port_set_mirrors"

definition dhcp_reflector_kwargs :: "(nat \<Rightarrow> topo_device) \<Rightarrow> topology \<Rightarrow> vdict list" where
  "dhcp_reflector_kwargs dev t =
     (if \<not> ext_faucet t then []
      else concat (map (\<lambda>dv.
          let egress = (case td_assigned (dev dv) of
                          None \<Rightarrow> opt_num (egress_vlan t)
                        | Some v \<Rightarrow> if v = 0 then opt_num (egress_vlan t) else Num v);
              vlan = opt_num (td_vlan (dev dv))
          in [[(''dl_type'', Str ''0x800''), (''nw_proto'', Num 17), (''udp_src'', Num 68), (''udp_dst'', Num 67),
               (''vlan_vid'', vlan), (''swap_vid'', egress), (''port'', Num OFPP_IN_PORT)],
              [(''dl_type'', Str ''0x800''), (''dl_dst'', Str (td_mac (dev dv))), (''nw_proto'', Num 17), (''udp_src'', Num 67),
               (''udp_dst'', Num 68), (''vlan_vid'', egress), (''swap_vid'', vlan), (''port'', Num OFPP_IN_PORT),
               (''allow'', Flag True)]]) (all_set_devices t))
        @ [[(''dl_type'', Str ''0x800''), (''allow'', Flag True), (''nw_proto'', Num 17), (''udp_src'', Num 68), (''udp_dst'', Num 67)],
           [(''dl_type'', Str ''0x800''), (''allow'', Flag False), (''nw_proto'', Num 17), (''udp_src'', Num 67), (''udp_dst'', Num 68)]])"

definition finish_portset_acls :: "topology \<Rightarrow> portset_acls \<Rightarrow> portset_acls result" where
  \<comment> \<open>the last loop over the port sets\<close>
  "finish_portset_acls t =
     fold_result (\<lambda>pset acls.
         bind_result (dict_index acls pset)
           (\<lambda>acl. bind_result
             (add_acl_rules (dot1x_allow_kwargs [PRI_TRUNK_PORT] None (Some (port_set_vlan (Some pset))) @ [[(''allow'', Num 1)]]) acl)
             (\<lambda>acl'. Inr (dict_set pset acl' acls))))
       [1 .. sec_port t - 1]"

definition generate_main_acls :: "(nat \<Rightarrow> topo_device) \<Rightarrow> topology \<Rightarrow> (string, rule list) dict result" where
  "generate_main_acls dev t =
     bind_result (add_acl_rules (dot1x_incoming_kwargs dev t) [])
       (\<lambda>incoming0. bind_result (add_acl_rules (dot1x_secondary_kwargs dev t) [])
       (\<lambda>secondary0. bind_result (generate_switch_local_acls t (map (\<lambda>pset. (pset, [])) [1 .. sec_port t - 1]))
       (\<lambda>(portsets0, local_acl). bind_result (generate_port_target_acls t portsets0)
       (\<lambda>(portsets1, mirrors). bind_result (generate_mirror_acls mirrors (incoming0, portsets1))
       (\<lambda>(incoming1, portsets2). bind_result (add_acl_rules (dhcp_reflector_kwargs dev t @ [[(''allow'', Num 1)]]) incoming1)
       (\<lambda>incoming. bind_result (add_acl_rules [[(''allow'', Num 1)]] secondary0)
       (\<lambda>secondary. bind_result (finish_portset_acls t portsets2)
       (\<lambda>portsets.
          Inr (set_entries
            ([(INCOMING_ACL_FORMAT pri_name, incoming), (INCOMING_ACL_FORMAT sec_name, secondary)]
             @ map (\<lambda>(pset, acl). (PORTSET_ACL_FORMAT pri_name pset, acl)) portsets
             @ [(LOCAL_ACL_FORMAT pri_name, local_acl)]) [])))))))))"

subsection \<open>Templates\<close>

definition get_device_type :: "string \<Rightarrow> topology \<Rightarrow> string" where
  "get_device_type mac t =
     (case dict_get (mac_addrs t) mac of
        None \<Rightarrow> ''default''
      | Some info \<Rightarrow> (case spec_type info of None \<Rightarrow> ''default'' | Some ty \<Rightarrow> ty))"

definition get_acl_template ::
    "(string \<Rightarrow> acl_template option) \<Rightarrow> string \<Rightarrow> topology \<Rightarrow> acl_template option result" where
  \<comment> \<open>\<open>load\<close> is what \<open>_load_file\<close> finds; a file that does not exist raises\<close>
  "get_acl_template load device_type t =
     (if \<not> has_specs t then Inr None
      else case load device_type of None \<Rightarrow> Inl GenericException | Some tpl \<Rightarrow> Inr (Some tpl))"

definition resolve_template_field :: "string \<Rightarrow> string option \<Rightarrow> rule \<Rightarrow> (string option \<times> rule) result" where
  "resolve_template_field field mac r =
     (case dict_get r field of
        None \<Rightarrow> Inr (None, r)
      | Some (Str placeholder) \<Rightarrow>
          Inr (Some placeholder,
            if starts_with placeholder MAC_PREFIX
            then dict_set field (case mac of None \<Rightarrow> Nil_val | Some m \<Rightarrow> Str m) r
            else if starts_with placeholder DNS_PREFIX then dict_del field r
            else if starts_with placeholder CTL_PREFIX then dict_del field r
            else r)
      | Some v \<Rightarrow> Inl AttributeError)"

definition conditional_match :: "rule \<Rightarrow> rule \<Rightarrow> string \<Rightarrow> bool" where
  "conditional_match src_rule dst_rule field =
     (case (dict_get src_rule field, dict_get dst_rule field) of
        (Some s, Some d) \<Rightarrow> if truth s \<and> truth d then s = d else True
      | _ \<Rightarrow> True)"

definition rule_match :: "rule \<Rightarrow> rule \<Rightarrow> string \<Rightarrow> bool" where
  "rule_match src_rule dst_rule controller =
     (dict_get dst_rule ''nw_src'' = Some (Str (CTL_PREFIX @ controller)) \<and>
      list_all (conditional_match src_rule dst_rule) [''udp_src'', ''udp_dst'', ''tcp_src'', ''tcp_dst''])"

definition allow_target_mac ::
    "(string \<Rightarrow> acl_template option) \<Rightarrow> topology \<Rightarrow> string \<Rightarrow> rule \<Rightarrow> string \<Rightarrow> bool result" where
  "allow_target_mac load t mac src_rule controller =
     bind_result (get_acl_template load (get_device_type mac t) t)
       (\<lambda>tpl. case tpl of
          None \<Rightarrow> Inr False
        | Some template_acl \<Rightarrow>
            if template_acl = [] \<or> dict_get (mac_addrs t) mac = None then Inr False
            else bind_result (dict_index template_acl (TO_ACL_KEY_FORMAT (get_device_type mac t)))
              (\<lambda>rules. Inr (list_ex (\<lambda>target_rule. rule_match src_rule target_rule controller) rules)))"

fun allowed_targets ::
    "(string \<Rightarrow> acl_template option) \<Rightarrow> topology \<Rightarrow> rule \<Rightarrow> string \<Rightarrow> string list \<Rightarrow> port_target list result" where
  \<comment> \<open>the loop over \<open>target_macs\<close> in \<open>_resolve_targets\<close>\<close>
  "allowed_targets load t src_rule controller [] = Inr []"
| "allowed_targets load t src_rule controller (mac # macs) =
     bind_result (allow_target_mac load t mac src_rule controller)
       (\<lambda>ok. bind_result (allowed_targets load t src_rule controller macs)
         (\<lambda>rest. Inr ((if ok then filter (\<lambda>tg. t_mac tg = mac) (dict_values (port_targets t)) else []) @ rest)))"

definition resolve_targets ::
    "(string \<Rightarrow> acl_template option) \<Rightarrow> topology \<Rightarrow> string option \<Rightarrow> string option \<Rightarrow> rule \<Rightarrow>
       port_target list option result" where
  "resolve_targets load t target src src_rule =
     (case target of
        None \<Rightarrow> Inr None
      | Some tg \<Rightarrow>
          if tg = [] \<or> \<not> starts_with tg CTL_PREFIX then Inr None
          else let controller = drop (length CTL_PREFIX) tg in
            bind_result (case src of None \<Rightarrow> Inl KeyError | Some mac \<Rightarrow> dict_index (mac_addrs t) mac)
              (\<lambda>bridge. case spec_controllers bridge of
                 None \<Rightarrow> Inr None
               | Some controllers \<Rightarrow>
                   (case dict_get controllers controller of
                      None \<Rightarrow> Inr None
                    | Some middle \<Rightarrow>
                        (case dict_get middle controller of
                           None \<Rightarrow> Inr None
                         | Some target_macs \<Rightarrow>
                             bind_result (allowed_targets load t src_rule controller target_macs)
                               (\<lambda>ts. Inr (Some ts))))))"

definition augment_sec_port_acl :: "topology \<Rightarrow> int list option \<Rightarrow> string option \<Rightarrow> rule \<Rightarrow> rule result" where
  "augment_sec_port_acl t ports dl_dst r =
     (case dict_get r ''actions'' of
        None \<Rightarrow> Inl KeyError
      | Some (Dict actions) \<Rightarrow>
          if dict_get actions ''output'' \<noteq> None then Inl AssertionError
          else (case dict_get actions ''allow'' of
             None \<Rightarrow> Inl KeyError
           | Some allow \<Rightarrow>
               if \<not> truth allow then Inr r
               else let out_ports = (case ports of None \<Rightarrow> [] | Some ps \<Rightarrow> ps) @ [sec_port t];
                        actions' = dict_set ''output'' (Dict [(''ports'', nums out_ports)]) actions;
                        r' = (case dl_dst of None \<Rightarrow> r | Some d \<Rightarrow> if d = [] then r else dict_set ''dl_dst'' (Str d) r)
                    in bind_result
                         (case dict_get r' ''udp_src'' of
                            None \<Rightarrow> Inr False
                          | Some v \<Rightarrow> if truth v then bind_result (val_int v) (\<lambda>n. Inr (n = 68)) else Inr False)
                         (\<lambda>is_dhcp. Inr (dict_set ''actions''
                            (Dict (if ports \<noteq> None \<and> \<not> is_dhcp then dict_del ''allow'' actions' else actions')) r')))
      | Some v \<Rightarrow> Inl TypeError)"

definition append_augmented_rule ::
    "topology \<Rightarrow> rule \<Rightarrow> port_target list option \<Rightarrow> rule list \<Rightarrow> rule list result" where
  "append_augmented_rule t r tgts rules =
     (case tgts of
        None \<Rightarrow> bind_result (augment_sec_port_acl t None None r) (\<lambda>r'. Inr (rules @ [r']))
      | Some ts \<Rightarrow>
          bind_result (augment_sec_port_acl t (Some (map t_port ts)) (Some BROADCAST_MAC) r)
            (\<lambda>r'. bind_result
               (mapM_result (\<lambda>tg. augment_sec_port_acl t (Some [t_port tg]) (Some (t_mac tg)) r) ts)
               (\<lambda>rs. Inr (rules @ r' # rs))))"

definition template_rule ::
    "(string \<Rightarrow> acl_template option) \<Rightarrow> topology \<Rightarrow> string option \<Rightarrow> rule \<Rightarrow> rule list \<Rightarrow> rule list result" where
  \<comment> \<open>the body of the loop in \<open>_append_acl_template\<close>\<close>
  "template_rule load t mac r rules =
     bind_result (resolve_template_field ''dl_src'' mac r)
       (\<lambda>(_, r1). bind_result (resolve_template_field ''nw_dst'' None r1)
       (\<lambda>(target, r2). bind_result (resolve_targets load t target mac r2)
       (\<lambda>tgts. append_augmented_rule t r2 tgts rules)))"

definition append_acl_template ::
    "(string \<Rightarrow> acl_template option) \<Rightarrow> topology \<Rightarrow> string \<Rightarrow> string option \<Rightarrow> rule list \<Rightarrow> (bool \<times> rule list) result" where
  "append_acl_template load t device_type mac rules =
     bind_result (get_acl_template load device_type t)
       (\<lambda>tpl. case tpl of
          None \<Rightarrow> Inr (False, rules)
        | Some template_acl \<Rightarrow>
            if template_acl = [] then Inr (False, rules)
            else bind_result (dict_index template_acl (FROM_ACL_KEY_FORMAT device_type))
              (\<lambda>rs. bind_result (fold_result (template_rule load t mac) rs rules)
                 (\<lambda>rules'. Inr (True, rules'))))"

definition make_default_allow_rule :: rule where
  "make_default_allow_rule = [(''actions'', Dict [(''allow'', Num 1)])]"

definition make_default_acl_rules :: "(string \<Rightarrow> acl_template option) \<Rightarrow> topology \<Rightarrow> rule list result" where
  "make_default_acl_rules load t =
     bind_result (append_acl_template load t ''raw'' None [])
       (\<lambda>(found, rules). if found then Inr rules else append_augmented_rule t make_default_allow_rule None rules)"

definition append_device_default_allow :: "topology \<Rightarrow> string \<Rightarrow> rule list \<Rightarrow> rule list result" where
  "append_device_default_allow t mac rules =
     (case dict_get (mac_addrs t) mac of
        None \<Rightarrow> Inr rules
      | Some spec \<Rightarrow>
          (case spec_default_allow spec of
             None \<Rightarrow> Inr rules
           | Some allow \<Rightarrow> append_augmented_rule t
               [(''actions'', Dict [(''allow'', Num (if allow then 1 else 0))]),
                (''description'', Str ''device_spec default_allow'')] None rules))"

definition generate_port_acl :: "(string \<Rightarrow> acl_template option) \<Rightarrow> topology \<Rightarrow> int \<Rightarrow> rule list result" where
  "generate_port_acl load t port =
     bind_result (add_acl_rules (dot1x_allow_kwargs [sec_port t] None (Some (get_port_vlan port t))) [])
       (\<lambda>rules0. case (if has_specs t then dict_get (port_targets t) port else None) of
          None \<Rightarrow> bind_result (make_default_acl_rules load t) (\<lambda>rs. Inr (rules0 @ rs))
        | Some target \<Rightarrow>
            bind_result (append_acl_template load t (get_device_type (t_mac target) t) (Some (t_mac target)) rules0)
              (\<lambda>(_, rules1). bind_result (append_acl_template load t ''baseline'' None rules1)
              (\<lambda>(found, rules2).
                 if \<not> found then Inl AssertionError else append_device_default_allow t (t_mac target) rules2)))"

subsection \<open>Directing traffic\<close>

type_synonym 'a topo_op = "(topology, 'a) op"

fun write_port_acls :: "(string \<Rightarrow> acl_template option) \<Rightarrow> int list \<Rightarrow> unit topo_op" where
  \<comment> \<open>\<open>_generate_port_acls\<close>: each list is written before the next one is made\<close>
  "write_port_acls load [] = ret_op ()"
| "write_port_acls load (port # ports) =
     then_op (\<lambda>t. bind_op (lift_op (generate_port_acl load t port))
                (\<lambda>rules. modify_op (\<lambda>t. t\<lparr>port_acls := dict_set port rules (port_acls t)\<rparr>)) t)
       (write_port_acls load ports)"

definition generate_acls :: "(string \<Rightarrow> acl_template option) \<Rightarrow> (nat \<Rightarrow> topo_device) \<Rightarrow> unit topo_op" where
  "generate_acls load dev t =
     then_op (bind_op (lift_op (generate_main_acls dev t)) (\<lambda>acls. modify_op (\<lambda>t. t\<lparr>main_acls := acls\<rparr>)))
       (write_port_acls load [1 .. sec_port t - 1]) t"

definition topology_initialize :: "(string \<Rightarrow> acl_template option) \<Rightarrow> (nat \<Rightarrow> topo_device) \<Rightarrow> unit topo_op" where
  "topology_initialize load dev = then_op (modify_op make_base_network_topology) (generate_acls load dev)"

definition populate_set_devices ::
    "(nat \<Rightarrow> topo_device) \<Rightarrow> nat \<Rightarrow> int option \<Rightarrow> (int \<times> int option) topo_op" where
  "populate_set_devices dev dv pset t =
     (case td_gateway (dev dv) of
        None \<Rightarrow> raise_op AttributeError t
      | Some g \<Rightarrow>
          let device_set = port_set g;
              falsy = (pset = None \<or> pset = Some 0)
          in if \<not> (pset = Some device_set \<or> falsy) then raise_op AssertionError t
             else let old = dict_get (set_devices t) device_set in
               if falsy \<and> (old = None \<or> dv \<notin> set (the old)) then raise_op KeyError t
               else let members = (case old of None \<Rightarrow> [] | Some l \<Rightarrow> l);
                        members' = (if falsy then remove1 dv members
                                    else if dv \<in> set members then members else members @ [dv]);
                        vlan = (if members' = [] then Some DUMP_VLAN else td_vlan (dev dv))
                    in (Inr (device_set, vlan), t\<lparr>set_devices := dict_set device_set members' (set_devices t)\<rparr>))"

fun set_native_vlan :: "int list \<Rightarrow> val \<Rightarrow> unit topo_op" where
  \<comment> \<open>\<open>for port in ports: interfaces[port]['native_vlan'] = vlan\<close>\<close>
  "set_native_vlan [] v = ret_op ()"
| "set_native_vlan (p # ps) v =
     (\<lambda>t. case dict_get (pri_interfaces t) p of
        None \<Rightarrow> raise_op KeyError t
      | Some i \<Rightarrow> then_op (modify_op (\<lambda>t. t\<lparr>pri_interfaces := dict_set p (dict_set ''native_vlan'' v i) (pri_interfaces t)\<rparr>))
                     (set_native_vlan ps v) t)"

definition direct_device_traffic ::
    "(string \<Rightarrow> acl_template option) \<Rightarrow> (nat \<Rightarrow> topo_device) \<Rightarrow> nat \<Rightarrow> int option \<Rightarrow> unit topo_op" where
  "direct_device_traffic load dev dv pset =
     bind_op (populate_set_devices dev dv pset)
       (\<lambda>(device_set, vlan).
          if vlan = None \<or> vlan = Some 0 then raise_op AssertionError
          else then_op (set_native_vlan (get_gw_ports device_set) (opt_num vlan)) (generate_acls load dev))"

definition set_sec_vlan :: "int \<Rightarrow> int \<Rightarrow> unit topo_op" where
  "set_sec_vlan port_no v t =
     (case dict_get (sec_interfaces t) port_no of
        None \<Rightarrow> raise_op KeyError t
      | Some i \<Rightarrow> modify_op (\<lambda>t. t\<lparr>sec_interfaces := dict_set port_no (dict_set ''native_vlan'' (Num v) i) (sec_interfaces t)\<rparr>) t)"

definition direct_port_traffic ::
    "(string \<Rightarrow> acl_template option) \<Rightarrow> (nat \<Rightarrow> topo_device) \<Rightarrow> nat \<Rightarrow> int \<Rightarrow> port_target option \<Rightarrow> unit topo_op" where
  "direct_port_traffic load dev dv port_no target =
     bind_op (\<lambda>t. populate_set_devices dev dv (map_option port_set (td_gateway (dev dv))) t)
       (\<lambda>_ t. let old = dict_get (port_targets t) port_no;
                  apply = (\<lambda>t'. then_op (generate_acls load dev)
                             (set_sec_vlan port_no (port_set_vlan (map_option t_port_set target))) t')
              in (case (target, old) of
                    (None, Some _) \<Rightarrow> apply (t\<lparr>port_targets := dict_del port_no (port_targets t)\<rparr>)
                  | (Some tg, None) \<Rightarrow> apply (t\<lparr>port_targets := dict_set port_no tg (port_targets t)\<rparr>)
                  | (None, None) \<Rightarrow> raise_op KeyError t
                  | (Some tg, Some tg') \<Rightarrow> if tg = tg' then ret_op () t else raise_op AssertionError t))"

subsection \<open>Device groups\<close>

definition sanitize_mac :: "string \<Rightarrow> string" where
  "sanitize_mac mac = filter (\<lambda>c. c \<noteq> CHR '':'') mac"

definition device_group_for :: "topology \<Rightarrow> string \<Rightarrow> int option \<Rightarrow> string" where
  "device_group_for t mac vlan =
     (if ext_faucet t then ''vlan-'' @ (case vlan of None \<Rightarrow> ''None'' | Some v \<Rightarrow> show_int v)
      else case (if has_specs t then dict_get (mac_addrs t) mac else None) of
        None \<Rightarrow> sanitize_mac mac
      | Some spec \<Rightarrow> (case spec_group spec of None \<Rightarrow> sanitize_mac mac | Some g \<Rightarrow> g))"

definition device_group_size :: "topology \<Rightarrow> string \<Rightarrow> nat" where
  "device_group_size t group_name =
     (if \<not> has_specs t then 1
      else let count = length (filter (\<lambda>spec. spec_group spec = Some group_name) (dict_values (mac_addrs t)))
           in if count = 0 then 1 else count)"

end
