(* ===== verification/Topology_Rules.thy ===== *)
theory Topology_Rules
  imports Topology
begin

text \<open>
  What the base topology and the access lists of the primary switch contain. The interfaces of the
  switches are looked up by port; rules are made without an error from the keywords the code passes;
  the loops that extend the lists of the port sets are characterised by what each list receives, and
  the generated lists are compared with a reference definition.
\<close>

text \<open>A small network for the examples: two device ports, one of them directed to port set 2.\<close>

definition example_topology :: topology where
  "example_topology =
     \<lparr>sec_port = 3, sec_dpid = 2, ext_ofip = None, ext_intf = None, ext_faucet = False, vlan_start = None, vlan_end = 0,
      egress_vlan = None, native_vlan = None, interface_names = [], device_specs = None, port_targets = [], set_devices = [],
      pri_interfaces = [], sec_interfaces = [], main_acls = [], port_acls = []\<rparr>"

definition example_target :: port_target where
  "example_target = \<lparr>t_port = 1, t_port_set = 2, t_mac = ''9a:02:57:1e:8f:01'', t_group = ''9a02571e8f01'', t_fake = Some ''192.168.84.2''\<rparr>"

definition example_gateway :: gateway where
  "example_gateway = \<lparr>gw_name = ''gw02'', port_set = 2, targets = [], test_ports = [], ready = [], activated = True, is_native = False\<rparr>"

definition example_device :: topo_device where
  "example_device = \<lparr>td_mac = ''9a:02:57:1e:8f:01'', td_vlan = Some 1002, td_assigned = None, td_port_no = Some 1, td_gateway = Some example_gateway\<rparr>"

lemmas example_defs = example_topology_def example_target_def example_gateway_def example_device_def

subsection \<open>Interfaces of the switches\<close>

lemma set_entries_get: "dict_get (set_entries kvs d) k = (case map_of (rev kvs) k of None \<Rightarrow> dict_get d k | Some v \<Rightarrow> Some v)"
proof (induction kvs arbitrary: d)
  case (Cons kv kvs)
  then show ?case
    by (cases kv) (auto simp: set_entries_def dict_get_set map_add_def split: option.splits)
qed (simp add: set_entries_def)

text \<open>An entry that no assignment to the same key contradicts is found under its key.\<close>

lemma set_entries_unique:
  assumes "(k, v) \<in> set kvs" "\<And>v'. (k, v') \<in> set kvs \<Longrightarrow> v' = v"
  shows "dict_get (set_entries kvs d) k = Some v"
proof -
  have "k \<in> fst ` set (rev kvs)" using image_eqI [of k fst "(k, v)", OF _ assms(1)] by simp
  then have "map_of (rev kvs) k \<noteq> None" by (simp add: map_of_eq_None_iff)
  then obtain v' where v': "map_of (rev kvs) k = Some v'" by blast
  then have "(k, v') \<in> set kvs" using map_of_SomeD by fastforce
  with assms(2) v' show ?thesis by (simp add: set_entries_get)
qed

lemma gw_ports_iff: "port \<in> set (get_gw_ports pset) \<longleftrightarrow> 10 * pset \<le> port \<and> port < 10 * pset + 6"
  by (auto simp: get_gw_ports_def gateway_consts)

lemma gw_ports_disjoint: "port \<in> set (get_gw_ports p) \<Longrightarrow> port \<in> set (get_gw_ports q) \<Longrightarrow> p = q"
  by (auto simp: gw_ports_iff)

lemma gw_ports_of_gateway: "set (get_possible_test_ports g) \<subseteq> set (get_gw_ports (port_set g))"
  by (auto simp: get_possible_test_ports_def switch_port_def gw_ports_iff gateway_consts)

lemma port_set_vlan_pos [simp]: "0 < p \<Longrightarrow> port_set_vlan (Some p) = LOCAL_VLAN + p"
  by (simp add: port_set_vlan_def)

lemma port_set_vlan_None [simp]: "port_set_vlan None = DUMP_VLAN"
  by (simp add: port_set_vlan_def)

definition pri_entries :: "topology \<Rightarrow> (int \<times> interface) set" where
  "pri_entries t =
     {(PRI_TRUNK_PORT, make_pri_trunk_interface t), (OFPP_IN_PORT, make_in_port_interface),
      (SWITCH_LOCAL_PORT, make_local_interface)}
     \<union> {(port, make_gw_interface t p) |port p. 1 \<le> p \<and> p < sec_port t \<and> port \<in> set (get_gw_ports p)}
     \<union> {(mirror_port p, make_mirror_interface p) |p. 1 \<le> p \<and> p < sec_port t}"

lemma pri_entries_functional:
  "sec_port t \<le> 100 \<Longrightarrow> (k, v) \<in> pri_entries t \<Longrightarrow> (k, v') \<in> pri_entries t \<Longrightarrow> v' = v"
  by (auto simp: pri_entries_def gw_ports_iff mirror_port_def topology_consts
      intro!: arg_cong [where f = "make_gw_interface t"])

lemma pri_interfaces_lookup:
  assumes "sec_port t \<le> 100" "(k, v) \<in> pri_entries t"
  shows "dict_get (make_pri_interfaces t) k = Some v"
proof -
  have set: "set ([(PRI_TRUNK_PORT, make_pri_trunk_interface t), (OFPP_IN_PORT, make_in_port_interface)]
        @ concat (map (\<lambda>pset. map (\<lambda>port. (port, make_gw_interface t pset)) (get_gw_ports pset)
              @ [(mirror_port pset, make_mirror_interface pset)]) [1 .. sec_port t - 1])
        @ [(SWITCH_LOCAL_PORT, make_local_interface)]) = pri_entries t"
    by (auto simp: pri_entries_def)
  show ?thesis unfolding make_pri_interfaces_def
    by (rule set_entries_unique; use assms pri_entries_functional set in blast)
qed

lemma sec_interfaces_lookup:
  assumes "1 \<le> port" "port < sec_port t"
  shows "dict_get (make_sec_interfaces t) port = Some (make_sec_port_interface t port)"
  unfolding make_sec_interfaces_def by (rule set_entries_unique) (use assms in auto)

lemma sec_trunk_lookup: "dict_get (make_sec_interfaces t) (sec_port t) = Some (make_sec_trunk_interface t)"
  unfolding make_sec_interfaces_def by (rule set_entries_unique) auto

subsection \<open>Making rules\<close>

text \<open>The keywords the code passes: each at most once, and never \<open>in_vlan\<close>.\<close>

lemma maybe_apply_Nil [simp]: "maybe_apply k [] source target = Inr target"
  by (simp add: maybe_apply_def)

lemma maybe_apply_all_total:
  assumes "distinct (map fst (filter (\<lambda>x. fst (snd x) \<noteq> []) specs))"
    and "\<And>k. k \<in> set (map fst (filter (\<lambda>x. fst (snd x) \<noteq> []) specs)) \<Longrightarrow> dict_get target k = None"
  shows "\<exists>r. maybe_apply_all specs target = Inr r"
  using assms
proof (induction specs arbitrary: target)
  case (Cons x specs)
  obtain k origin source where x: "x = (k, origin, source)" by (cases x)
  show ?case
  proof (cases "origin = []")
    case True
    with Cons x show ?thesis by simp
  next
    case False
    have "dict_get target k = None" using Cons.prems(2) [of k] x False by simp
    then have "\<exists>target'. maybe_apply k origin source target = Inr target' \<and> (\<forall>j. j \<noteq> k \<longrightarrow> dict_get target' j = dict_get target j)"
      by (cases "dict_get origin source") (auto simp: maybe_apply_def dict_get_set)
    then obtain target' where t': "maybe_apply k origin source target = Inr target'"
      "\<And>j. j \<noteq> k \<Longrightarrow> dict_get target' j = dict_get target j" by blast
    have "\<exists>r. maybe_apply_all specs target' = Inr r"
    proof (rule Cons.IH)
      show "distinct (map fst (filter (\<lambda>x. fst (snd x) \<noteq> []) specs))" using Cons.prems(1) x by (simp split: if_splits)
    next
      fix j assume j: "j \<in> set (map fst (filter (\<lambda>x. fst (snd x) \<noteq> []) specs))"
      with Cons.prems(1) x False have "j \<noteq> k" by auto
      with t'(2) Cons.prems(2) [of j] j x False show "dict_get target' j = None" by auto
    qed
    with t'(1) x show ?thesis by simp
  qed
qed simp

lemma make_acl_rule_total:
  assumes "dict_get kwargs ''in_vlan'' = None"
  shows "\<exists>r. make_acl_rule kwargs = Inr r"
proof -
  have iv: "in_vlan_of kwargs = []" using assms by (simp add: in_vlan_of_def)
  have o: "\<exists>out. maybe_apply_all
      [(''port'', kwargs, ''port''), (''ports'', kwargs, ''ports''), (''vlan_vid'', kwargs, ''out_vid''),
       (''swap_vid'', kwargs, ''swap_vid''), (''pop_vlans'', in_vlan_of kwargs, ''pop_vlans'')] [] = Inr out"
    by (rule maybe_apply_all_total) auto
  have a: "\<exists>acts. maybe_apply_all [(''allow'', kwargs, ''allow''), (''mirror'', kwargs, ''mirror'')]
      (if out = [] then [] else [(''output'', Dict out)]) = Inr acts" for out
    by (rule maybe_apply_all_total) (auto split: if_splits)
  have r: "\<exists>r. maybe_apply_all [(''dl_type'', kwargs, ''dl_type''), (''dl_src'', kwargs, ''dl_src''),
     (''dl_dst'', kwargs, ''dl_dst''), (''nw_proto'', kwargs, ''nw_proto''), (''udp_src'', kwargs, ''udp_src''),
     (''udp_dst'', kwargs, ''udp_dst''), (''vlan_vid'', in_vlan_of kwargs, ''vlan_vid''),
     (''vlan_vid'', kwargs, ''vlan_vid''), (''ipv4_dst'', kwargs, ''ipv4_dst''),
     (''eth_type'', kwargs, ''eth_type'')] [(''actions'', Dict acts)] = Inr r" for acts
    unfolding iv by (rule maybe_apply_all_total) (auto split: if_splits)
  from o obtain out where o': "maybe_apply_all
      [(''port'', kwargs, ''port''), (''ports'', kwargs, ''ports''), (''vlan_vid'', kwargs, ''out_vid''),
       (''swap_vid'', kwargs, ''swap_vid''), (''pop_vlans'', in_vlan_of kwargs, ''pop_vlans'')] [] = Inr out" ..
  from a [of out] obtain acts where "maybe_apply_all [(''allow'', kwargs, ''allow''), (''mirror'', kwargs, ''mirror'')]
      (if out = [] then [] else [(''output'', Dict out)]) = Inr acts" ..
  with o' r [of acts] show ?thesis by (simp add: make_acl_rule_def)
qed

definition rule_of :: "vdict \<Rightarrow> rule" where
  "rule_of kwargs = (case make_acl_rule kwargs of Inl _ \<Rightarrow> [] | Inr r \<Rightarrow> r)"

definition no_in_vlan :: "vdict \<Rightarrow> bool" where
  "no_in_vlan kwargs \<longleftrightarrow> dict_get kwargs ''in_vlan'' = None"

lemma add_acl_rule_total: "no_in_vlan k \<Longrightarrow> add_acl_rule k acl = Inr (acl @ [rule_of k])"
  using make_acl_rule_total [of k] by (auto simp: no_in_vlan_def add_acl_rule_def rule_of_def)

lemma add_acl_rules_total: "list_all no_in_vlan ks \<Longrightarrow> add_acl_rules ks acl = Inr (acl @ map rule_of ks)"
  by (induction ks arbitrary: acl) (simp_all add: add_acl_rule_total)

lemma add_portset_rule_total:
  assumes "no_in_vlan k" "dict_get acls pset = Some acl"
  shows "add_portset_rule pset k acls = Inr (dict_set pset (acl @ [rule_of k]) acls)"
  using assms by (simp add: add_portset_rule_def dict_index_def add_acl_rule_total)

lemma no_in_vlan_dot1x: "list_all no_in_vlan (dot1x_allow_kwargs ports v out)"
  by (simp add: dot1x_allow_kwargs_def no_in_vlan_def)

lemma no_in_vlan_kwargs:
  "list_all no_in_vlan (dot1x_incoming_kwargs dev t)"
  "list_all no_in_vlan (dot1x_secondary_kwargs dev t)"
  "list_all no_in_vlan (dhcp_reflector_kwargs dev t)"
  "list_all no_in_vlan (mirror_kwargs ms)"
  by (auto simp: dot1x_incoming_kwargs_def dot1x_secondary_kwargs_def dhcp_reflector_kwargs_def mirror_kwargs_def
      no_in_vlan_dot1x no_in_vlan_def Let_def list_all_iff dot1x_allow_kwargs_def split: option.splits if_splits)

subsection \<open>The access lists as a whole\<close>

text \<open>
  What a loop of \<open>portset_acls[x].append(...)\<close> does: every list gets the rules that name it, in
  order, and it fails only on a set that has no list.
\<close>

lemma fold_portset_rules:
  assumes "\<And>x. x \<in> set xs \<Longrightarrow> no_in_vlan (kw x) \<and> dict_get acls (ps x) \<noteq> None"
  shows "\<exists>acls'. fold_result (\<lambda>x. add_portset_rule (ps x) (kw x)) xs acls = Inr acls' \<and> dict_keys acls' = dict_keys acls \<and>
    (\<forall>p. dict_get acls' p = map_option (\<lambda>acl. acl @ map (\<lambda>x. rule_of (kw x)) (filter (\<lambda>x. ps x = p) xs)) (dict_get acls p))"
  using assms
proof (induction xs arbitrary: acls)
  case Nil
  then show ?case by (simp add: option.map_ident)
next
  case (Cons x xs)
  then obtain acl where acl: "dict_get acls (ps x) = Some acl" by force
  let ?acls1 = "dict_set (ps x) (acl @ [rule_of (kw x)]) acls"
  have step: "add_portset_rule (ps x) (kw x) acls = Inr ?acls1"
    using Cons.prems acl by (intro add_portset_rule_total) auto
  have keys: "dict_keys ?acls1 = dict_keys acls"
    using acl by (auto simp: update_keys dest: map_of_SomeD intro: rev_image_eqI)
  have "\<And>y. y \<in> set xs \<Longrightarrow> no_in_vlan (kw y) \<and> dict_get ?acls1 (ps y) \<noteq> None"
    using Cons.prems by (auto simp: dict_get_set)
  from Cons.IH [OF this] obtain acls' where r: "fold_result (\<lambda>x. add_portset_rule (ps x) (kw x)) xs ?acls1 = Inr acls'"
    "dict_keys acls' = dict_keys ?acls1"
    "\<And>p. dict_get acls' p = map_option (\<lambda>acl. acl @ map (\<lambda>x. rule_of (kw x)) (filter (\<lambda>x. ps x = p) xs)) (dict_get ?acls1 p)"
    by blast
  have "dict_get acls' p = map_option (\<lambda>acl. acl @ map (\<lambda>x. rule_of (kw x)) (filter (\<lambda>x. ps x = p) (x # xs))) (dict_get acls p)" for p
    using r(3) [of p] acl by (simp add: dict_get_set)
  with r(1,2) step keys show ?case by auto
qed

lemma fold_portset_missing:
  assumes "list_all (\<lambda>x. no_in_vlan (kw x)) xs" "\<not> list_all (\<lambda>x. dict_get acls (ps x) \<noteq> None) xs"
  shows "fold_result (\<lambda>x. add_portset_rule (ps x) (kw x)) xs acls = Inl KeyError"
  using assms
proof (induction xs arbitrary: acls)
  case (Cons x xs)
  show ?case
  proof (cases "dict_get acls (ps x)")
    case None
    then show ?thesis by (simp add: add_portset_rule_def dict_index_def)
  next
    case (Some acl)
    let ?acls1 = "dict_set (ps x) (acl @ [rule_of (kw x)]) acls"
    have "dict_get ?acls1 p = None \<longleftrightarrow> dict_get acls p = None" for p
      using Some by (simp add: dict_get_set)
    then have "\<not> list_all (\<lambda>x. dict_get ?acls1 (ps x) \<noteq> None) xs"
      using Cons.prems(2) Some by simp
    with Cons.IH Cons.prems(1) Some show ?thesis by (simp add: add_portset_rule_total)
  qed
qed simp

definition mirror_broadcast_rule :: "(string \<times> int) list \<Rightarrow> rule" where
  "mirror_broadcast_rule mt = rule_of
     [(''dl_dst'', Str BROADCAST_MAC), (''ports'', nums (map snd mt @ [SWITCH_LOCAL_PORT])), (''allow'', Num 1)]"

lemma fold_mirror_rules:
  assumes "\<And>m. m \<in> set ms \<Longrightarrow> dict_get acls (fst m) \<noteq> None"
  shows "\<exists>acls'. generate_mirror_acls ms (incoming, acls) =
      Inr (incoming @ map rule_of (concat (map (\<lambda>m. mirror_kwargs (snd m)) ms)), acls') \<and> dict_keys acls' = dict_keys acls \<and>
    (\<forall>p. dict_get acls' p = map_option (\<lambda>acl. acl @ map (\<lambda>m. mirror_broadcast_rule (snd m)) (filter (\<lambda>m. fst m = p) ms)) (dict_get acls p))"
  using assms
proof (induction ms arbitrary: incoming acls)
  case Nil
  then show ?case by (simp add: generate_mirror_acls_def option.map_ident)
next
  case (Cons m ms)
  obtain q mt where m: "m = (q, mt)" by (cases m)
  with Cons.prems obtain acl where acl: "dict_get acls q = Some acl" by force
  let ?kw = "[(''dl_dst'', Str BROADCAST_MAC), (''ports'', nums (map snd mt @ [SWITCH_LOCAL_PORT])), (''allow'', Num 1)]"
  let ?acls1 = "dict_set q (acl @ [rule_of ?kw]) acls"
  have step: "add_portset_rule q ?kw acls = Inr ?acls1"
    using acl by (intro add_portset_rule_total) (auto simp: no_in_vlan_def)
  have keys: "dict_keys ?acls1 = dict_keys acls"
    using acl by (auto simp: update_keys dest: map_of_SomeD intro: rev_image_eqI)
  have "\<And>m. m \<in> set ms \<Longrightarrow> dict_get ?acls1 (fst m) \<noteq> None"
    using Cons.prems by (auto simp: dict_get_set)
  from Cons.IH [OF this, where incoming = "incoming @ map rule_of (mirror_kwargs mt)"] obtain acls' where r:
    "generate_mirror_acls ms (incoming @ map rule_of (mirror_kwargs mt), ?acls1) =
      Inr (incoming @ map rule_of (mirror_kwargs mt) @ map rule_of (concat (map (\<lambda>m. mirror_kwargs (snd m)) ms)), acls')"
    "dict_keys acls' = dict_keys ?acls1"
    "\<And>p. dict_get acls' p = map_option (\<lambda>acl. acl @ map (\<lambda>m. mirror_broadcast_rule (snd m)) (filter (\<lambda>m. fst m = p) ms)) (dict_get ?acls1 p)"
    by (auto simp only: append_assoc)
  have "generate_mirror_acls (m # ms) (incoming, acls) =
      Inr (incoming @ map rule_of (concat (map (\<lambda>m. mirror_kwargs (snd m)) (m # ms))), acls')"
    using r(1) m step add_acl_rules_total [OF no_in_vlan_kwargs(4), of mt incoming]
    by (simp add: generate_mirror_acls_def)
  moreover have "dict_get acls' p = map_option (\<lambda>acl. acl @ map (\<lambda>m. mirror_broadcast_rule (snd m)) (filter (\<lambda>m. fst m = p) (m # ms))) (dict_get acls p)" for p
    using r(3) [of p] acl m by (simp add: dict_get_set mirror_broadcast_rule_def)
  ultimately show ?case using r(2) keys by auto
qed

text \<open>The mirrors of a set: its targets in the order they were added.\<close>

definition mirrors_of :: "port_target list \<Rightarrow> int \<Rightarrow> (string \<times> int) list" where
  "mirrors_of tgs p = map (\<lambda>tg. (t_mac tg, mirror_port (t_port tg))) (filter (\<lambda>tg. t_port_set tg = p) tgs)"

lemma add_mirror_foldl:
  "dict_get (foldl (\<lambda>m tg. add_mirror tg m) m tgs) p =
     (case dict_get m p of
        None \<Rightarrow> (if mirrors_of tgs p = [] then None else Some (mirrors_of tgs p))
      | Some l \<Rightarrow> Some (l @ mirrors_of tgs p))"
proof (induction tgs arbitrary: m)
  case (Cons tg tgs)
  show ?case using Cons [of "add_mirror tg m"]
    by (auto simp: add_mirror_def Let_def dict_get_set mirrors_of_def split: option.splits)
qed (simp add: mirrors_of_def split: option.splits)

lemma add_mirror_ok: "dict_ok m \<Longrightarrow> dict_ok (foldl (\<lambda>m tg. add_mirror tg m) m tgs)"
  by (induction tgs arbitrary: m) (simp_all add: add_mirror_def Let_def)

lemma filter_dict_key:
  "dict_ok d \<Longrightarrow> filter (\<lambda>m. fst m = p) d = (case dict_get d p of None \<Rightarrow> [] | Some v \<Rightarrow> [(p, v)])"
proof (induction d)
  case (Cons x d)
  obtain q v where x: "x = (q, v)" by (cases x)
  show ?case
  proof (cases "q = p")
    case True
    with Cons.prems x have "p \<notin> fst ` set d" by simp
    then have "filter (\<lambda>m. fst m = p) d = []" by (force simp: filter_empty_conv)
    with True x show ?thesis by simp
  next
    case False
    with Cons x show ?thesis by simp
  qed
qed simp

lemma fold_finish:
  assumes "\<And>p. p \<in> set ps \<Longrightarrow> 0 < p \<and> dict_get acls p \<noteq> None" "distinct ps"
  shows "\<exists>acls'. fold_result (\<lambda>pset acls.
         bind_result (dict_index acls pset)
           (\<lambda>acl. bind_result
             (add_acl_rules (dot1x_allow_kwargs [PRI_TRUNK_PORT] None (Some (port_set_vlan (Some pset))) @ [[(''allow'', Num 1)]]) acl)
             (\<lambda>acl'. Inr (dict_set pset acl' acls)))) ps acls = Inr acls' \<and> dict_keys acls' = dict_keys acls \<and>
    (\<forall>p. dict_get acls' p = map_option (\<lambda>acl. if p \<in> set ps then acl @ map rule_of
        (dot1x_allow_kwargs [PRI_TRUNK_PORT] None (Some (port_set_vlan (Some p))) @ [[(''allow'', Num 1)]]) else acl)
        (dict_get acls p))"
  using assms
proof (induction ps arbitrary: acls)
  case Nil
  then show ?case by (simp add: option.map_ident)
next
  case (Cons q ps)
  then obtain acl where acl: "dict_get acls q = Some acl" by force
  let ?kws = "dot1x_allow_kwargs [PRI_TRUNK_PORT] None (Some (port_set_vlan (Some q))) @ [[(''allow'', Num 1)]]"
  let ?acls1 = "dict_set q (acl @ map rule_of ?kws) acls"
  have ok: "list_all no_in_vlan ?kws" using no_in_vlan_dot1x by (simp add: no_in_vlan_def)
  have keys: "dict_keys ?acls1 = dict_keys acls"
    using acl by (auto simp: update_keys dest: map_of_SomeD intro: rev_image_eqI)
  have "\<And>p. p \<in> set ps \<Longrightarrow> 0 < p \<and> dict_get ?acls1 p \<noteq> None" "distinct ps"
    using Cons.prems by (auto simp: dict_get_set)
  note ih = Cons.IH [OF this]
  have "q \<notin> set ps" using Cons.prems(2) by simp
  then show ?case using ih acl keys add_acl_rules_total [OF ok, of acl]
    by (auto simp: dict_index_def dict_get_set)
qed

text \<open>The reference definition of the access list of a port set, rule by rule.\<close>

definition allow_rule :: rule where
  "allow_rule = [(''actions'', Dict [(''allow'', Num 1)])]"

definition switch_local_rule :: "string \<Rightarrow> rule" where
  "switch_local_rule ip =
     [(''actions'', Dict [(''output'', Dict [(''ports'', nums [SWITCH_LOCAL_PORT])])]),
      (''dl_type'', Str IPV4_DL_TYPE), (''ipv4_dst'', Str ip)]"

definition target_rule :: "port_target \<Rightarrow> rule" where
  "target_rule tg =
     [(''actions'', Dict [(''output'', Dict [(''ports'', nums [mirror_port (t_port tg)])]), (''allow'', Num 1)]),
      (''dl_dst'', Str (t_mac tg))]"

definition broadcast_rule :: "port_target list \<Rightarrow> rule" where
  "broadcast_rule tgs =
     [(''actions'', Dict [(''output'', Dict [(''ports'', nums (map (\<lambda>tg. mirror_port (t_port tg)) tgs @ [SWITCH_LOCAL_PORT]))]),
        (''allow'', Num 1)]),
      (''dl_dst'', Str BROADCAST_MAC)]"

definition dot1x_rule :: "int \<Rightarrow> rule" where
  "dot1x_rule p =
     [(''actions'', Dict [(''output'', Dict [(''ports'', nums [PRI_TRUNK_PORT]), (''vlan_vid'', Num (LOCAL_VLAN + p))])]),
      (''eth_type'', Num DOT1X_ETH_TYPE)]"

definition set_targets :: "topology \<Rightarrow> int \<Rightarrow> port_target list" where
  "set_targets t p = filter (\<lambda>tg. t_port_set tg = p) (dict_values (port_targets t))"

definition portset_acl_spec :: "topology \<Rightarrow> int \<Rightarrow> rule list" where
  "portset_acl_spec t p =
     (case ext_ofip t of None \<Rightarrow> [] | Some ip \<Rightarrow> if ip = [] then [] else [switch_local_rule ip])
     @ map target_rule (set_targets t p)
     @ (if set_targets t p = [] then [] else [broadcast_rule (set_targets t p)])
     @ [dot1x_rule p, allow_rule]"

lemmas rule_eval = rule_of_def make_acl_rule_def maybe_apply_def in_vlan_of_def nums_def

lemma rule_of_allow [simp]: "rule_of [(''allow'', Num 1)] = allow_rule"
  by (simp add: rule_eval allow_rule_def)

lemma rule_of_target:
  "rule_of [(''dl_dst'', Str (t_mac tg)), (''ports'', nums [mirror_port (t_port tg)]), (''allow'', Num 1)] = target_rule tg"
  by (simp add: rule_eval target_rule_def)

lemma rule_of_local:
  "rule_of [(''ports'', nums [SWITCH_LOCAL_PORT]), (''ipv4_dst'', Str ip), (''dl_type'', Str IPV4_DL_TYPE)] = switch_local_rule ip"
  by (simp add: rule_eval switch_local_rule_def)

lemma rule_of_dot1x:
  "0 < p \<Longrightarrow> map rule_of (dot1x_allow_kwargs [PRI_TRUNK_PORT] None (Some (port_set_vlan (Some p)))) = [dot1x_rule p]"
  by (simp add: dot1x_allow_kwargs_def opt_num_def rule_eval dot1x_rule_def topology_consts)

lemma rule_of_broadcast: "mirror_broadcast_rule (mirrors_of tgs p) = broadcast_rule (filter (\<lambda>tg. t_port_set tg = p) tgs)"
  by (simp add: mirror_broadcast_rule_def mirrors_of_def rule_eval broadcast_rule_def comp_def)

definition targets_in_range :: "topology \<Rightarrow> bool" where
  "targets_in_range t = list_all (\<lambda>tg. 1 \<le> t_port_set tg \<and> t_port_set tg < sec_port t) (dict_values (port_targets t))"

definition port_set_mirrors :: "topology \<Rightarrow> (int, (string \<times> int) list) dict" where
  "port_set_mirrors t = foldl (\<lambda>m tg. add_mirror tg m) [] (dict_values (port_targets t))"

definition incoming_kwargs :: "(nat \<Rightarrow> topo_device) \<Rightarrow> topology \<Rightarrow> vdict list" where
  "incoming_kwargs dev t =
     dot1x_incoming_kwargs dev t @ concat (map (\<lambda>m. mirror_kwargs (snd m)) (port_set_mirrors t)) @ dhcp_reflector_kwargs dev t"

lemma initial_lists: "dict_get (map (\<lambda>p. (p, [])) ps) p = (if p \<in> set ps then Some [] else None)"
  by (induction ps) auto

lemma initial_keys: "dict_keys (map (\<lambda>p. (p, [])) ps) = ps"
  by (simp add: comp_def)

lemma switch_local_acls:
  "\<exists>acls loc. generate_switch_local_acls t (map (\<lambda>p. (p, [])) [1 .. sec_port t - 1]) = Inr (acls, loc) \<and> dict_ok acls \<and>
     (\<forall>p. dict_get acls p = (if 1 \<le> p \<and> p < sec_port t
        then Some (case ext_ofip t of None \<Rightarrow> [] | Some ip \<Rightarrow> if ip = [] then [] else [switch_local_rule ip]) else None))"
proof -
  let ?acls = "map (\<lambda>p. (p, [] :: rule list)) [1 .. sec_port t - 1]"
  define ip where "ip = (case ext_ofip t of None \<Rightarrow> '''' | Some s \<Rightarrow> s)"
  define ps where "ps = (if ip = [] then [] else [1 .. sec_port t - 1])"
  let ?kw = "[(''ports'', nums [SWITCH_LOCAL_PORT]), (''ipv4_dst'', Str ip), (''dl_type'', Str IPV4_DL_TYPE)]"
  have "\<And>x. x \<in> set ps \<Longrightarrow> no_in_vlan ?kw \<and> dict_get ?acls x \<noteq> None"
    by (auto simp: ps_def no_in_vlan_def initial_lists split: if_splits)
  from fold_portset_rules [where ps = "\<lambda>x. x" and kw = "\<lambda>_. ?kw", OF this] obtain acls where a:
    "fold_result (\<lambda>x. add_portset_rule x ?kw) ps ?acls = Inr acls" "dict_keys acls = dict_keys ?acls"
    "\<And>p. dict_get acls p = map_option (\<lambda>acl. acl @ map (\<lambda>x. rule_of ?kw) (filter (\<lambda>x. x = p) ps)) (dict_get ?acls p)"
    by auto
  have one: "filter (\<lambda>x. x = p) [1 .. sec_port t - 1] = (if 1 \<le> p \<and> p < sec_port t then [p] else [])" for p
  proof -
    have "filter (\<lambda>x. x = p) xs = (if p \<in> set xs then [p] else [])" if "distinct xs" for xs
      using that by (induction xs) auto
    then show ?thesis by auto
  qed
  have "dict_get acls p = (if 1 \<le> p \<and> p < sec_port t
        then Some (case ext_ofip t of None \<Rightarrow> [] | Some ip \<Rightarrow> if ip = [] then [] else [switch_local_rule ip]) else None)" for p
    using a(3) [of p] by (auto simp: initial_lists ps_def one ip_def rule_of_local split: option.splits)
  moreover have "add_acl_rule [(''ports'', nums (concat (map get_gw_ports ps)))] [] =
      Inr [rule_of [(''ports'', nums (concat (map get_gw_ports ps)))]]"
    by (simp add: add_acl_rule_total no_in_vlan_def)
  moreover have "dict_ok acls" unfolding a(2) initial_keys by simp
  ultimately show ?thesis using a(1)
    by (auto simp: generate_switch_local_acls_def Let_def ip_def [symmetric] ps_def [symmetric])
qed


lemma target_acls:
  assumes "targets_in_range t" "\<And>p. dict_get acls p \<noteq> None \<longleftrightarrow> 1 \<le> p \<and> p < sec_port t"
  shows "\<exists>acls'. generate_port_target_acls t acls = Inr (acls', port_set_mirrors t) \<and> dict_keys acls' = dict_keys acls \<and>
     (\<forall>p. dict_get acls' p = map_option (\<lambda>acl. acl @ map target_rule (set_targets t p)) (dict_get acls p))"
proof -
  let ?kw = "\<lambda>tg. [(''dl_dst'', Str (t_mac tg)), (''ports'', nums [mirror_port (t_port tg)]), (''allow'', Num 1)]"
  have "\<And>tg. tg \<in> set (dict_values (port_targets t)) \<Longrightarrow> no_in_vlan (?kw tg) \<and> dict_get acls (t_port_set tg) \<noteq> None"
    using assms(1) unfolding assms(2) by (auto simp: targets_in_range_def no_in_vlan_def list_all_iff)
  from fold_portset_rules [where kw = ?kw and xs = "dict_values (port_targets t)", OF this] show ?thesis
    by (auto simp: generate_port_target_acls_def port_set_mirrors_def set_targets_def rule_of_target)
qed

lemma target_acls_missing:
  assumes "\<not> targets_in_range t" "\<And>p. dict_get acls p \<noteq> None \<longleftrightarrow> 1 \<le> p \<and> p < sec_port t"
  shows "generate_port_target_acls t acls = Inl KeyError"
proof -
  let ?kw = "\<lambda>tg. [(''dl_dst'', Str (t_mac tg)), (''ports'', nums [mirror_port (t_port tg)]), (''allow'', Num 1)]"
  have "list_all (\<lambda>tg. no_in_vlan (?kw tg)) (dict_values (port_targets t))"
    by (simp add: no_in_vlan_def list_all_iff)
  from fold_portset_missing [OF this, of acls t_port_set] assms show ?thesis
    by (simp add: generate_port_target_acls_def targets_in_range_def)
qed

lemma port_set_mirrors_get:
  "dict_get (port_set_mirrors t) p =
     (if set_targets t p = [] then None else Some (mirrors_of (dict_values (port_targets t)) p))"
  by (simp add: port_set_mirrors_def add_mirror_foldl set_targets_def mirrors_of_def)

lemma mirror_acls:
  assumes "targets_in_range t" "\<And>p. dict_get acls p \<noteq> None \<longleftrightarrow> 1 \<le> p \<and> p < sec_port t"
  shows "\<exists>acls'. generate_mirror_acls (port_set_mirrors t) (incoming, acls) =
      Inr (incoming @ map rule_of (concat (map (\<lambda>m. mirror_kwargs (snd m)) (port_set_mirrors t))), acls') \<and> dict_keys acls' = dict_keys acls \<and>
     (\<forall>p. dict_get acls' p = map_option (\<lambda>acl. acl @
        (if set_targets t p = [] then [] else [broadcast_rule (set_targets t p)])) (dict_get acls p))"
proof -
  have ok: "dict_ok (port_set_mirrors t)" by (simp add: port_set_mirrors_def add_mirror_ok)
  have "dict_get acls (fst m) \<noteq> None" if m: "m \<in> set (port_set_mirrors t)" for m
  proof -
    have "dict_get (port_set_mirrors t) (fst m) = Some (snd m)" using m ok by simp
    then have "set_targets t (fst m) \<noteq> []" by (simp add: port_set_mirrors_get split: if_splits)
    then obtain tg where "tg \<in> set (dict_values (port_targets t))" "t_port_set tg = fst m"
      by (auto simp: set_targets_def filter_empty_conv)
    with assms show ?thesis by (auto simp: targets_in_range_def list_all_iff)
  qed
  from fold_mirror_rules [where ms = "port_set_mirrors t" and incoming = incoming, OF this] obtain acls' where r:
    "generate_mirror_acls (port_set_mirrors t) (incoming, acls) =
      Inr (incoming @ map rule_of (concat (map (\<lambda>m. mirror_kwargs (snd m)) (port_set_mirrors t))), acls')"
    "dict_keys acls' = dict_keys acls"
    "\<And>p. dict_get acls' p = map_option (\<lambda>acl. acl @
       map (\<lambda>m. mirror_broadcast_rule (snd m)) (filter (\<lambda>m. fst m = p) (port_set_mirrors t))) (dict_get acls p)"
    by blast
  have "dict_get acls' p = map_option (\<lambda>acl. acl @
        (if set_targets t p = [] then [] else [broadcast_rule (set_targets t p)])) (dict_get acls p)" for p
    using r(3) [of p] rule_of_broadcast [of "dict_values (port_targets t)" p, folded set_targets_def]
    by (simp add: filter_dict_key [OF ok] port_set_mirrors_get)
  with r(1,2) show ?thesis by blast
qed

lemma port_set_names:
  "1 \<le> p \<Longrightarrow> 1 \<le> q \<Longrightarrow> PORTSET_ACL_FORMAT pri_name p = PORTSET_ACL_FORMAT pri_name q \<longleftrightarrow> p = q"
  "PORTSET_ACL_FORMAT pri_name p \<noteq> INCOMING_ACL_FORMAT pri_name"
  "PORTSET_ACL_FORMAT pri_name p \<noteq> INCOMING_ACL_FORMAT sec_name"
  "PORTSET_ACL_FORMAT pri_name p \<noteq> LOCAL_ACL_FORMAT pri_name"
  "INCOMING_ACL_FORMAT pri_name \<noteq> INCOMING_ACL_FORMAT sec_name"
  "INCOMING_ACL_FORMAT pri_name \<noteq> LOCAL_ACL_FORMAT pri_name"
  "INCOMING_ACL_FORMAT sec_name \<noteq> LOCAL_ACL_FORMAT pri_name"
  by (auto simp: PORTSET_ACL_FORMAT_def INCOMING_ACL_FORMAT_def LOCAL_ACL_FORMAT_def pri_name_def sec_name_def show_int_inject)

text \<open>All lists are made, and each list of a port set is the reference list.\<close>

lemma main_acls_generated:
  assumes "targets_in_range t"
  shows "\<exists>acls. generate_main_acls dev t = Inr acls \<and>
     dict_get acls (INCOMING_ACL_FORMAT pri_name) = Some (map rule_of (incoming_kwargs dev t) @ [allow_rule]) \<and>
     dict_get acls (INCOMING_ACL_FORMAT sec_name) = Some (map rule_of (dot1x_secondary_kwargs dev t) @ [allow_rule]) \<and>
     (\<forall>p. 1 \<le> p \<and> p < sec_port t \<longrightarrow> dict_get acls (PORTSET_ACL_FORMAT pri_name p) = Some (portset_acl_spec t p))"
proof -
  let ?in = "map rule_of (dot1x_incoming_kwargs dev t)" and ?sec = "map rule_of (dot1x_secondary_kwargs dev t)"
  let ?ms = "map rule_of (concat (map (\<lambda>m. mirror_kwargs (snd m)) (port_set_mirrors t)))"
  obtain a1 loc where a1: "generate_switch_local_acls t (map (\<lambda>p. (p, [])) [1 .. sec_port t - 1]) = Inr (a1, loc)" "dict_ok a1"
    "\<And>p. dict_get a1 p = (if 1 \<le> p \<and> p < sec_port t
        then Some (case ext_ofip t of None \<Rightarrow> [] | Some ip \<Rightarrow> if ip = [] then [] else [switch_local_rule ip]) else None)"
    using switch_local_acls by blast
  have "\<And>p. dict_get a1 p \<noteq> None \<longleftrightarrow> 1 \<le> p \<and> p < sec_port t" by (simp add: a1(3))
  from target_acls [OF assms this] obtain a2 where a2: "generate_port_target_acls t a1 = Inr (a2, port_set_mirrors t)" "dict_keys a2 = dict_keys a1"
    "\<And>p. dict_get a2 p = map_option (\<lambda>acl. acl @ map target_rule (set_targets t p)) (dict_get a1 p)" by blast
  have "\<And>p. dict_get a2 p \<noteq> None \<longleftrightarrow> 1 \<le> p \<and> p < sec_port t" by (simp add: a1(3) a2(3))
  from mirror_acls [OF assms this, where incoming = ?in] obtain a3 where a3:
    "generate_mirror_acls (port_set_mirrors t) (?in, a2) = Inr (?in @ ?ms, a3)" "dict_keys a3 = dict_keys a2"
    "\<And>p. dict_get a3 p = map_option (\<lambda>acl. acl @
        (if set_targets t p = [] then [] else [broadcast_rule (set_targets t p)])) (dict_get a2 p)" by blast
  have "\<And>p. p \<in> set [1 .. sec_port t - 1] \<Longrightarrow> 0 < p \<and> dict_get a3 p \<noteq> None" by (simp add: a1(3) a2(3) a3(3))
  from fold_finish [OF this distinct_upto] obtain a4 where a4: "finish_portset_acls t a3 = Inr a4"
    "dict_keys a4 = dict_keys a3"
    "\<And>p. dict_get a4 p = map_option (\<lambda>acl. if p \<in> set [1 .. sec_port t - 1] then acl @ map rule_of
        (dot1x_allow_kwargs [PRI_TRUNK_PORT] None (Some (port_set_vlan (Some p))) @ [[(''allow'', Num 1)]]) else acl)
        (dict_get a3 p)" unfolding finish_portset_acls_def by blast
  have spec: "dict_get a4 p = (if 1 \<le> p \<and> p < sec_port t then Some (portset_acl_spec t p) else None)" for p
    using a4(3) [of p] a3(3) [of p] a2(3) [of p] a1(3) [of p] rule_of_dot1x [of p] by (auto simp: portset_acl_spec_def)
  have allow: "no_in_vlan [(''allow'', Num 1)]" by (simp add: no_in_vlan_def)
  define entries where "entries = [(INCOMING_ACL_FORMAT pri_name, map rule_of (incoming_kwargs dev t) @ [allow_rule]),
      (INCOMING_ACL_FORMAT sec_name, ?sec @ [allow_rule])]
      @ map (\<lambda>(pset, acl). (PORTSET_ACL_FORMAT pri_name pset, acl)) a4 @ [(LOCAL_ACL_FORMAT pri_name, loc)]"
  have gen: "generate_main_acls dev t = Inr (set_entries entries [])"
    using a1(1) a2(1) a3(1) a4(1) no_in_vlan_kwargs allow
    by (simp add: generate_main_acls_def add_acl_rules_total add_acl_rule_total entries_def incoming_kwargs_def)
  have "dict_ok a4" using a1(2) a2(2) a3(2) a4(2) by simp
  then have mem: "(p, acl) \<in> set a4 \<longleftrightarrow> 1 \<le> p \<and> p < sec_port t \<and> acl = portset_acl_spec t p" for p acl
    using spec [of p] map_of_eq_Some_iff [of a4 p acl] by (auto split: if_splits)
  have "dict_get (set_entries entries []) (INCOMING_ACL_FORMAT pri_name) = Some (map rule_of (incoming_kwargs dev t) @ [allow_rule])"
    by (rule set_entries_unique) (auto simp: entries_def port_set_names port_set_names(2) [symmetric])
  moreover have "dict_get (set_entries entries []) (INCOMING_ACL_FORMAT sec_name) = Some (?sec @ [allow_rule])"
    by (rule set_entries_unique) (auto simp: entries_def port_set_names port_set_names(3,5) [symmetric])
  moreover have "dict_get (set_entries entries []) (PORTSET_ACL_FORMAT pri_name p) = Some (portset_acl_spec t p)"
    if "1 \<le> p" "p < sec_port t" for p
    by (rule set_entries_unique) (use that mem in \<open>force simp: entries_def port_set_names\<close>)+
  ultimately show ?thesis using gen by blast
qed

lemma main_acls_missing:
  assumes "\<not> targets_in_range t"
  shows "generate_main_acls dev t = Inl KeyError"
proof -
  obtain a1 loc where a1: "generate_switch_local_acls t (map (\<lambda>p. (p, [])) [1 .. sec_port t - 1]) = Inr (a1, loc)"
    "\<And>p. dict_get a1 p = (if 1 \<le> p \<and> p < sec_port t
        then Some (case ext_ofip t of None \<Rightarrow> [] | Some ip \<Rightarrow> if ip = [] then [] else [switch_local_rule ip]) else None)"
    using switch_local_acls by blast
  have "generate_port_target_acls t a1 = Inl KeyError"
    by (rule target_acls_missing [OF assms]) (simp add: a1(2))
  with a1(1) no_in_vlan_kwargs show ?thesis
    by (simp add: generate_main_acls_def add_acl_rules_total)
qed

definition interface_vlan :: "(int, interface) dict \<Rightarrow> int \<Rightarrow> val option" where
  "interface_vlan ifs port = (case dict_get ifs port of None \<Rightarrow> None | Some i \<Rightarrow> dict_get i ''native_vlan'')"

subsection \<open>Properties\<close>

text \<open>C5: the access lists of the primary switch are made exactly when the port set of every target
  lies between 1 and the number of device ports, \<open>sec_port - 1\<close>, and then the list of every port set
  is, rule by rule, the reference list: the switch's own address, a mirroring rule per target of the
  set, one for broadcasts when there are targets, 802.1X out of the trunk on the set's VLAN, and the
  final allow. A target with any other port set, which \<open>_find_gateway_set\<close> can choose when there are
  fewer device ports than gateway sets, makes the generation raise \<open>KeyError\<close>.\<close>

theorem portset_acls_match_reference:
  "if targets_in_range t
   then \<exists>acls. generate_main_acls dev t = Inr acls \<and>
     (\<forall>p. 1 \<le> p \<and> p < sec_port t \<longrightarrow> dict_get acls (PORTSET_ACL_FORMAT pri_name p) = Some (portset_acl_spec t p))
   else generate_main_acls dev t = Inl KeyError"
proof (cases "targets_in_range t")
  case True
  with main_acls_generated [OF True, of dev] show ?thesis by auto
qed (simp add: main_acls_missing)

lemma portset_acls_match_reference_witness:
  "\<exists>acls. generate_main_acls (\<lambda>_. example_device) (example_topology\<lparr>port_targets := [(1, example_target)]\<rparr>) = Inr acls \<and>
     dict_get acls ''dp_pri_portset_2_acl'' =
       Some [target_rule example_target, broadcast_rule [example_target], dot1x_rule 2, allow_rule] \<and>
   generate_main_acls (\<lambda>_. example_device)
     (example_topology\<lparr>port_targets := [(1, example_target\<lparr>t_port_set := 7\<rparr>)]\<rparr>) = Inl KeyError"
proof -
  let ?t = "example_topology\<lparr>port_targets := [(1, example_target)]\<rparr>"
  have "targets_in_range ?t" by (simp add: targets_in_range_def example_defs)
  with portset_acls_match_reference [of ?t "\<lambda>_. example_device"] obtain acls where
    "generate_main_acls (\<lambda>_. example_device) ?t = Inr acls"
    "\<forall>p. 1 \<le> p \<and> p < sec_port ?t \<longrightarrow> dict_get acls (PORTSET_ACL_FORMAT pri_name p) = Some (portset_acl_spec ?t p)"
    by auto
  moreover from this(2) have "dict_get acls (PORTSET_ACL_FORMAT pri_name 2) = Some (portset_acl_spec ?t 2)"
    by (simp add: example_topology_def)
  moreover have "generate_main_acls (\<lambda>_. example_device)
     (example_topology\<lparr>port_targets := [(1, example_target\<lparr>t_port_set := 7\<rparr>)]\<rparr>) = Inl KeyError"
    using portset_acls_match_reference [of "example_topology\<lparr>port_targets := [(1, example_target\<lparr>t_port_set := 7\<rparr>)]\<rparr>"]
    by (simp add: targets_in_range_def example_defs)
  moreover have "PORTSET_ACL_FORMAT pri_name 2 = ''dp_pri_portset_2_acl''" by code_simp
  moreover have "portset_acl_spec ?t 2 = [target_rule example_target, broadcast_rule [example_target], dot1x_rule 2, allow_rule]"
    by (simp add: portset_acl_spec_def set_targets_def example_defs)
  ultimately show ?thesis by simp
qed

lemma mirror_set_member:
  assumes "tg \<in> set (set_targets t p)"
  shows "(p, mirrors_of (dict_values (port_targets t)) p) \<in> set (port_set_mirrors t)"
proof -
  have "dict_get (port_set_mirrors t) p = Some (mirrors_of (dict_values (port_targets t)) p)"
    using assms by (auto simp: port_set_mirrors_get)
  then show ?thesis by (rule map_of_SomeD)
qed

definition mirror_rule :: "port_target \<Rightarrow> rule" where
  "mirror_rule tg =
     [(''actions'', Dict [(''output'', Dict [(''ports'', nums [mirror_port (t_port tg)])])]),
      (''dl_src'', Str (t_mac tg)), (''vlan_vid'', Str NO_VLAN)]"

definition pair_mirror_rule :: "port_target \<Rightarrow> port_target \<Rightarrow> rule" where
  "pair_mirror_rule tg tg' =
     [(''actions'', Dict [(''output'', Dict [(''ports'', nums [mirror_port (t_port tg), mirror_port (t_port tg')])])]),
      (''dl_src'', Str (t_mac tg)), (''dl_dst'', Str (t_mac tg')), (''vlan_vid'', Str NO_VLAN)]"

lemma mirror_kwargs_members:
  assumes "(src, sm) \<in> set mt"
  shows "[(''dl_src'', Str src), (''vlan_vid'', Str NO_VLAN), (''ports'', nums [sm])] \<in> set (mirror_kwargs mt)"
    and "(dst, dm) \<in> set mt \<Longrightarrow> dst \<noteq> src \<Longrightarrow>
      [(''dl_src'', Str src), (''dl_dst'', Str dst), (''vlan_vid'', Str NO_VLAN), (''ports'', nums [sm, dm])] \<in> set (mirror_kwargs mt)"
  unfolding mirror_kwargs_def set_concat set_map by (rule UN_I [OF imageI [OF assms]]; force)+

lemma incoming_mirror:
  assumes "tg \<in> set (set_targets t p)"
  shows "mirror_rule tg \<in> rule_of ` set (incoming_kwargs dev t)"
    and "tg' \<in> set (set_targets t p) \<Longrightarrow> t_mac tg' \<noteq> t_mac tg \<Longrightarrow>
      pair_mirror_rule tg tg' \<in> rule_of ` set (incoming_kwargs dev t)"
proof -
  let ?mt = "mirrors_of (dict_values (port_targets t)) p"
  have "set (mirror_kwargs (snd (p, ?mt))) \<subseteq> (\<Union>m\<in>set (port_set_mirrors t). set (mirror_kwargs (snd m)))"
    using mirror_set_member [OF assms] by (rule UN_upper)
  then have sub: "set (mirror_kwargs ?mt) \<subseteq> set (incoming_kwargs dev t)"
    unfolding incoming_kwargs_def set_append set_concat set_map snd_conv image_image by blast
  have mem: "(t_mac g, mirror_port (t_port g)) \<in> set ?mt" if "g \<in> set (set_targets t p)" for g
    using that by (auto simp: mirrors_of_def set_targets_def)
  have r1: "rule_of [(''dl_src'', Str (t_mac tg)), (''vlan_vid'', Str NO_VLAN), (''ports'', nums [mirror_port (t_port tg)])] = mirror_rule tg"
    by (simp add: rule_eval mirror_rule_def)
  have r2: "rule_of [(''dl_src'', Str (t_mac tg)), (''dl_dst'', Str (t_mac tg')), (''vlan_vid'', Str NO_VLAN),
      (''ports'', nums [mirror_port (t_port tg), mirror_port (t_port tg')])] = pair_mirror_rule tg tg'"
    by (simp add: rule_eval pair_mirror_rule_def)
  show "mirror_rule tg \<in> rule_of ` set (incoming_kwargs dev t)"
    by (rule image_eqI [where f = rule_of, OF r1 [symmetric] subsetD [OF sub mirror_kwargs_members(1) [OF mem [OF assms]]]])
  show "pair_mirror_rule tg tg' \<in> rule_of ` set (incoming_kwargs dev t)"
    if "tg' \<in> set (set_targets t p)" "t_mac tg' \<noteq> t_mac tg"
    by (rule image_eqI [where f = rule_of, OF r2 [symmetric] subsetD [OF sub
          mirror_kwargs_members(2) [OF mem [OF assms] mem [OF that(1)] that(2)]]])
qed

text \<open>The list of the traffic coming in from the trunk copies the untagged traffic of every directed
  device to the mirror port of its switch port, traffic between two devices of one set to the mirror
  ports of both, and ends by allowing what no earlier rule matched.\<close>

theorem directed_devices_are_mirrored:
  assumes "targets_in_range t" "tg \<in> set (dict_values (port_targets t))"
  shows "\<exists>acls rules. generate_main_acls dev t = Inr acls \<and>
     dict_get acls (INCOMING_ACL_FORMAT pri_name) = Some (rules @ [allow_rule]) \<and> mirror_rule tg \<in> set rules \<and>
     (\<forall>tg'\<in>set (dict_values (port_targets t)). t_port_set tg' = t_port_set tg \<and> t_mac tg' \<noteq> t_mac tg \<longrightarrow>
        pair_mirror_rule tg tg' \<in> set rules)"
proof -
  have tg: "tg \<in> set (set_targets t (t_port_set tg))" using assms(2) by (simp add: set_targets_def)
  have "pair_mirror_rule tg tg' \<in> rule_of ` set (incoming_kwargs dev t)"
    if "tg' \<in> set (dict_values (port_targets t))" "t_port_set tg' = t_port_set tg \<and> t_mac tg' \<noteq> t_mac tg" for tg'
    using incoming_mirror(2) [OF tg, of tg'] that by (simp add: set_targets_def)
  with incoming_mirror(1) [OF tg, of dev] have rules: "mirror_rule tg \<in> set (map rule_of (incoming_kwargs dev t)) \<and>
      (\<forall>tg'\<in>set (dict_values (port_targets t)). t_port_set tg' = t_port_set tg \<and> t_mac tg' \<noteq> t_mac tg \<longrightarrow>
        pair_mirror_rule tg tg' \<in> set (map rule_of (incoming_kwargs dev t)))"
    by simp
  from main_acls_generated [OF assms(1), of dev] obtain acls where "generate_main_acls dev t = Inr acls"
    "dict_get acls (INCOMING_ACL_FORMAT pri_name) = Some (map rule_of (incoming_kwargs dev t) @ [allow_rule])" by blast
  with rules show ?thesis by blast
qed

lemma directed_devices_are_mirrored_witness:
  "\<exists>acls rules. generate_main_acls (\<lambda>_. example_device) (example_topology\<lparr>port_targets := [(1, example_target)]\<rparr>) = Inr acls \<and>
     dict_get acls (INCOMING_ACL_FORMAT pri_name) = Some (rules @ [allow_rule]) \<and> mirror_rule example_target \<in> set rules"
proof -
  have "targets_in_range (example_topology\<lparr>port_targets := [(1, example_target)]\<rparr>)"
    by (simp add: targets_in_range_def example_defs)
  from directed_devices_are_mirrored [OF this, of example_target "\<lambda>_. example_device"] show ?thesis by auto
qed


text \<open>In the base topology of a network with at most 100 device ports and no VLAN triggers, every
  port of a port set's gateway is an interface on that set's own VLAN, under that set's access list;
  gateway ports of different sets never share a VLAN, the trunk carries exactly the sets' VLANs and
  the local one, and a device port starts on the dump VLAN, which the trunk does not carry.\<close>

theorem base_topology_isolates_sets:
  assumes "sec_port t \<le> 100" "\<not> use_vlan_triggers t" "has_sec_switch t"
    and "1 \<le> p" "p < sec_port t" "1 \<le> q" "q < sec_port t"
    and "port \<in> set (get_gw_ports p)" "port' \<in> set (get_gw_ports q)"
  shows "let b = make_base_network_topology t in
     dict_get (pri_interfaces b) port = Some [(''acl_in'', Str (PORTSET_ACL_FORMAT pri_name p)), (''native_vlan'', Num (LOCAL_VLAN + p))] \<and>
     (interface_vlan (pri_interfaces b) port = interface_vlan (pri_interfaces b) port' \<longleftrightarrow> p = q) \<and>
     LOCAL_VLAN + p \<in> set (vlan_tags t) \<and> DUMP_VLAN \<notin> set (vlan_tags t) \<and>
     interface_vlan (sec_interfaces b) p = Some (Num DUMP_VLAN) \<and>
     interface_vlan (pri_interfaces b) SWITCH_LOCAL_PORT = Some (Num LOCAL_VLAN)"
proof -
  have gw: "dict_get (make_pri_interfaces t) port =
      Some [(''acl_in'', Str (PORTSET_ACL_FORMAT pri_name p)), (''native_vlan'', Num (LOCAL_VLAN + p))]"
    if "1 \<le> p" "p < sec_port t" "port \<in> set (get_gw_ports p)" for p port
  proof -
    have "(port, make_gw_interface t p) \<in> pri_entries t" using that by (auto simp: pri_entries_def)
    from pri_interfaces_lookup [OF assms(1) this] that assms(2) show ?thesis by (simp add: make_gw_interface_def)
  qed
  have "(SWITCH_LOCAL_PORT, make_local_interface) \<in> pri_entries t" by (simp add: pri_entries_def)
  from pri_interfaces_lookup [OF assms(1) this]
  have loc: "dict_get (make_pri_interfaces t) SWITCH_LOCAL_PORT = Some make_local_interface" .
  show ?thesis
    using gw [OF assms(4,5,8)] gw [OF assms(6,7,9)] loc assms
    by (auto simp: Let_def make_base_network_topology_def interface_vlan_def sec_interfaces_lookup
        make_sec_port_interface_def make_local_interface_def vlan_tags_def topology_consts)
qed

lemma base_topology_isolates_sets_witness:
  "interface_vlan (pri_interfaces (make_base_network_topology example_topology)) 10 \<noteq>
     interface_vlan (pri_interfaces (make_base_network_topology example_topology)) 25"
  using base_topology_isolates_sets [of example_topology 1 2 10 25]
  by (simp add: Let_def example_topology_def use_vlan_triggers_def has_sec_switch_def gw_ports_iff)

end
