(* ===== verification/Topology_Traffic.thy ===== *)
theory Topology_Traffic
  imports Topology_Rules
begin

text \<open>
  Directing the traffic of ports and devices (\<open>direct_port_traffic\<close>,
  \<open>direct_device_traffic\<close>): every branch of both, the abstract table of directed ports and the
  simulation between the calls and the table, for networks without a device specification, in which
  generating access lists cannot fail on a missing template.
\<close>

subsection \<open>Directing traffic\<close>

lemma generate_port_acl_plain:
  assumes "\<not> has_specs t"
  shows "generate_port_acl load t port =
    Inr (map rule_of (dot1x_allow_kwargs [sec_port t] None (Some (get_port_vlan port t))) @
      [[(''actions'', Dict [(''allow'', Num 1), (''output'', Dict [(''ports'', nums [sec_port t])])])]])"
  using assms
  by (simp add: generate_port_acl_def add_acl_rules_total no_in_vlan_dot1x make_default_acl_rules_def
      append_acl_template_def get_acl_template_def append_augmented_rule_def augment_sec_port_acl_def
      make_default_allow_rule_def Let_def)

text \<open>Generating access lists touches nothing but the lists.\<close>

lemma write_port_acls_frame: "\<exists>ps. snd (write_port_acls load ports t) = t\<lparr>port_acls := ps\<rparr>"
proof (induction ports arbitrary: t)
  case Nil
  have "t = t\<lparr>port_acls := port_acls t\<rparr>" by simp
  then show ?case by (metis write_port_acls.simps(1) ret_op_def snd_conv)
next
  case (Cons port ports)
  show ?case
  proof (cases "generate_port_acl load t port")
    case (Inl e)
    have "snd (write_port_acls load (port # ports) t) = t\<lparr>port_acls := port_acls t\<rparr>" using Inl by (simp add: op_simps)
    then show ?thesis by blast
  next
    case (Inr rules)
    let ?t = "t\<lparr>port_acls := dict_set port rules (port_acls t)\<rparr>"
    obtain ps where "snd (write_port_acls load ports ?t) = ?t\<lparr>port_acls := ps\<rparr>" using Cons by blast
    then have "snd (write_port_acls load (port # ports) t) = t\<lparr>port_acls := ps\<rparr>" using Inr by (simp add: op_simps)
    then show ?thesis by blast
  qed
qed

lemma generate_acls_frame: "\<exists>ms ps. snd (generate_acls load dev t) = t\<lparr>main_acls := ms, port_acls := ps\<rparr>"
proof (cases "generate_main_acls dev t")
  case (Inl e)
  have "snd (generate_acls load dev t) = t\<lparr>main_acls := main_acls t, port_acls := port_acls t\<rparr>"
    using Inl by (simp add: generate_acls_def op_simps)
  then show ?thesis by blast
next
  case (Inr acls)
  obtain ps where "snd (write_port_acls load [1 .. sec_port t - 1] (t\<lparr>main_acls := acls\<rparr>)) = t\<lparr>main_acls := acls, port_acls := ps\<rparr>"
    using write_port_acls_frame by fastforce
  then have "snd (generate_acls load dev t) = t\<lparr>main_acls := acls, port_acls := ps\<rparr>"
    using Inr by (simp add: generate_acls_def op_simps)
  then show ?thesis by blast
qed

lemma write_port_acls_plain:
  "\<not> has_specs t \<Longrightarrow> fst (write_port_acls load ports t) = Inr ()"
proof (induction ports arbitrary: t)
  case (Cons port ports)
  have "\<not> has_specs (t\<lparr>port_acls := ps\<rparr>)" for ps using Cons.prems by (simp add: has_specs_def)
  then show ?case using Cons.IH generate_port_acl_plain [OF Cons.prems, of load port] by (simp add: op_simps)
qed (simp add: op_simps)

lemma generate_acls_plain:
  assumes "\<not> has_specs t" "targets_in_range t"
  shows "\<exists>ms ps. generate_acls load dev t = (Inr (), t\<lparr>main_acls := ms, port_acls := ps\<rparr>) \<and>
     generate_main_acls dev t = Inr ms"
proof -
  obtain ms where ms: "generate_main_acls dev t = Inr ms" using main_acls_generated [OF assms(2)] by blast
  let ?t = "t\<lparr>main_acls := ms\<rparr>"
  have "\<not> has_specs ?t" using assms(1) by (simp add: has_specs_def)
  then have "fst (write_port_acls load [1 .. sec_port t - 1] ?t) = Inr ()" by (rule write_port_acls_plain)
  moreover obtain ps where "snd (write_port_acls load [1 .. sec_port t - 1] ?t) = ?t\<lparr>port_acls := ps\<rparr>"
    using write_port_acls_frame by blast
  ultimately have "write_port_acls load [1 .. sec_port t - 1] ?t = (Inr (), t\<lparr>main_acls := ms, port_acls := ps\<rparr>)"
    by (simp add: prod_eq_iff)
  then have "generate_acls load dev t = (Inr (), t\<lparr>main_acls := ms, port_acls := ps\<rparr>)"
    using ms by (simp add: generate_acls_def op_simps)
  with ms show ?thesis by blast
qed

text \<open>A device of a gateway is a member of its set after \<open>_populate_set_devices\<close> was given the set.\<close>

lemma populate_join:
  assumes "td_gateway (dev dv) = Some g" "port_set g \<noteq> 0"
  shows "\<exists>ms. populate_set_devices dev dv (Some (port_set g)) t =
     (Inr (port_set g, td_vlan (dev dv)), t\<lparr>set_devices := dict_set (port_set g) ms (set_devices t)\<rparr>) \<and> dv \<in> set ms"
proof -
  define old where "old = (case dict_get (set_devices t) (port_set g) of None \<Rightarrow> [] | Some l \<Rightarrow> l)"
  define ms where "ms = (if dv \<in> set old then old else old @ [dv])"
  have "dv \<in> set ms" "ms \<noteq> []" by (auto simp: ms_def)
  moreover have "populate_set_devices dev dv (Some (port_set g)) t =
     (Inr (port_set g, td_vlan (dev dv)), t\<lparr>set_devices := dict_set (port_set g) ms (set_devices t)\<rparr>)"
    using assms \<open>ms \<noteq> []\<close>
    by (cases "dict_get (set_devices t) (port_set g)") (auto simp: populate_set_devices_def Let_def old_def ms_def)
  ultimately show ?thesis by blast
qed

definition table_update :: "int \<Rightarrow> port_target option \<Rightarrow> (int, port_target) dict \<Rightarrow> (int, port_target) dict" where
  "table_update port target d = (case target of None \<Rightarrow> dict_del port d | Some tg \<Rightarrow> dict_set port tg d)"

lemma table_update_values:
  assumes "list_all P (dict_values d)" "pred_option P target"
  shows "list_all P (dict_values (table_update port target d))"
proof (cases target)
  case None
  then show ?thesis using assms(1) by (auto simp: table_update_def list_all_iff AList.delete_eq)
next
  case (Some tg)
  then have "set (dict_values (table_update port target d)) \<subseteq> insert tg (set (dict_values d))"
    using dict_values_set [of port tg d] by (simp add: table_update_def)
  then show ?thesis using assms Some unfolding list_all_iff by (metis insertE option.pred_inject(2) subsetD)
qed

lemma table_update_get:
  "dict_get (table_update port target d) q = (if q = port then target else dict_get d q)"
  by (simp add: table_update_def dict_get_set dict_get_del split: option.splits)

definition retag :: "int \<Rightarrow> int \<Rightarrow> (int, interface) dict \<Rightarrow> (int, interface) dict" where
  "retag port v ifs =
     (case dict_get ifs port of None \<Rightarrow> ifs | Some i \<Rightarrow> dict_set port (dict_set ''native_vlan'' (Num v) i) ifs)"

lemma interface_vlan_retag:
  "interface_vlan (retag port v ifs) q =
     (if q = port \<and> dict_get ifs port \<noteq> None then Some (Num v) else interface_vlan ifs q)"
  by (auto simp: interface_vlan_def retag_def dict_get_set split: option.splits)

lemma retag_get: "dict_get (retag port v ifs) q = None \<longleftrightarrow> dict_get ifs q = None"
  by (auto simp: retag_def dict_get_set split: option.splits)

lemma apply_port:
  assumes "\<not> has_specs t" "targets_in_range t"
  shows "\<exists>ms ps. then_op (generate_acls load dev) (set_sec_vlan port v) t =
     (if dict_get (sec_interfaces t) port = None then Inl KeyError else Inr (),
      t\<lparr>main_acls := ms, port_acls := ps, sec_interfaces := retag port v (sec_interfaces t)\<rparr>) \<and>
     generate_main_acls dev t = Inr ms"
proof -
  obtain ms ps where "generate_acls load dev t = (Inr (), t\<lparr>main_acls := ms, port_acls := ps\<rparr>)"
    and ms: "generate_main_acls dev t = Inr ms" using generate_acls_plain [OF assms] by blast
  then have "then_op (generate_acls load dev) (set_sec_vlan port v) t =
     (if dict_get (sec_interfaces t) port = None then Inl KeyError else Inr (),
      t\<lparr>main_acls := ms, port_acls := ps, sec_interfaces := retag port v (sec_interfaces t)\<rparr>)"
    by (cases "dict_get (sec_interfaces t) port") (simp_all add: op_simps set_sec_vlan_def retag_def)
  with ms show ?thesis by blast
qed

text \<open>
  What \<open>direct_port_traffic\<close> does on every branch: the table changes when a port without a target
  gets one and when a target is taken away; then the lists are made from the new table and the port's
  native VLAN follows. Otherwise the table stays.
\<close>

lemma direct_port_cases:
  assumes "\<not> has_specs t" "targets_in_range t" "td_gateway (dev dv) = Some g" "port_set g \<noteq> 0"
    and "pred_option (\<lambda>tg. 1 \<le> t_port_set tg \<and> t_port_set tg < sec_port t) target"
  shows "\<exists>d ms ps. let old = dict_get (port_targets t) port; t0 = t\<lparr>set_devices := d\<rparr>;
       changed = (if target = None then old \<noteq> None else old = None);
       t1 = t0\<lparr>port_targets := table_update port target (port_targets t)\<rparr>
     in fst (direct_port_traffic load dev dv port target t) =
       (if changed then if dict_get (sec_interfaces t) port = None then Inl KeyError else Inr ()
        else if target = None then Inl KeyError else if target = old then Inr () else Inl AssertionError) \<and>
       snd (direct_port_traffic load dev dv port target t) =
       (if changed
        then t1\<lparr>main_acls := ms, port_acls := ps,
                sec_interfaces := retag port (port_set_vlan (map_option t_port_set target)) (sec_interfaces t)\<rparr>
        else t0) \<and>
       (changed \<longrightarrow> generate_main_acls dev t1 = Inr ms)"
proof -
  obtain d where pop: "populate_set_devices dev dv (Some (port_set g)) t = (Inr (port_set g, td_vlan (dev dv)), t\<lparr>set_devices := d\<rparr>)"
    using populate_join [of dev dv g t, OF assms(3,4)] by blast
  let ?t = "t\<lparr>set_devices := d, port_targets := table_update port target (port_targets t)\<rparr>"
  have specs: "\<not> has_specs ?t" using assms(1) by (simp add: has_specs_def)
  have range: "targets_in_range ?t"
    using table_update_values [of _ _ target] assms(2,5) by (simp add: targets_in_range_def)
  obtain ms ps where "then_op (generate_acls load dev) (set_sec_vlan port (port_set_vlan (map_option t_port_set target))) ?t =
     (if dict_get (sec_interfaces ?t) port = None then Inl KeyError else Inr (),
      ?t\<lparr>main_acls := ms, port_acls := ps,
         sec_interfaces := retag port (port_set_vlan (map_option t_port_set target)) (sec_interfaces ?t)\<rparr>)"
    and "generate_main_acls dev ?t = Inr ms" using apply_port [OF specs range] by blast
  then show ?thesis using assms(3) pop
    by (intro exI [of _ d] exI [of _ ms] exI [of _ ps])
      (cases target; cases "dict_get (port_targets t) port";
        simp add: direct_port_traffic_def table_update_def bind_op_def Let_def raise_op_def ret_op_def)
qed

subsection \<open>The table of directed ports as a specification\<close>

text \<open>
  The abstract contract of \<open>direct_port_traffic\<close>: a partial map from ports to port sets, to which
  a free port can be added and from which a port can be removed. The native VLAN of a port of the
  secondary switch is a function of it.
\<close>

type_synonym port_call = "(nat \<Rightarrow> topo_device) \<times> nat \<times> int \<times> port_target option"

definition port_table :: "topology \<Rightarrow> int \<Rightarrow> int option" where
  "port_table t port = map_option t_port_set (dict_get (port_targets t) port)"

fun direct_port_call :: "(string \<Rightarrow> acl_template option) \<Rightarrow> topology \<Rightarrow> port_call \<Rightarrow> topology" where
  "direct_port_call load t (dev, dv, port, target) = snd (direct_port_traffic load dev dv port target t)"

fun port_table_spec :: "(int \<Rightarrow> int option) \<Rightarrow> port_call \<Rightarrow> (int \<Rightarrow> int option)" where
  "port_table_spec m (dev, dv, port, target) =
     (if td_gateway (dev dv) = None then m
      else case target of
        None \<Rightarrow> m(port := None)
      | Some tg \<Rightarrow> if m port = None then m(port \<mapsto> t_port_set tg) else m)"

fun port_call_ok :: "int \<Rightarrow> port_call \<Rightarrow> bool" where
  "port_call_ok n (dev, dv, port, target) =
     ((case td_gateway (dev dv) of None \<Rightarrow> True | Some g \<Rightarrow> port_set g \<noteq> 0) \<and>
      pred_option (\<lambda>tg. 1 \<le> t_port_set tg \<and> t_port_set tg < n) target)"

definition topology_ok :: "int \<Rightarrow> topology \<Rightarrow> bool" where
  "topology_ok n t \<longleftrightarrow> \<not> has_specs t \<and> sec_port t = n \<and> targets_in_range t \<and>
     (\<forall>port. 1 \<le> port \<and> port < n \<longrightarrow> interface_vlan (sec_interfaces t) port = Some (Num (port_set_vlan (port_table t port))))"

lemma direct_port_refines:
  assumes "topology_ok n t" "port_call_ok n c"
  shows "topology_ok n (direct_port_call load t c) \<and> port_table (direct_port_call load t c) = port_table_spec (port_table t) c"
proof -
  obtain dev dv port target where c: "c = (dev, dv, port, target)" by (cases c)
  have ok: "\<not> has_specs t" "targets_in_range t" "sec_port t = n" using assms(1) by (auto simp: topology_ok_def)
  show ?thesis
  proof (cases "td_gateway (dev dv)")
    case None
    then have "direct_port_call load t c = t" using c by (simp add: direct_port_traffic_def populate_set_devices_def op_simps)
    with None c assms(1) show ?thesis by simp
  next
    case (Some g)
    have g: "port_set g \<noteq> 0" and tgs: "pred_option (\<lambda>tg. 1 \<le> t_port_set tg \<and> t_port_set tg < sec_port t) target"
      using assms(2) c Some ok by auto
    from direct_port_cases [where dev = dev and dv = dv and port = port and target = target and load = load, OF ok(1,2) Some g tgs] obtain d ms ps where
      r: "direct_port_call load t c = (let old = dict_get (port_targets t) port; t0 = t\<lparr>set_devices := d\<rparr>;
         changed = (if target = None then old \<noteq> None else old = None);
         t1 = t0\<lparr>port_targets := table_update port target (port_targets t)\<rparr>
       in if changed then t1\<lparr>main_acls := ms, port_acls := ps,
                 sec_interfaces := retag port (port_set_vlan (map_option t_port_set target)) (sec_interfaces t)\<rparr>
          else t0)"
      unfolding c direct_port_call.simps Let_def by blast
    define t' where "t' = direct_port_call load t c"
    note r' = r [folded t'_def]
    have table: "port_table t' = port_table_spec (port_table t) c"
      by (rule ext) (use Some c in \<open>auto simp: r' Let_def port_table_def table_update_get split: option.splits\<close>)
    have range: "targets_in_range t'"
      using table_update_values [of _ _ target] ok(2) tgs by (auto simp: targets_in_range_def r' Let_def)
    have same: "has_specs t' = has_specs t" "sec_port t' = sec_port t" by (auto simp: r' Let_def has_specs_def)
    have "interface_vlan (sec_interfaces t') q = Some (Num (port_set_vlan (port_table t' q)))" if q: "1 \<le> q" "q < n" for q
    proof -
      have old: "interface_vlan (sec_interfaces t) q = Some (Num (port_set_vlan (port_table t q)))"
        using assms(1) q by (simp add: topology_ok_def)
      then have "dict_get (sec_interfaces t) q \<noteq> None" by (auto simp: interface_vlan_def split: option.splits)
      with old show ?thesis by (auto simp: r' Let_def interface_vlan_retag port_table_def table_update_get)
    qed
    with table range same ok have "topology_ok n t'" by (simp add: topology_ok_def)
    with table show ?thesis by (simp only: t'_def)
  qed
qed

interpretation port_calls: simulation "direct_port_call load" port_table_spec port_table "topology_ok n" "port_call_ok n"
  for load n
  by unfold_locales (rule direct_port_refines)

lemma base_topology_ok:
  assumes "\<not> has_specs t" "\<not> use_vlan_triggers t" "port_targets t = []" "has_sec_switch t"
  shows "topology_ok (sec_port t) (make_base_network_topology t)"
  using assms
  by (simp add: topology_ok_def make_base_network_topology_def has_specs_def targets_in_range_def interface_vlan_def
      sec_interfaces_lookup make_sec_port_interface_def port_table_def)

text \<open>C4: in a configuration with a secondary switch, without \<open>device_specs\<close> and without VLAN
  triggers, starting from the base topology with no port directed yet, any sequence of
  \<open>direct_port_traffic\<close> calls for devices whose gateway, if they have one, has a port set other than
  0, and with targets whose port set lies between 1 and \<open>sec_port - 1\<close>, implements the abstract table
  of directed ports, and after it every device port of the secondary switch has the VLAN of the port
  set the table gives it, or the dump VLAN when it gives none. (With VLAN triggers a port starts in
  the VLAN of its own number, not in the dump VLAN, so the second part is false of them.)\<close>

theorem directed_ports_refine_table:
  assumes "\<not> has_specs t" "\<not> use_vlan_triggers t" "port_targets t = []" "has_sec_switch t"
    and "list_all (port_call_ok (sec_port t)) calls"
  shows "let t' = foldl (direct_port_call load) (make_base_network_topology t) calls;
             table = foldl port_table_spec (\<lambda>_. None) calls
         in port_table t' = table \<and>
            (\<forall>port. 1 \<le> port \<and> port < sec_port t \<longrightarrow>
               interface_vlan (sec_interfaces t') port =
                 Some (Num (case table port of None \<Rightarrow> DUMP_VLAN | Some p \<Rightarrow> LOCAL_VLAN + p)))"
proof -
  let ?t0 = "make_base_network_topology t" and ?t' = "foldl (direct_port_call load) (make_base_network_topology t) calls"
  have start: "port_table ?t0 = (\<lambda>_. None)"
    using assms(3) by (auto simp: port_table_def make_base_network_topology_def)
  from port_calls.run [OF base_topology_ok [OF assms(1-4)] assms(5), of load] start
  have ok: "topology_ok (sec_port t) ?t'" and table: "port_table ?t' = foldl port_table_spec (\<lambda>_. None) calls" by auto
  have pos: "0 < p" if "port_table ?t' port = Some p" for port p
  proof -
    from that obtain tg where "dict_get (port_targets ?t') port = Some tg" "t_port_set tg = p"
      by (auto simp: port_table_def)
    then have "tg \<in> set (dict_values (port_targets ?t'))" by (auto dest!: map_of_SomeD intro: rev_image_eqI)
    with ok \<open>t_port_set tg = p\<close> show ?thesis by (auto simp: topology_ok_def targets_in_range_def list_all_iff)
  qed
  have "interface_vlan (sec_interfaces ?t') port =
      Some (Num (case port_table ?t' port of None \<Rightarrow> DUMP_VLAN | Some p \<Rightarrow> LOCAL_VLAN + p))"
    if "1 \<le> port" "port < sec_port t" for port
    using ok that pos [of port] by (auto simp: topology_ok_def split: option.splits)
  with table show ?thesis by (simp add: Let_def)
qed

lemma directed_ports_refine_table_witness:
  "interface_vlan (sec_interfaces (foldl (direct_port_call (\<lambda>_. None)) (make_base_network_topology example_topology)
     [(\<lambda>_. example_device, 0, 1, Some example_target)])) 1 = Some (Num 1002)"
  using directed_ports_refine_table [of example_topology
    "[(\<lambda>_. example_device, 0, 1, Some example_target)]" "\<lambda>_. None"]
  by (simp add: Let_def example_defs has_specs_def use_vlan_triggers_def has_sec_switch_def topology_consts)

subsection \<open>Directing devices\<close>

lemma set_native_vlan_ok:
  "list_all (\<lambda>p. dict_get (pri_interfaces t) p \<noteq> None) ps \<Longrightarrow>
     \<exists>ifs. set_native_vlan ps v t = (Inr (), t\<lparr>pri_interfaces := ifs\<rparr>) \<and>
       (\<forall>q. interface_vlan ifs q = (if q \<in> set ps then Some v else interface_vlan (pri_interfaces t) q)) \<and>
       (\<forall>q. dict_get ifs q = None \<longleftrightarrow> dict_get (pri_interfaces t) q = None)"
proof (induction ps arbitrary: t)
  case Nil
  then show ?case by (intro exI [of _ "pri_interfaces t"]) (simp add: op_simps)
next
  case (Cons p ps)
  then obtain i where i: "dict_get (pri_interfaces t) p = Some i" by auto
  let ?t = "t\<lparr>pri_interfaces := dict_set p (dict_set ''native_vlan'' v i) (pri_interfaces t)\<rparr>"
  have "list_all (\<lambda>p. dict_get (pri_interfaces ?t) p \<noteq> None) ps"
    using Cons.prems by (auto simp: list_all_iff dict_get_set)
  from Cons.IH [OF this] obtain ifs where ifs: "set_native_vlan ps v ?t = (Inr (), ?t\<lparr>pri_interfaces := ifs\<rparr>)"
    "\<And>q. interface_vlan ifs q = (if q \<in> set ps then Some v else interface_vlan (pri_interfaces ?t) q)"
    "\<And>q. dict_get ifs q = None \<longleftrightarrow> dict_get (pri_interfaces ?t) q = None" by blast
  have "set_native_vlan (p # ps) v t = (Inr (), t\<lparr>pri_interfaces := ifs\<rparr>)"
    using ifs(1) i by (simp add: op_simps)
  moreover have "interface_vlan ifs q = (if q \<in> set (p # ps) then Some v else interface_vlan (pri_interfaces t) q)" for q
    using ifs(2) [of q] by (auto simp: interface_vlan_def dict_get_set)
  moreover have "dict_get ifs q = None \<longleftrightarrow> dict_get (pri_interfaces t) q = None" for q
    using ifs(3) [of q] i by (auto simp: dict_get_set)
  ultimately show ?case by blast
qed

definition set_members :: "int \<Rightarrow> topology \<Rightarrow> nat list" where
  "set_members p t = (case dict_get (set_devices t) p of None \<Rightarrow> [] | Some l \<Rightarrow> l)"

lemma apply_device:
  assumes "\<not> has_specs t" "targets_in_range t" "list_all (\<lambda>p. dict_get (pri_interfaces t) p \<noteq> None) ps"
  shows "\<exists>ifs ms qs. then_op (set_native_vlan ps v) (generate_acls load dev) t =
       (Inr (), t\<lparr>pri_interfaces := ifs, main_acls := ms, port_acls := qs\<rparr>) \<and>
       (\<forall>q. interface_vlan ifs q = (if q \<in> set ps then Some v else interface_vlan (pri_interfaces t) q)) \<and>
       (\<forall>q. dict_get ifs q = None \<longleftrightarrow> dict_get (pri_interfaces t) q = None)"
proof -
  obtain ifs where ifs: "set_native_vlan ps v t = (Inr (), t\<lparr>pri_interfaces := ifs\<rparr>)"
    "\<forall>q. interface_vlan ifs q = (if q \<in> set ps then Some v else interface_vlan (pri_interfaces t) q)"
    "\<forall>q. dict_get ifs q = None \<longleftrightarrow> dict_get (pri_interfaces t) q = None"
    using set_native_vlan_ok [OF assms(3)] by blast
  have "\<not> has_specs (t\<lparr>pri_interfaces := ifs\<rparr>)" "targets_in_range (t\<lparr>pri_interfaces := ifs\<rparr>)"
    using assms(1,2) by (simp_all add: has_specs_def targets_in_range_def)
  from generate_acls_plain [OF this, of load dev] obtain ms qs where
    "generate_acls load dev (t\<lparr>pri_interfaces := ifs\<rparr>) = (Inr (), t\<lparr>pri_interfaces := ifs, main_acls := ms, port_acls := qs\<rparr>)"
    by auto
  with ifs(1) have "then_op (set_native_vlan ps v) (generate_acls load dev) t =
      (Inr (), t\<lparr>pri_interfaces := ifs, main_acls := ms, port_acls := qs\<rparr>)"
    by (simp add: then_op_def bind_op_def)
  with ifs(2,3) show ?thesis by blast
qed

lemma populate_leave:
  assumes "td_gateway (dev dv) = Some g" "dv \<in> set (set_members (port_set g) t)"
  shows "populate_set_devices dev dv None t =
    (Inr (port_set g, if remove1 dv (set_members (port_set g) t) = [] then Some DUMP_VLAN else td_vlan (dev dv)),
     t\<lparr>set_devices := dict_set (port_set g) (remove1 dv (set_members (port_set g) t)) (set_devices t)\<rparr>)"
  using assms by (auto simp: populate_set_devices_def set_members_def Let_def split: option.splits)

lemma populate_join_members:
  assumes "td_gateway (dev dv) = Some g" "port_set g \<noteq> 0"
  shows "populate_set_devices dev dv (Some (port_set g)) t =
     (Inr (port_set g, td_vlan (dev dv)),
      t\<lparr>set_devices := dict_set (port_set g) (let l = set_members (port_set g) t in if dv \<in> set l then l else l @ [dv]) (set_devices t)\<rparr>)"
  using assms
  by (cases "dict_get (set_devices t) (port_set g)") (auto simp: populate_set_devices_def Let_def set_members_def)

text \<open>Directing a device's traffic puts every switch port of its gateway's set, and no other port,
  on the device's VLAN; when the traffic of the last device of the set is directed away, the ports go
  back to the dump VLAN. Both calls return.\<close>

theorem device_traffic_follows_vlan:
  assumes "\<not> has_specs t" "targets_in_range t"
    and "td_gateway (dev dv) = Some g" "port_set g \<noteq> 0" "td_vlan (dev dv) = Some v" "v \<noteq> 0"
    and "list_all (\<lambda>p. dict_get (pri_interfaces t) p \<noteq> None) (get_gw_ports (port_set g))"
    and "dv \<notin> set (set_members (port_set g) t)"
  shows "\<exists>t1 t2. direct_device_traffic load dev dv (Some (port_set g)) t = (Inr (), t1) \<and>
     direct_device_traffic load dev dv None t1 = (Inr (), t2) \<and>
     (\<forall>q. interface_vlan (pri_interfaces t1) q =
        (if q \<in> set (get_gw_ports (port_set g)) then Some (Num v) else interface_vlan (pri_interfaces t) q)) \<and>
     (\<forall>q. interface_vlan (pri_interfaces t2) q =
        (if q \<in> set (get_gw_ports (port_set g))
         then Some (Num (if set_members (port_set g) t = [] then DUMP_VLAN else v))
         else interface_vlan (pri_interfaces t) q)) \<and>
     set_members (port_set g) t2 = set_members (port_set g) t"
proof -
  let ?p = "port_set g" and ?ms = "set_members (port_set g) t"
  let ?s = "t\<lparr>set_devices := dict_set ?p (?ms @ [dv]) (set_devices t)\<rparr>"
  have ok: "\<not> has_specs ?s" "targets_in_range ?s" "list_all (\<lambda>p. dict_get (pri_interfaces ?s) p \<noteq> None) (get_gw_ports ?p)"
    using assms(1,2,7) by (simp_all add: has_specs_def targets_in_range_def)
  from apply_device [OF ok, of "Num v" load dev] obtain ifs ms qs where
    r1: "then_op (set_native_vlan (get_gw_ports ?p) (Num v)) (generate_acls load dev) ?s =
       (Inr (), ?s\<lparr>pri_interfaces := ifs, main_acls := ms, port_acls := qs\<rparr>)"
    and i1: "\<And>q. interface_vlan ifs q = (if q \<in> set (get_gw_ports ?p) then Some (Num v) else interface_vlan (pri_interfaces t) q)"
    and k1: "\<And>q. dict_get ifs q = None \<longleftrightarrow> dict_get (pri_interfaces t) q = None" by auto
  let ?t1 = "?s\<lparr>pri_interfaces := ifs, main_acls := ms, port_acls := qs\<rparr>"
  have d1: "direct_device_traffic load dev dv (Some ?p) t = (Inr (), ?t1)"
    using r1 populate_join_members [of dev dv g t] assms
    by (simp add: direct_device_traffic_def bind_op_def opt_num_def Let_def)
  have mem: "set_members ?p ?t1 = ?ms @ [dv]" by (simp add: set_members_def dict_get_set)
  have rem: "remove1 dv (?ms @ [dv]) = ?ms" using assms(8) by (simp add: remove1_append)
  let ?s2 = "?t1\<lparr>set_devices := dict_set ?p ?ms (set_devices ?t1)\<rparr>"
  let ?v = "if ?ms = [] then DUMP_VLAN else v"
  have ok2: "\<not> has_specs ?s2" "targets_in_range ?s2" "list_all (\<lambda>p. dict_get (pri_interfaces ?s2) p \<noteq> None) (get_gw_ports ?p)"
    using ok assms(7) k1 by (simp_all add: has_specs_def targets_in_range_def list_all_iff)
  from apply_device [OF ok2, of "Num ?v" load dev] obtain ifs2 ms2 qs2 where
    r2: "then_op (set_native_vlan (get_gw_ports ?p) (Num ?v)) (generate_acls load dev) ?s2 =
       (Inr (), ?s2\<lparr>pri_interfaces := ifs2, main_acls := ms2, port_acls := qs2\<rparr>)"
    and i2: "\<And>q. interface_vlan ifs2 q = (if q \<in> set (get_gw_ports ?p) then Some (Num ?v) else interface_vlan ifs q)" by auto
  let ?t2 = "?s2\<lparr>pri_interfaces := ifs2, main_acls := ms2, port_acls := qs2\<rparr>"
  have "populate_set_devices dev dv None ?t1 = (Inr (?p, Some ?v), ?s2)"
    using populate_leave [of dev dv g ?t1] assms(3,5) mem rem by simp
  then have d2: "direct_device_traffic load dev dv None ?t1 = (Inr (), ?t2)"
    using r2 assms(6) by (simp add: direct_device_traffic_def bind_op_def opt_num_def DUMP_VLAN_def)
  show ?thesis
    using d1 d2 i1 i2 by (intro exI [of _ ?t1] exI [of _ ?t2]) (simp add: set_members_def dict_get_set)
qed

lemma device_traffic_follows_vlan_witness:
  "\<exists>t1. direct_device_traffic (\<lambda>_. None) (\<lambda>_. example_device) 0 (Some 2)
      (make_base_network_topology example_topology) = (Inr (), t1) \<and> interface_vlan (pri_interfaces t1) 22 = Some (Num 1002)"
proof -
  let ?t = "make_base_network_topology example_topology"
  have "\<not> has_specs ?t" "targets_in_range ?t" "set_members 2 ?t = []"
    by (simp_all add: make_base_network_topology_def example_topology_def has_specs_def targets_in_range_def set_members_def)
  moreover have "list_all (\<lambda>p. dict_get (pri_interfaces ?t) p \<noteq> None) (get_gw_ports 2)" by code_simp
  ultimately show ?thesis
    using device_traffic_follows_vlan [of ?t "\<lambda>_. example_device" 0 example_gateway 1002 "\<lambda>_. None"]
    by (auto simp: example_gateway_def example_device_def gw_ports_iff)
qed

end
