(* ===== verification/Topology_Templates.thy ===== *)
theory Topology_Templates
  imports Topology_Traffic
begin

text \<open>
  Access lists made from the template files and the device specification: where the rules of a
  port's list may send traffic, which targets a rule for a controller reaches, and device groups.
\<close>

definition example_load :: "string \<Rightarrow> acl_template option" where
  "example_load ty =
     (if ty = ''default'' then Some [(''@to:template_default_acl'', [[(''nw_src'', Str ''@ctrl:hub''), (''udp_dst'', Num 47808)]])]
      else None)"

definition example_spec :: device_spec where
  "example_spec = \<lparr>spec_type = None, spec_group = Some ''lights'', spec_default_allow = None,
     spec_controllers = Some [(''hub'', [(''hub'', [''9a:02:57:1e:8f:01''])])]\<rparr>"

subsection \<open>Where a port's access list sends traffic\<close>

text \<open>The ports a rule outputs to.\<close>

definition rule_output :: "rule \<Rightarrow> val option" where
  "rule_output r =
     (case dict_get r ''actions'' of
        Some (Dict actions) \<Rightarrow>
          (case dict_get actions ''output'' of Some (Dict out) \<Rightarrow> dict_get out ''ports'' | _ \<Rightarrow> None)
      | _ \<Rightarrow> None)"

definition output_confined :: "topology \<Rightarrow> rule \<Rightarrow> bool" where
  "output_confined t r \<longleftrightarrow>
     (rule_output r = None \<or>
      (\<exists>ps. rule_output r = Some (nums (ps @ [sec_port t])) \<and> set ps \<subseteq> t_port ` set (dict_values (port_targets t))))"

lemma augment_output:
  assumes "augment_sec_port_acl t ports dl_dst r = Inr r'"
  shows "rule_output r' = None \<or> rule_output r' = Some (nums ((case ports of None \<Rightarrow> [] | Some ps \<Rightarrow> ps) @ [sec_port t]))"
proof -
  from assms obtain actions allow where a: "dict_get r ''actions'' = Some (Dict actions)"
    "dict_get actions ''output'' = None" "dict_get actions ''allow'' = Some allow"
    by (auto simp: augment_sec_port_acl_def split: option.splits val.splits if_splits)
  show ?thesis
  proof (cases "truth allow")
    case False
    then have "r' = r" using assms a by (simp add: augment_sec_port_acl_def)
    then show ?thesis using a by (simp add: rule_output_def)
  next
    case True
    then obtain is_dhcp r1 where "r' = dict_set ''actions'' (Dict (if ports \<noteq> None \<and> \<not> is_dhcp
        then dict_del ''allow'' (dict_set ''output'' (Dict [(''ports'', nums ((case ports of None \<Rightarrow> [] | Some ps \<Rightarrow> ps) @ [sec_port t]))]) actions)
        else dict_set ''output'' (Dict [(''ports'', nums ((case ports of None \<Rightarrow> [] | Some ps \<Rightarrow> ps) @ [sec_port t]))]) actions)) r1"
      using assms a by (auto simp: augment_sec_port_acl_def Let_def bind_result_eq_Inr)
    then show ?thesis by (simp add: rule_output_def dict_get_set dict_get_del)
  qed
qed

lemma mapM_result_all: "mapM_result f xs = Inr ys \<Longrightarrow> \<forall>x\<in>set xs. \<forall>y. f x = Inr y \<longrightarrow> P y \<Longrightarrow> list_all P ys"
  by (induction xs arbitrary: ys) (auto simp: bind_result_eq_Inr)

lemma append_augmented_confined:
  assumes "append_augmented_rule t r tgs rules = Inr rules'" "list_all (output_confined t) rules"
    and "\<And>ts. tgs = Some ts \<Longrightarrow> set ts \<subseteq> set (dict_values (port_targets t))"
  shows "list_all (output_confined t) rules'"
proof (cases tgs)
  case None
  with assms(1) obtain r' where "augment_sec_port_acl t None None r = Inr r'" "rules' = rules @ [r']"
    by (auto simp: append_augmented_rule_def bind_result_eq_Inr)
  with augment_output assms(2) show ?thesis by (fastforce simp: output_confined_def)
next
  case (Some ts)
  have sub: "set ts \<subseteq> set (dict_values (port_targets t))" using assms(3) Some by blast
  from assms(1) Some obtain r' rs where r: "augment_sec_port_acl t (Some (map t_port ts)) (Some BROADCAST_MAC) r = Inr r'"
    "mapM_result (\<lambda>tg. augment_sec_port_acl t (Some [t_port tg]) (Some (t_mac tg)) r) ts = Inr rs" "rules' = rules @ r' # rs"
    by (auto simp: append_augmented_rule_def bind_result_eq_Inr)
  have "set (map t_port ts) \<subseteq> t_port ` set (dict_values (port_targets t))" using sub by auto
  then have "output_confined t r'" using augment_output [OF r(1)] unfolding output_confined_def option.case by blast
  moreover have "list_all (output_confined t) rs"
  proof (rule mapM_result_all [OF r(2)]; intro ballI allI impI)
    fix tg y assume "tg \<in> set ts" and y: "augment_sec_port_acl t (Some [t_port tg]) (Some (t_mac tg)) r = Inr y"
    then have "set [t_port tg] \<subseteq> t_port ` set (dict_values (port_targets t))" using sub by auto
    with augment_output [OF y] show "output_confined t y" unfolding output_confined_def option.case by blast
  qed
  ultimately show ?thesis using assms(2) r(3) by simp
qed

text \<open>
  The targets of a controller rule are directed ports whose MAC address the specification lists under
  that controller and whose own template accepts the rule.
\<close>

lemma allowed_targets_sound:
  "allowed_targets load t src_rule controller macs = Inr ts \<Longrightarrow> tg \<in> set ts \<Longrightarrow>
     tg \<in> set (dict_values (port_targets t)) \<and> t_mac tg \<in> set macs \<and>
     allow_target_mac load t (t_mac tg) src_rule controller = Inr True"
  by (induction macs arbitrary: ts) (auto simp: bind_result_eq_Inr split: if_splits)

lemma allow_target_rule:
  assumes "allow_target_mac load t mac src_rule controller = Inr True"
  shows "\<exists>tpl rules. load (get_device_type mac t) = Some tpl \<and>
     dict_get tpl (TO_ACL_KEY_FORMAT (get_device_type mac t)) = Some rules \<and>
     list_ex (\<lambda>r. rule_match src_rule r controller) rules"
  using assms
  by (auto simp: allow_target_mac_def get_acl_template_def dict_index_def bind_result_eq_Inr split: if_splits option.splits)

lemma resolve_targets_cases:
  assumes "resolve_targets load t target src r = Inr (Some ts)"
  shows "\<exists>c mac spec controllers middle macs. target = Some (CTL_PREFIX @ c) \<and> src = Some mac \<and>
     dict_get (mac_addrs t) mac = Some spec \<and> spec_controllers spec = Some controllers \<and>
     dict_get controllers c = Some middle \<and> dict_get middle c = Some macs \<and>
     allowed_targets load t r c macs = Inr ts"
proof -
  from assms obtain tg where tg: "target = Some tg" "starts_with tg CTL_PREFIX"
    by (auto simp: resolve_targets_def split: option.splits if_splits)
  then have "tg = CTL_PREFIX @ drop (length CTL_PREFIX) tg" by (metis append_take_drop_id starts_with_def)
  with assms tg show ?thesis
    by (auto simp: resolve_targets_def Let_def dict_index_def bind_result_eq_Inr split: option.splits if_splits)
qed

lemma resolve_targets_directed:
  "resolve_targets load t target src r = Inr (Some ts) \<Longrightarrow> set ts \<subseteq> set (dict_values (port_targets t))"
  using resolve_targets_cases allowed_targets_sound by blast

lemma template_rule_confined:
  assumes "template_rule load t mac r rules = Inr rules'" "list_all (output_confined t) rules"
  shows "list_all (output_confined t) rules'"
proof -
  from assms(1) obtain r2 target tgs where "resolve_targets load t target mac r2 = Inr tgs"
    "append_augmented_rule t r2 tgs rules = Inr rules'"
    by (auto simp: template_rule_def bind_result_eq_Inr)
  then show ?thesis using append_augmented_confined [OF _ assms(2)] resolve_targets_directed by blast
qed

lemma fold_result_inv:
  "fold_result f xs s = Inr s' \<Longrightarrow> P s \<Longrightarrow> (\<And>x s s'. f x s = Inr s' \<Longrightarrow> P s \<Longrightarrow> P s') \<Longrightarrow> P s'"
  by (induction xs arbitrary: s) (auto simp: bind_result_eq_Inr)

lemma append_template_confined:
  assumes "append_acl_template load t ty mac rules = Inr (found, rules')" "list_all (output_confined t) rules"
  shows "list_all (output_confined t) rules'"
proof (cases "rules' = rules")
  case False
  with assms(1) obtain rs where "fold_result (template_rule load t mac) rs rules = Inr rules'"
    by (auto simp: append_acl_template_def bind_result_eq_Inr split: option.splits if_splits)
  then show ?thesis
    by (rule fold_result_inv) (use assms(2) template_rule_confined in blast)+
qed (use assms in simp)

lemma default_rules_confined:
  assumes "make_default_acl_rules load t = Inr rules"
  shows "list_all (output_confined t) rules"
proof -
  from assms obtain found rules0 where r: "append_acl_template load t ''raw'' None [] = Inr (found, rules0)"
    "(if found then Inr rules0 else append_augmented_rule t make_default_allow_rule None rules0) = Inr rules"
    by (auto simp: make_default_acl_rules_def bind_result_eq_Inr)
  have "list_all (output_confined t) rules0" using append_template_confined [OF r(1)] by simp
  then show ?thesis using r(2) append_augmented_confined [of t make_default_allow_rule None rules0 rules]
    by (auto split: if_splits)
qed

lemma default_allow_confined:
  "append_device_default_allow t mac rules = Inr rules' \<Longrightarrow> list_all (output_confined t) rules \<Longrightarrow>
     list_all (output_confined t) rules'"
  using append_augmented_confined [where tgs = None]
  by (auto simp: append_device_default_allow_def split: option.splits)

lemma dot1x_confined:
  "list_all (output_confined t) (map rule_of (dot1x_allow_kwargs [sec_port t] None (Some v)))"
proof -
  have "output_confined t (rule_of [(''eth_type'', Num DOT1X_ETH_TYPE), (''ports'', nums [sec_port t]), (''out_vid'', Num v)])"
    by (simp add: output_confined_def rule_output_def rule_eval)
  then show ?thesis by (simp add: dot1x_allow_kwargs_def opt_num_def)
qed

text \<open>C31: whatever the templates and the device specification say, a generated access list of a port
  of the secondary switch outputs only to the trunk, which every output rule includes, and to ports
  that traffic is currently directed to.\<close>

theorem port_acl_confined:
  assumes "generate_port_acl load t port = Inr rules"
  shows "list_all (output_confined t) rules"
proof -
  let ?dot1x = "map rule_of (dot1x_allow_kwargs [sec_port t] None (Some (get_port_vlan port t)))"
  have start: "add_acl_rules (dot1x_allow_kwargs [sec_port t] None (Some (get_port_vlan port t))) [] = Inr ?dot1x"
    using add_acl_rules_total [OF no_in_vlan_dot1x] by simp
  show ?thesis
  proof (cases "if has_specs t then dict_get (port_targets t) port else None")
    case None
    with assms start obtain rs where "make_default_acl_rules load t = Inr rs" "rules = ?dot1x @ rs"
      by (auto simp: generate_port_acl_def bind_result_eq_Inr simp del: if_split)
    then show ?thesis using default_rules_confined dot1x_confined by simp
  next
    case (Some tg)
    with assms start obtain f1 rules1 f2 rules2 where
      a1: "append_acl_template load t (get_device_type (t_mac tg) t) (Some (t_mac tg)) ?dot1x = Inr (f1, rules1)"
      and a2: "append_acl_template load t ''baseline'' None rules1 = Inr (f2, rules2)"
      and a3: "append_device_default_allow t (t_mac tg) rules2 = Inr rules"
      by (auto simp: generate_port_acl_def bind_result_eq_Inr split: if_splits)
    show ?thesis
      by (rule default_allow_confined [OF a3 append_template_confined [OF a2 append_template_confined [OF a1 dot1x_confined]]])
  qed
qed

lemma port_acl_confined_witness:
  "\<exists>rules. generate_port_acl (\<lambda>_. None) example_topology 1 = Inr rules \<and> rules \<noteq> [] \<and>
     list_all (output_confined example_topology) rules"
proof -
  obtain rules where r: "generate_port_acl (\<lambda>_. None) example_topology 1 = Inr rules" "rules \<noteq> []"
    using generate_port_acl_plain [of example_topology "\<lambda>_. None" 1] by (simp add: has_specs_def example_topology_def)
  with port_acl_confined [OF r(1)] show ?thesis by blast
qed


text \<open>A rule for a controller reaches only directed ports whose MAC address the source device's
  specification lists under that controller, and whose own device template has a rule for the
  controller that matches in every port field both set.\<close>

theorem controller_targets_permitted:
  assumes "resolve_targets load t target src r = Inr (Some ts)" "tg \<in> set ts"
  shows "\<exists>c mac spec controllers middle macs tpl rules r'.
     target = Some (CTL_PREFIX @ c) \<and> src = Some mac \<and> tg \<in> set (dict_values (port_targets t)) \<and>
     dict_get (mac_addrs t) mac = Some spec \<and> spec_controllers spec = Some controllers \<and>
     dict_get controllers c = Some middle \<and> dict_get middle c = Some macs \<and> t_mac tg \<in> set macs \<and>
     load (get_device_type (t_mac tg) t) = Some tpl \<and>
     dict_get tpl (TO_ACL_KEY_FORMAT (get_device_type (t_mac tg) t)) = Some rules \<and> r' \<in> set rules \<and>
     dict_get r' ''nw_src'' = Some (Str (CTL_PREFIX @ c)) \<and>
     list_all (conditional_match r r') [''udp_src'', ''udp_dst'', ''tcp_src'', ''tcp_dst'']"
proof -
  from resolve_targets_cases [OF assms(1)] obtain c mac spec controllers middle macs where
    a: "target = Some (CTL_PREFIX @ c)" "src = Some mac" "dict_get (mac_addrs t) mac = Some spec"
      "spec_controllers spec = Some controllers" "dict_get controllers c = Some middle" "dict_get middle c = Some macs"
      "allowed_targets load t r c macs = Inr ts" by blast
  note s = allowed_targets_sound [OF a(7) assms(2)]
  from allow_target_rule [of load t "t_mac tg" r c] s obtain tpl rules where
    b: "load (get_device_type (t_mac tg) t) = Some tpl"
      "dict_get tpl (TO_ACL_KEY_FORMAT (get_device_type (t_mac tg) t)) = Some rules"
      "list_ex (\<lambda>r'. rule_match r r' c) rules" by blast
  from b(3) obtain r' where "r' \<in> set rules" "rule_match r r' c" by (auto simp: list_ex_iff)
  with a b s show ?thesis unfolding rule_match_def by blast
qed

lemma controller_targets_permitted_witness:
  "\<exists>c mac spec. ''@ctrl:hub'' = CTL_PREFIX @ c \<and> Some ''9a:02:57:1e:8f:02'' = Some mac \<and>
     dict_get [(''9a:02:57:1e:8f:02'', example_spec), (''9a:02:57:1e:8f:01'', example_spec)] mac = Some spec"
proof -
  let ?t = "example_topology\<lparr>port_targets := [(1, example_target)],
     device_specs := Some [(''9a:02:57:1e:8f:02'', example_spec), (''9a:02:57:1e:8f:01'', example_spec)]\<rparr>"
  have "resolve_targets example_load ?t (Some ''@ctrl:hub'') (Some ''9a:02:57:1e:8f:02'') [(''udp_dst'', Num 47808)] =
      Inr (Some [example_target])" by code_simp
  from controller_targets_permitted [OF this, of example_target] show ?thesis by (auto simp: mac_addrs_def)
qed

subsection \<open>Device groups\<close>

text \<open>The size of the group the topology puts a device in is the number of devices the
  specification lists for that group, and a device on its own is a group of one.\<close>

theorem group_size_counts_members:
  assumes "dict_ok (mac_addrs t)"
  shows "device_group_size t (device_group_for t mac vlan) =
     max 1 (card {m. \<exists>spec. dict_get (mac_addrs t) m = Some spec \<and> spec_group spec = Some (device_group_for t mac vlan)})"
proof -
  let ?g = "device_group_for t mac vlan"
  let ?sel = "filter (\<lambda>e. spec_group (snd e) = Some ?g) (mac_addrs t)"
  have "{m. \<exists>spec. dict_get (mac_addrs t) m = Some spec \<and> spec_group spec = Some ?g} = set (map fst ?sel)"
    by (auto simp: map_of_eq_Some_iff [OF assms] intro: rev_image_eqI)
  moreover have "distinct (map fst ?sel)" using assms by (simp add: distinct_map_filter)
  ultimately have "card {m. \<exists>spec. dict_get (mac_addrs t) m = Some spec \<and> spec_group spec = Some ?g} = length ?sel"
    using distinct_card [of "map fst ?sel"] by (simp only: length_map)
  moreover have "length (filter (\<lambda>spec. spec_group spec = Some ?g) (dict_values (mac_addrs t))) = length ?sel"
    by (simp add: filter_map comp_def)
  moreover have "length ?sel = 0" if "\<not> has_specs t" using that by (simp add: mac_addrs_def has_specs_def)
  ultimately show ?thesis by (auto simp: device_group_size_def Let_def max_def Suc_le_eq)
qed

lemma group_size_counts_members_witness:
  "device_group_size (example_topology\<lparr>device_specs := Some [(''9a:02:57:1e:8f:02'', example_spec), (''9a:02:57:1e:8f:01'', example_spec)]\<rparr>)
     ''lights'' = max 1 (card {m. \<exists>spec. dict_get [(''9a:02:57:1e:8f:02'', example_spec), (''9a:02:57:1e:8f:01'', example_spec)] m =
        Some spec \<and> spec_group spec = Some ''lights''})"
proof -
  let ?t = "example_topology\<lparr>device_specs := Some [(''9a:02:57:1e:8f:02'', example_spec), (''9a:02:57:1e:8f:01'', example_spec)]\<rparr>"
  have g: "device_group_for ?t ''9a:02:57:1e:8f:01'' None = ''lights''" by code_simp
  have m: "mac_addrs ?t = [(''9a:02:57:1e:8f:02'', example_spec), (''9a:02:57:1e:8f:01'', example_spec)]"
    by (simp add: mac_addrs_def)
  have "dict_ok (mac_addrs ?t)" unfolding m by simp
  from group_size_counts_members [OF this, of "''9a:02:57:1e:8f:01''" None] show ?thesis unfolding g m .
qed

end
