(* ===== verification/Configurator.thy ===== *)
theory Configurator
  imports Py_Values "HOL-Library.Char_ord" "HOL-Library.List_Lexorder"
begin

text \<open>
  \<open>daq/configurator.py\<close>: the merging of nested configurations, configuration files with
  includes, flat \<open>key=value\<close> items, command line arguments and the printing of a configuration. What
  the YAML loader returns for a file, the lines of a file, whether a file exists and the working
  directory are arguments. A configuration is a value of \<open>Py_Values\<close>.
\<close>

subsection \<open>Strings and paths\<close>

definition is_space :: "char \<Rightarrow> bool" where
  \<comment> \<open>what \<open>str.strip()\<close> removes\<close>
  "is_space c = (let n = of_char c :: nat in 9 \<le> n \<and> n \<le> 13 \<or> 28 \<le> n \<and> n \<le> 32 \<or> n = 133 \<or> n = 160)"

definition strip_by :: "(char \<Rightarrow> bool) \<Rightarrow> string \<Rightarrow> string" where
  "strip_by P s = rev (dropWhile P (rev (dropWhile P s)))"

abbreviation strip :: "string \<Rightarrow> string" where
  "strip \<equiv> strip_by is_space"

definition split_once :: "char \<Rightarrow> string \<Rightarrow> string \<times> string option" where
  \<comment> \<open>\<open>s.split(c, 1)\<close>: the first part and, if there is a separator, the second\<close>
  "split_once c s =
     (let p = takeWhile (\<lambda>x. x \<noteq> c) s
      in (p, if c \<in> set s then Some (drop (Suc (length p)) s) else None))"

definition ends_with :: "string \<Rightarrow> string \<Rightarrow> bool" where
  "ends_with s suffix = (length suffix \<le> length s \<and> drop (length s - length suffix) s = suffix)"

fun split_on :: "char \<Rightarrow> string \<Rightarrow> string list" where
  "split_on c [] = [[]]"
| "split_on c (x # xs) =
     (if x = c then [] # split_on c xs
      else (case split_on c xs of p # ps \<Rightarrow> (x # p) # ps | [] \<Rightarrow> [[x]]))"

definition dirname :: "string \<Rightarrow> string" where
  \<comment> \<open>\<open>os.path.dirname\<close>\<close>
  "dirname p =
     (let head = rev (dropWhile (\<lambda>c. c \<noteq> CHR ''/'') (rev p))
      in if list_all (\<lambda>c. c = CHR ''/'') head then head
         else rev (dropWhile (\<lambda>c. c = CHR ''/'') (rev head)))"

definition path_join :: "string \<Rightarrow> string \<Rightarrow> string" where
  \<comment> \<open>\<open>os.path.join\<close> of two paths\<close>
  "path_join a b =
     (if starts_with b ''/'' then b
      else if a = [] \<or> last a = CHR ''/'' then a @ b
      else a @ ''/'' @ b)"

fun norm_comps :: "bool \<Rightarrow> string list \<Rightarrow> string list \<Rightarrow> string list" where
  \<comment> \<open>the loop of \<open>os.path.normpath\<close>; the components found are kept in reverse\<close>
  "norm_comps rooted acc [] = rev acc"
| "norm_comps rooted acc (c # cs) =
     (if c = [] \<or> c = ''.'' then norm_comps rooted acc cs
      else if c \<noteq> ''..'' \<or> (\<not> rooted \<and> acc = []) \<or> (acc \<noteq> [] \<and> hd acc = ''..'')
      then norm_comps rooted (c # acc) cs
      else norm_comps rooted (tl acc) cs)"

fun join_slash :: "string list \<Rightarrow> string" where
  "join_slash [] = []"
| "join_slash [c] = c"
| "join_slash (c # cs) = c @ ''/'' @ join_slash cs"

definition normpath :: "string \<Rightarrow> string" where
  "normpath p =
     (let slashes = (if \<not> starts_with p ''/'' then ''''
                     else if starts_with p ''//'' \<and> \<not> starts_with p ''///'' then ''//'' else ''/'');
          r = slashes @ join_slash (norm_comps (slashes \<noteq> []) [] (split_on CHR ''/'' p))
      in if r = [] then ''.'' else r)"

definition abspath :: "string \<Rightarrow> string \<Rightarrow> string" where
  "abspath cwd p = normpath (if starts_with p ''/'' then p else path_join cwd p)"

lemma length_strip_by: "length (strip_by P s) \<le> length s"
  unfolding strip_by_def by (metis length_dropWhile_le length_rev le_trans)

lemma split_once_shorter: "split_once c s = (p, Some r) \<Longrightarrow> length r < length s"
  by (cases s) (auto simp: split_once_def Let_def split: if_splits)

lemma split_strip_shorter: "split_once c (strip s) = (p, Some r) \<Longrightarrow> length r < length s"
  using split_once_shorter length_strip_by by (metis order_less_le_trans)

subsection \<open>Merging\<close>

function deep_merge_dict :: "vdict \<Rightarrow> vdict \<Rightarrow> vdict" where
  "deep_merge_dict base [] = base"
| "deep_merge_dict base ((key, value) # rest) =
     deep_merge_dict
       (case value of
          Dict d \<Rightarrow>
            (case dict_get base key of
               Some (Dict b) \<Rightarrow> dict_set key (Dict (deep_merge_dict b d)) base
             | _ \<Rightarrow> dict_set key value base)
        | _ \<Rightarrow> dict_set key value base) rest"
  by pat_completeness auto
termination by (relation "measure (\<lambda>(b, a). size_list (size_prod (\<lambda>_. 0) size) a)") auto

subsection \<open>Flat items\<close>

definition clean_value :: "val \<Rightarrow> val" where
  "clean_value v =
     (case v of Str s \<Rightarrow> Str (strip_by (\<lambda>c. c = CHR 0x27) (strip_by (\<lambda>c. c = CHR 0x22) (strip s))) | _ \<Rightarrow> v)"

function parse_flat_item :: "val \<Rightarrow> string \<Rightarrow> val \<Rightarrow> val result" where
  "parse_flat_item config key v =
     (case split_once CHR ''.'' (strip key) of
        (k, None) \<Rightarrow>
          (case config of Dict d \<Rightarrow> Inr (Dict (dict_set k (clean_value v) d)) | _ \<Rightarrow> Inl TypeError)
      | (k, Some rest) \<Rightarrow>
          (case config of
             Dict d \<Rightarrow>
               bind_result (parse_flat_item (case dict_get d k of None \<Rightarrow> Dict [] | Some sub \<Rightarrow> sub) rest (clean_value v))
                 (\<lambda>sub. Inr (Dict (dict_set k sub d)))
           | _ \<Rightarrow> Inl AttributeError))"
  by pat_completeness auto
termination by (relation "measure (\<lambda>(config, key, v). length key)") (auto dest: split_strip_shorter [OF sym])

declare parse_flat_item.simps [simp del]

definition strip_comment :: "string \<Rightarrow> string" where
  \<comment> \<open>\<open>re.sub(r'#.*', '', line).strip()\<close>\<close>
  "strip_comment line = strip (takeWhile (\<lambda>c. c \<noteq> CHR ''#'') line)"

fun read_flat_lines :: "string list \<Rightarrow> val \<Rightarrow> val result" where
  \<comment> \<open>the loop of \<open>_read_flat_config\<close>\<close>
  "read_flat_lines [] config = Inr config"
| "read_flat_lines (line # ls) config =
     (case split_once CHR ''='' (strip_comment line) of
        (key, Some v) \<Rightarrow> bind_result (parse_flat_item config key (Str v)) (read_flat_lines ls)
      | (key, None) \<Rightarrow> if key \<noteq> [] then Inl GenericException else read_flat_lines ls config)"

subsection \<open>Configuration files\<close>

text \<open>What the code reads of the file system.\<close>

record files =
  read_yaml :: "string \<Rightarrow> val result"
  read_lines :: "string \<Rightarrow> string list result"
  file_exists :: "string \<Rightarrow> bool"
  working_dir :: string

definition read_config :: "files \<Rightarrow> string \<Rightarrow> val result" where
  "read_config fs config_file =
     (if ends_with config_file ''.yaml'' \<or> ends_with config_file ''.json'' then read_yaml fs config_file
      else if ends_with config_file ''.conf''
      then bind_result (read_lines fs config_file) (\<lambda>ls. read_flat_lines ls (Dict []))
      else Inl GenericException)"

definition included_file :: "string \<Rightarrow> val \<Rightarrow> string result" where
  "included_file config_file include =
     (case include of
        Str f \<Rightarrow> Inr (if starts_with f ''/'' then f else path_join (dirname config_file) f)
      | _ \<Rightarrow> Inl AttributeError)"

definition config_dict :: "val \<Rightarrow> vdict result" where
  \<comment> \<open>what happens at \<open>'include' in config\<close>, \<open>pop\<close> and \<open>items\<close> when the file is not a mapping\<close>
  "config_dict config =
     (case config of
        Dict d \<Rightarrow> Inr d
      | Str _ \<Rightarrow> Inl AttributeError
      | Seq xs \<Rightarrow> Inl (if Str ''include'' \<in> set xs then TypeError else AttributeError)
      | _ \<Rightarrow> Inl TypeError)"

text \<open>
  A chain of includes has no bound in the code, so the function is partial: \<open>None\<close> is a call that
  does not return. The set \<open>traversed\<close> is shared by the calls.
\<close>

partial_function (option) merge_config :: "files \<Rightarrow> string set \<Rightarrow> vdict \<Rightarrow> string \<Rightarrow> vdict result option" where
  "merge_config fs traversed base file =
     (let config_file = abspath (working_dir fs) file in
      case bind_result (read_config fs config_file)
             (\<lambda>config. if config_file \<in> traversed then Inl GenericException else config_dict config) of
        Inl e \<Rightarrow> Some (Inl e)
      | Inr config \<Rightarrow>
          (case dict_get config ''include'' of
             None \<Rightarrow> Some (Inr (deep_merge_dict base config))
           | Some include \<Rightarrow>
               (case included_file config_file include of
                  Inl e \<Rightarrow> Some (Inl e)
                | Inr including \<Rightarrow>
                    Option.bind (merge_config fs (insert config_file traversed) base including)
                      (\<lambda>r. Some (bind_result r (\<lambda>base'. Inr (deep_merge_dict base' (dict_del ''include'' config))))))))"

definition load_config :: "files \<Rightarrow> string \<Rightarrow> bool \<Rightarrow> vdict result option" where
  "load_config fs config_file opt =
     (if \<not> file_exists fs config_file
      then Some (if opt then Inr [] else Inl GenericException)
      else merge_config fs {} [] config_file)"

subsection \<open>Command line\<close>

definition FLAG_MAP :: "(string, string) dict" where
  "FLAG_MAP =
     [(''b'', ''build_tests''), (''c'', ''use_console''), (''d'', ''debug_mode''), (''e'', ''event_trigger''),
      (''f'', ''fail_mode''), (''h'', ''show_help''), (''k'', ''keep_hold''), (''l'', ''result_linger''),
      (''n'', ''no_test''), (''s'', ''single_shot'')]"

definition as_dict :: "val \<Rightarrow> vdict" where
  "as_dict v = (case v of Dict d \<Rightarrow> d | _ \<Rightarrow> [])"

definition parse_arg :: "files \<Rightarrow> string \<Rightarrow> vdict \<Rightarrow> vdict result option" where
  \<comment> \<open>the body of the loop of \<open>parse_args\<close>\<close>
  "parse_arg fs arg config =
     (if arg = [] then Some (Inr config)
      else if hd arg = CHR ''-'' then
        (case dict_get FLAG_MAP (tl arg) of
           Some name \<Rightarrow> Some (bind_result (parse_flat_item (Dict config) name (Flag True)) (\<lambda>v. Inr (as_dict v)))
         | None \<Rightarrow> Some (Inl GenericException))
      else
        (case split_once CHR ''='' arg of
           (key, Some v) \<Rightarrow> Some (bind_result (parse_flat_item (Dict config) key (Str v)) (\<lambda>v. Inr (as_dict v)))
         | (_, None) \<Rightarrow> merge_config fs {} config arg))"

fun parse_arg_list :: "files \<Rightarrow> string list \<Rightarrow> vdict \<Rightarrow> vdict result option" where
  "parse_arg_list fs [] config = Some (Inr config)"
| "parse_arg_list fs (arg # args) config =
     (case parse_arg fs arg config of
        None \<Rightarrow> None
      | Some (Inl e) \<Rightarrow> Some (Inl e)
      | Some (Inr config') \<Rightarrow> parse_arg_list fs args config')"

definition parse_args :: "files \<Rightarrow> string list \<Rightarrow> vdict result option" where
  "parse_args fs args = parse_arg_list fs (tl args) []"

subsection \<open>Printing\<close>

text \<open>\<open>_append_config\<close>; \<open>py_str\<close> is \<open>str()\<close> of a value that is not a mapping.\<close>

function append_config :: "(val \<Rightarrow> string) \<Rightarrow> string \<Rightarrow> vdict \<Rightarrow> string list" where
  "append_config py_str prefix config =
     concat (map (\<lambda>(key, v).
         case v of
           Dict d \<Rightarrow> append_config py_str (prefix @ key @ ''.'') d
         | _ \<Rightarrow> (let quote = (if CHR '' '' \<in> set (py_str v) then [CHR 0x22] else [])
                 in [prefix @ key @ ''='' @ quote @ py_str v @ quote]))
       (sort_key fst config))"
  by pat_completeness auto
termination
  by (relation "measure (\<lambda>(py_str, prefix, config). size_list (size_prod (\<lambda>_. 0) size) config)")
    (auto intro!: size_list_estimation)

subsection \<open>What a merged configuration contains\<close>

fun is_leaf :: "val \<Rightarrow> bool" where
  "is_leaf (Dict _) = False"
| "is_leaf _ = True"

fun wf_val :: "val \<Rightarrow> bool" where
  \<comment> \<open>the keys of every mapping are distinct, as a dictionary's are\<close>
  "wf_val (Dict d) = (dict_ok d \<and> list_all (\<lambda>kv. wf_val (snd kv)) d)"
| "wf_val _ = True"

fun val_path :: "val \<Rightarrow> string list \<Rightarrow> val option" where
  "val_path v [] = Some v"
| "val_path (Dict d) (k # ks) = (case dict_get d k of None \<Rightarrow> None | Some v \<Rightarrow> val_path v ks)"
| "val_path _ (k # ks) = None"

fun decides :: "val \<Rightarrow> string list \<Rightarrow> bool" where
  \<comment> \<open>the configuration has a value at the path or ends in a leaf before it\<close>
  "decides v [] = True"
| "decides (Dict d) (k # ks) = (case dict_get d k of None \<Rightarrow> False | Some v \<Rightarrow> decides v ks)"
| "decides _ (k # ks) = True"

definition merge_val :: "val option \<Rightarrow> val \<Rightarrow> val" where
  "merge_val old v =
     (case v of
        Dict d \<Rightarrow> (case old of Some (Dict b) \<Rightarrow> Dict (deep_merge_dict b d) | _ \<Rightarrow> v)
      | _ \<Rightarrow> v)"

lemma deep_merge_step: "deep_merge_dict base ((k, v) # rest) = deep_merge_dict (dict_set k (merge_val (dict_get base k) v) base) rest"
  by (auto simp: merge_val_def split: val.splits option.splits)

lemma deep_merge_get:
  "dict_ok a \<Longrightarrow> dict_get (deep_merge_dict b a) k =
     (case dict_get a k of None \<Rightarrow> dict_get b k | Some v \<Rightarrow> Some (merge_val (dict_get b k) v))"
proof (induction a arbitrary: b)
  case (Cons kv a)
  obtain q v where kv: "kv = (q, v)" by (cases kv)
  have "dict_get a q = None" using Cons.prems kv by (simp add: map_of_eq_None_iff)
  then show ?case using Cons kv by (auto simp: deep_merge_step dict_get_set simp del: deep_merge_dict.simps split: option.splits)
qed simp

lemma deep_merge_ok: "dict_ok b \<Longrightarrow> dict_ok (deep_merge_dict b a)"
proof (induction a arbitrary: b)
  case (Cons kv a)
  then show ?case by (cases kv) (simp add: deep_merge_step del: deep_merge_dict.simps)
qed simp

lemma wf_val_get: "wf_val (Dict d) \<Longrightarrow> dict_get d k = Some v \<Longrightarrow> wf_val v"
  by (auto simp: list_all_iff dest!: map_of_SomeD)

lemma merged_leaf:
  assumes "wf_val (Dict a)" "is_leaf v"
  shows "val_path (Dict (deep_merge_dict b a)) p = Some v \<longleftrightarrow>
    val_path (Dict a) p = Some v \<or> val_path (Dict b) p = Some v \<and> \<not> decides (Dict a) p"
  using assms(1)
proof (induction p arbitrary: a b)
  case Nil
  then show ?case using assms(2) by auto
next
  case (Cons k ks)
  have get: "dict_get (deep_merge_dict b a) k =
      (case dict_get a k of None \<Rightarrow> dict_get b k | Some v \<Rightarrow> Some (merge_val (dict_get b k) v))"
    using Cons.prems by (intro deep_merge_get) simp
  show ?case
  proof (cases "dict_get a k")
    case None
    then show ?thesis by (simp add: get)
  next
    case (Some x)
    show ?thesis
    proof (cases "\<exists>d e. x = Dict d \<and> dict_get b k = Some (Dict e)")
      case True
      then obtain d e where d: "x = Dict d" "dict_get b k = Some (Dict e)" by blast
      have "wf_val (Dict d)" using wf_val_get [OF Cons.prems Some] d(1) by simp
      from Cons.IH [OF this, of e] show ?thesis using Some d by (simp add: get merge_val_def)
    next
      case False
      then have m: "merge_val (dict_get b k) x = x"
        by (auto simp: merge_val_def split: val.splits option.splits)
      have "val_path y ks = Some v \<Longrightarrow> decides x ks \<or> val_path x ks = Some v" if "dict_get b k = Some y" for y
        using that False assms(2) by (cases x; cases y; cases ks) auto
      then show ?thesis using Some by (auto simp: get m split: option.splits)
    qed
  qed
qed

text \<open>Merging one configuration into another sets every setting the added one has to its value
  there, keeps every other setting that it does not replace by a section or cover by a plain value,
  and adds nothing else.\<close>

theorem merged_settings:
  assumes "wf_val (Dict adding)"
  shows "\<forall>p v. is_leaf v \<longrightarrow>
    (val_path (Dict (deep_merge_dict base adding)) p = Some v \<longleftrightarrow>
       val_path (Dict adding) p = Some v \<or> val_path (Dict base) p = Some v \<and> \<not> decides (Dict adding) p)"
  using merged_leaf [OF assms] by blast

lemma merged_settings_witness:
  "val_path (Dict (deep_merge_dict [(''run'', Dict [(''a'', Num 1), (''b'', Num 2)])] [(''run'', Dict [(''b'', Num 3)])])) [''run'', ''a''] =
     Some (Num 1)"
  using merged_settings [of "[(''run'', Dict [(''b'', Num 3)])]" "[(''run'', Dict [(''a'', Num 1), (''b'', Num 2)])]"] by simp

subsection \<open>Includes\<close>

inductive include_chain :: "files \<Rightarrow> string \<Rightarrow> (string \<times> vdict) list \<Rightarrow> bool" for fs where
  last: "cf = abspath (working_dir fs) file \<Longrightarrow> bind_result (read_config fs cf) config_dict = Inr c \<Longrightarrow>
    dict_get c ''include'' = None \<Longrightarrow> include_chain fs file [(cf, c)]"
| more: "cf = abspath (working_dir fs) file \<Longrightarrow> bind_result (read_config fs cf) config_dict = Inr c \<Longrightarrow>
    dict_get c ''include'' = Some inc \<Longrightarrow> included_file cf inc = Inr f \<Longrightarrow> include_chain fs f ch \<Longrightarrow>
    include_chain fs file ((cf, c) # ch)"

definition own_settings :: "string \<times> vdict \<Rightarrow> vdict" where
  "own_settings e = dict_del ''include'' (snd e)"

definition merge_chain :: "vdict \<Rightarrow> (string \<times> vdict) list \<Rightarrow> vdict" where
  \<comment> \<open>the file at the end of the chain first, the including files over it\<close>
  "merge_chain base ch = foldr (\<lambda>e b. deep_merge_dict b (own_settings e)) ch base"

lemma own_settings_last: "dict_get c ''include'' = None \<Longrightarrow> own_settings (cf, c) = c"
  by (simp add: own_settings_def map_of_eq_None_iff)

lemma merge_config_chain:
  "include_chain fs file ch \<Longrightarrow> distinct (map fst ch) \<Longrightarrow> set (map fst ch) \<inter> traversed = {} \<Longrightarrow>
     merge_config fs traversed base file = Some (Inr (merge_chain base ch))"
proof (induction arbitrary: traversed rule: include_chain.induct)
  case (last cf fname c)
  then show ?case
    by (subst merge_config.simps) (auto simp: bind_result_eq_Inr Let_def merge_chain_def own_settings_last)
next
  case (more cf fname c inc f ch)
  then have "merge_config fs (insert cf traversed) base f = Some (Inr (merge_chain base ch))" by auto
  with more show ?case
    by (subst merge_config.simps) (auto simp: bind_result_eq_Inr Let_def merge_chain_def own_settings_def)
qed

definition chain_result :: "files \<Rightarrow> string set \<Rightarrow> vdict \<Rightarrow> string \<Rightarrow> vdict result \<Rightarrow> bool" where
  "chain_result fs traversed base fname r =
     (\<forall>c. r = Inr c \<longrightarrow> (\<exists>ch. include_chain fs fname ch \<and> distinct (map fst ch) \<and> set (map fst ch) \<inter> traversed = {} \<and>
        c = merge_chain base ch))"

lemma merge_config_sound: "merge_config fs traversed base fname = Some r \<Longrightarrow> chain_result fs traversed base fname r"
proof (rule merge_config.raw_induct [where P = chain_result])
  fix merge fs' traversed' base' fname' r'
  assume ih: "\<And>fs traversed base file y. merge fs traversed base file = Some y \<Longrightarrow> chain_result fs traversed base file y"
    and body: "(let config_file = abspath (working_dir fs') fname' in
      case bind_result (read_config fs' config_file)
             (\<lambda>config. if config_file \<in> traversed' then Inl GenericException else config_dict config) of
        Inl e \<Rightarrow> Some (Inl e)
      | Inr config \<Rightarrow>
          (case dict_get config ''include'' of
             None \<Rightarrow> Some (Inr (deep_merge_dict base' config))
           | Some include \<Rightarrow>
               (case included_file config_file include of
                  Inl e \<Rightarrow> Some (Inl e)
                | Inr including \<Rightarrow>
                    Option.bind (merge fs' (insert config_file traversed') base' including)
                      (\<lambda>r. Some (bind_result r (\<lambda>base'. Inr (deep_merge_dict base' (dict_del ''include'' config)))))))) = Some r'"
  show "chain_result fs' traversed' base' fname' r'"
    unfolding chain_result_def
  proof (intro allI impI)
    fix c assume r: "r' = Inr c"
    let ?cf = "abspath (working_dir fs') fname'"
    from body r obtain config where config: "bind_result (read_config fs' ?cf) config_dict = Inr config" "?cf \<notin> traversed'"
      and rest: "(case dict_get config ''include'' of
             None \<Rightarrow> Some (Inr (deep_merge_dict base' config))
           | Some include \<Rightarrow>
               (case included_file ?cf include of
                  Inl e \<Rightarrow> Some (Inl e)
                | Inr including \<Rightarrow>
                    Option.bind (merge fs' (insert ?cf traversed') base' including)
                      (\<lambda>r. Some (bind_result r (\<lambda>base'. Inr (deep_merge_dict base' (dict_del ''include'' config))))))) = Some (Inr c)"
      by (auto simp: Let_def bind_result_eq_Inr split: sum.splits if_splits)
    show "\<exists>ch. include_chain fs' fname' ch \<and> distinct (map fst ch) \<and> set (map fst ch) \<inter> traversed' = {} \<and> c = merge_chain base' ch"
    proof (cases "dict_get config ''include''")
      case None
      have "include_chain fs' fname' [(?cf, config)]" using config None by (intro include_chain.last) auto
      then show ?thesis using rest None config(2)
        by (intro exI [of _ "[(?cf, config)]"]) (auto simp: merge_chain_def own_settings_last)
    next
      case (Some inc)
      with rest obtain f b where f: "included_file ?cf inc = Inr f"
        "merge fs' (insert ?cf traversed') base' f = Some (Inr b)" "c = deep_merge_dict b (dict_del ''include'' config)"
        by (auto simp: bind_result_eq_Inr split: sum.splits Option.bind_splits)
      from ih [OF f(2)] obtain ch where ch: "include_chain fs' f ch" "distinct (map fst ch)"
        "set (map fst ch) \<inter> insert ?cf traversed' = {}" "b = merge_chain base' ch"
        unfolding chain_result_def by blast
      have "include_chain fs' fname' ((?cf, config) # ch)" using config Some f(1) ch(1) by (intro include_chain.more) auto
      then show ?thesis using ch f(3) config(2)
        by (intro exI [of _ "(?cf, config) # ch"]) (auto simp: merge_chain_def own_settings_def)
    qed
  qed
qed

text \<open>
  How a load fails: the files at the start of the chain are read and each includes the next one; the
  file after them cannot be read, is one of them, holds no dictionary, or has an \<open>include\<close> that is no
  file name.
\<close>

inductive include_steps :: "files \<Rightarrow> string \<Rightarrow> (string \<times> vdict) list \<Rightarrow> string \<Rightarrow> bool" for fs where
  here: "include_steps fs file [] file"
| onward: "cf = abspath (working_dir fs) file \<Longrightarrow> bind_result (read_config fs cf) config_dict = Inr c \<Longrightarrow>
    dict_get c ''include'' = Some inc \<Longrightarrow> included_file cf inc = Inr f \<Longrightarrow> include_steps fs f ch g \<Longrightarrow>
    include_steps fs file ((cf, c) # ch) g"

definition config_file_error :: "files \<Rightarrow> string set \<Rightarrow> string \<Rightarrow> py_error option" where
  "config_file_error fs earlier file =
     (let cf = abspath (working_dir fs) file in
      case read_config fs cf of
        Inl e \<Rightarrow> Some e
      | Inr v \<Rightarrow>
          if cf \<in> earlier then Some GenericException
          else case config_dict v of
                 Inl e \<Rightarrow> Some e
               | Inr c \<Rightarrow>
                   (case dict_get c ''include'' of
                      None \<Rightarrow> None
                    | Some inc \<Rightarrow> (case included_file cf inc of Inl e \<Rightarrow> Some e | Inr _ \<Rightarrow> None)))"

lemma merge_config_here: "config_file_error fs traversed file = Some e \<Longrightarrow> merge_config fs traversed base file = Some (Inl e)"
  by (subst merge_config.simps)
    (auto simp: config_file_error_def Let_def split: sum.splits if_splits option.splits)

lemma merge_config_fails:
  "include_steps fs file ch f \<Longrightarrow> distinct (map fst ch) \<Longrightarrow> set (map fst ch) \<inter> traversed = {} \<Longrightarrow>
     config_file_error fs (traversed \<union> set (map fst ch)) f = Some e \<Longrightarrow>
     merge_config fs traversed base file = Some (Inl e)"
proof (induction arbitrary: traversed rule: include_steps.induct)
  case (here fname)
  then show ?case by (simp add: merge_config_here)
next
  case (onward cf fname c inc f ch g)
  have "merge_config fs (insert cf traversed) base f = Some (Inl e)"
    using onward.prems by (intro onward.IH) (auto simp: Un_insert_right)
  with onward show ?case
    by (subst merge_config.simps) (auto simp: bind_result_eq_Inr Let_def)
qed

definition chain_error :: "files \<Rightarrow> string set \<Rightarrow> string \<Rightarrow> vdict result \<Rightarrow> bool" where
  "chain_error fs traversed fname r =
     (\<forall>e. r = Inl e \<longrightarrow> (\<exists>ch f. include_steps fs fname ch f \<and> distinct (map fst ch) \<and> set (map fst ch) \<inter> traversed = {} \<and>
        config_file_error fs (traversed \<union> set (map fst ch)) f = Some e))"

lemma merge_config_error: "merge_config fs traversed base fname = Some r \<Longrightarrow> chain_error fs traversed fname r"
proof (rule merge_config.raw_induct [where P = "\<lambda>fs traversed base. chain_error fs traversed"])
  fix merge and fs' :: files and traversed' base' fname' r'
  let ?cf = "abspath (working_dir fs') fname'"
  assume ih: "\<And>fs traversed base file y. merge fs traversed base file = Some y \<Longrightarrow> chain_error fs traversed file y"
    and body: "(let config_file = ?cf in
      case bind_result (read_config fs' config_file)
             (\<lambda>config. if config_file \<in> traversed' then Inl GenericException else config_dict config) of
        Inl e \<Rightarrow> Some (Inl e)
      | Inr config \<Rightarrow>
          (case dict_get config ''include'' of
             None \<Rightarrow> Some (Inr (deep_merge_dict base' config))
           | Some include \<Rightarrow>
               (case included_file config_file include of
                  Inl e \<Rightarrow> Some (Inl e)
                | Inr including \<Rightarrow>
                    Option.bind (merge fs' (insert config_file traversed') base' including)
                      (\<lambda>r. Some (bind_result r (\<lambda>base'. Inr (deep_merge_dict base' (dict_del ''include'' config)))))))) = Some r'"
  show "chain_error fs' traversed' fname' r'"
    unfolding chain_error_def
  proof (intro allI impI)
    fix e assume r: "r' = Inl e"
    show "\<exists>ch f. include_steps fs' fname' ch f \<and> distinct (map fst ch) \<and> set (map fst ch) \<inter> traversed' = {} \<and>
        config_file_error fs' (traversed' \<union> set (map fst ch)) f = Some e"
    proof (cases "config_file_error fs' traversed' fname'")
      case (Some e')
      then have "e' = e" using body r
        by (auto simp: config_file_error_def Let_def split: sum.splits if_splits option.splits)
      with Some show ?thesis by (intro exI [of _ "[]"] exI [of _ fname']) (auto intro: include_steps.here)
    next
      case None
      with body r obtain c inc f where c: "bind_result (read_config fs' ?cf) config_dict = Inr c" "?cf \<notin> traversed'"
        "dict_get c ''include'' = Some inc" "included_file ?cf inc = Inr f"
        and deeper: "merge fs' (insert ?cf traversed') base' f = Some (Inl e)"
        by (auto simp: config_file_error_def Let_def bind_result_eq_Inl split: sum.splits if_splits option.splits Option.bind_splits)
      from ih [OF deeper] obtain ch g where ch: "include_steps fs' f ch g" "distinct (map fst ch)"
        "set (map fst ch) \<inter> insert ?cf traversed' = {}"
        "config_file_error fs' (insert ?cf traversed' \<union> set (map fst ch)) g = Some e"
        unfolding chain_error_def by blast
      have "include_steps fs' fname' ((?cf, c) # ch) g" using c ch(1) by (intro include_steps.onward) auto
      then show ?thesis using ch c(2)
        by (intro exI [of _ "(?cf, c) # ch"] exI [of _ g]) (auto simp: Un_insert_right)
    qed
  qed
qed

text \<open>C27: a configuration file is loaded exactly when its includes form a finite chain of distinct
  files, and the result is then the settings of the last file of the chain with those of every
  including file merged over them, in order. Loading raises an error exactly when, after a start of
  the chain whose files are distinct and each include the next one, a file cannot be read, is already
  in the chain, holds no dictionary or includes something that is no file name, and the error is the
  one of this first failing file.\<close>

theorem includes_are_merged_in_order:
  "(merge_config fs {} base fname = Some (Inr c) \<longleftrightarrow>
     (\<exists>ch. include_chain fs fname ch \<and> distinct (map fst ch) \<and> c = merge_chain base ch)) \<and>
   (merge_config fs {} base fname = Some (Inl e) \<longleftrightarrow>
     (\<exists>ch f. include_steps fs fname ch f \<and> distinct (map fst ch) \<and>
        config_file_error fs (set (map fst ch)) f = Some e))"
proof
  show "merge_config fs {} base fname = Some (Inr c) \<longleftrightarrow>
     (\<exists>ch. include_chain fs fname ch \<and> distinct (map fst ch) \<and> c = merge_chain base ch)"
    using merge_config_sound [of fs "{}" base fname "Inr c"] merge_config_chain [of fs fname _ "{}" base]
    by (auto simp: chain_result_def)
  show "merge_config fs {} base fname = Some (Inl e) \<longleftrightarrow>
     (\<exists>ch f. include_steps fs fname ch f \<and> distinct (map fst ch) \<and>
        config_file_error fs (set (map fst ch)) f = Some e)"
    using merge_config_error [of fs "{}" base fname "Inl e"] merge_config_fails [of fs fname _ _ "{}" e base]
    by (auto simp: chain_error_def)
qed

lemma merge_config_finite:
  assumes "finite {f. \<exists>v. read_config fs f = Inr v}"
  shows "\<exists>r. merge_config fs traversed base fname = Some r"
  using assms
proof (induction "card ({f. \<exists>v. read_config fs f = Inr v} - traversed)" arbitrary: traversed fname rule: less_induct)
  case less
  let ?cf = "abspath (working_dir fs) fname" and ?F = "{f. \<exists>v. read_config fs f = Inr v}"
  have rec: "merge_config fs (insert ?cf traversed) base f \<noteq> None"
    if "read_config fs ?cf = Inr v" "?cf \<notin> traversed" for v f
  proof -
    have "?F - insert ?cf traversed \<subset> ?F - traversed" using that by auto
    then have "card (?F - insert ?cf traversed) < card (?F - traversed)" using assms by (intro psubset_card_mono) auto
    then show ?thesis using less by force
  qed
  show ?case
  proof (cases "\<exists>v. read_config fs ?cf = Inr v \<and> ?cf \<notin> traversed")
    case True
    with rec have "\<forall>f. \<exists>r. merge_config fs (insert ?cf traversed) base f = Some r" by blast
    then obtain R where "\<And>f. merge_config fs (insert ?cf traversed) base f = Some (R f)" by metis
    then show ?thesis by (subst merge_config.simps) (auto simp: Let_def split: sum.splits option.splits)
  next
    case False
    then show ?thesis
      by (subst merge_config.simps) (cases "read_config fs ?cf"; auto simp: Let_def)
  qed
qed

text \<open>Loading a configuration file always returns when there are only finitely many readable
  files, also when files include each other in a circle.\<close>

theorem merge_config_returns:
  assumes "finite {f. \<exists>v. read_config fs f = Inr v}"
  shows "\<exists>r. merge_config fs traversed base fname = Some r"
  using merge_config_finite [OF assms] .


definition circular_files :: files where
  "circular_files =
     \<lparr>read_yaml = (\<lambda>f. if f = ''/etc/daq.yaml'' then Inr (Dict [(''include'', Str ''daq.yaml'')]) else Inl OSError),
      read_lines = (\<lambda>_. Inl OSError), file_exists = (\<lambda>f. f = ''/etc/daq.yaml''), working_dir = ''/etc''\<rparr>"

lemma merge_config_returns_witness: "\<exists>r. merge_config circular_files {} [] ''daq.yaml'' = Some r"
proof (rule merge_config_returns)
  have "{f. \<exists>v. read_config circular_files f = Inr v} \<subseteq> {''/etc/daq.yaml''}"
    by (auto simp: read_config_def circular_files_def split: if_splits)
  then show "finite {f. \<exists>v. read_config circular_files f = Inr v}" by (rule finite_subset) simp
qed

end
