(* ===== verification/Config_Text.thy ===== *)
theory Config_Text
  imports Configurator
begin

text \<open>
  The flat text form of a configuration (\<open>print_config\<close> and \<open>_read_flat_config\<close>): what is printed
  is read back as the same configuration, with the keys of every section sorted.
\<close>

subsection \<open>Configurations with a text form\<close>

definition good_key :: "string \<Rightarrow> bool" where
  "good_key k = (k \<noteq> [] \<and> list_all (\<lambda>c. \<not> is_space c \<and> c \<noteq> CHR ''.'' \<and> c \<noteq> CHR ''='' \<and> c \<noteq> CHR ''#'') k)"

definition good_text :: "string \<Rightarrow> bool" where
  "good_text s = (CHR ''#'' \<notin> set s \<and> CHR 0x0A \<notin> set s \<and> strip s = s \<and>
     strip_by (\<lambda>c. c = CHR 0x22) s = s \<and> strip_by (\<lambda>c. c = CHR 0x27) s = s)"

function good_config :: "vdict \<Rightarrow> bool" where
  "good_config d = (d \<noteq> [] \<and> dict_ok d \<and>
     list_all (\<lambda>(k, v). good_key k \<and> (case v of Dict e \<Rightarrow> good_config e | Str s \<Rightarrow> good_text s | _ \<Rightarrow> False)) d)"
  by pat_completeness auto
termination
  by (relation "measure (\<lambda>d. size_list (size_prod (\<lambda>_. 0) size) d)") (auto intro!: size_list_estimation)

function sorted_config :: "vdict \<Rightarrow> vdict" where
  "sorted_config d =
     map (\<lambda>(k, v). (k, case v of Dict e \<Rightarrow> Dict (sorted_config e) | _ \<Rightarrow> v)) (sort_key fst d)"
  by pat_completeness auto
termination
  by (relation "measure (\<lambda>d. size_list (size_prod (\<lambda>_. 0) size) d)") (auto intro!: size_list_estimation)

declare good_config.simps [simp del] sorted_config.simps [simp del] append_config.simps [simp del]

fun str_of :: "val \<Rightarrow> string" where
  \<comment> \<open>\<open>str()\<close> of a string\<close>
  "str_of (Str s) = s"
| "str_of _ = []"

subsection \<open>Keys and values\<close>

lemma strip_by_append:
  assumes "xs \<noteq> []" "ys \<noteq> []" "\<not> P (hd xs)" "\<not> P (last ys)"
  shows "strip_by P (xs @ zs @ ys) = xs @ zs @ ys"
proof -
  have "dropWhile P (xs @ zs @ ys) = xs @ zs @ ys" using assms by (cases xs) auto
  moreover have "dropWhile P (rev ys @ rev zs @ rev xs) = rev ys @ rev zs @ rev xs"
    using assms(2,4) by (cases ys rule: rev_cases) auto
  ultimately show ?thesis by (simp add: strip_by_def)
qed

lemma strip_by_none: "list_all (\<lambda>c. \<not> P c) s \<Longrightarrow> strip_by P s = s"
proof -
  have "list_all (\<lambda>c. \<not> P c) xs \<Longrightarrow> dropWhile P xs = xs" for xs by (cases xs) auto
  moreover assume "list_all (\<lambda>c. \<not> P c) s"
  ultimately show ?thesis by (simp add: strip_by_def)
qed

lemma strip_by_wrap: "P c \<Longrightarrow> strip_by P (c # s @ [c]) = strip_by P s"
  by (cases "\<forall>x\<in>set s. P x") (auto simp: strip_by_def dropWhile_append dest: set_dropWhileD)

definition quoted :: "string \<Rightarrow> string" where
  "quoted s = (if CHR '' '' \<in> set s then CHR 0x22 # s @ [CHR 0x22] else s)"

lemma clean_good: "good_text s \<Longrightarrow> clean_value (Str s) = Str s"
  by (simp add: clean_value_def good_text_def)

lemma clean_quoted: "good_text s \<Longrightarrow> clean_value (Str (quoted s)) = Str s"
proof -
  assume s: "good_text s"
  have q: "\<not> is_space (CHR 0x22)" by (simp add: is_space_def)
  have "strip (CHR 0x22 # s @ [CHR 0x22]) = CHR 0x22 # s @ [CHR 0x22]"
    using strip_by_append [of "[CHR 0x22]" "[CHR 0x22]" is_space s] q by simp
  then show ?thesis
    using s clean_good [OF s] by (simp add: clean_value_def quoted_def strip_by_wrap good_text_def)
qed

lemma parse_flat_item_clean:
  assumes "clean_value v = clean_value w"
  shows "parse_flat_item config key v = parse_flat_item config key w"
  by (subst (1 2) parse_flat_item.simps) (simp only: assms)

fun join_dot :: "string list \<Rightarrow> string" where
  "join_dot [] = []"
| "join_dot [k] = k"
| "join_dot (k # ks) = k @ ''.'' @ join_dot ks"

lemma join_dot_Cons: "ks \<noteq> [] \<Longrightarrow> join_dot (k # ks) = k @ ''.'' @ join_dot ks"
  by (cases ks) simp_all

lemma good_key_chars: "good_key k \<Longrightarrow> c \<in> set k \<Longrightarrow> \<not> is_space c \<and> c \<noteq> CHR ''.'' \<and> c \<noteq> CHR ''='' \<and> c \<noteq> CHR ''#''"
  by (auto simp: good_key_def list_all_iff)

lemma join_dot_chars:
  "list_all good_key p \<Longrightarrow> c \<in> set (join_dot p) \<Longrightarrow> \<not> is_space c \<and> c \<noteq> CHR ''='' \<and> c \<noteq> CHR ''#''"
proof (induction p rule: join_dot.induct)
  case (2 k)
  then show ?case using good_key_chars by simp
next
  case (3 k v va)
  then show ?case using good_key_chars [of k c] by (auto simp: is_space_def)
qed simp

lemma strip_path: "list_all good_key p \<Longrightarrow> strip (join_dot p) = join_dot p"
  using join_dot_chars by (intro strip_by_none) (auto simp: list_all_iff)

lemma join_dot_nonempty: "list_all good_key p \<Longrightarrow> p \<noteq> [] \<Longrightarrow> join_dot p \<noteq> []"
  by (cases p rule: join_dot.cases) (auto simp: good_key_def)

lemma split_key: "good_key k \<Longrightarrow> split_once CHR ''.'' k = (k, None)"
proof -
  assume k: "good_key k"
  then have "takeWhile (\<lambda>x. x \<noteq> CHR ''.'') k = k" using good_key_chars by (simp add: takeWhile_eq_all_conv)
  then show ?thesis using good_key_chars [OF k] by (auto simp: split_once_def Let_def)
qed

lemma split_at: "c \<notin> set k \<Longrightarrow> split_once c (k @ c # r) = (k, Some r)"
proof -
  assume "c \<notin> set k"
  then have "takeWhile (\<lambda>x. x \<noteq> c) (k @ c # r) = k" by (induction k) auto
  then show ?thesis by (simp add: split_once_def Let_def)
qed

lemma split_path: "good_key k \<Longrightarrow> ks \<noteq> [] \<Longrightarrow> split_once CHR ''.'' (join_dot (k # ks)) = (k, Some (join_dot ks))"
  using split_at [of "CHR ''.''" k "join_dot ks"] good_key_chars by (auto simp: join_dot_Cons)

subsection \<open>Items\<close>

definition section_of :: "vdict \<Rightarrow> string \<Rightarrow> val" where
  "section_of d k = (case dict_get d k of None \<Rightarrow> Dict [] | Some sub \<Rightarrow> sub)"

lemma item_key:
  "good_key k \<Longrightarrow> good_text s \<Longrightarrow> parse_flat_item (Dict d) (join_dot [k]) (Str s) = Inr (Dict (dict_set k (Str s) d))"
  using strip_path [of "[k]"] by (subst parse_flat_item.simps) (simp add: split_key clean_good)

lemma item_section:
  "list_all good_key (k # ks) \<Longrightarrow> ks \<noteq> [] \<Longrightarrow> good_text s \<Longrightarrow>
     parse_flat_item (Dict d) (join_dot (k # ks)) (Str s) =
       bind_result (parse_flat_item (section_of d k) (join_dot ks) (Str s)) (\<lambda>sub. Inr (Dict (dict_set k sub d)))"
  using strip_path [of "k # ks"]
  by (subst parse_flat_item.simps) (simp add: split_path clean_good section_of_def del: join_dot.simps)

fun read_items :: "(string list \<times> string) list \<Rightarrow> val \<Rightarrow> val result" where
  "read_items [] c = Inr c"
| "read_items ((p, s) # xs) c = bind_result (parse_flat_item c (join_dot p) (Str s)) (read_items xs)"

lemma read_items_append: "read_items (xs @ ys) c = bind_result (read_items xs c) (read_items ys)"
proof (induction xs arbitrary: c)
  case (Cons x xs)
  obtain p s where x: "x = (p, s)" by (cases x)
  show ?case using Cons x by (cases "parse_flat_item c (join_dot p) (Str s)") simp_all
qed simp

abbreviation good_item :: "string list \<times> string \<Rightarrow> bool" where
  "good_item x \<equiv> list_all good_key (fst x) \<and> fst x \<noteq> [] \<and> good_text (snd x)"

text \<open>Items that share their first key are read into its section.\<close>

lemma read_section:
  assumes "list_all good_item xs" "good_key k" "xs \<noteq> []" "read_items xs (section_of d k) = Inr e"
  shows "read_items (map (\<lambda>(p, s). (k # p, s)) xs) (Dict d) = Inr (Dict (dict_set k e d))"
  using assms
proof (induction xs arbitrary: d)
  case (Cons x xs)
  obtain p s where x: "x = (p, s)" by (cases x)
  from Cons.prems x obtain e1 where e1: "parse_flat_item (section_of d k) (join_dot p) (Str s) = Inr e1"
    "read_items xs e1 = Inr e" by (auto simp: bind_result_eq_Inr)
  have step: "parse_flat_item (Dict d) (join_dot (k # p)) (Str s) = Inr (Dict (dict_set k e1 d))"
    using item_section [of k p s d] Cons.prems x e1(1) by simp
  show ?case
  proof (cases "xs = []")
    case True
    then show ?thesis using step x e1(2) by simp
  next
    case False
    have "section_of (dict_set k e1 d) k = e1" by (simp add: section_of_def dict_get_set)
    then have "read_items (map (\<lambda>(p, s). (k # p, s)) xs) (Dict (dict_set k e1 d)) = Inr (Dict (dict_set k e (dict_set k e1 d)))"
      using Cons.IH [of "dict_set k e1 d"] Cons.prems False e1(2) by simp
    then show ?thesis using step x by simp
  qed
qed simp


subsection \<open>Reading back what was printed\<close>

function leaves :: "vdict \<Rightarrow> (string list \<times> string) list" where
  "leaves d =
     concat (map (\<lambda>(k, v).
         case v of Dict e \<Rightarrow> map (\<lambda>(p, s). (k # p, s)) (leaves e) | Str s \<Rightarrow> [([k], s)] | _ \<Rightarrow> [])
       (sort_key fst d))"
  by pat_completeness auto
termination
  by (relation "measure (\<lambda>d. size_list (size_prod (\<lambda>_. 0) size) d)") (auto intro!: size_list_estimation)

declare leaves.simps [simp del]

lemma good_entry: "good_config d \<Longrightarrow> (k, v) \<in> set d \<Longrightarrow>
    good_key k \<and> (case v of Dict e \<Rightarrow> good_config e | Str s \<Rightarrow> good_text s | _ \<Rightarrow> False)"
  by (subst (asm) good_config.simps) (auto simp: list_all_iff)

lemma leaves_good: "good_config d \<Longrightarrow> list_all good_item (leaves d) \<and> leaves d \<noteq> []"
proof (induction d rule: good_config.induct)
  case (1 d)
  have entry: "list_all good_item (case v of Dict e \<Rightarrow> map (\<lambda>(p, s). (k # p, s)) (leaves e) | Str s \<Rightarrow> [([k], s)] | _ \<Rightarrow> [])
      \<and> (case v of Dict e \<Rightarrow> map (\<lambda>(p, s). (k # p, s)) (leaves e) | Str s \<Rightarrow> [([k], s)] | _ \<Rightarrow> []) \<noteq> []"
    if kv: "(k, v) \<in> set d" for k v
  proof (cases v)
    case (Dict e)
    with 1 good_entry [OF 1(2) kv] kv have "list_all good_item (leaves e)" "leaves e \<noteq> []" "good_key k" by auto
    then show ?thesis using Dict by (auto simp: list_all_iff)
  qed (use good_entry [OF 1(2) kv] in auto)
  obtain k v where "(k, v) \<in> set d" using 1(2) by (subst (asm) good_config.simps) (cases d; auto)
  with entry show ?case by (subst (1 2) leaves.simps) (fastforce simp: list_all_iff)
qed

lemma print_entry: "(if CHR '' '' \<in> set s then [CHR 0x22] else []) @ s @ (if CHR '' '' \<in> set s then [CHR 0x22] else []) = quoted s"
  by (simp add: quoted_def)

lemma append_config_leaves:
  "good_config d \<Longrightarrow> append_config str_of prefix d = map (\<lambda>(p, s). prefix @ join_dot p @ ''='' @ quoted s) (leaves d)"
proof (induction d arbitrary: prefix rule: good_config.induct)
  case (1 d)
  have "(case v of
           Dict e \<Rightarrow> append_config str_of (prefix @ k @ ''.'') e
         | _ \<Rightarrow> (let quote = (if CHR '' '' \<in> set (str_of v) then [CHR 0x22] else [])
                 in [prefix @ k @ ''='' @ quote @ str_of v @ quote])) =
      map (\<lambda>(p, s). prefix @ join_dot p @ ''='' @ quoted s)
        (case v of Dict e \<Rightarrow> map (\<lambda>(p, s). (k # p, s)) (leaves e) | Str s \<Rightarrow> [([k], s)] | _ \<Rightarrow> [])"
    if kv: "(k, v) \<in> set d" for k v
  proof (cases v)
    case (Dict e)
    with good_entry [OF 1(2) kv] have e: "good_config e" by simp
    have "map (\<lambda>(p, s). (prefix @ k @ ''.'') @ join_dot p @ ''='' @ quoted s) (leaves e) =
        map (\<lambda>(p, s). prefix @ join_dot (k # p) @ ''='' @ quoted s) (leaves e)"
      using leaves_good [OF e] by (intro map_cong refl) (auto simp: list_all_iff join_dot_Cons)
    then show ?thesis using 1(1) [OF kv [unfolded Dict] refl] Dict e kv 1 by (auto simp: comp_def split_def)
  next
    case (Str s)
    then show ?thesis by (simp add: quoted_def)
  qed (use good_entry [OF 1(2) kv] in auto)
  then show ?case
    by (subst append_config.simps, subst leaves.simps) (auto simp: map_concat comp_def intro!: arg_cong [where f = concat])
qed

lemma read_entries:
  assumes "\<And>k v. (k, v) \<in> set xs \<Longrightarrow> good_key k \<and> (case v of
        Dict e \<Rightarrow> good_config e \<and> read_items (leaves e) (Dict []) = Inr (Dict (sorted_config e))
      | Str s \<Rightarrow> good_text s | _ \<Rightarrow> False)"
    and "distinct (map fst xs)" "set (map fst xs) \<inter> set (dict_keys acc) = {}"
  shows "read_items (concat (map (\<lambda>(k, v).
         case v of Dict e \<Rightarrow> map (\<lambda>(p, s). (k # p, s)) (leaves e) | Str s \<Rightarrow> [([k], s)] | _ \<Rightarrow> []) xs)) (Dict acc) =
    Inr (Dict (acc @ map (\<lambda>(k, v). (k, case v of Dict e \<Rightarrow> Dict (sorted_config e) | _ \<Rightarrow> v)) xs))"
  using assms
proof (induction xs arbitrary: acc)
  case (Cons x xs)
  obtain k v where x: "x = (k, v)" by (cases x)
  let ?v = "case v of Dict e \<Rightarrow> Dict (sorted_config e) | _ \<Rightarrow> v"
  have new: "k \<notin> set (dict_keys acc)" using Cons.prems(3) x by auto
  have kv: "good_key k \<and> (case v of
        Dict e \<Rightarrow> good_config e \<and> read_items (leaves e) (Dict []) = Inr (Dict (sorted_config e))
      | Str s \<Rightarrow> good_text s | _ \<Rightarrow> False)" using Cons.prems(1) [of k v] x by simp
  have step: "read_items (case v of Dict e \<Rightarrow> map (\<lambda>(p, s). (k # p, s)) (leaves e) | Str s \<Rightarrow> [([k], s)] | _ \<Rightarrow> []) (Dict acc) =
      Inr (Dict (acc @ [(k, ?v)]))"
  proof (cases v)
    case (Dict e)
    have "dict_get acc k = None" using new by (simp add: map_of_eq_None_iff)
    then have "section_of acc k = Dict []" by (simp add: section_of_def)
    then have "read_items (map (\<lambda>(p, s). (k # p, s)) (leaves e)) (Dict acc) = Inr (Dict (dict_set k (Dict (sorted_config e)) acc))"
      using kv Dict leaves_good [of e] by (intro read_section) auto
    then show ?thesis using Dict new by (simp add: dict_set_fresh)
  next
    case (Str s)
    then show ?thesis using kv item_key [of k s acc] new by (simp add: dict_set_fresh)
  qed (use kv in auto)
  have "read_items (concat (map (\<lambda>(k, v).
         case v of Dict e \<Rightarrow> map (\<lambda>(p, s). (k # p, s)) (leaves e) | Str s \<Rightarrow> [([k], s)] | _ \<Rightarrow> []) xs)) (Dict (acc @ [(k, ?v)])) =
      Inr (Dict ((acc @ [(k, ?v)]) @ map (\<lambda>(k, v). (k, case v of Dict e \<Rightarrow> Dict (sorted_config e) | _ \<Rightarrow> v)) xs))"
    by (rule Cons.IH) (use Cons.prems x in auto)
  with step x show ?case by (simp add: read_items_append)
qed simp

lemma read_leaves: "good_config d \<Longrightarrow> read_items (leaves d) (Dict []) = Inr (Dict (sorted_config d))"
proof (induction d rule: good_config.induct)
  case (1 d)
  have "good_key k \<and> (case v of
        Dict e \<Rightarrow> good_config e \<and> read_items (leaves e) (Dict []) = Inr (Dict (sorted_config e))
      | Str s \<Rightarrow> good_text s | _ \<Rightarrow> False)" if kv: "(k, v) \<in> set (sort_key fst d)" for k v
    using good_entry [OF 1(2), of k v] 1(1) [of "(k, v)" k v] kv by (auto split: val.splits)
  moreover have "distinct (map fst (sort_key fst d))"
  proof -
    have "dict_ok d" using 1(2) by (subst (asm) good_config.simps) simp
    then show ?thesis by (metis distinct_map distinct_sort set_sort)
  qed
  ultimately show ?case
    using read_entries [of "sort_key fst d" "[]"] by (subst leaves.simps, subst sorted_config.simps) simp
qed

lemma strip_fixed: "strip_by P s = s \<Longrightarrow> s \<noteq> [] \<Longrightarrow> \<not> P (last s)"
proof -
  assume s: "strip_by P s = s" "s \<noteq> []"
  then have "dropWhile P (rev (dropWhile P s)) = rev s" by (metis rev_rev_ident strip_by_def)
  with s(2) show ?thesis by (metis hd_dropWhile hd_rev rev_is_Nil_conv)
qed

lemma read_line:
  assumes "list_all good_key p" "p \<noteq> []" "good_text s"
  shows "split_once CHR ''='' (strip_comment (join_dot p @ ''='' @ quoted s)) = (join_dot p, Some (quoted s))"
proof -
  let ?line = "join_dot p @ ''='' @ quoted s"
  have no_hash: "CHR ''#'' \<notin> set ?line"
    using join_dot_chars [OF assms(1)] assms(3) by (auto simp: quoted_def good_text_def)
  then have "takeWhile (\<lambda>c. c \<noteq> CHR ''#'') ?line = ?line" by (auto simp: takeWhile_eq_all_conv)
  moreover have "strip ?line = ?line"
  proof -
    have "\<not> is_space (last (''='' @ quoted s))"
      using assms(3) strip_fixed [of is_space s] by (auto simp: quoted_def good_text_def is_space_def)
    moreover have "\<not> is_space (hd (join_dot p))" using join_dot_chars [OF assms(1)] join_dot_nonempty [OF assms(1,2)] by simp
    ultimately show ?thesis
      using strip_by_append [of "join_dot p" "''='' @ quoted s" is_space "[]"] join_dot_nonempty [OF assms(1,2)] by simp
  qed
  ultimately have "strip_comment ?line = ?line" by (simp only: strip_comment_def)
  moreover have "CHR ''='' \<notin> set (join_dot p)" using join_dot_chars [OF assms(1)] by blast
  ultimately show ?thesis using split_at by simp
qed

lemma read_lines_items:
  "list_all good_item xs \<Longrightarrow> read_flat_lines (map (\<lambda>(p, s). join_dot p @ ''='' @ quoted s) xs) c = read_items xs c"
proof (induction xs arbitrary: c)
  case (Cons x xs)
  obtain p s where x: "x = (p, s)" by (cases x)
  have same: "parse_flat_item c (join_dot p) (Str (quoted s)) = parse_flat_item c (join_dot p) (Str s)"
    using Cons.prems x by (intro parse_flat_item_clean) (simp add: clean_quoted clean_good)
  show ?case
    using Cons x read_line [of p s] same
    by (cases "parse_flat_item c (join_dot p) (Str s)") simp_all
qed simp

text \<open>C38: for a configuration whose values are all strings or non-empty sections of such values, in which
  no key is empty or has a space, a dot, an equals sign or a hash, and no string has a hash, a line end,
  or outer spaces or quotes, reading the lines that \<open>print_config\<close> prints gives the configuration back,
  with the keys of every section sorted. (Numbers and truth values are printed too, but are read
  back as strings: the statement is about strings only.)\<close>

theorem printed_config_reads_back:
  assumes "good_config config"
  shows "read_flat_lines (append_config str_of [] config) (Dict []) = Inr (Dict (sorted_config config))"
  using append_config_leaves [OF assms, of "[]"] read_lines_items leaves_good [OF assms] read_leaves [OF assms] by simp

lemma printed_config_reads_back_witness:
  "read_flat_lines (append_config str_of [] [(''x'', Str ''3''), (''run'', Dict [(''b'', Str ''1''), (''a'', Str ''two words'')])]) (Dict []) =
     Inr (Dict [(''run'', Dict [(''a'', Str ''two words''), (''b'', Str ''1'')]), (''x'', Str ''3'')])"
proof -
  have "good_config [(''b'', Str ''1''), (''a'', Str ''two words'')]"
    by (simp add: good_config.simps good_key_def good_text_def is_space_def strip_by_def)
  then have "good_config [(''x'', Str ''3''), (''run'', Dict [(''b'', Str ''1''), (''a'', Str ''two words'')])]"
    by (subst good_config.simps) (simp add: good_key_def good_text_def is_space_def strip_by_def)
  from printed_config_reads_back [OF this] show ?thesis by (simp add: sorted_config.simps)
qed

end
