(* ===== verification/Py_Regex.thy ===== *)
theory Py_Regex
  imports Configurator
begin

text \<open>
  Regular expressions as Python's \<open>re\<close> matches them, for the patterns of the sources: sequences,
  ordered alternatives, optional parts, groups, the two anchors, and repetitions of one character
  class, greedy or lazy. A matcher that backtracks tries the ways to match in a fixed order, so
  \<open>rx_match\<close> returns all of them in that order and the first one is the match; every repetition runs
  over a string that is known, so no bound is needed.
\<close>

datatype rx =
    Eps
  | One "char \<Rightarrow> bool"
  | Many bool nat "char \<Rightarrow> bool"
  | Cat rx rx
  | Alt rx rx
  | Opt rx
  | Group nat rx
  | Bol
  | Eol

text \<open>The position, the rest of the string and the groups found so far.\<close>

type_synonym rx_state = "nat \<times> string \<times> (nat, string) dict"

definition newline :: char where
  "newline = CHR 0x0A"

definition any_char :: "char \<Rightarrow> bool" where
  \<comment> \<open>the pattern \<open>.\<close>\<close>
  "any_char c \<longleftrightarrow> c \<noteq> newline"

fun lit :: "string \<Rightarrow> rx" where
  "lit [] = Eps"
| "lit (c # cs) = Cat (One (\<lambda>x. x = c)) (lit cs)"

primrec rx_match :: "rx \<Rightarrow> rx_state \<Rightarrow> rx_state list" where
  "rx_match Eps st = [st]"
| "rx_match (One P) st =
     (case st of (pos, [], g) \<Rightarrow> [] | (pos, c # cs, g) \<Rightarrow> if P c then [(Suc pos, cs, g)] else [])"
| "rx_match (Many greedy n P) st =
     (case st of (pos, s, g) \<Rightarrow>
        map (\<lambda>i. (pos + i, drop i s, g))
          (if greedy then rev [n..<Suc (length (takeWhile P s))] else [n..<Suc (length (takeWhile P s))]))"
| "rx_match (Cat r1 r2) st = concat (map (rx_match r2) (rx_match r1 st))"
| "rx_match (Alt r1 r2) st = rx_match r1 st @ rx_match r2 st"
| "rx_match (Opt r) st = rx_match r st @ [st]"
| "rx_match (Group k r) st =
     (case st of (pos, s, g) \<Rightarrow>
        map (\<lambda>(pos', s', g'). (pos', s', dict_set k (take (length s - length s') s) g')) (rx_match r (pos, s, g)))"
| "rx_match Bol st = (if fst st = 0 then [st] else [])"
| "rx_match Eol st = (if fst (snd st) = [] \<or> fst (snd st) = [newline] then [st] else [])"

fun search_from :: "rx \<Rightarrow> nat \<Rightarrow> string \<Rightarrow> (nat, string) dict option" where
  "search_from r pos s =
     (case rx_match r (pos, s, []) of
        (_, _, g) # _ \<Rightarrow> Some g
      | [] \<Rightarrow> (case s of [] \<Rightarrow> None | _ # cs \<Rightarrow> search_from r (Suc pos) cs))"

declare search_from.simps [simp del]

definition rx_search :: "rx \<Rightarrow> string \<Rightarrow> (nat, string) dict option" where
  \<comment> \<open>\<open>re.search(r, s)\<close>: the groups that took part in the match\<close>
  "rx_search r s = search_from r 0 s"

subsection \<open>Ways to match\<close>

lemma lit_match: "rx_match (lit w) (pos, s, g) = (if take (length w) s = w then [(pos + length w, drop (length w) s, g)] else [])"
proof (induction w arbitrary: pos s)
  case (Cons c w)
  then show ?case by (cases s) auto
qed simp

lemma takeWhile_all_head:
  "list_all P w \<Longrightarrow> rest \<noteq> [] \<Longrightarrow> \<not> P (hd rest) \<Longrightarrow> takeWhile P (w @ rest) = w"
  by (induction w) (auto simp: takeWhile_eq_Nil_iff)

text \<open>
  A lazy repetition followed by something that needs a character of another class, on a word that
  has no such character: only the whole word is a way to go on.
\<close>

definition needs :: "(char \<Rightarrow> bool) \<Rightarrow> rx \<Rightarrow> bool" where
  \<comment> \<open>\<open>r\<close> can only start with a character of the class\<close>
  "needs Q r \<longleftrightarrow> (\<forall>pos s g. s = [] \<or> \<not> Q (hd s) \<longrightarrow> rx_match r (pos, s, g) = [])"

lemma needs_Many: "0 < n \<Longrightarrow> needs Q (Many b n Q)"
  by (auto simp: needs_def takeWhile_eq_Nil_iff dest: le_trans)
    (metis le_zero_eq list.size(3) not_gr_zero takeWhile_eq_Nil_iff)

lemma needs_Cat: "needs Q r \<Longrightarrow> needs Q (Cat r r')"
  by (simp add: needs_def)

lemma concat_map_prefix:
  assumes "\<And>i. i < n \<Longrightarrow> f i = []" "n \<le> m"
  shows "concat (map f [0..<m]) = concat (map f [n..<m])"
proof -
  have "[0..<m] = [0..<n] @ [n..<m]" using assms(2) by (metis le_add_diff_inverse upt_add_eq_append zero_le)
  moreover have "concat (map f [0..<n]) = []" using assms(1) by simp
  ultimately show ?thesis by simp
qed

text \<open>A lazy group is the shortest prefix after which the rest of the pattern matches.\<close>

lemma lazy_group_prefix:
  assumes w: "list_all P w" and fails: "\<And>i g. i < length w \<Longrightarrow> rx_match r (pos + i, drop i (w @ rest), g) = []"
    and found: "rx_match r (pos + length w, rest, dict_set k w g) = x # xs"
  shows "\<exists>ys. rx_match (Cat (Group k (Many False 0 P)) r) (pos, w @ rest, g) = x # ys"
proof -
  let ?f = "\<lambda>i. rx_match r (pos + i, drop i (w @ rest), dict_set k (take i (w @ rest)) g)"
  let ?m = "Suc (length (takeWhile P (w @ rest)))"
  have m: "length w < ?m" using w by (induction w) auto
  have "concat (map ?f [0..<?m]) = concat (map ?f [length w..<?m])"
    using m fails by (intro concat_map_prefix) auto
  also have "\<dots> = ?f (length w) @ concat (map ?f [Suc (length w)..<?m])" using m by (simp add: upt_conv_Cons del: upt_Suc)
  also have "?f (length w) = x # xs" using found by simp
  finally have all: "concat (map ?f [0..<?m]) = x # xs @ concat (map ?f [Suc (length w)..<?m])" by simp
  have len: "length s - (length s - i) = i" if "i < Suc (length (takeWhile P s))" for i and s :: string
    using that length_takeWhile_le [of P s] by linarith
  have "rx_match (Cat (Group k (Many False 0 P)) r) (pos, s, g) =
      concat (map (\<lambda>i. rx_match r (pos + i, drop i s, dict_set k (take i s) g)) [0..<Suc (length (takeWhile P s))])" for s
    by (auto simp: comp_def len simp del: upt_Suc intro!: arg_cong [of _ _ concat] map_cong)
  note this [of "w @ rest"]
  with all show ?thesis by auto
qed

text \<open>In particular a word, when the rest of the pattern needs a character that is not in the word.\<close>

lemma lazy_group_word:
  assumes w: "list_all (\<lambda>c. P c \<and> \<not> Q c) w" and "needs Q r"
    and found: "rx_match r (pos + length w, rest, dict_set k w g) = x # xs"
  shows "\<exists>ys. rx_match (Cat (Group k (Many False 0 P)) r) (pos, w @ rest, g) = x # ys"
proof (rule lazy_group_prefix [OF _ _ found])
  show "list_all P w" using w by (simp add: list_all_iff)
  fix i g assume "i < length w"
  then have "drop i (w @ rest) \<noteq> []" "\<not> Q (hd (drop i (w @ rest)))"
    using w by (auto simp: hd_drop_conv_nth nth_append list_all_length)
  then show "rx_match r (pos + i, drop i (w @ rest), g) = []" using assms(2) by (simp add: needs_def)
qed

text \<open>A greedy repetition takes the longest run first.\<close>

lemma greedy_first:
  assumes "n \<le> length (takeWhile P s)"
    and "rx_match r (pos + length (takeWhile P s), dropWhile P s, g) = x # xs"
  shows "\<exists>ys. rx_match (Cat (Many True n P) r) (pos, s, g) = x # ys"
  using assms by (auto simp: dropWhile_eq_drop rev_map [symmetric])

lemma search_first: "rx_match r (0, s, []) = (p, s', g) # xs \<Longrightarrow> rx_search r s = Some g"
  by (simp add: rx_search_def search_from.simps)

text \<open>A pattern anchored at the start of the line is only tried there.\<close>

lemma search_anchored: "rx_search (Cat Bol r) s = (case rx_match r (0, s, []) of [] \<Rightarrow> None | (_, _, g) # _ \<Rightarrow> Some g)"
proof -
  have late: "search_from (Cat Bol r) (Suc n) t = None" for n t
    by (induction t arbitrary: n) (simp_all add: search_from.simps)
  show ?thesis unfolding rx_search_def
    by (subst search_from.simps) (auto simp: late split: list.splits)
qed

end
