(* ===== verification/Devices.thy ===== *)
theory Devices
  imports Topology_Traffic "HOL-Library.Multiset"
begin

text \<open>
  The state of \<open>daq/runner.py\<close> and the registry of devices. Device, port and gateway objects
  are shared between tables (a port object between the runner and a device, a gateway between the
  devices of a group), so they live in stores and are referred to by numbers; a new object gets the
  next number. A flapping start that is unset is 0, as the code only tests whether it is set.
\<close>

record port_info =
  pi_active :: bool
  pi_flapping :: int
  pi_port_no :: "int option"

definition new_port_info :: port_info where
  "new_port_info = \<lparr>pi_active = False, pi_flapping = 0, pi_port_no = None\<rparr>"

datatype dhcp_mode = NORMAL | STATIC_IP | EXTERNAL | LONG_RESPONSE | IP_CHANGE

record device =
  dv_mac :: string
  dv_host :: "nat option"
  dv_gateway :: "nat option"
  dv_group :: "string option"
  dv_port :: nat
  dv_dhcp_ready :: bool
  dv_dhcp_mode :: "dhcp_mode option"
  dv_ip_addr :: "string option"
  dv_ip_state :: "string option"
  dv_delta :: "int option"
  dv_vlan :: "int option"
  dv_set_id :: "int option"
  dv_assigned :: "int option"
  dv_wait_remote :: bool

definition new_device_object :: "string \<Rightarrow> nat \<Rightarrow> int option \<Rightarrow> device" where
  "new_device_object mac port vlan =
     \<lparr>dv_mac = mac, dv_host = None, dv_gateway = None, dv_group = None, dv_port = port, dv_dhcp_ready = False,
      dv_dhcp_mode = None, dv_ip_addr = None, dv_ip_state = None, dv_delta = None, dv_vlan = vlan, dv_set_id = None,
      dv_assigned = None, dv_wait_remote = False\<rparr>"

text \<open>
  What a test recorded (\<open>host.results\<close>), what the report says of a module, an exception as the class
  name and the text the code reads of it, and what the FAUCET event socket delivers: an event, the
  loss of the connection, or another failure of reading it.
\<close>

record test_result =
  tr_name :: "string option"
  tr_code :: "int option"
  tr_exception :: "string option"

record module_result =
  mr_exception :: "string option"
  mr_return_code :: "int option"
  mr_tests :: "(string, string option) dict"

record exn =
  ex_class :: string
  ex_text :: string

datatype faucet_event = PortState int int bool | PortLearn int int string int | OtherEvent

datatype incoming = Event faucet_event | Disconnected | Broken

datatype behavior = Failed | Passed

type_synonym result_set = "(string, test_result) dict"
type_synonym test_report = "(string, module_result) dict"

text \<open>
  The runner. A connected host is an object of the component \<open>host.py\<close>, whose type is a parameter
  here. The field \<open>starved\<close> is set when the loop over the events is cut short; it never is.
\<close>

record 'h runner =
  dv_store :: "nat \<Rightarrow> device"
  dv_next :: nat
  pt_store :: "nat \<Rightarrow> port_info"
  pt_next :: nat
  gw_store :: "nat \<Rightarrow> gateway"
  gw_next :: nat
  gw_linger :: "nat \<Rightarrow> bool"
  host_store :: "nat \<Rightarrow> 'h"
  host_gateway :: "nat \<Rightarrow> nat"
  host_device :: "nat \<Rightarrow> nat"
  host_next :: nat
  by_mac :: "(string, nat) dict"
  set_ids :: "int list"
  port_objs :: "(int, nat) dict"
  gateway_sets :: "int list"
  native_gateway :: "nat option"
  target_set_queue :: "nat list"
  result_sets :: "(nat, result_set) dict"
  events :: "incoming list"
  connected :: bool
  system_active :: bool
  run_tests :: bool
  run_count :: nat
  linger_exit :: nat
  failure :: bool
  sent_results :: "(string \<times> behavior) list"
  topo :: topology
  starved :: bool

type_synonym ('h, 'a) runner_op = "('h runner, 'a) op"

text \<open>
  \<open>DAQRunner.__init__\<close>: nothing is connected yet. The stores hold no object; the arguments are the
  topology and the host objects of the store (never read before one is made).
\<close>

definition MAX_GATEWAYS :: int where "MAX_GATEWAYS = 9"

definition runner_init :: "topology \<Rightarrow> 'h \<Rightarrow> 'h runner" where
  "runner_init t h =
     \<lparr>dv_store = (\<lambda>_. new_device_object [] 0 None), dv_next = 0, pt_store = (\<lambda>_. new_port_info), pt_next = 0,
      gw_store = (\<lambda>_. \<lparr>gw_name = [], port_set = 0, targets = [], test_ports = [], ready = [], activated = False,
                       is_native = False\<rparr>),
      gw_next = 0, gw_linger = (\<lambda>_. False), host_store = (\<lambda>_. h), host_gateway = (\<lambda>_. 0), host_device = (\<lambda>_. 0), host_next = 0,
      by_mac = [], set_ids = [], port_objs = [], gateway_sets = [1..MAX_GATEWAYS], native_gateway = None,
      target_set_queue = [], result_sets = [], events = [], connected = False, system_active = False,
      run_tests = True, run_count = 0, linger_exit = 0, failure = False, sent_results = [], topo = t,
      starved = False\<rparr>"

subsection \<open>Objects\<close>

definition the_device :: "nat \<Rightarrow> 'h runner \<Rightarrow> device" where
  "the_device d s = dv_store s d"

definition the_port :: "nat \<Rightarrow> 'h runner \<Rightarrow> port_info" where
  "the_port d s = pt_store s (dv_port (dv_store s d))"

definition set_device :: "nat \<Rightarrow> (device \<Rightarrow> device) \<Rightarrow> ('h, unit) runner_op" where
  "set_device d f = modify_op (\<lambda>s. s\<lparr>dv_store := (dv_store s)(d := f (dv_store s d))\<rparr>)"

definition set_port :: "nat \<Rightarrow> (port_info \<Rightarrow> port_info) \<Rightarrow> ('h, unit) runner_op" where
  "set_port p f = modify_op (\<lambda>s. s\<lparr>pt_store := (pt_store s)(p := f (pt_store s p))\<rparr>)"

definition new_port :: "('h, nat) runner_op" where
  "new_port s = (Inr (pt_next s), s\<lparr>pt_store := (pt_store s)(pt_next s := new_port_info), pt_next := Suc (pt_next s)\<rparr>)"

subsection \<open>Devices\<close>

definition allocate_set_id :: "int list \<Rightarrow> int" where
  \<comment> \<open>the loop is the one of \<open>allocate_test_port\<close>\<close>
  "allocate_set_id ids = next_free ids 1"

definition new_device :: "string \<Rightarrow> nat option \<Rightarrow> int option \<Rightarrow> ('h, nat) runner_op" where
  "new_device mac port vlan s =
     (if dict_get (by_mac s) mac \<noteq> None then (Inl AssertionError, s)
      else let d = dv_next s;
               p = (case port of None \<Rightarrow> pt_next s | Some p \<Rightarrow> p);
               s1 = (case port of
                       None \<Rightarrow> s\<lparr>pt_store := (pt_store s)(pt_next s := new_port_info), pt_next := Suc (pt_next s)\<rparr>
                     | Some _ \<Rightarrow> s);
               s2 = s1\<lparr>dv_store := (dv_store s1)(d := new_device_object mac p vlan), dv_next := Suc d,
                       by_mac := dict_set mac d (by_mac s1)\<rparr>;
               set_id = (case pi_port_no (pt_store s2 p) of
                           None \<Rightarrow> allocate_set_id (set_ids s2)
                         | Some n \<Rightarrow> if n = 0 then allocate_set_id (set_ids s2) else n)
           in if set_id \<in> set (set_ids s2) then (Inl AssertionError, s2)
              else (Inr d, s2\<lparr>set_ids := set_ids s2 @ [set_id],
                             dv_store := (dv_store s2)(d := (dv_store s2 d)\<lparr>dv_set_id := Some set_id\<rparr>)\<rparr>))"

definition create_if_absent :: "string \<Rightarrow> nat option \<Rightarrow> int option \<Rightarrow> ('h, nat) runner_op" where
  "create_if_absent mac port vlan s =
     (case dict_get (by_mac s) mac of Some d \<Rightarrow> (Inr d, s) | None \<Rightarrow> new_device mac port vlan s)"

definition contains_device :: "nat \<Rightarrow> 'h runner \<Rightarrow> bool" where
  "contains_device d s = (dict_get (by_mac s) (dv_mac (dv_store s d)) = Some d)"

definition remove_device :: "nat \<Rightarrow> ('h, unit) runner_op" where
  "remove_device d s =
     (if \<not> contains_device d s then (Inl AssertionError, s)
      else let s1 = s\<lparr>by_mac := dict_del (dv_mac (dv_store s d)) (by_mac s)\<rparr>
           in (case dv_set_id (dv_store s d) of
                 None \<Rightarrow> (Inl KeyError, s1)
               | Some n \<Rightarrow>
                   if n \<in> set (set_ids s1) then (Inr (), s1\<lparr>set_ids := remove1 n (set_ids s1)\<rparr>)
                   else (Inl KeyError, s1)))"

definition get_by_port_info :: "nat \<Rightarrow> 'h runner \<Rightarrow> nat option" where
  "get_by_port_info p s = List.find (\<lambda>d. dv_port (dv_store s d) = p) (dict_values (by_mac s))"

definition get_by_gateway :: "nat \<Rightarrow> 'h runner \<Rightarrow> nat list" where
  "get_by_gateway g s = filter (\<lambda>d. dv_gateway (dv_store s d) = Some g) (dict_values (by_mac s))"

definition get_by_group :: "string option \<Rightarrow> 'h runner \<Rightarrow> nat list" where
  "get_by_group name s = filter (\<lambda>d. dv_group (dv_store s d) = name) (dict_values (by_mac s))"

definition get_all_devices :: "'h runner \<Rightarrow> nat list" where
  "get_all_devices s = dict_values (by_mac s)"

definition get_triggered_devices :: "'h runner \<Rightarrow> nat list" where
  "get_triggered_devices s = filter (\<lambda>d. dv_host (dv_store s d) \<noteq> None) (dict_values (by_mac s))"

subsection \<open>The registry's invariant\<close>

text \<open>
  Every registered device is found under its own MAC address, and the set ids in use are exactly
  those of the registered devices, each of one device only.
\<close>

definition registry_ok :: "'h runner \<Rightarrow> bool" where
  "registry_ok s \<longleftrightarrow> dict_ok (by_mac s) \<and> distinct (set_ids s) \<and>
     list_all (\<lambda>(mac, d). d < dv_next s \<and> dv_mac (dv_store s d) = mac) (by_mac s) \<and>
     mset (map (\<lambda>e. dv_set_id (dv_store s (snd e))) (by_mac s)) = mset (map Some (set_ids s))"

lemma allocate_set_id_free: "1 \<le> allocate_set_id ids \<and> allocate_set_id ids \<notin> set ids"
  using next_free_bounds [of 1 ids] by (simp add: allocate_set_id_def)

lemma dict_del_mset:
  "dict_ok d \<Longrightarrow> dict_get d k = Some v \<Longrightarrow> mset d = add_mset (k, v) (mset (dict_del k d))"
proof (induction d)
  case (Cons p d)
  show ?case
  proof (cases "fst p = k")
    case True
    with Cons.prems have "k \<notin> fst ` set d" "snd p = v" by auto
    then have "dict_del k d = d" by (simp add: delete_idem)
    with True \<open>snd p = v\<close> show ?thesis by (cases p) simp
  next
    case False
    with Cons show ?thesis by (cases p) auto
  qed
qed simp

lemma registry_ok_new:
  assumes "registry_ok s" "new_device mac port vlan s = (Inr d, s')"
  shows "registry_ok s' \<and> dict_get (by_mac s') mac = Some d \<and> set (set_ids s') = insert (the (dv_set_id (dv_store s' d))) (set (set_ids s))"
proof -
  have none: "dict_get (by_mac s) mac = None" using assms(2) by (auto simp: new_device_def split: if_splits)
  let ?other = "\<lambda>st. map (\<lambda>e. dv_set_id (st (snd e))) (by_mac s)"
  have old: "\<forall>e\<in>set (dict_values (by_mac s)). e \<noteq> dv_next s"
    using assms(1) by (auto simp: registry_ok_def list_all_iff)
  have same: "?other ((dv_store s)(dv_next s := x)) = ?other (dv_store s)" for x
    using old by auto
  have same_mac: "list_all (\<lambda>(mac, e). e < Suc (dv_next s) \<and> dv_mac (((dv_store s)(dv_next s := x)) e) = mac) (by_mac s)" for x
    using assms(1) old by (auto simp: registry_ok_def list_all_iff)
  from assms(2) none obtain n st where s': "d = dv_next s" "dv_next s' = Suc (dv_next s)" "n \<notin> set (set_ids s)"
    "by_mac s' = by_mac s @ [(mac, d)]" "set_ids s' = set_ids s @ [n]"
    "dv_store s' = (dv_store s)(d := st)" "dv_mac st = mac" "dv_set_id st = Some n"
    by (auto simp: new_device_def Let_def dict_set_new new_device_object_def split: if_splits option.splits)
  then have new: "dict_get (by_mac s') mac = Some d" using none by (simp add: map_add_def)
  have "mset (?other (dv_store s')) = mset (map Some (set_ids s))"
    unfolding s'(6) s'(1) same using assms(1) unfolding registry_ok_def by blast
  then have "registry_ok s'"
    using assms(1) none s'(2-8) same_mac [of st] s'(1) by (auto simp: registry_ok_def map_of_eq_None_iff)
  with s' new show ?thesis by simp
qed

lemma registry_ok_remove:
  assumes "registry_ok s" "contains_device d s"
  shows "\<exists>n s'. remove_device d s = (Inr (), s') \<and> registry_ok s' \<and> dv_set_id (dv_store s d) = Some n \<and>
    set (set_ids s') = set (set_ids s) - {n} \<and> dict_get (by_mac s') (dv_mac (dv_store s d)) = None"
proof -
  let ?mac = "dv_mac (dv_store s d)" and ?ids = "\<lambda>m. image_mset (\<lambda>e. dv_set_id (dv_store s (snd e))) (mset m)"
  have d: "dict_get (by_mac s) ?mac = Some d" using assms(2) by (simp add: contains_device_def)
  have ok: "dict_ok (by_mac s)" "distinct (set_ids s)" "?ids (by_mac s) = image_mset Some (mset (set_ids s))"
    using assms(1) by (simp_all add: registry_ok_def)
  have "mset (by_mac s) = add_mset (?mac, d) (mset (dict_del ?mac (by_mac s)))"
    by (rule dict_del_mset [OF ok(1) d])
  then have ids: "?ids (by_mac s) = add_mset (dv_set_id (dv_store s d)) (?ids (dict_del ?mac (by_mac s)))"
    by simp
  have "dv_set_id (dv_store s d) \<in># image_mset Some (mset (set_ids s))" unfolding ok(3) [symmetric] ids by simp
  then obtain n where n: "dv_set_id (dv_store s d) = Some n" "n \<in> set (set_ids s)" by auto
  have del: "image_mset Some (mset (set_ids s)) = add_mset (Some n) (image_mset Some (mset (remove1 n (set_ids s))))"
    using n(2) by (simp flip: image_mset_add_mset)
  have rest: "?ids (dict_del ?mac (by_mac s)) = image_mset Some (mset (remove1 n (set_ids s)))"
    using ids ok(3) del n(1) by simp
  have "list_all (\<lambda>(mac, e). e < dv_next s \<and> dv_mac (dv_store s e) = mac) (dict_del ?mac (by_mac s))"
    using assms(1) by (auto simp: registry_ok_def list_all_iff AList.delete_eq)
  then show ?thesis
    using rest assms(2) n ok by (auto simp: remove_device_def Let_def registry_ok_def dict_get_del)
qed

subsection \<open>Properties\<close>

lemma new_device_Inl:
  assumes "dict_get (by_mac s) mac = None" "new_device mac port vlan s = (Inl e, s')"
  shows "e = AssertionError \<and> dict_get (by_mac s') mac = Some (dv_next s) \<and> dv_set_id (dv_store s' (dv_next s)) = None \<and>
    (\<exists>p n. port = Some p \<and> pi_port_no (pt_store s p) = Some n \<and> n \<noteq> 0 \<and> n \<in> set (set_ids s))"
  using assms allocate_set_id_free [of "set_ids s"]
  by (auto simp: new_device_def Let_def new_device_object_def new_port_info_def dict_get_set split: if_splits option.splits)

lemma new_device_set_id:
  assumes "new_device mac port vlan s = (Inr d, s')"
  shows "\<exists>n. dv_set_id (dv_store s' d) = Some n \<and> n \<notin> set (set_ids s) \<and> set (set_ids s') = insert n (set (set_ids s)) \<and>
    (\<forall>p q. port = Some p \<longrightarrow> pi_port_no (pt_store s p) = Some q \<longrightarrow> q \<noteq> 0 \<longrightarrow> n = q)"
  using assms
  by (auto simp: new_device_def Let_def new_device_object_def split: if_splits option.splits)

text \<open>C28: the registry of devices. Looking a device up by its MAC address, creating it when it is
  absent, leaves a consistent registry in which the device has a set id; the id of a new device was
  not taken before and is the number of its port, if that is known and not 0. Removing the device then
  succeeds and gives the id back. The call fails only for a device that was absent, on the number of
  its port, when that is not 0 and already taken as a set id, and then it leaves the device registered
  without a set id.\<close>

theorem registry_consistent:
  assumes "registry_ok s"
  shows "case create_if_absent mac port vlan s of
     (Inr d, s') \<Rightarrow> registry_ok s' \<and> dict_get (by_mac s') mac = Some d \<and>
       (\<exists>n. dv_set_id (dv_store s' d) = Some n \<and> n \<in> set (set_ids s') \<and>
         (dict_get (by_mac s) mac = None \<longrightarrow> n \<notin> set (set_ids s) \<and>
            (\<forall>p q. port = Some p \<longrightarrow> pi_port_no (pt_store s p) = Some q \<longrightarrow> q \<noteq> 0 \<longrightarrow> n = q)) \<and>
         (case remove_device d s' of
            (Inr _, s'') \<Rightarrow> registry_ok s'' \<and> dict_get (by_mac s'') mac = None \<and> set (set_ids s'') = set (set_ids s') - {n}
          | (Inl e, s'') \<Rightarrow> False))
   | (Inl e, s') \<Rightarrow> e = AssertionError \<and> dict_get (by_mac s) mac = None \<and>
       (\<exists>p n. port = Some p \<and> pi_port_no (pt_store s p) = Some n \<and> n \<noteq> 0 \<and> n \<in> set (set_ids s)) \<and>
       dict_get (by_mac s') mac = Some (dv_next s) \<and> dv_set_id (dv_store s' (dv_next s)) = None"
proof -
  obtain r s' where r: "create_if_absent mac port vlan s = (r, s')" by (cases "create_if_absent mac port vlan s")
  show ?thesis
  proof (cases r)
    case (Inl e)
    then have "dict_get (by_mac s) mac = None" "new_device mac port vlan s = (Inl e, s')"
      using r by (auto simp: create_if_absent_def split: option.splits)
    from this(1) new_device_Inl [OF this] Inl r show ?thesis by simp
  next
    case (Inr d)
    then have ok: "registry_ok s' \<and> dict_get (by_mac s') mac = Some d"
      using r assms registry_ok_new [OF assms, of mac port vlan d s'] by (auto simp: create_if_absent_def split: option.splits)
    then have "dv_mac (dv_store s' d) = mac" by (auto simp: registry_ok_def list_all_iff dest: map_of_SomeD)
    with ok registry_ok_remove [of s' d] obtain n s'' where rem: "remove_device d s' = (Inr (), s'')" "registry_ok s''"
      "dict_get (by_mac s'') mac = None" "dv_set_id (dv_store s' d) = Some n" "set (set_ids s'') = set (set_ids s') - {n}"
      by (auto simp: contains_device_def)
    have "n \<in> set (set_ids s')"
      using rem(1,4) by (auto simp: remove_device_def Let_def split: if_splits)
    moreover have "n \<notin> set (set_ids s) \<and> (\<forall>p q. port = Some p \<longrightarrow> pi_port_no (pt_store s p) = Some q \<longrightarrow> q \<noteq> 0 \<longrightarrow> n = q)"
      if "dict_get (by_mac s) mac = None"
    proof -
      have "new_device mac port vlan s = (Inr d, s')" using r Inr that by (simp add: create_if_absent_def)
      from new_device_set_id [OF this] rem(4) show ?thesis by auto
    qed
    ultimately show ?thesis using ok Inr r rem by simp
  qed
qed

lemma registry_consistent_witness:
  "case create_if_absent ''9a:02:57:1e:8f:01'' None (Some 10) (runner_init example_topology ()) of
     (Inr d, s') \<Rightarrow> registry_ok s' \<and> dict_get (by_mac s') ''9a:02:57:1e:8f:01'' = Some d \<and> set_ids s' = [1]
   | (Inl e, s') \<Rightarrow> False"
  using registry_consistent [of "runner_init example_topology ()" "''9a:02:57:1e:8f:01''" None "Some 10"]
  by (auto simp: create_if_absent_def new_device_def Let_def new_port_info_def new_device_object_def runner_init_def
      allocate_set_id_def next_free.simps registry_ok_def)

end
