(* ===== verification/Report.thy ===== *)
theory Report
  imports Py_Regex Py_Text Devices "HOL-Library.List_Lexorder" "HOL-Library.Char_ord"
begin

text \<open>
  \<open>daq/report.py\<close>: what the modules of a device recorded, the results found in their report files,
  and the tables of the report. The contents of files, the rendered header template, \<open>str()\<close> of a
  configuration value and the conversion to PDF are in the record \<open>report_env\<close>. An entry of the
  results is one object, shared between \<open>_results\<close> and the results of its module: the modules refer to
  it by the name of the test.
\<close>

subsection \<open>Tables\<close>

record md_table =
  md_headers :: "string list"
  md_separator :: string
  md_rows :: "string list list"

definition MARK :: string where "MARK = ''|''"
definition DIV :: string where "DIV = ''---''"
definition NL :: string where "NL = [newline]"

definition md_new :: "string list \<Rightarrow> md_table" where
  "md_new headers =
     \<lparr>md_headers = [[]] @ headers @ [[]], md_separator = join_with MARK ([[]] @ map (\<lambda>_. DIV) headers @ [[]]), md_rows = []\<rparr>"

definition add_row :: "string list \<Rightarrow> md_table \<Rightarrow> md_table" where
  "add_row row t = t\<lparr>md_rows := md_rows t @ [[[]] @ map strip row @ [[]]]\<rparr>"

definition md_render :: "md_table \<Rightarrow> string" where
  "md_render t =
     join_with MARK (md_headers t) @ NL @ md_separator t @ NL @ join_with NL (map (join_with MARK) (md_rows t)) @ NL"

definition md_of :: "string list \<Rightarrow> string list list \<Rightarrow> string" where
  \<comment> \<open>a new table, one \<open>add_row\<close> after the other, rendered\<close>
  "md_of headers rows = md_render (foldl (\<lambda>t row. add_row row t) (md_new headers) rows)"

definition str_upper :: "string \<Rightarrow> string" where
  \<comment> \<open>\<open>str.upper\<close> on the letters of ASCII\<close>
  "str_upper = map (\<lambda>c. let n = of_char c :: nat in if 97 \<le> n \<and> n \<le> 122 then char_of (n - 32) else c)"

subsection \<open>State\<close>

datatype result_type = REPORT_PATH | MODULE_CONFIG | MODULE_CONFIG_PATH | RETURN_CODE | EXCEPTION | ACTIVATION_LOG_PATH

type_synonym result_items = "(result_type, val) dict"

text \<open>What the configuration says about a test, and what it says about the report.\<close>

record test_info =
  ti_category :: "string option"
  ti_expected :: "string option"
  ti_required :: "string option"

record report_setup =
  rs_tests :: "(string, test_info) dict"
  rs_results :: "string list"
  rs_expected :: "string list"
  rs_categories :: "string list"

record test_entry =
  te_result :: string
  te_test_name :: string
  te_module_name :: "string option"
  te_category :: string
  te_expected :: string
  te_description :: string

record report =
  rp_setup :: report_setup
  rp_clean_mac :: string
  rp_repitems :: "(string, result_items) dict"
  rp_finalized :: bool
  rp_modules :: "(string, result_items \<times> string list) dict"
  rp_missing :: "string list"
  rp_result_headers :: "string list"
  rp_results :: "(string, test_entry) dict"
  rp_expected_headers :: "string list"
  rp_expecteds :: "(string, (string, nat) dict) dict"
  rp_categories :: "string list"
  rp_md :: string

type_synonym 'a report_op = "(report, 'a) op"

record report_env =
  re_lines :: "string \<Rightarrow> string list result"
  re_text :: "string \<Rightarrow> string result"
  re_header :: "string option"
  re_str :: "val \<Rightarrow> string"
  re_pdf :: "unit result"
  re_save :: "unit result"

definition DEFAULT_CATEGORY :: string where "DEFAULT_CATEGORY = ''Other''"
definition DEFAULT_EXPECTED :: string where "DEFAULT_EXPECTED = ''Other''"
definition MISSING_TEST_RESULT :: string where "MISSING_TEST_RESULT = ''gone''"
definition NO_REQUIRED :: string where "NO_REQUIRED = ''n/a''"

lemmas report_consts = DEFAULT_CATEGORY_def DEFAULT_EXPECTED_def MISSING_TEST_RESULT_def NO_REQUIRED_def

definition report_init :: "report_setup \<Rightarrow> string \<Rightarrow> report" where
  "report_init setup mac =
     \<lparr>rp_setup = setup, rp_clean_mac = replace_char CHR '':'' [] mac, rp_repitems = [], rp_finalized = False, rp_modules = [],
      rp_missing = [], rp_result_headers = rs_results setup, rp_results = [], rp_expected_headers = rs_expected setup,
      rp_expecteds = [], rp_categories = rs_categories setup, rp_md = []\<rparr>"

definition get_test_info :: "report \<Rightarrow> string \<Rightarrow> test_info" where
  "get_test_info r name =
     (case dict_get (rs_tests (rp_setup r)) name of
        None \<Rightarrow> \<lparr>ti_category = None, ti_expected = None, ti_required = None\<rparr>
      | Some i \<Rightarrow> i)"

definition category_of :: "report \<Rightarrow> string \<Rightarrow> string" where
  "category_of r name = (case ti_category (get_test_info r name) of None \<Rightarrow> DEFAULT_CATEGORY | Some c \<Rightarrow> c)"

definition expected_of :: "report \<Rightarrow> string \<Rightarrow> string" where
  "expected_of r name = (case ti_expected (get_test_info r name) of None \<Rightarrow> DEFAULT_EXPECTED | Some e \<Rightarrow> e)"

definition required_of :: "report \<Rightarrow> string \<Rightarrow> string option" where
  "required_of r name = ti_required (get_test_info r name)"

definition add_new :: "'a \<Rightarrow> 'a list \<Rightarrow> 'a list" where
  "add_new x xs = (if x \<in> set xs then xs else xs @ [x])"

subsection \<open>Recording\<close>

definition report_accumulate :: "string \<Rightarrow> result_items \<Rightarrow> report \<Rightarrow> report" where
  \<comment> \<open>\<open>accumulate\<close>\<close>
  "report_accumulate name items r =
     r\<lparr>rp_repitems :=
         dict_set name (foldl (\<lambda>d (k, v). dict_set k v d) (case dict_get (rp_repitems r) name of None \<Rightarrow> [] | Some d \<Rightarrow> d) items)
           (rp_repitems r)\<rparr>"

definition count_result :: "string \<Rightarrow> string \<Rightarrow> (string, (string, nat) dict) dict \<Rightarrow> (string, (string, nat) dict) dict" where
  "count_result expected_name result expecteds =
     (let expected = (case dict_get expecteds expected_name of None \<Rightarrow> [] | Some d \<Rightarrow> d);
          n = (case dict_get expected result of None \<Rightarrow> 0 | Some n \<Rightarrow> n)
      in dict_set expected_name (dict_set result (n + 1) expected) expecteds)"

definition accumulate_result :: "string \<Rightarrow> string \<Rightarrow> string \<Rightarrow> string option \<Rightarrow> unit report_op" where
  \<comment> \<open>the message of the assertion is \<open>'result already exists: ' % test_name\<close>, which raises itself\<close>
  "accumulate_result test_name result extra module_name =
     read_op (\<lambda>r.
       if test_name \<in> set (dict_keys (rp_results r)) then raise_op TypeError
       else modify_op (\<lambda>r. r\<lparr>
          rp_result_headers := add_new result (rp_result_headers r),
          rp_categories := add_new (category_of r test_name) (rp_categories r),
          rp_expected_headers := add_new (expected_of r test_name) (rp_expected_headers r),
          rp_expecteds := count_result (expected_of r test_name) result (rp_expecteds r),
          rp_results := dict_set test_name
            \<lparr>te_result = result, te_test_name = test_name, te_module_name = module_name, te_category = category_of r test_name,
             te_expected = expected_of r test_name, te_description = extra\<rparr> (rp_results r)\<rparr>))"

definition result_regex :: rx where
  "result_regex =
     Cat Bol (Cat (lit ''RESULT '')
      (Cat (Group 1 (Many False 0 any_char)) (Cat (Many True 1 is_space)
      (Cat (Group 2 (Many False 0 any_char)) (Cat (Many True 1 is_space)
      (Cat (Group 3 (Many True 0 (\<lambda>c. c \<noteq> CHR ''%''))) (Cat (Many True 0 is_space)
      (Cat (Opt (Group 4 (Cat (lit ''%%'') (Many True 0 any_char)))) Eol))))))))"

definition result_line :: "string \<Rightarrow> (string \<times> string \<times> string) option" where
  \<comment> \<open>\<open>match.group(1), match.group(2), match.group(3)\<close>\<close>
  "result_line line = map_option (\<lambda>g. (the (dict_get g 1), the (dict_get g 2), the (dict_get g 3))) (rx_search result_regex line)"

definition process_result_line :: "string \<Rightarrow> string \<Rightarrow> unit report_op" where
  "process_result_line module_name line =
     (case result_line line of
        None \<Rightarrow> ret_op ()
      | Some (result, test_name, extra) \<Rightarrow>
          then_op (accumulate_result test_name result extra (Some module_name))
            (modify_op (\<lambda>r. r\<lparr>rp_modules :=
               (case dict_get (rp_modules r) module_name of
                  None \<Rightarrow> rp_modules r
                | Some (items, tests) \<Rightarrow> dict_set module_name (items, add_new test_name tests) (rp_modules r))\<rparr>)))"

definition RESULT_TYPES :: "result_type list" where
  "RESULT_TYPES = [REPORT_PATH, MODULE_CONFIG, MODULE_CONFIG_PATH, RETURN_CODE, EXCEPTION, ACTIVATION_LOG_PATH]"

definition module_items :: "result_items \<Rightarrow> result_items" where
  "module_items items =
     concat (map (\<lambda>t. case dict_get items t of None \<Rightarrow> [] | Some v \<Rightarrow> [(t, v)]) RESULT_TYPES)"

definition process_module :: "report_env \<Rightarrow> string \<times> result_items \<Rightarrow> unit report_op" where
  "process_module env m =
     (case m of (module_name, items) \<Rightarrow>
        then_op (modify_op (\<lambda>r. r\<lparr>rp_modules := dict_set module_name (module_items items, []) (rp_modules r)\<rparr>))
          (case dict_get items REPORT_PATH of
             None \<Rightarrow> ret_op ()
           | Some (Str path) \<Rightarrow> bind_op (lift_op (re_lines env path)) (\<lambda>ls. for_op ls (process_result_line module_name))
           | Some _ \<Rightarrow> raise_op TypeError))"

definition find_missing_test :: "string \<Rightarrow> unit report_op" where
  "find_missing_test test_name =
     read_op (\<lambda>r. if required_of r test_name \<notin> {None, Some []} \<and> test_name \<notin> set (dict_keys (rp_results r))
        then then_op (accumulate_result test_name MISSING_TEST_RESULT [] None)
               (modify_op (\<lambda>r. r\<lparr>rp_missing := rp_missing r @ [test_name]\<rparr>))
        else ret_op ())"

definition find_missing_test_results :: "unit report_op" where
  "find_missing_test_results = read_op (\<lambda>r. for_op (dict_keys (rs_tests (rp_setup r))) find_missing_test)"

definition process_results :: "report_env \<Rightarrow> unit report_op" where
  "process_results env =
     then_op (modify_op (\<lambda>r. r\<lparr>rp_modules := []\<rparr>))
    (then_op (read_op (\<lambda>r. for_op (rp_repitems r) (process_module env)))
      find_missing_test_results)"

subsection \<open>The text of the report\<close>

definition report_write :: "string \<Rightarrow> unit report_op" where
  "report_write msg = modify_op (\<lambda>r. r\<lparr>rp_md := rp_md r @ msg\<rparr>)"

definition report_writeln :: "string \<Rightarrow> unit report_op" where
  "report_writeln msg = report_write (msg @ NL)"

definition append_report_header :: "report_env \<Rightarrow> unit report_op" where
  "append_report_header env =
     (case re_header env of
        None \<Rightarrow> read_op (\<lambda>r. report_writeln (''# DAQ scan report for device '' @ rp_clean_mac r))
      | Some text \<Rightarrow> report_writeln text)"

definition device_passes :: "report \<Rightarrow> bool" where
  \<comment> \<open>\<open>passes\<close> after the loop\<close>
  "device_passes r =
     list_all (\<lambda>(name, e). case required_of r name of None \<Rightarrow> True | Some required \<Rightarrow> te_result e = required) (rp_results r)"

definition device_gone :: "report \<Rightarrow> bool" where
  "device_gone r = list_ex (\<lambda>(name, e). required_of r name \<noteq> None \<and> te_result e = ''gone'') (rp_results r)"

definition analyse_and_write_results :: "unit report_op" where
  "analyse_and_write_results =
     read_op (\<lambda>r.
       then_op (report_writeln (''Overall device result '' @ (if device_passes r then ''PASS'' else ''FAIL'')))
      (then_op (report_writeln [])
        (if device_gone r
         then then_op (report_writeln ''**Some tests report as GONE. Please check for possible misconfiguration**'') (report_writeln [])
         else ret_op ())))"

text \<open>
  One row of the category table. The entries of the results are changed on the way: where the result
  of the category is known and differs from \<open>info\<close>, an entry \<open>info\<close> becomes \<open>pass\<close>.
\<close>

record category_row =
  cr_total :: nat
  cr_results :: "nat list list"
  cr_result :: string
  cr_entries :: "(string, test_entry) dict"

definition result_index :: "string \<Rightarrow> nat" where
  \<comment> \<open>\<open>_INDEX_PASS\<close>, \<open>_INDEX_FAIL\<close>, \<open>_INDEX_SKIP\<close>\<close>
  "result_index result = (if result = ''pass'' \<or> result = ''info'' then 0 else if result = ''skip'' then 2 else 1)"

fun index_of :: "'a \<Rightarrow> 'a list \<Rightarrow> nat result" where
  \<comment> \<open>\<open>list.index\<close>\<close>
  "index_of x [] = Inl ValueError"
| "index_of x (y # ys) = (if x = y then Inr 0 else bind_result (index_of x ys) (\<lambda>i. Inr (Suc i)))"

definition count_in_category :: "report \<Rightarrow> string \<Rightarrow> string \<Rightarrow> (category_row, unit) op" where
  "count_in_category r category test_name =
     (if category_of r test_name = category \<and> required_of r test_name \<noteq> None then
        then_op (modify_op (\<lambda>c. c\<lparr>cr_total := cr_total c + 1\<rparr>))
       (bind_op (lift_op (index_of (expected_of r test_name) (rp_expected_headers r)))
         (\<lambda>i. modify_op (\<lambda>c.
            case dict_get (cr_entries c) test_name of
              None \<Rightarrow> c
            | Some e \<Rightarrow>
                let k = result_index (te_result e);
                    c' = c\<lparr>cr_results := (cr_results c)[i := (cr_results c ! i)[k := cr_results c ! i ! k + 1]]\<rparr>
                in if cr_result c \<noteq> te_result e \<and> cr_result c \<noteq> NO_REQUIRED
                   then if te_result e = ''info''
                        then c'\<lparr>cr_entries := dict_set test_name (e\<lparr>te_result := ''pass''\<rparr>) (cr_entries c)\<rparr>
                        else c'\<lparr>cr_result := ''fail''\<rparr>
                   else c'\<lparr>cr_result := te_result e\<rparr>)))
      else ret_op ())"

definition join_category_results :: "nat list \<Rightarrow> string" where
  "join_category_results results = join_with ''/'' (map show_nat results)"

definition category_row_of :: "string \<Rightarrow> category_row report_op" where
  "category_row_of category =
     (\<lambda>r. case for_op (dict_keys (rp_results r)) (count_in_category r category)
            \<lparr>cr_total = 0, cr_results = map (\<lambda>_. [0, 0, 0]) (rp_expected_headers r), cr_result = NO_REQUIRED, cr_entries = rp_results r\<rparr> of
            (Inl e, c) \<Rightarrow> (Inl e, r\<lparr>rp_results := cr_entries c\<rparr>)
          | (Inr _, c) \<Rightarrow> (Inr c, r\<lparr>rp_results := cr_entries c\<rparr>))"

fun category_rows :: "string list \<Rightarrow> string list list report_op" where
  "category_rows [] = ret_op []"
| "category_rows (category # cs) =
     bind_op (category_row_of category)
       (\<lambda>c. bind_op (category_rows cs)
          (\<lambda>rows. ret_op (([category, show_nat (cr_total c), str_upper (cr_result c)] @ map join_category_results (cr_results c)) # rows)))"

definition write_category_table :: "unit report_op" where
  "write_category_table =
     read_op (\<lambda>r. let headers = [''Category'', ''Total Tests'', ''Result''] @ rp_expected_headers r in
       bind_op (category_rows (rp_categories r))
         (\<lambda>rows. then_op (report_write (md_of headers rows)) (report_writeln ''Syntax: Pass / Fail / Skip'')))"

definition expected_count :: "report \<Rightarrow> string \<Rightarrow> string \<Rightarrow> nat" where
  "expected_count r exp_name result =
     (case dict_get (case dict_get (rp_expecteds r) exp_name of None \<Rightarrow> [] | Some d \<Rightarrow> d) result of None \<Rightarrow> 0 | Some n \<Rightarrow> n)"

definition write_expected_table :: "unit report_op" where
  "write_expected_table =
     read_op (\<lambda>r. report_write (md_of (''Expectation'' # rp_result_headers r)
       (map (\<lambda>exp_name. exp_name # map (\<lambda>result. show_nat (expected_count r exp_name result)) (rp_result_headers r))
          (rp_expected_headers r))))"

definition write_result_table :: "unit report_op" where
  "write_result_table =
     read_op (\<lambda>r. report_write (md_of [''Result'', ''Test'', ''Category'', ''Expectation'', ''Notes'']
       (map (\<lambda>(_, e). [te_result e, te_test_name e, te_category e, te_expected e, te_description e])
          (sort_key fst (rp_results r)))))"

definition write_test_tables :: "unit report_op" where
  "write_test_tables =
     then_op write_category_table (then_op (report_writeln [])
    (then_op write_expected_table (then_op (report_writeln [])
    (then_op write_result_table (report_writeln [])))))"

definition TEST_SEPARATOR :: "string \<Rightarrow> string" where
  "TEST_SEPARATOR name = NL @ ''## '' @ name @ NL"

definition TEST_SUBHEADER :: "string \<Rightarrow> string" where
  "TEST_SUBHEADER name = NL @ ''#### '' @ name @ NL"

definition write_test_summary :: "unit report_op" where
  "write_test_summary =
     then_op (report_writeln (TEST_SEPARATOR ''Report summary'')) (then_op analyse_and_write_results write_test_tables)"

definition append_file :: "report_env \<Rightarrow> val \<Rightarrow> unit report_op" where
  "append_file env path =
     then_op (report_writeln ''```'')
       (case path of
          Str p \<Rightarrow> bind_op (lift_op (re_text env p)) (\<lambda>text. then_op (report_write text) (report_writeln ''```''))
        | _ \<Rightarrow> raise_op TypeError)"

definition module_config_of :: "val \<Rightarrow> string \<Rightarrow> vdict result" where
  \<comment> \<open>\<open>get_test_config\<close>, with the empty dictionary for what the caller skips\<close>
  "module_config_of config test =
     (case config of
        Dict c \<Rightarrow>
          bind_result (dict_index c ''modules'')
            (\<lambda>ms. case ms of
               Dict m \<Rightarrow> (case dict_get m test of None \<Rightarrow> Inr [] | Some (Dict d) \<Rightarrow> Inr d | Some v \<Rightarrow> if truth v then Inl TypeError else Inr [])
             | _ \<Rightarrow> Inl AttributeError)
      | _ \<Rightarrow> Inl TypeError)"

definition write_once :: "string \<Rightarrow> string \<Rightarrow> bool \<Rightarrow> unit report_op" where
  \<comment> \<open>the inner function \<open>writeln\<close>; the last argument is \<open>writeln.results\<close>\<close>
  "write_once test_name line written =
     then_op (if written then ret_op () else report_writeln (TEST_SEPARATOR (''Module '' @ test_name))) (report_writeln line)"

definition write_repitem :: "report_env \<Rightarrow> string \<times> result_items \<Rightarrow> unit report_op" where
  "write_repitem env m =
     (case m of (test_name, items) \<Rightarrow>
        bind_op
          (case dict_get items REPORT_PATH of
             None \<Rightarrow> ret_op False
           | Some path \<Rightarrow> then_op (write_once test_name (TEST_SUBHEADER ''Report'') False) (then_op (append_file env path) (ret_op True)))
          (\<lambda>w1. bind_op
             (case dict_get items MODULE_CONFIG of
                None \<Rightarrow> ret_op w1
              | Some configs \<Rightarrow>
                  bind_op (lift_op (module_config_of configs test_name))
                    (\<lambda>config. if config = [] then ret_op w1
                       else then_op (write_once test_name (TEST_SUBHEADER ''Module Config'') w1)
                              (then_op (report_write (md_of [''Attribute'', ''Value''] (map (\<lambda>(k, v). [k, re_str env v]) config)))
                                (ret_op True))))
             (\<lambda>w2. case dict_get items EXCEPTION of
                Some (Str (c # cs)) \<Rightarrow>
                  then_op (write_once test_name (TEST_SUBHEADER ''Exceptions'') w2) (write_once test_name (c # cs) True)
              | _ \<Rightarrow> ret_op ())))"

definition write_repitems :: "report_env \<Rightarrow> unit report_op" where
  "write_repitems env = read_op (\<lambda>r. for_op (rp_repitems r) (write_repitem env))"

definition write_md_report :: "report_env \<Rightarrow> unit report_op" where
  "write_md_report env =
     then_op (append_report_header env)
    (then_op write_test_summary
    (then_op (write_repitems env)
      (report_writeln (TEST_SEPARATOR ''Report complete''))))"

text \<open>The results as the runner reads them; \<open>_all_results['modules']\<close>.\<close>

definition all_modules :: "report \<Rightarrow> test_report" where
  "all_modules r =
     map (\<lambda>(name, items, tests). (name,
        \<lparr>mr_exception = (case dict_get items EXCEPTION of Some (Str s) \<Rightarrow> Some s | _ \<Rightarrow> None),
         mr_return_code = (case dict_get items RETURN_CODE of Some (Num n) \<Rightarrow> Some n | _ \<Rightarrow> None),
         mr_tests = map (\<lambda>t. (t, map_option te_result (dict_get (rp_results r) t))) tests\<rparr>)) (rp_modules r)"

definition report_finalize :: "report_env \<Rightarrow> test_report report_op" where
  "report_finalize env =
     then_op (read_op (\<lambda>r. assert_op (\<not> rp_finalized r)))
    (then_op (modify_op (\<lambda>r. r\<lparr>rp_finalized := True\<rparr>))
    (then_op (process_results env)
    (then_op (write_md_report env)
    (then_op (lift_op (re_pdf env))
    (then_op (lift_op (re_save env))
      (get_op all_modules))))))"

end
