(* ===== verification/Runner.thy ===== *)
theory Runner
  imports Devices "HOL-Library.List_Lexorder" "HOL-Library.Char_ord"
begin

text \<open>
  \<open>daq/runner.py\<close>: from the events of the switches to running hosts and back. A handler is an operation on the
  runner's state that may raise; what it did before it raised stays done. The record \<open>env\<close> has the
  configuration and the answers of what is outside the program (the clock, containers, the session
  server, \<open>set.pop\<close>); \<open>host_ops\<close> is the interface of \<open>ConnectedHost\<close> the runner uses. The calls
  a host makes back into the runner come last in its own work, so its operations return them as
  requests, which the runner serves when the operation is over; an exception the runner raises while
  it serves one leaves the host's call, also where the host would have caught it
  (\<open>_run_next_test\<close> below \<open>_base_start\<close>).

  \<open>_target_set_finalize\<close> may process the remaining events, and processing an event may finalize
  another device. The handlers take this recursive call as the argument \<open>drain\<close>; the loop
  \<open>handle_faucet_events\<close> ties the knot with a bound on the number of events.
\<close>

subsection \<open>Interfaces\<close>

datatype host_request = SetDhcpMode dhcp_mode | NotifyStatic string | DhcpReady | ReportError exn

text \<open>
  What the stream monitor tells a host: its packet capture or its test module hung up or failed, a
  search for its address ended, or its control configuration changed.
\<close>

datatype stream_event =
    PcapHangup | PcapError exn | ModuleHangup nat | ModuleError nat exn | Discovered "string option" | ControlUpdated bool

text \<open>A call of a host: its requests are served, and then the call returns or raises.\<close>

type_synonym 'h host_call = "device \<Rightarrow> 'h \<times> gateway \<Rightarrow> (unit result \<times> host_request list) \<times> 'h \<times> gateway"

record 'h host_ops =
  ho_new :: "device \<Rightarrow> int option \<Rightarrow> gateway \<Rightarrow> 'h result"
  ho_initialize :: "'h \<Rightarrow> unit result \<times> 'h"
  ho_is_running :: "'h \<Rightarrow> bool"
  ho_idle_handler :: "'h host_call"
  ho_heartbeat :: "'h host_call list"
  ho_stream :: "stream_event \<Rightarrow> 'h host_call"
  ho_record_result :: "exn \<Rightarrow> 'h \<Rightarrow> unit result \<times> 'h"
  ho_results :: "'h \<Rightarrow> result_set"
  ho_terminate :: "'h \<Rightarrow> test_report option result \<times> 'h"
  ho_enabled_tests :: "'h \<Rightarrow> string list"
  ho_ip_notify :: "device \<Rightarrow> string \<Rightarrow> string option \<Rightarrow> int \<Rightarrow> 'h \<times> gateway \<Rightarrow> (unit result \<times> exn list) \<times> 'h \<times> gateway"
  ho_notify_activate :: "'h \<Rightarrow> bool \<times> 'h"
  ho_trigger_ready :: "'h \<Rightarrow> bool result"
  ho_trigger :: "string option \<Rightarrow> string option \<Rightarrow> int option \<Rightarrow> 'h \<Rightarrow> bool result \<times> 'h"
  ho_port_flap_timeout :: "'h \<Rightarrow> int option result"

record env =
  max_hosts :: "nat option"
  run_limit :: nat
  single_shot :: bool
  fail_mode :: bool
  result_linger :: bool
  native_vlan_id :: "int option"
  vlan_trigger :: bool
  result_handler :: bool
  ext_mac :: "string option"
  default_flap_timeout :: int
  time_now :: int
  pop_index :: "int list \<Rightarrow> nat"
  templates :: "string \<Rightarrow> acl_template option"
  behavioral_config :: "topology \<Rightarrow> unit result"
  gateway_up :: "gateway \<Rightarrow> unit result"
  gateway_down :: "gateway \<Rightarrow> unit result"
  gateway_ready :: "gateway \<Rightarrow> unit result"
  fake_target :: "gateway \<Rightarrow> string option"
  stop_dhcp :: "gateway \<Rightarrow> string \<Rightarrow> unit result"
  send_result :: "string \<Rightarrow> behavior \<Rightarrow> unit result"
  reconnect :: "unit result"
  event_connect :: "unit result"
  network_initialize :: "unit result"
  network_activate :: "gateway option \<Rightarrow> unit result"
  remote_tap :: "string \<Rightarrow> unit result"
  publish_heartbeat :: "unit result"
  device_heartbeats :: "unit result"
  server_start :: "unit result"
  server_stop :: "unit result"
  exn_of :: "py_error \<Rightarrow> exn"

definition DaqException :: "string \<Rightarrow> exn" where
  "DaqException msg = \<lparr>ex_class = ''DaqException'', ex_text = msg\<rparr>"

definition or_empty :: "'a list option \<Rightarrow> 'a list" where
  "or_empty x = (case x of None \<Rightarrow> [] | Some v \<Rightarrow> v)"

text \<open>Calling an operation of a host, or of a gateway, in the stores.\<close>

definition call_host :: "nat \<Rightarrow> ('h \<Rightarrow> 'a result \<times> 'h) \<Rightarrow> ('h, 'a) runner_op" where
  "call_host h f s = (case f (host_store s h) of (r, x) \<Rightarrow> (r, s\<lparr>host_store := (host_store s)(h := x)\<rparr>))"

definition call_gateway :: "nat \<Rightarrow> (gateway \<Rightarrow> 'a result \<times> gateway) \<Rightarrow> ('h, 'a) runner_op" where
  "call_gateway g f s = (case f (gw_store s g) of (r, x) \<Rightarrow> (r, s\<lparr>gw_store := (gw_store s)(g := x)\<rparr>))"

definition call_host_gateway ::
    "nat \<Rightarrow> ('h \<times> gateway \<Rightarrow> 'a \<times> 'h \<times> gateway) \<Rightarrow> ('h, 'a) runner_op" where
  \<comment> \<open>of its gateway a host changes only the test ports in use\<close>
  "call_host_gateway h f s =
     (let g = host_gateway s h in
      case f (host_store s h, gw_store s g) of
        (r, x, y) \<Rightarrow> (Inr r, s\<lparr>host_store := (host_store s)(h := x),
                          gw_store := (gw_store s)(g := (gw_store s g)\<lparr>test_ports := test_ports y\<rparr>)\<rparr>))"

definition with_host :: "nat \<Rightarrow> (nat \<Rightarrow> ('h, 'a) runner_op) \<Rightarrow> ('h, 'a) runner_op" where
  \<comment> \<open>\<open>device.host.m(...)\<close>\<close>
  "with_host d f = read_op (\<lambda>s. case dv_host (dv_store s d) of None \<Rightarrow> raise_op AttributeError | Some h \<Rightarrow> f h)"

subsection \<open>Network\<close>

definition topo_view :: "'h runner \<Rightarrow> nat \<Rightarrow> topo_device" where
  "topo_view s d =
     (let dv = dv_store s d in
      \<lparr>td_mac = dv_mac dv, td_vlan = dv_vlan dv, td_assigned = dv_assigned dv,
       td_port_no = pi_port_no (pt_store s (dv_port dv)), td_gateway = map_option (gw_store s) (dv_gateway dv)\<rparr>)"

definition call_topology :: "env \<Rightarrow> ((nat \<Rightarrow> topo_device) \<Rightarrow> unit topo_op) \<Rightarrow> ('h, unit) runner_op" where
  "call_topology E f =
     then_op (\<lambda>s. case f (topo_view s) (topo s) of (r, t) \<Rightarrow> (r, s\<lparr>topo := t\<rparr>))
       (read_op (\<lambda>s. lift_op (behavioral_config E (topo s))))"

definition network_direct_port_traffic :: "env \<Rightarrow> nat \<Rightarrow> int \<Rightarrow> port_target option \<Rightarrow> ('h, unit) runner_op" where
  "network_direct_port_traffic E d port target = call_topology E (\<lambda>dev. direct_port_traffic (templates E) dev d port target)"

definition network_direct_device_traffic :: "env \<Rightarrow> nat \<Rightarrow> int option \<Rightarrow> ('h, unit) runner_op" where
  "network_direct_device_traffic E d pset = call_topology E (\<lambda>dev. direct_device_traffic (templates E) dev d pset)"

definition is_system_port :: "int \<Rightarrow> int \<Rightarrow> bool" where
  "is_system_port dpid port \<longleftrightarrow> dpid = PRI_DPID \<and> port = PRI_TRUNK_PORT"

definition is_device_port :: "int \<Rightarrow> int \<Rightarrow> 'h runner \<Rightarrow> bool" where
  \<comment> \<open>there is no secondary switch under a native gateway\<close>
  "is_device_port dpid port s \<longleftrightarrow> native_gateway s = None \<and> dpid = sec_dpid (topo s) \<and> port < sec_port (topo s)"

subsection \<open>Ports\<close>

definition is_port_active :: "int \<Rightarrow> 'h runner \<Rightarrow> bool" where
  "is_port_active port s = (case dict_get (port_objs s) port of None \<Rightarrow> False | Some p \<Rightarrow> pi_active (pt_store s p))"

definition activate_port :: "int \<Rightarrow> ('h, unit) runner_op" where
  "activate_port port =
     then_op
       (read_op (\<lambda>s. if dict_get (port_objs s) port = None
          then bind_op new_port
                 (\<lambda>p. then_op (modify_op (\<lambda>s. s\<lparr>port_objs := dict_set port p (port_objs s)\<rparr>))
                        (set_port p (\<lambda>i. i\<lparr>pi_port_no := Some port\<rparr>)))
          else ret_op ()))
       (read_op (\<lambda>s. bind_op (lift_op (dict_index (port_objs s) port))
          (\<lambda>p. set_port p (\<lambda>i. i\<lparr>pi_flapping := 0, pi_active := True\<rparr>))))"

definition deactivate_port :: "int \<Rightarrow> ('h, unit) runner_op" where
  "deactivate_port port =
     read_op (\<lambda>s. bind_op (lift_op (dict_index (port_objs s) port)) (\<lambda>p. set_port p (\<lambda>i. i\<lparr>pi_active := False\<rparr>)))"

definition get_active_ports :: "'h runner \<Rightarrow> int option list" where
  "get_active_ports s = map (\<lambda>p. pi_port_no (pt_store s p)) (filter (\<lambda>p. pi_active (pt_store s p)) (dict_values (port_objs s)))"

subsection \<open>Results\<close>

text \<open>A failure in a result set: the name, and the exception or the code that is not 0.\<close>

type_synonym test_failure = "string \<times> (string + int)"

definition result_status :: "test_result \<Rightarrow> string + int" where
  "result_status r =
     (case tr_exception r of
        Some (c # cs) \<Rightarrow> Inl (c # cs)
      | _ \<Rightarrow> Inr (case tr_code r of None \<Rightarrow> 0 | Some n \<Rightarrow> n))"

definition combine_result_set :: "result_set \<Rightarrow> test_failure list" where
  "combine_result_set rs =
     map (\<lambda>k. (case tr_name (the (dict_get rs k)) of None \<Rightarrow> k | Some n \<Rightarrow> n, result_status (the (dict_get rs k))))
       (filter (\<lambda>k. result_status (the (dict_get rs k)) \<noteq> Inr 0) (sort (dict_keys rs)))"

definition combine_results :: "'h runner \<Rightarrow> (nat \<times> test_failure) list" where
  "combine_results s = concat (map (\<lambda>(d, rs). map (Pair d) (combine_result_set rs)) (result_sets s))"

definition module_failed :: "module_result \<Rightarrow> bool" where
  \<comment> \<open>the body of the loop over the modules\<close>
  "module_failed m \<longleftrightarrow> (mr_exception m \<noteq> None \<and> mr_exception m \<noteq> Some []) \<or>
     (mr_return_code m \<noteq> None \<and> mr_return_code m \<noteq> Some 0) \<or>
     list_ex (\<lambda>(name, r). r \<noteq> Some ''pass'' \<and> r \<noteq> Some ''skip'') (mr_tests m)"

definition calculate_device_result :: "string list \<Rightarrow> test_report \<Rightarrow> behavior" where
  "calculate_device_result enabled_tests modules =
     (let failed = list_ex (\<lambda>(k, m). module_failed m) modules;
          processed = remdups (map fst (filter (\<lambda>(k, m). mr_return_code m \<noteq> None) modules))
      in if failed \<or> length enabled_tests \<noteq> length processed then Failed else Passed)"

definition send_device_result :: "env \<Rightarrow> 'h host_ops \<Rightarrow> nat \<Rightarrow> test_report option \<Rightarrow> ('h, unit) runner_op" where
  "send_device_result E H d test_results =
     (if \<not> result_handler E then ret_op ()
      else bind_op
        (case test_results of
           None \<Rightarrow> ret_op Failed
         | Some report \<Rightarrow>
             with_host d (\<lambda>h. get_op (\<lambda>s. calculate_device_result (ho_enabled_tests H (host_store s h)) report)))
        (\<lambda>device_result. modify_op (\<lambda>s.
           case send_result E (dv_mac (dv_store s d)) device_result of
             Inl _ \<Rightarrow> s
           | Inr _ \<Rightarrow> s\<lparr>sent_results := sent_results s @ [(dv_mac (dv_store s d), device_result)]\<rparr>)))"

definition send_heartbeat :: "env \<Rightarrow> ('h, unit) runner_op" where
  \<comment> \<open>the message, and then one to every device of the session server\<close>
  "send_heartbeat E =
     then_op (lift_op (publish_heartbeat E)) (if result_handler E then lift_op (device_heartbeats E) else ret_op ())"

definition finalize :: "'h runner \<Rightarrow> int" where
  "finalize s = (if combine_results s \<noteq> [] \<or> failure s then 1 else 0)"

subsection \<open>Gateways\<close>

definition find_gateway_set :: "env \<Rightarrow> nat \<Rightarrow> ('h, int) runner_op" where
  "find_gateway_set E d s =
     (let sets = gateway_sets s in
      if sets = [] then (Inl GenericException, s)
      else case pi_port_no (the_port d s) of
        Some n \<Rightarrow> if n \<in> set sets then (Inr n, s\<lparr>gateway_sets := remove1 n sets\<rparr>)
                  else (let n' = sets ! (pop_index E sets mod length sets) in (Inr n', s\<lparr>gateway_sets := remove1 n' sets\<rparr>))
      | None \<Rightarrow> (let n' = sets ! (pop_index E sets mod length sets) in (Inr n', s\<lparr>gateway_sets := remove1 n' sets\<rparr>)))"

definition add_gateway_set :: "int \<Rightarrow> ('h, unit) runner_op" where
  \<comment> \<open>\<open>self.gateway_sets.add(set_num)\<close>\<close>
  "add_gateway_set n = modify_op (\<lambda>s. s\<lparr>gateway_sets := (if n \<in> set (gateway_sets s) then gateway_sets s else gateway_sets s @ [n])\<rparr>)"

definition alloc_gateway :: "gateway \<Rightarrow> ('h, nat) runner_op" where
  "alloc_gateway g s = (Inr (gw_next s), s\<lparr>gw_store := (gw_store s)(gw_next s := g), gw_next := Suc (gw_next s),
                                          gw_linger := (gw_linger s)(gw_next s := False)\<rparr>)"

definition activate_gateway_object :: "env \<Rightarrow> nat \<Rightarrow> ('h, unit) runner_op" where
  \<comment> \<open>\<open>gateway.activate()\<close>: it is marked first, then the lease time is changed\<close>
  "activate_gateway_object E g = call_gateway g (\<lambda>x. (gateway_ready E x, gateway_activate x))"

definition start_gateway :: "env \<Rightarrow> int \<Rightarrow> gateway \<Rightarrow> ('h, nat) runner_op" where
  \<comment> \<open>\<open>gateway.initialize()\<close> and the handler that gives the set back\<close>
  "start_gateway E set_num g =
     (case gateway_up E g of
        Inl e \<Rightarrow> then_op (add_gateway_set set_num) (raise_op e)
      | Inr _ \<Rightarrow> alloc_gateway g)"

definition create_native_gateway :: "env \<Rightarrow> ('h, nat) runner_op" where
  \<comment> \<open>\<open>_create_gateway(None)\<close>\<close>
  "create_native_gateway E =
     then_op (read_op (\<lambda>s. assert_op (native_gateway s = None)))
       (bind_op (lift_op (gateway_init ''native'' 1 True))
         (\<lambda>g. bind_op (start_gateway E 1 g) (\<lambda>gw. then_op (activate_gateway_object E gw) (ret_op gw))))"

definition existing_gateways :: "nat \<Rightarrow> 'h runner \<Rightarrow> nat list" where
  "existing_gateways d s =
     remdups (concat (map (\<lambda>e. case dv_gateway (dv_store s e) of None \<Rightarrow> [] | Some g \<Rightarrow> [g])
       (get_by_group (dv_group (dv_store s d)) s)))"

definition create_gateway :: "env \<Rightarrow> nat \<Rightarrow> ('h, nat) runner_op" where
  "create_gateway E d =
     read_op (\<lambda>s. case native_gateway s of
        Some g \<Rightarrow> ret_op g
      | None \<Rightarrow>
          (case existing_gateways d s of
             [g] \<Rightarrow> ret_op g
           | _ # _ # _ \<Rightarrow> raise_op AssertionError
           | [] \<Rightarrow>
               bind_op (find_gateway_set E d)
                 (\<lambda>set_num. bind_op (lift_op (gateway_init (or_empty (dv_group (dv_store s d))) set_num False))
                    (start_gateway E set_num))))"

definition detach_gateway :: "env \<Rightarrow> nat \<Rightarrow> ('h, unit) runner_op" where
  "detach_gateway E d =
     read_op (\<lambda>s. case dv_gateway (dv_store s d) of
        None \<Rightarrow> ret_op ()
      | Some g \<Rightarrow>
          then_op
            (bind_op (call_gateway g (detach_target (dv_mac (dv_store s d))))
              (\<lambda>count.
                 if count \<noteq> 0 then ret_op ()
                 else then_op (read_op (\<lambda>s. lift_op (bind_result (gateway_terminate (gw_store s g)) (\<lambda>_. gateway_down E (gw_store s g)))))
                   (then_op (read_op (\<lambda>s. add_gateway_set (port_set (gw_store s g))))
                     (if dv_vlan (dv_store s d) \<noteq> None \<and> dv_vlan (dv_store s d) \<noteq> Some 0
                      then network_direct_device_traffic E d None else ret_op ()))))
            (set_device d (\<lambda>dv. dv\<lparr>dv_gateway := None\<rparr>)))"

subsection \<open>The end of a target set\<close>

definition linger_or_release :: "env \<Rightarrow> 'h host_ops \<Rightarrow> nat \<Rightarrow> nat \<Rightarrow> ('h, unit) runner_op" where
  \<comment> \<open>\<open>_target_set_cancel\<close> once the device is known to have the host \<open>h\<close>\<close>
  "linger_or_release E H d h =
     read_op (\<lambda>s. let target_gateway = dv_gateway (dv_store s d);
          target_port = (case pi_port_no (the_port d s) of Some n \<Rightarrow> if n = 0 then None else Some n | None \<Rightarrow> None);
          failures = combine_result_set (or_empty (dict_get (result_sets s) d));
          this_result_linger = (failures \<noteq> [] \<and> result_linger E);
          target_gateway_linger = (case target_gateway of None \<Rightarrow> False | Some g \<Rightarrow> gw_linger s g)
      in if target_gateway_linger \<or> this_result_linger then
           then_op (case target_port of None \<Rightarrow> ret_op () | Some n \<Rightarrow> activate_port n)
             (case target_gateway of
                None \<Rightarrow> raise_op AttributeError
              | Some g \<Rightarrow> modify_op (\<lambda>s. s\<lparr>gw_linger := (gw_linger s)(g := True)\<rparr>))
         else
           then_op (case target_port of None \<Rightarrow> ret_op () | Some n \<Rightarrow> network_direct_port_traffic E d n None)
             (then_op (if target_gateway = None then ret_op () else detach_gateway E d)
               (bind_op (call_host h (ho_terminate H)) (send_device_result E H d))))"

definition target_set_cancel :: "env \<Rightarrow> 'h host_ops \<Rightarrow> nat \<Rightarrow> ('h, unit) runner_op" where
  "target_set_cancel E H d =
     then_op (modify_op (\<lambda>s. s\<lparr>target_set_queue := remove1 d (target_set_queue s)\<rparr>))
       (read_op (\<lambda>s. case dv_host (dv_store s d) of
          None \<Rightarrow> ret_op ()
        | Some h \<Rightarrow> linger_or_release E H d h))"

definition suppress_tests :: "env \<Rightarrow> result_set \<Rightarrow> 'h runner \<Rightarrow> 'h runner" where
  "suppress_tests E rs s =
     (if combine_result_set rs \<noteq> [] \<and> (fail_mode E \<or> result_linger E)
      then s\<lparr>run_tests := False, linger_exit := (if result_linger E then 1 else linger_exit s)\<rparr>
      else s)"

definition limit_tests :: "env \<Rightarrow> 'h runner \<Rightarrow> 'h runner" where
  "limit_tests E s =
     (if run_limit E \<noteq> 0 \<and> run_limit E \<le> run_count s \<and> run_tests s then s\<lparr>run_tests := False\<rparr> else s)"

definition target_set_finalize :: "env \<Rightarrow> ('h, unit) runner_op \<Rightarrow> nat \<Rightarrow> result_set \<Rightarrow> ('h, unit) runner_op" where
  "target_set_finalize E drain d rs =
     then_op (modify_op (suppress_tests E rs))
    (then_op (modify_op (\<lambda>s. s\<lparr>result_sets := dict_set d rs (result_sets s)\<rparr>))
    (then_op (modify_op (limit_tests E))
    (then_op (read_op (\<lambda>s. if single_shot E \<and> run_tests s
                then then_op drain (modify_op (\<lambda>s. s\<lparr>run_tests := False\<rparr>))
                else ret_op ()))
    (then_op (set_device d (\<lambda>dv. dv\<lparr>dv_host := None\<rparr>))
      (remove_device d)))))"

definition target_set_complete :: "env \<Rightarrow> 'h host_ops \<Rightarrow> ('h, unit) runner_op \<Rightarrow> nat \<Rightarrow> ('h, unit) runner_op" where
  "target_set_complete E H drain d =
     then_op (try_op (target_set_cancel E H d) (\<lambda>e. with_host d (\<lambda>h. call_host h (ho_record_result H (exn_of E e)))))
       (bind_op (with_host d (\<lambda>h. get_op (\<lambda>s. ho_results H (host_store s h)))) (target_set_finalize E drain d))"

definition exception_results :: "exn \<Rightarrow> result_set" where
  "exception_results e = [(''exception'', \<lparr>tr_name = None, tr_code = None, tr_exception = Some (ex_text e)\<rparr>)]"

definition target_set_error :: "env \<Rightarrow> 'h host_ops \<Rightarrow> ('h, unit) runner_op \<Rightarrow> nat \<Rightarrow> exn \<Rightarrow> ('h, unit) runner_op" where
  "target_set_error E H drain d e =
     read_op (\<lambda>s. case dv_host (dv_store s d) of
        Some h \<Rightarrow> then_op (call_host h (ho_record_result H e)) (target_set_complete E H drain d)
      | None \<Rightarrow>
          then_op (target_set_finalize E drain d (exception_results e))
            (then_op (send_device_result E H d None) (detach_gateway E d)))"

subsection \<open>The start of a target set\<close>

definition target_set_has_capacity :: "env \<Rightarrow> 'h runner \<Rightarrow> bool" where
  "target_set_has_capacity E s =
     (case max_hosts E of
        None \<Rightarrow> True
      | Some n \<Rightarrow> n = 0 \<or> length (get_triggered_devices s) < n)"

definition alloc_host :: "'h host_ops \<Rightarrow> nat \<Rightarrow> nat \<Rightarrow> ('h, nat) runner_op" where
  \<comment> \<open>\<open>ConnectedHost(self, device, self.config)\<close>\<close>
  "alloc_host H d g s =
     (case ho_new H (dv_store s d) (pi_port_no (the_port d s)) (gw_store s g) of
        Inl e \<Rightarrow> (Inl e, s)
      | Inr x \<Rightarrow> (Inr (host_next s), s\<lparr>host_store := (host_store s)(host_next s := x),
                    host_gateway := (host_gateway s)(host_next s := g),
                    host_device := (host_device s)(host_next s := d), host_next := Suc (host_next s)\<rparr>))"

definition port_target_of :: "env \<Rightarrow> nat \<Rightarrow> nat \<Rightarrow> int \<Rightarrow> string \<Rightarrow> 'h runner \<Rightarrow> port_target" where
  "port_target_of E d g port_no group_name s =
     \<lparr>t_port = port_no, t_port_set = port_set (gw_store s g), t_mac = dv_mac (dv_store s d), t_group = group_name,
      t_fake = fake_target E (gw_store s g)\<rparr>"

definition start_host :: "env \<Rightarrow> 'h host_ops \<Rightarrow> nat \<Rightarrow> nat \<Rightarrow> string \<Rightarrow> ('h, unit) runner_op" where
  \<comment> \<open>the body of the second \<open>try\<close> of \<open>_target_set_activate\<close>\<close>
  "start_host E H d g group_name =
     then_op (modify_op (\<lambda>s. s\<lparr>run_count := Suc (run_count s)\<rparr>))
       (bind_op (alloc_host H d g)
         (\<lambda>h. then_op (set_device d (\<lambda>dv. dv\<lparr>dv_host := Some h\<rparr>))
            (then_op (call_host h (ho_initialize H))
              (read_op (\<lambda>s. case pi_port_no (the_port d s) of
                 Some n \<Rightarrow> network_direct_port_traffic E d n (Some (port_target_of E d g n group_name s))
               | None \<Rightarrow> network_direct_device_traffic E d (Some (port_set (gw_store s g))))))))"

definition choose_gateway :: "env \<Rightarrow> nat \<Rightarrow> string \<Rightarrow> ('h, nat) runner_op" where
  \<comment> \<open>the first two lines of the first \<open>try\<close>\<close>
  "choose_gateway E d group_name =
     then_op (set_device d (\<lambda>dv. dv\<lparr>dv_group := Some group_name\<rparr>)) (create_gateway E d)"

definition attach_device :: "nat \<Rightarrow> nat \<Rightarrow> ('h, unit) runner_op" where
  "attach_device d g =
     then_op (read_op (\<lambda>s. call_gateway g (attach_target (dv_mac (dv_store s d)))))
       (set_device d (\<lambda>dv. dv\<lparr>dv_gateway := Some g\<rparr>))"

definition use_gateway ::
    "env \<Rightarrow> 'h host_ops \<Rightarrow> ('h, unit) runner_op \<Rightarrow> nat \<Rightarrow> nat \<Rightarrow> string \<Rightarrow> ('h, bool) runner_op" where
  \<comment> \<open>what follows the first \<open>try\<close>\<close>
  "use_gateway E H drain d g group_name =
     then_op (read_op (\<lambda>s. if dv_dhcp_mode (dv_store s d) = Some EXTERNAL then ret_op ()
                else lift_op (stop_dhcp E (gw_store s g) (dv_mac (dv_store s d)))))
    (then_op (attach_device d g)
      (try_op (then_op (start_host E H d g group_name) (ret_op True))
         (\<lambda>e. then_op (target_set_error E H drain d (exn_of E e)) (ret_op False))))"

definition target_set_activate :: "env \<Rightarrow> 'h host_ops \<Rightarrow> ('h, unit) runner_op \<Rightarrow> nat \<Rightarrow> ('h, bool) runner_op" where
  "target_set_activate E H drain d =
     then_op (read_op (\<lambda>s. assert_op (pi_port_no (the_port d s) = None \<or> pi_active (the_port d s))))
       (read_op (\<lambda>s.
          let group_name = device_group_for (topo s) (dv_mac (dv_store s d)) (dv_vlan (dv_store s d)) in
          bind_op (try_op (bind_op (choose_gateway E d group_name) (\<lambda>g. ret_op (Some g)))
                     (\<lambda>e. then_op (modify_op (\<lambda>s. if fail_mode E then s\<lparr>run_tests := False\<rparr> else s)) (ret_op None)))
            (\<lambda>gateway. case gateway of
               None \<Rightarrow> ret_op False
             | Some g \<Rightarrow> read_op (\<lambda>s.
                 if activated (gw_store s g) \<and> dv_dhcp_mode (dv_store s d) \<noteq> Some EXTERNAL then ret_op False
                 else use_gateway E H drain d g group_name))))"

definition target_set_trigger :: "env \<Rightarrow> 'h host_ops \<Rightarrow> ('h, unit) runner_op \<Rightarrow> nat \<Rightarrow> bool \<Rightarrow> ('h, unit) runner_op" where
  "target_set_trigger E H drain d remote =
     read_op (\<lambda>s.
       if \<not> contains_device d s then raise_op AssertionError
       else if \<not> system_active s \<or> dv_host (dv_store s d) \<noteq> None \<or> \<not> run_tests s \<or>
               (dv_wait_remote (dv_store s d) \<and> \<not> remote) \<or> d \<in> set (target_set_queue s)
       then ret_op ()
       else then_op (set_device d (\<lambda>dv. dv\<lparr>dv_wait_remote := False\<rparr>))
              (read_op (\<lambda>s. if target_set_has_capacity E s
                 then then_op (target_set_activate E H drain d) (ret_op ())
                 else modify_op (\<lambda>s. s\<lparr>target_set_queue := target_set_queue s @ [d]\<rparr>))))"

definition target_set_consider :: "env \<Rightarrow> 'h host_ops \<Rightarrow> ('h, unit) runner_op \<Rightarrow> ('h, unit) runner_op" where
  "target_set_consider E H drain =
     read_op (\<lambda>s. case target_set_queue s of
        [] \<Rightarrow> ret_op ()
      | d # ds \<Rightarrow>
          if target_set_has_capacity E s
          then then_op (modify_op (\<lambda>s. s\<lparr>target_set_queue := ds\<rparr>))
                 (then_op (target_set_activate E H drain d) (ret_op ()))
          else ret_op ())"

subsection \<open>Learning of devices and sessions\<close>

definition handle_device_learn ::
    "env \<Rightarrow> 'h host_ops \<Rightarrow> ('h, unit) runner_op \<Rightarrow> string \<Rightarrow> int option \<Rightarrow> ('h, unit) runner_op" where
  "handle_device_learn E H drain mac vid =
     bind_op (create_if_absent mac None vid)
       (\<lambda>d. then_op (set_device d (\<lambda>dv. dv\<lparr>dv_dhcp_mode := Some EXTERNAL\<rparr>))
          (if result_handler E
           then read_op (\<lambda>s. if dv_wait_remote (dv_store s d) then ret_op ()
                  else bind_op new_port
                         (\<lambda>p. then_op (set_port p (\<lambda>i. i\<lparr>pi_active := True\<rparr>))
                            (set_device d (\<lambda>dv. dv\<lparr>dv_port := p, dv_wait_remote := True\<rparr>))))
           else target_set_trigger E H drain d False))"

definition handle_port_learn ::
    "env \<Rightarrow> 'h host_ops \<Rightarrow> ('h, unit) runner_op \<Rightarrow> int \<Rightarrow> int \<Rightarrow> string \<Rightarrow> ('h, unit) runner_op" where
  "handle_port_learn E H drain dpid port mac =
     read_op (\<lambda>s. if is_device_port dpid port s \<and> is_port_active port s
      then bind_op (create_if_absent mac (dict_get (port_objs s) port) None)
             (\<lambda>d. target_set_trigger E H drain d False)
      else ret_op ())"

definition remote_trigger ::
    "env \<Rightarrow> 'h host_ops \<Rightarrow> ('h, unit) runner_op \<Rightarrow> nat \<Rightarrow> int \<Rightarrow> int \<Rightarrow> ('h, unit) runner_op" where
  "remote_trigger E H drain d device_vlan assigned_vlan =
     then_op (assert_op (device_vlan \<noteq> 0 \<and> assigned_vlan \<noteq> 0))
    (then_op (read_op (\<lambda>s. set_port (dv_port (dv_store s d)) (\<lambda>i. i\<lparr>pi_flapping := 0, pi_active := True\<rparr>)))
    (then_op (set_device d (\<lambda>dv. dv\<lparr>dv_vlan := Some device_vlan, dv_assigned := Some assigned_vlan\<rparr>))
    (then_op (target_set_trigger E H drain d True)
      (read_op (\<lambda>s. case dv_gateway (dv_store s d) of
         None \<Rightarrow> ret_op ()
       | Some g \<Rightarrow> network_direct_device_traffic E d (Some (port_set (gw_store s g))))))))"

text \<open>What the runner reads of the request of a session.\<close>

record session_request =
  sr_mac :: string
  sr_device_vlan :: int
  sr_assigned_vlan :: int
  sr_endpoint_ip :: string

definition on_session ::
    "env \<Rightarrow> 'h host_ops \<Rightarrow> ('h, unit) runner_op \<Rightarrow> session_request \<Rightarrow> ('h, unit) runner_op" where
  "on_session E H drain rq =
     then_op (assert_op (sr_endpoint_ip rq \<noteq> []))
    (then_op (lift_op (remote_tap E (sr_endpoint_ip rq)))
       (bind_op (create_if_absent (sr_mac rq) None None)
         (\<lambda>d. then_op (read_op (\<lambda>s. set_port (dv_port (dv_store s d)) (\<lambda>i. i\<lparr>pi_flapping := 0\<rparr>)))
            (then_op (set_device d (\<lambda>dv. dv\<lparr>dv_dhcp_mode := Some EXTERNAL\<rparr>))
              (remote_trigger E H drain d (sr_device_vlan rq) (sr_assigned_vlan rq))))))"

definition on_session_end :: "env \<Rightarrow> session_request \<Rightarrow> ('h, unit) runner_op" where
  "on_session_end E rq =
     read_op (\<lambda>s. case dict_get (by_mac s) (sr_mac rq) of
        None \<Rightarrow> ret_op ()
      | Some d \<Rightarrow>
          if pi_flapping (the_port d s) \<noteq> 0 then ret_op ()
          else set_port (dv_port (dv_store s d)) (\<lambda>i. i\<lparr>pi_flapping := time_now E\<rparr>))"

subsection \<open>Addresses and the activation of gateways\<close>

datatype readiness = NotReady | AlreadyActivated | ReadyDevices "nat list"

definition all_trigger_ready :: "'h host_ops \<Rightarrow> nat \<Rightarrow> nat list \<Rightarrow> ('h, bool) runner_op" where
  \<comment> \<open>\<open>all(map(lambda host: device.host.trigger_ready(), ready_devices))\<close>\<close>
  "all_trigger_ready H d ready_devices =
     (if ready_devices = [] then ret_op True
      else with_host d (\<lambda>h. read_op (\<lambda>s. lift_op (ho_trigger_ready H (host_store s h)))))"

definition should_activate_target :: "'h host_ops \<Rightarrow> nat \<Rightarrow> ('h, readiness) runner_op" where
  "should_activate_target H d =
     read_op (\<lambda>s. case dv_host (dv_store s d) of
        None \<Rightarrow> ret_op NotReady
      | Some h \<Rightarrow>
          (case dv_gateway (dv_store s d) of
             None \<Rightarrow> raise_op AttributeError
           | Some g \<Rightarrow>
               if activated (gw_store s g) then ret_op AlreadyActivated
               else bind_op (call_host h (\<lambda>x. case ho_notify_activate H x of (b, x') \<Rightarrow> (Inr b, x')))
                 (\<lambda>notified.
                    if \<not> notified then ret_op NotReady
                    else bind_op (call_gateway g (\<lambda>x. case target_ready d x of (ds, x') \<Rightarrow> (Inr ds, x')))
                      (\<lambda>ready_devices. read_op (\<lambda>s.
                         if device_group_size (topo s) (or_empty (dv_group (dv_store s d))) \<noteq> length ready_devices \<and> run_tests s
                         then ret_op NotReady
                         else bind_op (all_trigger_ready H d ready_devices)
                                (\<lambda>ok. ret_op (if ok then ReadyDevices ready_devices else NotReady)))))))"

definition trigger_host :: "'h host_ops \<Rightarrow> string option \<Rightarrow> nat \<Rightarrow> ('h, bool) runner_op" where
  "trigger_host H state d =
     with_host d (\<lambda>h. read_op (\<lambda>s.
       call_host h (ho_trigger H state (dv_ip_addr (dv_store s d)) (dv_delta (dv_store s d)))))"

definition activate_gateway :: "env \<Rightarrow> 'h host_ops \<Rightarrow> string option \<Rightarrow> nat \<Rightarrow> nat list \<Rightarrow> ('h, unit) runner_op" where
  "activate_gateway E H state g ready_devices =
     then_op (activate_gateway_object E g)
       (let state' = (if 1 < length ready_devices then Some ''group'' else state) in
        for_op ready_devices (\<lambda>d. bind_op (trigger_host H state' d) (\<lambda>triggered. assert_op triggered)))"

definition check_and_activate_gateway :: "env \<Rightarrow> 'h host_ops \<Rightarrow> nat \<Rightarrow> ('h, unit) runner_op" where
  "check_and_activate_gateway E H d =
     read_op (\<lambda>s.
       if dv_ip_addr (dv_store s d) \<in> {None, Some []} \<or> \<not> dv_dhcp_ready (dv_store s d) then ret_op ()
       else bind_op (should_activate_target H d)
         (\<lambda>r. case r of
            NotReady \<Rightarrow> ret_op ()
          | AlreadyActivated \<Rightarrow> read_op (\<lambda>s. then_op (trigger_host H (dv_ip_state (dv_store s d)) d) (ret_op ()))
          | ReadyDevices ds \<Rightarrow>
              if ds = [] then ret_op ()
              else read_op (\<lambda>s. case dv_gateway (dv_store s d) of
                 None \<Rightarrow> raise_op AttributeError
               | Some g \<Rightarrow> activate_gateway E H (dv_ip_state (dv_store s d)) g ds)))"

definition dhcp_ready_listener :: "env \<Rightarrow> 'h host_ops \<Rightarrow> nat \<Rightarrow> ('h, unit) runner_op" where
  "dhcp_ready_listener E H d =
     then_op (set_device d (\<lambda>dv. dv\<lparr>dv_dhcp_ready := True\<rparr>)) (check_and_activate_gateway E H d)"

definition terminate_gateway_set ::
    "env \<Rightarrow> 'h host_ops \<Rightarrow> ('h, unit) runner_op \<Rightarrow> nat \<Rightarrow> ('h, unit) runner_op" where
  "terminate_gateway_set E H drain g =
     read_op (\<lambda>s. then_op (assert_op (get_by_gateway g s \<noteq> []))
       (for_op (get_by_gateway g s) (\<lambda>d. target_set_error E H drain d (DaqException ''terminated''))))"

record ip_target =
  ip_type :: string
  ip_mac :: string
  ip_ip :: string
  ip_delta :: "int option"

definition ip_notify ::
    "env \<Rightarrow> 'h host_ops \<Rightarrow> ('h, unit) runner_op \<Rightarrow> string \<Rightarrow> ip_target option \<Rightarrow> nat \<Rightarrow> bool \<Rightarrow> ('h, unit) runner_op" where
  "ip_notify E H drain state target g has_exception =
     (if has_exception then then_op (assert_op (target = None)) (terminate_gateway_set E H drain g)
      else case target of
        None \<Rightarrow> raise_op TypeError
      | Some t \<Rightarrow>
          if Some (ip_mac t) = ext_mac E then ret_op ()
          else
            then_op (if state = ''NEW'' then handle_device_learn E H drain (ip_mac t) (native_vlan_id E) else ret_op ())
           (then_op (assert_op (ip_mac t \<noteq> [] \<and> ip_ip t \<noteq> [] \<and> ip_delta t \<noteq> None))
              (read_op (\<lambda>s. case dict_get (by_mac s) (ip_mac t) of
                 None \<Rightarrow> raise_op AssertionError
               | Some d \<Rightarrow>
                   then_op (set_device d (\<lambda>dv. dv\<lparr>dv_ip_addr := Some (ip_ip t), dv_ip_state := Some state, dv_delta := ip_delta t\<rparr>))
                     (read_op (\<lambda>s. case dv_host (dv_store s d) of
                        None \<Rightarrow> ret_op ()
                      | Some h \<Rightarrow>
                          if ip_type t = ''ACK'' \<or> ip_type t = ''STATIC''
                          then then_op
                                 (bind_op (call_host_gateway h (ho_ip_notify H (dv_store s d) (ip_ip t) (Some state) (case ip_delta t of None \<Rightarrow> 0 | Some n \<Rightarrow> n)))
                                   (\<lambda>(r, errors). then_op (for_op errors (target_set_error E H drain d)) (lift_op r)))
                                 (check_and_activate_gateway E H d)
                          else ret_op ()))))))"

text \<open>The calls a host makes.\<close>

definition serve_request ::
    "env \<Rightarrow> 'h host_ops \<Rightarrow> ('h, unit) runner_op \<Rightarrow> nat \<Rightarrow> nat \<Rightarrow> host_request \<Rightarrow> ('h, unit) runner_op" where
  "serve_request E H drain d g rq =
     (case rq of
        SetDhcpMode m \<Rightarrow> set_device d (\<lambda>dv. dv\<lparr>dv_dhcp_mode := Some m\<rparr>)
      | NotifyStatic ip \<Rightarrow>
          read_op (\<lambda>s. ip_notify E H drain ''nope''
            (Some \<lparr>ip_type = ''STATIC'', ip_mac = dv_mac (dv_store s d), ip_ip = ip, ip_delta = Some (-1)\<rparr>) g False)
      | DhcpReady \<Rightarrow> dhcp_ready_listener E H d
      | ReportError e \<Rightarrow> target_set_error E H drain d e)"

definition serve_host :: "env \<Rightarrow> 'h host_ops \<Rightarrow> ('h, unit) runner_op \<Rightarrow> nat \<Rightarrow> 'h host_call \<Rightarrow> ('h, unit) runner_op" where
  "serve_host E H drain h f =
     read_op (\<lambda>s. let d = host_device s h in
       bind_op (call_host_gateway h (f (dv_store s d)))
         (\<lambda>(r, rqs). then_op (for_op rqs (serve_request E H drain d (host_gateway s h))) (lift_op r)))"

definition call_host_serving ::
    "env \<Rightarrow> 'h host_ops \<Rightarrow> ('h, unit) runner_op \<Rightarrow> nat \<Rightarrow> 'h host_call list \<Rightarrow> ('h, unit) runner_op" where
  "call_host_serving E H drain d fs = with_host d (\<lambda>h. for_op fs (serve_host E H drain h))"

definition stream_ready ::
    "env \<Rightarrow> 'h host_ops \<Rightarrow> ('h, unit) runner_op \<Rightarrow> nat \<Rightarrow> stream_event \<Rightarrow> ('h, unit) runner_op" where
  \<comment> \<open>the callbacks a host registered with \<open>monitor_stream\<close>, also when no device has the host any more\<close>
  "stream_ready E H drain h ev =
     read_op (\<lambda>s. if h < host_next s then serve_host E H drain h (ho_stream H ev) else ret_op ())"

subsection \<open>Port events and the shutdown\<close>

definition stop_result_handler :: "env \<Rightarrow> ('h, unit) runner_op" where
  \<comment> \<open>the last two lines of \<open>_terminate\<close>\<close>
  "stop_result_handler E = (if result_handler E then lift_op (server_stop E) else ret_op ())"

definition terminate_device :: "env \<Rightarrow> 'h host_ops \<Rightarrow> ('h, unit) runner_op \<Rightarrow> nat \<Rightarrow> ('h, unit) runner_op" where
  \<comment> \<open>the body of the loop of \<open>_terminate\<close>\<close>
  "terminate_device E H drain d = target_set_error E H drain d (DaqException ''terminated'')"

definition terminate_all :: "env \<Rightarrow> 'h host_ops \<Rightarrow> ('h, unit) runner_op \<Rightarrow> ('h, unit) runner_op" where
  "terminate_all E H drain =
     then_op (read_op (\<lambda>s. for_op (get_triggered_devices s) (terminate_device E H drain))) (stop_result_handler E)"

definition shutdown :: "env \<Rightarrow> 'h host_ops \<Rightarrow> ('h, unit) runner_op \<Rightarrow> ('h, unit) runner_op" where
  "shutdown E H drain =
     then_op (terminate_all E H drain)
    (then_op (modify_op (\<lambda>s. s\<lparr>connected := False\<rparr>)) (send_heartbeat E))"

definition port_inactive :: "env \<Rightarrow> int \<Rightarrow> ('h, unit) runner_op" where
  \<comment> \<open>the branch of \<open>_handle_port_state\<close> for a device port that goes down\<close>
  "port_inactive E port =
     read_op (\<lambda>s. case dict_get (port_objs s) port of
        None \<Rightarrow> ret_op ()
      | Some p \<Rightarrow>
          (case get_by_port_info p s of
             None \<Rightarrow> if pi_active (pt_store s p) then deactivate_port port else ret_op ()
           | Some d \<Rightarrow>
               then_op (if dv_host (dv_store s d) \<noteq> None \<and> pi_flapping (pt_store s p) = 0
                        then set_port p (\<lambda>i. i\<lparr>pi_flapping := time_now E\<rparr>) else ret_op ())
                 (read_op (\<lambda>s. if pi_active (pt_store s p)
                    then then_op (if pi_flapping (pt_store s p) = 0 then network_direct_port_traffic E d port None else ret_op ())
                           (deactivate_port port)
                    else ret_op ()))))"

definition handle_port_state ::
    "env \<Rightarrow> 'h host_ops \<Rightarrow> ('h, unit) runner_op \<Rightarrow> int \<Rightarrow> int \<Rightarrow> bool \<Rightarrow> ('h, unit) runner_op" where
  "handle_port_state E H drain dpid port active =
     read_op (\<lambda>s.
       if is_system_port dpid port
       then then_op (if system_active s \<and> \<not> active
                     then then_op (modify_op (\<lambda>s. s\<lparr>failure := True\<rparr>)) (shutdown E H drain) else ret_op ())
              (modify_op (\<lambda>s. s\<lparr>system_active := active\<rparr>))
       else if \<not> is_device_port dpid port s then ret_op ()
       else then_op (if active then activate_port port else port_inactive E port) (send_heartbeat E))"

definition process_faucet_event ::
    "env \<Rightarrow> 'h host_ops \<Rightarrow> ('h, unit) runner_op \<Rightarrow> faucet_event \<Rightarrow> ('h, unit) runner_op" where
  "process_faucet_event E H drain ev =
     (case ev of
        PortState dpid port active \<Rightarrow>
          if dpid \<noteq> 0 \<and> port \<noteq> 0 then handle_port_state E H drain dpid port active else ret_op ()
      | PortLearn dpid port mac vid \<Rightarrow>
          if dpid \<noteq> 0 \<and> port \<noteq> 0 \<and> vid \<noteq> 0
          then if vlan_trigger E
               then if is_system_port dpid port then handle_device_learn E H drain mac (Some vid) else ret_op ()
               else handle_port_learn E H drain dpid port mac
          else ret_op ()
      | OtherEvent \<Rightarrow> ret_op ())"

text \<open>
  The loop over the events. Its argument \<open>prev\<close> is the variable \<open>event\<close>, which keeps the event of the
  round before when reading the next one fails; \<open>n\<close> bounds the number of events taken.
\<close>

definition handle_incoming ::
    "env \<Rightarrow> 'h host_ops \<Rightarrow> (faucet_event option \<Rightarrow> ('h, unit) runner_op) \<Rightarrow> faucet_event option \<Rightarrow> incoming \<Rightarrow> ('h, unit) runner_op" where
  \<comment> \<open>one round of the loop; \<open>again\<close> is the rest of it\<close>
  "handle_incoming E H again prev i =
     (case i of
        Event ev \<Rightarrow> then_op (process_faucet_event E H (again None) ev) (again (Some ev))
      | Disconnected \<Rightarrow> then_op (lift_op (reconnect E)) (again prev)
      | Broken \<Rightarrow>
          then_op (modify_op (\<lambda>s. s\<lparr>connected := False\<rparr>))
            (then_op (shutdown E H (again None))
              (case prev of None \<Rightarrow> ret_op () | Some ev \<Rightarrow> raise_op AttributeError)))"

primrec handle_faucet_events :: "env \<Rightarrow> 'h host_ops \<Rightarrow> nat \<Rightarrow> faucet_event option \<Rightarrow> ('h, unit) runner_op" where
  "handle_faucet_events E H 0 prev =
     modify_op (\<lambda>s. if connected s \<and> events s \<noteq> [] then s\<lparr>starved := True\<rparr> else s)"
| "handle_faucet_events E H (Suc n) prev =
     read_op (\<lambda>s. if \<not> connected s then ret_op ()
      else case events s of
        [] \<Rightarrow> ret_op ()
      | i # is \<Rightarrow>
          then_op (modify_op (\<lambda>s. s\<lparr>events := is\<rparr>)) (handle_incoming E H (handle_faucet_events E H n) prev i))"

declare handle_faucet_events.simps [simp del]

definition handle_events :: "env \<Rightarrow> 'h host_ops \<Rightarrow> ('h, unit) runner_op" where
  \<comment> \<open>\<open>_handle_faucet_events\<close> with a bound that is enough\<close>
  "handle_events E H = read_op (\<lambda>s. handle_faucet_events E H (length (events s)) None)"

subsection \<open>The main loop\<close>

definition idle_device :: "env \<Rightarrow> 'h host_ops \<Rightarrow> nat \<Rightarrow> ('h, unit) runner_op" where
  "idle_device E H d =
     try_op
       (with_host d (\<lambda>h. read_op (\<lambda>s.
          if ho_is_running H (host_store s h)
          then call_host_serving E H (handle_events E H) d [ho_idle_handler H]
          else target_set_complete E H (handle_events E H) d)))
       (\<lambda>e. target_set_error E H (handle_events E H) d (exn_of E e))"

definition handle_system_idle_raw :: "env \<Rightarrow> 'h host_ops \<Rightarrow> ('h, unit) runner_op" where
  "handle_system_idle_raw E H =
     then_op (handle_events E H)
    (then_op (read_op (\<lambda>s. for_op (get_triggered_devices s) (idle_device E H)))
    (then_op (read_op (\<lambda>s. for_op (get_all_devices s) (\<lambda>d. target_set_trigger E H (handle_events E H) d False)))
    (then_op (target_set_consider E H (handle_events E H))
      (read_op (\<lambda>s. if get_triggered_devices s = [] \<and> \<not> run_tests s
         then then_op (if connected s \<and> linger_exit s = 0 then shutdown E H (handle_events E H) else ret_op ())
                (modify_op (\<lambda>s. if linger_exit s = 1 then s\<lparr>linger_exit := 2\<rparr> else s))
         else ret_op ())))))"

definition handle_system_idle :: "env \<Rightarrow> 'h host_ops \<Rightarrow> ('h, unit) runner_op" where
  "handle_system_idle E H = then_op (handle_system_idle_raw E H) (send_heartbeat E)"

definition reap_stale_port :: "env \<Rightarrow> 'h host_ops \<Rightarrow> nat \<Rightarrow> ('h, unit) runner_op" where
  "reap_stale_port E H d =
     read_op (\<lambda>s. if pi_flapping (the_port d s) = 0 then ret_op ()
      else with_host d (\<lambda>h. bind_op (lift_op (ho_port_flap_timeout H (host_store s h))) (\<lambda>flap.
        let timeout_sec = (case flap of None \<Rightarrow> default_flap_timeout E | Some n \<Rightarrow> n)
        in if pi_flapping (the_port d s) + timeout_sec \<le> time_now E
           then then_op (target_set_error E H (handle_events E H) d
                          (DaqException (''port not active for '' @ show_int timeout_sec @ ''s'')))
                  (read_op (\<lambda>s. set_port (dv_port (dv_store s d)) (\<lambda>i. i\<lparr>pi_flapping := 0\<rparr>)))
           else ret_op ())))"

definition reap_stale_ports :: "env \<Rightarrow> 'h host_ops \<Rightarrow> ('h, unit) runner_op" where
  "reap_stale_ports E H = read_op (\<lambda>s. for_op (get_triggered_devices s) (reap_stale_port E H))"

definition device_heartbeat :: "env \<Rightarrow> 'h host_ops \<Rightarrow> nat \<Rightarrow> ('h, unit) runner_op" where
  \<comment> \<open>\<open>device.host.heartbeat()\<close>\<close>
  "device_heartbeat E H d = call_host_serving E H (handle_events E H) d (ho_heartbeat H)"

definition module_heartbeat :: "env \<Rightarrow> 'h host_ops \<Rightarrow> ('h, unit) runner_op" where
  "module_heartbeat E H = read_op (\<lambda>s. for_op (get_triggered_devices s) (device_heartbeat E H))"

text \<open>
  The start: the network is brought up, the native gateway is made when devices are tested on a native
  VLAN, and the event socket is connected. \<open>connected\<close> says that \<open>self.faucet_events\<close> is set, which it is
  before the connection is made.
\<close>

definition initialize_native :: "env \<Rightarrow> ('h, unit) runner_op" where
  "initialize_native E =
     (if native_vlan_id E \<in> {None, Some 0} then ret_op ()
      else bind_op (create_native_gateway E) (\<lambda>g. modify_op (\<lambda>s. s\<lparr>native_gateway := Some g\<rparr>)))"

definition runner_initialize :: "env \<Rightarrow> ('h, unit) runner_op" where
  "runner_initialize E =
     then_op (send_heartbeat E)
    (then_op (lift_op (network_initialize E))
    (then_op (initialize_native E)
    (then_op (read_op (\<lambda>s. lift_op (network_activate E (map_option (gw_store s) (native_gateway s)))))
    (then_op (modify_op (\<lambda>s. s\<lparr>connected := True\<rparr>))
    (then_op (lift_op (event_connect E))
      (if result_handler E then lift_op (server_start E) else ret_op ()))))))"

text \<open>
  What may happen, in any order: the runner is initialized, something arrives on the event socket, the
  socket is readable, the loop is idle, stale ports are reaped, the modules' heartbeat, sessions, a
  gateway's notification of an address, a stream of a host, and the end of the run. Reaping, the heartbeat and the
  termination at the end do not hold the lock of the runner; each has an occasion for a single device, so that
  sequences of occasions may have sessions between the devices. At each occasion the environment and the hosts' own
  surroundings answer as they will. An exception ends the handling of the occasion.
\<close>

datatype occasion =
    Incoming incoming | FaucetReady | Idle | Reap | Heartbeat
  | SessionStart session_request | SessionEnd session_request
  | IpNotify string "ip_target option" nat bool
  | HostStream nat stream_event
  | Initialize | ReapDevice nat | HeartbeatDevice nat | TerminateDevice nat | StopResults

definition handle_occasion :: "env \<Rightarrow> 'h host_ops \<Rightarrow> occasion \<Rightarrow> ('h, unit) runner_op" where
  "handle_occasion E H occ =
     (case occ of
        Incoming i \<Rightarrow> modify_op (\<lambda>s. s\<lparr>events := events s @ [i]\<rparr>)
      | FaucetReady \<Rightarrow> handle_events E H
      | Idle \<Rightarrow> handle_system_idle E H
      | Reap \<Rightarrow> reap_stale_ports E H
      | Heartbeat \<Rightarrow> module_heartbeat E H
      | SessionStart rq \<Rightarrow> on_session E H (handle_events E H) rq
      | SessionEnd rq \<Rightarrow> on_session_end E rq
      | IpNotify state target g ex \<Rightarrow> ip_notify E H (handle_events E H) state target g ex
      | HostStream h ev \<Rightarrow> stream_ready E H (handle_events E H) h ev
      | Initialize \<Rightarrow> runner_initialize E
      | ReapDevice d \<Rightarrow> reap_stale_port E H d
      | HeartbeatDevice d \<Rightarrow> device_heartbeat E H d
      | TerminateDevice d \<Rightarrow> terminate_device E H (handle_events E H) d
      | StopResults \<Rightarrow> stop_result_handler E)"

definition run_trace :: "(env \<times> 'h host_ops \<times> occasion) list \<Rightarrow> 'h runner \<Rightarrow> 'h runner" where
  "run_trace trace s = foldl (\<lambda>s (E, H, occ). snd (handle_occasion E H occ s)) s trace"

definition is_session :: "occasion \<Rightarrow> bool" where
  "is_session occ = (case occ of SessionStart _ \<Rightarrow> True | _ \<Rightarrow> False)"

end
