(* ===== verification/Host.thy ===== *)
theory Host
  imports Report Runner
begin

text \<open>
  \<open>daq/host.py\<close> and \<open>daq/test_modules\<close>: a connected host and the test modules it runs one after the
  other. An operation works on the host, on its gateway (only for the test ports) and on the list of
  calls it makes back into the runner; as in \<open>Runner\<close>, these requests are served when the operation is
  over, and an exception which such a call raises is raised then: it does not reach the handlers of
  the host that made the call. A module object may outlive its test, so the modules a host made are numbered and the host
  refers to the current one by number. The record \<open>host_env\<close> has the configuration, the clock, and
  whether each thing outside the program (containers, packet captures, files, pings) fails.
\<close>

subsection \<open>State\<close>

datatype host_state = ERROR | READY | INIT | WAITING | BASE | MONITOR | NEXT | TESTING | DONE | HOLD | TERMINATED

datatype timeout_handler = AuxTimeout | MainTimeout | ExternalDhcpTimeout

text \<open>
  A module that runs in a container or natively; \<open>em_host\<close>, \<open>em_pipe\<close> and \<open>em_log\<close> say whether it has
  its mininet host, its pipe and its log file. The module \<open>ipaddr\<close> has one of these for its analysis.
\<close>

record external_module =
  em_test :: string
  em_host :: bool
  em_pipe :: bool
  em_log :: bool
  em_started :: bool

datatype ip_test = PortToggle | MultiSubnet | IpChange | DhcpChange | Analyze

datatype ip_callback = CallNextTest | CallMultiSubnet

record ipaddr_module =
  ia_docker :: external_module
  ia_ranges :: "val list"
  ia_callback :: "ip_callback option"
  ia_tests :: "ip_test list"
  ia_force_terminated :: bool
  ia_lease :: "int option"
  ia_timeout :: "int option"

datatype test_module = External external_module | IpAddr ipaddr_module

record pcap_monitor =
  pm_timeout :: "int option"
  pm_open :: bool

record host =
  hs_mac :: string
  hs_port :: "int option"
  hs_state :: host_state
  hs_results :: result_set
  hs_test_name :: "string option"
  hs_test_start :: int
  hs_test_host :: "nat option"
  hs_modules :: "test_module list"
  hs_test_port :: "int option"
  hs_startup_time :: "int option"
  hs_monitor :: "pcap_monitor option"
  hs_monitor_start :: int
  hs_target_ip :: "string option"
  hs_all_ips :: "string list"
  hs_timeout_handler :: "timeout_handler option"
  hs_timeout_sec :: "int option"
  hs_enabled_tests :: "string list"
  hs_remaining_tests :: "string list"
  hs_config :: vdict
  hs_report :: "report option"

record host_run =
  hr_host :: host
  hr_gateway :: gateway
  hr_out :: "host_request list"

type_synonym 'a host_op = "(host_run, 'a) op"

record host_env =
  hv_now :: int
  hv_test_list :: "string list"
  hv_no_test :: bool
  hv_monitor_scan_sec :: int
  hv_default_timeout :: int
  hv_native :: "string \<Rightarrow> bool"
  hv_external_subnets :: bool
  hv_induced :: "string \<Rightarrow> string \<Rightarrow> string option"
  hv_load :: "string \<Rightarrow> vdict result"
  hv_setup :: "vdict \<Rightarrow> report_setup"
  hv_report :: report_env
  hv_lease_time :: "int option result"
  hv_exn :: "py_error \<Rightarrow> exn"
  hv_dirs :: "unit result"
  hv_register :: "unit result"
  hv_release :: "unit result"
  hv_mirror :: "unit result"
  hv_unmirror :: "unit result"
  hv_pcap :: "unit result"
  hv_watch :: "unit result"
  hv_pcap_stop :: "unit result"
  hv_upload :: "unit result"
  hv_ping :: "nat \<Rightarrow> bool result"
  hv_dhcp_response :: "unit result"
  hv_write_config :: "unit result"
  hv_params :: "unit result"
  hv_native_root :: "unit result"
  hv_is_file :: "result_type \<Rightarrow> bool"
  hv_path :: "result_type \<Rightarrow> string"
  hv_module_class :: "string \<Rightarrow> unit result"
  hv_add_host :: "string \<Rightarrow> unit result"
  hv_activate :: "string \<Rightarrow> unit result"
  hv_stop_host :: "string \<Rightarrow> int option result"
  hv_remove_host :: "unit result"
  hv_connect_port :: "bool \<Rightarrow> bool result"
  hv_change_range :: "val \<Rightarrow> unit result"
  hv_request_ip :: "unit result"
  hv_trigger_file :: "unit result"

definition TIMEOUT_EXCEPTION :: exn where
  "TIMEOUT_EXCEPTION = \<lparr>ex_class = ''TimeoutError'', ex_text = ''Timeout expired''\<rparr>"

definition ANALYSIS_TIMEOUT :: exn where
  "ANALYSIS_TIMEOUT = \<lparr>ex_class = ''TimeoutError'', ex_text = ''DHCP analysis step timeout expired''\<rparr>"

definition HANGUP_EXCEPTION :: exn where
  "HANGUP_EXCEPTION = \<lparr>ex_class = ''Exception'', ex_text = ''tcpdump pcap hangup''\<rparr>"

definition set_host :: "(host \<Rightarrow> host) \<Rightarrow> unit host_op" where
  "set_host f = modify_op (\<lambda>s. s\<lparr>hr_host := f (hr_host s)\<rparr>)"

definition read_host :: "(host \<Rightarrow> 'a host_op) \<Rightarrow> 'a host_op" where
  "read_host f = read_op (\<lambda>s. f (hr_host s))"

definition request :: "host_request \<Rightarrow> unit host_op" where
  "request rq = modify_op (\<lambda>s. s\<lparr>hr_out := hr_out s @ [rq]\<rparr>)"

definition on_gateway :: "(gateway \<Rightarrow> 'a result \<times> gateway) \<Rightarrow> 'a host_op" where
  "on_gateway f = (\<lambda>s. case f (hr_gateway s) of (r, g) \<Rightarrow> (r, s\<lparr>hr_gateway := g\<rparr>))"

subsection \<open>Configuration of the tests\<close>

definition get_test_config :: "vdict \<Rightarrow> string option \<Rightarrow> val option result" where
  "get_test_config config test =
     bind_result (dict_index config ''modules'')
       (\<lambda>ms. case ms of
          Dict m \<Rightarrow> Inr (case test of None \<Rightarrow> None | Some t \<Rightarrow> dict_get m t)
        | _ \<Rightarrow> Inl AttributeError)"

definition config_entry :: "val option \<Rightarrow> string \<Rightarrow> val option result" where
  \<comment> \<open>\<open>m.get(key)\<close> for a module configuration that may be missing or false\<close>
  "config_entry m key =
     (case m of
        None \<Rightarrow> Inr None
      | Some (Dict d) \<Rightarrow> Inr (dict_get d key)
      | Some v \<Rightarrow> if truth v then Inl AttributeError else Inr None)"

definition test_enabled :: "vdict \<Rightarrow> string \<Rightarrow> bool result" where
  "test_enabled config test =
     bind_result (get_test_config config (Some test))
       (\<lambda>m. bind_result (config_entry m ''enabled'') (\<lambda>v. Inr (case v of None \<Rightarrow> False | Some x \<Rightarrow> truth x)))"

definition default_timeout :: "host_env \<Rightarrow> int option" where
  "default_timeout V = (if hv_default_timeout V = 0 then None else Some (hv_default_timeout V))"

definition get_test_timeout :: "host_env \<Rightarrow> vdict \<Rightarrow> string option \<Rightarrow> int option result" where
  "get_test_timeout V config test =
     (if test = Some ''hold'' then Inr None
      else bind_result (get_test_config config test)
        (\<lambda>m. case m of
           None \<Rightarrow> Inr (default_timeout V)
         | Some v \<Rightarrow>
             if \<not> truth v then Inr (default_timeout V)
             else bind_result (config_entry m ''timeout_sec'')
               (\<lambda>e. case e of None \<Rightarrow> Inr (default_timeout V) | Some Nil_val \<Rightarrow> Inr None | Some (Num n) \<Rightarrow> Inr (Some n) | _ \<Rightarrow> Inl TypeError)))"

definition get_port_flap_timeout :: "vdict \<Rightarrow> string option \<Rightarrow> int option result" where
  "get_port_flap_timeout config test =
     bind_result (get_test_config config test)
       (\<lambda>m. bind_result (config_entry m ''port_flap_timeout_sec'')
          (\<lambda>e. case e of Some (Num n) \<Rightarrow> Inr (Some n) | None \<Rightarrow> Inr None | Some Nil_val \<Rightarrow> Inr None | _ \<Rightarrow> Inl TypeError))"

fun filter_enabled :: "vdict \<Rightarrow> string list \<Rightarrow> string list result" where
  "filter_enabled config [] = Inr []"
| "filter_enabled config (t # ts) =
     bind_result (test_enabled config t)
       (\<lambda>b. bind_result (filter_enabled config ts) (\<lambda>r. Inr (if b then t # r else r)))"

definition get_enabled_tests :: "host_env \<Rightarrow> vdict \<Rightarrow> string list result" where
  "get_enabled_tests V config = filter_enabled config (hv_test_list V)"

definition get_static_ip :: "vdict \<Rightarrow> string option" where
  "get_static_ip config = (case dict_get config ''static_ip'' of Some (Str (c # cs)) \<Rightarrow> Some (c # cs) | _ \<Rightarrow> None)"

definition dhcp_mode_value :: "string \<Rightarrow> dhcp_mode result" where
  \<comment> \<open>\<open>DhcpMode.Value\<close>\<close>
  "dhcp_mode_value s =
     (if s = ''NORMAL'' then Inr NORMAL else if s = ''STATIC_IP'' then Inr STATIC_IP else if s = ''EXTERNAL'' then Inr EXTERNAL
      else if s = ''LONG_RESPONSE'' then Inr LONG_RESPONSE else if s = ''IP_CHANGE'' then Inr IP_CHANGE else Inl ValueError)"

definition get_dhcp_mode :: "vdict \<Rightarrow> dhcp_mode result" where
  "get_dhcp_mode config =
     bind_result (get_test_config config (Some ''ipaddr''))
       (\<lambda>m. case m of
          None \<Rightarrow> Inr NORMAL
        | Some (Dict d) \<Rightarrow>
            (case dict_get d ''dhcp_mode'' of None \<Rightarrow> Inr NORMAL | Some (Str v) \<Rightarrow> dhcp_mode_value v | Some _ \<Rightarrow> Inl ValueError)
        | Some _ \<Rightarrow> Inl AttributeError)"

subsection \<open>Results and states\<close>

definition host_state_transition :: "host_state \<Rightarrow> host_state option \<Rightarrow> unit host_op" where
  "host_state_transition new_state expected =
     read_host (\<lambda>h.
       then_op (case expected of None \<Rightarrow> ret_op () | Some st \<Rightarrow> assert_op (hs_state h = st))
      (then_op (assert_op (hs_state h \<noteq> TERMINATED))
        (set_host (\<lambda>h. h\<lparr>hs_state := new_state\<rparr>))))"

text \<open>The arguments of \<open>record_result\<close> the code reads back: a return code and an exception.\<close>

record result_args =
  ra_code :: "int option option"
  ra_exception :: "exn option"

definition no_args :: result_args where
  "no_args = \<lparr>ra_code = None, ra_exception = None\<rparr>"

definition error_args :: "exn \<Rightarrow> result_args" where
  "error_args e = \<lparr>ra_code = None, ra_exception = Some e\<rparr>"

definition exception_message :: "exn option \<Rightarrow> string option" where
  "exception_message e = map_option ex_class e"

definition record_named_result :: "string option \<Rightarrow> result_args \<Rightarrow> unit host_op" where
  \<comment> \<open>\<open>_record_result\<close>; publishing the message is not modelled\<close>
  "record_named_result name args =
     (case name of
        None \<Rightarrow> ret_op ()
      | Some [] \<Rightarrow> ret_op ()
      | Some (c # cs) \<Rightarrow>
          set_host (\<lambda>h. h\<lparr>hs_results :=
            dict_set (c # cs) \<lparr>tr_name = Some (c # cs), tr_code = (case ra_code args of None \<Rightarrow> None | Some v \<Rightarrow> v),
                               tr_exception = exception_message (ra_exception args)\<rparr> (hs_results h)\<rparr>))"

definition on_report :: "string \<Rightarrow> result_items \<Rightarrow> unit host_op" where
  \<comment> \<open>\<open>self._report.accumulate(...)\<close>\<close>
  "on_report name items =
     read_host (\<lambda>h. case hs_report h of
        None \<Rightarrow> raise_op AttributeError
      | Some r \<Rightarrow> set_host (\<lambda>h. h\<lparr>hs_report := Some (report_accumulate name items r)\<rparr>))"

definition record_result :: "host_env \<Rightarrow> string option \<Rightarrow> result_args \<Rightarrow> unit host_op" where
  "record_result V name args =
     then_op (read_host (\<lambda>h. if name \<noteq> hs_test_name h
                then set_host (\<lambda>h. h\<lparr>hs_test_name := name, hs_test_start := hv_now V\<rparr>) else ret_op ()))
       (case name of
          None \<Rightarrow> ret_op ()
        | Some [] \<Rightarrow> ret_op ()
        | Some (c # cs) \<Rightarrow>
            then_op (record_named_result name args)
           (then_op (case ra_exception args of None \<Rightarrow> ret_op () | Some e \<Rightarrow> on_report (c # cs) [(EXCEPTION, Str (ex_text e))])
           (then_op (case ra_code args of
                       None \<Rightarrow> ret_op ()
                     | Some v \<Rightarrow> on_report (c # cs) [(RETURN_CODE, case v of None \<Rightarrow> Nil_val | Some n \<Rightarrow> Num n)])
             (read_host (\<lambda>h. on_report (c # cs) [(MODULE_CONFIG, Dict (hs_config h))])))))"

abbreviation record_state :: "host_env \<Rightarrow> string \<Rightarrow> unit host_op" where
  \<comment> \<open>\<open>self.record_result(name, state=...)\<close>\<close>
  "record_state V name \<equiv> record_result V (Some name) no_args"

subsection \<open>Packet captures\<close>

definition monitor_scan :: "host_env \<Rightarrow> int option \<Rightarrow> unit host_op" where
  "monitor_scan V timeout =
     read_host (\<lambda>h.
       then_op (assert_op (hs_monitor h = None))
      (then_op (lift_op (hv_pcap V))
      (then_op (set_host (\<lambda>h. h\<lparr>hs_monitor := Some \<lparr>pm_timeout = timeout, pm_open = True\<rparr>, hs_monitor_start := hv_now V\<rparr>))
        (lift_op (hv_watch V)))))"

definition monitor_cleanup :: "host_env \<Rightarrow> bool \<Rightarrow> unit host_op" where
  "monitor_cleanup V forget =
     read_host (\<lambda>h. case hs_monitor h of
        None \<Rightarrow> ret_op ()
      | Some m \<Rightarrow>
          then_op (assert_op (pm_open m = forget))
         (then_op (lift_op (hv_upload V))
         (then_op (if forget then lift_op (hv_pcap_stop V) else ret_op ())
           (set_host (\<lambda>h. h\<lparr>hs_monitor := None\<rparr>)))))"

definition monitor_error :: "host_env \<Rightarrow> exn \<Rightarrow> bool \<Rightarrow> unit host_op" where
  "monitor_error V e forget =
     then_op (monitor_cleanup V forget)
    (then_op (read_host (\<lambda>h. record_result V (hs_test_name h) (error_args e)))
    (then_op (host_state_transition ERROR None)
      (request (ReportError e))))"

definition startup_scan :: "host_env \<Rightarrow> unit host_op" where
  "startup_scan V =
     then_op (set_host (\<lambda>h. h\<lparr>hs_startup_time := Some (hv_now V)\<rparr>)) (monitor_scan V None)"

definition mark_skipped_tests :: "host_env \<Rightarrow> unit host_op" where
  "mark_skipped_tests V =
     for_op (hv_test_list V)
       (\<lambda>test. read_host (\<lambda>h. bind_op (lift_op (test_enabled (hs_config h) test))
          (\<lambda>enabled. if enabled then ret_op () else record_named_result (Some test) no_args)))"

definition start_run :: "host_env \<Rightarrow> unit host_op" where
  "start_run V =
     then_op (host_state_transition INIT (Some READY))
    (then_op (mark_skipped_tests V)
    (then_op (record_state V ''startup'')
    (then_op (record_state V ''sanity'')
      (startup_scan V))))"

subsection \<open>Test modules\<close>

definition the_module :: "host \<Rightarrow> nat \<Rightarrow> test_module" where
  "the_module h m = hs_modules h ! m"

definition set_module :: "nat \<Rightarrow> (test_module \<Rightarrow> test_module) \<Rightarrow> unit host_op" where
  "set_module m f = set_host (\<lambda>h. h\<lparr>hs_modules := (hs_modules h)[m := f (hs_modules h ! m)]\<rparr>)"

definition external_of :: "test_module \<Rightarrow> external_module" where
  \<comment> \<open>the module itself, or the one that analyses the addresses\<close>
  "external_of tm = (case tm of External x \<Rightarrow> x | IpAddr a \<Rightarrow> ia_docker a)"

definition set_external :: "nat \<Rightarrow> (external_module \<Rightarrow> external_module) \<Rightarrow> unit host_op" where
  "set_external m f = set_module m (\<lambda>tm. case tm of External x \<Rightarrow> External (f x) | IpAddr a \<Rightarrow> IpAddr (a\<lparr>ia_docker := f (ia_docker a)\<rparr>))"

definition set_ipaddr :: "nat \<Rightarrow> (ipaddr_module \<Rightarrow> ipaddr_module) \<Rightarrow> unit host_op" where
  "set_ipaddr m f = set_module m (\<lambda>tm. case tm of External x \<Rightarrow> External x | IpAddr a \<Rightarrow> IpAddr (f a))"

definition pad2 :: "int \<Rightarrow> string" where
  \<comment> \<open>\<open>'%02d' % n\<close>\<close>
  "pad2 n = (if length (show_int n) < 2 then CHR ''0'' # show_int n else show_int n)"

definition module_host_name :: "device \<Rightarrow> string \<Rightarrow> string result" where
  \<comment> \<open>in \<open>HostModule.__init__\<close>\<close>
  "module_host_name dv test =
     (case dv_set_id dv of
        None \<Rightarrow> Inl TypeError
      | Some n \<Rightarrow> if length (test @ pad2 n) \<le> 10 then Inr (test @ pad2 n) else Inl AssertionError)"

definition new_external :: "string \<Rightarrow> external_module" where
  "new_external test = \<lparr>em_test = test, em_host = False, em_pipe = False, em_log = False, em_started = False\<rparr>"

definition new_ipaddr :: "host_env \<Rightarrow> vdict \<Rightarrow> string \<Rightarrow> ipaddr_module result" where
  "new_ipaddr V config test =
     bind_result (get_test_config config (Some test))
       (\<lambda>m. case m of
          Some (Dict d) \<Rightarrow>
            bind_result (hv_lease_time V)
              (\<lambda>lease. Inr \<lparr>ia_docker = new_external test,
                 ia_ranges = (case dict_get d ''dhcp_ranges'' of Some (Seq xs) \<Rightarrow> xs | _ \<Rightarrow> []),
                 ia_callback = None, ia_tests = [PortToggle, MultiSubnet, IpChange, DhcpChange, Analyze],
                 ia_force_terminated = False, ia_lease = lease, ia_timeout = None\<rparr>)
        | _ \<Rightarrow> Inl AttributeError)"

definition new_test :: "host_env \<Rightarrow> device \<Rightarrow> string \<Rightarrow> nat host_op" where
  "new_test V dv test =
     read_host (\<lambda>h.
       bind_op (lift_op
         (if hv_native V test
          then bind_result (hv_native_root V) (\<lambda>_. bind_result (module_host_name dv test) (\<lambda>_. Inr (External (new_external test))))
          else if test = ''ipaddr''
          then bind_result (module_host_name dv test) (\<lambda>_. bind_result (new_ipaddr V (hs_config h) test) (\<lambda>a. Inr (IpAddr a)))
          else bind_result (module_host_name dv test) (\<lambda>_. Inr (External (new_external test)))))
       (\<lambda>tm. then_op (set_host (\<lambda>h. h\<lparr>hs_modules := hs_modules h @ [tm]\<rparr>)) (ret_op (length (hs_modules h)))))"

definition induced :: "host_env \<Rightarrow> host \<Rightarrow> string \<Rightarrow> string \<Rightarrow> bool" where
  \<comment> \<open>\<open>_should_raise_test_exception\<close>\<close>
  "induced V h test trigger = (hv_induced V test (replace_char CHR '':'' [] (hs_mac h)) = Some trigger)"

definition external_start :: "host_env \<Rightarrow> nat \<Rightarrow> unit host_op" where
  "external_start V m =
     then_op (set_external m (\<lambda>x. x\<lparr>em_started := True\<rparr>))
       (read_host (\<lambda>h. let test = em_test (external_of (the_module h m)) in
          then_op (lift_op (hv_module_class V test))
         (then_op (lift_op (case hv_add_host V test of Inl _ \<Rightarrow> Inl GenericException | Inr u \<Rightarrow> Inr u))
         (then_op (set_external m (\<lambda>x. x\<lparr>em_host := True\<rparr>))
           (try_op
             (then_op (lift_op (hv_activate V test))
             (then_op (set_external m (\<lambda>x. x\<lparr>em_log := True\<rparr>))
             (then_op (if induced V h test ''initialize'' then raise_op GenericException else ret_op ())
             (then_op (lift_op (hv_watch V))
               (set_external m (\<lambda>x. x\<lparr>em_pipe := True\<rparr>))))))
             (\<lambda>e. then_op (bind_op (lift_op (hv_stop_host V test)) (\<lambda>_. ret_op ()))
                 (then_op (lift_op (hv_remove_host V))
                 (then_op (set_external m (\<lambda>x. x\<lparr>em_host := False, em_pipe := False\<rparr>))
                   (raise_op e)))))))))"

definition external_finalize :: "host_env \<Rightarrow> nat \<Rightarrow> int option host_op" where
  "external_finalize V m =
     read_host (\<lambda>h. let x = external_of (the_module h m) in
       then_op (assert_op (em_host x))
      (then_op (lift_op (hv_remove_host V))
      (then_op (set_external m (\<lambda>x. x\<lparr>em_pipe := False\<rparr>))
      (bind_op (lift_op (hv_stop_host V (em_test x)))
        (\<lambda>return_code.
           then_op (set_external m (\<lambda>x. x\<lparr>em_host := False\<rparr>))
          (then_op (if em_log x then ret_op () else raise_op AttributeError)
          (then_op (set_external m (\<lambda>x. x\<lparr>em_log := False\<rparr>))
          (then_op (if induced V h (em_test x) ''finalize'' then raise_op GenericException else ret_op ())
            (ret_op (if em_test x \<noteq> ''fail'' then return_code
                     else Some (if return_code = None \<or> return_code = Some 0 then 1 else 0)))))))))))"

definition module_start :: "host_env \<Rightarrow> device \<Rightarrow> nat \<Rightarrow> unit host_op" where
  \<comment> \<open>\<open>self.test_host.start(...)\<close>\<close>
  "module_start V dv m =
     read_host (\<lambda>h. case the_module h m of
        External _ \<Rightarrow> external_start V m
      | IpAddr _ \<Rightarrow>
          then_op (assert_op (dv_dhcp_mode dv \<noteq> Some EXTERNAL))
            (set_ipaddr m (\<lambda>a. a\<lparr>ia_callback := Some CallNextTest\<rparr>)))"

subsection \<open>The sequence of the tests\<close>

definition start_test :: "host_env \<Rightarrow> string \<Rightarrow> unit host_op" where
  "start_test V test_name =
     then_op (set_host (\<lambda>h. h\<lparr>hs_test_name := Some test_name, hs_test_start := hv_now V\<rparr>))
    (then_op (lift_op (hv_write_config V))
    (then_op (record_named_result (Some test_name) no_args)
    (then_op (record_state V test_name)
    (then_op (monitor_scan V None)
      (host_state_transition TESTING (Some NEXT))))))"

definition release_port :: "unit host_op" where
  \<comment> \<open>\<open>self.gateway.release_test_port(self.test_port)\<close>\<close>
  "release_port =
     read_host (\<lambda>h. case hs_test_port h of None \<Rightarrow> raise_op AssertionError | Some p \<Rightarrow> on_gateway (release_test_port p))"

definition run_test :: "host_env \<Rightarrow> device \<Rightarrow> string \<Rightarrow> unit host_op" where
  "run_test V dv test_name =
     then_op (set_host (\<lambda>h. h\<lparr>hs_timeout_handler := Some MainTimeout\<rparr>))
    (bind_op (new_test V dv test_name)
      (\<lambda>m. then_op (set_host (\<lambda>h. h\<lparr>hs_test_host := Some m\<rparr>))
        (then_op
          (try_op (bind_op (on_gateway allocate_test_port) (\<lambda>p. set_host (\<lambda>h. h\<lparr>hs_test_port := Some p\<rparr>)))
             (\<lambda>e. then_op (set_host (\<lambda>h. h\<lparr>hs_test_host := None\<rparr>)) (raise_op e)))
          (try_op
             (then_op (start_test V test_name) (then_op (lift_op (hv_params V)) (module_start V dv m)))
             (\<lambda>e. then_op (set_host (\<lambda>h. h\<lparr>hs_test_host := None\<rparr>))
                 (then_op release_port
                 (then_op (set_host (\<lambda>h. h\<lparr>hs_test_port := None\<rparr>))
                 (then_op (monitor_cleanup V True)
                   (raise_op e)))))))))"

definition run_next_test :: "host_env \<Rightarrow> device \<Rightarrow> unit host_op" where
  "run_next_test V dv =
     read_host (\<lambda>h.
       then_op (assert_op (hs_test_name h = None \<or> hs_test_name h = Some []))
         (try_op
           (case hs_remaining_tests h of
              t # ts \<Rightarrow> then_op (set_host (\<lambda>h. h\<lparr>hs_remaining_tests := ts\<rparr>)) (run_test V dv t)
            | [] \<Rightarrow>
                if hv_no_test V then host_state_transition HOLD (Some NEXT)
                else then_op (set_host (\<lambda>h. h\<lparr>hs_timeout_handler := Some AuxTimeout\<rparr>))
                       (then_op (host_state_transition DONE (Some NEXT)) (record_state V ''finish'')))
           (\<lambda>e. then_op (host_state_transition ERROR None) (request (ReportError (hv_exn V e))))))"

definition report_file :: "host_env \<Rightarrow> result_type \<Rightarrow> unit host_op" where
  \<comment> \<open>the body of the loop in \<open>_end_test\<close>\<close>
  "report_file V t =
     (if hv_is_file V t
      then then_op (read_host (\<lambda>h. on_report (case hs_test_name h of None \<Rightarrow> [] | Some n \<Rightarrow> n) [(t, Str (hv_path V t))])) (lift_op (hv_upload V))
      else ret_op ())"

definition end_test :: "host_env \<Rightarrow> device \<Rightarrow> int option \<Rightarrow> exn option \<Rightarrow> unit host_op" where
  "end_test V dv return_code e =
     then_op (monitor_cleanup V True)
    (then_op (host_state_transition NEXT (Some TESTING))
    (then_op (for_op [REPORT_PATH, ACTIVATION_LOG_PATH, MODULE_CONFIG_PATH] (report_file V))
    (then_op (read_host (\<lambda>h. record_result V (hs_test_name h) \<lparr>ra_code = Some return_code, ra_exception = e\<rparr>))
    (then_op (set_host (\<lambda>h. h\<lparr>hs_test_name := None, hs_test_host := None, hs_timeout_handler := None\<rparr>))
      (run_next_test V dv)))))"

definition module_callback :: "host_env \<Rightarrow> device \<Rightarrow> int option \<Rightarrow> exn option \<Rightarrow> unit host_op" where
  "module_callback V dv return_code e =
     then_op release_port
    (then_op (read_host (\<lambda>h. assert_op (hs_test_host h \<noteq> None)))
      (end_test V dv return_code e))"

subsection \<open>Running modules\<close>

definition module_done :: "host_env \<Rightarrow> device \<Rightarrow> nat \<Rightarrow> int option \<Rightarrow> exn option \<Rightarrow> unit host_op" where
  \<comment> \<open>the callback of an external module; for the analysis of addresses, \<open>IpAddrModule._finalize\<close>\<close>
  "module_done V dv m return_code e =
     read_host (\<lambda>h. case the_module h m of
        External _ \<Rightarrow> module_callback V dv return_code e
      | IpAddr a \<Rightarrow>
          then_op (set_ipaddr m (\<lambda>a. a\<lparr>ia_callback := None\<rparr>))
            (if ia_force_terminated a then ret_op () else module_callback V dv return_code e))"

definition external_complete :: "host_env \<Rightarrow> device \<Rightarrow> nat \<Rightarrow> unit host_op" where
  "external_complete V dv m =
     bind_op
       (try_op
         (read_host (\<lambda>h.
            then_op (assert_op (em_pipe (external_of (the_module h m))))
           (then_op (set_external m (\<lambda>x. x\<lparr>em_pipe := False\<rparr>))
           (bind_op (external_finalize V m) (\<lambda>return_code. ret_op (return_code, None))))))
         (\<lambda>e. ret_op (Some (- 1), Some (hv_exn V e))))
       (\<lambda>(return_code, e). module_done V dv m return_code e)"

definition external_error :: "host_env \<Rightarrow> device \<Rightarrow> nat \<Rightarrow> exn \<Rightarrow> unit host_op" where
  "external_error V dv m e =
     bind_op (external_finalize V m)
       (\<lambda>return_code. if return_code = None then ret_op () else module_done V dv m None (Some e))"

definition set_module_timeout :: "host_env \<Rightarrow> nat \<Rightarrow> unit host_op" where
  \<comment> \<open>\<open>_set_timeout\<close>\<close>
  "set_module_timeout V m =
     set_ipaddr m (\<lambda>a. case ia_lease a of
        None \<Rightarrow> a
      | Some n \<Rightarrow> if n = 0 then a else a\<lparr>ia_timeout := Some (hv_now V + n)\<rparr>)"

definition ip_test_step :: "host_env \<Rightarrow> device \<Rightarrow> nat \<Rightarrow> unit host_op \<Rightarrow> ip_test \<Rightarrow> unit host_op" where
  \<comment> \<open>\<open>func()\<close>; \<open>next\<close> is \<open>_next_test\<close>\<close>
  "ip_test_step V dv m next t =
     then_op (set_module_timeout V m)
       (case t of
          PortToggle \<Rightarrow>
            bind_op (lift_op (hv_connect_port V False))
              (\<lambda>ok. if \<not> ok then ret_op ()
                 else bind_op (lift_op (hv_connect_port V True)) (\<lambda>_. set_ipaddr m (\<lambda>a. a\<lparr>ia_callback := Some CallNextTest\<rparr>)))
        | MultiSubnet \<Rightarrow>
            read_host (\<lambda>h. case the_module h m of
               External _ \<Rightarrow> raise_op AttributeError
             | IpAddr a \<Rightarrow>
                 (case ia_ranges a of
                    [] \<Rightarrow> next
                  | r # rs \<Rightarrow>
                      then_op (set_ipaddr m (\<lambda>a. a\<lparr>ia_ranges := rs\<rparr>))
                     (then_op (lift_op (hv_change_range V r))
                       (set_ipaddr m (\<lambda>a. a\<lparr>ia_callback := Some (if rs = [] then CallNextTest else CallMultiSubnet)\<rparr>)))))
        | IpChange \<Rightarrow>
            then_op (lift_op (hv_request_ip V)) (set_ipaddr m (\<lambda>a. a\<lparr>ia_callback := Some CallNextTest\<rparr>))
        | DhcpChange \<Rightarrow>
            bind_op (lift_op (hv_connect_port V False))
              (\<lambda>ok. if \<not> ok then ret_op ()
                 else then_op (lift_op (hv_request_ip V))
                   (bind_op (lift_op (hv_connect_port V True)) (\<lambda>_. set_ipaddr m (\<lambda>a. a\<lparr>ia_callback := Some CallNextTest\<rparr>))))
        | Analyze \<Rightarrow> then_op (set_ipaddr m (\<lambda>a. a\<lparr>ia_callback := None\<rparr>)) (external_start V m))"

text \<open>
  The test of the subnets goes on with the next test when there are no subnets, so \<open>_next_test\<close> calls
  itself; each call takes a test from the list, and taking one from an empty list raises, so the number
  of tests bounds the depth.
\<close>

primrec next_test_n :: "host_env \<Rightarrow> device \<Rightarrow> nat \<Rightarrow> nat \<Rightarrow> unit host_op" where
  "next_test_n V dv m 0 = raise_op RuntimeError"
| "next_test_n V dv m (Suc n) =
     try_op
       (then_op (set_ipaddr m (\<lambda>a. a\<lparr>ia_timeout := None\<rparr>))
         (read_host (\<lambda>h. case the_module h m of
            External _ \<Rightarrow> raise_op AttributeError
          | IpAddr a \<Rightarrow>
              (case ia_tests a of
                 [] \<Rightarrow> raise_op IndexError
               | t # ts \<Rightarrow> then_op (set_ipaddr m (\<lambda>a. a\<lparr>ia_tests := ts\<rparr>)) (ip_test_step V dv m (next_test_n V dv m n) t)))))
       (\<lambda>e. module_done V dv m None (Some (hv_exn V e)))"

definition next_test :: "host_env \<Rightarrow> device \<Rightarrow> nat \<Rightarrow> unit host_op" where
  "next_test V dv m =
     read_host (\<lambda>h. next_test_n V dv m (case the_module h m of External _ \<Rightarrow> 1 | IpAddr a \<Rightarrow> Suc (length (ia_tests a))))"

definition module_ip_listener :: "host_env \<Rightarrow> device \<Rightarrow> nat \<Rightarrow> string option \<Rightarrow> unit host_op" where
  "module_ip_listener V dv m state =
     read_host (\<lambda>h. case the_module h m of
        External _ \<Rightarrow> ret_op ()
      | IpAddr a \<Rightarrow>
          if state \<noteq> Some ''done'' then ret_op ()
          else bind_op (lift_op (hv_ping V 0))
            (\<lambda>_. case ia_callback a of
               None \<Rightarrow> ret_op ()
             | Some CallNextTest \<Rightarrow> next_test V dv m
             | Some CallMultiSubnet \<Rightarrow> ip_test_step V dv m (next_test V dv m) MultiSubnet))"

definition module_terminate :: "host_env \<Rightarrow> nat \<Rightarrow> unit host_op" where
  \<comment> \<open>\<open>test_host.terminate()\<close>; a terminated \<open>ipaddr\<close> module calls nobody back\<close>
  "module_terminate V m =
     read_host (\<lambda>h. case the_module h m of
        External _ \<Rightarrow> bind_op (external_finalize V m) (\<lambda>_. ret_op ())
      | IpAddr a \<Rightarrow>
          then_op (set_ipaddr m (\<lambda>a. a\<lparr>ia_force_terminated := True\<rparr>))
         (then_op (if em_started (ia_docker a) then bind_op (external_finalize V m) (\<lambda>_. ret_op ()) else ret_op ())
           (set_ipaddr m (\<lambda>a. a\<lparr>ia_callback := None\<rparr>))))"

definition module_heartbeat_op :: "host_env \<Rightarrow> device \<Rightarrow> nat \<Rightarrow> unit host_op" where
  "module_heartbeat_op V dv m =
     read_host (\<lambda>h. case the_module h m of
        External _ \<Rightarrow> ret_op ()
      | IpAddr a \<Rightarrow>
          (case ia_timeout a of
             None \<Rightarrow> ret_op ()
           | Some t \<Rightarrow>
               if hv_now V < t then ret_op ()
               else if em_started (ia_docker a)
               then then_op (module_terminate V m) (module_callback V dv None (Some ANALYSIS_TIMEOUT))
               else then_op (set_ipaddr m (\<lambda>a. a\<lparr>ia_tests := drop (length (ia_tests a) - 1) (ia_tests a)\<rparr>)) (next_test V dv m)))"

subsection \<open>The baseline\<close>

definition ping_test :: "host_env \<Rightarrow> nat \<Rightarrow> bool host_op" where
  "ping_test V k =
     read_host (\<lambda>h. case hs_target_ip h of
        None \<Rightarrow> ret_op False
      | Some ip \<Rightarrow> if ip = [] then ret_op False else lift_op (hv_ping V k))"

definition pair_truth :: "bool \<times> string \<Rightarrow> bool" where
  \<comment> \<open>the truth of the pair \<open>self._ping_test(...), 'simple ping failed'\<close>: a tuple that is not empty\<close>
  "pair_truth p = True"

definition base_tests :: "host_env \<Rightarrow> bool host_op" where
  "base_tests V =
     then_op (record_state V ''base'')
    (bind_op (ping_test V 0) (\<lambda>_.
      bind_op
        (try_op
          (bind_op (ping_test V 1) (\<lambda>p1. bind_op (ping_test V 2) (\<lambda>p2.
             ret_op (pair_truth (p1, ''simple ping failed'') \<and> pair_truth (p2, ''target ping failed'')))))
          (\<lambda>e. then_op (record_result V (Some ''base'') (error_args (hv_exn V e)))
              (then_op (monitor_cleanup V True) (raise_op e))))
        (\<lambda>ok. if \<not> ok then ret_op False else then_op (record_state V ''base'') (ret_op True))))"

definition monitor_continue :: "host_env \<Rightarrow> device \<Rightarrow> unit host_op" where
  "monitor_continue V dv =
     then_op (host_state_transition NEXT (Some MONITOR))
    (then_op (set_host (\<lambda>h. h\<lparr>hs_test_name := None\<rparr>))
      (run_next_test V dv))"

definition background_scan :: "host_env \<Rightarrow> device \<Rightarrow> unit host_op" where
  "background_scan V dv =
     then_op (host_state_transition MONITOR (Some BASE))
       (if hv_monitor_scan_sec V = 0 then monitor_continue V dv
        else then_op (record_state V ''monitor'') (monitor_scan V (Some (hv_monitor_scan_sec V))))"

definition base_start :: "host_env \<Rightarrow> device \<Rightarrow> unit host_op" where
  "base_start V dv =
     try_op
       (bind_op (base_tests V)
         (\<lambda>success. then_op (monitor_cleanup V True)
            (if \<not> success then host_state_transition ERROR None else background_scan V dv)))
       (\<lambda>e. then_op (monitor_cleanup V True) (monitor_error V (hv_exn V e) False))"

definition monitor_complete :: "host_env \<Rightarrow> device \<Rightarrow> unit host_op" where
  "monitor_complete V dv =
     then_op (monitor_cleanup V False) (then_op (record_state V ''monitor'') (monitor_continue V dv))"

definition monitor_timeout :: "host_env \<Rightarrow> device \<Rightarrow> int option \<Rightarrow> unit host_op" where
  "monitor_timeout V dv timeout =
     read_host (\<lambda>h. case timeout of
        None \<Rightarrow> monitor_error V HANGUP_EXCEPTION False
      | Some n \<Rightarrow>
          if n = 0 \<or> hv_now V - hs_monitor_start h < n then monitor_error V HANGUP_EXCEPTION False
          else monitor_complete V dv)"

subsection \<open>Waiting for an address\<close>

definition prepare :: "host_env \<Rightarrow> device \<Rightarrow> unit host_op" where
  "prepare V dv =
     then_op (host_state_transition WAITING (Some INIT))
    (then_op (record_state V ''sanity'')
    (then_op (record_state V ''acquire'')
    (then_op
      (read_host (\<lambda>h. case get_static_ip (hs_config h) of
         Some ip \<Rightarrow> then_op (request (SetDhcpMode STATIC_IP)) (request (NotifyStatic ip))
       | None \<Rightarrow>
           bind_op
             (if dv_dhcp_mode dv = None \<or> dv_dhcp_mode dv = Some NORMAL
              then bind_op (lift_op (get_dhcp_mode (hs_config h))) (\<lambda>mode. then_op (request (SetDhcpMode mode)) (ret_op mode))
              else ret_op (the (dv_dhcp_mode dv)))
             (\<lambda>mode. if mode = EXTERNAL then set_host (\<lambda>h. h\<lparr>hs_timeout_handler := Some ExternalDhcpTimeout\<rparr>)
                     else lift_op (hv_dhcp_response V))))
      (request DhcpReady))))"

definition idle_handler :: "host_env \<Rightarrow> device \<Rightarrow> unit host_op" where
  "idle_handler V dv =
     read_host (\<lambda>h. if hs_state h = INIT then prepare V dv else if hs_state h = BASE then base_start V dv else ret_op ())"

definition host_ip_notify :: "host_env \<Rightarrow> device \<Rightarrow> string \<Rightarrow> string option \<Rightarrow> unit host_op" where
  \<comment> \<open>\<open>hv_trigger_file\<close>: writing to \<open>ip_triggers.txt\<close>\<close>
  "host_ip_notify V dv target_ip state =
     then_op (lift_op (hv_trigger_file V))
    (then_op (set_host (\<lambda>h. h\<lparr>hs_all_ips := hs_all_ips h @ [target_ip]\<rparr>))
    (then_op (set_host (\<lambda>h. if hs_target_ip h \<in> {None, Some []} then h else h\<lparr>hs_target_ip := Some target_ip\<rparr>))
      (read_host (\<lambda>h. case hs_test_host h of None \<Rightarrow> ret_op () | Some m \<Rightarrow> module_ip_listener V dv m state))))"

definition trigger_ready :: "host \<Rightarrow> bool result" where
  "trigger_ready h =
     (if hs_state h \<noteq> WAITING then Inr False
      else if hs_startup_time h = None then Inl TypeError
      else bind_result (get_dhcp_mode (hs_config h))
        (\<lambda>mode. Inr (if mode = IP_CHANGE then 1 < length (remdups (hs_all_ips h)) else True)))"

definition trigger :: "host_env \<Rightarrow> string option \<Rightarrow> bool host_op" where
  \<comment> \<open>the runner never passes an exception\<close>
  "trigger V target_ip =
     read_host (\<lambda>h.
       bind_op (if hs_target_ip h \<in> {None, Some []} then lift_op (trigger_ready h) else ret_op True)
         (\<lambda>ready. if \<not> ready then ret_op False
            else if hs_target_ip h \<notin> {None, Some []} then then_op (assert_op (hs_target_ip h = target_ip)) (ret_op True)
            else then_op (set_host (\<lambda>h. h\<lparr>hs_target_ip := target_ip\<rparr>))
                (then_op (record_named_result (Some ''info'') no_args)
                (then_op (record_state V ''acquire'')
                (then_op (host_state_transition BASE (Some WAITING)) (ret_op True))))))"

definition notify_activate :: "bool host_op" where
  "notify_activate =
     then_op (read_host (\<lambda>h. if hs_state h = READY then record_named_result (Some ''startup'') no_args else ret_op ()))
       (get_op (\<lambda>s. hs_state (hr_host s) = WAITING))"

subsection \<open>Timeouts\<close>

definition aux_module_timeout_handler :: "host_env \<Rightarrow> unit host_op" where
  "aux_module_timeout_handler V = monitor_error V TIMEOUT_EXCEPTION True"

definition main_module_timeout_handler :: "host_env \<Rightarrow> device \<Rightarrow> unit host_op" where
  "main_module_timeout_handler V dv =
     read_host (\<lambda>h. case hs_test_host h of
        None \<Rightarrow> raise_op AttributeError
      | Some m \<Rightarrow> then_op (module_terminate V m) (module_callback V dv None (Some TIMEOUT_EXCEPTION)))"

definition discovered :: "host_env \<Rightarrow> string option \<Rightarrow> unit host_op" where
  \<comment> \<open>the inner function \<open>callback\<close>\<close>
  "discovered V device_ip =
     (case device_ip of
        None \<Rightarrow> aux_module_timeout_handler V
      | Some ip \<Rightarrow> read_host (\<lambda>h. if hs_state h \<noteq> WAITING then ret_op () else request (NotifyStatic ip)))"

definition external_dhcp_timeout_handler :: "host_env \<Rightarrow> unit host_op" where
  \<comment> \<open>without subnets the search ends at once; otherwise its end is an event\<close>
  "external_dhcp_timeout_handler V = (if hv_external_subnets V then ret_op () else discovered V None)"

definition run_timeout_handler :: "host_env \<Rightarrow> device \<Rightarrow> timeout_handler \<Rightarrow> unit host_op" where
  "run_timeout_handler V dv handler =
     (case handler of
        AuxTimeout \<Rightarrow> aux_module_timeout_handler V
      | MainTimeout \<Rightarrow> main_module_timeout_handler V dv
      | ExternalDhcpTimeout \<Rightarrow> external_dhcp_timeout_handler V)"

text \<open>The two halves of \<open>heartbeat\<close>: the module may call back before the timeout is looked at.\<close>

definition heartbeat_module :: "host_env \<Rightarrow> device \<Rightarrow> unit host_op" where
  "heartbeat_module V dv =
     read_host (\<lambda>h. bind_op (lift_op (get_test_timeout V (hs_config h) (hs_test_name h)))
       (\<lambda>timeout_sec. then_op (set_host (\<lambda>h. h\<lparr>hs_timeout_sec := timeout_sec\<rparr>))
          (case hs_test_host h of None \<Rightarrow> ret_op () | Some m \<Rightarrow> module_heartbeat_op V dv m)))"

definition heartbeat_timeout :: "host_env \<Rightarrow> device \<Rightarrow> unit host_op" where
  "heartbeat_timeout V dv =
     read_host (\<lambda>h. case hs_timeout_sec h of
        None \<Rightarrow> ret_op ()
      | Some n \<Rightarrow>
          if n = 0 \<or> hv_no_test V then ret_op ()
          else if hv_now V < hs_test_start h + n then ret_op ()
          else case hs_timeout_handler h of
            None \<Rightarrow> ret_op ()
          | Some handler \<Rightarrow> then_op (set_host (\<lambda>h. h\<lparr>hs_timeout_handler := None\<rparr>)) (run_timeout_handler V dv handler))"

subsection \<open>Beginning and end\<close>

definition host_init :: "host_env \<Rightarrow> string \<Rightarrow> int option \<Rightarrow> vdict \<Rightarrow> string list \<Rightarrow> host" where
  \<comment> \<open>the attributes when the configuration has been loaded\<close>
  "host_init V mac port config enabled =
     \<lparr>hs_mac = mac, hs_port = port, hs_state = READY, hs_results = [], hs_test_name = None, hs_test_start = hv_now V,
      hs_test_host = None, hs_modules = [], hs_test_port = None, hs_startup_time = None, hs_monitor = None, hs_monitor_start = 0,
      hs_target_ip = None, hs_all_ips = [], hs_timeout_handler = Some AuxTimeout, hs_timeout_sec = None,
      hs_enabled_tests = enabled, hs_remaining_tests = enabled, hs_config = config,
      hs_report = Some (report_init (hv_setup V config) mac)\<rparr>"

definition run_host :: "'a host_op \<Rightarrow> host \<times> gateway \<Rightarrow> ('a result \<times> host_request list) \<times> host \<times> gateway" where
  \<comment> \<open>an operation of its own: the requests it makes, the host and the gateway it leaves\<close>
  "run_host m x =
     (case m \<lparr>hr_host = fst x, hr_gateway = snd x, hr_out = []\<rparr> of (r, s) \<Rightarrow> ((r, hr_out s), hr_host s, hr_gateway s))"

definition run_alone :: "'a host_op \<Rightarrow> host \<Rightarrow> 'a result \<times> host" where
  \<comment> \<open>an operation that neither uses the gateway nor makes requests\<close>
  "run_alone m h =
     (case m \<lparr>hr_host = h, hr_gateway = \<lparr>gw_name = [], port_set = 0, targets = [], test_ports = [], ready = [], activated = False,
        is_native = False\<rparr>, hr_out = []\<rparr> of (r, s) \<Rightarrow> (r, hr_host s))"

definition new_host :: "host_env \<Rightarrow> device \<Rightarrow> int option \<Rightarrow> host result" where
  "new_host V dv port =
     bind_result (hv_dirs V) (\<lambda>_.
     bind_result (hv_load V (dv_mac dv)) (\<lambda>config.
       if config = [] then Inl AssertionError
       else bind_result (hv_write_config V) (\<lambda>_.
         bind_result (get_enabled_tests V config)
         (\<lambda>enabled. Inr (snd (run_alone (then_op (record_state V ''startup'') (record_named_result (Some ''info'') no_args))
             (host_init V (dv_mac dv) port config enabled)))))))"

definition initialize :: "host_env \<Rightarrow> unit host_op" where
  "initialize V =
     then_op (lift_op (hv_dirs V))
    (then_op (lift_op (hv_register V))
    (then_op (read_host (\<lambda>h. case hs_port h of None \<Rightarrow> ret_op () | Some n \<Rightarrow> if n = 0 then ret_op () else lift_op (hv_mirror V)))
      (if hv_test_list V \<noteq> [] then start_run V
       else then_op (read_host (\<lambda>h. assert_op (hs_state h = READY))) (record_state V ''startup''))))"

definition control_updated :: "host_env \<Rightarrow> bool \<Rightarrow> unit host_op" where
  "control_updated V paused = read_host (\<lambda>h. if \<not> paused \<and> hs_state h = READY then start_run V else ret_op ())"

definition finalize_report :: "host_env \<Rightarrow> test_report host_op" where
  "finalize_report V =
     read_host (\<lambda>h. case hs_report h of
        None \<Rightarrow> raise_op AttributeError
      | Some r \<Rightarrow>
          (case report_finalize (hv_report V) r of
             (res, r') \<Rightarrow>
               then_op (set_host (\<lambda>h. h\<lparr>hs_report := Some r'\<rparr>))
              (bind_op (lift_op res) (\<lambda>test_results.
                 then_op (lift_op (hv_upload V))
                (then_op (record_state V ''terminate'')
                (then_op (set_host (\<lambda>h. h\<lparr>hs_report := None\<rparr>))
                  (ret_op test_results)))))))"

definition host_terminate :: "host_env \<Rightarrow> test_report host_op" where
  \<comment> \<open>\<open>terminate\<close> with \<open>trigger=False\<close>, as the runner calls it\<close>
  "host_terminate V =
     then_op (host_state_transition TERMINATED None)
    (then_op (lift_op (hv_release V))
    (then_op (monitor_cleanup V True)
    (then_op (read_host (\<lambda>h. case hs_port h of None \<Rightarrow> ret_op () | Some n \<Rightarrow> if n = 0 then ret_op () else lift_op (hv_unmirror V)))
    (then_op
      (read_host (\<lambda>h. case hs_test_host h of
         None \<Rightarrow> ret_op ()
       | Some m \<Rightarrow>
           try_op (then_op (module_terminate V m) (set_host (\<lambda>h. h\<lparr>hs_test_host := None, hs_timeout_handler := None\<rparr>)))
             (\<lambda>e. ret_op ())))
      (finalize_report V)))))"

subsection \<open>Streams\<close>

text \<open>
  The callbacks a host registers with the stream monitor, with the error handling of the monitor around
  them: the stream is closed and forgotten before its hangup callback runs, an exception of a callback
  is passed to the error callback, and an exception of that one is logged.
\<close>

definition guarded :: "host_env \<Rightarrow> unit host_op \<Rightarrow> (exn \<Rightarrow> unit host_op) \<Rightarrow> unit host_op" where
  "guarded V callback on_error = try_op callback (\<lambda>e. try_op (on_error (hv_exn V e)) (\<lambda>_. ret_op ()))"

definition pcap_event :: "host_env \<Rightarrow> device \<Rightarrow> exn option \<Rightarrow> unit host_op" where
  "pcap_event V dv e =
     read_host (\<lambda>h. case hs_monitor h of
        None \<Rightarrow> ret_op ()
      | Some m \<Rightarrow>
          if \<not> pm_open m then ret_op ()
          else case e of
            Some x \<Rightarrow> try_op (monitor_error V x False) (\<lambda>_. ret_op ())
          | None \<Rightarrow>
              then_op (set_host (\<lambda>h. h\<lparr>hs_monitor := Some (m\<lparr>pm_open := False\<rparr>)\<rparr>))
                (guarded V (monitor_timeout V dv (pm_timeout m)) (\<lambda>e. monitor_error V e False)))"

definition module_event :: "host_env \<Rightarrow> device \<Rightarrow> nat \<Rightarrow> exn option \<Rightarrow> unit host_op" where
  "module_event V dv m e =
     read_host (\<lambda>h.
       if m < length (hs_modules h) \<and> em_pipe (external_of (the_module h m))
       then case e of
          Some x \<Rightarrow> try_op (external_error V dv m x) (\<lambda>_. ret_op ())
        | None \<Rightarrow> guarded V (external_complete V dv m) (external_error V dv m)
       else ret_op ())"

definition host_stream_event :: "host_env \<Rightarrow> device \<Rightarrow> stream_event \<Rightarrow> unit host_op" where
  "host_stream_event V dv ev =
     (case ev of
        PcapHangup \<Rightarrow> pcap_event V dv None
      | PcapError e \<Rightarrow> pcap_event V dv (Some e)
      | ModuleHangup m \<Rightarrow> module_event V dv m None
      | ModuleError m e \<Rightarrow> module_event V dv m (Some e)
      | Discovered ip \<Rightarrow> try_op (discovered V ip) (\<lambda>_. ret_op ())
      | ControlUpdated paused \<Rightarrow> try_op (control_updated V paused) (\<lambda>_. ret_op ()))"

subsection \<open>The interface of the runner\<close>

definition report_errors :: "host_request list \<Rightarrow> exn list" where
  "report_errors rqs = concat (map (\<lambda>rq. case rq of ReportError e \<Rightarrow> [e] | _ \<Rightarrow> []) rqs)"

definition connected_host :: "host_env \<Rightarrow> host host_ops" where
  "connected_host V =
     \<lparr>ho_new = (\<lambda>dv port g. new_host V dv port),
      ho_initialize = run_alone (initialize V),
      ho_is_running = (\<lambda>h. hs_state h \<noteq> ERROR \<and> hs_state h \<noteq> DONE),
      ho_idle_handler = (\<lambda>dv. run_host (idle_handler V dv)),
      ho_heartbeat = [\<lambda>dv. run_host (heartbeat_module V dv), \<lambda>dv. run_host (heartbeat_timeout V dv)],
      ho_stream = (\<lambda>ev dv. run_host (host_stream_event V dv ev)),
      ho_record_result = (\<lambda>e h. run_alone (record_result V (hs_test_name h) (error_args e)) h),
      ho_results = hs_results,
      ho_terminate = (\<lambda>h. case run_alone (host_terminate V) h of (r, h') \<Rightarrow> (map_sum id Some r, h')),
      ho_enabled_tests = hs_enabled_tests,
      ho_ip_notify = (\<lambda>dv ip state delta x.
         case run_host (host_ip_notify V dv ip state) x of ((r, rqs), y) \<Rightarrow> ((r, report_errors rqs), y)),
      ho_notify_activate = (\<lambda>h. case run_alone notify_activate h of (r, h') \<Rightarrow> (r = Inr True, h')),
      ho_trigger_ready = trigger_ready,
      ho_trigger = (\<lambda>state ip delta. run_alone (trigger V ip)),
      ho_port_flap_timeout = (\<lambda>h. get_port_flap_timeout (hs_config h) (hs_test_name h))\<rparr>"

end
