(* ===== verification/Host_Contract.thy ===== *)
theory Host_Contract
  imports Runner
begin

text \<open>
  What the runner promises about its hosts: it touches a host only through the operations of
  \<open>host_ops\<close>. The locale \<open>host_contract\<close> states this as a contract: if every operation of a host moves
  it along a preorder \<open>R\<close>, and new hosts satisfy \<open>N\<close>, then so does any run of the runner for all its
  hosts. It is interpreted on \<open>connected_host\<close> for the states of a host and for the order of its tests.
\<close>

subsection \<open>Operations that leave the hosts alone\<close>

definition same_store :: "'h runner \<Rightarrow> 'h runner \<Rightarrow> bool" where
  "same_store s s' \<longleftrightarrow> host_store s' = host_store s \<and> host_next s' = host_next s"

interpretation alone: step_frame same_store
  by unfold_locales (simp_all add: same_store_def)

named_theorems alone_intros \<open>an operation leaves the hosts alone when its parts do\<close>

declare alone.intros [alone_intros]

lemma alone_primitives [alone_intros]:
  "frames same_store (set_device d f)" "frames same_store (set_port p pf)" "frames same_store new_port"
  "frames same_store (call_gateway g gf)" "frames same_store (find_gateway_set E d)" "frames same_store (add_gateway_set n)"
  "frames same_store (alloc_gateway gw)" "frames same_store (remove_device d)" "frames same_store (new_device mac q v)"
  by (auto simp: frames_def same_store_def set_device_def set_port_def new_port_def call_gateway_def find_gateway_set_def
      add_gateway_set_def alloc_gateway_def remove_device_def new_device_def op_simps Let_def split: prod.splits option.splits)

lemma alone_create [alone_intros]: "frames same_store (create_if_absent mac p v)"
  using alone_primitives(9) [of mac p v] by (auto simp: frames_def create_if_absent_def same_store_def split: option.splits)

lemma alone_topology [alone_intros]: "frames same_store (call_topology E f)"
  unfolding call_topology_def by (intro alone_intros) (auto simp: frames_def same_store_def split: prod.splits)

lemma alone_traffic [alone_intros]:
  "frames same_store (network_direct_port_traffic E d port tgt)" "frames same_store (network_direct_device_traffic E d pset)"
  unfolding network_direct_port_traffic_def network_direct_device_traffic_def by (intro alone_intros)+

lemma alone_with_host [alone_intros]: "(\<And>h. frames same_store (f h)) \<Longrightarrow> frames same_store (with_host d f)"
  unfolding with_host_def by (intro alone_intros)

lemma alone_ports [alone_intros]: "frames same_store (activate_port port)" "frames same_store (deactivate_port port)"
  unfolding activate_port_def deactivate_port_def by (intro alone_intros; simp add: same_store_def)+

lemma alone_port_inactive [alone_intros]: "frames same_store (port_inactive E port)"
  unfolding port_inactive_def by (intro alone_intros)

lemma alone_send [alone_intros]: "frames same_store (send_device_result E H d r)"
  unfolding send_device_result_def by (intro alone_intros) (auto simp: same_store_def split: sum.splits)

lemma alone_start_gateway [alone_intros]: "frames same_store (start_gateway E n g)"
proof -
  have "frames same_store (case r of Inl e \<Rightarrow> then_op (add_gateway_set n) (raise_op e) | Inr u \<Rightarrow> alloc_gateway g)" for r :: "unit result"
    by (cases r) (auto intro: alone_intros)
  then show ?thesis unfolding start_gateway_def .
qed

lemma alone_create_gateway [alone_intros]: "frames same_store (create_gateway E d)"
proof -
  have "frames same_store (case gs of [g] \<Rightarrow> ret_op g | _ # _ # _ \<Rightarrow> raise_op AssertionError
      | [] \<Rightarrow> bind_op (find_gateway_set E d) (\<lambda>set_num. bind_op (lift_op (gateway_init name set_num False)) (start_gateway E set_num)))" for gs name
    by (auto intro!: alone_intros split: list.splits)
  then show ?thesis unfolding create_gateway_def by (intro alone_intros)
qed

lemma alone_gateways [alone_intros]:
  "frames same_store (activate_gateway_object E g)" "frames same_store (detach_gateway E d)" "frames same_store (attach_device d g)"
  "frames same_store (choose_gateway E d name)"
  unfolding activate_gateway_object_def detach_gateway_def attach_device_def choose_gateway_def by (intro alone_intros)+

lemma alone_reports [alone_intros]: "frames same_store (send_heartbeat E)" "frames same_store (stop_result_handler E)"
  unfolding send_heartbeat_def stop_result_handler_def by (intro alone_intros)+

lemma alone_initialize: "frames same_store (runner_initialize E)"
  unfolding runner_initialize_def initialize_native_def create_native_gateway_def
  by (intro alone_intros) (simp_all add: same_store_def)

lemma alone_trigger_ready [alone_intros]: "frames same_store (all_trigger_ready H d ds)"
  unfolding all_trigger_ready_def by (intro alone_intros)

lemma alone_session_end [alone_intros]: "frames same_store (on_session_end E rq)"
  unfolding on_session_end_def by (intro alone_intros)

subsection \<open>The contract\<close>

definition hosts_move :: "('h \<Rightarrow> 'h \<Rightarrow> bool) \<Rightarrow> ('h \<Rightarrow> bool) \<Rightarrow> 'h runner \<Rightarrow> 'h runner \<Rightarrow> bool" where
  "hosts_move R N s s' \<longleftrightarrow> host_next s \<le> host_next s' \<and> (\<forall>h<host_next s. R (host_store s h) (host_store s' h)) \<and>
     (\<forall>h. host_next s \<le> h \<and> h < host_next s' \<longrightarrow> N (host_store s' h))"

locale host_contract =
  fixes H :: "'h host_ops"
    and R :: "'h \<Rightarrow> 'h \<Rightarrow> bool"
    and N :: "'h \<Rightarrow> bool"
  assumes R_refl: "R x x"
    and R_trans: "R x y \<Longrightarrow> R y z \<Longrightarrow> R x z"
    and N_stable: "N x \<Longrightarrow> R x y \<Longrightarrow> N y"
    and new: "ho_new H dv p g = Inr x \<Longrightarrow> N x"
    and init: "R x (snd (ho_initialize H x))"
    and idle: "R x (fst (snd (ho_idle_handler H dv (x, g))))"
    and beat: "f \<in> set (ho_heartbeat H) \<Longrightarrow> R x (fst (snd (f dv (x, g))))"
    and stream: "R x (fst (snd (ho_stream H ev dv (x, g))))"
    and result: "R x (snd (ho_record_result H e x))"
    and finish: "R x (snd (ho_terminate H x))"
    and address: "R x (fst (snd (ho_ip_notify H dv ip st delta (x, g))))"
    and activation: "R x (snd (ho_notify_activate H x))"
    and triggered: "R x (snd (ho_trigger H st' ip' delta' x))"
begin

abbreviation moves :: "('h, 'a) runner_op \<Rightarrow> bool" where
  "moves \<equiv> frames (hosts_move R N)"

lemma hosts_move_refl: "hosts_move R N s s"
  by (auto simp: hosts_move_def R_refl)

lemma hosts_move_trans:
  assumes "hosts_move R N s s'" "hosts_move R N s' s''"
  shows "hosts_move R N s s''"
  unfolding hosts_move_def
proof (intro conjI allI impI)
  show "host_next s \<le> host_next s''" using assms by (simp add: hosts_move_def)
next
  fix h assume "h < host_next s"
  then show "R (host_store s h) (host_store s'' h)"
    using assms R_trans [of "host_store s h" "host_store s' h"] by (simp add: hosts_move_def)
next
  fix h assume "host_next s \<le> h \<and> h < host_next s''"
  then show "N (host_store s'' h)"
    using assms N_stable [of "host_store s' h"] by (cases "h < host_next s'") (auto simp: hosts_move_def)
qed

sublocale mv: step_frame "hosts_move R N"
  by unfold_locales (rule hosts_move_refl, erule (1) hosts_move_trans)

lemma moves_alone: "frames same_store m \<Longrightarrow> moves m"
  by (erule frames_mono) (auto simp: same_store_def hosts_move_def R_refl)

lemmas moves_basic = moves_alone [OF alone_primitives(1)] moves_alone [OF alone_primitives(2)] moves_alone [OF alone_primitives(3)]
  moves_alone [OF alone_primitives(4)] moves_alone [OF alone_primitives(8)] moves_alone [OF alone_create]
  moves_alone [OF alone_traffic(1)] moves_alone [OF alone_traffic(2)]
  moves_alone [OF alone_ports(1)] moves_alone [OF alone_send] moves_alone [OF alone_gateways(1)] moves_alone [OF alone_gateways(2)]
  moves_alone [OF alone_gateways(3)] moves_alone [OF alone_gateways(4)] moves_alone [OF alone_trigger_ready]

lemma moves_modify: "(\<And>s. host_store (f s) = host_store s) \<Longrightarrow> (\<And>s. host_next (f s) = host_next s) \<Longrightarrow> moves (modify_op f)"
  by (rule moves_alone) (simp add: frames_def op_simps same_store_def)

lemma moves_with_host: "(\<And>h. moves (f h)) \<Longrightarrow> moves (with_host d f)"
  unfolding with_host_def by (intro mv.intros)

lemma moves_call_host: "(\<And>x. R x (snd (f x))) \<Longrightarrow> moves (call_host h f)"
proof -
  assume f: "\<And>x. R x (snd (f x))"
  have "R x x'" if "f x = (r, x')" for x r x' using f [of x] that by simp
  then show ?thesis by (auto simp: frames_def call_host_def hosts_move_def R_refl split: prod.splits)
qed

lemma moves_call_host_gateway: "(\<And>x g. R x (fst (snd (f (x, g))))) \<Longrightarrow> moves (call_host_gateway h f)"
proof -
  assume f: "\<And>x g. R x (fst (snd (f (x, g))))"
  have "R x x'" if "f (x, g) = (r, x', g')" for x g r x' g' using f [of x g] that by simp
  then show ?thesis
    by (auto simp: frames_def call_host_gateway_def hosts_move_def R_refl Let_def split: prod.splits)
qed

lemma moves_alloc_host: "moves (alloc_host H d g)"
  by (auto simp: frames_def alloc_host_def hosts_move_def R_refl split: sum.splits dest: new)

lemmas move_rules = mv.intros moves_basic moves_with_host moves_alloc_host

subsection \<open>The handlers\<close>

lemma moves_cancel: "moves (target_set_cancel E H d)"
  unfolding target_set_cancel_def linger_or_release_def Let_def
  by (intro move_rules moves_call_host finish) (auto simp: hosts_move_def R_refl)

lemma moves_finalize: "moves drain \<Longrightarrow> moves (target_set_finalize E drain d rs)"
  unfolding target_set_finalize_def
  by (intro move_rules) (auto simp: hosts_move_def R_refl suppress_tests_def limit_tests_def)

lemma moves_complete: "moves drain \<Longrightarrow> moves (target_set_complete E H drain d)"
  unfolding target_set_complete_def
  by (intro move_rules moves_cancel moves_finalize moves_call_host result)

lemma moves_error: "moves drain \<Longrightarrow> moves (target_set_error E H drain d e)"
  unfolding target_set_error_def
  by (intro move_rules moves_complete moves_finalize moves_call_host result)

lemma moves_start_host: "moves (start_host E H d g name)"
  unfolding start_host_def
  by (intro move_rules moves_call_host init) (auto simp: hosts_move_def R_refl)

lemma moves_activate: "moves drain \<Longrightarrow> moves (target_set_activate E H drain d)"
  unfolding target_set_activate_def use_gateway_def Let_def
  by (intro move_rules moves_start_host moves_error) (auto simp: hosts_move_def R_refl)

lemma moves_trigger: "moves drain \<Longrightarrow> moves (target_set_trigger E H drain d remote)"
  unfolding target_set_trigger_def
  by (intro move_rules moves_activate) (auto simp: hosts_move_def R_refl)

lemma moves_consider: "moves drain \<Longrightarrow> moves (target_set_consider E H drain)"
proof -
  assume drain: "moves drain"
  have "moves (case q of [] \<Rightarrow> ret_op () | d # ds \<Rightarrow> if c then then_op (modify_op (\<lambda>s. s\<lparr>target_set_queue := ds\<rparr>))
      (then_op (target_set_activate E H drain d) (ret_op ())) else ret_op ())" for q c
    by (cases q) (auto intro!: mv.basic mv.seq moves_activate [OF drain] moves_modify)
  then show ?thesis unfolding target_set_consider_def by (intro mv.read)
qed

lemma moves_device_learn: "moves drain \<Longrightarrow> moves (handle_device_learn E H drain mac v)"
  unfolding handle_device_learn_def by (intro move_rules moves_trigger)

lemma moves_port_learn: "moves drain \<Longrightarrow> moves (handle_port_learn E H drain dpid port mac)"
  unfolding handle_port_learn_def by (intro move_rules moves_trigger)

lemma moves_session: "moves drain \<Longrightarrow> moves (on_session E H drain rq)"
  unfolding on_session_def remote_trigger_def by (intro move_rules moves_trigger)

lemma moves_trigger_host: "moves (trigger_host H st d)"
  unfolding trigger_host_def by (intro move_rules moves_call_host triggered)

lemma moves_should_activate: "moves (should_activate_target H d)"
proof -
  have "R x (snd (case ho_notify_activate H x of (b, x') \<Rightarrow> (Inr b, x')))" for x
    using activation [of x] by (cases "ho_notify_activate H x") simp
  then show ?thesis unfolding should_activate_target_def by (intro move_rules moves_call_host)
qed

lemma moves_check_and_activate: "moves (check_and_activate_gateway E H d)"
proof -
  have act: "moves (activate_gateway E H st g ds)" for st g ds
    unfolding activate_gateway_def Let_def by (intro move_rules moves_trigger_host)
  have "moves (case r of NotReady \<Rightarrow> ret_op ()
      | AlreadyActivated \<Rightarrow> read_op (\<lambda>s. then_op (trigger_host H (dv_ip_state (dv_store s d)) d) (ret_op ()))
      | ReadyDevices ds \<Rightarrow> if ds = [] then ret_op ()
          else read_op (\<lambda>s. case dv_gateway (dv_store s d) of None \<Rightarrow> raise_op AttributeError
             | Some g \<Rightarrow> activate_gateway E H (dv_ip_state (dv_store s d)) g ds))" for r
    by (cases r) (auto intro!: move_rules moves_trigger_host act)
  then show ?thesis unfolding check_and_activate_gateway_def by (intro move_rules moves_should_activate)
qed

lemma moves_ip_notify: "moves drain \<Longrightarrow> moves (ip_notify E H drain st tgt g ex)"
  unfolding ip_notify_def terminate_gateway_set_def
  by (intro move_rules moves_error moves_device_learn moves_check_and_activate moves_call_host_gateway address)

lemma moves_serve: "moves drain \<Longrightarrow> moves (serve_request E H drain d g rq)"
  unfolding serve_request_def dhcp_ready_listener_def
  by (cases rq) (auto intro!: move_rules moves_ip_notify moves_error moves_check_and_activate)

lemma moves_serve_host: "moves drain \<Longrightarrow> (\<And>dv x g. R x (fst (snd (f dv (x, g))))) \<Longrightarrow> moves (serve_host E H drain h f)"
  unfolding serve_host_def Let_def by (intro move_rules moves_call_host_gateway moves_serve) auto

lemma moves_serving: "moves drain \<Longrightarrow> (\<And>f dv x g. f \<in> set fs \<Longrightarrow> R x (fst (snd (f dv (x, g))))) \<Longrightarrow> moves (call_host_serving E H drain d fs)"
proof -
  assume drain: "moves drain" and fs: "\<And>f dv x g. f \<in> set fs \<Longrightarrow> R x (fst (snd (f dv (x, g))))"
  have "moves (for_op fs (serve_host E H drain h))" for h
    using fs by (induction fs) (auto intro!: mv.basic mv.seq moves_serve_host [OF drain])
  then show ?thesis unfolding call_host_serving_def by (intro moves_with_host)
qed

lemma moves_shutdown: "moves drain \<Longrightarrow> moves (shutdown E H drain)"
  unfolding shutdown_def terminate_all_def terminate_device_def
  by (intro move_rules moves_error moves_alone [OF alone_reports(1)] moves_alone [OF alone_reports(2)]) (auto simp: hosts_move_def R_refl)

lemma moves_port_state: "moves drain \<Longrightarrow> moves (handle_port_state E H drain dpid port active)"
  unfolding handle_port_state_def
  by (intro move_rules moves_shutdown moves_alone [OF alone_port_inactive] moves_alone [OF alone_reports(1)]) (auto simp: hosts_move_def R_refl)

lemma moves_event: "moves drain \<Longrightarrow> moves (process_faucet_event E H drain ev)"
  unfolding process_faucet_event_def
  by (cases ev) (auto intro!: move_rules moves_port_state moves_device_learn moves_port_learn)

lemma moves_incoming: "(\<And>prev. moves (again prev)) \<Longrightarrow> moves (handle_incoming E H again prev i)"
  unfolding handle_incoming_def
  by (cases i) (auto intro!: mv.seq mv.opt mv.basic moves_modify moves_event moves_shutdown)

lemma moves_faucet_events: "moves (handle_faucet_events E H n prev)"
proof (induction n arbitrary: prev)
  case 0
  show ?case by (simp add: handle_faucet_events.simps moves_modify)
next
  case (Suc n)
  have "moves (case evs of [] \<Rightarrow> ret_op () | i # is \<Rightarrow> then_op (modify_op (\<lambda>s. s\<lparr>events := is\<rparr>))
      (handle_incoming E H (handle_faucet_events E H n) prev i))" for evs
    by (cases evs) (auto intro!: mv.seq mv.basic moves_modify moves_incoming Suc.IH)
  then show ?case by (simp add: handle_faucet_events.simps) (intro mv.read mv.cond mv.basic)
qed

lemma moves_events: "moves (handle_events E H)"
  unfolding handle_events_def by (intro mv.read moves_faucet_events)

lemma moves_idle: "moves (handle_system_idle E H)"
  unfolding handle_system_idle_def handle_system_idle_raw_def idle_device_def
  by (intro move_rules moves_events moves_serving moves_complete moves_error moves_trigger moves_consider moves_shutdown
      moves_alone [OF alone_reports(1)])
    (auto simp: hosts_move_def R_refl idle)

lemma moves_reap: "moves (reap_stale_port E H d)" "moves (reap_stale_ports E H)"
  unfolding reap_stale_ports_def reap_stale_port_def Let_def by (intro move_rules moves_error moves_events)+

lemma moves_beat: "moves (device_heartbeat E H d)" "moves (module_heartbeat E H)"
  unfolding module_heartbeat_def device_heartbeat_def by (intro move_rules moves_serving moves_events beat; assumption)+

lemma moves_stream: "moves (stream_ready E H drain h ev)" if "moves drain"
  unfolding stream_ready_def by (intro move_rules moves_serve_host that stream)

theorem moves_occasion: "moves (handle_occasion E H occ)"
  by (cases occ) (auto simp: handle_occasion_def terminate_device_def intro!: moves_modify moves_events moves_idle moves_reap moves_beat
      moves_session moves_alone [OF alone_session_end] moves_ip_notify moves_stream moves_error moves_alone [OF alone_initialize]
      moves_alone [OF alone_reports(2)])

end

text \<open>A run, with hosts that answer differently at every occasion but all keep the contract.\<close>

lemma run_trace_moves:
  assumes "\<And>E H occ. (E, H, occ) \<in> set trace \<Longrightarrow> host_contract H R N"
    and refl: "\<And>x. R x x"
  shows "hosts_move R N s (run_trace trace s)"
  using assms(1)
proof (induction trace arbitrary: s)
  case Nil
  then show ?case by (auto simp: run_trace_def hosts_move_def refl)
next
  case (Cons x trace)
  obtain E H occ where x: "x = (E, H, occ)" by (cases x) auto
  then have H: "host_contract H R N" using Cons.prems by auto
  let ?s' = "snd (handle_occasion E H occ s)"
  have "hosts_move R N s ?s'" by (rule framesD [OF host_contract.moves_occasion [OF H]])
  moreover have "hosts_move R N ?s' (run_trace trace ?s')" using Cons by auto
  ultimately have "hosts_move R N s (run_trace trace ?s')" by (rule host_contract.hosts_move_trans [OF H])
  then show ?case by (simp add: x run_trace_def)
qed

end
