(* ===== verification/Host_Properties.thy ===== *)
theory Host_Properties
  imports Host Host_Contract "HOL-Library.Sublist"
begin

text \<open>
  Properties of a connected host. The states a host may go through are an inductive relation; the
  locale \<open>host_frame\<close> shows once that every operation of a host moves it along a preorder, given what
  starting a test does, and is interpreted for the states and for the order of the tests. With the
  contract of \<open>Host_Contract\<close> both then hold for all hosts in any run of the runner.
\<close>

subsection \<open>States\<close>

inductive permitted :: "host_state \<Rightarrow> host_state \<Rightarrow> bool" where
  started: "permitted READY INIT"
| prepared: "permitted INIT WAITING"
| triggered: "permitted WAITING BASE"
| based: "permitted BASE MONITOR"
| monitored: "permitted MONITOR NEXT"
| testing: "permitted NEXT TESTING"
| tested: "permitted TESTING NEXT"
| held: "permitted NEXT HOLD"
| finished: "permitted NEXT DONE"
| failed: "st \<noteq> TERMINATED \<Longrightarrow> permitted st ERROR"
| ended: "st \<noteq> TERMINATED \<Longrightarrow> permitted st TERMINATED"

inductive_simps permitted_from_terminated: "permitted TERMINATED st"
inductive_simps permitted_from_error: "permitted ERROR st"
inductive_simps permitted_from_done: "permitted DONE st"
inductive_simps permitted_to_testing: "permitted st TESTING"

code_pred permitted .

lemma terminated_final: "permitted\<^sup>*\<^sup>* TERMINATED st \<longleftrightarrow> st = TERMINATED"
proof
  assume "permitted\<^sup>*\<^sup>* TERMINATED st"
  then show "st = TERMINATED" by (induction rule: rtranclp_induct) (auto simp: permitted_from_terminated)
qed simp

text \<open>A host that failed or is done never runs a test again.\<close>

lemma over_stays:
  assumes "permitted\<^sup>*\<^sup>* st st'" "st \<in> {ERROR, DONE, TERMINATED}"
  shows "st' \<in> {ERROR, DONE, TERMINATED}"
  using assms
  by (induction rule: rtranclp_induct) (auto simp: permitted_from_terminated permitted_from_error permitted_from_done)

definition module_test :: "test_module \<Rightarrow> string" where
  "module_test tm = em_test (external_of tm)"

definition started_tests :: "host \<Rightarrow> string list" where
  "started_tests h = map module_test (hs_modules h)"

text \<open>What all operations but the start of a test do to a host.\<close>

definition calm :: "host \<Rightarrow> host \<Rightarrow> bool" where
  "calm h h' \<longleftrightarrow> hs_enabled_tests h' = hs_enabled_tests h \<and> hs_remaining_tests h' = hs_remaining_tests h \<and>
     started_tests h' = started_tests h \<and> permitted\<^sup>*\<^sup>* (hs_state h) (hs_state h')"

definition calm_run :: "host_run \<Rightarrow> host_run \<Rightarrow> bool" where
  "calm_run s s' \<longleftrightarrow> calm (hr_host s) (hr_host s')"

interpretation calm: step_frame calm_run
  by unfold_locales (auto simp: calm_run_def calm_def)

named_theorems calm_intros \<open>an operation is calm when its parts are\<close>

declare calm.intros [calm_intros]

lemma calm_set_host:
  "(\<And>h. hs_enabled_tests (f h) = hs_enabled_tests h \<and> hs_remaining_tests (f h) = hs_remaining_tests h \<and>
     hs_modules (f h) = hs_modules h \<and> hs_state (f h) = hs_state h) \<Longrightarrow> frames calm_run (set_host f)"
  by (simp add: frames_def set_host_def op_simps calm_run_def calm_def started_tests_def)

lemma calm_read_host [calm_intros]: "(\<And>h. frames calm_run (f h)) \<Longrightarrow> frames calm_run (read_host f)"
  unfolding read_host_def by (intro calm_intros)

lemma calm_request [calm_intros]: "frames calm_run (request rq)"
  by (simp add: frames_def request_def op_simps calm_run_def calm_def)

lemma calm_on_gateway [calm_intros]: "frames calm_run (on_gateway f)"
  by (simp add: frames_def on_gateway_def calm_run_def calm_def split: prod.splits)

lemma calm_transition_from: "permitted st st' \<Longrightarrow> frames calm_run (host_state_transition st' (Some st))"
  by (auto simp: frames_def host_state_transition_def read_host_def set_host_def op_simps calm_run_def calm_def started_tests_def)

lemma calm_transition_any:
  "st' = ERROR \<or> st' = TERMINATED \<Longrightarrow> frames calm_run (host_state_transition st' None)"
  by (auto simp: frames_def host_state_transition_def read_host_def set_host_def op_simps calm_run_def calm_def started_tests_def
      intro: failed ended)

lemma calm_transitions [calm_intros]:
  "frames calm_run (host_state_transition INIT (Some READY))" "frames calm_run (host_state_transition WAITING (Some INIT))"
  "frames calm_run (host_state_transition BASE (Some WAITING))" "frames calm_run (host_state_transition MONITOR (Some BASE))"
  "frames calm_run (host_state_transition NEXT (Some MONITOR))" "frames calm_run (host_state_transition TESTING (Some NEXT))"
  "frames calm_run (host_state_transition NEXT (Some TESTING))" "frames calm_run (host_state_transition HOLD (Some NEXT))"
  "frames calm_run (host_state_transition DONE (Some NEXT))"
  "frames calm_run (host_state_transition ERROR None)" "frames calm_run (host_state_transition TERMINATED None)"
  by (rule calm_transition_from calm_transition_any; simp add: permitted.intros)+

lemma map_update_same: "(\<And>x. g (f x) = g x) \<Longrightarrow> map g (xs[m := f (xs ! m)]) = map g xs"
  by (cases "m < length xs") (simp_all add: map_update list_update_same_conv list_update_beyond)

lemma calm_set_module:
  "(\<And>tm. module_test (f tm) = module_test tm) \<Longrightarrow> frames calm_run (set_module m f)"
  by (simp add: frames_def set_module_def set_host_def op_simps calm_run_def calm_def started_tests_def map_update_same)

lemma calm_set_external: "(\<And>x. em_test (f x) = em_test x) \<Longrightarrow> frames calm_run (set_external m f)"
  unfolding set_external_def by (rule calm_set_module) (simp add: module_test_def external_of_def split: test_module.splits)

lemma calm_set_ipaddr: "(\<And>a. ia_docker (f a) = ia_docker a) \<Longrightarrow> frames calm_run (set_ipaddr m f)"
  unfolding set_ipaddr_def by (rule calm_set_module) (simp add: module_test_def external_of_def split: test_module.splits)

lemma calm_string [calm_intros]:
  "frames calm_run m \<Longrightarrow> (\<And>x xs. frames calm_run (f x xs)) \<Longrightarrow> frames calm_run (case v of [] \<Rightarrow> m | x # xs \<Rightarrow> f x xs)"
  by (simp split: list.splits)

lemmas calm_sets = calm_set_host calm_set_external calm_set_ipaddr

lemma calm_named_result [calm_intros]: "frames calm_run (record_named_result name args)"
  unfolding record_named_result_def by (intro calm_intros calm_set_host) simp

lemma calm_on_report [calm_intros]: "frames calm_run (on_report name items)"
  unfolding on_report_def by (intro calm_intros calm_set_host) simp

lemma calm_record_result [calm_intros]: "frames calm_run (record_result V name args)"
  unfolding record_result_def by (intro calm_intros calm_set_host) simp

lemma calm_monitors [calm_intros]:
  "frames calm_run (monitor_scan V timeout)" "frames calm_run (monitor_cleanup V forget)" "frames calm_run (monitor_error V e forget)"
  unfolding monitor_error_def monitor_scan_def monitor_cleanup_def by (intro calm_intros calm_set_host; simp)+

lemma calm_start_run [calm_intros]: "frames calm_run (start_run V)"
  unfolding start_run_def mark_skipped_tests_def startup_scan_def by (intro calm_intros calm_set_host) simp

lemma calm_external_start [calm_intros]: "frames calm_run (external_start V m)"
  unfolding external_start_def Let_def by (intro calm_intros calm_set_external; simp)

lemma calm_external_finalize [calm_intros]: "frames calm_run (external_finalize V m)"
  unfolding external_finalize_def Let_def by (intro calm_intros calm_set_external; simp)

lemma calm_module_start [calm_intros]: "frames calm_run (module_start V dv m)"
proof -
  have "frames calm_run (case tm of External x \<Rightarrow> external_start V m | IpAddr a \<Rightarrow> then_op (assert_op b) (set_ipaddr m (\<lambda>a. a\<lparr>ia_callback := c\<rparr>)))"
    for tm b c by (cases tm) (auto intro!: calm_intros calm_set_ipaddr)
  then show ?thesis unfolding module_start_def by (intro calm_intros)
qed

lemma calm_module_terminate [calm_intros]: "frames calm_run (module_terminate V m)"
proof -
  have "frames calm_run (case tm of External x \<Rightarrow> bind_op (external_finalize V m) (\<lambda>_. ret_op ())
      | IpAddr a \<Rightarrow> then_op (set_ipaddr m (\<lambda>a. a\<lparr>ia_force_terminated := True\<rparr>))
         (then_op (if em_started (ia_docker a) then bind_op (external_finalize V m) (\<lambda>_. ret_op ()) else ret_op ())
           (set_ipaddr m (\<lambda>a. a\<lparr>ia_callback := None\<rparr>))))" for tm
    by (cases tm) (auto intro!: calm_intros calm_set_ipaddr)
  then show ?thesis unfolding module_terminate_def by (intro calm_intros)
qed

lemma calm_start_test [calm_intros]: "frames calm_run (start_test V t)"
  unfolding start_test_def by (intro calm_intros calm_set_host) simp

lemma calm_release_port [calm_intros]: "frames calm_run release_port"
  unfolding release_port_def by (intro calm_intros)

lemma calm_report_file [calm_intros]: "frames calm_run (report_file V t)"
  unfolding report_file_def by (intro calm_intros)

lemma calm_host_terminate [calm_intros]: "frames calm_run (host_terminate V)"
proof -
  have "frames calm_run (finalize_report V)"
    unfolding finalize_report_def by (intro calm_intros calm_set_host; simp)
  then show ?thesis unfolding host_terminate_def by (intro calm_intros calm_set_host; simp)
qed

lemma calm_trigger [calm_intros]: "frames calm_run (trigger V ip)"
  unfolding trigger_def by (intro calm_intros calm_set_host) simp

lemma calm_notify [calm_intros]: "frames calm_run notify_activate"
  unfolding notify_activate_def by (intro calm_intros)

lemma calm_initialize [calm_intros]: "frames calm_run (initialize V)"
  unfolding initialize_def by (intro calm_intros)

lemma calm_prepare [calm_intros]: "frames calm_run (prepare V dv)"
  unfolding prepare_def by (intro calm_intros calm_set_host; simp)

lemma calm_discovered [calm_intros]: "frames calm_run (discovered V ip)"
  unfolding discovered_def aux_module_timeout_handler_def by (intro calm_intros)

lemma calm_base_tests [calm_intros]: "frames calm_run (base_tests V)"
  unfolding base_tests_def ping_test_def by (intro calm_intros)

subsection \<open>Frames of a host\<close>

text \<open>Taking the next test from the list and starting it is the one step that is not calm.\<close>

definition take_test :: "host_env \<Rightarrow> device \<Rightarrow> string \<Rightarrow> string list \<Rightarrow> unit host_op" where
  "take_test V dv t ts = then_op (set_host (\<lambda>h. h\<lparr>hs_remaining_tests := ts\<rparr>)) (run_test V dv t)"

locale host_frame =
  fixes Q :: "host \<Rightarrow> host \<Rightarrow> bool"
  assumes Q_trans: "Q x y \<Longrightarrow> Q y z \<Longrightarrow> Q x z"
    and Q_calm: "calm x y \<Longrightarrow> Q x y"
    and Q_take: "hs_remaining_tests (hr_host s) = t # ts \<Longrightarrow> Q (hr_host s) (hr_host (snd (take_test V dv t ts s)))"
begin

definition goes :: "host_run \<Rightarrow> host_run \<Rightarrow> bool" where
  "goes s s' \<longleftrightarrow> Q (hr_host s) (hr_host s')"

sublocale go: step_frame goes
  by unfold_locales (auto simp: goes_def intro: Q_calm Q_trans simp: calm_def)

lemma from_calm: "frames calm_run m \<Longrightarrow> frames goes m"
  by (erule frames_mono) (simp add: calm_run_def goes_def Q_calm)

lemma read_host: "(\<And>h. frames goes (f h)) \<Longrightarrow> frames goes (read_host f)"
  unfolding read_host_def by (intro go.intros)

lemma assert_goes: "goes s (snd (m s)) \<Longrightarrow> goes s (snd (then_op (assert_op b) m s))"
  by (simp add: then_op_def bind_op_def assert_op_def ret_op_def raise_op_def go.refl)

lemma next_test_goes: "frames goes (run_next_test V dv)"
proof -
  let ?rest = "if hv_no_test V then host_state_transition HOLD (Some NEXT)
    else then_op (set_host (\<lambda>h. h\<lparr>hs_timeout_handler := Some AuxTimeout\<rparr>)) (then_op (host_state_transition DONE (Some NEXT)) (record_state V ''finish''))"
  have rest: "frames calm_run ?rest" by (intro calm_intros calm_set_host) simp
  have handler: "frames calm_run (then_op (host_state_transition ERROR None) (request (ReportError e)))" for e by (intro calm_intros)
  have body: "goes s (snd ((case hs_remaining_tests (hr_host s) of t # ts \<Rightarrow> take_test V dv t ts | [] \<Rightarrow> ?rest) s))" for s
    using framesD [OF from_calm [OF rest], of s] Q_take [of s] by (auto simp: goes_def split: list.splits)
  let ?body = "\<lambda>s. case hs_remaining_tests (hr_host s) of t # ts \<Rightarrow> take_test V dv t ts | [] \<Rightarrow> ?rest"
  have "goes s (snd (try_op (?body s) (\<lambda>e. then_op (host_state_transition ERROR None) (request (ReportError (hv_exn V e)))) s))" for s
  proof (cases "?body s s")
    case (Pair r s1)
    then have s1: "goes s s1" using body [of s] by simp
    show ?thesis
    proof (cases r)
      case (Inl e)
      have "goes s1 (snd (then_op (host_state_transition ERROR None) (request (ReportError (hv_exn V e))) s1))"
        by (rule framesD [OF from_calm [OF handler]])
      with s1 go.trans have "goes s (snd (then_op (host_state_transition ERROR None) (request (ReportError (hv_exn V e))) s1))" by blast
      then show ?thesis using Pair Inl by (simp add: try_op_def)
    qed (use Pair s1 in \<open>simp add: try_op_def\<close>)
  qed
  then show ?thesis unfolding run_next_test_def take_test_def [symmetric] frames_def read_host_def read_op_def
    by (intro allI assert_goes)
qed

lemma end_test_goes: "frames goes (end_test V dv rc e)"
  unfolding end_test_def by (intro go.seq next_test_goes; rule from_calm; intro calm_intros calm_set_host; simp)

lemma callback_goes: "frames goes (module_callback V dv rc e)"
  unfolding module_callback_def by (intro go.seq end_test_goes; rule from_calm; intro calm_intros)

lemma done_goes: "frames goes (module_done V dv m rc e)"
proof -
  have "frames goes (case tm of External x \<Rightarrow> module_callback V dv rc e
      | IpAddr a \<Rightarrow> then_op (set_ipaddr m (\<lambda>a. a\<lparr>ia_callback := None\<rparr>)) (if ia_force_terminated a then ret_op () else module_callback V dv rc e))" for tm
    by (cases tm) (auto intro!: go.seq go.cond go.basic callback_goes from_calm [OF calm_set_ipaddr])
  then show ?thesis unfolding module_done_def by (rule read_host)
qed

lemma external_goes: "frames goes (external_complete V dv m)" "frames goes (external_error V dv m e)"
proof -
  have "frames calm_run (try_op (read_host (\<lambda>h. then_op (assert_op (em_pipe (external_of (the_module h m))))
      (then_op (set_external m (\<lambda>x. x\<lparr>em_pipe := False\<rparr>)) (bind_op (external_finalize V m) (\<lambda>return_code. ret_op (return_code, None))))))
      (\<lambda>e. ret_op (Some (- 1), Some (hv_exn V e))))"
    by (intro calm_intros calm_set_external) simp
  then show "frames goes (external_complete V dv m)"
    unfolding external_complete_def by (intro go.bind go.pair done_goes from_calm)
  show "frames goes (external_error V dv m e)"
    unfolding external_error_def by (intro go.bind go.cond go.basic done_goes from_calm calm_external_finalize)
qed

lemma ip_step_goes: "frames goes nxt \<Longrightarrow> frames goes (ip_test_step V dv m nxt t)"
proof -
  assume nxt: "frames goes nxt"
  have timeout: "frames goes (set_module_timeout V m)"
    unfolding set_module_timeout_def by (rule from_calm [OF calm_set_ipaddr]) (simp split: option.splits)
  have calmly: "frames goes (set_ipaddr m (\<lambda>a. a\<lparr>ia_callback := c\<rparr>))" "frames goes (set_ipaddr m (\<lambda>a. a\<lparr>ia_ranges := rs\<rparr>))" for c rs
    by (rule from_calm [OF calm_set_ipaddr], simp)+
  have sub: "frames goes (case tm of External x \<Rightarrow> raise_op AttributeError
      | IpAddr a \<Rightarrow> (case ia_ranges a of [] \<Rightarrow> nxt | r # rs \<Rightarrow> then_op (set_ipaddr m (\<lambda>a. a\<lparr>ia_ranges := rs\<rparr>))
          (then_op (lift_op (hv_change_range V r)) (set_ipaddr m (\<lambda>a. a\<lparr>ia_callback := Some (if rs = [] then CallNextTest else CallMultiSubnet)\<rparr>)))))" for tm
    using nxt by (cases tm) (auto intro!: go.seq go.basic calmly split: list.splits)
  show ?thesis unfolding ip_test_step_def
    by (cases t) (auto intro!: go.seq go.bind go.cond go.basic read_host timeout calmly sub from_calm [OF calm_external_start])
qed

lemma next_goes: "frames goes (next_test V dv m)"
proof -
  have sets: "frames goes (set_ipaddr m (\<lambda>a. a\<lparr>ia_timeout := None\<rparr>))" "frames goes (set_ipaddr m (\<lambda>a. a\<lparr>ia_tests := ts\<rparr>))" for ts
    by (rule from_calm [OF calm_set_ipaddr], simp)+
  have "frames goes (next_test_n V dv m n)" for n
  proof (induction n)
    case (Suc n)
    have "frames goes (case tm of External x \<Rightarrow> raise_op AttributeError
        | IpAddr a \<Rightarrow> (case ia_tests a of [] \<Rightarrow> raise_op IndexError
           | t # ts \<Rightarrow> then_op (set_ipaddr m (\<lambda>a. a\<lparr>ia_tests := ts\<rparr>)) (ip_test_step V dv m (next_test_n V dv m n) t)))" for tm
      by (cases tm) (auto intro!: go.seq go.basic sets ip_step_goes Suc.IH split: list.splits)
    then show ?case unfolding next_test_n.simps by (intro go.catch go.seq sets read_host done_goes)
  qed (simp add: go.basic)
  then show ?thesis unfolding next_test_def by (rule read_host)
qed

lemma listener_goes: "frames goes (module_ip_listener V dv m st)"
proof -
  have "frames goes (case tm of External x \<Rightarrow> ret_op ()
      | IpAddr a \<Rightarrow> if st \<noteq> Some ''done'' then ret_op () else bind_op (lift_op (hv_ping V 0))
          (\<lambda>_. case ia_callback a of None \<Rightarrow> ret_op () | Some CallNextTest \<Rightarrow> next_test V dv m
             | Some CallMultiSubnet \<Rightarrow> ip_test_step V dv m (next_test V dv m) MultiSubnet))" for tm
    by (auto intro!: go.bind go.basic next_goes ip_step_goes split: test_module.splits option.splits ip_callback.splits)
  then show ?thesis unfolding module_ip_listener_def by (rule read_host)
qed

lemma beat_goes: "frames goes (module_heartbeat_op V dv m)"
proof -
  have "frames goes (set_ipaddr m (\<lambda>a. a\<lparr>ia_tests := drop (length (ia_tests a) - 1) (ia_tests a)\<rparr>))"
    by (rule from_calm [OF calm_set_ipaddr]) simp
  then have "frames goes (case tm of External x \<Rightarrow> ret_op ()
      | IpAddr a \<Rightarrow> (case ia_timeout a of None \<Rightarrow> ret_op ()
         | Some t \<Rightarrow> if hv_now V < t then ret_op ()
             else if em_started (ia_docker a) then then_op (module_terminate V m) (module_callback V dv None (Some ANALYSIS_TIMEOUT))
             else then_op (set_ipaddr m (\<lambda>a. a\<lparr>ia_tests := drop (length (ia_tests a) - 1) (ia_tests a)\<rparr>)) (next_test V dv m)))" for tm
    by (auto intro!: go.seq go.basic next_goes callback_goes from_calm [OF calm_module_terminate] split: test_module.splits option.splits)
  then show ?thesis unfolding module_heartbeat_op_def by (rule read_host)
qed

end

context host_frame
begin

lemma continue_goes: "frames goes (monitor_continue V dv)"
  unfolding monitor_continue_def by (intro go.seq next_test_goes; rule from_calm; intro calm_intros calm_set_host; simp)

lemma background_goes: "frames goes (background_scan V dv)"
  unfolding background_scan_def by (intro go.seq go.cond continue_goes; rule from_calm; intro calm_intros)

lemma base_start_goes: "frames goes (base_start V dv)"
  unfolding base_start_def
  by (intro go.catch go.bind go.seq go.cond background_goes; rule from_calm; intro calm_intros)

lemma timeout_goes: "frames goes (monitor_timeout V dv timeout)"
proof -
  have "frames goes (monitor_complete V dv)"
    unfolding monitor_complete_def by (intro go.seq continue_goes; rule from_calm; intro calm_intros)
  moreover have "frames goes (monitor_error V e forget)" for e forget by (rule from_calm) (intro calm_intros)
  ultimately show ?thesis unfolding monitor_timeout_def by (intro read_host go.opt go.cond)
qed

lemma idle_goes: "frames goes (idle_handler V dv)"
  unfolding idle_handler_def by (intro read_host go.cond base_start_goes go.basic from_calm [OF calm_prepare])

lemma ip_notify_goes: "frames goes (host_ip_notify V dv ip st)"
  unfolding host_ip_notify_def
  by (intro go.seq read_host go.opt go.basic listener_goes from_calm [OF calm_set_host]) simp_all

lemma handler_goes: "frames goes (run_timeout_handler V dv handler)"
proof -
  have "frames goes (main_module_timeout_handler V dv)"
    unfolding main_module_timeout_handler_def
    by (intro read_host go.opt go.basic go.seq callback_goes from_calm [OF calm_module_terminate])
  moreover have "frames goes (aux_module_timeout_handler V)" "frames goes (external_dhcp_timeout_handler V)"
    unfolding aux_module_timeout_handler_def external_dhcp_timeout_handler_def by (rule from_calm; intro calm_intros)+
  ultimately show ?thesis unfolding run_timeout_handler_def by (cases handler) auto
qed

lemma heartbeat_goes: "frames goes (heartbeat_module V dv)" "frames goes (heartbeat_timeout V dv)"
  unfolding heartbeat_module_def heartbeat_timeout_def
  by (intro read_host go.opt go.cond go.bind go.seq go.basic beat_goes handler_goes from_calm [OF calm_set_host]; simp)+

lemma stream_goes: "frames goes (host_stream_event V dv ev)"
proof -
  have guard: "frames goes (guarded V m f)" if "frames goes m" "\<And>e. frames goes (f e)" for m f
    unfolding guarded_def by (intro go.catch go.basic that)
  have err: "frames goes (monitor_error V e forget)" for e forget by (rule from_calm) (intro calm_intros)
  have pcap: "frames goes (pcap_event V dv e)" for e
    unfolding pcap_event_def
    by (intro read_host go.opt go.cond go.seq go.catch go.basic guard err timeout_goes from_calm [OF calm_set_host]) simp
  have mod: "frames goes (module_event V dv m e)" for m e
    unfolding module_event_def by (intro read_host go.cond go.opt go.catch go.basic guard external_goes)
  have "frames goes (control_updated V paused)" for paused
    unfolding control_updated_def by (rule from_calm) (intro calm_intros)
  then show ?thesis unfolding host_stream_event_def
    by (cases ev) (auto intro!: pcap mod go.catch go.basic from_calm [OF calm_discovered])
qed

lemma run_host_goes: "frames goes m \<Longrightarrow> Q x (fst (snd (run_host m (x, g))))"
proof -
  assume "frames goes m"
  from framesD [OF this, of "\<lparr>hr_host = x, hr_gateway = g, hr_out = []\<rparr>"] show ?thesis
    by (auto simp: run_host_def goes_def split: prod.splits)
qed

lemma run_alone_goes: "frames goes m \<Longrightarrow> Q x (snd (run_alone m x))"
proof -
  assume "frames goes m"
  from framesD [OF this] show ?thesis
    by (auto simp: run_alone_def goes_def split: prod.splits) (metis (no_types, lifting) host_run.select_convs(1) snd_conv)
qed

text \<open>The host keeps the contract of the runner for this preorder.\<close>

lemma contract:
  assumes N: "\<And>x y. N x \<Longrightarrow> Q x y \<Longrightarrow> N y" and new: "\<And>dv p x. new_host V dv p = Inr x \<Longrightarrow> N x"
  shows "host_contract (connected_host V) Q N"
proof (unfold_locales, goal_cases)
  case (1 x) then show ?case by (simp add: Q_calm calm_def)
next
  case (2 x y z) then show ?case by (rule Q_trans)
next
  case (3 x y) then show ?case by (rule N)
next
  case (4 dv p g x) then show ?case by (auto simp: connected_host_def intro: new)
next
  case (5 x) then show ?case by (simp add: connected_host_def run_alone_goes from_calm calm_initialize)
next
  case (6 x dv g) then show ?case by (simp add: connected_host_def run_host_goes idle_goes)
next
  case (7 f x dv g) then show ?case by (auto simp: connected_host_def run_host_goes heartbeat_goes)
next
  case (8 x ev dv g) then show ?case by (simp add: connected_host_def run_host_goes stream_goes)
next
  case (9 x e) then show ?case by (simp add: connected_host_def run_alone_goes from_calm calm_record_result)
next
  case (10 x)
  then show ?case using run_alone_goes [OF from_calm [OF calm_host_terminate], of x V]
    by (auto simp: connected_host_def split: prod.splits)
next
  case (11 x dv ip st delta g)
  then show ?case using run_host_goes [OF ip_notify_goes, of x V dv ip st g] by (auto simp: connected_host_def split: prod.splits)
next
  case (12 x)
  then show ?case using run_alone_goes [OF from_calm [OF calm_notify], of x] by (auto simp: connected_host_def split: prod.splits)
next
  case (13 x st ip delta) then show ?case by (simp add: connected_host_def run_alone_goes from_calm calm_trigger)
qed

end

subsection \<open>Starting a test\<close>

text \<open>What starting a test does: at most one module is made, for that test.\<close>

definition same_lists :: "host \<Rightarrow> host \<Rightarrow> bool" where
  "same_lists h h' \<longleftrightarrow> hs_enabled_tests h' = hs_enabled_tests h \<and> hs_remaining_tests h' = hs_remaining_tests h \<and>
     permitted\<^sup>*\<^sup>* (hs_state h) (hs_state h')"

lemma new_module_test: "new_ipaddr V config test = Inr a \<Longrightarrow> em_test (ia_docker a) = test"
  by (auto simp: new_ipaddr_def new_external_def bind_result_def split: sum.splits option.splits val.splits)

lemma new_test_effect:
  "\<exists>ms. ms \<in> {[], [t]} \<and> (let s' = snd (new_test V dv t s) in same_lists (hr_host s) (hr_host s') \<and>
     started_tests (hr_host s') = started_tests (hr_host s) @ ms)"
proof -
  define r where "r = (if hv_native V t
          then bind_result (hv_native_root V) (\<lambda>_. bind_result (module_host_name dv t) (\<lambda>_. Inr (External (new_external t))))
          else if t = ''ipaddr''
          then bind_result (module_host_name dv t) (\<lambda>_. bind_result (new_ipaddr V (hs_config (hr_host s)) t) (\<lambda>a. Inr (IpAddr a)))
          else bind_result (module_host_name dv t) (\<lambda>_. Inr (External (new_external t))))"
  have "module_test tm = t" if "r = Inr tm" for tm
    using that unfolding r_def
    by (auto simp: module_test_def external_of_def new_external_def bind_result_def dest: new_module_test split: sum.splits if_splits)
  moreover have "snd (new_test V dv t s) = (case r of Inl e \<Rightarrow> s
      | Inr tm \<Rightarrow> s\<lparr>hr_host := (hr_host s)\<lparr>hs_modules := hs_modules (hr_host s) @ [tm]\<rparr>\<rparr>)"
    unfolding new_test_def r_def by (simp add: read_host_def set_host_def op_simps split: sum.splits)
  ultimately show ?thesis
    by (cases r) (auto simp: same_lists_def started_tests_def Let_def)
qed

definition begin_test :: "host_env \<Rightarrow> device \<Rightarrow> string \<Rightarrow> nat \<Rightarrow> unit host_op" where
  \<comment> \<open>what \<open>run_test\<close> does once it has the module\<close>
  "begin_test V dv t m =
     then_op (set_host (\<lambda>h. h\<lparr>hs_test_host := Some m\<rparr>))
    (then_op
      (try_op (bind_op (on_gateway allocate_test_port) (\<lambda>p. set_host (\<lambda>h. h\<lparr>hs_test_port := Some p\<rparr>)))
         (\<lambda>e. then_op (set_host (\<lambda>h. h\<lparr>hs_test_host := None\<rparr>)) (raise_op e)))
      (try_op
         (then_op (start_test V t) (then_op (lift_op (hv_params V)) (module_start V dv m)))
         (\<lambda>e. then_op (set_host (\<lambda>h. h\<lparr>hs_test_host := None\<rparr>))
             (then_op release_port
             (then_op (set_host (\<lambda>h. h\<lparr>hs_test_port := None\<rparr>))
             (then_op (monitor_cleanup V True)
               (raise_op e)))))))"

lemma run_test_begin:
  "run_test V dv t = then_op (set_host (\<lambda>h. h\<lparr>hs_timeout_handler := Some MainTimeout\<rparr>)) (bind_op (new_test V dv t) (begin_test V dv t))"
  unfolding run_test_def begin_test_def [abs_def] by (rule refl)

lemma calm_begin: "frames calm_run (begin_test V dv t m)"
  unfolding begin_test_def by (intro calm_intros calm_set_host; simp)

lemma take_test_effect:
  fixes V dv
  assumes "hs_remaining_tests (hr_host s) = t # ts"
  defines "h \<equiv> hr_host s" and "h' \<equiv> hr_host (snd (take_test V dv t ts s))"
  shows "hs_enabled_tests h' = hs_enabled_tests h \<and> hs_remaining_tests h' = ts \<and> permitted\<^sup>*\<^sup>* (hs_state h) (hs_state h') \<and>
    (started_tests h' = started_tests h \<or> started_tests h' = started_tests h @ [t])"
proof -
  let ?s1 = "s\<lparr>hr_host := (hr_host s)\<lparr>hs_remaining_tests := ts, hs_timeout_handler := Some MainTimeout\<rparr>\<rparr>"
  obtain r s2 where s2: "new_test V dv t ?s1 = (r, s2)" by (cases "new_test V dv t ?s1")
  then obtain ms where ms: "ms \<in> {[], [t]}" "same_lists (hr_host ?s1) (hr_host s2)"
    "started_tests (hr_host s2) = started_tests (hr_host ?s1) @ ms"
    using new_test_effect [of t V dv ?s1] by (auto simp: Let_def)
  have run: "snd (take_test V dv t ts s) = (case r of Inl e \<Rightarrow> s2 | Inr m \<Rightarrow> snd (begin_test V dv t m s2))"
    using s2 by (simp add: take_test_def run_test_begin then_op_def bind_op_def set_host_def modify_op_def split: sum.splits)
  have "calm (hr_host s2) h'"
  proof (cases r)
    case (Inl e)
    then show ?thesis unfolding h'_def run by (simp add: calm_def)
  next
    case (Inr m)
    then show ?thesis unfolding h'_def run using framesD [OF calm_begin, of s2 V dv t m] by (simp add: calm_run_def)
  qed
  with ms show ?thesis by (auto simp: calm_def same_lists_def h_def started_tests_def)
qed

interpretation states: host_frame "\<lambda>h h'. permitted\<^sup>*\<^sup>* (hs_state h) (hs_state h')"
  by unfold_locales (auto simp: calm_def dest: take_test_effect [THEN conjunct2, THEN conjunct2, THEN conjunct1])

text \<open>The tests a host has started are among those it has taken from the list, in their order.\<close>

definition order_ok :: "host \<Rightarrow> bool" where
  "order_ok h \<longleftrightarrow> (\<exists>taken. hs_enabled_tests h = taken @ hs_remaining_tests h \<and> subseq (started_tests h) taken)"

lemma order_take:
  assumes "hs_remaining_tests (hr_host s) = t # ts" "order_ok (hr_host s)"
  shows "order_ok (hr_host (snd (take_test V dv t ts s)))"
proof -
  let ?h = "hr_host s" and ?h' = "hr_host (snd (take_test V dv t ts s))"
  obtain taken where taken: "hs_enabled_tests ?h = taken @ t # ts" "subseq (started_tests ?h) taken"
    using assms by (auto simp: order_ok_def)
  note effect = take_test_effect [OF assms(1), of V dv]
  have "subseq (started_tests ?h') (taken @ [t])"
    using effect taken(2) by (auto intro: list_emb_append_mono list_emb_prefix)
  with effect taken(1) show ?thesis unfolding order_ok_def by (intro exI [of _ "taken @ [t]"]) auto
qed

interpretation order: host_frame "\<lambda>h h'. order_ok h \<longrightarrow> order_ok h'"
proof unfold_locales
  fix x y z assume "order_ok x \<longrightarrow> order_ok y" "order_ok y \<longrightarrow> order_ok z"
  then show "order_ok x \<longrightarrow> order_ok z" by blast
next
  fix x y assume "calm x y"
  then show "order_ok x \<longrightarrow> order_ok y" by (simp add: calm_def order_ok_def)
next
  fix s :: host_run and t ts V dv assume "hs_remaining_tests (hr_host s) = t # ts"
  then show "order_ok (hr_host s) \<longrightarrow> order_ok (hr_host (snd (take_test V dv t ts s)))" using order_take by blast
qed

lemma new_host_order: "new_host V dv p = Inr x \<Longrightarrow> order_ok x"
proof -
  assume "new_host V dv p = Inr x"
  then obtain config enabled where x: "x = snd (run_alone (then_op (record_state V ''startup'') (record_named_result (Some ''info'') no_args))
      (host_init V (dv_mac dv) p config enabled))"
    by (auto simp: new_host_def bind_result_def split: sum.splits if_splits)
  have "frames order.goes (then_op (record_state V ''startup'') (record_named_result (Some ''info'') no_args))"
    by (rule order.from_calm) (intro calm_intros)
  from order.run_alone_goes [OF this, of "host_init V (dv_mac dv) p config enabled"] show ?thesis
    by (simp add: x order_ok_def host_init_def started_tests_def)
qed

end
