(* ===== verification/Report_Properties.thy ===== *)
theory Report_Properties
  imports Report Runner
begin

text \<open>
  Properties of the report: which lines of a report file are results, that every result is counted
  once and every required test has one, that the tables can always be written, and that the result
  of a device depends on the order of the lines.
\<close>

subsection \<open>Lines of a report file\<close>

definition word_ok :: "string \<Rightarrow> bool" where
  \<comment> \<open>a word without whitespace\<close>
  "word_ok w = list_all (\<lambda>c. \<not> is_space c) w"

lemma word_chars: "word_ok w \<Longrightarrow> list_all (\<lambda>c. any_char c \<and> \<not> is_space c) w"
  by (auto simp: word_ok_def list_all_iff any_char_def is_space_def newline_def Let_def)

lemma space_is_space [simp]: "is_space CHR '' ''" "is_space newline"
  by (simp_all add: is_space_def newline_def Let_def)

definition notes_regex :: rx where
  \<comment> \<open>the part of \<open>result_regex\<close> from the third group on\<close>
  "notes_regex = Cat (Group 3 (Many True 0 (\<lambda>c. c \<noteq> CHR ''%''))) (Cat (Many True 0 is_space)
      (Cat (Opt (Group 4 (Cat (lit ''%%'') (Many True 0 any_char)))) Eol))"

lemma result_regex_eq:
  "result_regex = Cat Bol (Cat (lit ''RESULT '') (Cat (Group 1 (Many False 0 any_char)) (Cat (Many True 1 is_space)
     (Cat (Group 2 (Many False 0 any_char)) (Cat (Many True 1 is_space) notes_regex)))))"
  by (simp add: result_regex_def notes_regex_def)

lemma takeWhile_space: "w \<noteq> [] \<Longrightarrow> \<not> is_space (hd w) \<Longrightarrow> takeWhile is_space (CHR '' '' # w) = '' ''"
  by (cases w) auto

text \<open>Notes without a percent sign are all in the third group.\<close>

lemma notes_match:
  assumes "CHR ''%'' \<notin> set s"
  shows "\<exists>p ys. rx_match notes_regex (pos, s, g) = (p, [], dict_set 3 s g) # ys"
proof -
  have all: "takeWhile (\<lambda>c. c \<noteq> CHR ''%'') s = s" using assms by (auto simp: takeWhile_eq_all_conv)
  have "rx_match (Cat (Many True 0 is_space) (Cat (Opt (Group 4 (Cat (lit ''%%'') (Many True 0 any_char)))) Eol)) (pos, [], g') =
      [(pos, [], g')]" for pos g' by simp
  then show ?thesis unfolding notes_regex_def
    by (simp add: all rev_map [symmetric] upt_rec [of _ "Suc _"] del: rx_match.simps(3))
      (simp add: all rev_map [symmetric])
qed

lemma space_then:
  assumes "w \<noteq> []" "\<not> is_space (hd w)" "rx_match r (Suc pos, w, g) = x # xs"
  shows "\<exists>ys. rx_match (Cat (Many True 1 is_space) r) (pos, CHR '' '' # w, g) = x # ys"
proof (rule greedy_first)
  have tw: "takeWhile is_space (CHR '' '' # w) = '' ''" using assms(1,2) by (rule takeWhile_space)
  have dw: "dropWhile is_space (CHR '' '' # w) = w" using assms(1,2) by (cases w) auto
  show "1 \<le> length (takeWhile is_space (CHR '' '' # w))" unfolding tw by simp
  show "rx_match r (pos + length (takeWhile is_space (CHR '' '' # w)), dropWhile is_space (CHR '' '' # w), g) = x # xs"
    unfolding tw dw using assms(3) by simp
qed

lemma space_needs: "needs is_space (Cat (Many True 1 is_space) r)"
  by (rule needs_Cat [OF needs_Many]) simp

text \<open>A word, a space, and what follows.\<close>

lemma word_then:
  assumes "word_ok w" "v \<noteq> []" "\<not> is_space (hd v)"
    and "rx_match r (Suc (pos + length w), v, dict_set k w g) = x # xs"
  shows "\<exists>ys. rx_match (Cat (Group k (Many False 0 any_char)) (Cat (Many True 1 is_space) r)) (pos, w @ CHR '' '' # v, g) = x # ys"
proof -
  obtain ys where "rx_match (Cat (Many True 1 is_space) r) (pos + length w, CHR '' '' # v, dict_set k w g) = x # ys"
    using space_then [OF assms(2-4)] by blast
  from lazy_group_word [OF word_chars [OF assms(1)] space_needs this] show ?thesis .
qed

lemma result_line_from:
  assumes "rx_match (Cat (Group 1 (Many False 0 any_char)) (Cat (Many True 1 is_space)
     (Cat (Group 2 (Many False 0 any_char)) (Cat (Many True 1 is_space) notes_regex)))) (7, s, []) = (p, s', g) # ys"
  shows "result_line (''RESULT '' @ s) = Some (the (dict_get g 1), the (dict_get g 2), the (dict_get g 3))"
proof -
  have "rx_match (Cat (lit ''RESULT '') r) (0, ''RESULT '' @ s, []) = rx_match r (7, s, [])" for r
    by (simp only: rx_match.simps(4) lit_match) (simp add: eval_nat_numeral)
  then have "rx_search result_regex (''RESULT '' @ s) = Some g"
    unfolding result_regex_eq search_anchored using assms by simp
  then show ?thesis by (simp add: result_line_def)
qed

text \<open>A line of a report file in the documented form, \<open>RESULT\<close>, the result, the name of the test and
  notes without a percent sign, is read as that result of that test; the notes keep the end of the line.\<close>

theorem result_line_roundtrip:
  assumes "word_ok result" "word_ok name" "name \<noteq> []" "notes \<noteq> []" "\<not> is_space (hd notes)" "CHR ''%'' \<notin> set notes"
  shows "result_line (''RESULT '' @ result @ '' '' @ name @ '' '' @ notes @ [newline]) = Some (result, name, notes @ [newline])"
proof -
  let ?t = "notes @ [newline]"
  have "CHR ''%'' \<notin> set ?t" using assms(6) by (simp add: newline_def)
  from notes_match [OF this] obtain p ys where 3: "rx_match notes_regex (Suc (Suc (7 + length result) + length name), ?t, dict_set 2 name (dict_set 1 result [])) =
      (p, [], dict_set 3 ?t (dict_set 2 name (dict_set 1 result []))) # ys"
    by blast
  have t: "?t \<noteq> []" "\<not> is_space (hd ?t)" using assms(4,5) by auto
  have n: "name @ CHR '' '' # ?t \<noteq> []" "\<not> is_space (hd (name @ CHR '' '' # ?t))"
    using assms(2,3) by (auto simp: word_ok_def list_all_iff)
  obtain ys2 where 2: "rx_match (Cat (Group 2 (Many False 0 any_char)) (Cat (Many True 1 is_space) notes_regex))
      (Suc (7 + length result), name @ CHR '' '' # ?t, dict_set 1 result []) =
      (p, [], dict_set 3 ?t (dict_set 2 name (dict_set 1 result []))) # ys2"
    using word_then [OF assms(2) t 3] by blast
  from word_then [OF assms(1) n 2] obtain ys1 where
    "rx_match (Cat (Group 1 (Many False 0 any_char)) (Cat (Many True 1 is_space)
     (Cat (Group 2 (Many False 0 any_char)) (Cat (Many True 1 is_space) notes_regex)))) (7, result @ CHR '' '' # name @ CHR '' '' # ?t, []) =
      (p, [], dict_set 3 ?t (dict_set 2 name (dict_set 1 result []))) # ys1" by blast
  from result_line_from [OF this] show ?thesis by simp
qed

theorem result_line_roundtrip_witness:
  "result_line (''RESULT '' @ ''pass'' @ '' '' @ ''dns.ok'' @ '' '' @ ''all good'' @ [newline]) = Some (''pass'', ''dns.ok'', ''all good'' @ [newline])"
  by (rule result_line_roundtrip) (simp_all add: word_ok_def is_space_def Let_def)

text \<open>A percent sign in the notes that is not followed by another one.\<close>

definition stray_percent :: "string \<Rightarrow> bool" where
  "stray_percent s \<longleftrightarrow> (\<exists>u c v. s = u @ CHR ''%'' # c # v \<and> CHR ''%'' \<notin> set u \<and> c \<noteq> CHR ''%'')"

lemma stray_drop:
  assumes "s = u @ CHR ''%'' # c # v" "CHR ''%'' \<notin> set u" "c \<noteq> CHR ''%''" "i \<le> length u"
  shows "stray_percent (drop i s)"
  unfolding stray_percent_def using assms by (intro exI [of _ "drop i u"]) (auto dest: in_set_dropD)

lemma stray_blocks:
  assumes "stray_percent s"
  shows "rx_match (Cat (Opt (Group 4 (Cat (lit ''%%'') (Many True 0 any_char)))) Eol) (pos, s, g) = []"
proof -
  from assms obtain u c v where s: "s = u @ CHR ''%'' # c # v" "CHR ''%'' \<notin> set u" "c \<noteq> CHR ''%''"
    by (auto simp: stray_percent_def)
  have "take 2 s \<noteq> ''%%''" using s by (cases u; cases "tl u") auto
  then have "rx_match (Group 4 (Cat (lit ''%%'') r)) (pos, s, g) = []" for r
    by (simp only: rx_match.simps(4,7) lit_match) (simp add: numeral_2_eq_2)
  moreover have "s \<noteq> []" "s \<noteq> [newline]" using s by (auto simp: append_eq_Cons_conv)
  ultimately show ?thesis by (simp only: rx_match.simps(4,6,9)) simp
qed

lemma run_before_percent:
  assumes "s = u @ CHR ''%'' # c # v" "\<not> P CHR ''%''"
  shows "length (takeWhile P s) \<le> length u"
  using assms by (induction u arbitrary: s) auto

lemma stray_run:
  assumes "stray_percent s" "\<not> P CHR ''%''" "\<And>pos t g. stray_percent t \<Longrightarrow> rx_match r (pos, t, g) = []"
  shows "rx_match (Cat (Many b n P) r) (pos, s, g) = []"
proof -
  from assms(1) obtain u c v where s: "s = u @ CHR ''%'' # c # v" "CHR ''%'' \<notin> set u" "c \<noteq> CHR ''%''"
    by (auto simp: stray_percent_def)
  have "rx_match r (pos + i, drop i s, g) = []" if "i < Suc (length (takeWhile P s))" for i
    using that run_before_percent [where P = P, OF s(1) assms(2)] by (intro assms(3) stray_drop [OF s]) simp
  then show ?thesis by (simp only: rx_match.simps(3,4) prod.case) (simp del: upt_Suc)
qed

lemma stray_notes:
  assumes "stray_percent s"
  shows "rx_match notes_regex (pos, s, g) = []"
proof -
  let ?r = "Cat (Many True 0 is_space) (Cat (Opt (Group 4 (Cat (lit ''%%'') (Many True 0 any_char)))) Eol)"
  from assms obtain u c v where s: "s = u @ CHR ''%'' # c # v" "CHR ''%'' \<notin> set u" "c \<noteq> CHR ''%''"
    by (auto simp: stray_percent_def)
  have r: "rx_match ?r (pos, t, g) = []" if "stray_percent t" for pos t g
    by (rule stray_run [OF that _ stray_blocks]) (simp_all add: is_space_def Let_def)
  have "rx_match ?r (pos + i, drop i s, g') = []" if "i < Suc (length (takeWhile (\<lambda>c. c \<noteq> CHR ''%'') s))" for i g'
    using that run_before_percent [OF s(1), of "\<lambda>c. c \<noteq> CHR ''%''"] by (intro r stray_drop [OF s]) simp
  then show ?thesis unfolding notes_regex_def
    by (simp only: rx_match.simps(3,7) rx_match.simps(4) [of "Group _ _"] prod.case) (simp del: upt_Suc rx_match.simps)
qed

text \<open>A percent sign in the notes goes wrong: when it is followed by a space, the name of the test
  is read as everything from the name up to the percent sign, so the result is recorded under a name
  no test has.\<close>

theorem percent_sign_corrupts_test_name:
  assumes "word_ok result" "word_ok name" "name \<noteq> []" "list_all any_char before" "CHR ''%'' \<notin> set (name @ before)"
    and "notes \<noteq> []" "\<not> is_space (hd notes)" "CHR ''%'' \<notin> set notes"
  shows "result_line (''RESULT '' @ result @ '' '' @ name @ '' '' @ before @ ''% '' @ notes) =
    Some (result, name @ '' '' @ before @ ''%'', notes)"
proof -
  let ?w = "name @ '' '' @ before @ ''%''" and ?r = "Cat (Many True 1 is_space) notes_regex"
  let ?g = "dict_set 2 ?w (dict_set 1 result [])"
  have "list_all any_char ?w" using word_chars [OF assms(2)] assms(4) by (auto simp: list_all_iff any_char_def newline_def)
  moreover have "rx_match ?r (pos, drop i (?w @ CHR '' '' # notes), g) = []" if "i < length ?w" for i pos g
  proof (rule stray_run [OF _ _ stray_notes])
    show "stray_percent (drop i (?w @ CHR '' '' # notes))"
      by (rule stray_drop [where u = "name @ '' '' @ before" and c = "CHR '' ''" and v = "notes"]) (use assms(5) that in auto)
  qed (simp_all add: is_space_def Let_def)
  moreover from notes_match [OF assms(8)] obtain p ys where
    "rx_match notes_regex (Suc (Suc (7 + length result) + length ?w), notes, ?g) = (p, [], dict_set 3 notes ?g) # ys" by blast
  from space_then [OF assms(6,7) this] obtain ys2 where
    "rx_match ?r (Suc (7 + length result) + length ?w, CHR '' '' # notes, ?g) = (p, [], dict_set 3 notes ?g) # ys2" by blast
  ultimately obtain ys3 where 2: "rx_match (Cat (Group 2 (Many False 0 any_char)) ?r)
      (Suc (7 + length result), ?w @ CHR '' '' # notes, dict_set 1 result []) = (p, [], dict_set 3 notes ?g) # ys3"
    using lazy_group_prefix [of any_char ?w ?r "Suc (7 + length result)" "CHR '' '' # notes" 2 "dict_set 1 result []"] by blast
  have "?w @ CHR '' '' # notes \<noteq> []" "\<not> is_space (hd (?w @ CHR '' '' # notes))"
    using assms(2,3) by (auto simp: word_ok_def list_all_iff)
  from word_then [OF assms(1) this 2] obtain ys1 where
    "rx_match (Cat (Group 1 (Many False 0 any_char)) (Cat (Many True 1 is_space) (Cat (Group 2 (Many False 0 any_char)) ?r)))
      (7, result @ CHR '' '' # ?w @ CHR '' '' # notes, []) = (p, [], dict_set 3 notes ?g) # ys1" by blast
  from result_line_from [OF this] show ?thesis by simp
qed

theorem percent_sign_corrupts_test_name_witness:
  "result_line (''RESULT '' @ ''pass'' @ '' '' @ ''ntp.ok'' @ '' '' @ ''lost 50'' @ ''% '' @ ''of packets'') =
     Some (''pass'', ''ntp.ok'' @ '' '' @ ''lost 50'' @ ''%'', ''of packets'')"
  by (rule percent_sign_corrupts_test_name) (simp_all add: word_ok_def is_space_def any_char_def newline_def Let_def)

subsection \<open>Counting\<close>

text \<open>
  Every entry is counted once, where the headers of the tables say; an entry without a module is a
  test that was missing.
\<close>

definition counted :: "report \<Rightarrow> string \<Rightarrow> string \<Rightarrow> nat" where
  "counted r x y = length (filter (\<lambda>(n, e). te_expected e = x \<and> te_result e = y) (rp_results r))"

definition entry_ok :: "report \<Rightarrow> string \<Rightarrow> test_entry \<Rightarrow> bool" where
  "entry_ok r n e \<longleftrightarrow> te_category e = category_of r n \<and> te_expected e = expected_of r n \<and>
     expected_of r n \<in> set (rp_expected_headers r) \<and> category_of r n \<in> set (rp_categories r) \<and>
     (te_module_name e = None \<longleftrightarrow> n \<in> set (rp_missing r)) \<and> (te_module_name e = None \<longrightarrow> te_result e = MISSING_TEST_RESULT)"

definition report_ok :: "report \<Rightarrow> bool" where
  "report_ok r \<longleftrightarrow> dict_ok (rp_results r) \<and> (\<forall>(n, e) \<in> set (rp_results r). entry_ok r n e) \<and>
     set (rp_missing r) \<subseteq> set (dict_keys (rp_results r)) \<and> (\<forall>x y. expected_count r x y = counted r x y)"

lemma info_cong:
  "rp_setup r' = rp_setup r \<Longrightarrow> category_of r' n = category_of r n" "rp_setup r' = rp_setup r \<Longrightarrow> expected_of r' n = expected_of r n"
  "rp_setup r' = rp_setup r \<Longrightarrow> required_of r' n = required_of r n"
  by (simp_all add: category_of_def expected_of_def required_of_def get_test_info_def)

lemma info_missing:
  "category_of (r\<lparr>rp_missing := m\<rparr>) n = category_of r n" "expected_of (r\<lparr>rp_missing := m\<rparr>) n = expected_of r n"
  by (rule info_cong, simp)+

lemma set_add_new [simp]: "set (add_new x xs) = insert x (set xs)"
  by (auto simp: add_new_def)

lemma count_result_get:
  "expected_count (r\<lparr>rp_expecteds := count_result a b (rp_expecteds r)\<rparr>) x y = expected_count r x y + (if x = a \<and> y = b then 1 else 0)"
  by (auto simp: expected_count_def count_result_def Let_def dict_get_set split: option.splits)

lemma accumulate_new:
  fixes res extra :: string and m :: "string option"
  assumes "n \<notin> set (dict_keys (rp_results r))"
  defines "r' \<equiv> snd (accumulate_result n res extra m r)"
  shows "accumulate_result n res extra m r = (Inr (), r')"
    and "rp_results r' = rp_results r @ [(n, \<lparr>te_result = res, te_test_name = n, te_module_name = m, te_category = category_of r n,
           te_expected = expected_of r n, te_description = extra\<rparr>)]"
    and "rp_setup r' = rp_setup r" "rp_missing r' = rp_missing r"
    and "set (rp_expected_headers r') = insert (expected_of r n) (set (rp_expected_headers r))"
    and "set (rp_categories r') = insert (category_of r n) (set (rp_categories r))"
    and "expected_count r' x y = expected_count r x y + (if x = expected_of r n \<and> y = res then 1 else 0)"
proof -
  show "expected_count r' x y = expected_count r x y + (if x = expected_of r n \<and> y = res then 1 else 0)"
    using assms count_result_get [where r = r and a = "expected_of r n" and b = res and x = x and y = y] by (simp add: accumulate_result_def op_simps expected_count_def)
qed (use assms in \<open>simp_all add: accumulate_result_def op_simps map_of_eq_None_iff dict_set_new\<close>)

text \<open>An entry is added to a report.\<close>

lemma report_ok_add:
  assumes ok: "report_ok r" and new: "n \<notin> set (dict_keys (rp_results r))"
    and r': "rp_results r' = rp_results r @ [(n, e)]" "rp_setup r' = rp_setup r"
      "set (rp_expected_headers r) \<subseteq> set (rp_expected_headers r')" "set (rp_categories r) \<subseteq> set (rp_categories r')"
      "entry_ok r' n e" "set (rp_missing r') = set (rp_missing r) \<union> (if te_module_name e = None then {n} else {})"
      "\<And>x y. expected_count r' x y = expected_count r x y + (if x = te_expected e \<and> y = te_result e then 1 else 0)"
  shows "report_ok r'"
proof -
  have "entry_ok r' n' e'" if "(n', e') \<in> set (rp_results r)" for n' e'
  proof -
    have "n' \<noteq> n" using that new by force
    then show ?thesis using that ok r' by (auto simp: report_ok_def entry_ok_def info_cong [OF r'(2)] split: if_splits)
  qed
  then have "\<forall>(n, e) \<in> set (rp_results r'). entry_ok r' n e" using r'(1,5) by auto
  moreover have "expected_count r' x y = counted r' x y" for x y
    using ok r'(7) by (simp add: report_ok_def counted_def r'(1))
  ultimately show ?thesis using ok new r'(1,6) by (auto simp: report_ok_def)
qed

lemma accumulate_ok:
  assumes "report_ok r"
  shows "report_ok (snd (accumulate_result n res extra (Some m) r))"
proof (cases "n \<in> set (dict_keys (rp_results r))")
  case False
  note r' = accumulate_new [OF False, of res extra "Some m"]
  have "n \<notin> set (rp_missing r)" using assms False by (auto simp: report_ok_def)
  then show ?thesis
    by (intro report_ok_add [OF assms False r'(2,3)]) (use r' in \<open>auto simp: entry_ok_def info_cong [OF r'(3)]\<close>)
qed (use assms in \<open>simp add: accumulate_result_def op_simps\<close>)

lemma missing_ok:
  assumes "report_ok r"
  shows "report_ok (snd (find_missing_test n r))"
proof (cases "required_of r n \<notin> {None, Some []} \<and> n \<notin> set (dict_keys (rp_results r))")
  case True
  then have new: "n \<notin> set (dict_keys (rp_results r))" by simp
  note r' = accumulate_new [OF new, of MISSING_TEST_RESULT "[]" None]
  let ?r' = "snd (accumulate_result n MISSING_TEST_RESULT [] None r)"
  let ?r'' = "?r'\<lparr>rp_missing := rp_missing ?r' @ [n]\<rparr>"
  have "expected_count ?r'' = expected_count ?r'" by (intro ext) (simp add: expected_count_def)
  then have "report_ok ?r''"
    by (intro report_ok_add [OF assms new]) (use r' in \<open>auto simp: entry_ok_def info_missing info_cong [OF r'(3)]\<close>)
  moreover obtain q where "accumulate_result n MISSING_TEST_RESULT [] None r = (Inr (), q)" using r'(1) by blast
  ultimately show ?thesis using True by (auto simp: find_missing_test_def op_simps)
qed (use assms in \<open>auto simp: find_missing_test_def op_simps\<close>)

lemma report_ok_modules: "report_ok (r\<lparr>rp_modules := m\<rparr>) = report_ok r"
proof -
  have "expected_count (r\<lparr>rp_modules := m\<rparr>) = expected_count r" "category_of (r\<lparr>rp_modules := m\<rparr>) = category_of r"
    "expected_of (r\<lparr>rp_modules := m\<rparr>) = expected_of r"
    by (intro ext; simp add: expected_count_def category_of_def expected_of_def get_test_info_def)+
  then show ?thesis by (simp add: report_ok_def entry_ok_def counted_def)
qed

lemma process_result_line_ok: "keeps report_ok (process_result_line m line)"
proof -
  have "keeps report_ok (accumulate_result n res extra (Some m))" for n res extra
    by (simp add: keeps_def accumulate_ok)
  then show ?thesis unfolding process_result_line_def
    by (auto intro!: keeps_intros simp: report_ok_modules split: option.splits)
qed

lemma process_module_ok: "keeps report_ok (process_module env m)"
  unfolding process_module_def
  by (auto intro!: keeps_intros process_result_line_ok simp: report_ok_modules split: prod.splits option.splits val.splits)

lemma find_missing_ok: "keeps report_ok (find_missing_test n)"
  by (simp add: keeps_def missing_ok)

lemma process_results_ok: "keeps report_ok (process_results env)"
  unfolding process_results_def find_missing_test_results_def
  by (intro keeps_intros process_module_ok find_missing_ok) (simp add: report_ok_modules)

definition fresh_report :: "report_setup \<Rightarrow> string \<Rightarrow> (string, result_items) dict \<Rightarrow> report" where
  \<comment> \<open>a report that was not finalized yet, whatever the modules recorded\<close>
  "fresh_report setup mac items = (report_init setup mac)\<lparr>rp_repitems := items\<rparr>"

definition processed_report :: "report_env \<Rightarrow> report_setup \<Rightarrow> string \<Rightarrow> (string, result_items) dict \<Rightarrow> report" where
  \<comment> \<open>the report when the results of its modules have been read, or reading them has failed\<close>
  "processed_report env setup mac items = snd (process_results env (fresh_report setup mac items))"

lemma fresh_report_ok: "report_ok (fresh_report s mac items)"
  by (simp add: report_ok_def fresh_report_def report_init_def expected_count_def counted_def)

lemma processed_report_ok: "report_ok (processed_report env s mac items)"
  unfolding processed_report_def by (rule keepsD [OF process_results_ok fresh_report_ok])

text \<open>The table of expectations is right: when the results of all modules have been read, also when
  reading them stopped with an exception, the number shown for an expectation and a result is the
  number of tests with that expectation and that result.\<close>

theorem expected_table_counts:
  "expected_count (processed_report env setup mac items) x y =
     card {name. \<exists>e. dict_get (rp_results (processed_report env setup mac items)) name = Some e \<and> te_expected e = x \<and> te_result e = y}"
proof -
  let ?r = "processed_report env setup mac items"
  let ?P = "\<lambda>(n :: string, e). te_expected e = x \<and> te_result e = y"
  have ok: "report_ok ?r" by (rule processed_report_ok)
  then have d: "dict_ok (rp_results ?r)" by (simp add: report_ok_def)
  have "expected_count ?r x y = length (map fst (filter ?P (rp_results ?r)))" using ok by (simp add: report_ok_def counted_def)
  also have "\<dots> = card (fst ` set (filter ?P (rp_results ?r)))"
    using d by (subst distinct_card [symmetric]) (simp_all add: distinct_map_filter)
  also have "fst ` set (filter ?P (rp_results ?r)) =
      {name. \<exists>e. dict_get (rp_results ?r) name = Some e \<and> te_expected e = x \<and> te_result e = y}"
    using d by (force simp: map_of_eq_Some_iff)
  finally show ?thesis .
qed

subsection \<open>Missing tests\<close>

text \<open>The results only grow.\<close>

definition grows :: "report \<Rightarrow> report \<Rightarrow> bool" where
  "grows r r' \<longleftrightarrow> rp_setup r' = rp_setup r \<and> set (dict_keys (rp_results r)) \<subseteq> set (dict_keys (rp_results r'))"

interpretation grows: step_frame grows
  by unfold_locales (auto simp: grows_def)

lemma accumulate_grows: "frames grows (accumulate_result n res extra m)"
  unfolding accumulate_result_def
  by (intro grows.intros) (auto simp: grows_def dom_update)

lemma missing_grows: "frames grows (find_missing_test n)"
  unfolding find_missing_test_def by (intro grows.intros accumulate_grows) (auto simp: grows_def)

lemma missing_loop_grows: "for_op ns find_missing_test r = (res, r') \<Longrightarrow> grows r r'"
  using framesD [OF grows.loop, of find_missing_test r ns] missing_grows by simp

lemma missing_found:
  assumes "find_missing_test n r = (Inr (), r')" "required_of r n \<notin> {None, Some []}"
  shows "n \<in> set (dict_keys (rp_results r'))"
proof (cases "n \<in> set (dict_keys (rp_results r))")
  case False
  have "n \<in> set (dict_keys (rp_results (snd (accumulate_result n MISSING_TEST_RESULT [] None r))))"
    using accumulate_new(2) [OF False, of MISSING_TEST_RESULT "[]" None] by simp
  moreover obtain q where "accumulate_result n MISSING_TEST_RESULT [] None r = (Inr (), q)"
    using accumulate_new(1) [OF False] by blast
  ultimately show ?thesis using assms False by (auto simp: find_missing_test_def op_simps)
qed (use assms in \<open>auto simp: find_missing_test_def op_simps\<close>)

lemma missing_loop:
  "for_op ns find_missing_test r = (Inr (), r') \<Longrightarrow> n \<in> set ns \<Longrightarrow> required_of r n \<notin> {None, Some []} \<Longrightarrow>
     n \<in> set (dict_keys (rp_results r'))"
proof (induction ns arbitrary: r)
  case (Cons m ns)
  obtain r1 where r1: "find_missing_test m r = (Inr (), r1)" "for_op ns find_missing_test r1 = (Inr (), r')"
    using Cons.prems(1) by (auto simp: op_simps split: prod.splits sum.splits)
  have g: "grows r r1" using framesD [OF missing_grows, of r m] r1(1) by simp
  have "grows r1 r'" by (rule missing_loop_grows [OF r1(2)])
  then have keep: "set (dict_keys (rp_results r1)) \<subseteq> set (dict_keys (rp_results r'))" by (simp add: grows_def)
  show ?case
  proof (cases "n = m")
    case True
    with missing_found [OF r1(1)] Cons.prems(3) keep show ?thesis by blast
  next
    case False
    have "required_of r1 n = required_of r n" using g by (intro info_cong) (simp add: grows_def)
    with False Cons.IH [OF r1(2)] Cons.prems(2,3) show ?thesis by simp
  qed
qed simp

lemma process_results_setup: "rp_setup (snd (process_results env r)) = rp_setup r"
proof -
  have "frames grows (process_results env)"
    unfolding process_results_def process_module_def process_result_line_def find_missing_test_results_def
    by (auto intro!: grows.intros accumulate_grows missing_grows simp: grows_def split: prod.splits option.splits val.splits)
  from framesD [OF this, of r] show ?thesis by (simp add: grows_def)
qed

text \<open>Only required tests are listed as missing.\<close>

definition test_required :: "report_setup \<Rightarrow> string \<Rightarrow> bool" where
  "test_required setup name \<longleftrightarrow>
     (case dict_get (rs_tests setup) name of None \<Rightarrow> False | Some info \<Rightarrow> ti_required info \<notin> {None, Some []})"

lemma test_required_of: "rp_setup r = setup \<Longrightarrow> required_of r name \<notin> {None, Some []} \<longleftrightarrow> test_required setup name"
  by (auto simp: required_of_def get_test_info_def test_required_def split: option.splits)

definition lists_required :: "report \<Rightarrow> report \<Rightarrow> bool" where
  "lists_required r r' \<longleftrightarrow> rp_setup r' = rp_setup r \<and>
     (\<forall>n \<in> set (rp_missing r'). n \<in> set (rp_missing r) \<or> test_required (rp_setup r) n)"

interpretation lists_required: step_frame lists_required
  by unfold_locales (auto simp: lists_required_def)

lemma accumulate_lists: "frames lists_required (accumulate_result n res extra m)"
  unfolding accumulate_result_def
  by (intro lists_required.intros) (auto simp: lists_required_def)

lemma find_missing_lists: "frames lists_required (find_missing_test n)"
  unfolding frames_def
proof
  fix r
  have "lists_required r (snd (accumulate_result n MISSING_TEST_RESULT [] None r))"
    by (rule framesD [OF accumulate_lists])
  then show "lists_required r (snd (find_missing_test n r))"
    using test_required_of [of r "rp_setup r" n]
    by (auto simp: find_missing_test_def op_simps lists_required_def split: sum.splits prod.splits)
qed

lemma process_results_lists: "lists_required r (snd (process_results env r))"
proof -
  have "frames lists_required (process_results env)"
    unfolding process_results_def process_module_def process_result_line_def find_missing_test_results_def
    by (auto intro!: lists_required.intros accumulate_lists find_missing_lists simp: lists_required_def
        split: prod.splits option.splits val.splits)
  then show ?thesis by (rule framesD)
qed

text \<open>A required test has a result once the results have been read.\<close>

lemma required_test_has_result:
  assumes "process_results env (fresh_report setup mac items) = (Inr (), r)" "test_required setup name"
  shows "\<exists>e. dict_get (rp_results r) name = Some e"
proof -
  obtain r1 where r1: "for_op (dict_keys (rs_tests (rp_setup r1))) find_missing_test r1 = (Inr (), r)"
    using assms(1) by (auto simp: process_results_def find_missing_test_results_def op_simps split: prod.splits sum.splits)
  have "grows r1 r" by (rule missing_loop_grows [OF r1])
  moreover have "rp_setup r = setup"
    using process_results_setup [of env "fresh_report setup mac items"] assms(1) by (simp add: fresh_report_def report_init_def)
  ultimately have s: "rp_setup r1 = setup" by (simp add: grows_def)
  then have "name \<in> set (dict_keys (rs_tests (rp_setup r1)))"
    using assms(2) unfolding dict_keys_get by (auto simp: test_required_def split: option.splits)
  with missing_loop [OF r1] test_required_of [OF s] assms(2) have "name \<in> set (dict_keys (rp_results r))" by blast
  then show ?thesis unfolding dict_keys_get by blast
qed


text \<open>A report with two required tests and one that is only informative; a module reported one of
  the required tests and nothing else.\<close>

definition example_report_env :: "string list \<Rightarrow> report_env" where
  "example_report_env ls = \<lparr>re_lines = (\<lambda>_. Inr ls), re_text = (\<lambda>_. Inr (concat ls)), re_header = None, re_str = (\<lambda>_. []),
     re_pdf = Inr (), re_save = Inr ()\<rparr>"

definition required_info :: test_info where
  "required_info = \<lparr>ti_category = Some ''Network'', ti_expected = Some ''Required'', ti_required = Some ''pass''\<rparr>"

definition example_setup :: "string list \<Rightarrow> report_setup" where
  "example_setup names = \<lparr>rs_tests = map (\<lambda>n. (n, required_info)) names, rs_results = [], rs_expected = [], rs_categories = []\<rparr>"

definition mixed_setup :: report_setup where
  "mixed_setup = (example_setup [''dns.ok'', ''ntp.ok''])\<lparr>rs_tests :=
     rs_tests (example_setup [''dns.ok'', ''ntp.ok'']) @ [(''tls.ok'', required_info\<lparr>ti_required := None\<rparr>)]\<rparr>"

definition mixed_report :: report where
  "mixed_report = processed_report (example_report_env [''RESULT pass ntp.ok fine''])
     mixed_setup ''9a:02'' [(''dns'', [(REPORT_PATH, Str ''report'')])]"

lemma mixed_report_read:
  "process_results (example_report_env [''RESULT pass ntp.ok fine''])
     (fresh_report mixed_setup ''9a:02'' [(''dns'', [(REPORT_PATH, Str ''report'')])]) = (Inr (), mixed_report)"
  "rp_missing mixed_report = [''dns.ok'']"
proof -
  let ?run = "process_results (example_report_env [''RESULT pass ntp.ok fine''])
     (fresh_report mixed_setup ''9a:02'' [(''dns'', [(REPORT_PATH, Str ''report'')])])"
  have "\<not> isl (fst ?run)" "rp_missing (snd ?run) = [''dns.ok'']" by code_simp+
  moreover have "\<not> isl (fst x) \<Longrightarrow> x = (Inr (), snd x)" for x :: "unit result \<times> report"
    by (cases x, cases "fst x") auto
  ultimately show "?run = (Inr (), mixed_report)" "rp_missing mixed_report = [''dns.ok'']"
    unfolding mixed_report_def processed_report_def by blast+
qed


subsection \<open>The category table\<close>

lemma index_of_found: "x \<in> set xs \<Longrightarrow> \<exists>i<length xs. index_of x xs = Inr i"
proof (induction xs)
  case (Cons y ys)
  then show ?case by (cases "x = y") (auto simp: bind_result_def)
qed simp

definition row_shape :: "report \<Rightarrow> category_row \<Rightarrow> bool" where
  "row_shape r c \<longleftrightarrow> length (cr_results c) = length (rp_expected_headers r) \<and> list_all (\<lambda>row. length row = 3) (cr_results c)"

definition counts_for :: "report \<Rightarrow> string \<Rightarrow> string \<Rightarrow> bool" where
  "counts_for r category n \<longleftrightarrow> category_of r n = category \<and> required_of r n \<noteq> None"

definition row_sum :: "category_row \<Rightarrow> nat" where
  "row_sum c = sum_list (map sum_list (cr_results c))"

lemma row_sum_update:
  assumes "i < length m" "k < length (m ! i)"
  shows "sum_list (map sum_list (m[i := (m ! i)[k := m ! i ! k + 1]])) = Suc (sum_list (map sum_list m))"
proof -
  have "sum_list ((m ! i)[k := m ! i ! k + 1]) = Suc (sum_list (m ! i))"
    using assms(2) member_le_sum_list [of "m ! i ! k" "m ! i"] by (simp add: sum_list_update)
  moreover have "sum_list (m ! i) \<le> sum_list (map sum_list m)"
    using assms(1) by (intro member_le_sum_list) auto
  ultimately show ?thesis using assms(1) by (simp add: map_update sum_list_update)
qed

lemma count_one:
  assumes "row_shape r c" "n \<in> set (dict_keys (cr_entries c))" "expected_of r n \<in> set (rp_expected_headers r)" "counts_for r category n"
  obtains c' where "count_in_category r category n c = (Inr (), c')" "cr_total c' = Suc (cr_total c)" "row_sum c' = Suc (row_sum c)"
    "row_shape r c'" "set (dict_keys (cr_entries c')) = set (dict_keys (cr_entries c))"
proof -
  obtain i where i: "i < length (rp_expected_headers r)" "index_of (expected_of r n) (rp_expected_headers r) = Inr i"
    using index_of_found [OF assms(3)] by blast
  obtain e where e: "dict_get (cr_entries c) n = Some e" using assms(2) by (metis dict_keys_get not_None_eq)
  let ?k = "result_index (te_result e)"
  have l: "i < length (cr_results c)" "?k < length (cr_results c ! i)"
    using assms(1) i(1) by (auto simp: row_shape_def result_index_def list_all_length)
  have shape: "row_shape r (c\<lparr>cr_results := (cr_results c)[i := (cr_results c ! i)[?k := cr_results c ! i ! ?k + 1]]\<rparr>)"
    using assms(1) l(1) by (auto simp: row_shape_def list_all_length nth_list_update)
  show ?thesis
  proof (rule that)
    show "count_in_category r category n c = (Inr (), snd (count_in_category r category n c))"
      using assms(4) i(2) e by (simp add: count_in_category_def counts_for_def op_simps Let_def)
  qed (use assms(2,4) i(2) e shape row_sum_update [OF l] in
      \<open>auto simp: count_in_category_def counts_for_def op_simps Let_def row_sum_def row_shape_def dom_update\<close>)
qed

lemma category_loop:
  "row_shape r c \<Longrightarrow> set ns \<subseteq> set (dict_keys (cr_entries c)) \<Longrightarrow> \<forall>n\<in>set ns. expected_of r n \<in> set (rp_expected_headers r) \<Longrightarrow>
     \<exists>c'. for_op ns (count_in_category r category) c = (Inr (), c') \<and>
       cr_total c' = cr_total c + length (filter (counts_for r category) ns) \<and>
       row_sum c' = row_sum c + length (filter (counts_for r category) ns)"
proof (induction ns arbitrary: c)
  case (Cons n ns)
  show ?case
  proof (cases "counts_for r category n")
    case True
    obtain c1 where c1: "count_in_category r category n c = (Inr (), c1)" "cr_total c1 = Suc (cr_total c)" "row_sum c1 = Suc (row_sum c)"
      "row_shape r c1" "set (dict_keys (cr_entries c1)) = set (dict_keys (cr_entries c))"
      using count_one [OF Cons.prems(1) _ _ True] Cons.prems(2,3) by auto
    from Cons.IH [OF c1(4)] c1(5) Cons.prems(2,3) show ?thesis using c1 True by (auto simp: op_simps)
  next
    case False
    then have "count_in_category r category n c = (Inr (), c)" by (auto simp: count_in_category_def counts_for_def op_simps)
    with Cons.IH [OF Cons.prems(1)] Cons.prems(2,3) False show ?thesis by (auto simp: op_simps)
  qed
qed (simp add: op_simps)

text \<open>A row of the category table can always be written, its total is the number of the tests of
  the category that have a required result, and each of them is counted in exactly one of the passed,
  failed and skipped fields.\<close>

theorem category_row_totals:
  "\<exists>row. fst (category_row_of category (processed_report env s mac items)) = Inr row \<and>
     cr_total row = card {n \<in> set (dict_keys (rp_results (processed_report env s mac items))).
        category_of (processed_report env s mac items) n = category \<and> required_of (processed_report env s mac items) n \<noteq> None} \<and>
     sum_list (map sum_list (cr_results row)) = cr_total row"
proof -
  define r where "r = processed_report env s mac items"
  have ok: "report_ok r" unfolding r_def by (rule processed_report_ok)
  let ?ns = "dict_keys (rp_results r)"
  let ?c = "\<lparr>cr_total = 0, cr_results = map (\<lambda>_. [0, 0, 0]) (rp_expected_headers r), cr_result = NO_REQUIRED, cr_entries = rp_results r\<rparr>"
  have "row_shape r ?c" by (simp add: row_shape_def list_all_iff)
  moreover have "\<forall>n\<in>set ?ns. expected_of r n \<in> set (rp_expected_headers r)" using ok by (auto simp: report_ok_def entry_ok_def)
  ultimately obtain c where c: "for_op ?ns (count_in_category r category) ?c = (Inr (), c)"
    "cr_total c = length (filter (counts_for r category) ?ns)" "row_sum c = row_sum ?c + length (filter (counts_for r category) ?ns)"
    using category_loop [of r ?c ?ns category] by auto
  have "row_sum ?c = 0" by (simp add: row_sum_def comp_def)
  moreover have "length (filter (counts_for r category) ?ns) = card (set (filter (counts_for r category) ?ns))"
    using ok by (intro distinct_card [symmetric] distinct_filter) (simp add: report_ok_def)
  moreover have "set (filter (counts_for r category) ?ns) = {n \<in> set ?ns. category_of r n = category \<and> required_of r n \<noteq> None}"
    by (auto simp: counts_for_def)
  ultimately show ?thesis using c unfolding r_def [symmetric] by (auto simp: category_row_of_def row_sum_def)
qed

subsection \<open>The order of the results\<close>

text \<open>Whether a device passes depends on the order of the lines in a report. Two required tests of
  one category, one with the result \<open>info\<close> and one with \<open>pass\<close>: writing the category table turns
  \<open>info\<close> into \<open>pass\<close> when it comes second, and leaves it when it comes first, and the runner, which
  gets the same objects, then fails the device.\<close>

theorem info_result_depends_on_order:
  assumes "a \<noteq> b" "te_result ea = ''info''" "te_result eb = ''pass''"
    and "\<And>n. n = a \<or> n = b \<Longrightarrow> category_of r n = c \<and> required_of r n \<noteq> None \<and> expected_of r n \<in> set (rp_expected_headers r)"
    and "rp_categories r = [c]" "rp_modules r = [(m, [(RETURN_CODE, Num 0)], [a, b])]"
  shows "calculate_device_result [m] (all_modules (snd (write_category_table (r\<lparr>rp_results := [(a, ea), (b, eb)]\<rparr>)))) = Failed \<and>
    calculate_device_result [m] (all_modules (snd (write_category_table (r\<lparr>rp_results := [(b, eb), (a, ea)]\<rparr>)))) = Passed"
proof -
  obtain i j where i: "index_of (expected_of r a) (rp_expected_headers r) = Inr i" and j: "index_of (expected_of r b) (rp_expected_headers r) = Inr j"
    using index_of_found assms(4) by metis
  have same: "category_of (r\<lparr>rp_results := x\<rparr>) n = category_of r n" "required_of (r\<lparr>rp_results := x\<rparr>) n = required_of r n"
    "expected_of (r\<lparr>rp_results := x\<rparr>) n = expected_of r n" for x n
    by (rule info_cong, simp)+
  have row: "rp_results (snd (category_row_of c (r\<lparr>rp_results := [(a, ea), (b, eb)]\<rparr>))) = [(a, ea), (b, eb)]"
    "rp_results (snd (category_row_of c (r\<lparr>rp_results := [(b, eb), (a, ea)]\<rparr>))) = [(b, eb), (a, ea\<lparr>te_result := ''pass''\<rparr>)]"
    "\<exists>x. fst (category_row_of c (r\<lparr>rp_results := [(a, ea), (b, eb)]\<rparr>)) = Inr x"
    "\<exists>x. fst (category_row_of c (r\<lparr>rp_results := [(b, eb), (a, ea)]\<rparr>)) = Inr x"
    using assms(1-4) i j by (auto simp: category_row_of_def count_in_category_def op_simps same Let_def report_consts)
  have rest: "rp_modules (snd (category_row_of c q)) = rp_modules q" for q
    by (auto simp: category_row_of_def split: prod.splits sum.splits)
  have table: "rp_results (snd (write_category_table q)) = rp_results (snd (category_row_of c q)) \<and>
      rp_modules (snd (write_category_table q)) = rp_modules q"
    if "rp_categories q = [c]" "\<exists>x. fst (category_row_of c q) = Inr x" for q
    using that rest [of q] by (cases "category_row_of c q") (auto simp: write_category_table_def op_simps Let_def report_write_def report_writeln_def)
  show ?thesis
    using table [of "r\<lparr>rp_results := [(a, ea), (b, eb)]\<rparr>"] table [of "r\<lparr>rp_results := [(b, eb), (a, ea)]\<rparr>"] row assms
    by (simp add: all_modules_def calculate_device_result_def module_failed_def)
qed

definition example_entry :: "string \<Rightarrow> string \<Rightarrow> test_entry" where
  "example_entry n res = \<lparr>te_result = res, te_test_name = n, te_module_name = Some ''dns'', te_category = ''Network'',
     te_expected = ''Required'', te_description = ''ok''\<rparr>"

definition example_report :: report where
  "example_report = (report_init (example_setup [''dns.a'', ''dns.b'']) ''9a:02'')\<lparr>rp_categories := [''Network''],
     rp_expected_headers := [''Required''], rp_modules := [(''dns'', [(RETURN_CODE, Num 0)], [''dns.a'', ''dns.b''])]\<rparr>"

theorem info_result_depends_on_order_witness:
  "calculate_device_result [''dns''] (all_modules (snd (write_category_table (example_report\<lparr>rp_results :=
       [(''dns.a'', example_entry ''dns.a'' ''info''), (''dns.b'', example_entry ''dns.b'' ''pass'')]\<rparr>)))) = Failed \<and>
   calculate_device_result [''dns''] (all_modules (snd (write_category_table (example_report\<lparr>rp_results :=
       [(''dns.b'', example_entry ''dns.b'' ''pass''), (''dns.a'', example_entry ''dns.a'' ''info'')]\<rparr>)))) = Passed"
  by (rule info_result_depends_on_order [where c = "''Network''"])
    (auto simp: example_report_def example_entry_def report_init_def example_setup_def category_of_def required_of_def expected_of_def
      get_test_info_def required_info_def)

end
