(* ===== verification/Runner_Invariants.thy ===== *)
theory Runner_Invariants
  imports Runner
begin

text \<open>
  Invariants of the runner. Most steps of the handlers leave alone what an invariant of gateways,
  hosts or events reads (\<open>plain\<close>). The locale \<open>runner_invariant\<close> says what an invariant has to
  satisfy at the other steps, and shows once that every handler then keeps it; it is interpreted for
  the bound on the events, for the number of hosts under test and for the ownership of gateway sets.
\<close>

subsection \<open>Steps that change nothing an invariant reads\<close>

definition plain :: "'h runner \<Rightarrow> 'h runner \<Rightarrow> bool" where
  "plain s s' \<longleftrightarrow> (\<forall>d. dv_gateway (dv_store s' d) = dv_gateway (dv_store s d)) \<and>
     (\<forall>d. dv_mac (dv_store s' d) = dv_mac (dv_store s d)) \<and>
     (\<forall>d. dv_host (dv_store s' d) = dv_host (dv_store s d)) \<and> (\<forall>d. dv_vlan (dv_store s' d) = dv_vlan (dv_store s d)) \<and>
     by_mac s' = by_mac s \<and> dv_next s' = dv_next s \<and>
     (\<forall>g. port_set (gw_store s' g) = port_set (gw_store s g)) \<and> (\<forall>g. targets (gw_store s' g) = targets (gw_store s g)) \<and>
     gw_next s' = gw_next s \<and> gateway_sets s' = gateway_sets s \<and> native_gateway s' = native_gateway s \<and>
     events s' = events s \<and> starved s' = starved s"

interpretation plain: step_frame plain
  by unfold_locales (simp_all add: plain_def)

named_theorems plain_intros \<open>an operation is plain when its parts are\<close>

declare plain.intros [plain_intros]

abbreviation plain_op :: "('h, 'a) runner_op \<Rightarrow> bool" where
  "plain_op \<equiv> frames plain"

lemmas plain_op_def = frames_def [of plain]

text \<open>The plain operations.\<close>

lemma plain_set_device:
  "(\<And>x. dv_gateway (f x) = dv_gateway x \<and> dv_mac (f x) = dv_mac x \<and> dv_host (f x) = dv_host x \<and> dv_vlan (f x) = dv_vlan x) \<Longrightarrow> plain_op (set_device d f)"
  by (auto simp: plain_op_def plain_def set_device_def op_simps)

lemma plain_set_port [plain_intros]: "plain_op (set_port p f)"
  by (auto simp: plain_op_def plain_def set_port_def op_simps)

lemma plain_new_port [plain_intros]: "plain_op new_port"
  by (auto simp: plain_op_def plain_def new_port_def op_simps)

lemma plain_call_host [plain_intros]: "plain_op (call_host h f)"
  by (auto simp: plain_op_def plain_def call_host_def split: prod.splits)

lemma plain_call_host_gateway [plain_intros]: "plain_op (call_host_gateway h f)"
  by (auto simp: plain_op_def plain_def call_host_gateway_def Let_def split: prod.splits)

lemma plain_with_host [plain_intros]: "(\<And>h. plain_op (f h)) \<Longrightarrow> plain_op (with_host d f)"
  unfolding with_host_def by (intro plain_intros)

lemma plain_call_topology [plain_intros]: "plain_op (call_topology E f)"
  unfolding call_topology_def by (intro plain_intros) (auto simp: plain_op_def plain_def split: prod.splits)

lemma plain_port_traffic [plain_intros]: "plain_op (network_direct_port_traffic E d port target)"
  unfolding network_direct_port_traffic_def by (intro plain_intros)

lemma plain_device_traffic [plain_intros]: "plain_op (network_direct_device_traffic E d pset)"
  unfolding network_direct_device_traffic_def by (intro plain_intros)

lemma plain_activate_port [plain_intros]: "plain_op (activate_port port)"
  unfolding activate_port_def by (intro plain_intros) (auto simp: plain_def)

lemma plain_deactivate_port [plain_intros]: "plain_op (deactivate_port port)"
  unfolding deactivate_port_def by (intro plain_intros)

lemma plain_send_device_result [plain_intros]: "plain_op (send_device_result E H d r)"
  unfolding send_device_result_def by (intro plain_intros) (auto simp: plain_def split: sum.splits)

lemma plain_alloc_host [plain_intros]: "plain_op (alloc_host H d g)"
  by (auto simp: plain_op_def plain_def alloc_host_def split: sum.splits)

lemma plain_trigger_host [plain_intros]: "plain_op (trigger_host H state d)"
  unfolding trigger_host_def by (intro plain_intros)

lemma plain_all_trigger_ready [plain_intros]: "plain_op (all_trigger_ready H d ds)"
  unfolding all_trigger_ready_def by (intro plain_intros)

lemma plain_call_gateway:
  "(\<And>x. port_set (snd (f x)) = port_set x \<and> targets (snd (f x)) = targets x) \<Longrightarrow> plain_op (call_gateway g f)"
  by (auto simp: plain_op_def plain_def call_gateway_def split: prod.splits) (metis snd_conv)+

lemma plain_activate_gateway_object [plain_intros]: "plain_op (activate_gateway_object E g)"
  unfolding activate_gateway_object_def by (rule plain_call_gateway) (simp add: gateway_activate_def)

lemma plain_target_ready [plain_intros]:
  "plain_op (call_gateway g (\<lambda>x. case target_ready d x of (ds, x') \<Rightarrow> (Inr ds, x')))"
  by (rule plain_call_gateway) (simp add: target_ready_def Let_def)

lemma plain_should_activate [plain_intros]: "plain_op (should_activate_target H d)"
  unfolding should_activate_target_def by (intro plain_intros)

lemma plain_activate_gateway [plain_intros]: "plain_op (activate_gateway E H state g ds)"
  unfolding activate_gateway_def Let_def by (intro plain_intros)

lemma plain_check_and_activate [plain_intros]: "plain_op (check_and_activate_gateway E H d)"
proof -
  have "plain_op (case r of NotReady \<Rightarrow> ret_op ()
      | AlreadyActivated \<Rightarrow> read_op (\<lambda>s. then_op (trigger_host H (dv_ip_state (dv_store s d)) d) (ret_op ()))
      | ReadyDevices ds \<Rightarrow> if ds = [] then ret_op ()
          else read_op (\<lambda>s. case dv_gateway (dv_store s d) of None \<Rightarrow> raise_op AttributeError
             | Some g \<Rightarrow> activate_gateway E H (dv_ip_state (dv_store s d)) g ds))" for r
    by (cases r) (auto intro!: plain_intros)
  then show ?thesis unfolding check_and_activate_gateway_def by (intro plain_intros)
qed

lemma plain_dhcp_ready_listener [plain_intros]: "plain_op (dhcp_ready_listener E H d)"
  unfolding dhcp_ready_listener_def by (intro plain_intros plain_set_device) simp

lemma plain_port_inactive [plain_intros]: "plain_op (port_inactive E port)"
  unfolding port_inactive_def by (intro plain_intros)

lemma plain_heartbeat [plain_intros]: "plain_op (send_heartbeat E)"
  unfolding send_heartbeat_def by (intro plain_intros)

lemma plain_stop_results [plain_intros]: "plain_op (stop_result_handler E)"
  unfolding stop_result_handler_def by (intro plain_intros)

lemma plain_on_session_end [plain_intros]: "plain_op (on_session_end E rq)"
  unfolding on_session_end_def by (intro plain_intros)

lemma ensures_no_raise:
  "(\<And>s. P s \<Longrightarrow> Q (snd (set_device d f s))) \<Longrightarrow> ensures P (set_device d f) (\<lambda>_. Q) R"
  by (simp add: ensures_def set_device_def op_simps)

subsection \<open>Steps that leave the hosts and the events alone\<close>

definition same_hosts :: "'h runner \<Rightarrow> 'h runner \<Rightarrow> bool" where
  "same_hosts s s' \<longleftrightarrow> by_mac s' = by_mac s \<and> dv_next s' = dv_next s \<and> (\<forall>d. dv_host (dv_store s' d) = dv_host (dv_store s d)) \<and>
     events s' = events s \<and> starved s' = starved s"

interpretation hosts: step_frame same_hosts
  by unfold_locales (simp_all add: same_hosts_def)

lemma same_hosts_triggered: "same_hosts s s' \<Longrightarrow> get_triggered_devices s' = get_triggered_devices s"
  by (simp add: same_hosts_def get_triggered_devices_def)

lemma same_hosts_capacity: "same_hosts s s' \<Longrightarrow> target_set_has_capacity E s' = target_set_has_capacity E s"
  by (simp add: target_set_has_capacity_def same_hosts_triggered split: option.splits)

lemma frame_capacity: "frames same_hosts m \<Longrightarrow> target_set_has_capacity E (snd (m s)) = target_set_has_capacity E s"
  by (rule same_hosts_capacity) (rule framesD)

lemma plain_same_hosts: "plain s s' \<Longrightarrow> same_hosts s s'"
  by (simp add: plain_def same_hosts_def)

lemma plain_capacity: "target_set_has_capacity E s \<Longrightarrow> plain s s' \<Longrightarrow> target_set_has_capacity E s'"
  using same_hosts_capacity plain_same_hosts by blast

lemma same_hosts_call_gateway: "frames same_hosts (call_gateway g f)"
  by (auto simp: frames_def same_hosts_def call_gateway_def split: prod.splits)

lemma same_hosts_join: "frames same_hosts (set_device d (\<lambda>dv. dv\<lparr>dv_gateway := x\<rparr>))"
  by (simp add: frames_def same_hosts_def set_device_def op_simps)

lemma same_hosts_attach_device: "frames same_hosts (attach_device d g)"
  unfolding attach_device_def by (intro hosts.intros same_hosts_call_gateway same_hosts_join)

lemma same_hosts_add_set: "frames same_hosts (add_gateway_set n)"
  unfolding add_gateway_set_def by (rule hosts.modify) (simp add: same_hosts_def)

lemma same_hosts_find_set: "frames same_hosts (find_gateway_set E d)"
  by (auto simp: frames_def same_hosts_def find_gateway_set_def Let_def split: option.splits)

lemma same_hosts_start_gateway: "frames same_hosts (start_gateway E n g)"
  by (auto simp: start_gateway_def same_hosts_def alloc_gateway_def frames_def add_gateway_set_def op_simps split: sum.splits)

lemma same_hosts_create_gateway: "frames same_hosts (create_gateway E d)"
  unfolding create_gateway_def
  by (auto intro!: hosts.intros same_hosts_find_set same_hosts_start_gateway split: list.splits)

lemma same_hosts_native: "frames same_hosts (initialize_native E)"
  unfolding initialize_native_def create_native_gateway_def activate_gateway_object_def
  by (intro hosts.intros same_hosts_start_gateway same_hosts_call_gateway) (simp_all add: same_hosts_def)

lemma same_hosts_detach_gateway: "frames same_hosts (detach_gateway E d)"
  unfolding detach_gateway_def
  by (intro hosts.intros same_hosts_call_gateway same_hosts_add_set same_hosts_join frames_mono [OF plain_device_traffic] plain_same_hosts)

subsection \<open>What an invariant has to satisfy\<close>

text \<open>
  \<open>owns g s\<close> is what creating a gateway promises about it; \<open>vlans\<close> tells whether devices that are
  learned on a VLAN are allowed for.
\<close>

locale runner_invariant =
  fixes I :: "'h runner \<Rightarrow> bool"
    and owns :: "nat \<Rightarrow> 'h runner \<Rightarrow> bool"
    and E :: env
    and H :: "'h host_ops"
    and vlans :: bool
  assumes plain: "I s \<Longrightarrow> plain s s' \<Longrightarrow> I s'"
    and owns_plain: "owns g s \<Longrightarrow> plain s s' \<Longrightarrow> owns g s'"
    and create: "v = None \<or> vlans \<Longrightarrow> keeps I (create_if_absent mac p v)"
    and set_vlan: "vlans \<Longrightarrow> keeps I (set_device d (\<lambda>dv. dv\<lparr>dv_vlan := v, dv_assigned := a\<rparr>))"
    and no_host: "keeps I (set_device d (\<lambda>dv. dv\<lparr>dv_host := None\<rparr>))"
    and remove: "keeps I (remove_device d)"
    and gateway: "ensures I (create_gateway E d) (\<lambda>g s. I s \<and> owns g s) I"
    and attach: "ensures (\<lambda>s. I s \<and> owns g s) (attach_device d g) (\<lambda>_. I) I"
    and detach: "keeps I (detach_gateway E d)"
    and native: "vlans \<Longrightarrow> keeps I (initialize_native E)"
    and host: "I s \<Longrightarrow> target_set_has_capacity E s \<Longrightarrow> I (snd (set_device d (\<lambda>dv. dv\<lparr>dv_host := Some h\<rparr>) s))"
begin

lemma keeps_plain_op: "plain_op m \<Longrightarrow> keeps I m"
  by (erule keeps_frame) (auto intro: plain)

lemmas plain_ops = keeps_plain_op [OF plain_set_port] keeps_plain_op [OF plain_new_port] keeps_plain_op [OF plain_call_host]
  keeps_plain_op [OF plain_call_host_gateway] keeps_plain_op [OF plain_port_traffic] keeps_plain_op [OF plain_device_traffic]
  keeps_plain_op [OF plain_activate_port] keeps_plain_op [OF plain_send_device_result]
  keeps_plain_op [OF plain_check_and_activate] keeps_plain_op [OF plain_dhcp_ready_listener]
  keeps_plain_op [OF plain_port_inactive] keeps_plain_op [OF plain_on_session_end]
  keeps_plain_op [OF plain_heartbeat] keeps_plain_op [OF plain_stop_results]

lemma keeps_with_host: "(\<And>h. keeps I (f h)) \<Longrightarrow> keeps I (with_host d f)"
  unfolding with_host_def by (intro keeps_intros)

lemma modify_plain: "(\<And>s. plain s (f s)) \<Longrightarrow> keeps I (modify_op f)"
  by (intro keeps_plain_op plain.modify)

lemmas rules = keeps_intros plain_ops keeps_with_host

lemma finalize_keeps: "keeps I drain \<Longrightarrow> keeps I (target_set_finalize E drain d rs)"
  unfolding target_set_finalize_def
  by (intro keeps_then modify_plain keeps_read keeps_if keeps_basic no_host remove)
    (auto simp: plain_def suppress_tests_def limit_tests_def)

lemma cancel_keeps: "keeps I (target_set_cancel E H d)"
  unfolding target_set_cancel_def linger_or_release_def Let_def
  by (intro keeps_then modify_plain keeps_read keeps_option keeps_if keeps_basic detach keeps_bind plain_ops) (auto simp: plain_def)

lemma complete_keeps: "keeps I drain \<Longrightarrow> keeps I (target_set_complete E H drain d)"
  unfolding target_set_complete_def by (intro rules finalize_keeps cancel_keeps)

lemma error_keeps: "keeps I drain \<Longrightarrow> keeps I (target_set_error E H drain d e)"
  unfolding target_set_error_def by (intro rules finalize_keeps complete_keeps detach)

text \<open>Between the test of the capacity and the new host, no host appears.\<close>

definition room :: "'h runner \<Rightarrow> bool" where
  "room s \<longleftrightarrow> I s \<and> target_set_has_capacity E s"

lemma room_plain: "plain_op m \<Longrightarrow> keeps room m"
  by (erule keeps_frame) (auto simp: room_def intro: plain plain_capacity)

lemma room_owns_plain: "plain_op m \<Longrightarrow> keeps (\<lambda>s. room s \<and> owns g s) m"
  by (erule keeps_frame) (auto simp: room_def intro: plain plain_capacity owns_plain)

lemma room_same_hosts:
  assumes "ensures I m (\<lambda>x s. I s \<and> Q x s) I" "frames same_hosts m"
  shows "ensures room m (\<lambda>x s. room s \<and> Q x s) room"
proof -
  have "case m s of (Inl e, s') \<Rightarrow> room s' | (Inr x, s') \<Rightarrow> room s' \<and> Q x s'" if "room s" for s
    using that assms(1) frame_capacity [OF assms(2), of E s]
    by (cases "m s"; cases "fst (m s)") (auto simp: room_def ensures_def dest!: spec [of _ s])
  then show ?thesis by (simp add: ensures_def)
qed

lemma start_host_ensures: "ensures room (start_host E H d g name) (\<lambda>_. I) I"
proof -
  have host': "ensures room (set_device d (\<lambda>dv. dv\<lparr>dv_host := Some h\<rparr>)) (\<lambda>_. I) I" for h
    using host by (intro ensures_no_raise) (auto simp: room_def)
  have rest: "keeps I (then_op (call_host h (ho_initialize H)) (read_op (\<lambda>s. case pi_port_no (the_port d s) of
      None \<Rightarrow> network_direct_device_traffic E d (Some (port_set (gw_store s g)))
    | Some n \<Rightarrow> network_direct_port_traffic E d n (Some (port_target_of E d g n name s)))))" for h
    by (intro rules)
  have weak: "ensures room m (\<lambda>_. room) I" if "plain_op m" for m :: "('h, 'a) runner_op"
    using keeps_ensures [OF room_plain [OF that]] by (rule ensures_weaken) (simp add: room_def)
  show ?thesis unfolding start_host_def
    by (rule ensures_then [OF weak [OF plain.modify]], simp add: plain_def)
      (intro ensures_bind [OF weak [OF plain_alloc_host]] ensures_then [OF host'] keeps_ensures rest)
qed

lemma use_gateway_ensures:
  assumes "keeps I drain"
  shows "ensures (\<lambda>s. room s \<and> owns g s) (use_gateway E H drain d g name) (\<lambda>_. I) I"
proof -
  let ?P = "\<lambda>s. room s \<and> owns g s"
  have weak: "ensures ?P m (\<lambda>_. ?P) I" if "keeps ?P m" for m :: "('h, 'a) runner_op"
    using keeps_ensures [OF that] by (rule ensures_weaken) (simp add: room_def)
  have dhcp: "keeps ?P (read_op (\<lambda>s. if dv_dhcp_mode (dv_store s d) = Some EXTERNAL then ret_op ()
      else lift_op (stop_dhcp E (gw_store s g) (dv_mac (dv_store s d)))))"
    by (intro room_owns_plain plain_intros)
  have att: "ensures ?P (attach_device d g) (\<lambda>_. room) I"
  proof -
    have "case attach_device d g s of (Inl e, s') \<Rightarrow> I s' | (Inr x, s') \<Rightarrow> room s'" if "room s" "owns g s" for s
      using that attach [of g d] frame_capacity [OF same_hosts_attach_device, of E d g s]
      by (cases "attach_device d g s"; cases "fst (attach_device d g s)") (auto simp: room_def ensures_def dest!: spec [of _ s])
    then show ?thesis by (simp add: ensures_def)
  qed
  show ?thesis unfolding use_gateway_def
    by (intro ensures_then [OF weak [OF dhcp]] ensures_then [OF att] ensures_try [OF ensures_then [OF start_host_ensures]] keeps_ensures rules error_keeps assms)
qed

lemma activate_ensures:
  assumes "keeps I drain"
  shows "ensures room (target_set_activate E H drain d) (\<lambda>_. I) I"
proof -
  let ?Q = "\<lambda>r s. room s \<and> (\<forall>g. r = Some g \<longrightarrow> owns g s)"
  have choose: "ensures room (choose_gateway E d name) (\<lambda>g s. room s \<and> owns g s) room" for name
    unfolding choose_gateway_def
    by (intro ensures_then [OF keeps_ensures [OF room_plain]] plain_set_device room_same_hosts gateway same_hosts_create_gateway) simp
  have tried: "ensures room (try_op (bind_op (choose_gateway E d name) (\<lambda>g. ret_op (Some g)))
      (\<lambda>e. then_op (modify_op (\<lambda>s. if fail_mode E then s\<lparr>run_tests := False\<rparr> else s)) (ret_op None))) ?Q I" for name
    by (rule ensures_try [OF ensures_bind [OF choose]])
      (auto intro!: ensures_ret ensures_then [of room _ room] simp: ensures_def op_simps room_def plain_capacity plain_def
        intro: plain plain_capacity)
  have rest: "ensures (?Q r) (case r of None \<Rightarrow> ret_op False
      | Some g \<Rightarrow> read_op (\<lambda>s. if activated (gw_store s g) \<and> dv_dhcp_mode (dv_store s d) \<noteq> Some EXTERNAL then ret_op False
                 else use_gateway E H drain d g name)) (\<lambda>_. I) I" for r name
    using use_gateway_ensures [OF assms] by (cases r) (auto simp: ensures_def op_simps room_def)
  have check: "ensures room (read_op (\<lambda>s. assert_op (pi_port_no (the_port d s) = None \<or> pi_active (the_port d s)))) (\<lambda>_. room) I"
    by (auto simp: ensures_def op_simps room_def)
  show ?thesis unfolding target_set_activate_def Let_def
    by (intro ensures_then [OF check] ensures_read ensures_bind [OF tried rest])
qed

lemma activate_then:
  "keeps I drain \<Longrightarrow> target_set_has_capacity E s \<Longrightarrow> I s \<Longrightarrow> I (snd (then_op (target_set_activate E H drain d) (ret_op ()) s))"
  by (rule ensures_snd [OF ensures_then [OF activate_ensures keeps_ensures]]) (auto intro: keeps_intros simp: room_def)

lemma capacity_read:
  assumes "keeps I drain" "\<And>s. plain s (f s)"
  shows "keeps I (read_op (\<lambda>s. if target_set_has_capacity E s then then_op (target_set_activate E H drain d) (ret_op ())
    else modify_op f))"
proof -
  have "I (snd (modify_op f s))" if "I s" for s
    using plain [OF that assms(2)] by (simp add: op_simps)
  with activate_then [OF assms(1)] show ?thesis by (simp add: keeps_def read_op_def)
qed

lemma trigger_keeps: "keeps I drain \<Longrightarrow> keeps I (target_set_trigger E H drain d remote)"
proof -
  assume drain: "keeps I drain"
  have act: "keeps I (read_op (\<lambda>s. if target_set_has_capacity E s then then_op (target_set_activate E H drain d) (ret_op ())
      else modify_op (\<lambda>s. s\<lparr>target_set_queue := target_set_queue s @ [d]\<rparr>)))"
    by (rule capacity_read [OF drain]) (simp add: plain_def)
  show "keeps I (target_set_trigger E H drain d remote)"
    unfolding target_set_trigger_def by (intro rules act keeps_plain_op plain_set_device) simp
qed

lemma consider_keeps: "keeps I drain \<Longrightarrow> keeps I (target_set_consider E H drain)"
proof -
  assume drain: "keeps I drain"
  have "I (snd (then_op (modify_op (\<lambda>s. s\<lparr>target_set_queue := ds\<rparr>)) (then_op (target_set_activate E H drain d) (ret_op ())) s))"
    if "I s" "target_set_has_capacity E s" for s d ds
  proof -
    have p: "plain s (s\<lparr>target_set_queue := ds\<rparr>)" by (simp add: plain_def)
    have "I (snd (then_op (target_set_activate E H drain d) (ret_op ()) (s\<lparr>target_set_queue := ds\<rparr>)))"
      by (rule activate_then [OF drain]) (use that p plain plain_capacity in blast)+
    then show ?thesis by (simp add: op_simps)
  qed
  then show ?thesis unfolding target_set_consider_def
    by (auto simp: keeps_def read_op_def op_simps split: list.splits)
qed

lemma device_learn_keeps:
  "keeps I drain \<Longrightarrow> v = None \<or> vlans \<Longrightarrow> keeps I (handle_device_learn E H drain mac v)"
  unfolding handle_device_learn_def
  by (intro rules create trigger_keeps keeps_plain_op [OF plain_set_device]) auto

lemma port_learn_keeps: "keeps I drain \<Longrightarrow> keeps I (handle_port_learn E H drain dpid port mac)"
  unfolding handle_port_learn_def by (intro rules create trigger_keeps) simp

lemma session_keeps: "keeps I drain \<Longrightarrow> vlans \<Longrightarrow> keeps I (on_session E H drain rq)"
  unfolding on_session_def remote_trigger_def
  by (intro rules create trigger_keeps set_vlan keeps_plain_op [OF plain_set_device]) auto

lemma terminate_gateway_set_keeps: "keeps I drain \<Longrightarrow> keeps I (terminate_gateway_set E H drain g)"
  unfolding terminate_gateway_set_def by (intro rules error_keeps)

lemma ip_notify_keeps:
  "keeps I drain \<Longrightarrow> native_vlan_id E = None \<or> vlans \<Longrightarrow> keeps I (ip_notify E H drain state target g ex)"
  unfolding ip_notify_def
  by (intro rules terminate_gateway_set_keeps device_learn_keeps error_keeps keeps_plain_op [OF plain_set_device]) auto

lemma serve_keeps:
  assumes "keeps I drain" "native_vlan_id E = None \<or> vlans"
  shows "keeps I (serve_request E H drain d g rq)"
  unfolding serve_request_def using assms
  by (cases rq) (auto intro!: rules ip_notify_keeps error_keeps keeps_plain_op [OF plain_set_device])

lemma serve_host_keeps:
  "keeps I drain \<Longrightarrow> native_vlan_id E = None \<or> vlans \<Longrightarrow> keeps I (serve_host E H drain h f)"
  unfolding serve_host_def Let_def by (intro rules serve_keeps)

lemma call_host_serving_keeps:
  "keeps I drain \<Longrightarrow> native_vlan_id E = None \<or> vlans \<Longrightarrow> keeps I (call_host_serving E H drain d fs)"
  unfolding call_host_serving_def by (intro rules serve_host_keeps)

lemma stream_keeps:
  "keeps I drain \<Longrightarrow> native_vlan_id E = None \<or> vlans \<Longrightarrow> keeps I (stream_ready E H drain h ev)"
  unfolding stream_ready_def by (intro rules serve_host_keeps)

lemma shutdown_keeps: "keeps I drain \<Longrightarrow> keeps I (shutdown E H drain)"
  unfolding shutdown_def terminate_all_def terminate_device_def
  by (intro keeps_then keeps_read keeps_for error_keeps modify_plain plain_ops) (auto simp: plain_def)

lemma port_state_keeps: "keeps I drain \<Longrightarrow> keeps I (handle_port_state E H drain dpid port active)"
  unfolding handle_port_state_def
  by (intro keeps_then keeps_read keeps_if keeps_basic shutdown_keeps plain_ops modify_plain) (auto simp: plain_def)

lemma process_event_keeps:
  assumes "keeps I drain" "\<not> vlan_trigger E \<or> vlans"
  shows "keeps I (process_faucet_event E H drain ev)"
  unfolding process_faucet_event_def using assms
  by (cases ev) (auto intro!: rules port_state_keeps device_learn_keeps port_learn_keeps)

lemma incoming_keeps:
  assumes "\<And>prev. keeps I (again prev)" "\<not> vlan_trigger E \<or> vlans"
  shows "keeps I (handle_incoming E H again prev i)"
proof -
  have "keeps I (modify_op (\<lambda>s. s\<lparr>connected := False\<rparr>))" by (rule modify_plain) (simp add: plain_def)
  then show ?thesis unfolding handle_incoming_def using assms
    by (cases i) (auto intro!: keeps_then keeps_option keeps_basic process_event_keeps shutdown_keeps)
qed

lemma loop_keeps:
  assumes drain: "keeps I (handle_events E H)"
    and no_vlans: "\<not> vlan_trigger E \<and> native_vlan_id E = None \<or> vlans"
    and occ: "\<not> is_session occ \<or> vlans" "\<forall>i. occ \<noteq> Incoming i"
  shows "keeps I (handle_occasion E H occ)"
proof -
  have "keeps I (handle_system_idle E H)"
    unfolding handle_system_idle_def handle_system_idle_raw_def idle_device_def
    by (intro keeps_then keeps_read keeps_for keeps_try keeps_if keeps_basic keeps_with_host drain call_host_serving_keeps
        complete_keeps error_keeps trigger_keeps consider_keeps shutdown_keeps modify_plain plain_ops)
      (use no_vlans in \<open>auto simp: plain_def\<close>)
  moreover have reap: "keeps I (reap_stale_port E H d)" for d
    unfolding reap_stale_port_def Let_def by (intro rules error_keeps drain)
  moreover have "keeps I (reap_stale_ports E H)"
    unfolding reap_stale_ports_def by (intro rules reap)
  moreover have beat: "keeps I (device_heartbeat E H d)" for d
    unfolding device_heartbeat_def by (intro call_host_serving_keeps drain) (use no_vlans in auto)
  moreover have "keeps I (module_heartbeat E H)"
    unfolding module_heartbeat_def by (intro rules beat)
  moreover have "keeps I (terminate_device E H (handle_events E H) d)" for d
    unfolding terminate_device_def by (intro error_keeps drain)
  moreover have "keeps I (runner_initialize E)"
  proof -
    have "keeps I (initialize_native E)" using no_vlans native by (auto simp: initialize_native_def intro: keeps_basic)
    then show ?thesis unfolding runner_initialize_def by (intro modify_plain rules) (auto simp: plain_def)
  qed
  moreover have "keeps I (ip_notify E H (handle_events E H) state target g ex)" for state target g ex
    by (intro ip_notify_keeps drain) (use no_vlans in auto)
  moreover have "keeps I (on_session E H (handle_events E H) rq)" if vlans for rq
    by (intro session_keeps drain that)
  moreover have "keeps I (stream_ready E H (handle_events E H) h ev)" for h ev
    by (intro stream_keeps drain) (use no_vlans in auto)
  ultimately show ?thesis
    using occ drain keeps_plain_op [OF plain_on_session_end] keeps_plain_op [OF plain_stop_results] by (cases occ) (auto simp: handle_occasion_def is_session_def)
qed

end

text \<open>An invariant that does not read the events is kept by all of the main loop.\<close>

locale event_invariant = runner_invariant +
  assumes events: "I s \<Longrightarrow> I (s\<lparr>events := es\<rparr>)"
    and starved: "I s \<Longrightarrow> I (s\<lparr>starved := b\<rparr>)"
    and no_vlans: "\<not> vlan_trigger E \<and> native_vlan_id E = None \<or> vlans"
begin

lemma pop_keeps:
  "keeps I (modify_op (\<lambda>s. s\<lparr>events := es\<rparr>))" "keeps I (modify_op (\<lambda>s. if P s then s\<lparr>starved := True\<rparr> else s))"
  by (auto intro!: keeps_modify events starved)

lemma faucet_events_keeps: "keeps I (handle_faucet_events E H n prev)"
proof (induction n arbitrary: prev)
  case 0
  show ?case by (simp add: handle_faucet_events.simps pop_keeps(2))
next
  case (Suc n)
  have vl: "\<not> vlan_trigger E \<or> vlans" using no_vlans by blast
  have "keeps I (case evs of [] \<Rightarrow> ret_op () | i # is \<Rightarrow> then_op (modify_op (\<lambda>s. s\<lparr>events := is\<rparr>))
      (handle_incoming E H (handle_faucet_events E H n) prev i))" for evs
    by (cases evs) (auto intro!: keeps_then keeps_basic pop_keeps(1) incoming_keeps Suc.IH vl)
  then show ?case by (simp add: handle_faucet_events.simps) (intro keeps_read keeps_if keeps_basic)
qed

lemma events_keeps: "keeps I (handle_events E H)"
  unfolding handle_events_def by (intro keeps_read faucet_events_keeps)

lemma occasion_keeps: "\<not> is_session occ \<or> vlans \<Longrightarrow> keeps I (handle_occasion E H occ)"
proof (cases occ)
  case (Incoming i)
  then show ?thesis by (auto simp: handle_occasion_def intro!: keeps_modify events)
qed (use no_vlans loop_keeps events_keeps in \<open>auto simp: is_session_def\<close>)

end

subsection \<open>The bound on the events\<close>

text \<open>Outside the loop over the events, whatever holds of the events goes on holding.\<close>

definition same_events :: "'h runner \<Rightarrow> 'h runner \<Rightarrow> bool" where
  "same_events s s' \<longleftrightarrow> events s' = events s \<and> starved s' = starved s"

definition on_events :: "(incoming list \<Rightarrow> bool \<Rightarrow> bool) \<Rightarrow> 'h runner \<Rightarrow> bool" where
  "on_events P s \<longleftrightarrow> P (events s) (starved s)"

lemma same_events_registry:
  "frames same_events (create_if_absent mac p v)" "frames same_events (remove_device d)" "frames same_events (set_device d f)"
  by (auto simp: frames_def same_events_def create_if_absent_def new_device_def remove_device_def set_device_def Let_def op_simps
      split: option.splits)

lemma events_frames: "frames same_events m \<Longrightarrow> keeps (on_events P) m"
  by (erule keeps_frame) (simp add: on_events_def same_events_def)

lemma events_hosts: "frames same_hosts m \<Longrightarrow> keeps (on_events P) m"
  by (erule keeps_frame) (simp add: on_events_def same_hosts_def)

interpretation evs: runner_invariant "on_events P" "\<lambda>_ _. True" E H True for P E H
proof unfold_locales
  fix d :: nat and g mac and s :: "'a runner" and x h
  show "ensures (on_events P) (create_gateway E d) (\<lambda>g s. on_events P s \<and> True) (on_events P)"
    using keeps_ensures [OF events_hosts [OF same_hosts_create_gateway]] by simp
  show "ensures (\<lambda>s. on_events P s \<and> True) (attach_device d g) (\<lambda>_. on_events P) (on_events P)"
    using keeps_ensures [OF events_hosts [OF same_hosts_attach_device]] by simp
  show "on_events P s \<Longrightarrow> on_events P (snd (set_device d (\<lambda>dv. dv\<lparr>dv_host := Some h\<rparr>) s))"
    by (rule keepsD [OF events_frames [OF same_events_registry(3)]])
  show "keeps (on_events P) (detach_gateway E d)" by (rule events_hosts [OF same_hosts_detach_gateway])
  show "keeps (on_events P) (initialize_native E)" by (rule events_hosts [OF same_hosts_native])
qed (auto simp: on_events_def plain_def intro!: events_frames same_events_registry)

text \<open>A loop that may take as many events as there are is not cut short, and takes them all.\<close>

abbreviation fuel_ok :: "nat \<Rightarrow> 'h runner \<Rightarrow> bool" where
  "fuel_ok n \<equiv> on_events (\<lambda>es cut. length es \<le> n \<and> \<not> cut)"

lemma faucet_events_Suc:
  assumes "connected s" "events s = i # is"
  shows "handle_faucet_events E H (Suc n) prev s = handle_incoming E H (handle_faucet_events E H n) prev i (s\<lparr>events := is\<rparr>)"
  using assms by (simp add: handle_faucet_events.simps op_simps)

lemma faucet_events_done:
  assumes "\<not> connected s \<or> events s = []"
  shows "handle_faucet_events E H n prev s = (Inr (), s)"
  using assms by (cases n) (auto simp: handle_faucet_events.simps op_simps)

lemma fuel_enough: "fuel_ok n s \<Longrightarrow> fuel_ok n (snd (handle_faucet_events E H n prev s))"
proof (induction n arbitrary: prev s)
  case 0
  then show ?case by (simp add: on_events_def faucet_events_done)
next
  case (Suc n)
  have item: "keeps (fuel_ok n) (handle_incoming E H (handle_faucet_events E H n) prev i)" for i
    by (intro evs.incoming_keeps) (use Suc.IH in \<open>simp_all add: keeps_def\<close>)
  show ?case
  proof (cases "connected s \<and> events s \<noteq> []")
    case True
    then obtain i "is" where i: "connected s" "events s = i # is" by (cases "events s") auto
    with Suc.prems have ok: "fuel_ok n (s\<lparr>events := is\<rparr>)" by (simp add: on_events_def)
    have "fuel_ok n (snd (handle_faucet_events E H (Suc n) prev s))"
      using keepsD [OF item ok] i by (simp add: faucet_events_Suc)
    then show ?thesis by (simp add: on_events_def)
  next
    case False
    with Suc.prems show ?thesis by (simp add: faucet_events_done)
  qed
qed

lemma handle_events_live: "keeps (on_events (\<lambda>es cut. \<not> cut)) (handle_events E H)"
  using fuel_enough by (fastforce simp: keeps_def handle_events_def read_op_def on_events_def)

lemma shutdown_disconnects: "shutdown E H drain s = (Inr (), s') \<Longrightarrow> \<not> connected s'"
  by (auto simp: shutdown_def send_heartbeat_def op_simps split: prod.splits sum.splits if_splits)

lemma faucet_events_exhausts:
  "fuel_ok n s \<Longrightarrow> handle_faucet_events E H n prev s = (Inr (), s') \<Longrightarrow> \<not> connected s' \<or> events s' = []"
proof (induction n arbitrary: prev s)
  case 0
  then show ?case by (auto simp: on_events_def handle_faucet_events.simps op_simps)
next
  case (Suc n)
  show ?case
  proof (cases "connected s \<and> events s \<noteq> []")
    case True
    then obtain i "is" where i: "connected s" "events s = i # is" by (cases "events s") auto
    let ?s = "s\<lparr>events := is\<rparr>" and ?again = "handle_faucet_events E H n"
    have ok: "fuel_ok n ?s" using Suc.prems(1) i by (simp add: on_events_def)
    have r: "handle_incoming E H ?again prev i ?s = (Inr (), s')" using Suc.prems(2) i by (simp add: faucet_events_Suc)
    show ?thesis
    proof (cases i)
      case (Event ev)
      let ?m = "process_faucet_event E H (?again None) ev"
      have "keeps (fuel_ok n) ?m" by (intro evs.process_event_keeps) (simp_all add: keeps_def fuel_enough)
      then have "fuel_ok n (snd (?m ?s))" using ok by (rule keepsD)
      moreover obtain y s1 where "?m ?s = (Inr y, s1)" "?again (Some ev) s1 = (Inr (), s')"
        using r Event by (auto simp: handle_incoming_def then_op_def bind_op_def split: prod.splits sum.splits)
      ultimately show ?thesis using Suc.IH by simp
    next
      case Disconnected
      with r have "?again prev ?s = (Inr (), s')"
        by (auto simp: handle_incoming_def op_simps split: prod.splits sum.splits)
      with ok show ?thesis using Suc.IH by blast
    next
      case Broken
      with r obtain x where "shutdown E H (?again None) x = (Inr (), s')"
        by (auto simp: handle_incoming_def op_simps split: prod.splits sum.splits option.splits)
      then show ?thesis using shutdown_disconnects by blast
    qed
  next
    case False
    with Suc.prems(2) show ?thesis by (auto simp: faucet_events_done)
  qed
qed

end
