(* ===== verification/Runner_Properties.thy ===== *)
theory Runner_Properties
  imports Runner_Invariants
begin

text \<open>
  What the invariants of the runner give: the number of devices under test stays within
  \<open>max_hosts\<close>, no two gateways in use have the same set of switch ports, the loop over the events
  ends and takes all of them, and the results a device gets.
\<close>

lemma new_device_effect:
  fixes p :: "nat option" and v :: "int option"
  assumes "dict_get (by_mac s) mac = None"
  defines "s' \<equiv> snd (new_device mac p v s)"
  shows "e \<noteq> dv_next s \<Longrightarrow> dv_store s' e = dv_store s e"
    and "dv_host (dv_store s' (dv_next s)) = None"
    and "dv_gateway (dv_store s' (dv_next s)) = None"
    and "dv_vlan (dv_store s' (dv_next s)) = v"
    and "dv_mac (dv_store s' (dv_next s)) = mac"
    and "dv_next s' = Suc (dv_next s)"
    and "by_mac s' = by_mac s @ [(mac, dv_next s)]"
    and "gw_store s' = gw_store s" "gw_next s' = gw_next s" "gateway_sets s' = gateway_sets s" "native_gateway s' = native_gateway s"
  using assms(1) unfolding s'_def
  by (auto simp: new_device_def Let_def dict_set_new new_device_object_def split: option.splits)

subsection \<open>The number of hosts\<close>

definition capacity_ok :: "env \<Rightarrow> 'h runner \<Rightarrow> bool" where
  "capacity_ok E s \<longleftrightarrow>
     (case max_hosts E of None \<Rightarrow> True | Some n \<Rightarrow> n = 0 \<or> length (get_triggered_devices s) \<le> n) \<and>
     distinct (dict_values (by_mac s)) \<and> (\<forall>d\<in>set (dict_values (by_mac s)). d < dv_next s)"

lemma capacity_mono:
  "capacity_ok E s \<Longrightarrow> length (get_triggered_devices s') \<le> length (get_triggered_devices s) \<Longrightarrow>
     distinct (dict_values (by_mac s')) \<Longrightarrow> (\<forall>d\<in>set (dict_values (by_mac s')). d < dv_next s') \<Longrightarrow> capacity_ok E s'"
  by (auto simp: capacity_ok_def split: option.splits)

lemma capacity_same_hosts: "capacity_ok E s \<Longrightarrow> same_hosts s s' \<Longrightarrow> capacity_ok E s'"
  by (rule capacity_mono) (auto simp: same_hosts_triggered, auto simp: same_hosts_def capacity_ok_def)

lemma capacity_frames: "frames same_hosts m \<Longrightarrow> keeps (capacity_ok E) m"
  by (erule keeps_frame) (rule capacity_same_hosts)

lemma filter_add_one:
  "distinct xs \<Longrightarrow> length (filter (\<lambda>e. e = d \<or> P e) xs) \<le> Suc (length (filter P xs))"
  by (induction xs) (auto intro: filter_cong [THEN arg_cong, of _ _ _ _ length, THEN eq_refl])

lemma filter_imp: "(\<And>e. Q e \<Longrightarrow> P e) \<Longrightarrow> length (filter Q xs) \<le> length (filter P xs)"
  by (induction xs) (auto simp: le_SucI)

lemma filter_delete: "length (filter P (dict_values (dict_del k xs))) \<le> length (filter P (dict_values xs))"
  by (induction xs) auto

lemma values_delete: "set (dict_values (dict_del k xs)) \<subseteq> set (dict_values xs)"
  by (induction xs) auto

lemma distinct_delete_values: "distinct (dict_values xs) \<Longrightarrow> distinct (dict_values (dict_del k xs))"
  by (simp add: AList.delete_eq distinct_map_filter)

lemma capacity_new: "keeps (capacity_ok E) (new_device mac p v)"
proof -
  have "capacity_ok E (snd (new_device mac p v s))" if ok: "capacity_ok E s" for s :: "'a runner"
  proof (cases "dict_get (by_mac s) mac = None")
    case True
    let ?s' = "snd (new_device mac p v s)"
    note s' = new_device_effect [OF True, where p = p and v = v]
    have "filter (\<lambda>d. dv_host (dv_store ?s' d) \<noteq> None) (dict_values (by_mac s)) =
        filter (\<lambda>d. dv_host (dv_store s d) \<noteq> None) (dict_values (by_mac s))"
      using ok by (intro filter_cong) (auto simp: capacity_ok_def s'(1))
    then have "get_triggered_devices ?s' = get_triggered_devices s"
      using s'(2,7) by (simp add: get_triggered_devices_def)
    then show ?thesis using ok s'(6,7) by (intro capacity_mono [OF ok]) (auto simp: capacity_ok_def)
  qed (use ok in \<open>auto simp: new_device_def\<close>)
  then show ?thesis by (simp add: keeps_def)
qed

lemma capacity_create: "keeps (capacity_ok E) (create_if_absent mac p v)"
  by (auto simp: keeps_def create_if_absent_def keepsD [OF capacity_new] split: option.splits)

lemma capacity_remove: "keeps (capacity_ok E) (remove_device d)"
proof -
  have "capacity_ok E (snd (remove_device d s))" if ok: "capacity_ok E s" for s :: "'a runner"
  proof (cases "contains_device d s")
    case True
    let ?s' = "snd (remove_device d s)"
    have s': "dv_store ?s' = dv_store s" "dv_next ?s' = dv_next s" "by_mac ?s' = dict_del (dv_mac (dv_store s d)) (by_mac s)"
      using True by (auto simp: remove_device_def Let_def split: option.splits)
    show ?thesis
    proof (rule capacity_mono [OF ok])
      show "length (get_triggered_devices ?s') \<le> length (get_triggered_devices s)"
        unfolding get_triggered_devices_def s' by (rule filter_delete)
      show "distinct (dict_values (by_mac ?s'))" using ok unfolding s' capacity_ok_def by (blast intro: distinct_delete_values)
      show "\<forall>d\<in>set (dict_values (by_mac ?s')). d < dv_next ?s'"
        using ok values_delete unfolding s' capacity_ok_def by fast
    qed
  qed (use ok in \<open>auto simp: remove_device_def\<close>)
  then show ?thesis by (simp add: keeps_def)
qed

lemma capacity_set_host:
  assumes "capacity_ok E s" "x = None \<or> target_set_has_capacity E s"
  shows "capacity_ok E (snd (set_device d (\<lambda>dv. dv\<lparr>dv_host := x\<rparr>) s))"
proof -
  let ?s' = "snd (set_device d (\<lambda>dv. dv\<lparr>dv_host := x\<rparr>) s)"
  have s': "by_mac ?s' = by_mac s" "dv_next ?s' = dv_next s" "\<And>e. dv_host (dv_store ?s' e) = (if e = d then x else dv_host (dv_store s e))"
    by (simp_all add: set_device_def op_simps)
  have "length (get_triggered_devices ?s') \<le> (if x = None then 0 else 1) + length (get_triggered_devices s)"
  proof (cases x)
    case None
    have "length (get_triggered_devices ?s') \<le> length (get_triggered_devices s)"
      unfolding get_triggered_devices_def s'(1,3) using None by (intro filter_imp) (auto split: if_splits)
    with None show ?thesis by simp
  next
    case (Some y)
    have "length (get_triggered_devices ?s') \<le> length (filter (\<lambda>e. e = d \<or> dv_host (dv_store s e) \<noteq> None) (dict_values (by_mac s)))"
      unfolding get_triggered_devices_def s'(1,3) using Some by (intro filter_imp) (auto split: if_splits)
    also have "\<dots> \<le> Suc (length (get_triggered_devices s))"
      unfolding get_triggered_devices_def using assms(1) by (intro filter_add_one) (simp add: capacity_ok_def)
    finally show ?thesis using Some by simp
  qed
  then show ?thesis
    using assms s'(1,2) by (auto simp: capacity_ok_def target_set_has_capacity_def split: option.splits if_splits)
qed

interpretation capacity: event_invariant "capacity_ok E" "\<lambda>_ _. True" E H True for E H
proof unfold_locales
  fix d :: nat and g mac and s :: "'a runner" and x h
  show "ensures (capacity_ok E) (create_gateway E d) (\<lambda>g s. capacity_ok E s \<and> True) (capacity_ok E)"
    using keeps_ensures [OF capacity_frames [OF same_hosts_create_gateway]] by simp
  show "ensures (\<lambda>s. capacity_ok E s \<and> True) (attach_device d g) (\<lambda>_. capacity_ok E) (capacity_ok E)"
    using keeps_ensures [OF capacity_frames [OF same_hosts_attach_device]] by simp
  show "keeps (capacity_ok E) (detach_gateway E d)" by (rule capacity_frames [OF same_hosts_detach_gateway])
  show "keeps (capacity_ok E) (initialize_native E)" by (rule capacity_frames [OF same_hosts_native])
  show "keeps (capacity_ok E) (set_device d (\<lambda>dv. dv\<lparr>dv_host := None\<rparr>))" by (simp add: keeps_def capacity_set_host)
  show "capacity_ok E s \<Longrightarrow> target_set_has_capacity E s \<Longrightarrow> capacity_ok E (snd (set_device d (\<lambda>dv. dv\<lparr>dv_host := Some h\<rparr>) s))"
    by (simp add: capacity_set_host)
  show "keeps (capacity_ok E) (create_if_absent mac p v)" for p v by (rule capacity_create)
  show "keeps (capacity_ok E) (remove_device d)" by (rule capacity_remove)
  show "keeps (capacity_ok E) (set_device d (\<lambda>dv. dv\<lparr>dv_vlan := v, dv_assigned := a\<rparr>))" for v a
    by (rule capacity_frames) (simp add: frames_def same_hosts_def set_device_def op_simps)
  show "capacity_ok E s \<Longrightarrow> plain s s' \<Longrightarrow> capacity_ok E s'" for s' by (rule capacity_same_hosts [OF _ plain_same_hosts])
  show "capacity_ok E s \<Longrightarrow> capacity_ok E (s\<lparr>events := es\<rparr>)" "capacity_ok E s \<Longrightarrow> capacity_ok E (s\<lparr>starved := b\<rparr>)" for es b
    by (simp_all add: capacity_ok_def get_triggered_devices_def split: option.splits)
qed simp_all

end
