(* ===== verification/Gateway_Sets.thy ===== *)
theory Gateway_Sets
  imports Runner_Properties
begin

text \<open>
  The ownership of gateway sets in the port-triggered mode: a gateway owns its set from the moment
  it is created until it is retired. The invariant names the gateways \<open>A\<close> that own a set.
\<close>

definition port_mode :: "env \<Rightarrow> bool" where
  "port_mode E \<longleftrightarrow> \<not> vlan_trigger E \<and> native_vlan_id E = None \<and> (\<forall>g. gateway_down E g = Inr ())"

definition owners_ok :: "nat set \<Rightarrow> 'h runner \<Rightarrow> bool" where
  "owners_ok A s \<longleftrightarrow> native_gateway s = None \<and> distinct (gateway_sets s) \<and>
     (\<forall>d. dv_vlan (dv_store s d) = None \<or> dv_vlan (dv_store s d) = Some 0) \<and>
     (\<forall>g\<in>A. g < gw_next s \<and> port_set (gw_store s g) \<notin> set (gateway_sets s)) \<and>
     inj_on (\<lambda>g. port_set (gw_store s g)) A \<and>
     (\<forall>d g. dv_gateway (dv_store s d) = Some g \<longrightarrow> g \<in> A \<and> dv_mac (dv_store s d) \<in> set (targets (gw_store s g))) \<and>
     (\<forall>d d' g. dv_gateway (dv_store s d) = Some g \<longrightarrow> dv_gateway (dv_store s d') = Some g \<longrightarrow>
        dv_mac (dv_store s d) = dv_mac (dv_store s d') \<longrightarrow> d = d') \<and>
     (\<forall>g. targets (gw_store s g) \<noteq> [] \<longrightarrow> g \<in> A)"

definition gateways_ok :: "'h runner \<Rightarrow> bool" where
  "gateways_ok s \<longleftrightarrow> (\<exists>A. owners_ok A s)"

definition owned :: "nat \<Rightarrow> 'h runner \<Rightarrow> bool" where
  "owned g s \<longleftrightarrow> (\<exists>A. owners_ok A s \<and> g \<in> A)"

lemma owners_gateway:
  "owners_ok A s \<Longrightarrow> dv_gateway (dv_store s d) = Some g \<Longrightarrow> g \<in> A \<and> dv_mac (dv_store s d) \<in> set (targets (gw_store s g))"
  by (simp add: owners_ok_def)

lemma owners_unique:
  "owners_ok A s \<Longrightarrow> dv_gateway (dv_store s d) = Some g \<Longrightarrow> dv_gateway (dv_store s d') = Some g \<Longrightarrow>
     dv_mac (dv_store s d) = dv_mac (dv_store s d') \<Longrightarrow> d = d'"
  unfolding owners_ok_def by blast

lemma owners_plain: "owners_ok A s \<Longrightarrow> plain s s' \<Longrightarrow> owners_ok A s'"
  by (simp add: owners_ok_def plain_def)

lemma owners_update:
  "owners_ok A (s\<lparr>events := es\<rparr>) = owners_ok A s" "owners_ok A (s\<lparr>starved := b\<rparr>) = owners_ok A s"
  by (simp_all add: owners_ok_def)

lemma owners_create:
  assumes "owners_ok A s" "v = None"
  shows "owners_ok A (snd (create_if_absent mac p v s))"
proof (cases "dict_get (by_mac s) mac")
  case None
  note e = new_device_effect [OF None, where p = p and v = v]
  let ?s' = "snd (new_device mac p v s)"
  have dev: "dv_gateway (dv_store ?s' d) = (if d = dv_next s then None else dv_gateway (dv_store s d))"
    "dv_vlan (dv_store ?s' d) = (if d = dv_next s then None else dv_vlan (dv_store s d))"
    "d \<noteq> dv_next s \<Longrightarrow> dv_mac (dv_store ?s' d) = dv_mac (dv_store s d)" for d
    using e(1) [of d] e(3,4) assms(2) by auto
  have "owners_ok A ?s'"
    using assms(1) unfolding owners_ok_def e(8-11) dev(1,2) by (auto simp: dev(3) split: if_splits)
  with None show ?thesis by (simp add: create_if_absent_def)
qed (use assms in \<open>simp add: create_if_absent_def\<close>)

lemma owners_remove: "owners_ok A s \<Longrightarrow> owners_ok A (snd (remove_device d s))"
  by (auto simp: owners_ok_def remove_device_def Let_def split: option.splits)

lemma owners_set_host: "owners_ok A s \<Longrightarrow> owners_ok A (snd (set_device d (\<lambda>dv. dv\<lparr>dv_host := x\<rparr>) s))"
  by (auto simp: owners_ok_def set_device_def op_simps split: if_splits)

subsection \<open>Creating a gateway\<close>

lemma find_gateway_set_cases:
  assumes "find_gateway_set E d s = (r, s')"
  shows "(\<exists>e. r = Inl e \<and> s' = s) \<or>
    (\<exists>n. r = Inr n \<and> n \<in> set (gateway_sets s) \<and> s' = s\<lparr>gateway_sets := remove1 n (gateway_sets s)\<rparr>)"
proof -
  have "gateway_sets s ! (k mod length (gateway_sets s)) \<in> set (gateway_sets s)" if "gateway_sets s \<noteq> []" for k
    using that by simp
  with assms show ?thesis by (auto simp: find_gateway_set_def Let_def split: if_splits option.splits)
qed

lemma existing_owned: "owners_ok A s \<Longrightarrow> g \<in> set (existing_gateways d s) \<Longrightarrow> g \<in> A"
  by (auto simp: existing_gateways_def owners_ok_def split: option.splits)

lemma owners_take:
  "owners_ok A s \<Longrightarrow> n \<in> set (gateway_sets s) \<Longrightarrow> owners_ok A (s\<lparr>gateway_sets := remove1 n (gateway_sets s)\<rparr>)"
  by (auto simp: owners_ok_def dest: in_set_remove1 [THEN iffD1, rotated] notin_set_remove1)

lemma owners_new:
  assumes "owners_ok A s" "n \<in> set (gateway_sets s)" "port_set g = n" "targets g = []"
  shows "owners_ok (insert (gw_next s) A)
    (snd (alloc_gateway g (s\<lparr>gateway_sets := remove1 n (gateway_sets s)\<rparr>)))"
  using assms by (auto simp: owners_ok_def alloc_gateway_def inj_on_def dest: notin_set_remove1)

lemma owners_give_back:
  "owners_ok A s \<Longrightarrow> n \<in> set (gateway_sets s) \<Longrightarrow>
     owners_ok A (snd (add_gateway_set n (s\<lparr>gateway_sets := remove1 n (gateway_sets s)\<rparr>)))"
  by (auto simp: owners_ok_def add_gateway_set_def op_simps dest: notin_set_remove1)

lemma owners_create_gateway:
  assumes "owners_ok A s" "create_gateway E d s = (r, s')"
  shows "gateways_ok s' \<and> (\<forall>g. r = Inr g \<longrightarrow> owned g s')"
proof -
  have native: "native_gateway s = None" using assms(1) by (simp add: owners_ok_def)
  show ?thesis
  proof (cases "existing_gateways d s")
    case Nil
    let ?rest = "\<lambda>n. bind_op (lift_op (gateway_init (or_empty (dv_group (dv_store s d))) n False)) (start_gateway E n)"
    from assms(2) native Nil have c: "bind_op (find_gateway_set E d) ?rest s = (r, s')"
      by (simp add: create_gateway_def read_op_def)
    obtain q s1 where f: "find_gateway_set E d s = (q, s1)" by (cases "find_gateway_set E d s")
    from find_gateway_set_cases [OF f] show ?thesis
    proof (elim disjE exE conjE)
      fix e assume "q = Inl e" "s1 = s"
      with c f assms(1) show ?thesis by (auto simp: bind_op_def gateways_ok_def)
    next
      fix n assume n: "q = Inr n" "n \<in> set (gateway_sets s)" "s1 = s\<lparr>gateway_sets := remove1 n (gateway_sets s)\<rparr>"
      with c f have rest: "?rest n s1 = (r, s')" by (simp add: bind_op_def)
      show ?thesis
      proof (cases "n > 0")
        case False
        with rest have "r = Inl AssertionError" "s' = s1" by (auto simp: gateway_init_def op_simps)
        then show ?thesis using owners_take [OF assms(1) n(2)] n(3) by (auto simp: gateways_ok_def)
      next
        case True
        then obtain g where g: "port_set g = n" "targets g = []" "start_gateway E n g s1 = (r, s')"
          using rest that [of "\<lparr>gw_name = or_empty (dv_group (dv_store s d)), port_set = n, targets = [], test_ports = [],
            ready = [], activated = False, is_native = False\<rparr>"]
          by (simp add: gateway_init_def op_simps)
        show ?thesis
        proof (cases "gateway_up E g")
          case (Inl e)
          with g have "r = Inl e" "s' = snd (add_gateway_set n s1)"
            by (auto simp: start_gateway_def add_gateway_set_def op_simps)
          then show ?thesis using owners_give_back [OF assms(1) n(2)] n(3) by (auto simp: gateways_ok_def)
        next
          case (Inr u)
          with g have "r = Inr (gw_next s)" "s' = snd (alloc_gateway g s1)"
            using n(3) by (auto simp: start_gateway_def alloc_gateway_def)
          then show ?thesis
            using owners_new [OF assms(1) n(2) g(1,2)] n(3) by (auto simp: gateways_ok_def owned_def)
        qed
      qed
    qed
  next
    case (Cons g gs)
    then have "g \<in> A" using existing_owned [OF assms(1), of g d] by simp
    with Cons assms native show ?thesis
      by (cases gs) (auto simp: create_gateway_def op_simps gateways_ok_def owned_def)
  qed
qed

subsection \<open>Attaching and detaching\<close>

text \<open>What both do: the gateway of one device and the targets of one gateway change, and a set may be given back.\<close>

lemma owners_change:
  assumes "owners_ok A s" "B \<subseteq> A"
    and same: "native_gateway s' = native_gateway s" "gw_next s' = gw_next s" "distinct (gateway_sets s')"
      "\<And>e. dv_vlan (dv_store s' e) = dv_vlan (dv_store s e)" "\<And>e. dv_mac (dv_store s' e) = dv_mac (dv_store s e)"
      "\<And>x. port_set (gw_store s' x) = port_set (gw_store s x)"
    and dev: "\<And>e x. dv_gateway (dv_store s' e) = Some x \<Longrightarrow>
      x \<in> B \<and> dv_mac (dv_store s e) \<in> set (targets (gw_store s' x))"
    and uniq: "\<And>e e' x. dv_gateway (dv_store s' e) = Some x \<Longrightarrow> dv_gateway (dv_store s' e') = Some x \<Longrightarrow>
      dv_mac (dv_store s e) = dv_mac (dv_store s e') \<Longrightarrow> e = e'"
    and tgt: "\<And>x. targets (gw_store s' x) \<noteq> [] \<Longrightarrow> x \<in> B"
    and sets: "\<And>x. x \<in> B \<Longrightarrow> port_set (gw_store s x) \<notin> set (gateway_sets s')"
  shows "owners_ok B s'"
proof -
  have "inj_on (\<lambda>g. port_set (gw_store s g)) B" using assms(1,2) inj_on_subset unfolding owners_ok_def by blast
  moreover have "\<forall>g\<in>B. g < gw_next s" using assms(1,2) unfolding owners_ok_def by blast
  moreover have "native_gateway s = None" "\<forall>d. dv_vlan (dv_store s d) = None \<or> dv_vlan (dv_store s d) = Some 0"
    using assms(1) unfolding owners_ok_def by blast+
  moreover have "\<forall>d g. dv_gateway (dv_store s' d) = Some g \<longrightarrow> g \<in> B \<and> dv_mac (dv_store s d) \<in> set (targets (gw_store s' g))"
    using dev by blast
  moreover have "\<forall>d d' g. dv_gateway (dv_store s' d) = Some g \<longrightarrow> dv_gateway (dv_store s' d') = Some g \<longrightarrow>
      dv_mac (dv_store s d) = dv_mac (dv_store s d') \<longrightarrow> d = d'"
    using uniq by blast
  ultimately show ?thesis unfolding owners_ok_def same(1,2,4,5,6) using same(3) tgt sets by blast
qed

lemma owners_attach:
  assumes "owners_ok A s" "g \<in> A"
  shows "owners_ok A (snd (attach_device d g s))"
proof (cases "dv_mac (dv_store s d) \<in> set (targets (gw_store s g))")
  case True
  then show ?thesis using assms by (simp add: attach_device_def call_gateway_def attach_target_def op_simps)
next
  case False
  let ?s' = "snd (attach_device d g s)" and ?m = "dv_mac (dv_store s d)"
  have s': "native_gateway ?s' = native_gateway s" "gateway_sets ?s' = gateway_sets s" "gw_next ?s' = gw_next s"
    "\<And>e. dv_gateway (dv_store ?s' e) = (if e = d then Some g else dv_gateway (dv_store s e))"
    "\<And>e. dv_mac (dv_store ?s' e) = dv_mac (dv_store s e)" "\<And>e. dv_vlan (dv_store ?s' e) = dv_vlan (dv_store s e)"
    "\<And>x. port_set (gw_store ?s' x) = port_set (gw_store s x)"
    "\<And>x. targets (gw_store ?s' x) = (if x = g then targets (gw_store s g) @ [?m] else targets (gw_store s x))"
    using False by (simp_all add: attach_device_def call_gateway_def attach_target_def set_device_def op_simps)
  have new: "e = d" if "dv_gateway (dv_store s e) = Some g" "dv_mac (dv_store s e) = ?m" for e
    using that False owners_gateway [OF assms(1), of e g] by simp
  show ?thesis
  proof (rule owners_change [OF assms(1) subset_refl s'(1,3) _ s'(6,5,7)])
    show "distinct (gateway_sets ?s')" using assms(1) by (simp add: s' owners_ok_def)
    show "x \<in> A \<Longrightarrow> port_set (gw_store s x) \<notin> set (gateway_sets ?s')" for x using assms(1) by (simp add: s' owners_ok_def)
    show "targets (gw_store ?s' x) \<noteq> [] \<Longrightarrow> x \<in> A" for x using assms by (auto simp: s' owners_ok_def split: if_splits)
    show "dv_gateway (dv_store ?s' e) = Some x \<Longrightarrow> x \<in> A \<and> dv_mac (dv_store s e) \<in> set (targets (gw_store ?s' x))" for e x
      using assms(2) owners_gateway [OF assms(1), of e x] by (auto simp: s' split: if_splits)
    show "dv_gateway (dv_store ?s' e) = Some x \<Longrightarrow> dv_gateway (dv_store ?s' e') = Some x \<Longrightarrow>
        dv_mac (dv_store s e) = dv_mac (dv_store s e') \<Longrightarrow> e = e'" for e e' x
      using new [of e] new [of e'] owners_unique [OF assms(1), of e x e'] by (auto simp: s' split: if_splits)
  qed
qed

lemma owners_detach:
  assumes "port_mode E" "owners_ok A s"
  shows "gateways_ok (snd (detach_gateway E d s))"
proof (cases "dv_gateway (dv_store s d)")
  case None
  then show ?thesis using assms(2) by (auto simp: detach_gateway_def op_simps gateways_ok_def)
next
  case (Some g)
  let ?m = "dv_mac (dv_store s d)" and ?s' = "snd (detach_gateway E d s)"
  let ?ts = "remove1 ?m (targets (gw_store s g))" and ?n = "port_set (gw_store s g)"
  have g: "g \<in> A" "?m \<in> set (targets (gw_store s g))" "?n \<notin> set (gateway_sets s)" "distinct (gateway_sets s)"
    using assms(2) owners_gateway [OF assms(2) Some] by (auto simp: owners_ok_def)
  have vlan: "dv_vlan (dv_store s d) = None \<or> dv_vlan (dv_store s d) = Some 0" using assms(2) by (simp add: owners_ok_def)
  have down: "gateway_down E x = Inr ()" for x using assms(1) by (simp add: port_mode_def)
  have s': "native_gateway ?s' = native_gateway s" "gw_next ?s' = gw_next s"
    "\<And>e. dv_gateway (dv_store ?s' e) = (if e = d then None else dv_gateway (dv_store s e))"
    "\<And>e. dv_mac (dv_store ?s' e) = dv_mac (dv_store s e)" "\<And>e. dv_vlan (dv_store ?s' e) = dv_vlan (dv_store s e)"
    "\<And>x. port_set (gw_store ?s' x) = port_set (gw_store s x)"
    "\<And>x. targets (gw_store ?s' x) = (if x = g then ?ts else targets (gw_store s x))"
    "gateway_sets ?s' = (if ?ts = [] then gateway_sets s @ [?n] else gateway_sets s)"
    using Some g(2,3) vlan down
    by (auto simp: detach_gateway_def read_op_def then_op_def bind_op_def call_gateway_def detach_target_def set_device_def
        modify_op_def lift_op_def ret_op_def add_gateway_set_def gateway_terminate_def bind_result_def)
  have others: "dv_mac (dv_store s e) \<in> set ?ts" if "dv_gateway (dv_store s e) = Some g" "e \<noteq> d" for e
    using that Some owners_gateway [OF assms(2), of e g] owners_unique [OF assms(2), of e g d]
    by (metis in_set_remove1)
  let ?B = "if ?ts = [] then A - {g} else A"
  have "owners_ok ?B ?s'"
  proof (rule owners_change [OF assms(2) _ s'(1,2) _ s'(5,4,6)])
    show "?B \<subseteq> A" by auto
    show "distinct (gateway_sets ?s')" using g by (simp add: s'(8))
    show "port_set (gw_store s x) \<notin> set (gateway_sets ?s')" if "x \<in> ?B" for x
    proof -
      have "x \<in> A" using that by (simp split: if_splits)
      then have "port_set (gw_store s x) \<notin> set (gateway_sets s)" "port_set (gw_store s x) = ?n \<Longrightarrow> x = g"
        using assms(2) g(1) by (auto simp: owners_ok_def dest: inj_onD)
      with that show ?thesis by (auto simp: s'(8) split: if_splits)
    qed
    show "targets (gw_store ?s' x) \<noteq> [] \<Longrightarrow> x \<in> ?B" for x
      using assms(2) g(1) by (auto simp: s'(7) owners_ok_def split: if_splits)
    show "x \<in> ?B \<and> dv_mac (dv_store s e) \<in> set (targets (gw_store ?s' x))" if "dv_gateway (dv_store ?s' e) = Some x" for e x
    proof -
      have e: "dv_gateway (dv_store s e) = Some x" "e \<noteq> d" using that by (auto simp: s'(3) split: if_splits)
      with owners_gateway [OF assms(2), of e x] others [of e] show ?thesis by (cases "x = g") (auto simp: s'(7))
    qed
    show "dv_gateway (dv_store ?s' e) = Some x \<Longrightarrow> dv_gateway (dv_store ?s' e') = Some x \<Longrightarrow>
        dv_mac (dv_store s e) = dv_mac (dv_store s e') \<Longrightarrow> e = e'" for e e' x
      using owners_unique [OF assms(2), of e x e'] by (auto simp: s'(3) split: if_splits)
  qed
  then show ?thesis unfolding gateways_ok_def by blast
qed

subsection \<open>The invariant\<close>

interpretation sets: event_invariant "\<lambda>s. port_mode E \<longrightarrow> gateways_ok s" "\<lambda>g s. port_mode E \<longrightarrow> owned g s" E H "\<not> port_mode E" for E H
proof unfold_locales
  fix d :: nat and g mac and s s' :: "'a runner" and x h
  let ?I = "\<lambda>s. port_mode E \<longrightarrow> gateways_ok s"
  show "?I s \<Longrightarrow> plain s s' \<Longrightarrow> ?I s'" using owners_plain by (auto simp: gateways_ok_def)
  show "port_mode E \<longrightarrow> owned g s \<Longrightarrow> plain s s' \<Longrightarrow> port_mode E \<longrightarrow> owned g s'" using owners_plain by (auto simp: owned_def)
  show "keeps ?I (create_if_absent mac p v)" if "v = None \<or> \<not> port_mode E" for p v
    using that by (auto simp: keeps_def gateways_ok_def dest: owners_create [OF _ refl])
  show "keeps ?I (set_device d (\<lambda>dv. dv\<lparr>dv_vlan := v, dv_assigned := a\<rparr>))" if "\<not> port_mode E" for v a
    using that by (simp add: keeps_def)
  show "keeps ?I (set_device d (\<lambda>dv. dv\<lparr>dv_host := None\<rparr>))" by (auto simp: keeps_def gateways_ok_def dest: owners_set_host)
  show "keeps ?I (remove_device d)" by (auto simp: keeps_def gateways_ok_def dest: owners_remove)
  show "ensures ?I (create_gateway E d) (\<lambda>g s. ?I s \<and> (port_mode E \<longrightarrow> owned g s)) ?I"
    using owners_create_gateway by (fastforce simp: ensures_def gateways_ok_def split: prod.splits sum.splits)
  show "ensures (\<lambda>s. ?I s \<and> (port_mode E \<longrightarrow> owned g s)) (attach_device d g) (\<lambda>_. ?I) ?I"
    by (intro ensures_final) (auto simp: owned_def gateways_ok_def dest: owners_attach)
  show "keeps ?I (initialize_native E)" if "\<not> port_mode E" using that by (simp add: keeps_def)
  show "keeps ?I (detach_gateway E d)" by (auto simp: keeps_def gateways_ok_def [of s for s] dest: owners_detach)
  show "?I s \<Longrightarrow> ?I (snd (set_device d (\<lambda>dv. dv\<lparr>dv_host := Some h\<rparr>) s))" by (auto simp: gateways_ok_def dest: owners_set_host)
  show "?I s \<Longrightarrow> ?I (s\<lparr>events := es\<rparr>)" "?I s \<Longrightarrow> ?I (s\<lparr>starved := b\<rparr>)" for es b by (simp_all add: gateways_ok_def owners_update)
  show "\<not> vlan_trigger E \<and> native_vlan_id E = None \<or> \<not> port_mode E" by (auto simp: port_mode_def)
qed

subsection \<open>Properties\<close>

text \<open>A concrete environment and host for the witnesses: the host fails to start.\<close>

definition example_env :: env where
  "example_env =
     \<lparr>max_hosts = Some 2, run_limit = 0, single_shot = False, fail_mode = False, result_linger = False,
      native_vlan_id = None, vlan_trigger = False, result_handler = False, ext_mac = None, default_flap_timeout = 0,
      time_now = 100, pop_index = (\<lambda>_. 0), templates = (\<lambda>_. None), behavioral_config = (\<lambda>_. Inr ()),
      gateway_up = (\<lambda>_. Inr ()), gateway_down = (\<lambda>_. Inr ()), gateway_ready = (\<lambda>_. Inr ()), fake_target = (\<lambda>_. None),
      stop_dhcp = (\<lambda>_ _. Inr ()), send_result = (\<lambda>_ _. Inr ()), reconnect = Inr (), event_connect = Inr (), network_initialize = Inr (), network_activate = (\<lambda>_. Inr ()),
      remote_tap = (\<lambda>_. Inr ()), publish_heartbeat = Inr (), device_heartbeats = Inr (), server_start = Inr (), server_stop = Inr (),
      exn_of = (\<lambda>_. \<lparr>ex_class = ''Exception'', ex_text = ''error''\<rparr>)\<rparr>"

definition failing_host :: "unit host_ops" where
  "failing_host =
     \<lparr>ho_new = (\<lambda>_ _ _. Inr ()), ho_initialize = (\<lambda>_. (Inl OSError, ())), ho_is_running = (\<lambda>_. True),
      ho_idle_handler = (\<lambda>_ (_, g). ((Inr (), []), (), g)), ho_heartbeat = [],
      ho_stream = (\<lambda>_ _ (_, g). ((Inr (), []), (), g)),
      ho_record_result = (\<lambda>_ _. (Inr (), ())), ho_results = (\<lambda>_. []), ho_terminate = (\<lambda>_. (Inr None, ())),
      ho_enabled_tests = (\<lambda>_. []), ho_ip_notify = (\<lambda>_ _ _ _ (_, g). ((Inr (), []), (), g)), ho_notify_activate = (\<lambda>_. (True, ())),
      ho_trigger_ready = (\<lambda>_. Inr True), ho_trigger = (\<lambda>_ _ _ _. (Inr True, ())), ho_port_flap_timeout = (\<lambda>_. Inr None)\<rparr>"

definition example_runner :: "unit runner" where
  "example_runner = (runner_init example_topology ())\<lparr>connected := True\<rparr>"

text \<open>Two devices are plugged in and learned.\<close>

definition example_trace :: "(env \<times> unit host_ops \<times> occasion) list" where
  "example_trace = map (\<lambda>occ. (example_env, failing_host, occ))
     (map (\<lambda>e. Incoming (Event e))
        [PortState 1 1 True, PortState (sec_dpid example_topology) 1 True, PortState (sec_dpid example_topology) 2 True,
         PortLearn (sec_dpid example_topology) 1 ''9a:02:57:1e:8f:01'' 10,
         PortLearn (sec_dpid example_topology) 2 ''9a:02:57:1e:8f:02'' 10] @ [FaucetReady])"

lemma example_port_mode: "list_all (\<lambda>(E, H, occ). port_mode E \<and> \<not> is_session occ) example_trace"
  by (simp add: example_trace_def port_mode_def example_env_def is_session_def)

lemma gateways_ok_init: "gateways_ok (runner_init t h)"
  unfolding gateways_ok_def
  by (rule exI [of _ "{}"]) (simp add: owners_ok_def runner_init_def new_device_object_def)

lemma run_trace_keeps:
  assumes "\<And>E H occ. (E, H, occ) \<in> set trace \<Longrightarrow> keeps I (handle_occasion E H occ)" "I s"
  shows "I (run_trace trace s)"
  using assms by (induction trace arbitrary: s) (auto simp: run_trace_def keeps_def)

lemma run_trace_gateways:
  assumes "list_all (\<lambda>(E, H, occ). port_mode E \<and> \<not> is_session occ) trace" "gateways_ok s"
  shows "gateways_ok (run_trace trace s)"
proof (rule run_trace_keeps [where I = gateways_ok])
  fix E H occ assume "(E, H, occ) \<in> set trace"
  with assms(1) have "port_mode E" "\<not> is_session occ" by (auto simp: list_all_iff)
  with sets.occasion_keeps [of occ E H] show "keeps gateways_ok (handle_occasion E H occ)" by (simp add: keeps_def)
qed (rule assms(2))

lemma gateways_exclusive:
  assumes "gateways_ok s" "g \<noteq> g'" "targets (gw_store s g) \<noteq> []" "targets (gw_store s g') \<noteq> []"
  shows "port_set (gw_store s g) \<noteq> port_set (gw_store s g')" "port_set (gw_store s g) \<notin> set (gateway_sets s)"
proof -
  obtain A where A: "owners_ok A s" using assms(1) by (auto simp: gateways_ok_def)
  then have "g \<in> A" "g' \<in> A" using assms(3,4) by (auto simp: owners_ok_def)
  with A assms(2) show "port_set (gw_store s g) \<noteq> port_set (gw_store s g')" "port_set (gw_store s g) \<notin> set (gateway_sets s)"
    by (auto simp: owners_ok_def dest: inj_onD)
qed

lemma test_ports_disjoint:
  assumes "port_set g \<noteq> port_set g'"
  shows "set (get_possible_test_ports g) \<inter> set (get_possible_test_ports g') = {}"
proof -
  have False if "p \<in> test_port_pool g" "p \<in> test_port_pool g'" for p
  proof -
    have "switch_port g (p - switch_port g 0) = switch_port g' (p - switch_port g' 0)" by (simp add: switch_port_def)
    from switch_ports_disjoint [OF _ _ _ _ this] that assms show False
      by (auto simp: test_port_pool_def switch_port_def gateway_consts)
  qed
  then show ?thesis unfolding possible_test_ports by blast
qed

text \<open>C2: ownership of gateway sets. In the port-triggered mode, with gateways that stop without an
  exception, whatever happens in whatever order, and however hosts and containers behave: two gateways
  that have targets attached never have the same gateway set, such a set is never marked as free, and
  so their tests never get the same switch port. This holds from the start.\<close>

theorem gateway_sets_exclusive:
  assumes "s = runner_init t h \<or> gateways_ok s"
    and "list_all (\<lambda>(E, H, occ). port_mode E \<and> \<not> is_session occ) trace"
    and "s' = run_trace trace s"
    and "g \<noteq> g'" "targets (gw_store s' g) \<noteq> []" "targets (gw_store s' g') \<noteq> []"
  shows "gateways_ok s' \<and> port_set (gw_store s' g) \<noteq> port_set (gw_store s' g') \<and>
    port_set (gw_store s' g) \<notin> set (gateway_sets s') \<and>
    set (get_possible_test_ports (gw_store s' g)) \<inter> set (get_possible_test_ports (gw_store s' g')) = {}"
proof -
  have "gateways_ok s" using assms(1) gateways_ok_init by auto
  with run_trace_gateways assms(2,3) have ok: "gateways_ok s'" by auto
  from gateways_exclusive [OF ok assms(4-6)] ok test_ports_disjoint show ?thesis by blast
qed

text \<open>Two gateways in use, and an event that concerns neither.\<close>

definition busy_runner :: "unit runner" where
  "busy_runner = (runner_init example_topology ())\<lparr>gw_store := (\<lambda>g. \<lparr>gw_name = ''gw'', port_set = int g + 1,
       targets = (if g = 0 then [''9a:02:57:1e:8f:01''] else if g = 1 then [''9a:02:57:1e:8f:02''] else []), test_ports = [],
       ready = [], activated = False, is_native = False\<rparr>), gw_next := 2, gateway_sets := [3..9]\<rparr>"

lemma busy_runner_ok: "gateways_ok busy_runner"
  unfolding gateways_ok_def
  by (rule exI [of _ "{0, 1}"]) (auto simp: owners_ok_def busy_runner_def runner_init_def new_device_object_def split: if_splits)

theorem gateway_sets_exclusive_witness:
  "set (get_possible_test_ports (gw_store (run_trace (take 2 example_trace) busy_runner) 0)) \<inter>
     set (get_possible_test_ports (gw_store (run_trace (take 2 example_trace) busy_runner) 1)) = {}"
proof -
  let ?s' = "run_trace (take 2 example_trace) busy_runner"
  have "list_all (\<lambda>(E, H, occ). port_mode E \<and> \<not> is_session occ) (take 2 example_trace)"
    using example_port_mode by (auto simp: list_all_iff dest: in_set_takeD)
  moreover have "gw_store ?s' = gw_store busy_runner"
    by (simp add: run_trace_def example_trace_def handle_occasion_def op_simps)
  then have "targets (gw_store ?s' 0) \<noteq> []" "targets (gw_store ?s' 1) \<noteq> []" by (simp_all add: busy_runner_def)
  ultimately show ?thesis using gateway_sets_exclusive [OF disjI2 [OF busy_runner_ok] _ refl, of "take 2 example_trace" 0 1] by simp
qed

end
