(* ===== verification/Runner_Example.thy ===== *)
theory Runner_Example
  imports Gateway_Sets
begin

text \<open>
  A run of the runner in which a device comes under test: the runner is initialized, the trunk and two
  ports come up and a device is learned on each of them. One device is tested at a time, so the second one
  waits. The states after each step are written out; the properties of runs use them as instances.
\<close>

definition busy_env :: env where
  "busy_env = example_env\<lparr>max_hosts := Some 1\<rparr>"

definition working_host :: "unit host_ops" where
  "working_host = failing_host\<lparr>ho_initialize := (\<lambda>_. (Inr (), ()))\<rparr>"

definition base_runner :: "unit runner" where
  "base_runner = runner_init (make_base_network_topology example_topology) ()"

definition arrive :: "faucet_event list \<Rightarrow> (env \<times> unit host_ops \<times> occasion) list" where
  "arrive evs = concat (map (\<lambda>ev. [(busy_env, working_host, Incoming (Event ev)), (busy_env, working_host, FaucetReady)]) evs)"

definition plug_trace :: "(env \<times> unit host_ops \<times> occasion) list" where
  "plug_trace = (busy_env, working_host, Initialize) # arrive [PortState 1 1 True, PortState 2 1 True, PortState 2 2 True]"

definition learn_trace :: "(env \<times> unit host_ops \<times> occasion) list" where
  "learn_trace = arrive [PortLearn 2 1 ''9a:02:57:1e:8f:01'' 10, PortLearn 2 2 ''9a:02:57:1e:8f:02'' 10]"

lemma event_handled:
  assumes "connected s" "events s = []" "process_faucet_event E H (handle_faucet_events E H 0 None) ev s = (Inr (), s')" "events s' = []"
  shows "snd (handle_occasion E H FaucetReady (snd (handle_occasion E H (Incoming (Event ev)) s))) = s'"
proof -
  have "handle_incoming E H (handle_faucet_events E H 0) None (Event ev) s = (Inr (), s')"
    using assms(3,4) by (simp add: handle_incoming_def then_op_def bind_op_def faucet_events_done)
  moreover have same: "s\<lparr>events := []\<rparr> = s" using assms(2) by simp
  ultimately show ?thesis using assms(1,2)
    by (simp add: handle_occasion_def handle_events_def read_op_def modify_op_def faucet_events_Suc same)
qed

lemma arrive_Cons:
  assumes "connected s" "events s = []" "process_faucet_event busy_env working_host (handle_faucet_events busy_env working_host 0 None) ev s = (Inr (), s')"
    "events s' = []"
  shows "run_trace (arrive (ev # evs)) s = run_trace (arrive evs) s'"
  using event_handled [OF assms] by (simp add: arrive_def run_trace_def)

subsection \<open>Plugging in\<close>

definition active_port :: "int \<Rightarrow> port_info" where
  "active_port n = new_port_info\<lparr>pi_port_no := Some n, pi_flapping := 0, pi_active := True\<rparr>"

definition plugged_runner :: "unit runner" where
  "plugged_runner = base_runner\<lparr>connected := True, system_active := True, port_objs := [(1, 0), (2, 1)], pt_next := 2,
     pt_store := (\<lambda>_. new_port_info)(0 := active_port 1, 1 := active_port 2)\<rparr>"

lemmas port_event_defs = process_faucet_event_def handle_port_state_def is_system_port_def is_device_port_def PRI_DPID_def PRI_TRUNK_PORT_def
  activate_port_def new_port_def set_port_def dict_index_def send_heartbeat_def op_simps busy_env_def example_env_def

lemma plugged: "run_trace plug_trace base_runner = plugged_runner"
proof -
  let ?s = "base_runner\<lparr>connected := True\<rparr>"
  have base [simp]: "native_gateway base_runner = None" "sec_dpid (topo base_runner) = 2" "sec_port (topo base_runner) = 3" "events base_runner = []"
    "port_objs base_runner = []" "pt_next base_runner = 0" "pt_store base_runner = (\<lambda>_. new_port_info)" "system_active base_runner = False"
    by (simp_all add: base_runner_def runner_init_def make_base_network_topology_def example_topology_def)
  have "run_trace plug_trace base_runner = run_trace (arrive [PortState 1 1 True, PortState 2 1 True, PortState 2 2 True]) ?s"
    by (simp add: plug_trace_def run_trace_def handle_occasion_def runner_initialize_def initialize_native_def send_heartbeat_def op_simps
        busy_env_def example_env_def)
  also have "\<dots> = run_trace (arrive [PortState 2 1 True, PortState 2 2 True]) (?s\<lparr>system_active := True\<rparr>)"
    by (rule arrive_Cons) (simp_all add: port_event_defs)
  also have "\<dots> = run_trace (arrive [PortState 2 2 True]) (?s\<lparr>system_active := True, port_objs := [(1, 0)], pt_next := 1,
      pt_store := (\<lambda>_. new_port_info)(0 := active_port 1)\<rparr>)"
    by (rule arrive_Cons) (simp_all add: port_event_defs active_port_def)
  also have "\<dots> = run_trace (arrive []) plugged_runner"
    by (rule arrive_Cons) (simp_all add: port_event_defs active_port_def plugged_runner_def fun_upd_twist)
  finally show ?thesis by (simp add: arrive_def run_trace_def)
qed

subsection \<open>Learning\<close>

definition first_gateway :: gateway where
  "first_gateway = \<lparr>gw_name = ''9a02571e8f01'', port_set = 1, targets = [''9a:02:57:1e:8f:01''], test_ports = [], ready = [], activated = False,
     is_native = False\<rparr>"

definition tested_device :: device where
  "tested_device = (new_device_object ''9a:02:57:1e:8f:01'' 0 None)\<lparr>dv_set_id := Some 1, dv_group := Some ''9a02571e8f01'', dv_gateway := Some 0,
     dv_host := Some 0, dv_wait_remote := False\<rparr>"

definition first_target :: port_target where
  "first_target = \<lparr>t_port = 1, t_port_set = 1, t_mac = ''9a:02:57:1e:8f:01'', t_group = ''9a02571e8f01'', t_fake = None\<rparr>"

lemma traffic_directed:
  assumes "topo s = make_base_network_topology example_topology" "dv_gateway (dv_store s 0) = Some 0" "gw_store s 0 = first_gateway"
  shows "\<exists>t. network_direct_port_traffic busy_env 0 1 (Some first_target) s = (Inr (), s\<lparr>topo := t\<rparr>) \<and> sec_dpid t = 2 \<and> sec_port t = 3"
proof -
  let ?t = "make_base_network_topology example_topology"
  have ok: "\<not> has_specs ?t" "targets_in_range ?t" "sec_dpid ?t = 2" "sec_port ?t = 3" "dict_get (port_targets ?t) 1 = None"
    "dict_get (sec_interfaces ?t) 1 \<noteq> None"
    by (simp_all add: make_base_network_topology_def has_specs_def targets_in_range_def example_topology_def has_sec_switch_def sec_interfaces_lookup)
  have g: "td_gateway (topo_view s 0) = Some first_gateway" "port_set first_gateway \<noteq> 0"
    using assms(2,3) by (simp_all add: topo_view_def Let_def first_gateway_def)
  have "pred_option (\<lambda>tg. 1 \<le> t_port_set tg \<and> t_port_set tg < sec_port ?t) (Some first_target)" using ok(4) by (simp add: first_target_def)
  from direct_port_cases [where dev = "topo_view s" and dv = 0 and port = 1 and load = "templates busy_env", OF ok(1,2) g this] ok(3-6) obtain t where
    "direct_port_traffic (templates busy_env) (topo_view s) 0 1 (Some first_target) ?t = (Inr (), t)" "sec_dpid t = 2" "sec_port t = 3"
    by (cases "direct_port_traffic (templates busy_env) (topo_view s) 0 1 (Some first_target) ?t") (auto simp: Let_def)
  then show ?thesis using assms(1)
    by (intro exI [of _ t]) (simp add: network_direct_port_traffic_def call_topology_def op_simps busy_env_def example_env_def)
qed

lemma plugged_fields [simp]:
  "dv_store plugged_runner = dv_store base_runner" "dv_next plugged_runner = 0" "by_mac plugged_runner = []" "set_ids plugged_runner = []"
  "gw_store plugged_runner = gw_store base_runner" "gw_next plugged_runner = 0" "gateway_sets plugged_runner = [1..9]" "native_gateway plugged_runner = None"
  "host_store plugged_runner = (\<lambda>_. ())" "host_gateway plugged_runner = (\<lambda>_. 0)" "host_device plugged_runner = (\<lambda>_. 0)"
  "host_next plugged_runner = 0" "gw_linger plugged_runner = (\<lambda>_. False)" "run_count plugged_runner = 0" "run_tests plugged_runner"
  "system_active plugged_runner" "target_set_queue plugged_runner = []" "connected plugged_runner" "events plugged_runner = []"
  "topo plugged_runner = make_base_network_topology example_topology" "port_objs plugged_runner = [(1, 0), (2, 1)]"
  "pt_store plugged_runner = (\<lambda>_. new_port_info)(0 := active_port 1, 1 := active_port 2)"
  by (simp_all add: plugged_runner_def base_runner_def runner_init_def MAX_GATEWAYS_def)

lemma base_topo [simp]:
  "sec_dpid (make_base_network_topology example_topology) = 2" "sec_port (make_base_network_topology example_topology) = 3"
  "device_group_for (make_base_network_topology example_topology) mac vlan = sanitize_mac mac"
  by (simp_all add: make_base_network_topology_def example_topology_def device_group_for_def has_specs_def)

definition created_runner :: "unit runner" where
  "created_runner = plugged_runner\<lparr>dv_store := (dv_store base_runner)(0 := (new_device_object ''9a:02:57:1e:8f:01'' 0 None)\<lparr>dv_set_id := Some 1\<rparr>),
     dv_next := 1, by_mac := [(''9a:02:57:1e:8f:01'', 0)], set_ids := [1]\<rparr>"

lemma created: "create_if_absent ''9a:02:57:1e:8f:01'' (Some 0) None plugged_runner = (Inr 0, created_runner)"
  by (simp add: create_if_absent_def new_device_def Let_def created_runner_def active_port_def)

definition chosen_runner :: "unit runner" where
  "chosen_runner = created_runner\<lparr>dv_store := (dv_store base_runner)(0 := tested_device\<lparr>dv_gateway := None, dv_host := None\<rparr>),
     gateway_sets := [2..9], gw_store := (gw_store base_runner)(0 := first_gateway\<lparr>targets := []\<rparr>), gw_next := 1,
     gw_linger := (\<lambda>_. False)(0 := False)\<rparr>"

lemma set_range: "remove1 1 [1..9 :: int] = [2..9]" "(1 :: int) \<in> set [1..9]" "[1..9 :: int] \<noteq> []"
  by code_simp+

lemma chosen: "choose_gateway busy_env 0 ''9a02571e8f01'' created_runner = (Inr 0, chosen_runner)"
  by (simp add: choose_gateway_def create_gateway_def existing_gateways_def find_gateway_set_def gateway_init_def start_gateway_def
      alloc_gateway_def created_runner_def chosen_runner_def tested_device_def first_gateway_def new_device_object_def set_device_def get_by_group_def
      the_port_def active_port_def set_range busy_env_def example_env_def or_empty_def op_simps Let_def)

definition hosted_runner :: "unit runner" where
  "hosted_runner = chosen_runner\<lparr>gw_store := (gw_store base_runner)(0 := first_gateway), run_count := 1, host_gateway := (\<lambda>_. 0)(0 := 0),
     host_device := (\<lambda>_. 0)(0 := 0), host_next := 1, dv_store := (dv_store base_runner)(0 := tested_device), host_store := (\<lambda>_. ())(0 := ())\<rparr>"

lemma used:
  assumes "network_direct_port_traffic busy_env 0 1 (Some first_target) hosted_runner = (Inr (), s)"
  shows "use_gateway busy_env working_host drain 0 0 ''9a02571e8f01'' chosen_runner = (Inr True, s)"
proof -
  have env: "fake_target busy_env g = None" "stop_dhcp busy_env g mac = Inr ()" "ho_new working_host dv p g = Inr ()"
    "ho_initialize working_host x = (Inr (), ())" for g mac dv p x
    by (simp_all add: busy_env_def example_env_def working_host_def failing_host_def)
  show ?thesis using assms
    by (simp add: use_gateway_def attach_device_def attach_target_def call_gateway_def start_host_def alloc_host_def call_host_def port_target_of_def
      hosted_runner_def chosen_runner_def created_runner_def tested_device_def first_gateway_def first_target_def new_device_object_def the_port_def
      active_port_def set_device_def op_simps env)
qed

text \<open>The first device comes under test.\<close>

lemma learned:
  "\<exists>t. process_faucet_event busy_env working_host drain (PortLearn 2 1 ''9a:02:57:1e:8f:01'' 10) plugged_runner = (Inr (), hosted_runner\<lparr>topo := t\<rparr>) \<and>
     sec_dpid t = 2 \<and> sec_port t = 3"
proof -
  have "topo hosted_runner = make_base_network_topology example_topology" "dv_gateway (dv_store hosted_runner 0) = Some 0" "gw_store hosted_runner 0 = first_gateway"
    by (simp_all add: hosted_runner_def chosen_runner_def created_runner_def tested_device_def)
  from traffic_directed [OF this] obtain t where
    t: "network_direct_port_traffic busy_env 0 1 (Some first_target) hosted_runner = (Inr (), hosted_runner\<lparr>topo := t\<rparr>)" "sec_dpid t = 2" "sec_port t = 3"
    by blast
  have name: "sanitize_mac ''9a:02:57:1e:8f:01'' = ''9a02571e8f01''" by code_simp
  have fresh: "set_device 0 (\<lambda>dv. dv\<lparr>dv_wait_remote := False\<rparr>) created_runner = (Inr (), created_runner)"
    by (simp add: set_device_def modify_op_def created_runner_def new_device_object_def)
  have view: "pi_active (the_port 0 created_runner)" "topo created_runner = make_base_network_topology example_topology"
    "dv_mac (dv_store created_runner 0) = ''9a:02:57:1e:8f:01''" "activated (gw_store chosen_runner 0) = False"
    by (simp_all add: the_port_def created_runner_def chosen_runner_def new_device_object_def active_port_def first_gateway_def)
  have "target_set_activate busy_env working_host drain 0 created_runner = (Inr True, hosted_runner\<lparr>topo := t\<rparr>)"
    by (simp add: target_set_activate_def then_op_def bind_op_def try_op_def read_op_def assert_op_def ret_op_def Let_def view name chosen used [OF t(1)])
  moreover have "contains_device 0 created_runner" "system_active created_runner" "run_tests created_runner" "target_set_queue created_runner = []"
    "dv_host (dv_store created_runner 0) = None" "\<not> dv_wait_remote (dv_store created_runner 0)" "target_set_has_capacity busy_env created_runner"
    by (simp_all add: contains_device_def created_runner_def new_device_object_def target_set_has_capacity_def get_triggered_devices_def busy_env_def)
  ultimately have "target_set_trigger busy_env working_host drain 0 False created_runner = (Inr (), hosted_runner\<lparr>topo := t\<rparr>)"
    by (simp add: target_set_trigger_def fresh then_op_def bind_op_def read_op_def ret_op_def)
  then have "process_faucet_event busy_env working_host drain (PortLearn 2 1 ''9a:02:57:1e:8f:01'' 10) plugged_runner = (Inr (), hosted_runner\<lparr>topo := t\<rparr>)"
    by (simp add: process_faucet_event_def handle_port_learn_def is_device_port_def is_port_active_def created active_port_def read_op_def bind_op_def busy_env_def
        example_env_def)
  with t(2,3) show ?thesis by blast
qed

text \<open>The second one waits: the runner tests one device at a time.\<close>

definition waiting_device :: device where
  "waiting_device = (new_device_object ''9a:02:57:1e:8f:02'' 1 None)\<lparr>dv_set_id := Some 2\<rparr>"

definition full_runner :: "topology \<Rightarrow> unit runner" where
  "full_runner t = hosted_runner\<lparr>topo := t, dv_next := 2, by_mac := [(''9a:02:57:1e:8f:01'', 0), (''9a:02:57:1e:8f:02'', 1)], set_ids := [1, 2],
     dv_store := (dv_store base_runner)(0 := tested_device, 1 := waiting_device), target_set_queue := [1]\<rparr>"

lemma queued:
  assumes "sec_dpid t = 2" "sec_port t = 3"
  shows "process_faucet_event busy_env working_host drain (PortLearn 2 2 ''9a:02:57:1e:8f:02'' 10) (hosted_runner\<lparr>topo := t\<rparr>) = (Inr (), full_runner t)"
  using assms
  by (simp add: process_faucet_event_def handle_port_learn_def is_device_port_def is_port_active_def active_port_def create_if_absent_def new_device_def
      target_set_trigger_def contains_device_def target_set_has_capacity_def get_triggered_devices_def set_device_def op_simps Let_def busy_env_def example_env_def
      hosted_runner_def chosen_runner_def created_runner_def full_runner_def tested_device_def waiting_device_def new_device_object_def)

lemma busy_run: "\<exists>t. run_trace (plug_trace @ learn_trace) base_runner = full_runner t"
proof -
  have "run_trace (plug_trace @ learn_trace) base_runner = run_trace learn_trace plugged_runner"
    using plugged by (simp add: run_trace_def)
  also obtain t where l: "process_faucet_event busy_env working_host (handle_faucet_events busy_env working_host 0 None)
      (PortLearn 2 1 ''9a:02:57:1e:8f:01'' 10) plugged_runner = (Inr (), hosted_runner\<lparr>topo := t\<rparr>)" and t: "sec_dpid t = 2" "sec_port t = 3"
    using learned by blast
  have "run_trace learn_trace plugged_runner = run_trace (arrive [PortLearn 2 2 ''9a:02:57:1e:8f:02'' 10]) (hosted_runner\<lparr>topo := t\<rparr>)"
    unfolding learn_trace_def by (rule arrive_Cons [OF _ _ l]) (simp_all add: hosted_runner_def chosen_runner_def created_runner_def)
  also have "\<dots> = run_trace (arrive []) (full_runner t)"
    by (rule arrive_Cons [OF _ _ queued [OF t]]) (simp_all add: full_runner_def hosted_runner_def chosen_runner_def created_runner_def)
  finally show ?thesis by (auto simp: arrive_def run_trace_def)
qed

lemma full_runner_devices: "get_triggered_devices (full_runner t) = [0]" "target_set_queue (full_runner t) = [1]"
  by (simp_all add: full_runner_def get_triggered_devices_def tested_device_def waiting_device_def new_device_object_def)

end
