(* ===== verification/Runner_Claims.thy ===== *)
theory Runner_Claims
  imports Runner_Example
begin

text \<open>
  The remaining properties of the runner: the bound on the devices under test, the loop over the
  events, the results, and two errors in the handling of devices that are not under test.
\<close>

subsection \<open>Devices under test\<close>

text \<open>C14: whatever happens from the start of the runner in whatever order, its initialization included, also when handlers
  raise, no more devices are under test than the configured \<open>max_hosts\<close>, when that is configured and not 0.\<close>

theorem hosts_within_capacity:
  assumes "list_all (\<lambda>(E, H, occ). max_hosts E = Some n) trace" "n \<noteq> 0"
  shows "length (get_triggered_devices (run_trace trace (runner_init t h))) \<le> n"
proof -
  let ?E = "example_env\<lparr>max_hosts := Some n\<rparr>"
  have same: "capacity_ok E s = capacity_ok ?E s" if "max_hosts E = Some n" for E and s :: "'a runner"
    using that by (simp add: capacity_ok_def)
  have "capacity_ok ?E (run_trace trace (runner_init t h))"
  proof (rule run_trace_keeps)
    fix E H occ assume "(E, H, occ) \<in> set trace"
    with assms(1) have "max_hosts E = Some n" by (auto simp: list_all_iff)
    then have "capacity_ok E = (capacity_ok ?E :: 'a runner \<Rightarrow> bool)" using same by blast
    with capacity.occasion_keeps [of occ E H] show "keeps (capacity_ok ?E) (handle_occasion E H occ)" by metis
  qed (simp add: capacity_ok_def runner_init_def get_triggered_devices_def)
  with assms(2) show ?thesis by (simp add: capacity_ok_def)
qed

theorem hosts_within_capacity_witness:
  "length (get_triggered_devices (run_trace (plug_trace @ learn_trace) base_runner)) \<le> 1 \<and>
   get_triggered_devices (run_trace (plug_trace @ learn_trace) base_runner) = [0] \<and>
   target_set_queue (run_trace (plug_trace @ learn_trace) base_runner) = [1]"
proof -
  obtain t where "run_trace (plug_trace @ learn_trace) base_runner = full_runner t" using busy_run by blast
  moreover have "list_all (\<lambda>(E, H, occ). max_hosts E = Some 1) (plug_trace @ learn_trace)"
    by (simp add: plug_trace_def learn_trace_def arrive_def busy_env_def)
  ultimately show ?thesis
    using hosts_within_capacity [of 1 "plug_trace @ learn_trace" "make_base_network_topology example_topology" "()"] full_runner_devices
    unfolding base_runner_def by simp
qed

subsection \<open>The loop over the events\<close>

lemma never_starved: "\<not> starved (run_trace trace (runner_init t h))"
proof -
  have "on_events (\<lambda>es cut. \<not> cut) (run_trace trace (runner_init t h))"
  proof (rule run_trace_keeps)
    fix E H occ
    show "keeps (on_events (\<lambda>es cut. \<not> cut)) (handle_occasion E H occ)"
    proof (cases occ)
      case (Incoming i)
      then show ?thesis by (simp add: handle_occasion_def keeps_def on_events_def op_simps)
    qed (intro evs.loop_keeps handle_events_live; simp)+
  qed (simp add: on_events_def runner_init_def)
  then show ?thesis by (simp add: on_events_def)
qed

text \<open>C24: the loop over the events of the switches ends: in any state the runner reaches, as many
  rounds as there are events waiting are enough, although handling an event may handle further events.
  When the loop returns normally, no event is left or the runner has disconnected.\<close>

theorem event_loop_takes_all_events:
  assumes "s = run_trace trace (runner_init t h)" "handle_events E H s = (r, s')"
  shows "\<not> starved s' \<and> (r = Inr () \<longrightarrow> \<not> connected s' \<or> events s' = [])"
proof -
  have ok: "fuel_ok (length (events s)) s" using assms(1) never_starved [of trace t h] by (simp add: on_events_def)
  have r: "handle_faucet_events E H (length (events s)) None s = (r, s')"
    using assms(2) by (simp add: handle_events_def read_op_def)
  have "\<not> starved s'" using fuel_enough [OF ok, of E H None] r by (simp add: on_events_def)
  with faucet_events_exhausts [OF ok, of E H None s'] r show ?thesis by blast
qed

text \<open>An initialized runner to which the event of a learned device has come: the loop takes it, and the device comes under test.\<close>

definition notified_runner :: "unit runner" where
  "notified_runner = run_trace (plug_trace @ take 1 learn_trace) (runner_init (make_base_network_topology example_topology) ())"

lemma notified: "notified_runner = plugged_runner\<lparr>events := [Event (PortLearn 2 1 ''9a:02:57:1e:8f:01'' 10)]\<rparr>"
  using plugged by (simp add: notified_runner_def base_runner_def run_trace_def learn_trace_def arrive_def handle_occasion_def modify_op_def)

theorem event_loop_takes_all_events_witness:
  "events notified_runner = [Event (PortLearn 2 1 ''9a:02:57:1e:8f:01'' 10)] \<and>
   (case handle_events busy_env working_host notified_runner of
      (r, s') \<Rightarrow> r = Inr () \<and> connected s' \<and> events s' = [] \<and> get_triggered_devices s' = [0])"
proof -
  obtain r s' where r: "handle_events busy_env working_host notified_runner = (r, s')" by fastforce
  have "r = Inr () \<longrightarrow> \<not> connected s' \<or> events s' = []"
    using event_loop_takes_all_events [OF notified_runner_def r] by blast
  moreover obtain t where l: "process_faucet_event busy_env working_host (handle_faucet_events busy_env working_host 0 None)
      (PortLearn 2 1 ''9a:02:57:1e:8f:01'' 10) plugged_runner = (Inr (), hosted_runner\<lparr>topo := t\<rparr>)" using learned by blast
  moreover have hosted: "events (hosted_runner\<lparr>topo := t\<rparr>) = []" "connected (hosted_runner\<lparr>topo := t\<rparr>)"
    "get_triggered_devices (hosted_runner\<lparr>topo := t\<rparr>) = [0]"
    by (simp_all add: hosted_runner_def chosen_runner_def created_runner_def get_triggered_devices_def tested_device_def)
  moreover have same: "plugged_runner\<lparr>events := []\<rparr> = plugged_runner" by simp
  ultimately have "r = Inr () \<and> s' = hosted_runner\<lparr>topo := t\<rparr>"
    using r by (simp add: notified handle_events_def read_op_def faucet_events_Suc handle_incoming_def then_op_def bind_op_def faucet_events_done same)
  moreover have "events notified_runner = [Event (PortLearn 2 1 ''9a:02:57:1e:8f:01'' 10)]" by (simp add: notified)
  ultimately show ?thesis using r hosted \<open>r = Inr () \<longrightarrow> \<not> connected s' \<or> events s' = []\<close> by simp
qed

subsection \<open>Results\<close>

text \<open>The exit code of a run is 0 exactly when the run was not aborted and no recorded result of any
  device has an exception or a return code other than 0.\<close>

theorem exit_code_zero_iff:
  assumes "list_all (\<lambda>(d, rs). dict_ok rs) (result_sets s)"
  shows "finalize s = 0 \<longleftrightarrow> \<not> failure s \<and>
    list_all (\<lambda>(d, rs). list_all (\<lambda>(k, r). tr_exception r \<in> {None, Some []} \<and> tr_code r \<in> {None, Some 0}) rs) (result_sets s)"
proof -
  have status: "result_status r = Inr 0 \<longleftrightarrow> tr_exception r \<in> {None, Some []} \<and> tr_code r \<in> {None, Some 0}" for r :: test_result
    by (auto simp: result_status_def split: option.splits list.splits)
  have "combine_result_set rs = [] \<longleftrightarrow> list_all (\<lambda>(k, r). result_status r = Inr 0) rs" if "dict_ok rs" for rs
    using that by (force simp: combine_result_set_def filter_empty_conv list_all_iff)
  then have "concat (map (\<lambda>(d, rs). map (Pair d) (combine_result_set rs)) xs) = [] \<longleftrightarrow>
      list_all (\<lambda>(d, rs). list_all (\<lambda>(k, r). result_status r = Inr 0) rs) xs"
    if "list_all (\<lambda>(d, rs). dict_ok rs) xs" for xs :: "(nat \<times> result_set) list"
    using that by (induction xs) auto
  from this [OF assms] show ?thesis unfolding status by (simp add: finalize_def combine_results_def) blast
qed

theorem exit_code_zero_iff_witness:
  "finalize ((runner_init example_topology ())\<lparr>result_sets :=
     [(0, [(''ping'', \<lparr>tr_name = Some ''ping'', tr_code = Some 0, tr_exception = None\<rparr>),
           (''nmap'', \<lparr>tr_name = Some ''nmap'', tr_code = Some 1, tr_exception = None\<rparr>)])]\<rparr>) = 1"
proof -
  let ?s = "(runner_init example_topology ())\<lparr>result_sets :=
     [(0, [(''ping'', \<lparr>tr_name = Some ''ping'', tr_code = Some 0, tr_exception = None\<rparr>),
           (''nmap'', \<lparr>tr_name = Some ''nmap'', tr_code = Some 1, tr_exception = None\<rparr>)])]\<rparr>"
  have "finalize ?s \<noteq> 0" using exit_code_zero_iff [of ?s] by simp
  then show ?thesis by (simp add: finalize_def split: if_splits)
qed

text \<open>A device passes exactly when no module of its report has an exception or a return code other
  than 0, all results of all modules are \<open>pass\<close> or \<open>skip\<close>, and as many modules have a return code as
  tests were enabled.\<close>

theorem device_result_passed_iff:
  assumes "dict_ok modules"
  shows "calculate_device_result enabled_tests modules = Passed \<longleftrightarrow>
    (\<forall>k m. dict_get modules k = Some m \<longrightarrow>
       mr_exception m \<in> {None, Some []} \<and> mr_return_code m \<in> {None, Some 0} \<and>
       (\<forall>name r. (name, r) \<in> set (mr_tests m) \<longrightarrow> r = Some ''pass'' \<or> r = Some ''skip'')) \<and>
    length enabled_tests = card {k. \<exists>m n. dict_get modules k = Some m \<and> mr_return_code m = Some n}"
proof -
  let ?coded = "filter (\<lambda>(k, m). mr_return_code m \<noteq> None) modules"
  have "length (remdups (map fst ?coded)) = card (fst ` set ?coded)" by (simp add: length_remdups_card_conv)
  also have "fst ` set ?coded = {k. \<exists>m n. dict_get modules k = Some m \<and> mr_return_code m = Some n}"
    using assms by (force simp: image_iff)
  finally have n: "length (remdups (map fst ?coded)) = card {k. \<exists>m n. dict_get modules k = Some m \<and> mr_return_code m = Some n}" .
  have f: "list_ex (\<lambda>(k, m). module_failed m) modules \<longleftrightarrow> (\<exists>k m. dict_get modules k = Some m \<and> module_failed m)"
    using assms by (force simp: list_ex_iff)
  have "calculate_device_result enabled_tests modules = Passed \<longleftrightarrow>
      \<not> (\<exists>k m. dict_get modules k = Some m \<and> module_failed m) \<and>
      length enabled_tests = card {k. \<exists>m n. dict_get modules k = Some m \<and> mr_return_code m = Some n}"
    unfolding calculate_device_result_def Let_def f n by simp
  moreover have "\<not> module_failed m \<longleftrightarrow> mr_exception m \<in> {None, Some []} \<and> mr_return_code m \<in> {None, Some 0} \<and>
      (\<forall>name r. (name, r) \<in> set (mr_tests m) \<longrightarrow> r = Some ''pass'' \<or> r = Some ''skip'')" for m
    by (auto simp: module_failed_def list_ex_iff)
  ultimately show ?thesis by blast
qed

theorem device_result_passed_iff_witness:
  "calculate_device_result [''ping'', ''nmap''] [(''ping'', \<lparr>mr_exception = None, mr_return_code = Some 0, mr_tests = [(''connection.ping'', Some ''pass'')]\<rparr>)] = Failed"
proof -
  let ?m = "[(''ping'', \<lparr>mr_exception = None, mr_return_code = Some 0, mr_tests = [(''connection.ping'', Some ''pass'')]\<rparr>)]"
  have "{k. \<exists>m n. dict_get ?m k = Some m \<and> mr_return_code m = Some n} = {''ping''}" by (auto split: if_splits)
  then have "calculate_device_result [''ping'', ''nmap''] ?m \<noteq> Passed"
    using device_result_passed_iff [of ?m "[''ping'', ''nmap'']"] by simp
  then show ?thesis by (cases "calculate_device_result [''ping'', ''nmap''] ?m") auto
qed

subsection \<open>Devices that are not under test\<close>

text \<open>When the port of a device goes down while the device is registered but has no gateway yet
  (it waits for capacity, or its gateway could not be made), the event raises an \<open>AttributeError\<close>:
  nothing changes, in particular the port stays marked as active.\<close>

theorem unplugging_waiting_device_raises:
  assumes "is_device_port dpid port s" "\<not> is_system_port dpid port"
    and "dict_get (port_objs s) port = Some p" "get_by_port_info p s = Some d"
    and "dv_host (dv_store s d) = None" "dv_gateway (dv_store s d) = None"
    and "pi_active (pt_store s p)" "pi_flapping (pt_store s p) = 0"
  shows "handle_port_state E H drain dpid port False s = (Inl AttributeError, s)"
  using assms
  by (simp add: handle_port_state_def port_inactive_def network_direct_port_traffic_def call_topology_def op_simps
      direct_port_traffic_def populate_set_devices_def topo_view_def Let_def)

text \<open>A device that waits for its turn on port 1.\<close>

definition waiting_runner :: "unit runner" where
  "waiting_runner = snd (create_if_absent ''9a:02:57:1e:8f:01'' (Some 0) None
     (snd (activate_port 1 (runner_init example_topology ()))))"

theorem unplugging_waiting_device_raises_witness:
  "handle_port_state example_env failing_host (ret_op ()) 2 1 False waiting_runner = (Inl AttributeError, waiting_runner)"
  by (rule unplugging_waiting_device_raises [of _ _ _ 0 0])
    (simp_all add: waiting_runner_def activate_port_def new_port_def set_port_def op_simps dict_index_def create_if_absent_def
      new_device_def runner_init_def new_port_info_def new_device_object_def Let_def is_device_port_def is_system_port_def
      example_topology_def PRI_DPID_def get_by_port_info_def)

text \<open>Directing a port that has no target to nowhere.\<close>

lemma undirected_port_raises:
  assumes "dict_get (port_targets (topo s)) n = None" "dv_gateway (dv_store s d) = Some g" "0 < port_set (gw_store s g)"
  shows "\<exists>t. network_direct_port_traffic E d n None s = (Inl KeyError, s\<lparr>topo := t\<rparr>)"
  using assms
  by (auto simp: network_direct_port_traffic_def call_topology_def op_simps direct_port_traffic_def populate_set_devices_def
      topo_view_def Let_def)

definition same_registry :: "'h runner \<Rightarrow> 'h runner \<Rightarrow> bool" where
  "same_registry s s' \<longleftrightarrow> by_mac s' = by_mac s \<and> set_ids s' = set_ids s \<and> dv_next s' = dv_next s \<and> gw_store s' = gw_store s \<and>
     gateway_sets s' = gateway_sets s \<and>
     (\<forall>e. dv_mac (dv_store s' e) = dv_mac (dv_store s e) \<and> dv_set_id (dv_store s' e) = dv_set_id (dv_store s e) \<and>
        dv_gateway (dv_store s' e) = dv_gateway (dv_store s e))"

lemma same_registry_ok: "same_registry s s' \<Longrightarrow> registry_ok s' = registry_ok s"
  by (simp add: same_registry_def registry_ok_def)

lemma same_registry_contains: "same_registry s s' \<Longrightarrow> contains_device d s' = contains_device d s"
  by (simp add: same_registry_def contains_device_def)

lemma finalize_removes:
  assumes "registry_ok s" "contains_device d s" "\<not> single_shot E"
  shows "\<exists>s'. target_set_finalize E drain d rs s = (Inr (), s') \<and> \<not> contains_device d s' \<and> gateway_sets s' = gateway_sets s \<and>
    gw_store s' = gw_store s \<and> dv_gateway (dv_store s' d) = dv_gateway (dv_store s d)"
proof -
  let ?s1 = "limit_tests E ((suppress_tests E rs s)\<lparr>result_sets := dict_set d rs (result_sets (suppress_tests E rs s))\<rparr>)"
  obtain s2 where run: "target_set_finalize E drain d rs s = remove_device d s2" and same: "same_registry s s2"
  proof (rule that [of "?s1\<lparr>dv_store := (dv_store ?s1)(d := (dv_store ?s1 d)\<lparr>dv_host := None\<rparr>)\<rparr>"])
    show "target_set_finalize E drain d rs s = remove_device d (?s1\<lparr>dv_store := (dv_store ?s1)(d := (dv_store ?s1 d)\<lparr>dv_host := None\<rparr>)\<rparr>)"
      using assms(3) by (simp add: target_set_finalize_def op_simps set_device_def)
  qed (auto simp: same_registry_def suppress_tests_def limit_tests_def)
  then have "registry_ok s2" "contains_device d s2"
    using assms(1,2) same_registry_ok same_registry_contains by blast+
  from registry_ok_remove [OF this] obtain s' where s': "remove_device d s2 = (Inr (), s')"
    "dict_get (by_mac s') (dv_mac (dv_store s2 d)) = None" by blast
  then have "dv_store s' = dv_store s2" "gateway_sets s' = gateway_sets s2" "gw_store s' = gw_store s2"
    by (auto simp: remove_device_def Let_def split: if_splits option.splits)
  with s' run same show ?thesis by (auto simp: contains_device_def same_registry_def)
qed

text \<open>C30: a device whose host fails to start before its port was directed keeps its gateway: handling
  the error removes the device from the registry, but the gateway keeps the device as its target and
  its set is not given back.\<close>

theorem failed_start_leaks_gateway_set:
  assumes "registry_ok s" "contains_device d s"
    and "dv_host (dv_store s d) = Some h" "dv_gateway (dv_store s d) = Some g"
    and "pi_port_no (the_port d s) = Some n" "n \<noteq> 0" "dict_get (port_targets (topo s)) n = None"
    and "0 < port_set (gw_store s g)" "\<not> gw_linger s g" "\<not> result_linger E" "\<not> single_shot E"
    and "\<And>x y. fst (ho_record_result H x y) = Inr ()"
  shows "\<exists>s'. target_set_error E H drain d e s = (Inr (), s') \<and> \<not> contains_device d s' \<and>
    dv_gateway (dv_store s' d) = Some g \<and> targets (gw_store s' g) = targets (gw_store s g) \<and> gateway_sets s' = gateway_sets s"
proof -
  have rec: "\<exists>y. call_host h (ho_record_result H x) s = (Inr (), s\<lparr>host_store := (host_store s)(h := y)\<rparr>)" for x s
    using assms(12) [of x "host_store s h"] by (cases "ho_record_result H x (host_store s h)") (auto simp: call_host_def)
  obtain y1 where r1: "call_host h (ho_record_result H e) s = (Inr (), s\<lparr>host_store := (host_store s)(h := y1)\<rparr>)" using rec by blast
  let ?s1 = "s\<lparr>host_store := (host_store s)(h := y1)\<rparr>"
  let ?s2 = "?s1\<lparr>target_set_queue := remove1 d (target_set_queue s)\<rparr>"
  obtain t where t: "network_direct_port_traffic E d n None ?s2 = (Inl KeyError, ?s2\<lparr>topo := t\<rparr>)"
    using undirected_port_raises [of ?s2 n d g E] assms(4,7,8) by auto
  have cancel: "target_set_cancel E H d ?s1 = (Inl KeyError, ?s2\<lparr>topo := t\<rparr>)"
    using t assms(3-6,9,10) by (simp add: target_set_cancel_def linger_or_release_def op_simps Let_def the_port_def)
  obtain y2 where r2: "call_host h (ho_record_result H (exn_of E KeyError)) (?s2\<lparr>topo := t\<rparr>) =
      (Inr (), ?s2\<lparr>topo := t\<rparr>\<lparr>host_store := (host_store (?s2\<lparr>topo := t\<rparr>))(h := y2)\<rparr>)" using rec by blast
  let ?s3 = "?s2\<lparr>topo := t\<rparr>\<lparr>host_store := (host_store (?s2\<lparr>topo := t\<rparr>))(h := y2)\<rparr>"
  have err: "target_set_error E H drain d e s = target_set_finalize E drain d (ho_results H (host_store ?s3 h)) ?s3"
    using r1 r2 cancel assms(3)
    by (simp add: target_set_error_def target_set_complete_def with_host_def op_simps)
  have same: "same_registry s ?s3" by (simp add: same_registry_def)
  then have "registry_ok ?s3" "contains_device d ?s3"
    using assms(1,2) same_registry_ok same_registry_contains by blast+
  from finalize_removes [OF this assms(11), of drain "ho_results H (host_store ?s3 h)"] err same assms(4)
  show ?thesis by (auto simp: same_registry_def)
qed

text \<open>The device of \<open>waiting_runner\<close> once it has a gateway and a host.\<close>

definition started_runner :: "unit runner" where
  "started_runner = waiting_runner\<lparr>dv_store := (dv_store waiting_runner)(0 := (dv_store waiting_runner 0)\<lparr>dv_host := Some 0, dv_gateway := Some 0\<rparr>),
     gw_store := (\<lambda>_. \<lparr>gw_name = ''9a02571e8f01'', port_set = 1, targets = [''9a:02:57:1e:8f:01''], test_ports = [], ready = [],
        activated = False, is_native = False\<rparr>), gw_next := 1, host_next := 1, gateway_sets := [2..9]\<rparr>"

lemmas started_defs = started_runner_def waiting_runner_def activate_port_def new_port_def set_port_def op_simps dict_index_def
  create_if_absent_def new_device_def runner_init_def new_port_info_def new_device_object_def Let_def example_topology_def

theorem failed_start_leaks_gateway_set_witness:
  "\<exists>s'. target_set_error example_env failing_host (ret_op ()) 0 (DaqException ''start'') started_runner = (Inr (), s') \<and>
     targets (gw_store s' 0) = [''9a:02:57:1e:8f:01''] \<and> gateway_sets s' = [2..9]"
proof -
  have "registry_ok started_runner" "contains_device 0 started_runner"
    by (simp_all add: started_defs registry_ok_def contains_device_def)
  moreover have "dv_host (dv_store started_runner 0) = Some 0" "dv_gateway (dv_store started_runner 0) = Some 0"
    "pi_port_no (the_port 0 started_runner) = Some 1" "dict_get (port_targets (topo started_runner)) 1 = None"
    "0 < port_set (gw_store started_runner 0)" "\<not> gw_linger started_runner 0"
    by (simp_all add: started_defs the_port_def)
  moreover have "\<not> result_linger example_env" "\<not> single_shot example_env" "fst (ho_record_result failing_host x y) = Inr ()" for x y
    by (simp_all add: example_env_def failing_host_def)
  moreover have "targets (gw_store started_runner 0) = [''9a:02:57:1e:8f:01'']" "gateway_sets started_runner = [2..9]"
    by (simp_all add: started_runner_def)
  ultimately show ?thesis
    using failed_start_leaks_gateway_set [of started_runner 0 0 0 1 example_env failing_host "ret_op ()" "DaqException ''start''"]
    by auto
qed

end
