(* ===== verification/Host_Claims.thy ===== *)
theory Host_Claims
  imports Host_Properties Report_Properties Runner_Claims
begin

text \<open>
  The properties of connected hosts: in any run of the runner with these hosts, the states they go
  through and the order of their tests; and what single operations do, among them four errors.
\<close>

subsection \<open>Hosts in a run of the runner\<close>

definition daq_trace :: "(env \<times> host_env \<times> occasion) list \<Rightarrow> (env \<times> host host_ops \<times> occasion) list" where
  \<comment> \<open>a run of the runner whose hosts are connected hosts\<close>
  "daq_trace trace = map (\<lambda>(E, V, occ). (E, connected_host V, occ)) trace"

lemma daq_trace_host: "(E, H, occ) \<in> set (daq_trace trace) \<Longrightarrow> \<exists>V. H = connected_host V"
  by (auto simp: daq_trace_def)

lemma subseq_distinct: "subseq xs ys \<Longrightarrow> distinct ys \<Longrightarrow> distinct xs"
  by (induction rule: list_emb.induct) (auto elim: list_emb_set)

lemma states_contract: "host_contract (connected_host V) (\<lambda>h h'. permitted\<^sup>*\<^sup>* (hs_state h) (hs_state h')) (\<lambda>_. True)"
  by (rule states.contract) simp_all

lemma order_contract: "host_contract (connected_host V) (\<lambda>h h'. order_ok h \<longrightarrow> order_ok h') order_ok"
  by (rule order.contract) (auto intro: new_host_order)

text \<open>C8: in any run of the runner, whatever happens in whatever order and whatever fails, a connected
  host only goes along the permitted transitions of its state. A host that failed, is done or was
  terminated never runs a test again, and a terminated host stays terminated.\<close>

theorem host_states_permitted:
  assumes "h < host_next s" "s' = run_trace (daq_trace trace) s"
  shows "permitted\<^sup>*\<^sup>* (hs_state (host_store s h)) (hs_state (host_store s' h)) \<and>
    (hs_state (host_store s h) \<in> {ERROR, DONE, TERMINATED} \<longrightarrow> hs_state (host_store s' h) \<in> {ERROR, DONE, TERMINATED}) \<and>
    (hs_state (host_store s h) = TERMINATED \<longrightarrow> hs_state (host_store s' h) = TERMINATED)"
proof -
  have "hosts_move (\<lambda>h h'. permitted\<^sup>*\<^sup>* (hs_state h) (hs_state h')) (\<lambda>_. True) s s'"
    unfolding assms(2) using states_contract by (intro run_trace_moves) (auto dest!: daq_trace_host)
  then have "permitted\<^sup>*\<^sup>* (hs_state (host_store s h)) (hs_state (host_store s' h))"
    using assms(1) by (simp add: hosts_move_def)
  with over_stays terminated_final show ?thesis by metis
qed

text \<open>C6: in any run of the runner from its start, every connected host takes its enabled tests from the
  list in order and starts only tests it has taken, in that order; when no test is enabled twice, none
  is started twice.\<close>

theorem host_tests_in_order:
  assumes "s = runner_init t x \<or> (\<forall>h<host_next s. order_ok (host_store s h))"
    and "s' = run_trace (daq_trace trace) s" "h < host_next s'" "hst = host_store s' h"
  shows "(\<exists>taken. hs_enabled_tests hst = taken @ hs_remaining_tests hst \<and> subseq (started_tests hst) taken) \<and>
    (distinct (hs_enabled_tests hst) \<longrightarrow> distinct (started_tests hst))"
proof -
  have move: "hosts_move (\<lambda>h h'. order_ok h \<longrightarrow> order_ok h') order_ok s s'"
    unfolding assms(2) using order_contract by (intro run_trace_moves) (auto dest!: daq_trace_host)
  have "\<forall>h<host_next s. order_ok (host_store s h)" using assms(1) by (auto simp: runner_init_def)
  with move assms(3,4) have "order_ok hst" by (cases "h < host_next s") (auto simp: hosts_move_def)
  then obtain taken where taken: "hs_enabled_tests hst = taken @ hs_remaining_tests hst" "subseq (started_tests hst) taken"
    by (auto simp: order_ok_def)
  then show ?thesis by (auto dest: subseq_distinct)
qed

text \<open>Surroundings in which nothing fails, with one test \<open>ping\<close>.\<close>

definition example_host_env :: host_env where
  "example_host_env =
     \<lparr>hv_now = 100, hv_test_list = [''ping''], hv_no_test = False, hv_monitor_scan_sec = 0, hv_default_timeout = 0,
      hv_native = (\<lambda>_. False), hv_external_subnets = False, hv_induced = (\<lambda>_ _. None),
      hv_load = (\<lambda>_. Inr [(''modules'', Dict [(''ping'', Dict [(''enabled'', Flag True)])])]),
      hv_setup = (\<lambda>_. \<lparr>rs_tests = [], rs_results = [], rs_expected = [], rs_categories = []\<rparr>),
      hv_report = example_report_env [], hv_lease_time = Inr None, hv_exn = (\<lambda>_. \<lparr>ex_class = ''Exception'', ex_text = ''error''\<rparr>),
      hv_dirs = Inr (), hv_register = Inr (), hv_release = Inr (), hv_mirror = Inr (), hv_unmirror = Inr (), hv_pcap = Inr (),
      hv_watch = Inr (), hv_pcap_stop = Inr (), hv_upload = Inr (), hv_ping = (\<lambda>_. Inr True), hv_dhcp_response = Inr (),
      hv_write_config = Inr (), hv_params = Inr (), hv_native_root = Inr (), hv_is_file = (\<lambda>_. False), hv_path = (\<lambda>_. []),
      hv_module_class = (\<lambda>_. Inr ()), hv_add_host = (\<lambda>_. Inr ()), hv_activate = (\<lambda>_. Inr ()), hv_stop_host = (\<lambda>_. Inr (Some 0)),
      hv_remove_host = Inr (), hv_connect_port = (\<lambda>_. Inr True), hv_change_range = (\<lambda>_. Inr ()), hv_request_ip = Inr (), hv_trigger_file = Inr ()\<rparr>"

definition example_config :: vdict where
  "example_config = [(''modules'', Dict [(''ping'', Dict [(''enabled'', Flag True)])])]"

definition example_host :: "host_state \<Rightarrow> host" where
  "example_host st = (host_init example_host_env ''9a:02:57:1e:8f:01'' (Some 1) example_config [''ping''])\<lparr>hs_state := st\<rparr>"

definition example_hosts :: "host_state \<Rightarrow> host runner" where
  "example_hosts st = (runner_init example_topology (example_host st))\<lparr>host_next := 1\<rparr>"

theorem host_states_permitted_witness:
  "hs_state (host_store (run_trace (daq_trace [(example_env, example_host_env, Incoming Broken)]) (example_hosts TERMINATED)) 0) = TERMINATED"
  using host_states_permitted [OF _ refl, of 0 "example_hosts TERMINATED" "[(example_env, example_host_env, Incoming Broken)]"]
  by (simp add: example_hosts_def runner_init_def example_host_def)

theorem host_tests_in_order_witness:
  "distinct (started_tests (host_store (run_trace (daq_trace [(example_env, example_host_env, Incoming Broken)]) (example_hosts READY)) 0))"
proof -
  let ?s' = "run_trace (daq_trace [(example_env, example_host_env, Incoming Broken)]) (example_hosts READY)"
  have "?s' = (example_hosts READY)\<lparr>events := [Broken]\<rparr>"
    by (simp add: run_trace_def daq_trace_def handle_occasion_def op_simps example_hosts_def runner_init_def)
  then have "0 < host_next ?s'" "hs_enabled_tests (host_store ?s' 0) = [''ping'']"
    by (simp_all add: example_hosts_def runner_init_def example_host_def host_init_def)
  moreover have "order_ok (example_host READY)" by (simp add: order_ok_def example_host_def host_init_def started_tests_def)
  then have "\<forall>h<host_next (example_hosts READY). order_ok (host_store (example_hosts READY) h)"
    by (simp add: example_hosts_def runner_init_def)
  ultimately show ?thesis using host_tests_in_order [OF disjI2 refl _ refl, of "example_hosts READY" 0] by simp
qed

subsection \<open>Errors\<close>

text \<open>The baseline tests of a device never fail because of its pings: whatever the pings answer, as
  long as none raises, they succeed, since the code takes the truth of the pair of the answer and a
  message.\<close>

theorem base_tests_ignore_pings:
  assumes "\<And>k. \<exists>b. hv_ping V k = Inr b" "hs_report (hr_host s) \<noteq> None"
  shows "fst (base_tests V s) = Inr True"
proof -
  obtain r where r: "hs_report (hr_host s) = Some r" using assms(2) by blast
  obtain b0 b1 b2 where b: "hv_ping V 0 = Inr b0" "hv_ping V 1 = Inr b1" "hv_ping V 2 = Inr b2" using assms(1) by metis
  have rec: "\<exists>s'. record_state V ''base'' s = (Inr (), s') \<and> (\<exists>r'. hs_report (hr_host s') = Some r')"
    if "\<exists>r. hs_report (hr_host s) = Some r" for s
    using that by (auto simp: record_result_def record_named_result_def on_report_def read_host_def set_host_def op_simps no_args_def)
  obtain s1 r1 where s1: "record_state V ''base'' s = (Inr (), s1)" "hs_report (hr_host s1) = Some r1" using rec r by blast
  obtain s2 where s2: "record_state V ''base'' s1 = (Inr (), s2)" using rec s1(2) by blast
  have ping: "\<exists>b. ping_test V k s1 = (Inr b, s1)" if "k \<in> {0, 1, 2}" for k
    using that b by (auto simp: ping_test_def read_host_def op_simps split: option.splits)
  obtain p0 p1 p2 where p: "ping_test V 0 s1 = (Inr p0, s1)" "ping_test V 1 s1 = (Inr p1, s1)" "ping_test V 2 s1 = (Inr p2, s1)"
    using ping [of 0] ping [of 1] ping [of 2] by auto
  show ?thesis by (simp add: base_tests_def then_op_def bind_op_def try_op_def ret_op_def s1 s2 p pair_truth_def del: One_nat_def)
qed

theorem base_tests_ignore_pings_witness:
  "fst (base_tests (example_host_env\<lparr>hv_ping := (\<lambda>_. Inr False)\<rparr>)
     \<lparr>hr_host = (example_host BASE)\<lparr>hs_target_ip := Some ''10.20.0.5''\<rparr>, hr_gateway = gw_store (example_hosts BASE) 0, hr_out = []\<rparr>) = Inr True"
  by (rule base_tests_ignore_pings) (auto intro!: exI [of _ False] simp: example_host_def host_init_def)

text \<open>An error while reading a running packet capture is lost: the error callback asserts that the
  stream is closed, which it is not, so nothing changes, the host goes on as if the capture was fine
  and the runner is not told.\<close>

theorem capture_error_is_lost:
  assumes "hs_monitor h = Some m" "pm_open m"
  shows "run_host (host_stream_event V dv (PcapError e)) (h, g) = ((Inr (), []), h, g)"
  using assms
  by (simp add: run_host_def host_stream_event_def pcap_event_def monitor_error_def monitor_cleanup_def read_host_def op_simps)

theorem capture_error_is_lost_witness:
  "run_host (host_stream_event example_host_env (new_device_object [] 0 None) (PcapError HANGUP_EXCEPTION))
     ((example_host WAITING)\<lparr>hs_monitor := Some \<lparr>pm_timeout = None, pm_open = True\<rparr>\<rparr>, gw_store (example_hosts BASE) 0) =
   ((Inr (), []), (example_host WAITING)\<lparr>hs_monitor := Some \<lparr>pm_timeout = None, pm_open = True\<rparr>\<rparr>, gw_store (example_hosts BASE) 0)"
  by (rule capture_error_is_lost [where m = "\<lparr>pm_timeout = None, pm_open = True\<rparr>"]) simp_all

text \<open>Ending the tests of a device leaves the test ports of all gateways alone.\<close>

definition same_test_ports :: "'h runner \<Rightarrow> 'h runner \<Rightarrow> bool" where
  "same_test_ports s s' \<longleftrightarrow> (\<forall>g. test_ports (gw_store s' g) = test_ports (gw_store s g))"

interpretation ports: step_frame same_test_ports
  by unfold_locales (simp_all add: same_test_ports_def)

lemma ports_gateway:
  "(\<And>x. test_ports (snd (f x)) = test_ports x) \<Longrightarrow> frames same_test_ports (call_gateway g f)"
  by (auto simp: frames_def same_test_ports_def call_gateway_def split: prod.splits) (metis snd_conv)

lemma ports_primitives:
  "frames same_test_ports (set_device d f)" "frames same_test_ports (set_port p pf)" "frames same_test_ports new_port"
  "frames same_test_ports (add_gateway_set n)" "frames same_test_ports (remove_device d)" "frames same_test_ports (call_host h hf)"
  by (auto simp: frames_def same_test_ports_def set_device_def set_port_def new_port_def add_gateway_set_def remove_device_def
      call_host_def op_simps Let_def split: prod.splits option.splits)

lemma ports_topology: "frames same_test_ports (call_topology E f)"
  unfolding call_topology_def by (intro ports.intros) (auto simp: frames_def same_test_ports_def split: prod.splits)

lemma ports_with_host: "(\<And>h. frames same_test_ports (f h)) \<Longrightarrow> frames same_test_ports (with_host d f)"
  unfolding with_host_def by (intro ports.intros)

lemmas ports_rules = ports.intros ports_primitives ports_topology ports_with_host

lemma ports_detach: "frames same_test_ports (detach_gateway E d)"
  unfolding detach_gateway_def network_direct_device_traffic_def
  by (intro ports_rules ports_gateway) (simp add: detach_target_def)

lemma ports_error: "\<not> single_shot E \<Longrightarrow> frames same_test_ports (target_set_error E H drain d e)"
proof -
  assume single: "\<not> single_shot E"
  have fin: "frames same_test_ports (target_set_finalize E drain d rs)" for rs
    unfolding target_set_finalize_def using single
    by (simp del: for_op.simps) (intro ports_rules; auto simp: same_test_ports_def suppress_tests_def limit_tests_def)
  have send: "frames same_test_ports (send_device_result E H d r)" for r
    unfolding send_device_result_def by (intro ports_rules) (auto simp: same_test_ports_def split: sum.splits)
  have act: "frames same_test_ports (activate_port n)" for n
    unfolding activate_port_def by (intro ports_rules) (simp add: same_test_ports_def)
  have "frames same_test_ports (target_set_cancel E H d)"
    unfolding target_set_cancel_def linger_or_release_def network_direct_port_traffic_def Let_def
    by (intro ports_rules ports_detach send act) (auto simp: same_test_ports_def)
  then show ?thesis unfolding target_set_error_def target_set_complete_def
    by (intro ports_rules fin send ports_detach)
qed

text \<open>A device whose host is stopped while a test runs does not give the test port back: whatever
  stops it, the port stays allocated in its gateway, although the host is gone. With several devices in
  a group, each such end leaves the others one port less.\<close>

theorem stopped_test_keeps_its_port:
  assumes "\<not> single_shot E" "dv_host (dv_store s d) = Some h" "hs_state (host_store s h) = TESTING"
    and "hs_test_port (host_store s h) = Some p" "p \<in> set (test_ports (gw_store s (host_gateway s h)))"
    and "target_set_error E (connected_host V) drain d e s = (r, s')"
  shows "p \<in> set (test_ports (gw_store s' (host_gateway s h)))"
  using framesD [OF ports_error [OF assms(1)], of s "connected_host V" drain d e] assms(5,6)
  by (simp add: same_test_ports_def)

definition testing_runner :: "host runner" where
  "testing_runner = (example_hosts TESTING)\<lparr>host_store := (\<lambda>_. (example_host TESTING)\<lparr>hs_test_port := Some 12\<rparr>),
     dv_store := (\<lambda>_. (new_device_object ''9a:02:57:1e:8f:01'' 0 None)\<lparr>dv_host := Some 0, dv_gateway := Some 0\<rparr>),
     gw_store := (\<lambda>_. \<lparr>gw_name = ''group'', port_set = 1, targets = [''9a:02:57:1e:8f:01'', ''9a:02:57:1e:8f:02''], test_ports = [12],
        ready = [], activated = True, is_native = False\<rparr>)\<rparr>"

theorem stopped_test_keeps_its_port_witness:
  "\<exists>r s'. target_set_error example_env (connected_host example_host_env) (ret_op ()) 0 (DaqException ''port down'') testing_runner = (r, s') \<and>
     12 \<in> set (test_ports (gw_store s' 0))"
proof -
  obtain r s' where r: "target_set_error example_env (connected_host example_host_env) (ret_op ()) 0 (DaqException ''port down'') testing_runner = (r, s')"
    by fastforce
  have "12 \<in> set (test_ports (gw_store s' (host_gateway testing_runner 0)))"
    by (rule stopped_test_keeps_its_port [OF _ _ _ _ _ r])
      (simp_all add: example_env_def testing_runner_def example_hosts_def example_host_def host_init_def runner_init_def)
  moreover have "host_gateway testing_runner 0 = 0" by (simp add: testing_runner_def example_hosts_def runner_init_def)
  ultimately show ?thesis using r by auto
qed

end
