(* ===== verification/Host_Progress.thy ===== *)
theory Host_Progress
  imports Host_Claims
begin

text \<open>
  Progress of a host: when nothing outside the program fails, a host that is testing runs all its
  remaining tests, one each time a module ends, records the return code of every one of them, gives
  every test port back and ends up done. The lemmas execute the operations one after the other.
\<close>

subsection \<open>Surroundings that do not fail\<close>

definition benign :: "host_env \<Rightarrow> bool" where
  "benign V \<longleftrightarrow> hv_pcap V = Inr () \<and> hv_watch V = Inr () \<and> hv_pcap_stop V = Inr () \<and> hv_upload V = Inr () \<and>
     hv_write_config V = Inr () \<and> hv_params V = Inr () \<and> hv_remove_host V = Inr () \<and> hv_native_root V = Inr () \<and>
     (\<forall>t. hv_module_class V t = Inr () \<and> hv_add_host V t = Inr () \<and> hv_activate V t = Inr ()) \<and>
     (\<forall>t mac. hv_induced V t mac = None) \<and> \<not> hv_no_test V"

definition ordinary_test :: "device \<Rightarrow> string \<Rightarrow> bool" where
  \<comment> \<open>a test in a container of its own, whose host name is not too long\<close>
  "ordinary_test dv t \<longleftrightarrow> t \<noteq> [] \<and> t \<noteq> ''ipaddr'' \<and> t \<noteq> ''fail'' \<and> t \<noteq> ''finish'' \<and> (\<exists>n. module_host_name dv t = Inr n)"

definition running_module :: "string \<Rightarrow> external_module" where
  "running_module t = \<lparr>em_test = t, em_host = True, em_pipe = True, em_log = True, em_started = True\<rparr>"

text \<open>A host that is testing, with its gateway.\<close>

definition testing :: "string \<Rightarrow> host \<Rightarrow> gateway \<Rightarrow> bool" where
  "testing t h g \<longleftrightarrow> hs_state h = TESTING \<and> hs_test_name h = Some t \<and>
     (\<exists>ms. hs_modules h = ms @ [External (running_module t)] \<and> hs_test_host h = Some (length ms)) \<and>
     (\<exists>p. hs_test_port h = Some p \<and> p \<in> set (test_ports g)) \<and> gateway_ok g \<and>
     (\<exists>x. hs_monitor h = Some x \<and> pm_open x) \<and> hs_report h \<noteq> None"

subsection \<open>Execution of the operations\<close>

lemmas exec_simps = read_host_def set_host_def on_gateway_def op_simps

text \<open>Everything that recording a result leaves alone.\<close>

definition view :: "host_run \<Rightarrow> host_state \<times> test_module list \<times> nat option \<times> int option \<times> pcap_monitor option \<times> string list \<times>
    gateway \<times> host_request list" where
  "view s = (hs_state (hr_host s), hs_modules (hr_host s), hs_test_host (hr_host s), hs_test_port (hr_host s),
     hs_monitor (hr_host s), hs_remaining_tests (hr_host s), hr_gateway s, hr_out s)"

definition result_of :: "string \<Rightarrow> result_args \<Rightarrow> test_result" where
  "result_of t args = \<lparr>tr_name = Some t, tr_code = (case ra_code args of None \<Rightarrow> None | Some v \<Rightarrow> v),
     tr_exception = exception_message (ra_exception args)\<rparr>"

lemma exec_on_report:
  "hs_report (hr_host s) = Some r \<Longrightarrow>
     on_report n items s = (Inr (), s\<lparr>hr_host := (hr_host s)\<lparr>hs_report := Some (report_accumulate n items r)\<rparr>\<rparr>)"
  by (simp add: on_report_def exec_simps)

lemma exec_record:
  assumes "hs_report (hr_host s) \<noteq> None" "t \<noteq> []"
  shows "\<exists>s'. record_result V (Some t) args s = (Inr (), s') \<and> view s' = view s \<and> hs_test_name (hr_host s') = Some t \<and>
    hs_report (hr_host s') \<noteq> None \<and> hs_results (hr_host s') = dict_set t (result_of t args) (hs_results (hr_host s))"
proof -
  obtain c cs where t: "t = c # cs" using assms(2) by (cases t) auto
  obtain r where r: "hs_report (hr_host s) = Some r" using assms(1) by blast
  obtain s1 where s1: "read_host (\<lambda>h. if Some t \<noteq> hs_test_name h
      then set_host (\<lambda>h. h\<lparr>hs_test_name := Some t, hs_test_start := hv_now V\<rparr>) else ret_op ()) s = (Inr (), s1)"
    "view s1 = view s" "hs_test_name (hr_host s1) = Some t" "hs_report (hr_host s1) = Some r" "hs_results (hr_host s1) = hs_results (hr_host s)"
    using r by (cases "Some t = hs_test_name (hr_host s)") (auto simp: exec_simps view_def)
  show ?thesis
    using s1 unfolding record_result_def t
    by (cases "ra_exception args"; cases "ra_code args")
      (simp_all add: then_op_def bind_op_def record_named_result_def set_host_def modify_op_def ret_op_def read_host_def read_op_def
        exec_on_report view_def result_of_def)
qed

lemma exec_cleanup:
  assumes "benign V" "hs_monitor (hr_host s) = Some x" "pm_open x"
  shows "monitor_cleanup V True s = (Inr (), s\<lparr>hr_host := (hr_host s)\<lparr>hs_monitor := None\<rparr>\<rparr>)"
  using assms by (simp add: monitor_cleanup_def exec_simps benign_def)

lemma exec_scan:
  assumes "benign V" "hs_monitor (hr_host s) = None"
  shows "monitor_scan V None s = (Inr (), s\<lparr>hr_host := (hr_host s)\<lparr>hs_monitor := Some \<lparr>pm_timeout = None, pm_open = True\<rparr>,
    hs_monitor_start := hv_now V\<rparr>\<rparr>)"
  using assms by (simp add: monitor_scan_def exec_simps benign_def)

text \<open>The start of a test: the host is testing, and its result has no return code yet.\<close>

lemma exec_start_test:
  assumes "benign V" "hs_report (hr_host s) \<noteq> None" "t \<noteq> []" "hs_monitor (hr_host s) = None" "hs_state (hr_host s) = NEXT"
  shows "\<exists>s'. start_test V t s = (Inr (), s') \<and> hs_state (hr_host s') = TESTING \<and> hs_test_name (hr_host s') = Some t \<and>
    hs_modules (hr_host s') = hs_modules (hr_host s) \<and> hs_test_host (hr_host s') = hs_test_host (hr_host s) \<and>
    hs_test_port (hr_host s') = hs_test_port (hr_host s) \<and> hs_remaining_tests (hr_host s') = hs_remaining_tests (hr_host s) \<and>
    (\<exists>x. hs_monitor (hr_host s') = Some x \<and> pm_open x) \<and> hs_report (hr_host s') \<noteq> None \<and> hr_gateway s' = hr_gateway s \<and>
    hr_out s' = hr_out s \<and> (\<forall>n. n \<noteq> t \<longrightarrow> dict_get (hs_results (hr_host s')) n = dict_get (hs_results (hr_host s)) n)"
proof -
  obtain c cs where t: "t = c # cs" using assms(3) by (cases t) auto
  let ?s1 = "s\<lparr>hr_host := (hr_host s)\<lparr>hs_test_name := Some t, hs_test_start := hv_now V,
     hs_results := dict_set t (result_of t no_args) (hs_results (hr_host s))\<rparr>\<rparr>"
  obtain s2 where s2: "record_result V (Some t) no_args ?s1 = (Inr (), s2)" "view s2 = view ?s1" "hs_test_name (hr_host s2) = Some t"
    "hs_report (hr_host s2) \<noteq> None" "hs_results (hr_host s2) = dict_set t (result_of t no_args) (hs_results (hr_host ?s1))"
    using exec_record [of ?s1 t V no_args] assms(2,3) by auto
  have m: "hs_monitor (hr_host s2) = None" "hs_state (hr_host s2) = NEXT" using s2(2) assms(4,5) by (simp_all add: view_def)
  have run: "start_test V t s = then_op (monitor_scan V None) (host_state_transition TESTING (Some NEXT)) s2"
    using assms(1) s2(1)
    by (simp add: start_test_def then_op_def bind_op_def set_host_def modify_op_def lift_op_def record_named_result_def t benign_def result_of_def)
  show ?thesis unfolding run
    using s2 m by (simp add: then_op_def bind_op_def exec_scan [OF assms(1)] host_state_transition_def exec_simps view_def dict_get_set)
qed

lemma exec_set_external:
  "hs_modules (hr_host s) = ms @ [External x] \<Longrightarrow>
     set_external (length ms) f s = (Inr (), s\<lparr>hr_host := (hr_host s)\<lparr>hs_modules := ms @ [External (f x)]\<rparr>\<rparr>)"
  by (simp add: set_external_def set_module_def exec_simps)

lemma exec_external_start:
  assumes "benign V" "hs_modules (hr_host s) = ms @ [External (new_external t)]"
  shows "external_start V (length ms) s = (Inr (), s\<lparr>hr_host := (hr_host s)\<lparr>hs_modules := ms @ [External (running_module t)]\<rparr>\<rparr>)"
  using assms
  by (simp add: external_start_def then_op_def bind_op_def try_op_def lift_op_def ret_op_def read_host_def read_op_def exec_set_external
      the_module_def external_of_def benign_def induced_def new_external_def running_module_def Let_def)

lemma exec_allocate:
  assumes "gateway_ok g" "\<not> test_port_pool g \<subseteq> set (test_ports g)"
  obtains p g' where "allocate_test_port g = (Inr p, g')" "gateway_ok g'" "p \<in> set (test_ports g')"
    "set (test_ports g') = insert p (set (test_ports g))" "p \<notin> set (test_ports g)"
proof -
  obtain p g' where a: "allocate_test_port g = (Inr p, g')" using test_port.alloc_progress [OF assms] by blast
  from test_port.alloc_Inr [OF assms(1) a] a that show thesis by blast
qed

lemma exec_new_test:
  assumes "benign V" "ordinary_test dv t"
  shows "new_test V dv t s = (Inr (length (hs_modules (hr_host s))),
    s\<lparr>hr_host := (hr_host s)\<lparr>hs_modules := hs_modules (hr_host s) @ [External (new_external t)]\<rparr>\<rparr>)"
proof -
  obtain n where n: "module_host_name dv t = Inr n" using assms(2) by (auto simp: ordinary_test_def)
  then show ?thesis using assms by (simp add: new_test_def exec_simps benign_def ordinary_test_def)
qed

text \<open>Taking a test and starting it.\<close>

lemma exec_take:
  assumes V: "benign V" and t: "ordinary_test dv t"
    and s: "hs_report (hr_host s) \<noteq> None" "hs_monitor (hr_host s) = None" "hs_state (hr_host s) = NEXT"
    and g: "gateway_ok (hr_gateway s)" "\<not> test_port_pool (hr_gateway s) \<subseteq> set (test_ports (hr_gateway s))"
  shows "\<exists>s'. take_test V dv t ts s = (Inr (), s') \<and> testing t (hr_host s') (hr_gateway s') \<and> hs_remaining_tests (hr_host s') = ts \<and>
    hr_out s' = hr_out s \<and> (\<forall>n. n \<noteq> t \<longrightarrow> dict_get (hs_results (hr_host s')) n = dict_get (hs_results (hr_host s)) n) \<and>
    (\<exists>p. p \<notin> set (test_ports (hr_gateway s)) \<and> hs_test_port (hr_host s') = Some p \<and>
         set (test_ports (hr_gateway s')) = insert p (set (test_ports (hr_gateway s))))"
proof -
  let ?ms = "hs_modules (hr_host s)"
  obtain p g' where p: "allocate_test_port (hr_gateway s) = (Inr p, g')" "gateway_ok g'" "p \<in> set (test_ports g')"
    "set (test_ports g') = insert p (set (test_ports (hr_gateway s)))" "p \<notin> set (test_ports (hr_gateway s))"
    using exec_allocate [OF g] by blast
  let ?s1 = "s\<lparr>hr_gateway := g', hr_host := (hr_host s)\<lparr>hs_remaining_tests := ts, hs_timeout_handler := Some MainTimeout,
     hs_modules := ?ms @ [External (new_external t)], hs_test_host := Some (length ?ms), hs_test_port := Some p\<rparr>\<rparr>"
  obtain s2 where s2: "start_test V t ?s1 = (Inr (), s2)" "hs_state (hr_host s2) = TESTING" "hs_test_name (hr_host s2) = Some t"
    "hs_modules (hr_host s2) = ?ms @ [External (new_external t)]" "hs_test_host (hr_host s2) = Some (length ?ms)"
    "hs_test_port (hr_host s2) = Some p" "hs_remaining_tests (hr_host s2) = ts" "\<exists>x. hs_monitor (hr_host s2) = Some x \<and> pm_open x"
    "hs_report (hr_host s2) \<noteq> None" "hr_gateway s2 = g'" "hr_out s2 = hr_out s"
    "\<forall>n. n \<noteq> t \<longrightarrow> dict_get (hs_results (hr_host s2)) n = dict_get (hs_results (hr_host s)) n"
    using exec_start_test [OF V, of ?s1 t] s t by (auto simp: ordinary_test_def)
  have start: "module_start V dv (length ?ms) s2 = (Inr (), s2\<lparr>hr_host := (hr_host s2)\<lparr>hs_modules := ?ms @ [External (running_module t)]\<rparr>\<rparr>)"
    using exec_external_start [OF V s2(4)] s2(4) by (simp add: module_start_def read_host_def read_op_def the_module_def)
  have "take_test V dv t ts s = (Inr (), s2\<lparr>hr_host := (hr_host s2)\<lparr>hs_modules := ?ms @ [External (running_module t)]\<rparr>\<rparr>)"
    using V p(1) s2(1) start
    by (simp add: take_test_def run_test_begin begin_test_def then_op_def bind_op_def try_op_def set_host_def modify_op_def
        exec_new_test [OF V t] on_gateway_def lift_op_def benign_def)
  with s2 p show ?thesis by (auto simp: testing_def)
qed

text \<open>The end of a module.\<close>

lemma exec_finalize:
  assumes "benign V" "hs_modules (hr_host s) = ms @ [External ((running_module t)\<lparr>em_pipe := b\<rparr>)]" "hv_stop_host V t = Inr code" "t \<noteq> ''fail''"
  shows "external_finalize V (length ms) s =
    (Inr code, s\<lparr>hr_host := (hr_host s)\<lparr>hs_modules := ms @ [External \<lparr>em_test = t, em_host = False, em_pipe = False, em_log = False, em_started = True\<rparr>]\<rparr>\<rparr>)"
  using assms
  by (simp add: external_finalize_def then_op_def bind_op_def assert_op_def lift_op_def ret_op_def read_host_def read_op_def exec_set_external
      the_module_def external_of_def benign_def induced_def running_module_def Let_def)

lemma exec_files:
  assumes "benign V" "hs_report (hr_host s) \<noteq> None"
  shows "\<exists>r. for_op ts (report_file V) s = (Inr (), s\<lparr>hr_host := (hr_host s)\<lparr>hs_report := Some r\<rparr>\<rparr>)"
  using assms(2)
proof (induction ts arbitrary: s)
  case Nil
  then show ?case by (cases s; cases "hr_host s") (auto simp: ret_op_def)
next
  case (Cons t ts)
  obtain r where r: "hs_report (hr_host s) = Some r" using Cons.prems by blast
  have "\<exists>r'. report_file V t s = (Inr (), s\<lparr>hr_host := (hr_host s)\<lparr>hs_report := Some r'\<rparr>\<rparr>)"
    using assms(1) r
    by (cases "hv_is_file V t"; cases s; cases "hr_host s")
      (auto simp: report_file_def then_op_def bind_op_def read_host_def read_op_def exec_on_report lift_op_def benign_def ret_op_def)
  then obtain r1 where r1: "report_file V t s = (Inr (), s\<lparr>hr_host := (hr_host s)\<lparr>hs_report := Some r1\<rparr>\<rparr>)" by blast
  from Cons.IH [of "s\<lparr>hr_host := (hr_host s)\<lparr>hs_report := Some r1\<rparr>\<rparr>"] r1 show ?case
    by (auto simp: then_op_def bind_op_def)
qed

text \<open>The callback of a module up to the next test: the port is free again and the return code recorded.\<close>

definition between :: "string \<Rightarrow> int option \<Rightarrow> host_run \<Rightarrow> host_run \<Rightarrow> bool" where
  "between t code s s' \<longleftrightarrow> hs_state (hr_host s') = NEXT \<and> hs_test_name (hr_host s') = None \<and> hs_monitor (hr_host s') = None \<and>
     hs_report (hr_host s') \<noteq> None \<and> hs_remaining_tests (hr_host s') = hs_remaining_tests (hr_host s) \<and> hr_out s' = hr_out s \<and>
     hs_modules (hr_host s') = hs_modules (hr_host s) \<and>
     hr_gateway s' = snd (release_test_port (the (hs_test_port (hr_host s))) (hr_gateway s)) \<and>
     hs_results (hr_host s') = dict_set t \<lparr>tr_name = Some t, tr_code = code, tr_exception = None\<rparr> (hs_results (hr_host s))"

lemma exec_callback:
  assumes V: "benign V" and t: "t \<noteq> []"
    and s: "hs_state (hr_host s) = TESTING" "hs_test_name (hr_host s) = Some t" "hs_test_host (hr_host s) \<noteq> None"
      "hs_test_port (hr_host s) = Some p" "p \<in> set (test_ports (hr_gateway s))" "hs_monitor (hr_host s) = Some x" "pm_open x"
      "hs_report (hr_host s) \<noteq> None"
  shows "\<exists>s'. module_callback V dv code None s = run_next_test V dv s' \<and> between t code s s'"
proof -
  let ?g = "(hr_gateway s)\<lparr>test_ports := remove1 p (test_ports (hr_gateway s))\<rparr>"
  let ?args = "\<lparr>ra_code = Some code, ra_exception = None\<rparr>"
  let ?s1 = "s\<lparr>hr_gateway := ?g, hr_host := (hr_host s)\<lparr>hs_monitor := None, hs_state := NEXT\<rparr>\<rparr>"
  obtain r where r: "for_op [REPORT_PATH, ACTIVATION_LOG_PATH, MODULE_CONFIG_PATH] (report_file V) ?s1 =
      (Inr (), ?s1\<lparr>hr_host := (hr_host ?s1)\<lparr>hs_report := Some r\<rparr>\<rparr>)"
    using exec_files [OF V, of ?s1 "[REPORT_PATH, ACTIVATION_LOG_PATH, MODULE_CONFIG_PATH]"] s(8) by (auto simp del: for_op.simps)
  let ?s2 = "?s1\<lparr>hr_host := (hr_host ?s1)\<lparr>hs_report := Some r\<rparr>\<rparr>"
  obtain s3 where s3: "record_result V (Some t) ?args ?s2 = (Inr (), s3)" "view s3 = view ?s2" "hs_report (hr_host s3) \<noteq> None"
    "hs_results (hr_host s3) = dict_set t (result_of t ?args) (hs_results (hr_host s))"
    using exec_record [of ?s2 t V ?args] t by auto
  let ?s4 = "s3\<lparr>hr_host := (hr_host s3)\<lparr>hs_test_name := None, hs_test_host := None, hs_timeout_handler := None\<rparr>\<rparr>"
  have start: "module_callback V dv code None s = end_test V dv code None (s\<lparr>hr_gateway := ?g\<rparr>)"
    using s by (simp add: module_callback_def release_port_def release_test_port_def read_host_def op_simps on_gateway_def)
  have clean: "monitor_cleanup V True (s\<lparr>hr_gateway := ?g\<rparr>) = (Inr (), s\<lparr>hr_gateway := ?g, hr_host := (hr_host s)\<lparr>hs_monitor := None\<rparr>\<rparr>)"
    using exec_cleanup [OF V, of "s\<lparr>hr_gateway := ?g\<rparr>" x] s by simp
  have trans: "host_state_transition NEXT (Some TESTING) (s\<lparr>hr_gateway := ?g, hr_host := (hr_host s)\<lparr>hs_monitor := None\<rparr>\<rparr>) = (Inr (), ?s1)"
    using s(1) by (simp add: host_state_transition_def exec_simps)
  have "end_test V dv code None (s\<lparr>hr_gateway := ?g\<rparr>) = run_next_test V dv ?s4"
    using s3(1) s(2) clean trans r
    by (simp add: end_test_def then_op_def bind_op_def read_host_def read_op_def set_host_def modify_op_def del: for_op.simps)
  moreover have "between t code s ?s4"
    using s s3 by (simp add: between_def view_def result_of_def exception_message_def release_test_port_def)
  ultimately show ?thesis using start by metis
qed

text \<open>Between two tests: the next one is started, or the host is done.\<close>

lemma run_next_take:
  "hs_test_name (hr_host s) = None \<Longrightarrow> hs_remaining_tests (hr_host s) = u # ts \<Longrightarrow> take_test V dv u ts s = (Inr (), s') \<Longrightarrow>
     run_next_test V dv s = (Inr (), s')"
  by (simp add: run_next_test_def take_test_def read_host_def read_op_def then_op_def bind_op_def assert_op_def try_op_def ret_op_def)

lemma run_next_done:
  assumes "benign V" "hs_test_name (hr_host s) = None" "hs_remaining_tests (hr_host s) = []" "hs_state (hr_host s) = NEXT"
    "hs_report (hr_host s) \<noteq> None"
  shows "\<exists>s'. run_next_test V dv s = (Inr (), s') \<and> hs_state (hr_host s') = DONE \<and> hs_remaining_tests (hr_host s') = [] \<and>
    hr_gateway s' = hr_gateway s \<and> hr_out s' = hr_out s \<and>
    (\<forall>n. n \<noteq> ''finish'' \<longrightarrow> dict_get (hs_results (hr_host s')) n = dict_get (hs_results (hr_host s)) n)"
proof -
  let ?s1 = "s\<lparr>hr_host := (hr_host s)\<lparr>hs_timeout_handler := Some AuxTimeout, hs_state := DONE\<rparr>\<rparr>"
  obtain s2 where s2: "record_state V ''finish'' ?s1 = (Inr (), s2)" "view s2 = view ?s1"
    "hs_results (hr_host s2) = dict_set ''finish'' (result_of ''finish'' no_args) (hs_results (hr_host ?s1))"
    using exec_record [of ?s1 "''finish''" V no_args] assms(5) by auto
  have "run_next_test V dv s = (Inr (), s2)"
    using assms s2(1)
    by (simp add: run_next_test_def read_host_def read_op_def then_op_def bind_op_def assert_op_def try_op_def ret_op_def set_host_def
        modify_op_def host_state_transition_def benign_def)
  with s2 assms show ?thesis by (simp add: view_def dict_get_set)
qed

subsection \<open>All tests\<close>

lemma testing_end:
  assumes V: "benign V" and t: "ordinary_test dv t" "hv_stop_host V t = Inr code" and s: "testing t (hr_host s) (hr_gateway s)"
  shows "\<exists>s1 s2. between t code s1 s2 \<and> hs_remaining_tests (hr_host s1) = hs_remaining_tests (hr_host s) \<and> hr_out s1 = hr_out s \<and>
    hr_gateway s1 = hr_gateway s \<and> hs_test_port (hr_host s1) = hs_test_port (hr_host s) \<and> hs_results (hr_host s1) = hs_results (hr_host s) \<and>
    (\<forall>s3. run_next_test V dv s2 = (Inr (), s3) \<longrightarrow> module_event V dv (the (hs_test_host (hr_host s))) None s = (Inr (), s3))"
proof -
  obtain ms where ms: "hs_modules (hr_host s) = ms @ [External (running_module t)]" "hs_test_host (hr_host s) = Some (length ms)"
    using s by (auto simp: testing_def)
  let ?s0 = "s\<lparr>hr_host := (hr_host s)\<lparr>hs_modules := ms @ [External ((running_module t)\<lparr>em_pipe := False\<rparr>)]\<rparr>\<rparr>"
  let ?x = "\<lparr>em_test = t, em_host = False, em_pipe = False, em_log = False, em_started = True\<rparr>"
  let ?s1 = "s\<lparr>hr_host := (hr_host s)\<lparr>hs_modules := ms @ [External ?x]\<rparr>\<rparr>"
  have t': "t \<noteq> []" "t \<noteq> ''fail''" using t(1) by (auto simp: ordinary_test_def)
  have fin: "external_finalize V (length ms) ?s0 = (Inr code, ?s1)"
    using exec_finalize [OF V, of ?s0 ms False t code] t(2) t'(2) by simp
  have run: "external_complete V dv (length ms) s = module_callback V dv code None ?s1"
    using fin exec_set_external [OF ms(1)] ms
    by (simp add: external_complete_def bind_op_def try_op_def then_op_def read_host_def read_op_def assert_op_def ret_op_def the_module_def
        external_of_def running_module_def module_done_def)
  obtain s2 where s2: "module_callback V dv code None ?s1 = run_next_test V dv s2" "between t code ?s1 s2"
    using exec_callback [OF V t'(1), of ?s1 _ _ dv code] s by (auto simp: testing_def)
  have "module_event V dv (length ms) None s = (Inr (), s3)" if "run_next_test V dv s2 = (Inr (), s3)" for s3
    using that ms run s2(1)
    by (simp add: module_event_def guarded_def read_host_def read_op_def try_op_def the_module_def external_of_def running_module_def)
  then show ?thesis using s2(2) ms(2) by (intro exI [of _ ?s1] exI [of _ s2]) simp
qed

text \<open>One module after the other ends; \<open>Vs\<close> are the surroundings at these moments.\<close>

fun hang_ups :: "device \<Rightarrow> host_env list \<Rightarrow> host \<times> gateway \<Rightarrow> host_request list \<times> host \<times> gateway" where
  "hang_ups dv [] x = ([], x)"
| "hang_ups dv (V # Vs) x =
     (case run_host (host_stream_event V dv (ModuleHangup (the (hs_test_host (fst x))))) x of
        ((r, rqs), y) \<Rightarrow> case hang_ups dv Vs y of (rqs', z) \<Rightarrow> (rqs @ rqs', z))"

lemma hang_up_last:
  assumes "benign V" "ordinary_test dv t" "hv_stop_host V t = Inr code" "testing t h g" "hs_remaining_tests h = []"
  shows "\<exists>h' g'. run_host (host_stream_event V dv (ModuleHangup (the (hs_test_host h)))) (h, g) = ((Inr (), []), h', g') \<and>
    hs_state h' = DONE \<and> hs_remaining_tests h' = [] \<and> set (test_ports g') = set (test_ports g) - {the (hs_test_port h)} \<and>
    dict_get (hs_results h') t = Some \<lparr>tr_name = Some t, tr_code = code, tr_exception = None\<rparr> \<and>
    (\<forall>n. n \<noteq> t \<longrightarrow> n \<noteq> ''finish'' \<longrightarrow> dict_get (hs_results h') n = dict_get (hs_results h) n)"
proof -
  let ?s = "\<lparr>hr_host = h, hr_gateway = g, hr_out = []\<rparr>"
  obtain p where p: "hs_test_port h = Some p" "p \<in> set (test_ports g)" "gateway_ok g" using assms(4) by (auto simp: testing_def)
  obtain s1 s2 where e: "between t code s1 s2" "hs_remaining_tests (hr_host s1) = []" "hr_out s1 = []" "hr_gateway s1 = g"
    "hs_test_port (hr_host s1) = Some p" "hs_results (hr_host s1) = hs_results h"
    "\<And>s3. run_next_test V dv s2 = (Inr (), s3) \<Longrightarrow> module_event V dv (the (hs_test_host h)) None ?s = (Inr (), s3)"
    using testing_end [OF assms(1,2,3), of ?s] assms(4,5) p(1) by auto
  obtain s3 where s3: "run_next_test V dv s2 = (Inr (), s3)" "hs_state (hr_host s3) = DONE" "hs_remaining_tests (hr_host s3) = []"
    "hr_gateway s3 = hr_gateway s2" "hr_out s3 = hr_out s2"
    "\<forall>n. n \<noteq> ''finish'' \<longrightarrow> dict_get (hs_results (hr_host s3)) n = dict_get (hs_results (hr_host s2)) n"
    using run_next_done [OF assms(1), of s2 dv] e(1,2) by (auto simp: between_def)
  have g: "hr_gateway s2 = snd (release_test_port p g)" "hr_out s2 = []"
    "hs_results (hr_host s2) = dict_set t \<lparr>tr_name = Some t, tr_code = code, tr_exception = None\<rparr> (hs_results h)"
    using e by (simp_all add: between_def)
  have "t \<noteq> ''finish''" using assms(2) by (simp add: ordinary_test_def)
  with e(7) [OF s3(1)] s3 g p show ?thesis
    by (auto simp: run_host_def host_stream_event_def dict_get_set release_test_port_def gateway_ok_def)
qed

lemma hang_up_next:
  assumes "benign V" "ordinary_test dv t" "hv_stop_host V t = Inr code" "testing t h g" "hs_remaining_tests h = u # ts" "ordinary_test dv u"
  shows "\<exists>h' g'. run_host (host_stream_event V dv (ModuleHangup (the (hs_test_host h)))) (h, g) = ((Inr (), []), h', g') \<and>
    testing u h' g' \<and> hs_remaining_tests h' = ts \<and>
    set (test_ports g') - {the (hs_test_port h')} = set (test_ports g) - {the (hs_test_port h)} \<and>
    (t \<noteq> u \<longrightarrow> dict_get (hs_results h') t = Some \<lparr>tr_name = Some t, tr_code = code, tr_exception = None\<rparr>) \<and>
    (\<forall>n. n \<noteq> t \<longrightarrow> n \<noteq> u \<longrightarrow> dict_get (hs_results h') n = dict_get (hs_results h) n)"
proof -
  let ?s = "\<lparr>hr_host = h, hr_gateway = g, hr_out = []\<rparr>"
  obtain p where p: "hs_test_port h = Some p" "p \<in> set (test_ports g)" "gateway_ok g" using assms(4) by (auto simp: testing_def)
  obtain s1 s2 where e: "between t code s1 s2" "hs_remaining_tests (hr_host s1) = u # ts" "hr_out s1 = []" "hr_gateway s1 = g"
    "hs_test_port (hr_host s1) = Some p" "hs_results (hr_host s1) = hs_results h"
    "\<And>s3. run_next_test V dv s2 = (Inr (), s3) \<Longrightarrow> module_event V dv (the (hs_test_host h)) None ?s = (Inr (), s3)"
    using testing_end [OF assms(1,2,3), of ?s] assms(4,5) p(1) by auto
  have rel: "release_test_port p g = (Inr (), snd (release_test_port p g))" "gateway_ok (snd (release_test_port p g))"
    "set (test_ports (snd (release_test_port p g))) = set (test_ports g) - {p}"
    "test_port_pool (snd (release_test_port p g)) = test_port_pool g"
    using test_port.release_Inr [OF p(3,2) prod.collapse [symmetric]] by (auto simp: prod_eq_iff)
  have g: "hr_gateway s2 = snd (release_test_port p g)" "hr_out s2 = []"
    "hs_results (hr_host s2) = dict_set t \<lparr>tr_name = Some t, tr_code = code, tr_exception = None\<rparr> (hs_results h)"
    using e by (simp_all add: between_def)
  have "\<not> test_port_pool (hr_gateway s2) \<subseteq> set (test_ports (hr_gateway s2))"
    using rel p g(1) by (auto simp: gateway_ok_def)
  then obtain s3 q where s3: "take_test V dv u ts s2 = (Inr (), s3)" "testing u (hr_host s3) (hr_gateway s3)"
    "hs_remaining_tests (hr_host s3) = ts" "hr_out s3 = hr_out s2"
    "\<forall>n. n \<noteq> u \<longrightarrow> dict_get (hs_results (hr_host s3)) n = dict_get (hs_results (hr_host s2)) n"
    "q \<notin> set (test_ports (hr_gateway s2))" "hs_test_port (hr_host s3) = Some q"
    "set (test_ports (hr_gateway s3)) = insert q (set (test_ports (hr_gateway s2)))"
    using exec_take [OF assms(1,6), of s2 ts] e(1) rel(2) g(1) by (auto simp: between_def)
  have "run_next_test V dv s2 = (Inr (), s3)"
    using run_next_take [OF _ _ s3(1)] e(1,2) by (simp add: between_def)
  from e(7) [OF this] s3 g rel p show ?thesis
    by (simp add: run_host_def host_stream_event_def dict_get_set)
qed

definition recorded :: "host \<Rightarrow> host_env \<Rightarrow> string \<Rightarrow> bool" where
  \<comment> \<open>the result of a test has the return code with which its container ended\<close>
  "recorded h V t = (case (dict_get (hs_results h) t, hv_stop_host V t) of
     (Some r, Inr code) \<Rightarrow> tr_name r = Some t \<and> tr_code r = code \<and> tr_exception r = None | _ \<Rightarrow> False)"

lemma recorded_cong: "dict_get (hs_results h) t = dict_get (hs_results h') t \<Longrightarrow> recorded h V t = recorded h' V t"
  by (simp add: recorded_def)

definition fine :: "device \<Rightarrow> host_env \<Rightarrow> string \<Rightarrow> bool" where
  "fine dv V t \<longleftrightarrow> benign V \<and> ordinary_test dv t \<and> (\<exists>code. hv_stop_host V t = Inr code)"

text \<open>C7: when nothing outside the program fails, a connected host that is testing runs all its remaining
  tests to the end: after one end of a module per test it is done, without an error for the runner; every
  test has been recorded with the return code of its own module, and the test port is free again.\<close>

theorem host_runs_all_tests:
  assumes "testing t h g" "hs_remaining_tests h = ts" "distinct (t # ts)" "list_all2 (fine dv) Vs (t # ts)"
    and "hang_ups dv Vs (h, g) = (rqs, h', g')"
  shows "hs_state h' = DONE \<and> hs_remaining_tests h' = [] \<and> rqs = [] \<and> list_all2 (recorded h') Vs (t # ts) \<and>
    set (test_ports g') = set (test_ports g) - {the (hs_test_port h)}"
proof -
  have "hs_state h' = DONE \<and> hs_remaining_tests h' = [] \<and> rqs = [] \<and> list_all2 (recorded h') Vs (t # ts) \<and>
    set (test_ports g') = set (test_ports g) - {the (hs_test_port h)} \<and>
    (\<forall>n. n \<notin> set (t # ts) \<longrightarrow> n \<noteq> ''finish'' \<longrightarrow> dict_get (hs_results h') n = dict_get (hs_results h) n)"
    using assms
  proof (induction ts arbitrary: t h g Vs rqs)
    case Nil
    then obtain V code where V: "Vs = [V]" "benign V" "ordinary_test dv t" "hv_stop_host V t = Inr code"
      by (auto simp: list_all2_Cons2 fine_def)
    from hang_up_last [OF V(2-4) Nil.prems(1,2)] Nil.prems(5) V(1,4) show ?case by (auto simp: recorded_def)
  next
    case (Cons u us)
    obtain V Vs' code where V: "Vs = V # Vs'" "benign V" "ordinary_test dv t" "hv_stop_host V t = Inr code"
      and rest: "list_all2 (fine dv) Vs' (u # us)"
      using Cons.prems(4) unfolding list_all2_Cons2 [of "fine dv" Vs t] fine_def [of dv _ t] by blast
    have u: "ordinary_test dv u" using rest by (auto simp: list_all2_Cons2 fine_def)
    have fresh: "t \<noteq> u" "t \<notin> set us" "distinct (u # us)" using Cons.prems(3) by auto
    obtain h1 g1 where one: "run_host (host_stream_event V dv (ModuleHangup (the (hs_test_host h)))) (h, g) = ((Inr (), []), h1, g1)"
      "testing u h1 g1" "hs_remaining_tests h1 = us"
      "set (test_ports g1) - {the (hs_test_port h1)} = set (test_ports g) - {the (hs_test_port h)}"
      "dict_get (hs_results h1) t = Some \<lparr>tr_name = Some t, tr_code = code, tr_exception = None\<rparr>"
      "\<forall>n. n \<noteq> t \<longrightarrow> n \<noteq> u \<longrightarrow> dict_get (hs_results h1) n = dict_get (hs_results h) n"
      using hang_up_next [OF V(2-4) Cons.prems(1,2) u] fresh by blast
    have tail: "hang_ups dv Vs' (h1, g1) = (rqs, h', g')" using Cons.prems(5) one(1) V(1) by (simp split: prod.splits)
    note ih = Cons.IH [OF one(2,3) fresh(3) rest tail]
    have "t \<noteq> ''finish''" using V(3) by (simp add: ordinary_test_def)
    with ih fresh have "dict_get (hs_results h') t = dict_get (hs_results h1) t" by simp
    then have "recorded h' V t" using one(5) V(4) by (simp add: recorded_def)
    with ih one V(1) show ?case by simp
  qed
  then show ?thesis by blast
qed

definition testing_host :: host where
  "testing_host = (example_host TESTING)\<lparr>hs_test_name := Some ''ping'', hs_modules := [External (running_module ''ping'')],
     hs_test_host := Some 0, hs_test_port := Some 12, hs_monitor := Some \<lparr>pm_timeout = None, pm_open = True\<rparr>,
     hs_remaining_tests := [''tls'']\<rparr>"

theorem host_runs_all_tests_witness:
  "hs_state (fst (snd (hang_ups ((new_device_object [] 0 None)\<lparr>dv_set_id := Some 1\<rparr>) [example_host_env, example_host_env]
     (testing_host, gw_store testing_runner 0)))) = DONE"
proof -
  let ?dv = "(new_device_object [] 0 None)\<lparr>dv_set_id := Some 1\<rparr>" and ?g = "gw_store testing_runner 0"
  obtain rqs h' g' where r: "hang_ups ?dv [example_host_env, example_host_env] (testing_host, ?g) = (rqs, h', g')"
    by (cases "hang_ups ?dv [example_host_env, example_host_env] (testing_host, ?g)") auto
  have "testing ''ping'' testing_host ?g"
    by (simp add: testing_def testing_host_def testing_runner_def example_host_def host_init_def gateway_ok_def test_port_pool_def
        switch_port_def gateway_consts)
  moreover have one: "show_nat (Suc 0) = ''1''" by code_simp
  have "fine ?dv example_host_env t" if "t \<in> {''ping'', ''tls''}" for t
    using that by (auto simp: fine_def benign_def ordinary_test_def example_host_env_def module_host_name_def pad2_def show_int_def one)
  then have "list_all2 (fine ?dv) [example_host_env, example_host_env] [''ping'', ''tls'']" by simp
  ultimately have "hs_state h' = DONE"
    using host_runs_all_tests [OF _ _ _ _ r, of "''ping''" "[''tls'']"] by (simp add: testing_host_def)
  then show ?thesis unfolding r by simp
qed

end
