(* ===== verification/Generator.thy ===== *)
theory Generator
  imports Py_Values Threads
begin

text \<open>
  \<open>daq/generator.py\<close>: the FAUCET and gauge configuration of the two-tier switch stacks of a site, and
  the flattening of included configuration files. YAML documents are values of the type \<open>yaml\<close>, whose
  dictionaries may have any keys (ports are numbers). Dictionary displays evaluate their entries in
  order, so an entry that is missing in the set-up or in the site raises before the later ones.
\<close>

subsection \<open>YAML documents\<close>

datatype yaml =
    YNone
  | YBool bool
  | YInt int
  | YStr string
  | YList "yaml list"
  | YMap "(yaml \<times> yaml) list"

fun y_truth :: "yaml \<Rightarrow> bool" where
  "y_truth YNone = False"
| "y_truth (YBool b) = b"
| "y_truth (YInt n) = (n \<noteq> 0)"
| "y_truth (YStr s) = (s \<noteq> [])"
| "y_truth (YList xs) = (xs \<noteq> [])"
| "y_truth (YMap d) = (d \<noteq> [])"

fun y_index :: "yaml \<Rightarrow> yaml \<Rightarrow> yaml result" where
  \<comment> \<open>\<open>m[k]\<close>\<close>
  "y_index (YMap d) k = dict_index d k"
| "y_index _ k = Inl TypeError"

abbreviation y_item :: "yaml \<Rightarrow> string \<Rightarrow> yaml result" where
  "y_item m k \<equiv> y_index m (YStr k)"

fun y_items :: "yaml \<Rightarrow> string list \<Rightarrow> yaml result" where
  \<comment> \<open>\<open>m[k1][k2]...\<close>\<close>
  "y_items m [] = Inr m"
| "y_items m (k # ks) = bind_result (y_item m k) (\<lambda>v. y_items v ks)"

fun y_get :: "yaml \<Rightarrow> string \<Rightarrow> yaml \<Rightarrow> yaml result" where
  \<comment> \<open>\<open>m.get(k, default)\<close>\<close>
  "y_get (YMap d) k x = Inr (case dict_get d (YStr k) of None \<Rightarrow> x | Some v \<Rightarrow> v)"
| "y_get _ k x = Inl AttributeError"

fun y_has :: "yaml \<Rightarrow> string \<Rightarrow> bool result" where
  \<comment> \<open>\<open>k in m\<close> for a dictionary or a list; a document is no bare string here\<close>
  "y_has (YMap d) k = Inr (YStr k \<in> set (dict_keys d))"
| "y_has (YList xs) k = Inr (YStr k \<in> set xs)"
| "y_has _ k = Inl TypeError"

fun y_dict :: "yaml \<Rightarrow> (yaml, yaml) dict result" where
  \<comment> \<open>the entries of a value that has \<open>items\<close>, \<open>keys\<close> and so on\<close>
  "y_dict (YMap d) = Inr d"
| "y_dict _ = Inl AttributeError"

fun y_elements :: "yaml \<Rightarrow> yaml list result" where
  \<comment> \<open>what \<open>for x in v\<close> goes through\<close>
  "y_elements (YList xs) = Inr xs"
| "y_elements (YMap d) = Inr (dict_keys d)"
| "y_elements (YStr s) = Inr (map (\<lambda>c. YStr [c]) s)"
| "y_elements _ = Inl TypeError"

fun y_plus :: "yaml \<Rightarrow> yaml \<Rightarrow> yaml result" where
  \<comment> \<open>\<open>+\<close> of two strings, the only use\<close>
  "y_plus (YStr a) (YStr b) = Inr (YStr (a @ b))"
| "y_plus _ _ = Inl TypeError"

fun y_table :: "(string \<times> yaml result) list \<Rightarrow> yaml result" where
  \<comment> \<open>a dictionary display\<close>
  "y_table [] = Inr (YMap [])"
| "y_table ((k, r) # es) =
     bind_result r (\<lambda>v. bind_result (y_table es) (\<lambda>t. case t of YMap d \<Rightarrow> Inr (YMap ((YStr k, v) # d)) | _ \<Rightarrow> Inl TypeError))"

definition y_update :: "(yaml, yaml) dict \<Rightarrow> (yaml, yaml) dict \<Rightarrow> (yaml, yaml) dict" where
  \<comment> \<open>\<open>d.update(e)\<close>\<close>
  "y_update d e = fold (\<lambda>(k, v). dict_set k v) e d"

subsection \<open>Formatting numbers\<close>

fun show_base_acc :: "nat \<Rightarrow> nat \<Rightarrow> nat \<Rightarrow> string \<Rightarrow> string" where
  "show_base_acc b 0 n acc = acc"
| "show_base_acc b (Suc fuel) n acc =
     (let d = n mod b; c = char_of (if d < 10 then 48 + d else 87 + d) in
      if n < b then c # acc else show_base_acc b fuel (n div b) (c # acc))"

definition show_base :: "nat \<Rightarrow> nat \<Rightarrow> string" where
  \<comment> \<open>with base 10 or 16; \<open>n\<close> is more than the number of digits\<close>
  "show_base b n = show_base_acc b (n + 1) n []"

definition padded :: "nat \<Rightarrow> char \<Rightarrow> string \<Rightarrow> string" where
  "padded width c s = replicate (width - length s) c @ s"

definition show_number :: "bool \<Rightarrow> nat \<Rightarrow> nat \<Rightarrow> int \<Rightarrow> string" where
  \<comment> \<open>zeros go between the sign and the digits, blanks before the sign\<close>
  "show_number zero width b n =
     (let sign = (if n < 0 then ''-'' else []); digits = show_base b (nat \<bar>n\<bar>) in
      if zero then sign @ padded (width - length sign) (CHR ''0'') digits else padded width (CHR '' '') (sign @ digits))"

text \<open>\<open>text % (n1, n2, ...)\<close> with the conversions of numbers, \<open>%d\<close>, \<open>%x\<close>, \<open>%02d\<close> and so on.\<close>

function format_numbers :: "string \<Rightarrow> int list \<Rightarrow> string result" where
  "format_numbers [] ns = (if ns = [] then Inr [] else Inl TypeError)"
| "format_numbers (c # cs) ns =
     (if c \<noteq> CHR ''%'' then bind_result (format_numbers cs ns) (\<lambda>r. Inr (c # r))
      else let digits = takeWhile (\<lambda>x. digit_val x \<noteq> None) cs;
               rest = dropWhile (\<lambda>x. digit_val x \<noteq> None) cs;
               zero = (digits \<noteq> [] \<and> hd digits = CHR ''0'');
               width = (case digits_val 0 digits of None \<Rightarrow> 0 | Some w \<Rightarrow> nat w) in
           case rest of
             [] \<Rightarrow> Inl ValueError
           | k # more \<Rightarrow>
               if k = CHR ''%'' \<and> digits = [] then bind_result (format_numbers more ns) (\<lambda>r. Inr (CHR ''%'' # r))
               else if k \<notin> {CHR ''d'', CHR ''x'', CHR ''s''} then Inl ValueError
               else case ns of
                 [] \<Rightarrow> Inl TypeError
               | n # ns' \<Rightarrow>
                   bind_result (format_numbers more ns')
                     (\<lambda>r. Inr (show_number (zero \<and> k \<noteq> CHR ''s'') width (if k = CHR ''x'' then 16 else 10) n @ r)))"
  by pat_completeness auto

lemma dropWhile_shorter: "dropWhile P xs = y # ys \<Longrightarrow> length ys < Suc (length xs)"
  by (metis length_Cons length_dropWhile_le less_Suc_eq_le Suc_leD)

termination format_numbers
  by (relation "measure (\<lambda>(s, ns). length s)") (auto dest: dropWhile_shorter [OF sym])

subsection \<open>Names\<close>

text \<open>The set-up of all sites and the site a configuration is generated for.\<close>

record generator =
  gn_setup :: yaml
  gn_site :: yaml

definition UNIFORM_ACL_NAME :: string where "UNIFORM_ACL_NAME = ''uniform_acl''"
definition UNIFORM_FILE_NAME :: string where "UNIFORM_FILE_NAME = ''uniform.yaml''"
definition INCLUDE_SET :: "string list" where "INCLUDE_SET = [UNIFORM_FILE_NAME]"

definition tier1_domain :: "generator \<Rightarrow> yaml \<Rightarrow> yaml result" where
  "tier1_domain g domain = bind_result (y_items (gn_site g) [''tier1'', ''domains'']) (\<lambda>ds. y_index ds domain)"

definition join_name :: "yaml \<Rightarrow> yaml \<Rightarrow> yaml result \<Rightarrow> yaml result \<Rightarrow> yaml result" where
  \<comment> \<open>\<open>site_name + switch_type + location + domain\<close>\<close>
  "join_name site_name switch_type location domain =
     bind_result (y_plus site_name switch_type) (\<lambda>a.
     bind_result location (\<lambda>l.
     bind_result (y_plus a l) (\<lambda>b.
     bind_result domain (\<lambda>d. y_plus b d))))"

definition get_t1_dp_name :: "generator \<Rightarrow> yaml \<Rightarrow> yaml result" where
  "get_t1_dp_name g domain =
     bind_result (y_item (gn_site g) ''site_name'') (\<lambda>site_name.
     bind_result (y_items (gn_setup g) [''naming'', ''tier1'']) (\<lambda>switch_type.
     bind_result (tier1_domain g domain) (\<lambda>t1_conf.
       join_name site_name switch_type (y_get t1_conf ''location'' (YStr [])) (Inr domain))))"

definition get_t2_dp_name :: "generator \<Rightarrow> yaml \<Rightarrow> yaml result" where
  "get_t2_dp_name g t2_conf =
     bind_result (y_item (gn_site g) ''site_name'') (\<lambda>site_name.
     bind_result (y_items (gn_setup g) [''naming'', ''tier2'']) (\<lambda>switch_type.
       join_name site_name switch_type (y_get t2_conf ''location'' (YStr [])) (y_item t2_conf ''domain'')))"

definition make_target :: "generator \<Rightarrow> yaml \<Rightarrow> yaml result" where
  "make_target g domain =
     bind_result (tier1_domain g domain) (\<lambda>domain_dp.
       y_table [(''location'', y_get domain_dp ''location'' (YStr [])), (''domain'', Inr domain)])"

definition get_ctl_name :: "generator \<Rightarrow> yaml \<Rightarrow> yaml result" where
  "get_ctl_name g target =
     bind_result (y_item (gn_site g) ''site_name'') (\<lambda>site_name.
     bind_result (y_items (gn_setup g) [''naming'', ''control'']) (\<lambda>switch_type.
       join_name site_name switch_type (y_get target ''location'' (YStr [])) (y_item target ''domain'')))"

definition get_all_domains :: "generator \<Rightarrow> yaml list result" where
  "get_all_domains g = bind_result (y_items (gn_site g) [''tier1'', ''domains'']) (\<lambda>ds. bind_result (y_dict ds) (\<lambda>d. Inr (dict_keys d)))"

subsection \<open>Interfaces\<close>

definition maybe_add :: "string \<Rightarrow> yaml \<Rightarrow> (yaml, yaml) dict \<Rightarrow> (yaml, yaml) dict" where
  "maybe_add key v var = (if v = YNone then var else dict_set (YStr key) v var)"

definition maybe_update :: "yaml \<Rightarrow> (yaml, yaml) dict \<Rightarrow> (yaml, yaml) dict result" where
  \<comment> \<open>\<open>update\<close> with something that is neither a dictionary nor empty raises\<close>
  "maybe_update target var =
     (case target of
        YMap d \<Rightarrow> Inr (y_update var d)
      | _ \<Rightarrow> if target \<in> {YNone, YList [], YStr []} then Inr var else Inl TypeError)"

definition get_switch_lldp_beacon :: "generator \<Rightarrow> yaml result" where
  "get_switch_lldp_beacon g = y_item (gn_setup g) ''switch_lldp_beacon''"

definition get_port_lldp_beacon :: "generator \<Rightarrow> yaml result" where
  "get_port_lldp_beacon g = y_item (gn_setup g) ''port_lldp_beacon''"

definition make_faucet_dp_mac :: "generator \<Rightarrow> yaml \<Rightarrow> int \<Rightarrow> yaml result" where
  "make_faucet_dp_mac g domain tier =
     bind_result (y_item (gn_setup g) ''faucet_dp_mac_format'') (\<lambda>f.
     bind_result (case domain of YInt n \<Rightarrow> Inr n | YStr s \<Rightarrow> val_int (Str s) | YBool b \<Rightarrow> val_int (Flag b) | _ \<Rightarrow> Inl TypeError) (\<lambda>n.
       case f of YStr s \<Rightarrow> bind_result (format_numbers s [n, tier]) (\<lambda>r. Inr (YStr r)) | _ \<Rightarrow> Inl TypeError))"

definition make_uplink_interface :: "generator \<Rightarrow> yaml \<Rightarrow> yaml result" where
  "make_uplink_interface g domain =
     bind_result (y_item (gn_site g) ''tier1'') (\<lambda>tier1.
     bind_result (y_get tier1 ''upstream_lacp'' YNone) (\<lambda>upstream_lacp.
     bind_result (y_item (gn_setup g) ''egress_description'') (\<lambda>description.
     bind_result (y_item (gn_setup g) ''loop_protect_external'') (\<lambda>loop_protect.
     bind_result (y_get tier1 ''uplink_native'' YNone) (\<lambda>uplink_native.
     bind_result (y_item (gn_site g) ''vlan_id'') (\<lambda>vlan_id.
     bind_result (y_get (gn_setup g) ''uplink_iface'' YNone) (\<lambda>uplink_iface.
     bind_result (maybe_update uplink_iface
       ([(YStr ''description'', description)] @
        (if y_truth loop_protect then [(YStr ''loop_protect_external'', YBool True)] else []) @
        (if y_truth uplink_native then [(YStr ''native_vlan'', vlan_id)] else [(YStr ''tagged_vlans'', YList [vlan_id])]))) (\<lambda>interface.
     bind_result (tier1_domain g domain) (\<lambda>conf.
     bind_result (y_get conf ''name'' YNone) (\<lambda>name.
       Inr (YMap (maybe_add ''name'' name (maybe_add ''lacp'' upstream_lacp interface)))))))))))))"

definition make_device_interface :: "generator \<Rightarrow> yaml result" where
  "make_device_interface g =
     y_table [(''description'', y_item (gn_setup g) ''device_description''), (''acl_in'', Inr (YStr UNIFORM_ACL_NAME)),
              (''native_vlan'', y_item (gn_site g) ''vlan_id'')]"

definition make_stack_interface :: "generator \<Rightarrow> yaml \<Rightarrow> yaml \<Rightarrow> yaml result" where
  \<comment> \<open>the dictionary both ends of a stack link return\<close>
  "make_stack_interface g dp_name port =
     y_table [(''lldp_beacon'', get_port_lldp_beacon g), (''receive_lldp'', y_item (gn_setup g) ''receive_lldp''),
              (''stack'', y_table [(''dp'', Inr dp_name), (''port'', Inr port)])]"

definition make_t1_stack_interface :: "generator \<Rightarrow> yaml \<Rightarrow> yaml result" where
  "make_t1_stack_interface g tier2_spec =
     bind_result (y_item tier2_spec ''stack_port'') (\<lambda>port.
     bind_result (get_t2_dp_name g tier2_spec) (\<lambda>dp_name. make_stack_interface g dp_name port))"

definition make_t2_cross_interface :: "generator \<Rightarrow> yaml result" where
  "make_t2_cross_interface g =
     y_table [(''loop_protect_external'', y_item (gn_setup g) ''loop_protect_external''),
              (''tagged_vlans'', bind_result (y_item (gn_site g) ''vlan_id'') (\<lambda>v. Inr (YList [v])))]"

definition tier1_ports :: "generator \<Rightarrow> (yaml, yaml) dict result" where
  "tier1_ports g =
     bind_result (y_items (gn_site g) [''tier2'', ''tier1_ports'']) (\<lambda>p. case p of YMap d \<Rightarrow> Inr d | _ \<Rightarrow> Inl TypeError)"

definition make_t1_stack_interfaces :: "generator \<Rightarrow> yaml \<Rightarrow> (yaml, yaml) dict result" where
  "make_t1_stack_interfaces g domain =
     bind_result (tier1_ports g) (\<lambda>ports.
     bind_result (mapM_result (\<lambda>(tier1_port, tier2_spec).
         bind_result (y_item tier2_spec ''domain'') (\<lambda>d.
         bind_result (if d = domain then make_t1_stack_interface g tier2_spec else make_t2_cross_interface g) (\<lambda>interface.
           Inr (tier1_port, interface)))) ports)
       (\<lambda>interfaces. Inr (y_update [] interfaces)))"

definition make_t1_dp_interfaces :: "generator \<Rightarrow> yaml \<Rightarrow> yaml result" where
  "make_t1_dp_interfaces g domain =
     bind_result (y_items (gn_site g) [''tier1'', ''uplink_ports'']) (\<lambda>uplinks.
     bind_result (y_elements uplinks) (\<lambda>uplink_ports.
     bind_result (mapM_result (\<lambda>p. bind_result (make_uplink_interface g domain) (\<lambda>interface. Inr (p, interface))) uplink_ports) (\<lambda>interfaces.
     bind_result (make_t1_stack_interfaces g domain) (\<lambda>stack.
       Inr (YMap (y_update (y_update [] interfaces) stack))))))"

subsection \<open>Switches\<close>

definition make_t1_hardware :: "generator \<Rightarrow> yaml result" where
  "make_t1_hardware g =
     bind_result (y_item (gn_site g) ''tier1'') (\<lambda>t1_conf.
     bind_result (y_has t1_conf ''defaults'') (\<lambda>b.
       if \<not> b then y_item (gn_setup g) ''default_hardware''
       else bind_result (y_item t1_conf ''defaults'') (\<lambda>defaults.
         bind_result (y_has defaults ''hardware'') (\<lambda>h.
           if h then y_item defaults ''hardware'' else y_item (gn_setup g) ''default_hardware''))))"

definition make_t1_dps :: "generator \<Rightarrow> yaml \<Rightarrow> (yaml, yaml) dict result" where
  "make_t1_dps g domain =
     bind_result (tier1_domain g domain) (\<lambda>t1_conf.
     bind_result (get_t1_dp_name g domain) (\<lambda>dp_name.
     bind_result (y_item (gn_site g) ''tier1'') (\<lambda>tier1.
     bind_result (y_get tier1 ''upstream_lacp'' YNone) (\<lambda>upstream_lacp.
     bind_result
       (y_table
         [(''dp_id'', y_item t1_conf ''dp_id''),
          (''combinatorial_port_flood'', y_item (gn_setup g) ''combinatorial_port_flood''),
          (''faucet_dp_mac'', make_faucet_dp_mac g domain 1),
          (''hardware'', make_t1_hardware g),
          (''lacp_timeout'', y_item (gn_setup g) ''lacp_timeout''),
          (''lldp_beacon'', get_switch_lldp_beacon g),
          (''interfaces'', make_t1_dp_interfaces g domain),
          (''stack'', Inr (YMap (maybe_add ''upstream_lacp'' upstream_lacp [(YStr ''priority'', YInt 1)])))])
       (\<lambda>dp. Inr [(dp_name, dp)])))))"

definition make_t2_hardware :: "generator \<Rightarrow> yaml \<Rightarrow> yaml \<Rightarrow> yaml result" where
  "make_t2_hardware g defaults conf =
     bind_result (y_has conf ''hardware'') (\<lambda>c.
       if c then y_item conf ''hardware''
       else bind_result (y_has defaults ''hardware'') (\<lambda>d.
         if d then y_item defaults ''hardware'' else y_item (gn_setup g) ''default_hardware''))"

definition make_t2_interface_ranges :: "generator \<Rightarrow> yaml result" where
  "make_t2_interface_ranges g =
     bind_result (y_items (gn_site g) [''tier2'', ''defaults'', ''device_ports'']) (\<lambda>ranges.
     bind_result (make_device_interface g) (\<lambda>interface. Inr (YMap [(ranges, interface)])))"

definition make_t2_stack_interface :: "generator \<Rightarrow> yaml \<Rightarrow> yaml \<Rightarrow> yaml result" where
  "make_t2_stack_interface g t2_conf t1_port =
     bind_result (y_item t2_conf ''domain'') (\<lambda>domain.
     bind_result (get_t1_dp_name g domain) (\<lambda>t1_dp_name. make_stack_interface g t1_dp_name t1_port))"

definition make_t2_interfaces :: "generator \<Rightarrow> yaml \<Rightarrow> yaml \<Rightarrow> yaml result" where
  "make_t2_interfaces g t2_conf t1_port =
     bind_result (y_item t2_conf ''stack_port'') (\<lambda>stack_port.
     bind_result (make_t2_stack_interface g t2_conf t1_port) (\<lambda>stack.
     bind_result (y_item t2_conf ''cross_port'') (\<lambda>cross_port.
     bind_result (make_t2_cross_interface g) (\<lambda>cross.
       Inr (YMap (dict_set cross_port cross [(stack_port, stack)]))))))"

definition make_t2_dp :: "generator \<Rightarrow> yaml \<Rightarrow> yaml \<Rightarrow> yaml result" where
  "make_t2_dp g t2_conf t1_port =
     bind_result (y_items (gn_site g) [''tier2'', ''defaults'']) (\<lambda>t2_defaults.
       y_table
         [(''dp_id'', y_item t2_conf ''dp_id''),
          (''combinatorial_port_flood'', y_item (gn_setup g) ''combinatorial_port_flood''),
          (''faucet_dp_mac'', bind_result (y_item t2_conf ''domain'') (\<lambda>d. make_faucet_dp_mac g d 2)),
          (''hardware'', make_t2_hardware g t2_defaults t2_conf),
          (''lacp_timeout'', y_item (gn_setup g) ''lacp_timeout''),
          (''lldp_beacon'', get_switch_lldp_beacon g),
          (''interface_ranges'', make_t2_interface_ranges g),
          (''interfaces'', make_t2_interfaces g t2_conf t1_port)])"

definition make_t2_dps :: "generator \<Rightarrow> yaml \<Rightarrow> (yaml, yaml) dict result" where
  "make_t2_dps g domain =
     bind_result (tier1_ports g) (\<lambda>t1_ports.
     bind_result (mapM_result (\<lambda>(t1_port, t2_conf).
         bind_result (y_item t2_conf ''domain'') (\<lambda>d.
           if d \<noteq> domain then Inr []
           else bind_result (get_t2_dp_name g t2_conf) (\<lambda>dp_name.
                bind_result (make_t2_dp g t2_conf t1_port) (\<lambda>dp. Inr [(dp_name, dp)])))) t1_ports)
       (\<lambda>dps. Inr (y_update [] (concat dps))))"

definition make_dps :: "generator \<Rightarrow> yaml \<Rightarrow> (yaml, yaml) dict result" where
  "make_dps g domain = bind_result (make_t1_dps g domain) (\<lambda>t1. bind_result (make_t2_dps g domain) (\<lambda>t2. Inr (y_update t1 t2)))"

subsection \<open>The configuration files\<close>

definition make_uniform_rule :: "yaml \<Rightarrow> yaml result" where
  \<comment> \<open>the body of the loop of \<open>_make_uniform_rules\<close>\<close>
  "make_uniform_rule entry =
     bind_result (y_get entry ''allow'' (YBool True)) (\<lambda>allow.
     bind_result (y_dict entry) (\<lambda>d.
       let d1 = dict_set (YStr ''actions'') (YMap [(YStr ''allow'', YInt (if y_truth allow then 1 else 0))]) (dict_del (YStr ''allow'') d);
           d2 = (if YStr ''dl_type'' \<in> set (dict_keys d1) then d1 else dict_set (YStr ''dl_type'') (YStr ''0x0800'') d1);
           d3 = (if YStr ''tcp_src'' \<in> set (dict_keys d2) \<or> YStr ''tcp_dst'' \<in> set (dict_keys d2)
                 then dict_set (YStr ''nw_proto'') (YInt 6) d2 else d2);
           d4 = (if YStr ''udp_src'' \<in> set (dict_keys d3) \<or> YStr ''udp_dst'' \<in> set (dict_keys d3)
                 then dict_set (YStr ''nw_proto'') (YInt 17) d3 else d3) in
       Inr (YMap [(YStr ''rule'', YMap d4)])))"

definition make_uniform_rules :: "yaml \<Rightarrow> yaml list result" where
  "make_uniform_rules entries =
     (if \<not> y_truth entries then Inr [] else bind_result (y_elements entries) (mapM_result make_uniform_rule))"

definition make_uniform :: "generator \<Rightarrow> yaml result" where
  "make_uniform g =
     bind_result (bind_result (y_item (gn_setup g) ''pre_acls'') make_uniform_rules) (\<lambda>pre_rules.
     bind_result (bind_result (y_get (gn_site g) ''uniform_acls'' YNone) make_uniform_rules) (\<lambda>site_rules.
     bind_result (bind_result (y_item (gn_setup g) ''post_acls'') make_uniform_rules) (\<lambda>post_rules.
       Inr (YMap [(YStr ''acls'', YMap [(YStr UNIFORM_ACL_NAME, YList (pre_rules @ site_rules @ post_rules))])]))))"

definition make_vlans :: "generator \<Rightarrow> yaml result" where
  "make_vlans g =
     bind_result (y_items (gn_setup g) [''vlan'', ''name'']) (\<lambda>name.
     bind_result (y_table [(''description'', y_items (gn_setup g) [''vlan'', ''description'']), (''vid'', y_item (gn_site g) ''vlan_id'')])
       (\<lambda>vlan. Inr (YMap [(name, vlan)])))"

definition make_faucet :: "generator \<Rightarrow> yaml \<Rightarrow> yaml result" where
  "make_faucet g domain =
     y_table [(''vlans'', make_vlans g), (''dps'', bind_result (make_dps g domain) (\<lambda>d. Inr (YMap d))),
              (''include'', Inr (YList [YStr UNIFORM_FILE_NAME])), (''version'', Inr (YInt 2))]"

definition get_all_dp_names :: "generator \<Rightarrow> yaml \<Rightarrow> yaml list result" where
  "get_all_dp_names g domain =
     bind_result (make_t1_dps g domain) (\<lambda>t1. bind_result (make_t2_dps g domain) (\<lambda>t2. Inr (dict_keys t1 @ dict_keys t2)))"

definition make_gauge_watcher :: "generator \<Rightarrow> yaml \<Rightarrow> string \<Rightarrow> yaml result" where
  "make_gauge_watcher g domain watcher_type =
     y_table [(''db'', y_items (gn_setup g) [''gauge'', ''db_type'']), (''interval'', y_items (gn_setup g) [''gauge'', ''interval'']),
              (''type'', Inr (YStr watcher_type)), (''dps'', bind_result (get_all_dp_names g domain) (\<lambda>ns. Inr (YList ns)))]"

definition make_gauge :: "generator \<Rightarrow> yaml \<Rightarrow> yaml result" where
  "make_gauge g domain =
     bind_result (y_items (gn_setup g) [''gauge'', ''db_type'']) (\<lambda>db_type.
       y_table
         [(''dbs'', bind_result (y_item (gn_setup g) ''db_types'') (\<lambda>ts. bind_result (y_index ts db_type) (\<lambda>v. Inr (YMap [(db_type, v)])))),
          (''faucet_configs'', bind_result (y_item (gn_setup g) ''faucet_yaml'') (\<lambda>v. Inr (YList [v]))),
          (''watchers'', y_table [(''flow_table'', make_gauge_watcher g domain ''flow_table''),
                                  (''port_stats'', make_gauge_watcher g domain ''port_stats'')])])"

text \<open>The files that are written: a directory (below another one), a name and a document.\<close>

type_synonym out_file = "(string \<times> yaml option) \<times> string \<times> yaml"

definition write_yaml :: "string \<times> yaml option \<Rightarrow> string \<Rightarrow> yaml \<Rightarrow> (out_file list, unit) op" where
  "write_yaml dir name data = modify_op (\<lambda>fs. fs @ [(dir, name, data)])"

definition write_config :: "generator \<Rightarrow> string option \<Rightarrow> yaml \<Rightarrow> string \<Rightarrow> yaml result \<Rightarrow> (out_file list, unit) op" where
  "write_config g topo_dir target filename data =
     bind_op (lift_op data) (\<lambda>d.
     bind_op (lift_op (get_ctl_name g target)) (\<lambda>name.
       case topo_dir of None \<Rightarrow> raise_op TypeError | Some base \<Rightarrow> write_yaml (base, Some name) filename d))"

definition generate_topology :: "(string \<Rightarrow> yaml result) \<Rightarrow> string option \<Rightarrow> string option \<Rightarrow> string \<Rightarrow> (out_file list, unit) op" where
  \<comment> \<open>\<open>load\<close> reads a YAML file\<close>
  "generate_topology load topo_setup topo_dir site_config =
     bind_op (case topo_setup of None \<Rightarrow> raise_op TypeError | Some p \<Rightarrow> lift_op (load p)) (\<lambda>setup_conf.
     then_op (assert_op (site_config \<noteq> []))
     (bind_op (lift_op (load site_config)) (\<lambda>site.
        let g = \<lparr>gn_setup = setup_conf, gn_site = site\<rparr> in
        bind_op (lift_op (get_all_domains g)) (\<lambda>domains.
          for_op domains (\<lambda>domain.
            bind_op (lift_op (make_target g domain)) (\<lambda>target.
              then_op (write_config g topo_dir target ''faucet.yaml'' (make_faucet g domain))
             (then_op (write_config g topo_dir target ''gauge.yaml'' (make_gauge g domain))
               (write_config g topo_dir target UNIFORM_FILE_NAME (make_uniform g)))))))))"

subsection \<open>Flattening included files\<close>

record flat_state =
  fl_configs :: "(string, yaml) dict"
  fl_removed :: "string list"

definition faucet_conf :: "flat_state \<Rightarrow> (yaml, yaml) dict" where
  \<comment> \<open>the object \<open>configs['faucet.yaml']\<close>, which is changed in place\<close>
  "faucet_conf s = (case dict_get (fl_configs s) ''faucet.yaml'' of Some (YMap d) \<Rightarrow> d | _ \<Rightarrow> [])"

definition set_faucet_conf :: "(yaml, yaml) dict \<Rightarrow> (flat_state, unit) op" where
  "set_faucet_conf d = modify_op (\<lambda>s. s\<lparr>fl_configs := dict_set ''faucet.yaml'' (YMap d) (fl_configs s)\<rparr>)"

definition flatten_include :: "yaml \<Rightarrow> (flat_state, unit) op" where
  \<comment> \<open>the parts are taken in the order of the file; the code takes them in the order of a set\<close>
  "flatten_include target_conf =
     bind_op (lift_op (y_dict target_conf)) (\<lambda>d.
       for_op (filter (\<lambda>(k, v). k \<noteq> YStr ''version'') d)
         (\<lambda>(part, v). read_op (\<lambda>s.
            then_op (assert_op (part \<notin> set (dict_keys (faucet_conf s))))
              (set_faucet_conf (faucet_conf s @ [(part, v)])))))"

definition flatten_target :: "yaml \<Rightarrow> (flat_state, bool) op" where
  \<comment> \<open>the body of the loop of \<open>_flatten_configs\<close>: whether the entry is preserved\<close>
  "flatten_target target =
     (case target of
        YStr t \<Rightarrow>
          read_op (\<lambda>s. case dict_get (fl_configs s) t of
             None \<Rightarrow> raise_op AssertionError
           | Some conf \<Rightarrow>
               if t \<in> set INCLUDE_SET then ret_op True
               else then_op (flatten_include conf)
                   (then_op (modify_op (\<lambda>s. s\<lparr>fl_configs := dict_del t (fl_configs s), fl_removed := fl_removed s @ [t]\<rparr>))
                     (ret_op False)))
      | _ \<Rightarrow> raise_op AssertionError)"

fun flatten_targets :: "yaml list \<Rightarrow> yaml list \<Rightarrow> (flat_state, yaml list) op" where
  "flatten_targets [] kept = ret_op kept"
| "flatten_targets (t # ts) kept = bind_op (flatten_target t) (\<lambda>b. flatten_targets ts (if b then kept @ [t] else kept))"

definition flatten_configs :: "(flat_state, unit) op" where
  "flatten_configs =
     read_op (\<lambda>s. bind_op (lift_op (dict_index (fl_configs s) ''faucet.yaml'')) (\<lambda>conf.
     bind_op (lift_op (y_has conf ''include-optional'')) (\<lambda>optional.
     then_op (assert_op (\<not> optional))
    (bind_op (lift_op (y_has conf ''include'')) (\<lambda>includes.
       if \<not> includes then ret_op ()
       else bind_op (lift_op (bind_result (y_item conf ''include'') y_elements)) (\<lambda>targets.
         bind_op (flatten_targets targets []) (\<lambda>include_set.
         then_op (read_op (\<lambda>s. assert_op (\<forall>x\<in>set INCLUDE_SET. YStr x \<notin> set (dict_keys (faucet_conf s)))))
           (read_op (\<lambda>s. set_faucet_conf
              (if include_set \<noteq> [] then dict_set (YStr ''include'') (YList (remdups include_set)) (faucet_conf s)
               else dict_del (YStr ''include'') (faucet_conf s)))))))))))"

definition has_yaml_postfix :: "string \<Rightarrow> bool" where
  "has_yaml_postfix name = (length name \<ge> 5 \<and> drop (length name - 5) name = ''.yaml'')"

definition normalize_raw_topo ::
    "(string \<Rightarrow> yaml result) \<Rightarrow> (string \<Rightarrow> string list result) \<Rightarrow> string \<Rightarrow> string \<Rightarrow> string \<Rightarrow> unit result \<times> out_file list \<times> string list" where
  \<comment> \<open>\<open>slash\<close> is the path separator; the files written and the files removed\<close>
  "normalize_raw_topo load listdir slash topo_dir source_dir =
     (if source_dir = [] then (Inl AssertionError, [], [])
      else case listdir source_dir of
        Inl e \<Rightarrow> (Inl e, [], [])
      | Inr names \<Rightarrow>
          (case mapM_result (\<lambda>n. bind_result (load (source_dir @ slash @ n)) (\<lambda>c. Inr (n, c))) (filter has_yaml_postfix names) of
             Inl e \<Rightarrow> (Inl e, [], [])
           | Inr configs \<Rightarrow>
               (case flatten_configs \<lparr>fl_configs = configs, fl_removed = []\<rparr> of
                  (Inl e, s) \<Rightarrow> (Inl e, [], fl_removed s)
                | (Inr _, s) \<Rightarrow> (Inr (), map (\<lambda>(n, c). ((topo_dir, None), n, c)) (fl_configs s), fl_removed s))))"

definition process :: "(string \<Rightarrow> yaml result) \<Rightarrow> (string \<Rightarrow> string list result) \<Rightarrow> (string, string) dict \<Rightarrow> string \<Rightarrow> int result \<times> out_file list" where
  \<comment> \<open>\<open>run_dir\<close> is \<open>DAQ_RUN_DIR\<close>\<close>
  "process load listdir config run_dir =
     (case (dict_get config ''raw_topo'', dict_get config ''site_config'') of
        (Some source_dir, _) \<Rightarrow>
          (case normalize_raw_topo load listdir ''/'' (case dict_get config ''topo_dir'' of None \<Rightarrow> run_dir | Some d \<Rightarrow> d) source_dir of
             (r, fs, _) \<Rightarrow> (map_sum id (\<lambda>_. 0) r, fs))
      | (None, Some site) \<Rightarrow>
          (case generate_topology load (dict_get config ''topo_setup'') (dict_get config ''topo_dir'') site [] of
             (r, fs) \<Rightarrow> (map_sum id (\<lambda>_. 0) r, fs))
      | (None, None) \<Rightarrow> (Inr (- 1), []))"

end
