(* ===== verification/Generator_Claims.thy ===== *)
theory Generator_Claims
  imports Generator
begin

text \<open>
  Properties of the topology generator: the stack links it configures are symmetric, the rules of
  the uniform access list, and the flattening of included files.
\<close>

subsection \<open>Results and dictionaries\<close>

lemma y_table_Inr: "y_table es = Inr y \<Longrightarrow> \<exists>d. y = YMap d \<and> map fst d = map (YStr \<circ> fst) es \<and> map (Inr \<circ> snd) d = map snd es"
proof (induction es arbitrary: y)
  case (Cons e es)
  obtain k r where e: "e = (k, r)" by fastforce
  from Cons.prems obtain v t where t: "r = Inr v" "y_table es = Inr t" by (auto simp: e bind_result_eq_Inr)
  obtain d where d: "t = YMap d" "map fst d = map (YStr \<circ> fst) es" "map (Inr \<circ> snd) d = map snd es" using Cons.IH [OF t(2)] by blast
  have "y = YMap ((YStr k, v) # d)" using Cons.prems t d(1) by (simp add: e)
  with d t(1) e show ?case by (simp add: comp_def)
qed simp

lemma y_table_item:
  assumes "y_table es = Inr y" "map_of es k = Some r"
  shows "\<exists>v. r = Inr v \<and> y_item y k = Inr v"
proof -
  obtain d where d: "y = YMap d" "map fst d = map (YStr \<circ> fst) es" "map (Inr \<circ> snd) d = map snd es"
    using y_table_Inr [OF assms(1)] by blast
  have "map_option Inr (map_of d (YStr k)) = map_of es k" if "map fst d = map (YStr \<circ> fst) es" "map (Inr \<circ> snd) d = map snd es" for d es
    using that
  proof (induction d arbitrary: es)
    case (Cons p d)
    then obtain k' r' es' where "es = (k', r') # es'" by (cases es) auto
    with Cons show ?case by (cases p) auto
  qed simp
  from this [OF d(2,3)] assms(2) show ?thesis by (auto simp: d(1) dict_index_def split: option.splits)
qed

declare y_table.simps [simp del]

lemma y_update_other: "k \<notin> set (map fst e) \<Longrightarrow> dict_get (y_update d e) k = dict_get d k"
  unfolding y_update_def by (induction e arbitrary: d) (auto simp: dict_get_set)

lemma y_update_mem: "(k, v) \<in> set e \<Longrightarrow> distinct (map fst e) \<Longrightarrow> dict_get (y_update d e) k = Some v"
proof (induction e arbitrary: d)
  case (Cons p e)
  then show ?case
  proof (cases "k = fst p")
    case True
    with Cons.prems have "k \<notin> set (map fst e)" by simp
    moreover from this Cons.prems(1) True have "p = (k, v)" by (cases p) (auto simp: image_iff)
    ultimately have "p = (k, v)" "k \<notin> set (map fst e)" by blast+
    then show ?thesis using y_update_other [of k e "dict_set k v d"] by (simp add: y_update_def dict_get_set)
  next
    case False
    with Cons show ?thesis by (cases p) (auto simp: y_update_def)
  qed
qed simp

lemma y_update_ok: "dict_ok d \<Longrightarrow> dict_ok (y_update d e)"
  unfolding y_update_def by (induction e arbitrary: d) auto

lemma y_update_keys: "set (dict_keys (y_update d e)) = set (dict_keys d) \<union> set (dict_keys e)"
  unfolding y_update_def by (induction e arbitrary: d) (auto simp: dict_keys_set simp del: set_map)

lemma y_update_twice:
  "(k, v) \<in> set e \<Longrightarrow> distinct (map fst e) \<Longrightarrow> dict_get (y_update d (y_update [] e)) k = Some v"
  using y_update_mem [of k v e "[]"] by (intro y_update_mem) (auto dest: map_of_SomeD intro: y_update_ok)

lemma mapM_result_Inr: "mapM_result f xs = Inr ys \<longleftrightarrow> list_all2 (\<lambda>x y. f x = Inr y) xs ys"
  by (induction xs arbitrary: ys) (auto simp: bind_result_eq_Inr list_all2_Cons1)

lemma remdups_single: "set xs \<subseteq> {a} \<Longrightarrow> xs \<noteq> [] \<Longrightarrow> remdups xs = [a]"
proof (induction xs)
  case (Cons x xs)
  then show ?case by (cases xs) auto
qed simp

lemma list_all2_member: "list_all2 P xs ys \<Longrightarrow> x \<in> set xs \<Longrightarrow> \<exists>y\<in>set ys. P x y"
  by (induction rule: list_all2_induct) auto

subsection \<open>Stack links\<close>

definition link_of :: "yaml \<Rightarrow> (yaml \<times> yaml) result" where
  \<comment> \<open>the switch and the port an interface is linked to\<close>
  "link_of interface =
     bind_result (y_items interface [''stack'', ''dp'']) (\<lambda>dp. bind_result (y_items interface [''stack'', ''port'']) (\<lambda>port. Inr (dp, port)))"

definition stack_link :: "(yaml, yaml) dict \<Rightarrow> yaml \<Rightarrow> yaml \<Rightarrow> (yaml \<times> yaml) result" where
  "stack_link dps dp port =
     bind_result (dict_index dps dp) (\<lambda>conf. bind_result (y_item conf ''interfaces'') (\<lambda>ifs. bind_result (y_index ifs port) link_of))"

lemma stack_interface_link: "make_stack_interface g dp port = Inr x \<Longrightarrow> link_of x = Inr (dp, port)"
proof -
  assume x: "make_stack_interface g dp port = Inr x"
  have "\<exists>v. y_table [(''dp'', Inr dp), (''port'', Inr port)] = Inr v \<and> y_item x ''stack'' = Inr v"
    using x unfolding make_stack_interface_def by (rule y_table_item) simp
  then show ?thesis by (auto simp: link_of_def dict_index_def y_table.simps)
qed

lemma cross_interface_link: "make_t2_cross_interface g = Inr x \<Longrightarrow> link_of x = Inl KeyError"
  using y_table_Inr [of "[(''loop_protect_external'', y_item (gn_setup g) ''loop_protect_external''),
     (''tagged_vlans'', bind_result (y_item (gn_site g) ''vlan_id'') (\<lambda>v. Inr (YList [v])))]" x]
  by (auto simp: make_t2_cross_interface_def link_of_def dict_index_def)

text \<open>The switch of the first tier.\<close>

lemma t1_interfaces:
  assumes "make_t1_dp_interfaces g domain = Inr ifs" "tier1_ports g = Inr ports" "dict_ok ports" "(p, c) \<in> set ports"
  shows "\<exists>x. y_index ifs p = Inr x \<and>
    (if y_item c ''domain'' = Inr domain then make_t1_stack_interface g c = Inr x else make_t2_cross_interface g = Inr x)"
proof -
  let ?f = "\<lambda>(tier1_port, tier2_spec).
         bind_result (y_item tier2_spec ''domain'') (\<lambda>d.
         bind_result (if d = domain then make_t1_stack_interface g tier2_spec else make_t2_cross_interface g) (\<lambda>interface.
           Inr (tier1_port, interface)))"
  obtain up ss where s: "mapM_result ?f ports = Inr ss" "ifs = YMap (y_update up (y_update [] ss))"
    using assms(1,2) by (auto simp: make_t1_dp_interfaces_def make_t1_stack_interfaces_def bind_result_eq_Inr)
  then have all: "list_all2 (\<lambda>x y. ?f x = Inr y) ports ss" by (simp add: mapM_result_Inr)
  then have keys: "map fst ss = map fst ports"
    by (induction rule: list_all2_induct) (auto simp: bind_result_eq_Inr)
  from all assms(4) obtain y where y: "y \<in> set ss" "?f (p, c) = Inr y"
    using list_all2_member [OF all assms(4)] by blast
  from y(2) obtain x where x: "y = (p, x)" "if y_item c ''domain'' = Inr domain then make_t1_stack_interface g c = Inr x else make_t2_cross_interface g = Inr x"
    by (auto simp: bind_result_eq_Inr split: if_splits)
  have "dict_get (y_update up (y_update [] ss)) p = Some x"
    using y(1) x(1) keys assms(3) by (intro y_update_twice) simp_all
  with s(2) x(2) show ?thesis by (auto simp: dict_index_def)
qed

text \<open>The switches of the second tier in the domain, by name.\<close>

definition in_domain :: "yaml \<Rightarrow> yaml \<times> yaml \<Rightarrow> bool" where
  "in_domain domain x \<longleftrightarrow> y_item (snd x) ''domain'' = Inr domain"

lemma t2_switches:
  assumes "make_t2_dps g domain = Inr t2" "tier1_ports g = Inr ports"
  shows "\<exists>e. t2 = y_update [] e \<and> map (Inr \<circ> fst) e = map (get_t2_dp_name g \<circ> snd) (filter (in_domain domain) ports) \<and>
    (\<forall>(p, c)\<in>set ports. in_domain domain (p, c) \<longrightarrow>
       (\<exists>n dp. (n, dp) \<in> set e \<and> get_t2_dp_name g c = Inr n \<and> make_t2_dp g c p = Inr dp))"
proof -
  let ?f = "\<lambda>(t1_port, t2_conf). bind_result (y_item t2_conf ''domain'') (\<lambda>d.
           if d \<noteq> domain then Inr []
           else bind_result (get_t2_dp_name g t2_conf) (\<lambda>dp_name.
                bind_result (make_t2_dp g t2_conf t1_port) (\<lambda>dp. Inr [(dp_name, dp)])))"
  obtain dd where dd: "mapM_result ?f ports = Inr dd" "t2 = y_update [] (concat dd)"
    using assms(1,2) by (auto simp: make_t2_dps_def bind_result_eq_Inr)
  then have all: "list_all2 (\<lambda>x y. ?f x = Inr y) ports dd" by (simp add: mapM_result_Inr)
  then have "map (Inr \<circ> fst) (concat dd) = map (get_t2_dp_name g \<circ> snd) (filter (in_domain domain) ports)"
    by (induction rule: list_all2_induct) (auto simp: bind_result_eq_Inr in_domain_def split: if_splits)
  moreover have "\<exists>n dp. (n, dp) \<in> set (concat dd) \<and> get_t2_dp_name g c = Inr n \<and> make_t2_dp g c p = Inr dp"
    if pc: "(p, c) \<in> set ports" "in_domain domain (p, c)" for p c
  proof -
    obtain y where y: "y \<in> set dd" "?f (p, c) = Inr y" using list_all2_member [OF all pc(1)] by blast
    then obtain n dp where n: "y = [(n, dp)]" "get_t2_dp_name g c = Inr n" "make_t2_dp g c p = Inr dp"
      using pc(2) by (auto simp: bind_result_eq_Inr in_domain_def)
    have "(n, dp) \<in> set (concat dd)" unfolding set_concat using y(1) n(1) by (intro UN_I) auto
    with n show ?thesis by blast
  qed
  ultimately show ?thesis using dd(2) by blast
qed

lemma t2_link:
  assumes "make_t2_dp g c p = Inr dp" "y_item c ''domain'' = Inr domain" "y_item c ''stack_port'' \<noteq> y_item c ''cross_port''"
  shows "\<exists>ifs q x t1. y_item dp ''interfaces'' = Inr ifs \<and> y_item c ''stack_port'' = Inr q \<and> y_index ifs q = Inr x \<and>
    get_t1_dp_name g domain = Inr t1 \<and> link_of x = Inr (t1, p)"
proof -
  obtain ifs where i: "y_item dp ''interfaces'' = Inr ifs" "make_t2_interfaces g c p = Inr ifs"
    using assms(1) y_table_item [where k = "''interfaces''" and r = "make_t2_interfaces g c p"]
    by (fastforce simp: make_t2_dp_def bind_result_eq_Inr)
  then show ?thesis
    using assms(2,3)
    by (auto simp: make_t2_interfaces_def make_t2_stack_interface_def bind_result_eq_Inr dict_index_def dict_get_set dest!: stack_interface_link)
qed

text \<open>C11: when the switches of a domain, the first-tier and all second-tier ones, are generated with
  different names, and every second-tier switch has a stack port other than its cross port, every stack
  link the generator configures is symmetric: for each second-tier switch of the domain, the port of the
  first-tier switch it is attached to is configured as a link to the stack port of that switch, and that
  stack port as a link back to the port. The ports of the switches of other domains are not stack links.
  (Names can collide; the later switch then replaces the earlier one and the link back is lost.)\<close>

theorem stack_links_symmetric:
  assumes "make_dps g domain = Inr dps" "tier1_ports g = Inr ports" "dict_ok ports"
    and "distinct (get_t1_dp_name g domain # map (get_t2_dp_name g \<circ> snd) (filter (in_domain domain) ports))"
    and "\<forall>(p, c)\<in>set ports. y_item c ''stack_port'' \<noteq> y_item c ''cross_port''"
    and "(p, c) \<in> set ports"
  shows "\<exists>t1. get_t1_dp_name g domain = Inr t1 \<and>
    (if in_domain domain (p, c)
     then \<exists>t2 q. get_t2_dp_name g c = Inr t2 \<and> y_item c ''stack_port'' = Inr q \<and> stack_link dps t1 p = Inr (t2, q) \<and> stack_link dps t2 q = Inr (t1, p)
     else stack_link dps t1 p = Inl KeyError)"
proof -
  obtain t1s t2s where dps: "make_t1_dps g domain = Inr t1s" "make_t2_dps g domain = Inr t2s" "dps = y_update t1s t2s"
    using assms(1) by (auto simp: make_dps_def bind_result_eq_Inr)
  obtain t1 dp1 ifs where t1: "get_t1_dp_name g domain = Inr t1" "t1s = [(t1, dp1)]" "y_item dp1 ''interfaces'' = Inr ifs"
    "make_t1_dp_interfaces g domain = Inr ifs"
    using dps(1) y_table_item [where k = "''interfaces''" and r = "make_t1_dp_interfaces g domain"]
    by (fastforce simp: make_t1_dps_def bind_result_eq_Inr)
  obtain x where x: "y_index ifs p = Inr x"
    "if y_item c ''domain'' = Inr domain then make_t1_stack_interface g c = Inr x else make_t2_cross_interface g = Inr x"
    using t1_interfaces [OF t1(4) assms(2,3,6)] by blast
  obtain e where e: "t2s = y_update [] e" "map (Inr \<circ> fst) e = map (get_t2_dp_name g \<circ> snd) (filter (in_domain domain) ports)"
    "\<forall>(p, c)\<in>set ports. in_domain domain (p, c) \<longrightarrow>
       (\<exists>n dp. (n, dp) \<in> set e \<and> get_t2_dp_name g c = Inr n \<and> make_t2_dp g c p = Inr dp)"
    using t2_switches [OF dps(2) assms(2)] by blast
  have names: "distinct (map fst e)" "t1 \<notin> set (map fst e)"
    using assms(4) unfolding e(2) [symmetric] t1(1) by (auto simp: distinct_map comp_def inj_on_def)
  have "dict_get dps t1 = Some dp1"
    using names(2) unfolding dps(3) t1(2) e(1) by (subst y_update_other) (auto simp: y_update_keys simp del: set_map)
  then have here: "stack_link dps t1 p = link_of x" using t1(3) x(1) by (simp add: stack_link_def dict_index_def)
  show ?thesis
  proof (cases "in_domain domain (p, c)")
    case True
    obtain n dp where n: "(n, dp) \<in> set e" "get_t2_dp_name g c = Inr n" "make_t2_dp g c p = Inr dp" using e(3) assms(6) True by blast
    have d: "y_item c ''domain'' = Inr domain" using True by (simp add: in_domain_def)
    have sp: "y_item c ''stack_port'' \<noteq> y_item c ''cross_port''" using assms(5,6) by blast
    obtain ifs2 q x2 where l: "y_item dp ''interfaces'' = Inr ifs2" "y_item c ''stack_port'' = Inr q" "y_index ifs2 q = Inr x2"
      "link_of x2 = Inr (t1, p)"
      using t2_link [OF n(3) d sp] t1(1) by auto
    have "dict_get dps n = Some dp" unfolding dps(3) e(1) by (rule y_update_twice [OF n(1) names(1)])
    then have "stack_link dps n q = Inr (t1, p)" using l by (simp add: stack_link_def dict_index_def)
    moreover have "stack_link dps t1 p = Inr (n, q)"
      using x(2) d n(2) l(2) unfolding here by (auto simp: make_t1_stack_interface_def bind_result_eq_Inr dest: stack_interface_link)
    ultimately show ?thesis using t1(1) True n(2) l(2) by simp
  next
    case False
    then have "stack_link dps t1 p = Inl KeyError"
      using x(2) unfolding here by (simp add: in_domain_def cross_interface_link)
    with False t1(1) show ?thesis by simp
  qed
qed

text \<open>A site with one domain and two second-tier switches.\<close>

definition example_generator :: generator where
  "example_generator =
     \<lparr>gn_setup = YMap (map (\<lambda>k. (YStr k, YInt 0))
        [''combinatorial_port_flood'', ''lacp_timeout'', ''switch_lldp_beacon'', ''port_lldp_beacon'', ''receive_lldp'',
         ''default_hardware'', ''egress_description'', ''device_description'', ''loop_protect_external''] @
        [(YStr ''faucet_dp_mac_format'', YStr ''0e:00:00:00:%02x:%02x''),
         (YStr ''naming'', YMap [(YStr ''tier1'', YStr ''t1''), (YStr ''tier2'', YStr ''t2''), (YStr ''control'', YStr ''ctl'')])]),
      gn_site = YMap [(YStr ''site_name'', YStr ''site''), (YStr ''vlan_id'', YInt 10),
        (YStr ''tier1'', YMap [(YStr ''uplink_ports'', YList [YInt 24]),
           (YStr ''domains'', YMap [(YStr ''1'', YMap [(YStr ''dp_id'', YInt 1001)])])]),
        (YStr ''tier2'', YMap [(YStr ''defaults'', YMap [(YStr ''device_ports'', YStr ''1-8'')]),
           (YStr ''tier1_ports'', YMap
             [(YInt 1, YMap [(YStr ''domain'', YStr ''1''), (YStr ''location'', YStr ''x''), (YStr ''dp_id'', YInt 2001),
                (YStr ''stack_port'', YInt 52), (YStr ''cross_port'', YInt 53)]),
              (YInt 2, YMap [(YStr ''domain'', YStr ''1''), (YStr ''location'', YStr ''y''), (YStr ''dp_id'', YInt 2002),
                (YStr ''stack_port'', YInt 52), (YStr ''cross_port'', YInt 53)])])])]\<rparr>"

theorem stack_links_symmetric_witness:
  "\<exists>dps. make_dps example_generator (YStr ''1'') = Inr dps \<and> stack_link dps (YStr ''sitet2y1'') (YInt 52) = Inr (YStr ''sitet11'', YInt 2)"
proof -
  let ?c = "YMap [(YStr ''domain'', YStr ''1''), (YStr ''location'', YStr ''y''), (YStr ''dp_id'', YInt 2002),
                (YStr ''stack_port'', YInt 52), (YStr ''cross_port'', YInt 53)]"
  have "case make_dps example_generator (YStr ''1'') of Inl e \<Rightarrow> False | Inr d \<Rightarrow> True" by code_simp
  then obtain dps where dps: "make_dps example_generator (YStr ''1'') = Inr dps" by (auto split: sum.splits)
  let ?b = "YMap [(YStr ''domain'', YStr ''1''), (YStr ''location'', YStr ''x''), (YStr ''dp_id'', YInt 2001),
                (YStr ''stack_port'', YInt 52), (YStr ''cross_port'', YInt 53)]"
  let ?ports = "[(YInt 1, ?b), (YInt 2, ?c)]"
  have ports: "tier1_ports example_generator = Inr ?ports" "dict_ok ?ports" "(YInt 2, ?c) \<in> set ?ports"
    "\<forall>(p, c)\<in>set ?ports. y_item c ''stack_port'' \<noteq> y_item c ''cross_port''"
    by (simp_all add: tier1_ports_def example_generator_def dict_index_def)
  have names: "get_t1_dp_name example_generator (YStr ''1'') = Inr (YStr ''sitet11'')"
    "get_t2_dp_name example_generator ?b = Inr (YStr ''sitet2x1'')" "get_t2_dp_name example_generator ?c = Inr (YStr ''sitet2y1'')"
    by (simp_all add: example_generator_def dict_index_def get_t1_dp_name_def get_t2_dp_name_def tier1_domain_def join_name_def)
  then have d: "distinct (get_t1_dp_name example_generator (YStr ''1'') #
      map (get_t2_dp_name example_generator \<circ> snd) (filter (in_domain (YStr ''1'')) ?ports))"
    by (simp add: in_domain_def dict_index_def del: distinct_map set_filter)
  from stack_links_symmetric [OF dps ports(1,2) d ports(4,3)] names dps show ?thesis
    by (simp add: in_domain_def dict_index_def)
qed

subsection \<open>Flattening\<close>

lemma faucet_conf_get: "dict_get (fl_configs s) ''faucet.yaml'' = Some (YMap d) \<Longrightarrow> faucet_conf s = d"
  by (simp add: faucet_conf_def)

lemma include_parts:
  assumes "for_op es (\<lambda>(part, v). read_op (\<lambda>s. then_op (assert_op (part \<notin> set (dict_keys (faucet_conf s))))
     (set_faucet_conf (faucet_conf s @ [(part, v)])))) s = (Inr (), s')"
    and "dict_get (fl_configs s) ''faucet.yaml'' = Some (YMap d)"
  shows "dict_get (fl_configs s') ''faucet.yaml'' = Some (YMap (d @ es)) \<and> (dict_ok d \<longrightarrow> dict_ok (d @ es)) \<and>
    set (map fst d) \<inter> set (map fst es) = {} \<and>
    (\<forall>n. n \<noteq> ''faucet.yaml'' \<longrightarrow> dict_get (fl_configs s') n = dict_get (fl_configs s) n)"
  using assms
proof (induction es arbitrary: s d)
  case Nil
  then show ?case by (simp add: ret_op_def)
next
  case (Cons e es)
  obtain k v where e: "e = (k, v)" by fastforce
  let ?s1 = "s\<lparr>fl_configs := dict_set ''faucet.yaml'' (YMap (d @ [(k, v)])) (fl_configs s)\<rparr>"
  have k: "k \<notin> set (dict_keys d)"
    using Cons.prems faucet_conf_get [OF Cons.prems(2)] by (auto simp: e op_simps split: if_splits)
  from Cons.IH [of ?s1 "d @ [(k, v)]"] Cons.prems k faucet_conf_get [OF Cons.prems(2)] show ?case
    by (auto simp: e op_simps set_faucet_conf_def dict_get_set)
qed

definition flat_parts :: "(yaml, yaml) dict \<Rightarrow> (yaml, yaml) dict" where
  "flat_parts d = filter (\<lambda>(k, v). k \<noteq> YStr ''version'') d"

lemma target_flattened:
  assumes "flatten_target (YStr t) s = (Inr b, s')" "dict_get (fl_configs s) ''faucet.yaml'' = Some (YMap fc)"
    and "YStr ''include'' \<in> set (dict_keys fc)"
  shows "if t \<in> set INCLUDE_SET then b \<and> s' = s else \<not> b \<and> t \<noteq> ''faucet.yaml'' \<and>
    (\<exists>d. dict_get (fl_configs s) t = Some (YMap d) \<and> dict_get (fl_configs s') ''faucet.yaml'' = Some (YMap (fc @ flat_parts d)) \<and>
       (dict_ok fc \<longrightarrow> dict_ok (fc @ flat_parts d)) \<and>
       (\<forall>n. n \<noteq> ''faucet.yaml'' \<longrightarrow> dict_get (fl_configs s') n = (if n = t then None else dict_get (fl_configs s) n)))"
proof (cases "t \<in> set INCLUDE_SET")
  case True
  with assms(1) show ?thesis by (auto simp: flatten_target_def op_simps split: option.splits)
next
  case False
  obtain d s1 where d: "dict_get (fl_configs s) t = Some (YMap d)" "flatten_include (YMap d) s = (Inr (), s1)" "\<not> b"
    "s' = s1\<lparr>fl_configs := dict_del t (fl_configs s1), fl_removed := fl_removed s1 @ [t]\<rparr>"
    using assms(1) False
    by (auto simp: flatten_target_def flatten_include_def op_simps split: option.splits sum.splits prod.splits elim!: y_dict.elims)
  have l: "dict_get (fl_configs s1) ''faucet.yaml'' = Some (YMap (fc @ flat_parts d))" "dict_ok fc \<longrightarrow> dict_ok (fc @ flat_parts d)"
    "set (map fst fc) \<inter> set (map fst (flat_parts d)) = {}"
    "\<forall>n. n \<noteq> ''faucet.yaml'' \<longrightarrow> dict_get (fl_configs s1) n = dict_get (fl_configs s) n"
    using include_parts [of "flat_parts d" s s1 fc] d(2) assms(2)
    by (auto simp: flatten_include_def flat_parts_def bind_op_def lift_op_def simp del: set_map)
  have "t \<noteq> ''faucet.yaml''"
  proof
    assume "t = ''faucet.yaml''"
    then have "d = fc" using d(1) assms(2) by simp
    moreover have "YStr ''include'' \<in> set (map fst (flat_parts fc))" using assms(3) by (force simp: flat_parts_def)
    ultimately show False using l(3) assms(3) by blast
  qed
  then show ?thesis using False d l by (auto simp: dict_get_del)
qed

lemma targets_flattened:
  assumes "flatten_targets ts kept s = (Inr kept', s')" "dict_get (fl_configs s) ''faucet.yaml'' = Some (YMap fc)"
    and "YStr ''include'' \<in> set (dict_keys fc)"
  shows "\<exists>X. dict_get (fl_configs s') ''faucet.yaml'' = Some (YMap (fc @ X)) \<and> (dict_ok fc \<longrightarrow> dict_ok (fc @ X)) \<and>
    set kept' \<subseteq> set kept \<union> {YStr UNIFORM_FILE_NAME} \<and>
    (\<forall>n. n \<noteq> ''faucet.yaml'' \<longrightarrow> dict_get (fl_configs s) n = None \<longrightarrow> dict_get (fl_configs s') n = None) \<and>
    (\<forall>t. YStr t \<in> set ts \<longrightarrow> t \<notin> set INCLUDE_SET \<longrightarrow> dict_get (fl_configs s') t = None \<and>
       (\<exists>d. dict_get (fl_configs s) t = Some (YMap d) \<and> set (flat_parts d) \<subseteq> set X))"
  using assms
proof (induction ts arbitrary: kept s fc)
  case Nil
  then show ?case by (auto simp: ret_op_def)
next
  case (Cons x ts)
  obtain t where x: "x = YStr t" using Cons.prems(1) by (cases x) (auto simp: flatten_target_def op_simps)
  obtain b s1 where s1: "flatten_target (YStr t) s = (Inr b, s1)" "flatten_targets ts (if b then kept @ [YStr t] else kept) s1 = (Inr kept', s')"
    using Cons.prems(1) by (auto simp: x bind_op_def split: prod.splits sum.splits)
  note t = target_flattened [OF s1(1) Cons.prems(2,3)]
  show ?case
  proof (cases "t \<in> set INCLUDE_SET")
    case True
    with t have "b" "s1 = s" by simp_all
    with Cons.IH [OF s1(2)] Cons.prems(2,3) True x show ?thesis by (auto simp: INCLUDE_SET_def)
  next
    case False
    obtain d where d: "\<not> b" "t \<noteq> ''faucet.yaml''" "dict_get (fl_configs s) t = Some (YMap d)"
      "dict_get (fl_configs s1) ''faucet.yaml'' = Some (YMap (fc @ flat_parts d))" "dict_ok fc \<longrightarrow> dict_ok (fc @ flat_parts d)"
      "\<forall>n. n \<noteq> ''faucet.yaml'' \<longrightarrow> dict_get (fl_configs s1) n = (if n = t then None else dict_get (fl_configs s) n)"
      using t False by auto
    have "YStr ''include'' \<in> set (dict_keys (fc @ flat_parts d))" using Cons.prems(3) by simp
    from Cons.IH [OF s1(2) d(4) this] obtain X where X:
      "dict_get (fl_configs s') ''faucet.yaml'' = Some (YMap ((fc @ flat_parts d) @ X))"
      "dict_ok (fc @ flat_parts d) \<longrightarrow> dict_ok ((fc @ flat_parts d) @ X)"
      "set kept' \<subseteq> set kept \<union> {YStr UNIFORM_FILE_NAME}"
      "\<forall>n. n \<noteq> ''faucet.yaml'' \<longrightarrow> dict_get (fl_configs s1) n = None \<longrightarrow> dict_get (fl_configs s') n = None"
      "\<forall>t. YStr t \<in> set ts \<longrightarrow> t \<notin> set INCLUDE_SET \<longrightarrow> dict_get (fl_configs s') t = None \<and>
         (\<exists>d. dict_get (fl_configs s1) t = Some (YMap d) \<and> set (flat_parts d) \<subseteq> set X)"
      using d(1) by auto
    have rest: "dict_get (fl_configs s') u = None \<and> (\<exists>e. dict_get (fl_configs s) u = Some (YMap e) \<and> set (flat_parts e) \<subseteq> set (flat_parts d @ X))"
      if u: "YStr u \<in> set (x # ts)" "u \<notin> set INCLUDE_SET" for u
    proof (cases "u = t")
      case True
      with d X(4) show ?thesis by auto
    next
      case False
      with u x have "YStr u \<in> set ts" by simp
      with X(5) u(2) obtain e where e: "dict_get (fl_configs s') u = None" "dict_get (fl_configs s1) u = Some (YMap e)" "set (flat_parts e) \<subseteq> set X" by blast
      moreover have "u \<noteq> ''faucet.yaml''" using e(1) X(1) by auto
      ultimately show ?thesis using d(6) False by auto
    qed
    have none: "\<forall>n. n \<noteq> ''faucet.yaml'' \<longrightarrow> dict_get (fl_configs s) n = None \<longrightarrow> dict_get (fl_configs s') n = None" using X(4) d(6) by simp
    show ?thesis using X(1-3) d(5) rest none by (intro exI [of _ "flat_parts d @ X"]) (simp del: set_append)
  qed
qed

text \<open>C13: flattening loses nothing: when it succeeds, every section of the FAUCET configuration other than
  the list of includes is as it was, every section of an included file (other than the uniform access
  list, which stays a file of its own) is a section of the configuration, that file is gone, and at most
  the uniform access list is still included.\<close>

theorem flattening_loses_nothing:
  assumes "flatten_configs s = (Inr (), s')" "dict_get (fl_configs s) ''faucet.yaml'' = Some (YMap fc)" "dict_ok fc"
    and "dict_get fc (YStr ''include'') = Some (YList ts)"
  shows "(\<forall>k. k \<noteq> YStr ''include'' \<longrightarrow> dict_get fc k \<noteq> None \<longrightarrow> dict_get (faucet_conf s') k = dict_get fc k) \<and>
    (\<forall>t k. YStr t \<in> set ts \<longrightarrow> t \<noteq> UNIFORM_FILE_NAME \<longrightarrow> dict_get (fl_configs s') t = None \<and>
       (\<exists>d. dict_get (fl_configs s) t = Some (YMap d) \<and>
          (k \<notin> {YStr ''version'', YStr ''include''} \<longrightarrow> dict_get d k \<noteq> None \<longrightarrow> dict_get (faucet_conf s') k = dict_get d k))) \<and>
    dict_get (faucet_conf s') (YStr ''include'') \<in> {None, Some (YList [YStr UNIFORM_FILE_NAME])}"
proof -
  have inc: "YStr ''include'' \<in> set (dict_keys fc)" using assms(4) by (metis dict_keys_get option.simps(3))
  obtain kept s1 where s1: "flatten_targets ts [] s = (Inr kept, s1)"
    "s' = s1\<lparr>fl_configs := dict_set ''faucet.yaml'' (YMap (if kept \<noteq> [] then dict_set (YStr ''include'') (YList (remdups kept)) (faucet_conf s1)
        else dict_del (YStr ''include'') (faucet_conf s1))) (fl_configs s1)\<rparr>"
    using assms(1,2,4) inc
    by (auto simp: flatten_configs_def op_simps dict_index_def set_faucet_conf_def split: prod.splits sum.splits if_splits)
  obtain X where X: "dict_get (fl_configs s1) ''faucet.yaml'' = Some (YMap (fc @ X))" "dict_ok (fc @ X)" "set kept \<subseteq> {YStr UNIFORM_FILE_NAME}"
    "\<forall>t. YStr t \<in> set ts \<longrightarrow> t \<notin> set INCLUDE_SET \<longrightarrow> dict_get (fl_configs s1) t = None \<and>
       (\<exists>d. dict_get (fl_configs s) t = Some (YMap d) \<and> set (flat_parts d) \<subseteq> set X)"
    using targets_flattened [OF s1(1) assms(2) inc] assms(3) by auto
  have conf: "faucet_conf s1 = fc @ X" using X(1) by (simp add: faucet_conf_def)
  have get: "dict_get (faucet_conf s') k = (if k = YStr ''include'' then (if kept \<noteq> [] then Some (YList (remdups kept)) else None) else dict_get (fc @ X) k)" for k
    unfolding s1(2) by (simp add: faucet_conf_def dict_get_set dict_get_del conf [unfolded faucet_conf_def])
  have "kept \<noteq> [] \<Longrightarrow> remdups kept = [YStr UNIFORM_FILE_NAME]"
    using X(3) by (rule remdups_single)
  then have "dict_get (faucet_conf s') (YStr ''include'') \<in> {None, Some (YList [YStr UNIFORM_FILE_NAME])}" by (simp add: get)
  moreover have "dict_get (faucet_conf s') k = dict_get fc k" if "k \<noteq> YStr ''include''" "dict_get fc k \<noteq> None" for k
    using that by (auto simp: get map_add_def)
  moreover have "dict_get (fl_configs s') t = None \<and> (\<exists>d. dict_get (fl_configs s) t = Some (YMap d) \<and>
     (k \<notin> {YStr ''version'', YStr ''include''} \<longrightarrow> dict_get d k \<noteq> None \<longrightarrow> dict_get (faucet_conf s') k = dict_get d k))"
    if t: "YStr t \<in> set ts" "t \<noteq> UNIFORM_FILE_NAME" for t k
  proof -
    obtain d where d: "dict_get (fl_configs s1) t = None" "dict_get (fl_configs s) t = Some (YMap d)" "set (flat_parts d) \<subseteq> set X"
      using X(4) t by (auto simp: INCLUDE_SET_def)
    have "dict_get (faucet_conf s') k = Some v" if "k \<notin> {YStr ''version'', YStr ''include''}" "dict_get d k = Some v" for v
    proof -
      have "(k, v) \<in> set (fc @ X)" using map_of_SomeD [OF that(2)] that(1) d(3) by (auto simp: flat_parts_def)
      then have "dict_get (fc @ X) k = Some v" using X(2) by (intro map_of_is_SomeI)
      then show ?thesis using that(1) by (simp add: get)
    qed
    moreover have "t \<noteq> ''faucet.yaml''" using d(1) X(1) by auto
    then have "dict_get (fl_configs s') t = None" using d(1) by (simp add: s1(2) dict_get_set)
    ultimately show ?thesis using d(2) by auto
  qed
  ultimately show ?thesis by blast
qed

definition example_flat :: flat_state where
  "example_flat = \<lparr>fl_configs =
     [(''faucet.yaml'', YMap [(YStr ''version'', YInt 2), (YStr ''include'', YList [YStr ''dps.yaml'', YStr ''uniform.yaml''])]),
      (''dps.yaml'', YMap [(YStr ''version'', YInt 2), (YStr ''dps'', YInt 7)]), (''uniform.yaml'', YMap [])], fl_removed = []\<rparr>"

theorem flattening_loses_nothing_witness:
  "\<exists>s'. flatten_configs example_flat = (Inr (), s') \<and> dict_get (faucet_conf s') (YStr ''dps'') = Some (YInt 7)"
proof -
  have "fst (flatten_configs example_flat) = Inr ()" by code_simp
  then obtain s' where s': "flatten_configs example_flat = (Inr (), s')" by (cases "flatten_configs example_flat") auto
  from flattening_loses_nothing [OF s', of "[(YStr ''version'', YInt 2), (YStr ''include'', YList [YStr ''dps.yaml'', YStr ''uniform.yaml''])]"
      "[YStr ''dps.yaml'', YStr ''uniform.yaml'']"]
  have "\<forall>t k. YStr t \<in> set [YStr ''dps.yaml'', YStr ''uniform.yaml''] \<longrightarrow> t \<noteq> UNIFORM_FILE_NAME \<longrightarrow> dict_get (fl_configs s') t = None \<and>
       (\<exists>d. dict_get (fl_configs example_flat) t = Some (YMap d) \<and>
          (k \<notin> {YStr ''version'', YStr ''include''} \<longrightarrow> dict_get d k \<noteq> None \<longrightarrow> dict_get (faucet_conf s') k = dict_get d k))"
    by (simp add: example_flat_def)
  from this [rule_format, of "''dps.yaml''" "YStr ''dps''"] s' show ?thesis by (auto simp: example_flat_def UNIFORM_FILE_NAME_def)
qed

end
