(* ===== verification/Py_Json.thy ===== *)
theory Py_Json
  imports Py_Values Py_Text
begin

text \<open>
  The functions \<open>json.dumps\<close> and \<open>json.loads\<close> of Python, with their default options, for the values of
  \<open>Py_Values\<close>. A fraction is printed as the text it was read from. The words \<open>NaN\<close> and \<open>Infinity\<close> and
  characters beyond one byte have no value there, so \<open>loads\<close> refuses them. The parser is a recursive descent; its first argument bounds the depth of the calls, and
  twice the length of the text is enough.
\<close>

subsection \<open>Printing\<close>

definition json_hex :: "nat \<Rightarrow> char" where
  "json_hex n = char_of (if n < 10 then 48 + n else 87 + n)"

definition escape_char :: "char \<Rightarrow> string" where
  "escape_char c =
     (if c = CHR 0x22 then [CHR 0x5C, CHR 0x22]
      else if c = CHR 0x5C then [CHR 0x5C, CHR 0x5C]
      else if c = CHR 0x0A then [CHR 0x5C, CHR ''n'']
      else if c = CHR 0x0D then [CHR 0x5C, CHR ''r'']
      else if c = CHR 0x09 then [CHR 0x5C, CHR ''t'']
      else if c = CHR 0x0C then [CHR 0x5C, CHR ''f'']
      else if c = CHR 0x08 then [CHR 0x5C, CHR ''b'']
      else if 32 \<le> (of_char c :: nat) \<and> (of_char c :: nat) < 127 then [c]
      else [CHR 0x5C, CHR ''u'', CHR ''0'', CHR ''0'', json_hex (of_char c div 16), json_hex (of_char c mod 16)])"

definition dump_string :: "string \<Rightarrow> string" where
  "dump_string s = CHR 0x22 # concat (map escape_char s) @ [CHR 0x22]"

fun dumps :: "val \<Rightarrow> string" where
  "dumps Nil_val = ''null''"
| "dumps (Flag b) = (if b then ''true'' else ''false'')"
| "dumps (Num n) = show_int n"
| "dumps (Frac s) = s"
| "dumps (Str s) = dump_string s"
| "dumps (Seq xs) = CHR ''['' # join_with '', '' (map dumps xs) @ '']''"
| "dumps (Dict d) = CHR ''{'' # join_with '', '' (map (\<lambda>(k, v). dump_string k @ '': '' @ dumps v) d) @ ''}''"

subsection \<open>Parsing\<close>

definition json_space :: "char \<Rightarrow> bool" where
  "json_space c \<longleftrightarrow> c \<in> {CHR 0x20, CHR 0x09, CHR 0x0A, CHR 0x0D}"

abbreviation skip :: "string \<Rightarrow> string" where
  "skip \<equiv> dropWhile json_space"

definition json_hex_val :: "char \<Rightarrow> nat option" where
  "json_hex_val c = (let n = of_char c :: nat in
     if 48 \<le> n \<and> n \<le> 57 then Some (n - 48)
     else if 97 \<le> n \<and> n \<le> 102 then Some (n - 87)
     else if 65 \<le> n \<and> n \<le> 70 then Some (n - 55) else None)"

definition simple_escape :: "char \<Rightarrow> char option" where
  "simple_escape c =
     (if c \<in> {CHR 0x22, CHR 0x5C, CHR ''/''} then Some c
      else if c = CHR ''n'' then Some (CHR 0x0A)
      else if c = CHR ''r'' then Some (CHR 0x0D)
      else if c = CHR ''t'' then Some (CHR 0x09)
      else if c = CHR ''f'' then Some (CHR 0x0C)
      else if c = CHR ''b'' then Some (CHR 0x08) else None)"

fun parse_string :: "string \<Rightarrow> (string \<times> string) option" where
  \<comment> \<open>after the opening quote\<close>
  "parse_string [] = None"
| "parse_string (c # cs) =
     (if c = CHR 0x22 then Some ([], cs)
      else if c = CHR 0x5C then
        (case cs of
           [] \<Rightarrow> None
         | e # es \<Rightarrow>
             if e = CHR ''u'' then
               (case es of
                  a # b # x # y # more \<Rightarrow>
                    (case (json_hex_val a, json_hex_val b, json_hex_val x, json_hex_val y) of
                       (Some 0, Some 0, Some m, Some n) \<Rightarrow> map_option (map_prod (Cons (char_of (16 * m + n))) id) (parse_string more)
                     | _ \<Rightarrow> None)
                | _ \<Rightarrow> None)
             else case simple_escape e of None \<Rightarrow> None | Some x \<Rightarrow> map_option (map_prod (Cons x) id) (parse_string es))
      else if (of_char c :: nat) < 32 then None
      else map_option (map_prod (Cons c) id) (parse_string cs))"

definition is_digit :: "char \<Rightarrow> bool" where
  "is_digit c \<longleftrightarrow> digit_val c \<noteq> None"

definition number_digits :: "string \<Rightarrow> string" where
  \<comment> \<open>a zero, or digits that do not start with a zero\<close>
  "number_digits s = (case s of [] \<Rightarrow> [] | c # cs \<Rightarrow> if c = CHR ''0'' then [c] else takeWhile is_digit s)"

definition fraction_part :: "string \<Rightarrow> string" where
  "fraction_part s =
     (case s of [] \<Rightarrow> [] | c # cs \<Rightarrow> if c = CHR ''.'' \<and> takeWhile is_digit cs \<noteq> [] then c # takeWhile is_digit cs else [])"

definition exponent_part :: "string \<Rightarrow> string" where
  "exponent_part s =
     (case s of
        [] \<Rightarrow> []
      | c # cs \<Rightarrow>
          (let sign = takeWhile (\<lambda>x. x \<in> {CHR ''+'', CHR ''-''}) (take 1 cs);
               ds = takeWhile is_digit (drop (length sign) cs) in
           if c \<in> {CHR ''e'', CHR ''E''} \<and> ds \<noteq> [] then c # sign @ ds else []))"

definition number_tail :: "string \<Rightarrow> string \<Rightarrow> string \<Rightarrow> (val \<times> string) option" where
  \<comment> \<open>after the sign and the digits\<close>
  "number_tail sign ds s =
     (let f = fraction_part s; t = drop (length f) s; e = exponent_part t in
      if f = [] \<and> e = [] then map_option (\<lambda>n. (Num (if sign \<noteq> [] then - n else n), s)) (digits_val 0 ds)
      else Some (Frac (sign @ ds @ f @ e), drop (length e) t))"

definition number_sign :: "string \<Rightarrow> string" where
  "number_sign s = (case s of [] \<Rightarrow> [] | c # cs \<Rightarrow> if c = CHR ''-'' then ''-'' else [])"

definition parse_number :: "string \<Rightarrow> (val \<times> string) option" where
  "parse_number s =
     (let sign = number_sign s; s1 = drop (length sign) s; ds = number_digits s1 in
      if ds = [] then None else number_tail sign ds (drop (length ds) s1))"

fun parse_value :: "nat \<Rightarrow> string \<Rightarrow> (val \<times> string) option"
  and parse_elements :: "nat \<Rightarrow> string \<Rightarrow> (val list \<times> string) option"
  and parse_members :: "nat \<Rightarrow> (string, val) dict \<Rightarrow> string \<Rightarrow> ((string, val) dict \<times> string) option" where
  "parse_value 0 s = None"
| "parse_value (Suc n) s =
     (case s of
        [] \<Rightarrow> None
      | c # cs \<Rightarrow>
          if c = CHR 0x22 then map_option (map_prod Str id) (parse_string cs)
          else if c = CHR ''{'' then
            (case skip cs of
               [] \<Rightarrow> None
             | d # ds \<Rightarrow> if d = CHR ''}'' then Some (Dict [], ds) else map_option (map_prod Dict id) (parse_members n [] (d # ds)))
          else if c = CHR ''['' then
            (case skip cs of
               [] \<Rightarrow> None
             | d # ds \<Rightarrow> if d = CHR '']'' then Some (Seq [], ds) else map_option (map_prod Seq id) (parse_elements n (d # ds)))
          else if take 4 s = ''null'' then Some (Nil_val, drop 4 s)
          else if take 4 s = ''true'' then Some (Flag True, drop 4 s)
          else if take 5 s = ''false'' then Some (Flag False, drop 5 s)
          else parse_number s)"
| "parse_elements 0 s = None"
| "parse_elements (Suc n) s =
     (case parse_value n s of
        None \<Rightarrow> None
      | Some (v, r) \<Rightarrow>
          (case skip r of
             [] \<Rightarrow> None
           | c # cs \<Rightarrow>
               if c = CHR '']'' then Some ([v], cs)
               else if c = CHR '','' then map_option (map_prod (Cons v) id) (parse_elements n (skip cs)) else None))"
| "parse_members 0 d s = None"
| "parse_members (Suc n) d s =
     (case s of
        [] \<Rightarrow> None
      | q # qs \<Rightarrow>
          if q \<noteq> CHR 0x22 then None
          else case parse_string qs of
            None \<Rightarrow> None
          | Some (k, r) \<Rightarrow>
              (case skip r of
                 [] \<Rightarrow> None
               | c # cs \<Rightarrow>
                   if c \<noteq> CHR '':'' then None
                   else case parse_value n (skip cs) of
                     None \<Rightarrow> None
                   | Some (v, r') \<Rightarrow>
                       (case skip r' of
                          [] \<Rightarrow> None
                        | x # xs \<Rightarrow>
                            if x = CHR ''}'' then Some (dict_set k v d, xs)
                            else if x = CHR '','' then parse_members n (dict_set k v d) (skip xs) else None)))"

definition loads :: "string \<Rightarrow> val result" where
  "loads s =
     (case parse_value (2 * length s + 2) (skip s) of
        Some (v, r) \<Rightarrow> if skip r = [] then Inr v else Inl ValueError
      | None \<Rightarrow> Inl ValueError)"

subsection \<open>What is printed is read back\<close>

definition digits_ok :: "string \<Rightarrow> bool" where
  "digits_ok ds \<longleftrightarrow> ds \<noteq> [] \<and> list_all is_digit ds"

definition fraction_ok :: "string \<Rightarrow> bool" where
  \<comment> \<open>the texts of numbers with a fraction or an exponent\<close>
  "fraction_ok s \<longleftrightarrow>
     (\<exists>sign ds f e. s = sign @ ds @ f @ e \<and> (f \<noteq> [] \<or> e \<noteq> []) \<and> sign \<in> {[], ''-''} \<and>
        digits_ok ds \<and> (hd ds = CHR ''0'' \<longrightarrow> length ds = 1) \<and>
        (f = [] \<or> (\<exists>x. f = CHR ''.'' # x \<and> digits_ok x)) \<and>
        (e = [] \<or> (\<exists>c g x. e = c # g @ x \<and> c \<in> {CHR ''e'', CHR ''E''} \<and> g \<in> {[], ''+'', ''-''} \<and> digits_ok x)))"

fun val_ok :: "val \<Rightarrow> bool" where
  \<comment> \<open>no dictionary has a key twice\<close>
  "val_ok (Frac s) = fraction_ok s"
| "val_ok (Seq xs) = list_all val_ok xs"
| "val_ok (Dict d) = (dict_ok d \<and> list_all (\<lambda>(k, v). val_ok v) d)"
| "val_ok _ = True"

lemma json_hex_val_hex: "n < 16 \<Longrightarrow> json_hex_val (json_hex n) = Some n"
  by (auto simp: json_hex_val_def json_hex_def Let_def)

lemma escape_hex:
  "\<not> (32 \<le> (of_char c :: nat) \<and> (of_char c :: nat) < 127) \<Longrightarrow>
   c \<notin> {CHR 0x22, CHR 0x5C, CHR 0x0A, CHR 0x0D, CHR 0x09, CHR 0x0C, CHR 0x08} \<Longrightarrow>
     escape_char c = [CHR 0x5C, CHR ''u'', CHR ''0'', CHR ''0'', json_hex (of_char c div 16), json_hex (of_char c mod 16)]"
  by (simp add: escape_char_def)

lemma parse_escaped: "parse_string (escape_char c @ r) = map_option (map_prod (Cons c) id) (parse_string r)"
proof (cases "c \<in> {CHR 0x22, CHR 0x5C, CHR 0x0A, CHR 0x0D, CHR 0x09, CHR 0x0C, CHR 0x08}")
  case True
  then show ?thesis by (auto simp: escape_char_def simple_escape_def)
next
  case False
  show ?thesis
  proof (cases "32 \<le> (of_char c :: nat) \<and> (of_char c :: nat) < 127")
    case True
    with False show ?thesis by (simp add: escape_char_def)
  next
    case out: False
    have "(of_char c :: nat) < 256" by (metis nat_of_char_less_256)
    then have h: "json_hex_val (json_hex (of_char c div 16)) = Some (of_char c div 16)" "json_hex_val (json_hex (of_char c mod 16)) = Some (of_char c mod 16)"
      by (simp_all add: json_hex_val_hex less_mult_imp_div_less)
    have z: "json_hex_val (CHR ''0'') = Some 0" by (simp add: json_hex_val_def Let_def)
    have "char_of (16 * (of_char c div 16 :: nat) + of_char c mod 16) = c" by simp
    with h z show ?thesis unfolding escape_hex [OF out False] by simp
  qed
qed

lemma parse_dumped_string: "parse_string (concat (map escape_char s) @ CHR 0x22 # r) = Some (s, r)"
  by (induction s) (simp_all add: parse_escaped)

lemma show_nat_acc_head: "0 < n \<Longrightarrow> n < fuel \<Longrightarrow> show_nat_acc fuel n [] \<noteq> [] \<and> hd (show_nat_acc fuel n []) \<noteq> CHR ''0''"
proof (induction fuel arbitrary: n)
  case (Suc fuel)
  show ?case
  proof (cases "n < 10")
    case True
    have "digit_val (CHR ''0'') = Some 0" by (simp add: digit_val_def Let_def)
    then have "char_of (48 + n) \<noteq> CHR ''0''" using Suc.prems(1) digit_val_char [OF True] by auto
    with True show ?thesis by simp
  next
    case False
    then have "0 < n div 10" "n div 10 < fuel" using Suc.prems by auto
    from Suc.IH [OF this] False show ?thesis
      using show_nat_acc_suffix [of fuel "n div 10" "[char_of (48 + n mod 10)]"] by simp
  qed
qed simp

lemma show_nat_head: "show_nat n \<noteq> [] \<and> (hd (show_nat n) = CHR ''0'' \<longrightarrow> n = 0) \<and> list_all is_digit (show_nat n)"
proof -
  have "list_all is_digit (show_nat n)" using show_nat_digits by (auto simp: list_all_iff is_digit_def)
  moreover have "show_nat n \<noteq> [] \<and> (hd (show_nat n) = CHR ''0'' \<longrightarrow> n = 0)"
    using show_nat_acc_head [of n "n + 1"] by (cases "n = 0") (auto simp: show_nat_def)
  ultimately show ?thesis by blast
qed

definition delimited :: "string \<Rightarrow> bool" where
  "delimited r \<longleftrightarrow> r = [] \<or> \<not> is_digit (hd r) \<and> hd r \<notin> {CHR ''.'', CHR ''e'', CHR ''E''}"

definition no_digit :: "string \<Rightarrow> bool" where
  "no_digit r \<longleftrightarrow> r = [] \<or> \<not> is_digit (hd r)"

lemma takeWhile_digits: "list_all is_digit ds \<Longrightarrow> no_digit r \<Longrightarrow> takeWhile is_digit (ds @ r) = ds"
  by (cases r) (auto simp: no_digit_def list_all_iff takeWhile_append2)

lemma number_digits_ok:
  assumes "digits_ok ds" "hd ds = CHR ''0'' \<longrightarrow> length ds = 1" "no_digit r"
  shows "number_digits (ds @ r) = ds"
proof -
  obtain c cs where ds: "ds = c # cs" using assms(1) by (cases ds) (auto simp: digits_ok_def)
  from takeWhile_digits [of ds r] assms show ?thesis by (auto simp: number_digits_def ds digits_ok_def)
qed

lemma not_digits: "\<not> is_digit (CHR ''.'')" "\<not> is_digit (CHR ''e'')" "\<not> is_digit (CHR ''E'')" "\<not> is_digit (CHR ''-'')" "\<not> is_digit (CHR ''+'')"
  by (simp_all add: is_digit_def digit_val_def Let_def)

lemma fraction_part_ok:
  "digits_ok x \<Longrightarrow> no_digit r \<Longrightarrow> fraction_part (CHR ''.'' # x @ r) = CHR ''.'' # x"
  "r = [] \<or> hd r \<noteq> CHR ''.'' \<Longrightarrow> fraction_part r = []"
  by (auto simp: fraction_part_def digits_ok_def takeWhile_digits split: list.splits)

lemma exponent_part_ok:
  assumes "c \<in> {CHR ''e'', CHR ''E''}" "g \<in> {[], ''+'', ''-''}" "digits_ok x" "no_digit r"
  shows "exponent_part (c # g @ x @ r) = c # g @ x"
proof -
  have x: "takeWhile is_digit (x @ r) = x" "x \<noteq> []" using assms(3,4) by (simp_all add: takeWhile_digits digits_ok_def)
  have "hd x \<notin> {CHR ''+'', CHR ''-''}" using assms(3) not_digits by (cases x) (auto simp: digits_ok_def)
  then have "takeWhile (\<lambda>y. y \<in> {CHR ''+'', CHR ''-''}) (take 1 (g @ x @ r)) = g" using assms(2) x(2) by (cases x) auto
  with x assms(1) show ?thesis by (auto simp: exponent_part_def Let_def)
qed

lemma exponent_part_none: "r = [] \<or> hd r \<notin> {CHR ''e'', CHR ''E''} \<Longrightarrow> exponent_part r = []"
  by (auto simp: exponent_part_def Let_def split: list.splits)

lemma sign_ok: "sign \<in> {[], ''-''} \<Longrightarrow> digits_ok ds \<Longrightarrow> number_sign (sign @ ds @ r) = sign"
  using not_digits(4) by (cases ds) (auto simp: digits_ok_def number_sign_def)

lemma parse_fraction:
  assumes "fraction_ok s" "delimited r"
  shows "parse_number (s @ r) = Some (Frac s, r)"
proof -
  obtain sign ds f e where s: "s = sign @ ds @ f @ e" "f \<noteq> [] \<or> e \<noteq> []" "sign \<in> {[], ''-''}" "digits_ok ds" "hd ds = CHR ''0'' \<longrightarrow> length ds = 1"
    "f = [] \<or> (\<exists>x. f = CHR ''.'' # x \<and> digits_ok x)"
    "e = [] \<or> (\<exists>c g x. e = c # g @ x \<and> c \<in> {CHR ''e'', CHR ''E''} \<and> g \<in> {[], ''+'', ''-''} \<and> digits_ok x)"
    using assms(1) unfolding fraction_ok_def by blast
  have r: "no_digit r" "r = [] \<or> hd r \<notin> {CHR ''.'', CHR ''e'', CHR ''E''}" using assms(2) by (auto simp: delimited_def no_digit_def)
  have er: "no_digit (e @ r)" "e @ r = [] \<or> hd (e @ r) \<noteq> CHR ''.''" using s(7) r not_digits by (auto simp: no_digit_def)
  have ee: "exponent_part (e @ r) = e"
  proof (cases "e = []")
    case True
    with r(2) exponent_part_none [of r] show ?thesis by auto
  next
    case False
    then obtain c g x where "e = c # g @ x" "c \<in> {CHR ''e'', CHR ''E''}" "g \<in> {[], ''+'', ''-''}" "digits_ok x" using s(7) by blast
    with exponent_part_ok [of c g x r] r(1) show ?thesis by simp
  qed
  have fr: "no_digit (f @ e @ r)" using s(6) er not_digits by (auto simp: no_digit_def)
  have ff: "fraction_part (f @ e @ r) = f" using s(6) er fraction_part_ok(1) [of _ "e @ r"] fraction_part_ok(2) [of "e @ r"] by auto
  have "number_digits (ds @ f @ e @ r) = ds" by (rule number_digits_ok [OF s(4,5) fr])
  moreover have "number_sign (sign @ ds @ f @ e @ r) = sign" by (rule sign_ok [OF s(3,4)])
  moreover have "ds \<noteq> []" using s(4) by (simp add: digits_ok_def)
  ultimately show ?thesis using s(1,2) ee ff by (simp add: parse_number_def number_tail_def Let_def)
qed

lemma fraction_chars:
  assumes "fraction_ok s"
  shows "s \<noteq> []" "is_digit (hd s) \<or> hd s = CHR ''-''" "\<forall>c\<in>set s. is_digit c \<or> c \<in> {CHR ''-'', CHR ''.'', CHR ''e'', CHR ''E'', CHR ''+''}"
  using assms unfolding fraction_ok_def digits_ok_def
  by (auto simp: list_all_iff hd_append)

lemma show_nat_ok: "digits_ok (show_nat n)" "hd (show_nat n) = CHR ''0'' \<longrightarrow> length (show_nat n) = 1"
proof -
  show "digits_ok (show_nat n)" using show_nat_head [of n] by (simp add: digits_ok_def)
  have "length (show_nat 0) = 1" by (simp add: show_nat_def)
  then show "hd (show_nat n) = CHR ''0'' \<longrightarrow> length (show_nat n) = 1" using show_nat_head [of n] by auto
qed

lemma parse_shown_number: "delimited r \<Longrightarrow> parse_number (show_int n @ r) = Some (Num n, r)"
proof -
  assume r: "delimited r"
  let ?ds = "show_nat (nat \<bar>n\<bar>)" and ?sign = "if n < 0 then ''-'' else []"
  have s: "show_int n = ?sign @ ?ds" by (simp add: show_int_def)
  have "number_digits (?ds @ r) = ?ds" using show_nat_ok r by (intro number_digits_ok) (auto simp: delimited_def no_digit_def)
  moreover have "number_sign (?sign @ ?ds @ r) = ?sign" by (rule sign_ok) (simp_all add: show_nat_ok)
  moreover have "fraction_part r = []" "exponent_part r = []" using r by (auto simp: delimited_def intro: fraction_part_ok(2) exponent_part_none)
  ultimately show ?thesis using digits_show_nat [of "nat \<bar>n\<bar>"] show_nat_ok [of "nat \<bar>n\<bar>"]
    by (simp add: s parse_number_def number_tail_def Let_def digits_ok_def)
qed

lemma digit_char: "is_digit c \<or> c = CHR ''-'' \<Longrightarrow>
    \<not> json_space c \<and> c \<notin> {CHR '']'', CHR ''}'', CHR '','', CHR 0x22, CHR ''{'', CHR ''['', CHR ''n'', CHR ''t'', CHR ''f''}"
  by (auto simp: is_digit_def digit_val_def Let_def json_space_def)

lemma show_int_head: "\<exists>c cs. show_int n = c # cs \<and> (is_digit c \<or> c = CHR ''-'')"
  using show_nat_head [of "nat \<bar>n\<bar>"] by (cases "show_nat (nat \<bar>n\<bar>)") (auto simp: show_int_def)

lemma dumps_head: "val_ok v \<Longrightarrow> \<exists>c cs. dumps v = c # cs \<and> \<not> json_space c \<and> c \<notin> {CHR '']'', CHR ''}'', CHR '',''}"
proof (cases v)
  case (Num n)
  with show_int_head [of n] show ?thesis using digit_char by auto
next
  case (Frac s)
  moreover assume "val_ok v"
  ultimately show ?thesis using fraction_chars(1,2) [of s] digit_char [of "hd s"] by (cases s) auto
qed (auto simp: dump_string_def json_space_def)

lemma skip_dumps: "val_ok v \<Longrightarrow> skip (dumps v @ r) = dumps v @ r"
  using dumps_head [of v] by auto

lemma skip_joined: "xs \<noteq> [] \<Longrightarrow> val_ok (hd xs) \<Longrightarrow> skip (join_with sep (map dumps xs) @ r) = join_with sep (map dumps xs) @ r"
  using dumps_head [of "hd xs"] by (cases xs rule: list.exhaust; cases "tl xs") auto

lemma delimited_Cons: "delimited (CHR '']'' # r)" "delimited (CHR '','' # r)" "delimited (CHR ''}'' # r)"
  by (simp_all add: delimited_def is_digit_def digit_val_def Let_def)

lemma parse_joined:
  assumes "\<And>x n r. x \<in> set xs \<Longrightarrow> delimited r \<Longrightarrow> length (dumps x) < n \<Longrightarrow> parse_value n (dumps x @ r) = Some (x, r)"
    and "xs \<noteq> []" "list_all val_ok xs" "length (join_with '', '' (map dumps xs)) + 1 < n"
  shows "parse_elements n (join_with '', '' (map dumps xs) @ CHR '']'' # r) = Some (xs, r)"
  using assms
proof (induction xs arbitrary: n)
  case (Cons x xs)
  obtain m where n: "n = Suc m" using Cons.prems(4) by (cases n) auto
  show ?case
  proof (cases xs)
    case Nil
    then have "parse_value m (dumps x @ CHR '']'' # r) = Some (x, CHR '']'' # r)"
      using Cons.prems n by (intro Cons.prems(1)) (auto simp: delimited_Cons)
    with Nil n show ?thesis by (simp add: json_space_def)
  next
    case (Cons y ys)
    let ?rest = "join_with '', '' (map dumps xs) @ CHR '']'' # r"
    have x: "parse_value m (dumps x @ CHR '','' # CHR '' '' # ?rest) = Some (x, CHR '','' # CHR '' '' # ?rest)"
      using Cons.prems n Cons by (intro Cons.prems(1)) (auto simp: delimited_Cons)
    have "parse_elements m ?rest = Some (xs, r)"
      using Cons.prems n Cons by (intro Cons.IH) auto
    moreover have "skip (CHR '' '' # ?rest) = ?rest" using skip_joined [of xs "'', ''"] Cons Cons.prems(3) by (simp add: json_space_def)
    ultimately show ?thesis using x n Cons by (simp add: json_space_def)
  qed
qed simp

abbreviation dump_member :: "string \<times> val \<Rightarrow> string" where
  "dump_member \<equiv> \<lambda>(k, v). dump_string k @ '': '' @ dumps v"

lemma dump_member_head: "\<exists>cs. dump_member e = CHR 0x22 # cs"
  by (cases e) (simp add: dump_string_def)

lemma skip_members: "es \<noteq> [] \<Longrightarrow> skip (join_with sep (map dump_member es) @ r) = join_with sep (map dump_member es) @ r"
  using dump_member_head [of "hd es"] by (cases es rule: list.exhaust; cases "tl es") (auto simp: json_space_def)

lemma parse_member:
  assumes "parse_value m (dumps v @ c # r) = Some (v, c # r)" "\<not> json_space c" "val_ok v"
  shows "parse_members (Suc m) d (dump_member (k, v) @ c # r) =
    (if c = CHR ''}'' then Some (dict_set k v d, r) else if c = CHR '','' then parse_members m (dict_set k v d) (skip r) else None)"
  using assms skip_dumps [OF assms(3)] parse_dumped_string [of k "CHR '':'' # CHR '' '' # dumps v @ c # r"]
  by (simp add: dump_string_def json_space_def)

lemma parse_joined_members:
  assumes "\<And>k v n r. (k, v) \<in> set es \<Longrightarrow> delimited r \<Longrightarrow> length (dumps v) < n \<Longrightarrow> parse_value n (dumps v @ r) = Some (v, r)"
    and "es \<noteq> []" "dict_ok (d @ es)" "list_all (\<lambda>(k, v). val_ok v) es" "length (join_with '', '' (map dump_member es)) + 1 < n"
  shows "parse_members n d (join_with '', '' (map dump_member es) @ CHR ''}'' # r) = Some (d @ es, r)"
  using assms
proof (induction es arbitrary: n d)
  case (Cons e es)
  obtain k v where e: "e = (k, v)" by fastforce
  obtain m where n: "n = Suc m" using Cons.prems(5) by (cases n) auto
  have ok: "val_ok v" using Cons.prems(4) e by simp
  have new: "dict_set k v d = d @ [(k, v)]" using Cons.prems(3) e by (intro dict_set_fresh) auto
  have long: "length (dumps v) < length (dump_member e)" by (simp add: e)
  show ?case
  proof (cases es)
    case Nil
    then have "parse_value m (dumps v @ CHR ''}'' # r) = Some (v, CHR ''}'' # r)"
      using Cons.prems n e long by (intro Cons.prems(1)) (auto simp: delimited_Cons)
    from parse_member [OF this, of d k] ok Nil n e new show ?thesis by (simp add: json_space_def)
  next
    case (Cons y ys)
    let ?rest = "join_with '', '' (map dump_member es) @ CHR ''}'' # r"
    have x: "parse_value m (dumps v @ CHR '','' # CHR '' '' # ?rest) = Some (v, CHR '','' # CHR '' '' # ?rest)"
      using Cons.prems n Cons e long by (intro Cons.prems(1)) (auto simp: delimited_Cons)
    have "parse_members m (d @ [(k, v)]) ?rest = Some ((d @ [(k, v)]) @ es, r)"
      using Cons.prems n Cons e by (intro Cons.IH) auto
    moreover have "skip (CHR '' '' # ?rest) = ?rest" using skip_members [of es "'', ''"] Cons by (simp add: json_space_def)
    moreover have "join_with '', '' (map dump_member (e # es)) = dump_member e @ '', '' @ join_with '', '' (map dump_member es)"
      using Cons by simp
    ultimately show ?thesis using parse_member [OF x, of d k] ok n e new by (simp add: json_space_def)
  qed
qed simp

lemma parse_dumped: "val_ok v \<Longrightarrow> delimited r \<Longrightarrow> length (dumps v) < n \<Longrightarrow> parse_value n (dumps v @ r) = Some (v, r)"
proof (induction v arbitrary: n r)
  case (Num k)
  then obtain m where n: "n = Suc m" by (cases n) auto
  obtain x xs where x: "show_int k = x # xs" "is_digit x \<or> x = CHR ''-''" using show_int_head by blast
  with parse_shown_number [OF Num(2), of k] digit_char [OF x(2)] show ?case by (simp add: n)
next
  case (Frac s)
  then obtain m where n: "n = Suc m" by (cases n) auto
  obtain x xs where x: "s = x # xs" "is_digit x \<or> x = CHR ''-''" using fraction_chars(1,2) [of s] Frac.prems(1) by (cases s) auto
  with parse_fraction [of s r] Frac.prems digit_char [OF x(2)] show ?case by (simp add: n)
next
  case (Str s)
  then obtain m where "n = Suc m" by (cases n) auto
  then show ?case by (simp add: dump_string_def parse_dumped_string)
next
  case (Seq xs)
  then obtain m where n: "n = Suc m" by (cases n) auto
  show ?case
  proof (cases xs)
    case (Cons y ys)
    have "parse_elements m (join_with '', '' (map dumps xs) @ CHR '']'' # r) = Some (xs, r)"
      using Seq Cons n by (intro parse_joined) (auto simp: list_all_iff)
    moreover obtain c cs where "join_with '', '' (map dumps xs) = c # cs" "\<not> json_space c" "c \<noteq> CHR '']''"
      using dumps_head [of y] Cons Seq.prems(1) by (cases ys) auto
    ultimately show ?thesis by (simp add: n)
  qed (simp add: n json_space_def)
next
  case (Dict d)
  then obtain m where n: "n = Suc m" by (cases n) auto
  show ?case
  proof (cases d)
    case (Cons y ys)
    have ih: "parse_value n (dumps v @ r) = Some (v, r)" if "(k, v) \<in> set d" "delimited r" "length (dumps v) < n" for k v n r
      using Dict.IH [of "(k, v)" v r n] Dict.prems(1) that by (auto simp: list_all_iff)
    have "parse_members m [] (join_with '', '' (map dump_member d) @ CHR ''}'' # r) = Some ([] @ d, r)"
      using Dict.prems Cons n by (intro parse_joined_members ih) auto
    moreover obtain cs where "join_with '', '' (map dump_member d) = CHR 0x22 # cs"
      using dump_member_head [of y] Cons by (cases ys) auto
    ultimately show ?thesis by (simp add: n json_space_def)
  qed (simp add: n json_space_def)
qed (auto simp: gr0_conv_Suc Suc_less_eq2)

lemma loads_dumps: "val_ok v \<Longrightarrow> loads (dumps v) = Inr v"
proof -
  assume ok: "val_ok v"
  then have "parse_value (2 * length (dumps v) + 2) (dumps v @ []) = Some (v, [])" by (intro parse_dumped) (simp_all add: delimited_def)
  moreover have "skip (dumps v) = dumps v" using skip_dumps [OF ok, of "[]"] by simp
  ultimately show ?thesis by (simp add: loads_def)
qed

lemma escape_no_newline: "CHR 0x0A \<notin> set (escape_char c)"
proof -
  have "json_hex n \<noteq> CHR 0x0A" if "n < 16" for n using that json_hex_val_hex [OF that] by (auto simp: json_hex_val_def Let_def)
  moreover have "(of_char c :: nat) div 16 < 16" by (metis nat_of_char_less_256 less_mult_imp_div_less numeral_times_numeral semiring_norm(12) semiring_norm(13))
  ultimately have "json_hex (of_char c div 16) \<noteq> CHR 0x0A" "json_hex (of_char c mod 16) \<noteq> CHR 0x0A" by simp_all
  then show ?thesis by (auto simp: escape_char_def)
qed

lemma join_no_newline: "\<forall>x\<in>set xs. CHR 0x0A \<notin> set x \<Longrightarrow> CHR 0x0A \<notin> set (join_with '', '' xs)"
  by (induction "'', ''" xs rule: join_with.induct) auto

lemma dumps_no_newline: "val_ok v \<Longrightarrow> CHR 0x0A \<notin> set (dumps v)"
proof (induction v)
  case (Num n)
  have "\<not> is_digit (CHR 0x0A)" by (simp add: is_digit_def digit_val_def Let_def)
  then have "CHR 0x0A \<notin> set (show_nat m)" for m using show_nat_head [of m] by (auto simp: list_all_iff)
  then show ?case by (simp add: show_int_def)
next
  case (Frac s)
  have "\<not> is_digit (CHR 0x0A)" by (simp add: is_digit_def digit_val_def Let_def)
  with fraction_chars(3) [of s] Frac show ?case by auto
next
  case (Seq xs)
  then show ?case using join_no_newline [of "map dumps xs"] by (auto simp: list_all_iff)
next
  case (Dict d)
  have "CHR 0x0A \<notin> set (dumps v)" if "(k, v) \<in> set d" for k v
    using Dict.IH [of "(k, v)" v] Dict.prems that by (auto simp: list_all_iff)
  then have "\<forall>x\<in>set (map dump_member d). CHR 0x0A \<notin> set x" by (auto simp: dump_string_def escape_no_newline)
  then show ?case using join_no_newline [of "map dump_member d"] by auto
qed (auto simp: dump_string_def escape_no_newline)

text \<open>The bound on the calls is never reached: a higher one makes no difference.\<close>

lemma parse_string_shorter: "parse_string s = Some (x, r) \<Longrightarrow> length r < length s"
proof (induction s arbitrary: x rule: parse_string.induct)
  case (2 c cs)
  then show ?case by (auto split: if_splits list.splits option.splits prod.splits nat.splits) fastforce+
qed simp

lemma number_digits_prefix: "number_digits s \<noteq> [] \<Longrightarrow> length (drop (length (number_digits s)) s) < length s"
  by (auto simp: number_digits_def split: list.splits)

lemma number_tail_shorter: "number_tail sign ds s = Some (x, r) \<Longrightarrow> length r \<le> length s"
  by (auto simp: number_tail_def Let_def split: if_splits)

lemma parse_number_shorter: "parse_number s = Some (x, r) \<Longrightarrow> length r < length s"
  using number_tail_shorter [of "number_sign s" "number_digits (drop (length (number_sign s)) s)"]
    number_digits_prefix [of "drop (length (number_sign s)) s"]
  by (fastforce simp: parse_number_def Let_def split: if_splits)

lemma skip_Cons: "skip s = c # cs \<Longrightarrow> length cs < length s"
  by (metis length_Cons length_dropWhile_le less_eq_Suc_le)

lemma parse_shorter:
  "parse_value n s = Some (v, r) \<Longrightarrow> length r < length s"
  "parse_elements n s = Some (vs, r) \<Longrightarrow> length r < length s"
  "parse_members n d s = Some (e, r) \<Longrightarrow> length r < length s"
proof (induction n s and n s and n d s arbitrary: v r and vs r and e r rule: parse_value_parse_elements_parse_members.induct)
  case (2 n s)
  show ?case
  proof (cases s)
    case (Cons c cs)
    then show ?thesis using 2
      by (auto split: if_splits list.splits dest!: parse_string_shorter parse_number_shorter skip_Cons) fastforce+
  qed (use 2 in simp)
next
  case (4 n s)
  obtain x r1 where x: "parse_value n s = Some (x, r1)" using 4(3) by (auto split: option.splits)
  obtain c cs where c: "skip r1 = c # cs" using 4(3) x by (auto split: list.splits)
  have l: "length cs < length s" using 4(1) [OF x] skip_Cons [OF c] by simp
  show ?case
  proof (cases "c = CHR '']''")
    case True
    with 4(3) x c l show ?thesis by simp
  next
    case False
    then obtain ys where "parse_elements n (skip cs) = Some (ys, r)" "c = CHR '',''" using 4(3) x c by (auto split: if_splits)
    with 4(2) [OF x refl c False] l length_dropWhile_le [of json_space cs] show ?thesis by fastforce
  qed
next
  case (6 n d s)
  obtain qs where q: "s = CHR 0x22 # qs" using 6(3) by (auto split: list.splits if_splits)
  obtain k r1 where k: "parse_string qs = Some (k, r1)" using 6(3) q by (auto split: option.splits)
  obtain cs where c: "skip r1 = CHR '':'' # cs" using 6(3) q k by (auto split: list.splits if_splits)
  obtain x r2 where x: "parse_value n (skip cs) = Some (x, r2)" using 6(3) q k c by (auto split: option.splits)
  obtain y ys where y: "skip r2 = y # ys" using 6(3) q k c x by (auto split: list.splits)
  have "length r2 < length (skip cs)" using 6(1) [OF q _ k] c x by simp
  then have l: "length ys < length s"
    using parse_string_shorter [OF k] skip_Cons [OF c] length_dropWhile_le [of json_space cs] skip_Cons [OF y] q by simp
  show ?case
  proof (cases "y = CHR ''}''")
    case True
    with 6(3) q k c x y l show ?thesis by simp
  next
    case False
    then have "parse_members n (dict_set k x d) (skip ys) = Some (e, r)" "y = CHR '',''" using 6(3) q k c x y by (auto split: if_splits)
    with 6(2) [OF q _ k] c x y l length_dropWhile_le [of json_space ys] show ?thesis by fastforce
  qed
qed simp_all

lemma parse_fuel:
  "2 * length s < n \<Longrightarrow> parse_value (Suc n) s = parse_value n s"
  "2 * length s + 1 < n \<Longrightarrow> parse_elements (Suc n) s = parse_elements n s"
  "2 * length s < n \<Longrightarrow> parse_members (Suc n) d s = parse_members n d s"
proof (induction n s and n s and n d s rule: parse_value_parse_elements_parse_members.induct)
  case (2 n s)
  show ?case
  proof (cases s)
    case (Cons c cs)
    have small: "2 * length (skip cs) + 1 < n" using 2(3) Cons length_dropWhile_le [of json_space cs] by simp
    have e: "parse_elements (Suc n) (skip cs) = parse_elements n (skip cs)" if "c = CHR ''[''" "skip cs = d # ds" "d \<noteq> CHR '']''" for d ds
      using 2(2) [OF Cons] that small by simp
    have m: "parse_members (Suc n) [] (skip cs) = parse_members n [] (skip cs)" if "c = CHR ''{''" "skip cs = d # ds" "d \<noteq> CHR ''}''" for d ds
      using 2(1) [OF Cons] that small by simp
    show ?thesis
      by (cases "skip cs") (use e m in \<open>auto simp: Cons simp del: parse_elements.simps parse_members.simps dropWhile_eq_Nil_conv\<close>)
  qed simp
next
  case (4 n s)
  have v: "parse_value (Suc n) s = parse_value n s" using 4 by simp
  have e: "parse_elements (Suc n) (skip cs) = parse_elements n (skip cs)" if "parse_value n s = Some (x, r)" "skip r = CHR '','' # cs" for x r cs
    using 4(2) [OF that(1) refl that(2)] 4(3) parse_shorter(1) [OF that(1)] skip_Cons [OF that(2)] length_dropWhile_le [of json_space cs] by simp
  show ?case
  proof (cases "parse_value n s")
    case (Some p)
    obtain x r where p: "p = (x, r)" by fastforce
    show ?thesis
    proof (cases "skip r")
      case (Cons c cs)
      then have "c = CHR '','' \<Longrightarrow> parse_elements (Suc n) (skip cs) = parse_elements n (skip cs)" using e Some p by simp
      then show ?thesis unfolding parse_elements.simps(2) [of n] parse_elements.simps(2) [of "Suc n"] v using Some p Cons by simp
    qed (unfold parse_elements.simps(2) [of n] parse_elements.simps(2) [of "Suc n"] v, use Some p in \<open>simp del: dropWhile_eq_Nil_conv\<close>)
  qed (unfold parse_elements.simps(2) [of n] parse_elements.simps(2) [of "Suc n"] v, simp)
next
  case (6 n d s)
  have v: "parse_value (Suc n) (skip cs) = parse_value n (skip cs)" if "s = CHR 0x22 # qs" "parse_string qs = Some (k, r)" "skip r = CHR '':'' # cs" for qs k r cs
    using 6(1) [OF that(1) _ that(2)] that 6(3) parse_string_shorter [OF that(2)] skip_Cons [OF that(3)] length_dropWhile_le [of json_space cs] by simp
  have m: "parse_members (Suc n) (dict_set k x d) (skip xs) = parse_members n (dict_set k x d) (skip xs)"
    if "s = CHR 0x22 # qs" "parse_string qs = Some (k, r)" "skip r = CHR '':'' # cs" "parse_value n (skip cs) = Some (x, r')" "skip r' = CHR '','' # xs"
    for qs k r cs x r' xs
    using 6(2) [OF that(1) _ that(2)] that 6(3) parse_string_shorter [OF that(2)] skip_Cons [OF that(3)] length_dropWhile_le [of json_space cs]
      parse_shorter(1) [OF that(4)] skip_Cons [OF that(5)] length_dropWhile_le [of json_space xs] by simp
  note unfold = parse_members.simps(2) [of n] parse_members.simps(2) [of "Suc n"]
  show ?case
  proof (cases "\<exists>qs k r cs. s = CHR 0x22 # qs \<and> parse_string qs = Some (k, r) \<and> skip r = CHR '':'' # cs")
    case True
    then obtain qs k r cs where q: "s = CHR 0x22 # qs" "parse_string qs = Some (k, r)" "skip r = CHR '':'' # cs" by blast
    note v = v [OF q]
    show ?thesis
    proof (cases "\<exists>x r' xs. parse_value n (skip cs) = Some (x, r') \<and> skip r' = CHR '','' # xs")
      case True
      then obtain x r' xs where x: "parse_value n (skip cs) = Some (x, r')" "skip r' = CHR '','' # xs" by blast
      from m [OF q x] show ?thesis unfolding unfold using q v x by simp
    next
      case False
      then show ?thesis unfolding unfold using q v
        by (auto split: option.split list.split simp del: dropWhile_eq_Nil_conv parse_string.simps parse_value.simps parse_members.simps)
    qed
  next
    case False
    have "parse_members (Suc m) d s = None" for m
      unfolding parse_members.simps(2) [of m] using False
      by (auto split: option.split list.split simp del: dropWhile_eq_Nil_conv parse_string.simps parse_value.simps parse_members.simps)
    then show ?thesis by metis
  qed
qed simp_all

lemma loads_fuel: "2 * length s + 2 \<le> n \<Longrightarrow> parse_value n (skip s) = parse_value (2 * length s + 2) (skip s)"
proof (induction rule: dec_induct)
  case (step n)
  then show ?case using parse_fuel(1) [of "skip s" n] length_dropWhile_le [of json_space s] by simp
qed simp

text \<open>What is read has no key twice.\<close>

lemma takeWhile_digits_ok: "takeWhile is_digit s \<noteq> [] \<Longrightarrow> digits_ok (takeWhile is_digit s)"
  by (auto simp: digits_ok_def list_all_iff dest: set_takeWhileD)

lemma number_digits_shape:
  "number_digits s \<noteq> [] \<Longrightarrow> digits_ok (number_digits s) \<and> (hd (number_digits s) = CHR ''0'' \<longrightarrow> length (number_digits s) = 1)"
proof (cases s)
  case (Cons c cs)
  assume "number_digits s \<noteq> []"
  moreover have "is_digit (CHR ''0'')" by (simp add: is_digit_def digit_val_def Let_def)
  ultimately show ?thesis using Cons takeWhile_digits_ok [of s]
    by (auto simp: number_digits_def digits_ok_def split: if_splits)
qed (simp add: number_digits_def)

lemma fraction_part_shape: "fraction_part s = [] \<or> (\<exists>x. fraction_part s = CHR ''.'' # x \<and> digits_ok x)"
  by (auto simp: fraction_part_def takeWhile_digits_ok split: list.splits)

lemma exponent_part_shape:
  "exponent_part s = [] \<or> (\<exists>c g x. exponent_part s = c # g @ x \<and> c \<in> {CHR ''e'', CHR ''E''} \<and> g \<in> {[], ''+'', ''-''} \<and> digits_ok x)"
proof (cases s)
  case (Cons c cs)
  let ?g = "takeWhile (\<lambda>x. x \<in> {CHR ''+'', CHR ''-''}) (take 1 cs)"
  have "?g \<in> {[], ''+'', ''-''}" by (cases cs) auto
  moreover have "exponent_part s = (if c \<in> {CHR ''e'', CHR ''E''} \<and> takeWhile is_digit (drop (length ?g) cs) \<noteq> []
      then c # ?g @ takeWhile is_digit (drop (length ?g) cs) else [])"
    by (simp add: Cons exponent_part_def Let_def del: One_nat_def)
  ultimately show ?thesis using takeWhile_digits_ok by (metis (no_types, lifting))
qed (simp add: exponent_part_def)

lemma number_tail_ok:
  assumes "number_tail sign ds t = Some (v, r)" "sign \<in> {[], ''-''}" "digits_ok ds" "hd ds = CHR ''0'' \<longrightarrow> length ds = 1"
  shows "val_ok v"
proof -
  let ?f = "fraction_part t" and ?e = "exponent_part (drop (length (fraction_part t)) t)"
  show ?thesis
  proof (cases "?f = [] \<and> ?e = []")
    case True
    with assms(1) show ?thesis by (auto simp: number_tail_def Let_def)
  next
    case False
    with assms fraction_part_shape [of t] exponent_part_shape [of "drop (length ?f) t"] have "fraction_ok (sign @ ds @ ?f @ ?e)"
      unfolding fraction_ok_def by blast
    with False assms(1) show ?thesis by (auto simp: number_tail_def Let_def split: if_splits)
  qed
qed

lemma parse_number_ok: "parse_number s = Some (v, r) \<Longrightarrow> val_ok v"
proof -
  assume p: "parse_number s = Some (v, r)"
  let ?ds = "number_digits (drop (length (number_sign s)) s)"
  have ds: "?ds \<noteq> []" and tail: "number_tail (number_sign s) ?ds (drop (length ?ds) (drop (length (number_sign s)) s)) = Some (v, r)"
    using p by (auto simp: parse_number_def Let_def split: if_splits)
  have "number_sign s \<in> {[], ''-''}" by (auto simp: number_sign_def split: list.splits)
  with number_digits_shape [OF ds] number_tail_ok [OF tail] show ?thesis by blast
qed

lemma dict_set_values: "list_all (\<lambda>(k, v). P v) d \<Longrightarrow> P v \<Longrightarrow> list_all (\<lambda>(k, v). P v) (dict_set k v d)"
  by (induction d) auto

lemma parse_ok:
  "parse_value n s = Some (v, r) \<Longrightarrow> val_ok v"
  "parse_elements n s = Some (vs, r) \<Longrightarrow> list_all val_ok vs"
  "parse_members n d s = Some (e, r) \<Longrightarrow> val_ok (Dict d) \<Longrightarrow> val_ok (Dict e)"
proof (induction n s and n s and n d s arbitrary: v r and vs r and e r rule: parse_value_parse_elements_parse_members.induct)
  case (2 n s)
  then show ?case by (cases s) (auto split: if_splits list.splits dest: parse_number_ok)
next
  case (4 n s)
  then show ?case by (auto split: if_splits list.splits option.splits)
next
  case (6 n d s)
  then show ?case by (auto split: if_splits list.splits option.splits simp: dict_set_values)
qed simp_all

lemma loads_ok: "loads s = Inr v \<Longrightarrow> val_ok v"
  by (auto simp: loads_def simp del: parse_value.simps split: option.splits prod.splits if_splits dest: parse_ok(1))

end
