(* ===== verification/Faucet_Events.thy ===== *)
theory Faucet_Events
  imports Py_Json Py_Regex Threads
begin

text \<open>
  \<open>daq/faucet_event_client.py\<close>: the events of the FAUCET controller, read as lines of JSON from a
  socket, and the debouncing of the states of ports: a port that goes down is reported only when it
  stays down for some seconds. The timers are threads; \<open>fe_pending\<close> has the ones that were started and
  neither ran nor were cancelled, with the time they run at; a cancelled timer
  does not run any more (the moment in which a timer has fired and not yet queued its event, when
  \<open>Timer.cancel\<close> comes too late, is not modelled). \<open>fe_incoming\<close> has what the socket delivers
  without waiting, the empty string when the other side has closed it.
\<close>

subsection \<open>State\<close>

record port_timer =
  pt_id :: nat
  pt_time :: int
  pt_dpid :: val
  pt_port :: int
  pt_active :: val

record faucet_client =
  fe_buffer :: string
  fe_incoming :: "string list"
  fe_debounced_q :: "val list"
  fe_previous_state :: "(string, val) dict"
  fe_debounce_sec :: int
  fe_port_timers :: "(string, nat) dict"
  fe_pending :: "port_timer list"
  fe_next_id :: nat

type_synonym 'a faucet_op = "(faucet_client, 'a) op"

definition new_client :: "int \<Rightarrow> faucet_client" where
  "new_client debounce_sec =
     \<lparr>fe_buffer = [], fe_incoming = [], fe_debounced_q = [], fe_previous_state = [], fe_debounce_sec = debounce_sec,
      fe_port_timers = [], fe_pending = [], fe_next_id = 0\<rparr>"

subsection \<open>Reading events\<close>

fun val_index :: "val \<Rightarrow> string \<Rightarrow> val result" where
  \<comment> \<open>\<open>v['k']\<close>\<close>
  "val_index (Dict d) k = dict_index d k"
| "val_index _ k = Inl TypeError"

definition contains_text :: "string \<Rightarrow> string \<Rightarrow> bool" where
  "contains_text k s = list_ex (\<lambda>i. take (length k) (drop i s) = k) [0..<Suc (length s)]"

fun val_contains :: "val \<Rightarrow> string \<Rightarrow> bool result" where
  \<comment> \<open>\<open>'k' in v\<close>\<close>
  "val_contains (Dict d) k = Inr (k \<in> set (dict_keys d))"
| "val_contains (Seq xs) k = Inr (Str k \<in> set xs)"
| "val_contains (Str s) k = Inr (contains_text k s)"
| "val_contains _ k = Inl TypeError"

definition if_key :: "val \<Rightarrow> string \<Rightarrow> (val \<Rightarrow> val \<Rightarrow> 'a result) \<Rightarrow> 'a option result" where
  \<comment> \<open>what the conversions share: nothing without the key, otherwise the data path and the entry\<close>
  "if_key event key f =
     (if \<not> truth event then Inr None
      else bind_result (val_contains event key) (\<lambda>b.
        if \<not> b then Inr None
        else bind_result (val_index event ''dp_id'') (\<lambda>dpid. bind_result (val_index event key) (\<lambda>e. bind_result (f dpid e) (\<lambda>x. Inr (Some x))))))"

definition and_val :: "val \<Rightarrow> bool \<Rightarrow> val" where
  \<comment> \<open>\<open>v and b\<close>\<close>
  "and_val v b = (if truth v then Flag b else v)"

definition as_port_state :: "val \<Rightarrow> (val \<times> int \<times> val) option result" where
  "as_port_state event =
     if_key event ''PORT_CHANGE'' (\<lambda>dpid change.
       bind_result (bind_result (val_index change ''port_no'') val_int) (\<lambda>port_no.
       bind_result (val_index change ''reason'') (\<lambda>reason.
       bind_result (val_index change ''status'') (\<lambda>status.
         Inr (dpid, port_no, and_val status (reason \<noteq> Str ''DELETE''))))))"

definition as_ports_status :: "val \<Rightarrow> (val \<times> val) option result" where
  "as_ports_status event = if_key event ''PORTS_STATUS'' (\<lambda>dpid status. Inr (dpid, status))"

definition as_port_learn :: "val \<Rightarrow> (val \<times> int \<times> val \<times> val) option result" where
  "as_port_learn event =
     if_key event ''L2_LEARN'' (\<lambda>dpid learn.
       bind_result (bind_result (val_index learn ''port_no'') val_int) (\<lambda>port_no.
       bind_result (val_index learn ''eth_src'') (\<lambda>eth_src.
       bind_result (val_index learn ''vid'') (\<lambda>vid. Inr (dpid, port_no, eth_src, vid)))))"

definition as_config_change :: "val \<Rightarrow> (val \<times> val) option result" where
  "as_config_change event =
     if_key event ''CONFIG_CHANGE'' (\<lambda>dpid change.
       case change of
         Dict d \<Rightarrow> Inr (dpid, case dict_get d ''restart_type'' of None \<Rightarrow> Nil_val | Some v \<Rightarrow> v)
       | _ \<Rightarrow> Inl AttributeError)"

definition make_port_state :: "val \<Rightarrow> val \<Rightarrow> val \<Rightarrow> bool \<Rightarrow> val" where
  "make_port_state dpid port status debounced =
     Dict [(''dp_id'', dpid), (''PORT_CHANGE'', Dict [(''port_no'', port), (''status'', status), (''reason'', Str ''MODIFY'')]),
           (''debounced'', Flag debounced)]"

subsection \<open>Debouncing\<close>

definition state_key :: "val \<Rightarrow> int \<Rightarrow> string" where
  \<comment> \<open>\<open>'%s-%d' % (dpid, port)\<close>; a data path is a number or a string\<close>
  "state_key dpid port = (case dpid of Str s \<Rightarrow> s | _ \<Rightarrow> dumps dpid) @ ''-'' @ show_int port"

definition handle_debounce :: "val \<Rightarrow> int \<Rightarrow> val \<Rightarrow> unit faucet_op" where
  "handle_debounce dpid port active =
     modify_op (\<lambda>c. c\<lparr>fe_debounced_q := fe_debounced_q c @ [make_port_state dpid (Num port) active True]\<rparr>)"

definition cancel_timer :: "nat option \<Rightarrow> unit faucet_op" where
  \<comment> \<open>cancelling a timer that ran or was cancelled does nothing\<close>
  "cancel_timer t =
     (case t of None \<Rightarrow> ret_op () | Some i \<Rightarrow> modify_op (\<lambda>c. c\<lparr>fe_pending := filter (\<lambda>x. pt_id x \<noteq> i) (fe_pending c)\<rparr>))"

definition start_timer :: "int \<Rightarrow> val \<Rightarrow> int \<Rightarrow> val \<Rightarrow> unit faucet_op" where
  "start_timer now dpid port active =
     modify_op (\<lambda>c. c\<lparr>fe_pending := fe_pending c @
         [\<lparr>pt_id = fe_next_id c, pt_time = now + fe_debounce_sec c, pt_dpid = dpid, pt_port = port, pt_active = active\<rparr>],
       fe_port_timers := dict_set (state_key dpid port) (fe_next_id c) (fe_port_timers c), fe_next_id := fe_next_id c + 1\<rparr>)"

definition debounce_port_event :: "int \<Rightarrow> val \<Rightarrow> int \<Rightarrow> val \<Rightarrow> unit faucet_op" where
  "debounce_port_event now dpid port active =
     read_op (\<lambda>c. if fe_debounce_sec c = 0 then handle_debounce dpid port active
       else then_op (cancel_timer (dict_get (fe_port_timers c) (state_key dpid port)))
         (if truth active then handle_debounce dpid port active else start_timer now dpid port active))"

definition run_timers :: "int \<Rightarrow> unit faucet_op" where
  \<comment> \<open>the timers that are due\<close>
  "run_timers now =
     modify_op (\<lambda>c. c\<lparr>fe_debounced_q := fe_debounced_q c @
         map (\<lambda>t. make_port_state (pt_dpid t) (Num (pt_port t)) (pt_active t) True) (filter (\<lambda>t. pt_time t \<le> now) (fe_pending c)),
       fe_pending := filter (\<lambda>t. \<not> pt_time t \<le> now) (fe_pending c)\<rparr>)"

definition process_state_update :: "val \<Rightarrow> int \<Rightarrow> val \<Rightarrow> bool faucet_op" where
  "process_state_update dpid port active =
     read_op (\<lambda>c. if dict_get (fe_previous_state c) (state_key dpid port) = Some active then ret_op False
       else then_op (modify_op (\<lambda>c. c\<lparr>fe_previous_state := dict_set (state_key dpid port) active (fe_previous_state c)\<rparr>)) (ret_op True))"

subsection \<open>The queue of lines\<close>

definition prepend_event :: "val \<Rightarrow> unit faucet_op" where
  "prepend_event event = modify_op (\<lambda>c. c\<lparr>fe_buffer := dumps event @ newline # fe_buffer c\<rparr>)"

definition append_line :: "string \<Rightarrow> string \<Rightarrow> string" where
  \<comment> \<open>\<open>_append_event\<close> on the buffer: after the last complete line\<close>
  "append_line line buffer =
     (let tail = rev (takeWhile (\<lambda>c. c \<noteq> newline) (rev buffer));
          head = take (length buffer - length tail) buffer in
      if head = [] \<and> buffer \<noteq> [] then line @ newline # buffer
      else if tail = [] then buffer @ line @ [newline]
      else butlast head @ newline # line @ newline # tail)"

fun seq_index :: "val list \<Rightarrow> val \<Rightarrow> val result" where
  \<comment> \<open>\<open>xs[i]\<close>; a negative index counts from the end, and a Boolean is a number\<close>
  "seq_index xs (Num i) =
     (if 0 \<le> i \<and> i < int (length xs) then Inr (xs ! nat i)
      else if i < 0 \<and> - int (length xs) \<le> i then Inr (xs ! nat (i + int (length xs))) else Inl IndexError)"
| "seq_index xs (Flag b) = (let i = (if b then 1 else 0) in if i < length xs then Inr (xs ! i) else Inl IndexError)"
| "seq_index xs _ = Inl TypeError"

fun status_items :: "val \<Rightarrow> (val \<times> val result) list result" where
  \<comment> \<open>\<open>for port in status\<close>, every port with \<open>status[port]\<close>\<close>
  "status_items (Dict d) = Inr (map (\<lambda>(port, s). (Str port, Inr s)) d)"
| "status_items (Seq xs) = Inr (map (\<lambda>x. (x, seq_index xs x)) xs)"
| "status_items (Str s) = Inr (map (\<lambda>x. (Str [x], Inl TypeError)) s)"
| "status_items _ = Inl TypeError"

definition expand_ports :: "val \<Rightarrow> (val \<times> val result) list \<Rightarrow> unit faucet_op" where
  "expand_ports dpid ports =
     for_op ports (\<lambda>(port, status). bind_op (lift_op status) (\<lambda>s. prepend_event (make_port_state dpid port s False)))"

definition filter_ports_status :: "val \<Rightarrow> val option faucet_op" where
  \<comment> \<open>the second half of \<open>_filter_faucet_event\<close>\<close>
  "filter_ports_status event =
     bind_op (lift_op (as_ports_status event)) (\<lambda>ports.
       case ports of
         Some (dpid, status) \<Rightarrow>
           if truth dpid
           then bind_op (lift_op (status_items status)) (\<lambda>ports. then_op (expand_ports dpid ports) (ret_op None))
           else ret_op (Some event)
       | None \<Rightarrow> ret_op (Some event))"

definition filter_faucet_event :: "int \<Rightarrow> val \<Rightarrow> val option faucet_op" where
  "filter_faucet_event now event =
     bind_op (lift_op (as_port_state event)) (\<lambda>state.
       case state of
         Some (dpid, port, active) \<Rightarrow>
           if truth dpid \<and> port \<noteq> 0
           then bind_op (lift_op (case event of Dict d \<Rightarrow> Inr (dict_get d ''debounced'') | _ \<Rightarrow> Inl AttributeError)) (\<lambda>debounced.
             if debounced = None \<or> \<not> truth (the debounced)
             then then_op (debounce_port_event now dpid port active) (ret_op None)
             else bind_op (process_state_update dpid port active) (\<lambda>changed. ret_op (if changed then Some event else None)))
           else filter_ports_status event
       | None \<Rightarrow> filter_ports_status event)"

fun receive_lines :: "string \<Rightarrow> string list \<Rightarrow> bool result \<times> string \<times> string list" where
  \<comment> \<open>the loop of \<open>has_event\<close> that does not block\<close>
  "receive_lines buffer incoming =
     (if newline \<in> set buffer then (Inr True, buffer, incoming)
      else case incoming of
        [] \<Rightarrow> (Inr False, buffer, incoming)
      | d # ds \<Rightarrow> if d = [] then (Inl DisconnectedException, buffer, incoming) else receive_lines (buffer @ d) ds)"

definition has_event :: "bool faucet_op" where
  "has_event c = (case receive_lines (fe_buffer c) (fe_incoming c) of (r, b, i) \<Rightarrow> (r, c\<lparr>fe_buffer := b, fe_incoming := i\<rparr>))"

text \<open>
  The loop of \<open>next_event\<close>: \<open>bound\<close> says whether the variable \<open>event\<close> has a value, which is then false,
  since a true one is returned; a line that is no JSON leaves it as it is. Without more rounds the
  result is \<open>None\<close>.
\<close>

fun next_event_n :: "int \<Rightarrow> nat \<Rightarrow> bool \<Rightarrow> faucet_client \<Rightarrow> (val option result \<times> faucet_client) option" where
  "next_event_n now 0 bound c = None"
| "next_event_n now (Suc n) bound c =
     (case fe_debounced_q c of
        e # q \<Rightarrow> Some (Inr (Some e), c\<lparr>fe_debounced_q := q\<rparr>)
      | [] \<Rightarrow>
          (case has_event c of
             (Inl x, c1) \<Rightarrow> Some (Inl x, c1)
           | (Inr b, c1) \<Rightarrow>
               if \<not> b then Some (Inr None, c1)
               else let line = takeWhile (\<lambda>x. x \<noteq> newline) (fe_buffer c1);
                        c2 = c1\<lparr>fe_buffer := drop (Suc (length line)) (fe_buffer c1)\<rparr> in
                 case loads line of
                   Inl _ \<Rightarrow> if bound then next_event_n now n True c2 else Some (Inl UnboundLocalError, c2)
                 | Inr event \<Rightarrow>
                     (case filter_faucet_event now event c2 of
                        (Inl x, c3) \<Rightarrow> Some (Inl x, c3)
                      | (Inr (Some e), c3) \<Rightarrow> if truth e then Some (Inr (Some e), c3) else next_event_n now n True c3
                      | (Inr None, c3) \<Rightarrow> next_event_n now n True c3)))"

text \<open>The rounds a client needs: one per line, and one per port of a line that lists ports.\<close>

definition listed_ports :: "val \<Rightarrow> nat" where
  "listed_ports event =
     (case as_ports_status event of
        Inr (Some (dpid, status)) \<Rightarrow> (case status_items status of Inr ports \<Rightarrow> length ports | Inl _ \<Rightarrow> 0)
      | _ \<Rightarrow> 0)"

definition line_rounds :: "string \<Rightarrow> nat" where
  "line_rounds line = Suc (case loads line of Inl _ \<Rightarrow> 0 | Inr event \<Rightarrow> listed_ports event)"

definition complete_lines :: "string \<Rightarrow> string list" where
  "complete_lines text = butlast (Py_Text.split_on newline text)"

definition rounds :: "faucet_client \<Rightarrow> nat" where
  "rounds c = sum_list (map line_rounds (complete_lines (fe_buffer c @ concat (fe_incoming c))))"

definition next_event :: "int \<Rightarrow> faucet_client \<Rightarrow> val option result \<times> faucet_client" where
  "next_event now c = (case next_event_n now (Suc (rounds c)) False c of Some r \<Rightarrow> r | None \<Rightarrow> (Inl RuntimeError, c))"

end
