(* ===== verification/Faucet_Claims.thy ===== *)
theory Faucet_Claims
  imports Faucet_Events
begin

text \<open>
  Properties of the FAUCET event client: reading the next event always returns, the debouncing of
  every port refines a machine with one timer, and what a line that is no JSON does.
\<close>

subsection \<open>Lines and rounds\<close>

lemma complete_lines_Cons: "newline \<notin> set l \<Longrightarrow> complete_lines (l @ newline # t) = l # complete_lines t"
  by (simp add: complete_lines_def Py_Text.split_on_append)

lemma line_split: "x \<in> set b \<Longrightarrow> takeWhile (\<lambda>y. y \<noteq> x) b @ x # drop (Suc (length (takeWhile (\<lambda>y. y \<noteq> x) b))) b = b"
  by (induction b) auto

lemma receive_lines_text:
  "receive_lines b i = (r, b', i') \<Longrightarrow> b' @ concat i' = b @ concat i \<and> (r = Inr True \<longrightarrow> newline \<in> set b')"
proof (induction b i rule: receive_lines.induct)
  case (1 b i)
  then show ?case by (cases i) (auto split: if_splits simp del: receive_lines.simps simp: receive_lines.simps [of b])
qed

lemma rounds_prepend:
  assumes "val_ok e" "prepend_event e c = (Inr (), c')"
  shows "rounds c' = line_rounds (dumps e) + rounds c"
proof -
  have "newline \<notin> set (dumps e)" using dumps_no_newline [OF assms(1)] by (simp add: newline_def)
  then show ?thesis using assms(2)
    by (auto simp: prepend_event_def modify_op_def rounds_def complete_lines_Cons)
qed

lemma port_state_event:
  assumes "val_ok dpid" "val_ok port" "val_ok status"
  shows "val_ok (make_port_state dpid port status False)" "line_rounds (dumps (make_port_state dpid port status False)) = 1"
proof -
  show ok: "val_ok (make_port_state dpid port status False)" using assms by (simp add: make_port_state_def)
  have "as_ports_status (make_port_state dpid port status False) = Inr None"
    by (simp add: as_ports_status_def if_key_def make_port_state_def)
  then show "line_rounds (dumps (make_port_state dpid port status False)) = 1"
    by (simp add: line_rounds_def listed_ports_def loads_dumps [OF ok] del: dumps.simps)
qed

lemma rounds_expand:
  assumes "val_ok dpid" "\<forall>(port, r)\<in>set ports. val_ok port \<and> (\<forall>s. r = Inr s \<longrightarrow> val_ok s)" "expand_ports dpid ports c = (Inr (), c')"
  shows "rounds c' = rounds c + length ports"
  using assms(2, 3)
proof (induction ports arbitrary: c)
  case Nil
  then show ?case by (simp add: expand_ports_def ret_op_def)
next
  case (Cons x ports)
  obtain port r where x: "x = (port, r)" by fastforce
  obtain s where s: "r = Inr s" using Cons.prems(2) x by (cases r) (simp_all add: expand_ports_def then_op_def bind_op_def lift_op_def)
  obtain c1 where c1: "prepend_event (make_port_state dpid port s False) c = (Inr (), c1)"
    by (simp add: prepend_event_def modify_op_def)
  have "rounds c1 = Suc (rounds c)"
    using rounds_prepend [OF _ c1] port_state_event [OF assms(1)] Cons.prems(1) x s by simp
  moreover have "expand_ports dpid ports c1 = (Inr (), c')"
    using Cons.prems(2) c1 x s by (simp add: expand_ports_def then_op_def bind_op_def lift_op_def)
  ultimately show ?case using Cons.IH [of c1] Cons.prems(1) by simp
qed

lemma rounds_same: "fe_buffer c' = fe_buffer c \<Longrightarrow> fe_incoming c' = fe_incoming c \<Longrightarrow> rounds c' = rounds c"
  by (simp add: rounds_def)

lemma debounce_buffer:
  assumes "debounce_port_event now dpid port active c = (r, c')"
  shows "fe_buffer c' = fe_buffer c" "fe_incoming c' = fe_incoming c" "r = Inr ()"
  using assms
  by (auto simp: debounce_port_event_def handle_debounce_def start_timer_def cancel_timer_def op_simps split: if_splits option.splits)

lemma update_buffer:
  assumes "process_state_update dpid port active c = (r, c')"
  shows "fe_buffer c' = fe_buffer c" "fe_incoming c' = fe_incoming c" "\<exists>b. r = Inr b"
  using assms by (simp_all add: process_state_update_def op_simps split: if_splits) auto

lemma dict_entry_ok: "val_ok (Dict e) \<Longrightarrow> dict_get e k = Some v \<Longrightarrow> val_ok v"
  by (auto simp: list_all_iff dest: map_of_SomeD)

lemma seq_index_ok: "seq_index xs x = Inr s \<Longrightarrow> list_all val_ok xs \<Longrightarrow> val_ok s"
  by (cases "(xs, x)" rule: seq_index.cases) (auto simp: list_all_length Let_def split: if_splits)

lemma status_items_ok:
  assumes "val_ok status" "status_items status = Inr ports"
  shows "\<forall>(port, r)\<in>set ports. val_ok port \<and> (\<forall>s. r = Inr s \<longrightarrow> val_ok s)"
  using assms by (cases status) (auto simp: list_all_iff dest!: seq_index_ok [OF sym])

lemma rounds_ports:
  assumes "filter_ports_status event c = (Inr x, c')" "val_ok event"
  shows "rounds c' \<le> rounds c + listed_ports event"
proof (cases "\<exists>dpid status. as_ports_status event = Inr (Some (dpid, status)) \<and> truth dpid")
  case True
  then obtain dpid status where d: "as_ports_status event = Inr (Some (dpid, status))" "truth dpid" by blast
  then obtain e where e: "event = Dict e" "dict_get e ''dp_id'' = Some dpid" "dict_get e ''PORTS_STATUS'' = Some status"
    by (cases event) (auto simp: as_ports_status_def if_key_def dict_index_def bind_result_eq_Inr split: if_splits option.splits)
  then have ok: "val_ok dpid" "val_ok status" using assms(2) dict_entry_ok by blast+
  obtain ports where p: "status_items status = Inr ports"
    using assms(1) d by (cases "status_items status") (simp_all add: filter_ports_status_def lift_op_def bind_op_def)
  obtain r c1 where c1: "expand_ports dpid ports c = (r, c1)" by fastforce
  have "r = Inr () \<and> c' = c1"
    using assms(1) d p c1 by (cases r) (auto simp: filter_ports_status_def lift_op_def bind_op_def then_op_def ret_op_def)
  with rounds_expand [OF ok(1) status_items_ok [OF ok(2) p]] c1 d p show ?thesis by (simp add: listed_ports_def)
next
  case False
  with assms(1) show ?thesis
    by (cases "as_ports_status event") (auto simp: filter_ports_status_def lift_op_def ret_op_def bind_op_def split: option.splits)
qed

lemma rounds_filter:
  assumes "filter_faucet_event now event c = (Inr x, c')" "val_ok event"
  shows "rounds c' \<le> rounds c + listed_ports event"
proof (cases "filter_faucet_event now event c = filter_ports_status event c")
  case True
  with assms rounds_ports show ?thesis by simp
next
  case False
  then obtain dpid port active where s: "as_port_state event = Inr (Some (dpid, port, active))" "truth dpid" "port \<noteq> 0"
    using assms(1) by (cases "as_port_state event") (auto simp: filter_faucet_event_def bind_op_def lift_op_def split: option.splits if_splits)
  then obtain d where d: "event = Dict d" using assms(1) by (cases event) (auto simp: filter_faucet_event_def bind_op_def lift_op_def)
  have "fe_buffer c' = fe_buffer c \<and> fe_incoming c' = fe_incoming c"
  proof (cases "dict_get d ''debounced'' = None \<or> \<not> truth (the (dict_get d ''debounced''))")
    case True
    obtain r c1 where c1: "debounce_port_event now dpid port active c = (r, c1)" by fastforce
    with assms(1) s d True debounce_buffer [OF c1] show ?thesis
      by (auto simp: filter_faucet_event_def bind_op_def lift_op_def then_op_def ret_op_def)
  next
    case False
    obtain r c1 where c1: "process_state_update dpid port active c = (r, c1)" by fastforce
    with assms(1) s d False update_buffer [OF c1] show ?thesis
      by (auto simp: filter_faucet_event_def bind_op_def lift_op_def then_op_def ret_op_def)
  qed
  then show ?thesis using rounds_same [of c' c] by simp
qed

lemma next_event_line:
  assumes "fe_debounced_q c = []" "has_event c = (Inr True, c1)"
  shows "next_event_n now (Suc n) bound c =
     (let line = takeWhile (\<lambda>x. x \<noteq> newline) (fe_buffer c1);
          c2 = c1\<lparr>fe_buffer := drop (Suc (length line)) (fe_buffer c1)\<rparr> in
      case loads line of
        Inl _ \<Rightarrow> if bound then next_event_n now n True c2 else Some (Inl UnboundLocalError, c2)
      | Inr event \<Rightarrow> (case filter_faucet_event now event c2 of
           (Inl x, c3) \<Rightarrow> Some (Inl x, c3)
         | (Inr (Some e), c3) \<Rightarrow> if truth e then Some (Inr (Some e), c3) else next_event_n now n True c3
         | (Inr None, c3) \<Rightarrow> next_event_n now n True c3))"
  by (simp add: assms Let_def)

text \<open>C12: reading the next event returns, whatever the socket has delivered: a line is taken in every round,
  and a line that lists ports is replaced by one line per port that is no list of ports. So the rounds
  counted by \<open>rounds\<close> are enough, with or without a value of the variable.\<close>

theorem next_event_returns:
  "\<exists>r c'. next_event_n now (Suc (rounds c)) bound c = Some (r, c')"
proof -
  have "\<exists>r c'. next_event_n now n bound c = Some (r, c')" if "rounds c < n" for n bound c
    using that
  proof (induction n arbitrary: bound c)
    case (Suc n)
    show ?case
    proof (cases "fe_debounced_q c")
      case Nil
      obtain r b i where rd: "receive_lines (fe_buffer c) (fe_incoming c) = (r, b, i)" by (cases "receive_lines (fe_buffer c) (fe_incoming c)") auto
      let ?c1 = "c\<lparr>fe_buffer := b, fe_incoming := i\<rparr>"
      have has: "has_event c = (r, ?c1)" by (simp add: has_event_def rd del: receive_lines.simps)
      note kept = receive_lines_text [OF rd]
      show ?thesis
      proof (cases "r = Inr True")
        case True
        let ?line = "takeWhile (\<lambda>x. x \<noteq> newline) b"
        let ?c2 = "?c1\<lparr>fe_buffer := drop (Suc (length ?line)) b\<rparr>"
        have split: "b = ?line @ newline # drop (Suc (length ?line)) b" using kept True by (simp add: line_split)
        have nl: "newline \<notin> set ?line" by (auto dest: set_takeWhileD)
        have "complete_lines (b @ concat i) = ?line # complete_lines (drop (Suc (length ?line)) b @ concat i)"
          using complete_lines_Cons [OF nl, of "drop (Suc (length ?line)) b @ concat i"] split by (metis append.assoc append_Cons)
        then have c2: "rounds c = line_rounds ?line + rounds ?c2" using kept by (simp add: rounds_def)
        then have small: "rounds ?c2 < n" using Suc.prems by (simp add: line_rounds_def)
        have line: "fe_buffer ?c1 = b" by simp
        note step = next_event_line [OF Nil has [unfolded True], unfolded Let_def line]
        show ?thesis
        proof (cases "loads ?line")
          case (Inl e)
          with Suc.IH [OF small] show ?thesis unfolding step by simp
        next
          case (Inr event)
          obtain x c3 where f: "filter_faucet_event now event ?c2 = (x, c3)" by fastforce
          have "rounds c3 < n" if "x = Inr y" for y
            using rounds_filter [OF f [unfolded that] loads_ok [OF Inr]] c2 Suc.prems Inr by (simp add: line_rounds_def)
          with Suc.IH show ?thesis unfolding step Inr sum.case f prod.case by (auto split: sum.splits option.splits)
        qed
      next
        case False
        with Nil has show ?thesis by (cases r) auto
      qed
    qed simp
  qed simp
  then show ?thesis by blast
qed

subsection \<open>Debouncing refines one timer per port\<close>

datatype port_step = Change int val int val | Elapse int

fun client_step :: "port_step \<Rightarrow> faucet_client \<Rightarrow> faucet_client" where
  "client_step (Change now dpid port active) c = snd (debounce_port_event now dpid port active c)"
| "client_step (Elapse now) c = snd (run_timers now c)"

text \<open>The specification: a port has at most one timer, with the time it runs at and what it reports.\<close>

fun port_machine :: "int \<Rightarrow> val \<Rightarrow> int \<Rightarrow> port_step \<Rightarrow> (int \<times> val) option \<times> val list \<Rightarrow> (int \<times> val) option \<times> val list" where
  "port_machine sec dpid port (Change now d p active) (timer, out) =
     (if (d, p) \<noteq> (dpid, port) then (timer, out)
      else if truth active then (None, out @ [active])
      else (Some (now + sec, active), out))"
| "port_machine sec dpid port (Elapse now) (timer, out) =
     (case timer of
        Some (due, active) \<Rightarrow> if due \<le> now then (None, out @ [active]) else (timer, out)
      | None \<Rightarrow> (None, out))"

fun proper_step :: "port_step \<Rightarrow> bool" where
  "proper_step (Change now (Num n) port active) = (0 < n \<and> 0 < port)"
| "proper_step (Change now _ port active) = False"
| "proper_step (Elapse now) = True"

definition proper_port :: "val \<Rightarrow> int \<Rightarrow> bool" where
  "proper_port dpid port = ((\<exists>n>0. dpid = Num n) \<and> 0 < port)"

lemma proper_step_port: "proper_step (Change now dpid port active) \<longleftrightarrow> proper_port dpid port"
  by (cases dpid) (auto simp: proper_port_def)

definition reports_port :: "val \<Rightarrow> int \<Rightarrow> val \<Rightarrow> bool" where
  "reports_port dpid port event =
     (bind_result (val_index event ''dp_id'') (\<lambda>d. bind_result (val_index event ''PORT_CHANGE'') (\<lambda>change.
        bind_result (val_index change ''port_no'') (\<lambda>p. Inr (d, p)))) = Inr (dpid, Num port))"

lemma reports_made: "reports_port dpid port (make_port_state d (Num p) a b) \<longleftrightarrow> (d, p) = (dpid, port)"
  by (auto simp: reports_port_def make_port_state_def dict_index_def)

lemma state_key_inject:
  assumes "proper_port d p" "proper_port d' p'" "state_key d p = state_key d' p'"
  shows "(d, p) = (d', p')"
proof -
  obtain n n' where n: "d = Num n" "d' = Num n'" "0 < n" "0 < n'" "0 < p" "0 < p'" using assms by (auto simp: proper_port_def)
  have dash: "CHR ''-'' \<notin> set (show_int k)" if "0 < k" for k
    using that show_nat_digits [of "CHR ''-''" "nat k"] by (auto simp: show_int_def digit_val_def)
  have key: "Py_Text.split_on (CHR ''-'') (state_key (Num k) q) = [show_int k, show_int q]" if "0 < k" "0 < q" for k q
    using Py_Text.split_on_append [OF dash [OF that(1)]] Py_Text.split_on_no_sep [OF dash [OF that(2)]] by (simp add: state_key_def)
  from key [of n p] key [of n' p'] assms(3) n have "show_int n = show_int n'" "show_int p = show_int p'" by simp_all
  with n show ?thesis by (simp add: show_int_inject)
qed

definition timer_key :: "port_timer \<Rightarrow> string" where
  "timer_key t = state_key (pt_dpid t) (pt_port t)"

definition timers_ok :: "faucet_client \<Rightarrow> bool" where
  \<comment> \<open>every timer that can still run is the one registered for its port\<close>
  "timers_ok c =
     ((\<forall>t\<in>set (fe_pending c). proper_port (pt_dpid t) (pt_port t) \<and> dict_get (fe_port_timers c) (timer_key t) = Some (pt_id t)) \<and>
      distinct (map pt_id (fe_pending c)) \<and>
      (\<forall>k k' i. dict_get (fe_port_timers c) k = Some i \<longrightarrow> i < fe_next_id c \<and> (dict_get (fe_port_timers c) k' = Some i \<longrightarrow> k' = k)))"

definition timers_of :: "val \<Rightarrow> int \<Rightarrow> faucet_client \<Rightarrow> port_timer list" where
  "timers_of dpid port c = filter (\<lambda>t. (pt_dpid t, pt_port t) = (dpid, port)) (fe_pending c)"

definition refines_port :: "val \<Rightarrow> int \<Rightarrow> faucet_client \<Rightarrow> (int \<times> val) option \<times> val list \<Rightarrow> bool" where
  "refines_port dpid port c m =
     (map (\<lambda>t. (pt_time t, pt_active t)) (timers_of dpid port c) = (case fst m of None \<Rightarrow> [] | Some x \<Rightarrow> [x]) \<and>
      filter (reports_port dpid port) (fe_debounced_q c) = map (\<lambda>a. make_port_state dpid (Num port) a True) (snd m))"

lemma cancel_registered:
  assumes "timers_ok c" "proper_port d p"
  shows "cancel_timer (dict_get (fe_port_timers c) (state_key d p)) c =
    (Inr (), c\<lparr>fe_pending := filter (\<lambda>t. (pt_dpid t, pt_port t) \<noteq> (d, p)) (fe_pending c)\<rparr>)"
proof -
  have key: "dict_get (fe_port_timers c) (state_key d p) = Some (pt_id t) \<longleftrightarrow> (pt_dpid t, pt_port t) = (d, p)" if "t \<in> set (fe_pending c)" for t
    using that assms(1) state_key_inject [OF _ assms(2), of "pt_dpid t" "pt_port t"] unfolding timers_ok_def timer_key_def by (metis Pair_inject)
  show ?thesis
  proof (cases "dict_get (fe_port_timers c) (state_key d p)")
    case None
    then have "filter (\<lambda>t. (pt_dpid t, pt_port t) \<noteq> (d, p)) (fe_pending c) = fe_pending c" using key by (auto simp: filter_id_conv)
    then show ?thesis using None by (simp add: cancel_timer_def ret_op_def)
  next
    case (Some i)
    then have "filter (\<lambda>t. pt_id t \<noteq> i) (fe_pending c) = filter (\<lambda>t. (pt_dpid t, pt_port t) \<noteq> (d, p)) (fe_pending c)"
      using key by (auto intro!: filter_cong)
    then show ?thesis using Some by (simp add: cancel_timer_def modify_op_def)
  qed
qed

lemma timers_ok_fewer:
  assumes "timers_ok c" "fe_pending c' = filter P (fe_pending c)" "fe_port_timers c' = fe_port_timers c" "fe_next_id c' = fe_next_id c"
  shows "timers_ok c'"
  using assms by (simp add: timers_ok_def distinct_map_filter)

lemma change_step:
  assumes "timers_ok c" "proper_port d p" "fe_debounce_sec c \<noteq> 0"
  shows "snd (debounce_port_event now d p a c) =
    (let c1 = c\<lparr>fe_pending := filter (\<lambda>t. (pt_dpid t, pt_port t) \<noteq> (d, p)) (fe_pending c)\<rparr> in
     if truth a then snd (handle_debounce d p a c1) else snd (start_timer now d p a c1))"
  using assms(3) cancel_registered [OF assms(1, 2)]
  by (simp add: debounce_port_event_def read_op_def then_op_def bind_op_def Let_def)

lemma timers_ok_start:
  assumes "timers_ok c" "proper_port d p" "\<forall>t\<in>set (fe_pending c). timer_key t \<noteq> state_key d p"
  shows "timers_ok (snd (start_timer now d p a c))"
proof -
  let ?c' = "snd (start_timer now d p a c)"
  let ?t = "\<lparr>pt_id = fe_next_id c, pt_time = now + fe_debounce_sec c, pt_dpid = d, pt_port = p, pt_active = a\<rparr>"
  have c': "fe_pending ?c' = fe_pending c @ [?t]" "fe_next_id ?c' = fe_next_id c + 1"
    "fe_port_timers ?c' = dict_set (state_key d p) (fe_next_id c) (fe_port_timers c)"
    by (simp_all add: start_timer_def modify_op_def)
  have small: "dict_get (fe_port_timers c) k = Some i \<Longrightarrow> i < fe_next_id c" for k i
    using assms(1) by (auto simp: timers_ok_def)
  have "\<forall>t\<in>set (fe_pending ?c'). proper_port (pt_dpid t) (pt_port t) \<and> dict_get (fe_port_timers ?c') (timer_key t) = Some (pt_id t)"
    using assms by (auto simp: timers_ok_def c' dict_get_set timer_key_def)
  moreover have "distinct (map pt_id (fe_pending ?c'))" using assms(1) small by (fastforce simp: timers_ok_def c')
  moreover have "i < fe_next_id ?c' \<and> (dict_get (fe_port_timers ?c') k' = Some i \<longrightarrow> k' = k)" if "dict_get (fe_port_timers ?c') k = Some i" for k k' i
    using that assms(1) small [of k i] small [of k' i] by (auto simp: timers_ok_def c' dict_get_set less_Suc_eq split: if_splits)
  ultimately show ?thesis unfolding timers_ok_def by blast
qed

lemma timers_ok_step:
  assumes "timers_ok c" "proper_step s" "0 < fe_debounce_sec c"
  shows "timers_ok (client_step s c) \<and> fe_debounce_sec (client_step s c) = fe_debounce_sec c"
proof (cases s)
  case (Change now d p a)
  let ?c1 = "c\<lparr>fe_pending := filter (\<lambda>t. (pt_dpid t, pt_port t) \<noteq> (d, p)) (fe_pending c)\<rparr>"
  have pp: "proper_port d p" using assms(2) Change by (simp only: proper_step_port)
  have step: "client_step s c = (if truth a then snd (handle_debounce d p a ?c1) else snd (start_timer now d p a ?c1))"
    using change_step [OF assms(1) pp] assms(3) Change by (simp add: Let_def)
  have ok1: "timers_ok ?c1" by (rule timers_ok_fewer [OF assms(1)]) simp_all
  show ?thesis
  proof (cases "truth a")
    case True
    from ok1 show ?thesis by (simp add: step True handle_debounce_def modify_op_def timers_ok_def)
  next
    case False
    have "\<forall>t\<in>set (fe_pending ?c1). timer_key t \<noteq> state_key d p"
      using assms(1) state_key_inject [OF _ pp] unfolding timers_ok_def timer_key_def by fastforce
    from timers_ok_start [OF ok1 pp this] have "timers_ok (snd (start_timer now d p a ?c1))" .
    then show ?thesis by (simp add: step False) (simp add: start_timer_def modify_op_def)
  qed
next
  case (Elapse now)
  have "timers_ok (snd (run_timers now c))"
    by (rule timers_ok_fewer [OF assms(1), where P = "\<lambda>t. \<not> pt_time t \<le> now"]) (simp_all add: run_timers_def modify_op_def)
  then show ?thesis using Elapse by (simp add: run_timers_def modify_op_def)
qed

lemma elapse_timers:
  assumes "map (\<lambda>t. (pt_time t, pt_active t)) (timers_of dpid port c) = (case m of None \<Rightarrow> [] | Some x \<Rightarrow> [x])"
  shows "refines_port dpid port (snd (run_timers now c)) (port_machine (fe_debounce_sec c) dpid port (Elapse now) (m, out)) \<longleftrightarrow>
    filter (reports_port dpid port) (fe_debounced_q c) = map (\<lambda>a. make_port_state dpid (Num port) a True) out"
proof -
  let ?c' = "snd (run_timers now c)"
  have due: "filter (reports_port dpid port) (map (\<lambda>t. make_port_state (pt_dpid t) (Num (pt_port t)) (pt_active t) True)
      (filter (\<lambda>t. pt_time t \<le> now) ts)) =
    map (\<lambda>t. make_port_state dpid (Num port) (pt_active t) True)
      (filter (\<lambda>t. pt_time t \<le> now) (filter (\<lambda>t. (pt_dpid t, pt_port t) = (dpid, port)) ts))" for ts
    by (induction ts) (auto simp: reports_made)
  have queue: "filter (reports_port dpid port) (fe_debounced_q ?c') = filter (reports_port dpid port) (fe_debounced_q c) @
      map (\<lambda>t. make_port_state dpid (Num port) (pt_active t) True) (filter (\<lambda>t. pt_time t \<le> now) (timers_of dpid port c))"
    unfolding run_timers_def modify_op_def timers_of_def using due [of "fe_pending c"] by simp
  have later: "timers_of dpid port ?c' = filter (\<lambda>t. \<not> pt_time t \<le> now) (timers_of dpid port c)"
    by (simp add: run_timers_def modify_op_def timers_of_def conj_commute)
  show ?thesis using assms by (cases m) (auto simp: refines_port_def queue later split: if_splits)
qed

lemma timers_of_handle: "timers_of dpid port (snd (handle_debounce d p a c)) = timers_of dpid port c"
  by (simp add: timers_of_def handle_debounce_def modify_op_def)

lemma timers_of_start:
  "timers_of dpid port (snd (start_timer now d p a c)) = timers_of dpid port c @
     (if (d, p) = (dpid, port) then [\<lparr>pt_id = fe_next_id c, pt_time = now + fe_debounce_sec c, pt_dpid = d, pt_port = p, pt_active = a\<rparr>] else [])"
  by (simp add: timers_of_def start_timer_def modify_op_def)

lemma queue_handle: "fe_debounced_q (snd (handle_debounce d p a c)) = fe_debounced_q c @ [make_port_state d (Num p) a True]"
  by (simp add: handle_debounce_def modify_op_def)

lemma queue_start: "fe_debounced_q (snd (start_timer now d p a c)) = fe_debounced_q c"
  by (simp add: start_timer_def modify_op_def)

lemma refines_step:
  assumes "timers_ok c" "proper_step s" "0 < fe_debounce_sec c" "refines_port dpid port c m"
  shows "refines_port dpid port (client_step s c) (port_machine (fe_debounce_sec c) dpid port s m)"
proof (cases s)
  case (Change now d p a)
  have pp: "proper_port d p" using assms(2) Change by (simp only: proper_step_port)
  let ?c1 = "c\<lparr>fe_pending := filter (\<lambda>t. (pt_dpid t, pt_port t) \<noteq> (d, p)) (fe_pending c)\<rparr>"
  have step: "client_step s c = (if truth a then snd (handle_debounce d p a ?c1) else snd (start_timer now d p a ?c1))"
    using change_step [OF assms(1) pp, of now a] assms(3) Change by (simp add: Let_def)
  have "timers_of dpid port ?c1 = (if (d, p) = (dpid, port) then [] else timers_of dpid port c)"
    unfolding timers_of_def by (auto simp: filter_empty_conv intro!: filter_cong)
  then show ?thesis
    using assms(4) unfolding step refines_port_def unfolding Change
    by (cases m) (auto simp: timers_of_handle timers_of_start queue_handle queue_start reports_made)
next
  case (Elapse now)
  then show ?thesis using assms(4) elapse_timers [of dpid port c "fst m" now "snd m"] by (simp add: refines_port_def)
qed

lemma refines_run:
  assumes "timers_ok c" "0 < fe_debounce_sec c" "list_all proper_step steps" "refines_port dpid port c m"
  shows "refines_port dpid port (fold client_step steps c) (fold (port_machine (fe_debounce_sec c) dpid port) steps m)"
  using assms
proof (induction steps arbitrary: c m)
  case (Cons s steps)
  have "timers_ok (client_step s c)" "fe_debounce_sec (client_step s c) = fe_debounce_sec c"
    using timers_ok_step Cons.prems by auto
  with Cons.IH [of "client_step s c"] Cons.prems refines_step [of c s dpid port m] show ?case by simp
qed simp

text \<open>C10: debouncing refines one timer per port. For any order of changes of ports and of points in time at
  which timers run, what the client queues about a port is what a machine with a single timer reports:
  an active port at once, which also stops the timer, and an inactive one only when the debounce time
  has passed without another change of that port; changes of other ports do not matter.\<close>

theorem debounce_refines_port_machine:
  assumes "0 < sec" "list_all proper_step steps"
  shows "filter (reports_port dpid port) (fe_debounced_q (fold client_step steps (new_client sec))) =
    map (\<lambda>a. make_port_state dpid (Num port) a True) (snd (fold (port_machine sec dpid port) steps (None, [])))"
proof -
  have "timers_ok (new_client sec)" "refines_port dpid port (new_client sec) (None, [])" "fe_debounce_sec (new_client sec) = sec"
    by (simp_all add: timers_ok_def refines_port_def timers_of_def new_client_def)
  from refines_run [OF this(1) _ assms(2) this(2)] assms(1) this(3) show ?thesis by (simp add: refines_port_def)
qed

theorem debounce_refines_port_machine_witness:
  "map (\<lambda>e. bind_result (as_port_state e) (\<lambda>s. Inr (map_option (\<lambda>(d, p, a). a) s)))
     (filter (reports_port (Num 1) 2) (fe_debounced_q (fold client_step
       [Change 0 (Num 1) 2 (Flag True), Change 10 (Num 1) 2 (Flag False), Change 12 (Num 1) 3 (Flag False), Change 13 (Num 1) 2 (Flag True),
        Elapse 16, Change 20 (Num 1) 2 (Flag False), Elapse 26] (new_client 5)))) =
   [Inr (Some (Flag True)), Inr (Some (Flag True)), Inr (Some (Flag False))]"
proof -
  have "list_all proper_step [Change 0 (Num 1) 2 (Flag True), Change 10 (Num 1) 2 (Flag False), Change 12 (Num 1) 3 (Flag False),
    Change 13 (Num 1) 2 (Flag True), Elapse 16, Change 20 (Num 1) 2 (Flag False), Elapse 26]" by simp
  from debounce_refines_port_machine [OF _ this, of 5] show ?thesis
    by (simp add: as_port_state_def if_key_def make_port_state_def dict_index_def and_val_def)
qed

subsection \<open>A line that is no JSON\<close>

text \<open>A first line that is no JSON breaks the event loop. The exception of the parser is logged, and the
  filter is then called with a variable that has no value yet, so the client raises where it means to go
  on with the next line; the line is gone, and the lines after it are kept.\<close>

theorem garbage_line_raises:
  assumes "fe_debounced_q c = []" "fe_buffer c = line @ newline # rest" "newline \<notin> set line" "loads line = Inl e"
  shows "next_event now c = (Inl UnboundLocalError, c\<lparr>fe_buffer := rest\<rparr>)"
proof -
  have "receive_lines (fe_buffer c) (fe_incoming c) = (Inr True, fe_buffer c, fe_incoming c)"
    by (subst receive_lines.simps) (simp add: assms(2))
  then have has: "has_event c = (Inr True, c)" by (simp add: has_event_def del: receive_lines.simps)
  have "takeWhile (\<lambda>x. x \<noteq> newline) (fe_buffer c) = line" using assms(2, 3) by (auto simp: takeWhile_append)
  with next_event_line [OF assms(1) has, of now "rounds c" False] assms(2, 4) show ?thesis
    by (simp add: next_event_def Let_def del: next_event_n.simps)
qed

definition garbage_example :: faucet_client where
  "garbage_example = (new_client 5)\<lparr>fe_buffer := ''?'' @ newline # ''{}'' @ [newline]\<rparr>"

theorem garbage_line_raises_witness:
  "next_event 0 garbage_example = (Inl UnboundLocalError, garbage_example\<lparr>fe_buffer := ''{}'' @ [newline]\<rparr>)"
proof -
  have "loads ''?'' = Inl ValueError" by code_simp
  then show ?thesis
    by (intro garbage_line_raises [where line = "''?''"]) (simp_all add: garbage_example_def new_client_def newline_def)
qed

end
