(* ===== verification/Stream_Monitor.thy ===== *)
theory Stream_Monitor
  imports Threads
begin

text \<open>
  \<open>daq/stream_monitor.py\<close>: the loop that waits for descriptors to become ready and calls what was
  registered for them. A registered callback has a name of an arbitrary type; the record \<open>stream_env\<close>
  says what the callbacks do, which may be anything: they may register and forget descriptors while the
  loop runs, and raise. Closing, reading and copying descriptors is outside the program.
\<close>

subsection \<open>State\<close>

datatype 'cb stream_callback = Call 'cb | CopyTo nat

record 'cb stream_entry =
  se_name :: string
  se_callback :: "'cb stream_callback option"
  se_hangup :: "'cb option"
  se_error :: "'cb option"

record 'cb stream_monitor =
  sm_callbacks :: "(int, 'cb stream_entry) dict"
  sm_fd_priority :: "(int, int) dict"
  sm_registered :: "int list"

type_synonym ('cb, 'w, 'a) stream_op = "('cb stream_monitor \<times> 'w, 'a) op"

record ('cb, 'w) stream_env =
  sv_call :: "'cb \<Rightarrow> ('cb, 'w, unit) stream_op"
  sv_error :: "'cb \<Rightarrow> py_error \<Rightarrow> ('cb, 'w, unit) stream_op"
  sv_idle :: "('cb, 'w, unit) stream_op option"
  sv_hook :: "('cb, 'w, unit) stream_op option"
  sv_flush :: "int \<Rightarrow> ('w, unit) op"
  sv_copy :: "int \<Rightarrow> nat \<Rightarrow> ('w, unit) op"
  sv_close :: "int \<Rightarrow> ('w, unit) op"
  sv_nonblock :: "int \<Rightarrow> ('w, unit) op"

definition stream_monitor_init :: "'cb stream_monitor" where
  "stream_monitor_init = \<lparr>sm_callbacks = [], sm_fd_priority = [], sm_registered = []\<rparr>"

subsection \<open>Registering descriptors\<close>

definition on_monitor :: "('cb stream_monitor \<Rightarrow> 'cb stream_monitor) \<Rightarrow> ('cb, 'w, unit) stream_op" where
  "on_monitor f = modify_op (\<lambda>(m, w). (f m, w))"

definition monitor_stream ::
    "('cb, 'w) stream_env \<Rightarrow> string \<Rightarrow> int \<Rightarrow> 'cb option \<Rightarrow> 'cb option \<Rightarrow> nat option \<Rightarrow> 'cb option \<Rightarrow> int \<Rightarrow> ('cb, 'w, unit) stream_op" where
  "monitor_stream V name fd callback hangup copy_to error priority =
     read_op (\<lambda>(m, w).
       then_op (assert_op (fd \<notin> set (dict_keys (sm_callbacks m))))
      (then_op (if copy_to = None then ret_op () else then_op (assert_op (callback = None)) (zoom_snd (sv_nonblock V fd)))
        (let cb = (case copy_to of Some sink \<Rightarrow> Some (CopyTo sink) | None \<Rightarrow> map_option Call callback);
             entry = \<lparr>se_name = name, se_callback = cb, se_hangup = hangup, se_error = error\<rparr>
         in on_monitor (\<lambda>m. m\<lparr>sm_callbacks := dict_set fd entry (sm_callbacks m),
                              sm_fd_priority := dict_set fd priority (sm_fd_priority m),
                              sm_registered := List.insert fd (sm_registered m)\<rparr>))))"

definition forget :: "int \<Rightarrow> ('cb, 'w, unit) stream_op" where
  \<comment> \<open>the priority of the descriptor stays in the table\<close>
  "forget fd =
     read_op (\<lambda>(m, w).
       then_op (assert_op (fd \<in> set (dict_keys (sm_callbacks m))))
      (then_op (on_monitor (\<lambda>m. m\<lparr>sm_callbacks := dict_del fd (sm_callbacks m)\<rparr>))
        (if fd \<in> set (sm_registered m) then on_monitor (\<lambda>m. m\<lparr>sm_registered := removeAll fd (sm_registered m)\<rparr>)
         else raise_op KeyError)))"

definition log_monitors :: "('cb, 'w, nat) stream_op" where
  "log_monitors = get_op (\<lambda>(m, w). length (dict_keys (sm_callbacks m)))"

subsection \<open>Calling back\<close>

definition error_handler :: "('cb, 'w) stream_env \<Rightarrow> py_error \<Rightarrow> 'cb option \<Rightarrow> ('cb, 'w, unit) stream_op" where
  "error_handler V e handler =
     (case handler of None \<Rightarrow> ret_op () | Some h \<Rightarrow> try_op (sv_error V h e) (\<lambda>_. ret_op ()))"

definition stream_entry_of :: "int \<Rightarrow> ('cb, 'w, 'cb stream_entry) stream_op" where
  "stream_entry_of fd = read_op (\<lambda>(m, w). lift_op (dict_index (sm_callbacks m) fd))"

definition trigger_callback :: "('cb, 'w) stream_env \<Rightarrow> int \<Rightarrow> ('cb, 'w, unit) stream_op" where
  "trigger_callback V fd =
     bind_op (stream_entry_of fd) (\<lambda>entry.
       try_op (case se_callback entry of
                 Some (Call cb) \<Rightarrow> sv_call V cb
               | Some (CopyTo sink) \<Rightarrow> zoom_snd (sv_copy V fd sink)
               | None \<Rightarrow> zoom_snd (sv_flush V fd))
         (\<lambda>e. error_handler V e (se_error entry)))"

definition trigger_hangup :: "('cb, 'w) stream_env \<Rightarrow> int \<Rightarrow> ('cb, 'w, unit) stream_op" where
  "trigger_hangup V fd =
     bind_op (stream_entry_of fd) (\<lambda>entry.
     then_op (zoom_snd (sv_close V fd))
      (try_op (then_op (forget fd) (case se_hangup entry of Some cb \<Rightarrow> sv_call V cb | None \<Rightarrow> ret_op ()))
         (\<lambda>e. error_handler V e (se_error entry))))"

text \<open>The bits of the results of \<open>poll\<close>: \<open>POLLIN\<close>, \<open>POLLERR\<close>, \<open>POLLHUP\<close>, \<open>POLLNVAL\<close>.\<close>

definition POLLIN :: nat where "POLLIN = 0"
definition POLLERR :: nat where "POLLERR = 3"
definition POLLHUP :: nat where "POLLHUP = 4"
definition POLLNVAL :: nat where "POLLNVAL = 5"

definition process_poll_result :: "('cb, 'w) stream_env \<Rightarrow> nat \<Rightarrow> int \<Rightarrow> ('cb, 'w, unit) stream_op" where
  "process_poll_result V event fd =
     (if bit event POLLNVAL then raise_op AssertionError
      else if bit event POLLIN then trigger_callback V fd
      else if bit event POLLHUP \<or> bit event POLLERR then trigger_hangup V fd
      else raise_op AssertionError)"

definition process_ready :: "('cb, 'w) stream_env \<Rightarrow> int \<times> nat \<Rightarrow> ('cb, 'w, unit) stream_op" where
  \<comment> \<open>the body of the loop over the ready descriptors\<close>
  "process_ready V = (\<lambda>(fd, event). read_op (\<lambda>(m, w).
     if fd \<in> set (dict_keys (sm_callbacks m)) then process_poll_result V event fd else ret_op ()))"

definition by_priority :: "(int, int) dict \<Rightarrow> (int \<times> nat) list \<Rightarrow> (int \<times> nat) list result" where
  \<comment> \<open>\<open>sorted(fds, key=lambda f: -self.fd_priority[f[0]])\<close>\<close>
  "by_priority priority fds =
     bind_result (mapM_result (\<lambda>f. bind_result (dict_index priority (fst f)) (\<lambda>p. Inr (p, f))) fds)
       (\<lambda>pairs. Inr (map snd (sort_key (\<lambda>x. - fst x) pairs)))"

definition idle_and_hook :: "('cb, 'w) stream_env \<Rightarrow> bool \<Rightarrow> ('cb, 'w, bool) stream_op" where
  \<comment> \<open>the part inside \<open>try\<close>: whether the loop goes on\<close>
  "idle_and_hook V idle =
     (let hook = (case sv_hook V of None \<Rightarrow> ret_op True | Some h \<Rightarrow> then_op h (ret_op True)) in
      case sv_idle V of
        Some handler \<Rightarrow>
          if idle then then_op handler (read_op (\<lambda>(m, w). if sm_callbacks m = [] then ret_op False else hook)) else hook
      | None \<Rightarrow> hook)"

definition event_loop ::
    "('cb, 'w) stream_env \<Rightarrow> (int \<times> nat) list \<Rightarrow> ('cb, 'w, (int \<times> nat) list) stream_op \<Rightarrow> ('cb, 'w, bool) stream_op" where
  \<comment> \<open>what the first poll returned, and the second one, which is made after the handlers\<close>
  "event_loop V first second =
     bind_op (try_op (idle_and_hook V (first = [])) (\<lambda>_. ret_op True)) (\<lambda>go_on.
       if \<not> go_on then ret_op False
       else bind_op second (\<lambda>ready. read_op (\<lambda>s.
         bind_op (lift_op (by_priority (sm_fd_priority (fst s)) ready)) (\<lambda>fds.
         then_op (for_op fds (process_ready V))
           (get_op (\<lambda>(m, w). sm_callbacks m \<noteq> []))))))"

subsection \<open>Properties\<close>

text \<open>
  The descriptors registered with the poller are those that have callbacks, and all of them have a
  priority.
\<close>

definition in_step :: "'cb stream_monitor \<times> 'w \<Rightarrow> bool" where
  "in_step s =
     (set (sm_registered (fst s)) = set (dict_keys (sm_callbacks (fst s))) \<and>
      set (dict_keys (sm_callbacks (fst s))) \<subseteq> set (dict_keys (sm_fd_priority (fst s))))"

text \<open>What is required of the callbacks: they use the monitor only through its operations.\<close>

definition callbacks_in_step :: "('cb, 'w) stream_env \<Rightarrow> bool" where
  "callbacks_in_step V =
     ((\<forall>cb. keeps in_step (sv_call V cb)) \<and> (\<forall>cb e. keeps in_step (sv_error V cb e)) \<and>
      (\<forall>h. sv_idle V = Some h \<longrightarrow> keeps in_step h) \<and> (\<forall>h. sv_hook V = Some h \<longrightarrow> keeps in_step h))"

lemma keeps_world [keeps_intros]: "keeps in_step (zoom_snd m)"
  by (auto simp: keeps_def zoom_snd_def in_step_def split: prod.splits)

lemma monitor_stream_in_step [keeps_intros]: "keeps in_step (monitor_stream V name fd callback hangup copy_to error priority)"
proof -
  have "in_step (m\<lparr>sm_callbacks := dict_set fd e (sm_callbacks m), sm_fd_priority := dict_set fd p (sm_fd_priority m),
      sm_registered := List.insert fd (sm_registered m)\<rparr>, w)" if "in_step (m, w)" for m w e p
    using that by (auto simp: in_step_def dom_update)
  then show ?thesis
    unfolding monitor_stream_def on_monitor_def Let_def by (intro keeps_intros) auto
qed

lemma dict_del_keys: "fst ` set (dict_del k d) = fst ` set d - {k}"
  by (metis delete_keys set_map set_removeAll)

lemma forget_in_step [keeps_intros]: "keeps in_step (forget fd)"
  by (auto simp: keeps_def forget_def on_monitor_def op_simps in_step_def dict_del_keys split: prod.splits)

lemma error_handler_in_step: "callbacks_in_step V \<Longrightarrow> keeps in_step (error_handler V e h)"
  unfolding error_handler_def callbacks_in_step_def by (intro keeps_intros) auto

lemma forget_ok: "in_step s \<Longrightarrow> fd \<in> set (dict_keys (sm_callbacks (fst s))) \<Longrightarrow> fst (forget fd s) = Inr ()"
  by (auto simp: forget_def on_monitor_def op_simps in_step_def split: prod.splits)

lemma keeps_returns:
  assumes "keeps I m" "\<And>s. I s \<Longrightarrow> \<exists>x. fst (m s) = Inr x"
  shows "ensures I m (\<lambda>_. I) (\<lambda>_. False)"
  using assms by (fastforce simp: keeps_def ensures_def split: prod.splits sum.splits)

lemma try_returns:
  assumes "keeps I m" "\<And>e. ensures I (h e) (\<lambda>_. I) (\<lambda>_. False)"
  shows "ensures I (try_op m h) (\<lambda>_. I) (\<lambda>_. False)"
  by (rule ensures_try [OF keeps_ensures [OF assms(1)] assms(2)])

lemma ensures_result: "ensures P m (\<lambda>_. Q) (\<lambda>_. False) \<Longrightarrow> P s \<Longrightarrow> \<exists>x s'. m s = (Inr x, s') \<and> Q s'"
  by (cases "m s"; cases "fst (m s)") (auto simp: ensures_def split: prod.splits)

lemma error_handler_returns: "callbacks_in_step V \<Longrightarrow> ensures in_step (error_handler V e h) (\<lambda>_. in_step) (\<lambda>_. False)"
  unfolding error_handler_def
  by (cases h) (auto intro!: try_returns ensures_ret simp: callbacks_in_step_def)

lemma entry_found:
  "in_step s \<Longrightarrow> fd \<in> set (dict_keys (sm_callbacks (fst s))) \<Longrightarrow> \<exists>e. stream_entry_of fd s = (Inr e, s)"
  by (cases "dict_get (sm_callbacks (fst s)) fd") (auto simp: stream_entry_of_def read_op_def lift_op_def dict_index_def map_of_eq_None_iff split: prod.splits)

definition valid_event :: "nat \<Rightarrow> bool" where
  "valid_event event = (\<not> bit event POLLNVAL \<and> (bit event POLLIN \<or> bit event POLLHUP \<or> bit event POLLERR))"

definition close_returns :: "('cb, 'w) stream_env \<Rightarrow> bool" where
  "close_returns V = (\<forall>fd w. fst (sv_close V fd w) = Inr ())"

lemma hangup_returns:
  assumes "callbacks_in_step V" "close_returns V"
  shows "in_step s \<Longrightarrow> fd \<in> set (dict_keys (sm_callbacks (fst s))) \<Longrightarrow> \<exists>s'. trigger_hangup V fd s = (Inr (), s') \<and> in_step s'"
proof -
  assume s: "in_step s" "fd \<in> set (dict_keys (sm_callbacks (fst s)))"
  obtain e where e: "stream_entry_of fd s = (Inr e, s)" using entry_found [OF s] by blast
  obtain r s1 where c1: "zoom_snd (sv_close V fd) s = (r, s1)" by (cases "zoom_snd (sv_close V fd) s") auto
  have "fst (zoom_snd (sv_close V fd) s) = Inr ()"
    using assms(2) unfolding close_returns_def zoom_snd_def by (simp add: split_beta)
  with c1 have c: "zoom_snd (sv_close V fd) s = (Inr (), s1)" by simp
  have s1: "in_step s1" using keepsD [OF keeps_world s(1), of "sv_close V fd"] c by simp
  have "keeps in_step (then_op (forget fd) (case se_hangup e of Some cb \<Rightarrow> sv_call V cb | None \<Rightarrow> ret_op ()))"
    using assms(1) by (intro keeps_intros) (auto simp: callbacks_in_step_def)
  from ensures_result [OF try_returns [OF this error_handler_returns [OF assms(1)]] s1] show ?thesis
    by (simp add: trigger_hangup_def bind_op_def [of "stream_entry_of fd"] then_op_def [of "zoom_snd (sv_close V fd)"]
        bind_op_def [of "zoom_snd (sv_close V fd)"] e c)
qed

lemma callback_returns:
  assumes "callbacks_in_step V" "in_step s" "fd \<in> set (dict_keys (sm_callbacks (fst s)))"
  shows "\<exists>s'. trigger_callback V fd s = (Inr (), s') \<and> in_step s'"
proof -
  obtain e where e: "stream_entry_of fd s = (Inr e, s)" using entry_found [OF assms(2, 3)] by blast
  have "keeps in_step (case se_callback e of
      Some (Call cb) \<Rightarrow> sv_call V cb | Some (CopyTo sink) \<Rightarrow> zoom_snd (sv_copy V fd sink) | None \<Rightarrow> zoom_snd (sv_flush V fd))"
    using assms(1) by (auto simp: callbacks_in_step_def keeps_world split: option.split stream_callback.split)
  from ensures_result [OF try_returns [OF this error_handler_returns [OF assms(1)]] assms(2)] show ?thesis
    by (simp add: trigger_callback_def bind_op_def e)
qed

lemma ready_returns:
  assumes "callbacks_in_step V" "close_returns V" "\<forall>(fd, event)\<in>set fds. valid_event event"
  shows "ensures in_step (for_op fds (process_ready V)) (\<lambda>_. in_step) (\<lambda>_. False)"
  using assms(3)
proof (induction fds)
  case Nil
  show ?case by (simp add: ensures_ret)
next
  case (Cons x fds)
  obtain fd event where x: "x = (fd, event)" by fastforce
  have "\<exists>s'. process_ready V x s = (Inr (), s') \<and> in_step s'" if "in_step s" for s
  proof (cases "fd \<in> set (dict_keys (sm_callbacks (fst s)))")
    case True
    with Cons.prems x callback_returns [OF assms(1) that True] hangup_returns [OF assms(1, 2) that True] show ?thesis
      by (cases s) (auto simp: process_ready_def read_op_def process_poll_result_def valid_event_def)
  next
    case False
    with that x show ?thesis by (cases s) (simp add: process_ready_def read_op_def ret_op_def)
  qed
  then have "ensures in_step (process_ready V x) (\<lambda>_. in_step) (\<lambda>_. False)" unfolding ensures_def by (fastforce split: prod.splits sum.splits)
  then show ?case using Cons by (auto intro: ensures_then)
qed

lemma mapM_all:
  "(\<And>x. x \<in> set xs \<Longrightarrow> \<exists>y. f x = Inr y \<and> g y = x) \<Longrightarrow> \<exists>ys. mapM_result f xs = Inr ys \<and> map g ys = xs"
  by (induction xs) fastforce+

lemma by_priority_returns:
  assumes "fst ` set fds \<subseteq> set (dict_keys priority)"
  shows "\<exists>fds'. by_priority priority fds = Inr fds' \<and> set fds' = set fds"
proof -
  have "\<exists>y. bind_result (dict_index priority (fst f)) (\<lambda>p. Inr (p, f)) = Inr y \<and> snd y = f" if "f \<in> set fds" for f
    using that assms by (cases "dict_get priority (fst f)") (auto simp: dict_index_def map_of_eq_None_iff)
  from mapM_all [of fds, OF this] obtain pairs where
    p: "mapM_result (\<lambda>f. bind_result (dict_index priority (fst f)) (\<lambda>p. Inr (p, f))) fds = Inr pairs" "map snd pairs = fds"
    by blast
  then have "set (map snd (sort_key (\<lambda>x. - fst x) pairs)) = set fds" by (metis set_map set_sort)
  with p show ?thesis by (simp add: by_priority_def)
qed

lemma idle_keeps: "callbacks_in_step V \<Longrightarrow> keeps in_step (idle_and_hook V idle)"
  unfolding idle_and_hook_def Let_def callbacks_in_step_def
  by (auto intro!: keeps_intros split: option.splits)

lemma idle_stops:
  assumes "idle_and_hook V idle s = (Inr False, s')"
  shows "sm_callbacks (fst s') = []"
  using assms by (auto simp: idle_and_hook_def Let_def op_simps split: option.splits prod.splits sum.splits if_splits)

lemma idle_result:
  assumes "try_op (idle_and_hook V idle) (\<lambda>_. ret_op True) s = (Inr False, s')"
  shows "sm_callbacks (fst s') = []"
proof -
  obtain r s0 where r: "idle_and_hook V idle s = (r, s0)" by (cases "idle_and_hook V idle s") auto
  with assms have "r = Inr False \<and> s0 = s'" by (cases r) (simp_all add: try_op_def ret_op_def)
  with r idle_stops show ?thesis by metis
qed

text \<open>The event loop survives its callbacks. Whatever the registered callbacks do - register and forget
  descriptors, raise, raise again in their error handlers - a round of the loop returns, its result
  says whether descriptors are left, and the poller still has exactly the descriptors with callbacks.
  Callbacks use the monitor only through its operations, the poller reports only descriptors it has,
  with events that were asked for, and closing a descriptor does not raise.\<close>

theorem event_loop_survives:
  assumes "callbacks_in_step V" "close_returns V" "in_step s"
    and "\<And>s. in_step s \<Longrightarrow> \<exists>fds s'. second s = (Inr fds, s') \<and> in_step s' \<and>
      (\<forall>(fd, event)\<in>set fds. fd \<in> set (sm_registered (fst s')) \<and> valid_event event)"
  shows "\<exists>s'. event_loop V first second s = (Inr (sm_callbacks (fst s') \<noteq> []), s') \<and> in_step s'"
proof -
  have handler: "ensures in_step (ret_op True) (\<lambda>_. in_step) (\<lambda>_. False)" for e :: py_error by (rule ensures_ret)
  obtain r s1 where i: "try_op (idle_and_hook V (first = [])) (\<lambda>_. ret_op True) s = (Inr r, s1)" "in_step s1"
    using ensures_result [OF try_returns [OF idle_keeps [OF assms(1)] handler] assms(3)] by blast
  have stop: "sm_callbacks (fst s1) = []" if "\<not> r"
    using i(1) that idle_result by (cases r) simp_all
  obtain ready s2 where s2: "second s1 = (Inr ready, s2)" "in_step s2"
    "\<forall>(fd, event)\<in>set ready. fd \<in> set (sm_registered (fst s2)) \<and> valid_event event" using assms(4) [OF i(2)] by blast
  have "fst ` set ready \<subseteq> set (sm_registered (fst s2))" using s2(3) by auto
  moreover have "set (sm_registered (fst s2)) \<subseteq> set (dict_keys (sm_fd_priority (fst s2)))" using s2(2) by (simp add: in_step_def)
  ultimately have "fst ` set ready \<subseteq> set (dict_keys (sm_fd_priority (fst s2)))" by (rule subset_trans)
  then obtain fds where fds: "by_priority (sm_fd_priority (fst s2)) ready = Inr fds" "set fds = set ready"
    using by_priority_returns by blast
  then have "\<forall>(fd, event)\<in>set fds. valid_event event" using s2(3) by auto
  from ensures_result [OF ready_returns [OF assms(1, 2) this] s2(2)]
  obtain s3 where s3: "for_op fds (process_ready V) s2 = (Inr (), s3)" "in_step s3" by auto
  show ?thesis
  proof (cases r)
    case True
    with i s2 s3 fds show ?thesis
      by (auto simp: event_loop_def bind_op_def then_op_def read_op_def lift_op_def get_op_def split: prod.splits)
  next
    case False
    with i stop show ?thesis by (intro exI [of _ s1]) (simp add: event_loop_def bind_op_def ret_op_def)
  qed
qed

text \<open>Two descriptors: the callback of the first one forgets the second one and raises, and so does its error handler.\<close>

definition example_stream_env :: "(nat, unit) stream_env" where
  "example_stream_env =
     \<lparr>sv_call = (\<lambda>cb. then_op (forget 5) (raise_op RuntimeError)), sv_error = (\<lambda>cb e. raise_op e), sv_idle = None, sv_hook = None,
      sv_flush = (\<lambda>fd. ret_op ()), sv_copy = (\<lambda>fd sink. ret_op ()), sv_close = (\<lambda>fd. ret_op ()), sv_nonblock = (\<lambda>fd. ret_op ())\<rparr>"

definition example_streams :: "nat stream_monitor \<times> unit" where
  "example_streams =
     snd (then_op (monitor_stream example_stream_env ''events'' 4 (Some 0) None None (Some 1) 10)
       (monitor_stream example_stream_env ''log'' 5 None None (Some 7) None 1) (stream_monitor_init, ()))"

definition example_poll :: "nat stream_monitor \<times> unit \<Rightarrow> (int \<times> nat) list" where
  "example_poll s = filter (\<lambda>f. fst f \<in> set (sm_registered (fst s))) [(5, 1), (4, 1)]"

theorem event_loop_survives_witness:
  "in_step example_streams \<and> (\<exists>s'. event_loop example_stream_env [] (get_op example_poll) example_streams = (Inr (sm_callbacks (fst s') \<noteq> []), s') \<and> in_step s')"
proof -
  have env: "callbacks_in_step example_stream_env" "close_returns example_stream_env"
    by (auto simp: callbacks_in_step_def example_stream_env_def close_returns_def ret_op_def intro!: keeps_intros)
  have start: "in_step example_streams" by code_simp
  have in_event: "valid_event 1" by code_simp
  have "\<exists>fds s'. get_op example_poll s = (Inr fds, s') \<and> in_step s' \<and> (\<forall>(fd, event)\<in>set fds. fd \<in> set (sm_registered (fst s')) \<and> valid_event event)"
    if "in_step s" for s
    using in_event that by (auto simp: example_poll_def get_op_def)
  from event_loop_survives [where second = "get_op example_poll" and first = "[]", OF env start this] start show ?thesis by blast
qed

end
