(* ===== verification/Dhcp_Monitor.thy ===== *)
theory Dhcp_Monitor
  imports Py_Regex Threads
begin

text \<open>
  \<open>daq/dhcp_monitor.py\<close>: the lines of a packet capture are searched for the parts of DHCP replies and
  of ARP requests, and every address that is assigned or announced is reported to the gateway. The
  record \<open>dhcp_env\<close> has what is outside: the callback of the gateway, which may raise, the registration
  with the stream monitor, and the capture itself.
\<close>

subsection \<open>State\<close>

record dhcp_target =
  dt_type :: string
  dt_ip :: string
  dt_mac :: string
  dt_delta :: int

datatype dhcp_report = Reported string dhcp_target | MonitorFailed

record dhcp_monitor =
  dm_traffic :: bool
  dm_scan_start :: "int option"
  dm_device_dhcps :: "(string, int) dict"
  dm_target_ip :: "string option"
  dm_target_mac :: "string option"
  dm_log :: "string list option"

type_synonym ('w, 'a) dhcp_op = "(dhcp_monitor \<times> 'w, 'a) op"

record 'w dhcp_env =
  dv_callback :: "dhcp_report \<Rightarrow> ('w, unit) op"
  dv_capture :: "('w, unit) op"
  dv_monitor :: "('w, unit) op"
  dv_forget :: "('w, unit) op"
  dv_terminate :: "('w, unit) op"

definition dhcp_monitor_init :: dhcp_monitor where
  "dhcp_monitor_init =
     \<lparr>dm_traffic = False, dm_scan_start = None, dm_device_dhcps = [], dm_target_ip = None, dm_target_mac = None, dm_log = None\<rparr>"

definition on_dhcp :: "(dhcp_monitor \<Rightarrow> dhcp_monitor) \<Rightarrow> ('w, unit) dhcp_op" where
  "on_dhcp f = modify_op (\<lambda>(m, w). (f m, w))"

definition write_log :: "string \<Rightarrow> ('w, unit) dhcp_op" where
  \<comment> \<open>\<open>if self.dhcp_log: self.dhcp_log.write(...)\<close>\<close>
  "write_log line = on_dhcp (\<lambda>m. m\<lparr>dm_log := map_option (\<lambda>ls. ls @ [line]) (dm_log m)\<rparr>)"

definition dhcp_start :: "'w dhcp_env \<Rightarrow> int \<Rightarrow> bool \<Rightarrow> ('w, unit) dhcp_op" where
  \<comment> \<open>the time, and whether there is a log file\<close>
  "dhcp_start V now logged =
     then_op (on_dhcp (\<lambda>m. m\<lparr>dm_scan_start := Some now, dm_log := (if logged then Some [] else dm_log m)\<rparr>))
    (then_op (zoom_snd (dv_capture V))
    (then_op (on_dhcp (\<lambda>m. m\<lparr>dm_traffic := True\<rparr>)) (zoom_snd (dv_monitor V))))"

subsection \<open>Patterns\<close>

definition ip_char :: "char \<Rightarrow> bool" where "ip_char c \<longleftrightarrow> c \<in> set ''0123456789.''"
definition mac_char :: "char \<Rightarrow> bool" where "mac_char c \<longleftrightarrow> c \<in> set ''abcdef0123456789:''"
definition letter :: "char \<Rightarrow> bool" where
  "letter c \<longleftrightarrow> c \<in> set ''abcdefghijklmnopqrstuvwxyzABCDEFGHIJKLMNOPQRSTUVWXYZ''"

definition DHCP_START_PATTERN :: rx where "DHCP_START_PATTERN = lit ''BOOTP/DHCP''"
definition DHCP_IP_PATTERN :: rx where "DHCP_IP_PATTERN = Cat (lit ''Your-IP '') (Group 3 (Many True 1 ip_char))"
definition DHCP_MAC_PATTERN :: rx where
  "DHCP_MAC_PATTERN = Cat (lit ''Client-Ethernet-Address '') (Group 5 (Many True 1 mac_char))"
definition DHCP_TYPE_PATTERN :: rx where
  "DHCP_TYPE_PATTERN =
     Cat (lit ''DHCP-Message '') (Cat (Many True 0 any_char) (Cat (lit ''53'') (Cat (Many True 0 any_char)
       (Cat (lit '', length 1: '') (Group 7 (Many True 1 letter))))))"
definition DHCP_ARP_PATTERN :: rx where
  "DHCP_ARP_PATTERN =
     Cat (Group 9 (Many True 1 mac_char)) (Cat (lit '' > ff:ff:ff:ff:ff:ff, ethertype ARP '') (Cat (Many True 0 any_char)
       (Cat (lit '' tell '') (Cat (Group 10 (Many True 1 ip_char)) (lit '','')))))"
definition DHCP_PATTERN :: rx where
  "DHCP_PATTERN =
     Alt (Group 1 DHCP_START_PATTERN) (Alt (Group 2 DHCP_IP_PATTERN) (Alt (Group 4 DHCP_MAC_PATTERN)
       (Alt (Group 6 DHCP_TYPE_PATTERN) (Group 8 DHCP_ARP_PATTERN))))"

definition DHCP_THRESHHOLD_SEC :: int where "DHCP_THRESHHOLD_SEC = 80"

definition match_group :: "(nat, string) dict \<Rightarrow> nat \<Rightarrow> string" where
  \<comment> \<open>\<open>match.group(k)\<close>, empty when the group did not take part\<close>
  "match_group g k = (case dict_get g k of Some s \<Rightarrow> s | None \<Rightarrow> [])"

subsection \<open>Lines\<close>

definition non_empty :: "string option \<Rightarrow> bool" where
  "non_empty x \<longleftrightarrow> x \<noteq> None \<and> x \<noteq> Some []"

definition dhcp_complete :: "'w dhcp_env \<Rightarrow> int \<Rightarrow> string \<Rightarrow> ('w, unit) dhcp_op" where
  "dhcp_complete V now dhcp_type =
     (if dhcp_type \<notin> {''ACK'', ''Offer'', ''STATIC''} then ret_op ()
      else read_op (\<lambda>(m, w).
        then_op (assert_op (non_empty (dm_target_ip m)))
       (then_op (assert_op (non_empty (dm_target_mac m)))
         (let ip = the (dm_target_ip m); mac = the (dm_target_mac m); is_dhcp = (dhcp_type \<noteq> ''STATIC'') in
          case (case dict_get (dm_device_dhcps m) mac of Some t \<Rightarrow> Some t | None \<Rightarrow> dm_scan_start m) of
            None \<Rightarrow> raise_op TypeError
          | Some t \<Rightarrow>
              let delta = now - t;
                  mode = (if is_dhcp \<and> delta > DHCP_THRESHHOLD_SEC then ''long'' else ''done'')
              in then_op (on_dhcp (\<lambda>m. if dhcp_type = ''ACK'' then m\<lparr>dm_device_dhcps := dict_set mac now (dm_device_dhcps m)\<rparr> else m))
                   (zoom_snd (dv_callback V (Reported mode \<lparr>dt_type = dhcp_type, dt_ip = ip, dt_mac = mac, dt_delta = delta\<rparr>)))))))"

definition dhcp_match :: "'w dhcp_env \<Rightarrow> int \<Rightarrow> (nat, string) dict \<Rightarrow> ('w, unit) dhcp_op" where
  "dhcp_match V now g =
     (if match_group g 1 \<noteq> [] then on_dhcp (\<lambda>m. m\<lparr>dm_target_ip := None, dm_target_mac := None\<rparr>)
      else if match_group g 2 \<noteq> [] then
        read_op (\<lambda>(m, w). then_op (assert_op (\<not> non_empty (dm_target_ip m))) (on_dhcp (\<lambda>m. m\<lparr>dm_target_ip := Some (match_group g 3)\<rparr>)))
      else if match_group g 4 \<noteq> [] then
        read_op (\<lambda>(m, w). then_op (assert_op (\<not> non_empty (dm_target_mac m))) (on_dhcp (\<lambda>m. m\<lparr>dm_target_mac := Some (match_group g 5)\<rparr>)))
      else if match_group g 6 \<noteq> [] then dhcp_complete V now (match_group g 7)
      else if match_group g 8 \<noteq> [] then
        then_op (on_dhcp (\<lambda>m. m\<lparr>dm_target_ip := Some (match_group g 10), dm_target_mac := Some (match_group g 9)\<rparr>))
          (dhcp_complete V now ''STATIC'')
      else ret_op ())"

definition dhcp_line :: "'w dhcp_env \<Rightarrow> int \<Rightarrow> string \<Rightarrow> ('w, unit) dhcp_op" where
  "dhcp_line V now line =
     (if line = [] then ret_op ()
      else then_op (write_log line) (case rx_search DHCP_PATTERN line of None \<Rightarrow> ret_op () | Some g \<Rightarrow> dhcp_match V now g))"

subsection \<open>Errors\<close>

definition dhcp_cleanup :: "'w dhcp_env \<Rightarrow> ('w, unit) dhcp_op" where
  "dhcp_cleanup V =
     then_op (on_dhcp (\<lambda>m. m\<lparr>dm_log := None\<rparr>))
       (read_op (\<lambda>(m, w). if \<not> dm_traffic m then ret_op ()
          else then_op (zoom_snd (dv_forget V)) (then_op (zoom_snd (dv_terminate V)) (on_dhcp (\<lambda>m. m\<lparr>dm_traffic := False\<rparr>)))))"

definition dhcp_error :: "'w dhcp_env \<Rightarrow> ('w, unit) dhcp_op" where
  \<comment> \<open>the text of the exception is left out of the log\<close>
  "dhcp_error V =
     then_op (write_log ''Monitor error'') (then_op (dhcp_cleanup V) (zoom_snd (dv_callback V MonitorFailed)))"

definition dhcp_hangup :: "'w dhcp_env \<Rightarrow> ('w, unit) dhcp_op" where
  "dhcp_hangup V = then_op (on_dhcp (\<lambda>m. m\<lparr>dm_traffic := False\<rparr>)) (dhcp_error V)"

text \<open>
  What the stream monitor does with the three callbacks: it calls one of them while the capture is
  registered, and the error handler when that raises.
\<close>

datatype capture_event = CaptureLine string | CaptureHangup

fun dhcp_event :: "(int \<Rightarrow> 'w dhcp_env) \<Rightarrow> int \<times> capture_event \<Rightarrow> ('w, unit) dhcp_op" where
  "dhcp_event V (now, ev) =
     read_op (\<lambda>(m, w). if \<not> dm_traffic m then ret_op ()
       else try_op (case ev of CaptureLine line \<Rightarrow> dhcp_line (V now) now line | CaptureHangup \<Rightarrow> dhcp_hangup (V now))
              (\<lambda>e. try_op (dhcp_error (V now)) (\<lambda>_. ret_op ())))"

subsection \<open>Reports follow the history\<close>

text \<open>A gateway that records the reports with their times, and may raise whenever it is called.\<close>

type_synonym report_log = "(int \<times> dhcp_report) list"

definition recording :: "(report_log \<Rightarrow> unit result) \<Rightarrow> int \<Rightarrow> report_log dhcp_env" where
  "recording outcome now =
     (let call = (\<lambda>w. (outcome w, w)) in
      \<lparr>dv_callback = (\<lambda>r w. (outcome w, w @ [(now, r)])), dv_capture = call, dv_monitor = call, dv_forget = call, dv_terminate = call\<rparr>)"

definition dhcp_started :: "int \<Rightarrow> bool \<Rightarrow> dhcp_monitor \<times> report_log" where
  "dhcp_started t0 logged = snd (dhcp_start (recording (\<lambda>_. Inr ()) t0) t0 logged (dhcp_monitor_init, []))"

definition dhcp_run :: "(report_log \<Rightarrow> unit result) \<Rightarrow> (int \<times> capture_event) list \<Rightarrow> dhcp_monitor \<times> report_log \<Rightarrow> dhcp_monitor \<times> report_log" where
  "dhcp_run outcome = fold (\<lambda>ev s. snd (dhcp_event (recording outcome) ev s))"

fun last_ack :: "int \<Rightarrow> string \<Rightarrow> report_log \<Rightarrow> int" where
  \<comment> \<open>the time of the last ACK for the address, or of the start\<close>
  "last_ack t0 mac [] = t0"
| "last_ack t0 mac ((t, r) # log) =
     (case r of
        Reported _ tg \<Rightarrow> if dt_type tg = ''ACK'' \<and> dt_mac tg = mac then last_ack t mac log else last_ack t0 mac log
      | MonitorFailed \<Rightarrow> last_ack t0 mac log)"

definition justified_report :: "int \<Rightarrow> report_log \<Rightarrow> int \<Rightarrow> dhcp_report \<Rightarrow> bool" where
  "justified_report t0 before t r =
     (case r of
        Reported mode tg \<Rightarrow>
          dt_type tg \<in> {''ACK'', ''Offer'', ''STATIC''} \<and> dt_ip tg \<noteq> [] \<and> dt_mac tg \<noteq> [] \<and>
          dt_delta tg = t - last_ack t0 (dt_mac tg) before \<and>
          mode = (if dt_type tg \<noteq> ''STATIC'' \<and> dt_delta tg > DHCP_THRESHHOLD_SEC then ''long'' else ''done'')
      | MonitorFailed \<Rightarrow> True)"

definition justified :: "int \<Rightarrow> report_log \<Rightarrow> bool" where
  "justified t0 log = list_all (\<lambda>i. justified_report t0 (take i log) (fst (log ! i)) (snd (log ! i))) [0..<length log]"

lemma justified_append: "justified t0 (log @ [(t, r)]) \<longleftrightarrow> justified t0 log \<and> justified_report t0 log t r"
  by (auto simp: justified_def list_all_iff nth_append less_Suc_eq)

lemma last_ack_append:
  "last_ack t0 mac (log @ [(t, r)]) =
     (case r of Reported _ tg \<Rightarrow> if dt_type tg = ''ACK'' \<and> dt_mac tg = mac then t else last_ack t0 mac log | MonitorFailed \<Rightarrow> last_ack t0 mac log)"
  by (induction log arbitrary: t0) (auto split: dhcp_report.splits)

definition history_kept :: "int \<Rightarrow> dhcp_monitor \<times> report_log \<Rightarrow> bool" where
  "history_kept t0 s =
     (justified t0 (snd s) \<and> dm_scan_start (fst s) = Some t0 \<and>
      (\<forall>mac. (case dict_get (dm_device_dhcps (fst s)) mac of Some t \<Rightarrow> t | None \<Rightarrow> t0) = last_ack t0 mac (snd s)))"

lemma on_dhcp_history [keeps_intros]:
  "(\<And>m. dm_scan_start (f m) = dm_scan_start m \<and> dm_device_dhcps (f m) = dm_device_dhcps m) \<Longrightarrow> keeps (history_kept t0) (on_dhcp f)"
  by (auto simp: keeps_def on_dhcp_def modify_op_def history_kept_def)

lemma write_log_history [keeps_intros]: "keeps (history_kept t0) (write_log line)"
  unfolding write_log_def by (intro keeps_intros) simp

lemma recording_history [keeps_intros]:
  "keeps (history_kept t0) (zoom_snd (dv_forget (recording outcome now)))"
  "keeps (history_kept t0) (zoom_snd (dv_terminate (recording outcome now)))"
  "keeps (history_kept t0) (zoom_snd (dv_callback (recording outcome now) MonitorFailed))"
  by (auto simp: keeps_def zoom_snd_def recording_def Let_def history_kept_def justified_append last_ack_append justified_report_def)

lemma dhcp_complete_history [keeps_intros]: "keeps (history_kept t0) (dhcp_complete (recording outcome now) now k)"
  unfolding keeps_def
proof (intro allI impI)
  fix s assume I: "history_kept t0 s"
  obtain m w where s: "s = (m, w)" by fastforce
  show "history_kept t0 (snd (dhcp_complete (recording outcome now) now k s))"
  proof (cases "k \<in> {''ACK'', ''Offer'', ''STATIC''} \<and> non_empty (dm_target_ip m) \<and> non_empty (dm_target_mac m)")
    case True
    then obtain ip mac where a: "dm_target_ip m = Some ip" "dm_target_mac m = Some mac" "ip \<noteq> []" "mac \<noteq> []"
      by (auto simp: non_empty_def)
    define t where "t = last_ack t0 mac w"
    have t: "(case dict_get (dm_device_dhcps m) mac of Some t \<Rightarrow> Some t | None \<Rightarrow> dm_scan_start m) = Some t"
      using I s unfolding history_kept_def t_def by (cases "dict_get (dm_device_dhcps m) mac") (auto dest: spec [of _ mac])
    define r where "r = Reported (if k \<noteq> ''STATIC'' \<and> now - t > DHCP_THRESHHOLD_SEC then ''long'' else ''done'')
      \<lparr>dt_type = k, dt_ip = ip, dt_mac = mac, dt_delta = now - t\<rparr>"
    have "snd (dhcp_complete (recording outcome now) now k s) =
      (if k = ''ACK'' then m\<lparr>dm_device_dhcps := dict_set mac now (dm_device_dhcps m)\<rparr> else m, w @ [(now, r)])"
      using True a t unfolding dhcp_complete_def s r_def
      by (auto simp: read_op_def then_op_def bind_op_def assert_op_def ret_op_def on_dhcp_def modify_op_def zoom_snd_def recording_def Let_def)
    moreover have "justified_report t0 w now r" using True a by (auto simp: justified_report_def r_def t_def)
    ultimately show ?thesis using I s
      by (auto simp: history_kept_def justified_append last_ack_append r_def dict_get_set)
  next
    case False
    with I s show ?thesis
      by (auto simp: dhcp_complete_def read_op_def then_op_def bind_op_def assert_op_def ret_op_def raise_op_def)
  qed
qed

lemma dhcp_event_history: "keeps (history_kept t0) (dhcp_event (recording outcome) ev)"
proof -
  obtain now e where ev: "ev = (now, e)" by fastforce
  have line: "keeps (history_kept t0) (dhcp_line (recording outcome now) now line)" for line
    unfolding dhcp_line_def dhcp_match_def by (intro keeps_intros) auto
  have error: "keeps (history_kept t0) (dhcp_error (recording outcome now))"
    unfolding dhcp_error_def dhcp_cleanup_def by (intro keeps_intros) auto
  have "keeps (history_kept t0) (dhcp_hangup (recording outcome now))"
    unfolding dhcp_hangup_def by (intro keeps_intros error) auto
  with line error show ?thesis
    unfolding ev dhcp_event.simps by (intro keeps_intros) (auto split: capture_event.splits)
qed

text \<open>C17: what the DHCP monitor reports follows from what it saw. Whatever is captured and however the gateway
  reacts, exceptions included, every report has an address, and its delay is the time since the last
  ACK that was reported for the device, or since the start of the scan; it is a slow reply exactly when
  that is more than the threshold and the address was not announced by ARP.\<close>

theorem dhcp_reports_follow_history:
  "justified t0 (snd (dhcp_run outcome events (dhcp_started t0 logged)))"
proof -
  have "history_kept t0 (dhcp_started t0 logged)"
    by (simp add: dhcp_started_def dhcp_start_def recording_def Let_def op_simps on_dhcp_def dhcp_monitor_init_def history_kept_def justified_def)
  then have "history_kept t0 (dhcp_run outcome events (dhcp_started t0 logged))"
    unfolding dhcp_run_def
  proof (induction events arbitrary: t0 rule: rev_induct)
    case (snoc ev events)
    then show ?case using keepsD [OF dhcp_event_history] by simp
  qed simp
  then show ?thesis by (simp add: history_kept_def)
qed

subsection \<open>A reply is reported\<close>

datatype dhcp_token = Reset | Ip string | Mac string | Kind string | Arp string string

definition dhcp_token :: "string \<Rightarrow> dhcp_token option" where
  \<comment> \<open>which part of a packet a line is\<close>
  "dhcp_token line =
     (if line = [] then None
      else case rx_search DHCP_PATTERN line of
        None \<Rightarrow> None
      | Some g \<Rightarrow>
          if match_group g 1 \<noteq> [] then Some Reset
          else if match_group g 2 \<noteq> [] then Some (Ip (match_group g 3))
          else if match_group g 4 \<noteq> [] then Some (Mac (match_group g 5))
          else if match_group g 6 \<noteq> [] then Some (Kind (match_group g 7))
          else if match_group g 8 \<noteq> [] then Some (Arp (match_group g 9) (match_group g 10)) else None)"

fun token_op :: "'w dhcp_env \<Rightarrow> int \<Rightarrow> dhcp_token \<Rightarrow> ('w, unit) dhcp_op" where
  "token_op V now Reset = on_dhcp (\<lambda>m. m\<lparr>dm_target_ip := None, dm_target_mac := None\<rparr>)"
| "token_op V now (Ip ip) =
     read_op (\<lambda>(m, w). then_op (assert_op (\<not> non_empty (dm_target_ip m))) (on_dhcp (\<lambda>m. m\<lparr>dm_target_ip := Some ip\<rparr>)))"
| "token_op V now (Mac mac) =
     read_op (\<lambda>(m, w). then_op (assert_op (\<not> non_empty (dm_target_mac m))) (on_dhcp (\<lambda>m. m\<lparr>dm_target_mac := Some mac\<rparr>)))"
| "token_op V now (Kind k) = dhcp_complete V now k"
| "token_op V now (Arp mac ip) =
     then_op (on_dhcp (\<lambda>m. m\<lparr>dm_target_ip := Some ip, dm_target_mac := Some mac\<rparr>)) (dhcp_complete V now ''STATIC'')"

lemma dhcp_line_token:
  "dhcp_line V now line =
     (if line = [] then ret_op () else then_op (write_log line) (case dhcp_token line of None \<Rightarrow> ret_op () | Some t \<Rightarrow> token_op V now t))"
  by (simp add: dhcp_line_def dhcp_token_def dhcp_match_def split: option.splits)

abbreviation feed :: "int \<Rightarrow> string list \<Rightarrow> dhcp_monitor \<times> report_log \<Rightarrow> dhcp_monitor \<times> report_log" where
  "feed now lines \<equiv> dhcp_run (\<lambda>_. Inr ()) (map (\<lambda>l. (now, CaptureLine l)) lines)"

lemma feed_append: "feed now (xs @ ys) s = feed now ys (feed now xs s)"
  by (simp add: dhcp_run_def)

lemma feed_line:
  assumes "dm_traffic m"
  shows "\<exists>lg. feed now [line] (m, w) =
    (case dhcp_token line of
       None \<Rightarrow> (m\<lparr>dm_log := lg\<rparr>, w)
     | Some t \<Rightarrow>
         (case token_op (recording (\<lambda>_. Inr ()) now) now t (m\<lparr>dm_log := lg\<rparr>, w) of
            (Inr _, s) \<Rightarrow> s
          | (Inl _, s) \<Rightarrow> snd (try_op (dhcp_error (recording (\<lambda>_. Inr ()) now)) (\<lambda>_. ret_op ()) s)))"
proof (cases "line = []")
  case True
  have "m\<lparr>dm_log := dm_log m\<rparr> = m" by simp
  with True assms show ?thesis
    by (intro exI [of _ "dm_log m"]) (simp add: dhcp_run_def dhcp_token_def dhcp_line_def read_op_def try_op_def ret_op_def)
next
  case False
  then show ?thesis
    using assms
    by (intro exI [of _ "map_option (\<lambda>ls. ls @ [line]) (dm_log m)"])
      (auto simp: dhcp_run_def dhcp_line_token read_op_def try_op_def ret_op_def then_op_def bind_op_def write_log_def on_dhcp_def modify_op_def
        split: option.splits prod.splits sum.splits)
qed

lemma feed_noise:
  assumes "dm_traffic m" "\<forall>l\<in>set ls. dhcp_token l = None"
  shows "\<exists>lg. feed now ls (m, w) = (m\<lparr>dm_log := lg\<rparr>, w)"
  using assms
proof (induction ls arbitrary: m)
  case Nil
  have "m\<lparr>dm_log := dm_log m\<rparr> = m" by simp
  then show ?case by (intro exI [of _ "dm_log m"]) (simp add: dhcp_run_def)
next
  case (Cons l ls)
  obtain lg where "feed now [l] (m, w) = (m\<lparr>dm_log := lg\<rparr>, w)" using feed_line [of m now l w] Cons.prems by auto
  moreover obtain lg' where "feed now ls (m\<lparr>dm_log := lg\<rparr>, w) = (m\<lparr>dm_log := lg\<rparr>\<lparr>dm_log := lg'\<rparr>, w)"
    using Cons.IH [of "m\<lparr>dm_log := lg\<rparr>"] Cons.prems by auto
  ultimately show ?case using feed_append [of now "[l]" ls] by auto
qed

lemma map_filter_Cons:
  assumes "List.map_filter f xs = y # ys"
  shows "\<exists>p x q. xs = p @ x # q \<and> (\<forall>z\<in>set p. f z = None) \<and> f x = Some y \<and> List.map_filter f q = ys"
  using assms
proof (induction xs)
  case (Cons z xs)
  show ?case
  proof (cases "f z")
    case None
    with Cons obtain p x q where "xs = p @ x # q" "\<forall>z\<in>set p. f z = None" "f x = Some y" "List.map_filter f q = ys" by auto
    with None show ?thesis by (intro exI [of _ "z # p"]) auto
  next
    case (Some a)
    with Cons.prems show ?thesis by (intro exI [of _ "[]"] exI [of _ z] exI [of _ xs]) simp
  qed
qed simp

text \<open>The next part of a packet, after lines that are none: the state up to the log file.\<close>

lemma feed_part:
  assumes "dm_traffic m" "List.map_filter dhcp_token lines = t # ts"
    and "\<And>lg. token_op (recording (\<lambda>_. Inr ()) now) now t (m\<lparr>dm_log := lg\<rparr>, w) = (Inr (), (m'\<lparr>dm_log := lg\<rparr>, w'))"
  shows "\<exists>rest lg. feed now lines (m, w) = feed now rest (m'\<lparr>dm_log := lg\<rparr>, w') \<and> List.map_filter dhcp_token rest = ts"
proof -
  obtain p x q where x: "lines = p @ [x] @ q" "\<forall>z\<in>set p. dhcp_token z = None" "dhcp_token x = Some t" "List.map_filter dhcp_token q = ts"
    using map_filter_Cons [OF assms(2)] by auto
  obtain lg where "feed now p (m, w) = (m\<lparr>dm_log := lg\<rparr>, w)" using feed_noise [OF assms(1) x(2)] by blast
  moreover obtain lg' where "feed now [x] (m\<lparr>dm_log := lg\<rparr>, w) = (m'\<lparr>dm_log := lg'\<rparr>, w')"
    using feed_line [of "m\<lparr>dm_log := lg\<rparr>" now x w] assms(1, 3) x(3) by auto
  ultimately have "feed now lines (m, w) = feed now q (m'\<lparr>dm_log := lg'\<rparr>, w')" unfolding x(1) feed_append by simp
  with x(4) show ?thesis by blast
qed

text \<open>C35: a DHCP reply is reported, once. When the captured lines are, among any others, the start of a packet,
  the address, the hardware address of the client and the type of an ACK or Offer, in this order, the
  gateway is told exactly once, with the address, the hardware address and the delay.\<close>

theorem dhcp_reply_reported:
  assumes "dm_traffic m" "dm_scan_start m = Some t0"
    and "List.map_filter dhcp_token lines = [Reset, Ip ip, Mac mac, Kind k]"
    and "ip \<noteq> []" "mac \<noteq> []" "k \<in> {''ACK'', ''Offer''}"
  shows "snd (feed now lines (m, w)) =
    w @ [(now, let delta = now - (case dict_get (dm_device_dhcps m) mac of Some t \<Rightarrow> t | None \<Rightarrow> t0) in
       Reported (if delta > DHCP_THRESHHOLD_SEC then ''long'' else ''done'') \<lparr>dt_type = k, dt_ip = ip, dt_mac = mac, dt_delta = delta\<rparr>)]"
proof -
  let ?m1 = "\<lambda>lg. m\<lparr>dm_target_ip := None, dm_target_mac := None, dm_log := lg\<rparr>"
  let ?m2 = "\<lambda>lg. m\<lparr>dm_target_ip := Some ip, dm_target_mac := None, dm_log := lg\<rparr>"
  let ?m3 = "\<lambda>lg. m\<lparr>dm_target_ip := Some ip, dm_target_mac := Some mac, dm_log := lg\<rparr>"
  let ?t = "case dict_get (dm_device_dhcps m) mac of Some t \<Rightarrow> t | None \<Rightarrow> t0"
  let ?r = "Reported (if now - ?t > DHCP_THRESHHOLD_SEC then ''long'' else ''done'') \<lparr>dt_type = k, dt_ip = ip, dt_mac = mac, dt_delta = now - ?t\<rparr>"
  let ?m4 = "\<lambda>lg. m\<lparr>dm_device_dhcps := (if k = ''ACK'' then dict_set mac now (dm_device_dhcps m) else dm_device_dhcps m),
      dm_target_ip := Some ip, dm_target_mac := Some mac, dm_log := lg\<rparr>"
  obtain r1 l1 where 1: "feed now lines (m, w) = feed now r1 (?m1 l1, w)" "List.map_filter dhcp_token r1 = [Ip ip, Mac mac, Kind k]"
    using feed_part [OF assms(1, 3), where now = now and m' = "?m1 None" and w' = w] by (auto simp: on_dhcp_def modify_op_def)
  obtain r2 l2 where 2: "feed now r1 (?m1 l1, w) = feed now r2 (?m2 l2, w)" "List.map_filter dhcp_token r2 = [Mac mac, Kind k]"
    using feed_part [OF _ 1(2), where now = now and w = w and m = "?m1 l1" and m' = "?m2 None" and w' = w] assms(1)
    by (auto simp: on_dhcp_def modify_op_def read_op_def then_op_def bind_op_def assert_op_def non_empty_def ret_op_def)
  obtain r3 l3 where 3: "feed now r2 (?m2 l2, w) = feed now r3 (?m3 l3, w)" "List.map_filter dhcp_token r3 = [Kind k]"
    using feed_part [OF _ 2(2), where now = now and w = w and m = "?m2 l2" and m' = "?m3 None" and w' = w] assms(1)
    by (auto simp: on_dhcp_def modify_op_def read_op_def then_op_def bind_op_def assert_op_def non_empty_def ret_op_def)
  have "token_op (recording (\<lambda>_. Inr ()) now) now (Kind k) (?m3 lg, w) = (Inr (), (?m4 lg, w @ [(now, ?r)]))" for lg
    using assms(2, 4, 5, 6)
    by (auto simp: dhcp_complete_def on_dhcp_def modify_op_def read_op_def then_op_def bind_op_def assert_op_def non_empty_def ret_op_def
        zoom_snd_def recording_def Let_def split: option.splits)
  then obtain r4 l4 where 4: "feed now r3 (?m3 l3, w) = feed now r4 (?m4 l4, w @ [(now, ?r)])" "List.map_filter dhcp_token r4 = []"
    using feed_part [OF _ 3(2), where now = now and w = w and m = "?m3 l3" and m' = "?m4 None" and w' = "w @ [(now, ?r)]"] assms(1) by auto
  have "\<forall>l\<in>set r4. dhcp_token l = None" using 4(2) by (induction r4) (auto split: option.splits)
  then obtain l5 where "feed now r4 (?m4 l4, w @ [(now, ?r)]) = ((?m4 l4)\<lparr>dm_log := l5\<rparr>, w @ [(now, ?r)])"
    using feed_noise [of "?m4 l4" r4 now "w @ [(now, ?r)]"] assms(1) by auto
  then show ?thesis unfolding 1 2 3 4 by (simp add: Let_def)
qed

definition reply_lines :: "string list" where
  \<comment> \<open>a reply as \<open>tcpdump -v\<close> prints it\<close>
  "reply_lines =
     map (\<lambda>l. l @ [newline])
       [''15:47:19.000 IP (tos 0x10, ttl 128)'',
        ''    10.20.0.1.67 > 10.20.0.38.68: BOOTP/DHCP, Reply, length 300'',
        ''      Your-IP 10.20.0.38'',
        ''      Client-Ethernet-Address 9a:02:57:1e:8f:01'',
        ''        DHCP-Message Option 53, length 1: ACK'',
        ''        Lease-Time Option 51, length 4: 600'']"

theorem dhcp_reply_reported_witness:
  "snd (feed 100 reply_lines (fst (dhcp_started 10 False), [])) =
     [(100, Reported ''long'' \<lparr>dt_type = ''ACK'', dt_ip = ''10.20.0.38'', dt_mac = ''9a:02:57:1e:8f:01'', dt_delta = 90\<rparr>)]"
proof -
  have tokens: "List.map_filter dhcp_token reply_lines = [Reset, Ip ''10.20.0.38'', Mac ''9a:02:57:1e:8f:01'', Kind ''ACK'']"
    by code_simp
  have start: "dm_traffic (fst (dhcp_started 10 False))" "dm_scan_start (fst (dhcp_started 10 False)) = Some 10"
    "dm_device_dhcps (fst (dhcp_started 10 False)) = []" by code_simp+
  from dhcp_reply_reported [OF start(1, 2) tokens, of 100 "[]"] start(3) show ?thesis
    by (simp add: DHCP_THRESHHOLD_SEC_def)
qed

end
