(* ===== verification/Session_Server.thy ===== *)
theory Session_Server
  imports Runner
begin

text \<open>
  \<open>daq/session_server.py\<close>: remote devices start a session and are sent its progress through a queue. A
  session has an entry in \<open>ss_clients\<close> and, while the other side reads it, a stream (the generator
  \<open>_session_stream\<close>, suspended at its \<open>yield\<close>) with the items it has yielded. The threads that serve
  \<open>StartSession\<close> are in \<open>ss_starting\<close>, with the place they are at: after the entry is made under the
  lock, the two replies and the call of the runner are steps of their own, between which others may
  come. \<open>session_env\<close> has the callbacks of the runner, which work on a state of their own and may raise.
\<close>

subsection \<open>State\<close>

datatype port_behavior = Unknown_Port | Authenticated_Port | Failed_Port | Passed_Port | Other_Port nat

datatype result_code = PENDING | STARTED | FAILED | PASSED

text \<open>The messages of a session, and \<open>False\<close>, which ends it.\<close>

datatype session_item = Endpoint "string option" | Result result_code | Heartbeat_Item | End_Of_Stream

record session_client =
  sc_return_queue :: "session_item list"
  sc_last_streamed :: int
  sc_init_request :: session_request

datatype start_phase = At_Endpoint | At_Result | At_Callback

record session_server =
  ss_clients :: "(string, session_client) dict"
  ss_starting :: "(string, start_phase \<times> session_request) dict"
  ss_streams :: "(string, session_item list) dict"
  ss_ended :: "(string \<times> session_item list) list"

type_synonym ('w, 'a) session_op = "(session_server \<times> 'w, 'a) op"

record 'w session_env =
  sn_on_session :: "session_request \<Rightarrow> ('w, unit) op"
  sn_on_session_end :: "(session_request \<Rightarrow> ('w, unit) op) option"
  sn_local_ip :: "string option"

definition DEFAULT_DISCONNECT_TIMEOUT_SEC :: int where "DEFAULT_DISCONNECT_TIMEOUT_SEC = 120"

definition session_server_init :: session_server where
  "session_server_init = \<lparr>ss_clients = [], ss_starting = [], ss_streams = [], ss_ended = []\<rparr>"

fun SESSION_DEVICE_RESULT :: "port_behavior \<Rightarrow> result_code result" where
  "SESSION_DEVICE_RESULT Unknown_Port = Inr PENDING"
| "SESSION_DEVICE_RESULT Authenticated_Port = Inr STARTED"
| "SESSION_DEVICE_RESULT Failed_Port = Inr FAILED"
| "SESSION_DEVICE_RESULT Passed_Port = Inr PASSED"
| "SESSION_DEVICE_RESULT (Other_Port n) = Inl KeyError"

definition on_server :: "(session_server \<Rightarrow> session_server) \<Rightarrow> ('w, unit) session_op" where
  "on_server f = modify_op (\<lambda>(s, w). (f s, w))"

definition client_of :: "string \<Rightarrow> ('w, session_client) session_op" where
  "client_of mac = read_op (\<lambda>(s, w). lift_op (dict_index (ss_clients s) mac))"

definition set_client :: "string \<Rightarrow> session_client \<Rightarrow> ('w, unit) session_op" where
  "set_client mac c = on_server (\<lambda>s. s\<lparr>ss_clients := dict_set mac c (ss_clients s)\<rparr>)"

subsection \<open>Replies\<close>

definition send_reply :: "string \<Rightarrow> session_item \<Rightarrow> ('w, unit) session_op" where
  "send_reply mac item =
     bind_op (client_of mac) (\<lambda>c. set_client mac (c\<lparr>sc_return_queue := sc_return_queue c @ [item]\<rparr>))"

definition session_device_result :: "string \<Rightarrow> port_behavior \<Rightarrow> ('w, unit) session_op" where
  \<comment> \<open>\<open>send_device_result\<close>\<close>
  "session_device_result mac device_result =
     read_op (\<lambda>(s, w). if mac \<notin> set (dict_keys (ss_clients s)) then ret_op ()
       else bind_op (lift_op (SESSION_DEVICE_RESULT device_result)) (\<lambda>code. send_reply mac (Result code)))"

definition close_stream :: "string \<Rightarrow> ('w, unit) session_op" where
  "close_stream mac = send_reply mac End_Of_Stream"

definition heartbeat_client :: "int \<Rightarrow> string \<Rightarrow> ('w, unit) session_op" where
  \<comment> \<open>the body of the loop of \<open>send_device_heartbeats\<close>\<close>
  "heartbeat_client now mac =
     bind_op (client_of mac) (\<lambda>c.
       if now - sc_last_streamed c < DEFAULT_DISCONNECT_TIMEOUT_SEC then send_reply mac Heartbeat_Item else close_stream mac)"

definition send_device_heartbeats :: "int \<Rightarrow> ('w, unit) session_op" where
  "send_device_heartbeats now = read_op (\<lambda>(s, w). for_op (dict_keys (ss_clients s)) (heartbeat_client now))"

subsection \<open>Sessions\<close>

definition set_starting :: "string \<Rightarrow> (start_phase \<times> session_request) option \<Rightarrow> ('w, unit) session_op" where
  "set_starting mac p = on_server (\<lambda>s. s\<lparr>ss_starting :=
     (case p of Some x \<Rightarrow> dict_set mac x (ss_starting s) | None \<Rightarrow> dict_del mac (ss_starting s))\<rparr>)"

definition init_session :: "int \<Rightarrow> session_request \<Rightarrow> ('w, unit) session_op" where
  \<comment> \<open>the part of \<open>_init_session\<close> under the lock\<close>
  "init_session now rq =
     (let mac = sr_mac rq in
      read_op (\<lambda>(s, w).
        then_op (assert_op (mac \<notin> set (dict_keys (ss_clients s))))
       (then_op (set_client mac \<lparr>sc_return_queue = [], sc_last_streamed = now, sc_init_request = rq\<rparr>)
         (set_starting mac (Some (At_Endpoint, rq))))))"

fun start_phase_op :: "'w session_env \<Rightarrow> string \<Rightarrow> start_phase \<Rightarrow> session_request \<Rightarrow> ('w, unit) session_op" where
  "start_phase_op V mac At_Endpoint rq =
     then_op (send_reply mac (Endpoint (sn_local_ip V))) (set_starting mac (Some (At_Result, rq)))"
| "start_phase_op V mac At_Result rq =
     then_op (session_device_result mac Authenticated_Port) (set_starting mac (Some (At_Callback, rq)))"
| "start_phase_op V mac At_Callback rq =
     then_op (zoom_snd (sn_on_session V rq))
    (then_op (on_server (\<lambda>s. s\<lparr>ss_streams := dict_set mac [] (ss_streams s)\<rparr>))
       (set_starting mac None))"

definition continue_start :: "'w session_env \<Rightarrow> string \<Rightarrow> ('w, unit) session_op" where
  \<comment> \<open>the rest of \<open>_init_session\<close>, one reply at a time, and of \<open>StartSession\<close>, which makes the stream; an
      exception ends the thread\<close>
  "continue_start V mac =
     read_op (\<lambda>(s, w). case dict_get (ss_starting s) mac of
        None \<Rightarrow> ret_op ()
      | Some (phase, rq) \<Rightarrow> try_op (start_phase_op V mac phase rq) (\<lambda>e. then_op (set_starting mac None) (raise_op e)))"

definition reap_session :: "'w session_env \<Rightarrow> string \<Rightarrow> ('w, unit) session_op" where
  "reap_session V mac =
     then_op (case sn_on_session_end V of
                None \<Rightarrow> ret_op ()
              | Some f \<Rightarrow> bind_op (client_of mac) (\<lambda>c. zoom_snd (f (sc_init_request c))))
       (read_op (\<lambda>(s, w). if mac \<in> set (dict_keys (ss_clients s))
          then on_server (\<lambda>s. s\<lparr>ss_clients := dict_del mac (ss_clients s)\<rparr>) else raise_op KeyError))"

definition end_stream :: "string \<Rightarrow> ('w, unit) session_op" where
  \<comment> \<open>the generator is finished\<close>
  "end_stream mac = on_server (\<lambda>s. s\<lparr>ss_streams := dict_del mac (ss_streams s),
     ss_ended := ss_ended s @ [(mac, the (dict_get (ss_streams s) mac))]\<rparr>)"

definition session_stream_next :: "'w session_env \<Rightarrow> int \<Rightarrow> string \<Rightarrow> ('w, unit) session_op" where
  \<comment> \<open>the generator is resumed; with an empty queue it waits\<close>
  "session_stream_next V now mac =
     read_op (\<lambda>(s, w). case dict_get (ss_streams s) mac of
        None \<Rightarrow> ret_op ()
      | Some yielded \<Rightarrow>
          (case dict_get (ss_clients s) mac of
             None \<Rightarrow> then_op (end_stream mac) (raise_op KeyError)
           | Some c \<Rightarrow>
               (case sc_return_queue c of
                  [] \<Rightarrow> ret_op ()
                | item # q \<Rightarrow>
                    then_op (set_client mac (c\<lparr>sc_return_queue := q, sc_last_streamed := now\<rparr>))
                      (if item = End_Of_Stream then then_op (end_stream mac) (reap_session V mac)
                       else on_server (\<lambda>s. s\<lparr>ss_streams := dict_set mac (yielded @ [item]) (ss_streams s)\<rparr>)))))"

definition session_stream_exit :: "'w session_env \<Rightarrow> string \<Rightarrow> ('w, unit) session_op" where
  \<comment> \<open>the generator is closed early; \<open>GeneratorExit\<close> is raised only in one that has begun, which then has yielded\<close>
  "session_stream_exit V mac =
     read_op (\<lambda>(s, w). case dict_get (ss_streams s) mac of
        None \<Rightarrow> ret_op ()
      | Some yielded \<Rightarrow> then_op (end_stream mac) (if yielded = [] then ret_op () else reap_session V mac))"

text \<open>The steps of the threads of the server and of the runner; an exception ends only the step.\<close>

datatype session_step =
    Start_Session int session_request
  | Continue_Start string
  | Stream_Next int string
  | Stream_Exit string
  | Device_Result string port_behavior
  | Close_Stream string
  | Heartbeats int

fun session_step_op :: "'w session_env \<Rightarrow> session_step \<Rightarrow> ('w, unit) session_op" where
  "session_step_op V (Start_Session now rq) = init_session now rq"
| "session_step_op V (Continue_Start mac) = continue_start V mac"
| "session_step_op V (Stream_Next now mac) = session_stream_next V now mac"
| "session_step_op V (Stream_Exit mac) = session_stream_exit V mac"
| "session_step_op V (Device_Result mac r) = session_device_result mac r"
| "session_step_op V (Close_Stream mac) = close_stream mac"
| "session_step_op V (Heartbeats now) = send_device_heartbeats now"

definition session_run :: "'w session_env \<Rightarrow> session_step list \<Rightarrow> session_server \<times> 'w \<Rightarrow> session_server \<times> 'w" where
  "session_run V = fold (\<lambda>st s. snd (session_step_op V st s))"

end
