(* ===== verification/Session_Claims.thy ===== *)
theory Session_Claims
  imports Session_Server Gateway_Sets "HOL-Library.Sublist"
begin

text \<open>
  Properties of the session server: a session is sent where it is to go and that it started, what is
  queued for it is delivered in order, and a session that the runner refuses is never removed.
\<close>

subsection \<open>A session that cannot be started\<close>

text \<open>The device has an entry, but no thread that starts its session and no stream that could end it.\<close>

definition abandoned :: "string \<Rightarrow> session_server \<times> 'w \<Rightarrow> bool" where
  "abandoned mac s =
     (dict_get (ss_clients (fst s)) mac \<noteq> None \<and> dict_get (ss_starting (fst s)) mac = None \<and> dict_get (ss_streams (fst s)) mac = None)"

lemma abandoned_basic [keeps_intros]:
  "keeps (abandoned mac) (zoom_snd m)"
  "keeps (abandoned mac) (set_client mac' c)"
  "keeps (abandoned mac) (client_of mac')"
  by (auto simp: keeps_def abandoned_def zoom_snd_def set_client_def on_server_def modify_op_def client_of_def read_op_def lift_op_def
      dict_get_set split: prod.splits)

lemma abandoned_reply [keeps_intros]: "keeps (abandoned mac) (send_reply mac' item)"
  unfolding send_reply_def by (intro keeps_intros)

lemma abandoned_result [keeps_intros]: "keeps (abandoned mac) (session_device_result mac' r)"
  unfolding session_device_result_def by (intro keeps_intros)

lemma abandoned_heartbeats: "keeps (abandoned mac) (send_device_heartbeats now)"
  unfolding send_device_heartbeats_def heartbeat_client_def close_stream_def by (intro keeps_intros)

lemma abandoned_other:
  assumes "mac' \<noteq> mac"
  shows "keeps (abandoned mac) (set_starting mac' p)" "keeps (abandoned mac) (end_stream mac')"
    "keeps (abandoned mac) (on_server (\<lambda>s. s\<lparr>ss_streams := dict_set mac' ys (ss_streams s)\<rparr>))"
    "keeps (abandoned mac) (reap_session V mac')"
  using assms
  by (auto simp: keeps_def abandoned_def set_starting_def end_stream_def reap_session_def on_server_def op_simps client_of_def
      dict_get_set dict_get_del split: prod.splits option.splits sum.splits)

lemma abandoned_step: "keeps (abandoned mac) (session_step_op V st)"
proof (cases st)
  case (Start_Session now rq)
  show ?thesis
  proof (cases "sr_mac rq = mac")
    case True
    then show ?thesis unfolding Start_Session
      by (auto simp: keeps_def abandoned_def init_session_def Let_def op_simps map_of_eq_None_iff)
  next
    case False
    then show ?thesis unfolding Start_Session
      by (simp add: init_session_def Let_def) (intro keeps_intros abandoned_other)
  qed
next
  case (Continue_Start m)
  have "keeps (abandoned mac) (start_phase_op V m phase rq)" if "m \<noteq> mac" for phase rq
    using that by (cases phase) (auto intro!: keeps_intros abandoned_other)
  then have other: "keeps (abandoned mac) (continue_start V m)" if "m \<noteq> mac"
    using that unfolding continue_start_def by (intro keeps_intros abandoned_other) auto
  show ?thesis
  proof (cases "m = mac")
    case True
    then show ?thesis unfolding Continue_Start
      by (auto simp: keeps_def abandoned_def continue_start_def read_op_def ret_op_def)
  qed (simp add: Continue_Start other)
next
  case (Stream_Next now m)
  show ?thesis
  proof (cases "m = mac")
    case True
    then show ?thesis unfolding Stream_Next
      by (auto simp: keeps_def abandoned_def session_stream_next_def read_op_def ret_op_def)
  next
    case False
    then show ?thesis unfolding Stream_Next
      by (simp add: session_stream_next_def) (intro keeps_intros abandoned_other; simp split: list.split; intro conjI allI impI keeps_intros abandoned_other)
  qed
next
  case (Stream_Exit m)
  show ?thesis
  proof (cases "m = mac")
    case True
    then show ?thesis unfolding Stream_Exit
      by (auto simp: keeps_def abandoned_def session_stream_exit_def read_op_def ret_op_def)
  next
    case False
    then show ?thesis unfolding Stream_Exit
      by (simp add: session_stream_exit_def) (intro keeps_intros abandoned_other)
  qed
next
  case (Close_Stream m)
  then show ?thesis by (auto simp: close_stream_def intro: keeps_intros)
qed (auto intro: keeps_intros abandoned_heartbeats)

text \<open>C37: a session whose start fails blocks its device for good. When the runner raises while it is told of a new
  session, the entry of the device stays behind with no stream that could ever remove it: whatever the
  server does afterwards, every further attempt of the device to start a session is refused.\<close>

theorem failed_session_start_blocks_device:
  assumes "dict_get (ss_starting s) mac = Some (At_Callback, rq)" "dict_get (ss_clients s) mac \<noteq> None" "dict_get (ss_streams s) mac = None"
    and "sn_on_session V rq w = (Inl e, w')" "sr_mac rq' = mac"
  shows "session_step_op V (Start_Session now rq') (session_run V (Continue_Start mac # steps) (s, w)) =
    (Inl AssertionError, session_run V (Continue_Start mac # steps) (s, w))"
proof -
  have "abandoned mac (snd (session_step_op V (Continue_Start mac) (s, w)))"
    using assms(1-4)
    by (auto simp: abandoned_def continue_start_def op_simps set_starting_def on_server_def dict_get_del)
  then have "abandoned mac (session_run V (Continue_Start mac # steps) (s, w))"
    unfolding session_run_def by (simp del: session_step_op.simps) (induction steps rule: rev_induct; simp add: keepsD [OF abandoned_step] del: session_step_op.simps)
  then show ?thesis using assms(5)
    by (cases "session_run V (Continue_Start mac # steps) (s, w)")
      (auto simp: abandoned_def init_session_def Let_def op_simps map_of_eq_None_iff simp del: session_run_def)
qed

text \<open>A request without an address of its endpoint, which the runner refuses.\<close>

definition refused_request :: session_request where
  "refused_request = \<lparr>sr_mac = ''9a:02:57:1e:8f:01'', sr_device_vlan = 10, sr_assigned_vlan = 20, sr_endpoint_ip = []\<rparr>"

definition runner_sessions :: "unit runner session_env" where
  "runner_sessions =
     \<lparr>sn_on_session = on_session example_env failing_host (ret_op ()), sn_on_session_end = Some (on_session_end example_env),
      sn_local_ip = Some ''192.0.2.1''\<rparr>"

definition refused_start :: "session_server \<times> unit runner" where
  "refused_start =
     session_run runner_sessions (Start_Session 0 refused_request # replicate 2 (Continue_Start ''9a:02:57:1e:8f:01''))
       (session_server_init, example_runner)"

theorem failed_session_start_blocks_device_witness:
  "fst (session_step_op runner_sessions (Start_Session 500 (refused_request\<lparr>sr_endpoint_ip := ''192.0.2.7''\<rparr>))
     (session_run runner_sessions [Continue_Start ''9a:02:57:1e:8f:01'', Heartbeats 300, Close_Stream ''9a:02:57:1e:8f:01'',
        Stream_Next 310 ''9a:02:57:1e:8f:01''] refused_start)) = Inl AssertionError"
proof -
  let ?mac = "''9a:02:57:1e:8f:01''"
  have s: "dict_get (ss_starting (fst refused_start)) ?mac = Some (At_Callback, refused_request)"
    "dict_get (ss_clients (fst refused_start)) ?mac \<noteq> None" "dict_get (ss_streams (fst refused_start)) ?mac = None"
    by (simp_all add: refused_start_def session_run_def init_session_def Let_def op_simps set_client_def set_starting_def on_server_def
        session_server_init_def refused_request_def continue_start_def send_reply_def client_of_def dict_index_def
        session_device_result_def numeral_2_eq_2)
  have "sn_on_session runner_sessions refused_request (snd refused_start) = (Inl AssertionError, snd refused_start)"
    by (simp add: runner_sessions_def on_session_def refused_request_def op_simps)
  from failed_session_start_blocks_device [OF s this, of "refused_request\<lparr>sr_endpoint_ip := ''192.0.2.7''\<rparr>" 500
      "[Heartbeats 300, Close_Stream ?mac, Stream_Next 310 ?mac]"]
  show ?thesis by (simp add: refused_request_def del: session_step_op.simps)
qed

subsection \<open>Delivery\<close>

definition ends_quietly :: "'w session_env \<Rightarrow> session_request \<Rightarrow> bool" where
  "ends_quietly V rq = (case sn_on_session_end V of None \<Rightarrow> True | Some f \<Rightarrow> (\<forall>w. fst (f rq w) = Inr ()))"

lemma stream_ends:
  assumes "dict_get (ss_streams s) mac = Some ys" "dict_get (ss_clients s) mac = Some c" "sc_return_queue c = End_Of_Stream # q"
    and "ends_quietly V (sc_init_request c)"
  shows "\<exists>s' w'. session_step_op V (Stream_Next now mac) (s, w) = (Inr (), (s', w')) \<and> dict_get (ss_clients s') mac = None \<and>
    dict_get (ss_streams s') mac = None \<and> ss_ended s' = ss_ended s @ [(mac, ys)]"
proof -
  let ?c = "c\<lparr>sc_return_queue := q, sc_last_streamed := now\<rparr>"
  let ?s1 = "s\<lparr>ss_clients := dict_set mac ?c (ss_clients s), ss_streams := dict_del mac (ss_streams s), ss_ended := ss_ended s @ [(mac, ys)]\<rparr>"
  have step: "session_step_op V (Stream_Next now mac) (s, w) = reap_session V mac (?s1, w)"
    using assms by (simp add: session_stream_next_def op_simps set_client_def end_stream_def on_server_def)
  have client: "dict_index (ss_clients ?s1) mac = Inr ?c" by (simp add: dict_index_def dict_get_set)
  have keys: "mac \<in> set (dict_keys (ss_clients ?s1))" by (simp add: dom_update)
  show ?thesis
  proof (cases "sn_on_session_end V")
    case None
    then show ?thesis unfolding step using keys
      by (auto simp: reap_session_def op_simps on_server_def dict_get_del)
  next
    case (Some f)
    obtain r w' where f: "f (sc_init_request c) w = (r, w')" by (cases "f (sc_init_request c) w") auto
    with Some assms(4) have "f (sc_init_request c) w = (Inr (), w')" by (auto simp: ends_quietly_def dest: spec [of _ w])
    then show ?thesis unfolding step using Some keys client
      by (auto simp: reap_session_def op_simps on_server_def client_of_def dict_get_del)
  qed
qed

text \<open>C20: what is queued for a session is delivered in order. A session whose queue ends with the end of the
  stream receives, as often as it asks, every item before it, each once and in the order they were
  queued; then its stream ends and the entry of the device is removed.\<close>

theorem session_delivers_queue:
  assumes "dict_get (ss_streams s) mac = Some ys" "dict_get (ss_clients s) mac = Some c"
    and "sc_return_queue c = items @ [End_Of_Stream]" "End_Of_Stream \<notin> set items" "ends_quietly V (sc_init_request c)"
  shows "\<exists>s' w'. session_run V (map (\<lambda>i. Stream_Next (now i) mac) [0..<Suc (length items)]) (s, w) = (s', w') \<and>
    dict_get (ss_clients s') mac = None \<and> dict_get (ss_streams s') mac = None \<and> ss_ended s' = ss_ended s @ [(mac, ys @ items)]"
  using assms
proof (induction items arbitrary: s ys c now)
  case Nil
  then show ?case using stream_ends [of s mac ys c "[]" V "now 0" w]
    by (auto simp: session_run_def simp del: session_step_op.simps)
next
  case (Cons item items)
  let ?c = "c\<lparr>sc_return_queue := items @ [End_Of_Stream], sc_last_streamed := now 0\<rparr>"
  let ?s1 = "s\<lparr>ss_clients := dict_set mac ?c (ss_clients s), ss_streams := dict_set mac (ys @ [item]) (ss_streams s)\<rparr>"
  have "session_step_op V (Stream_Next (now 0) mac) (s, w) = (Inr (), (?s1, w))"
    using Cons.prems by (auto simp: session_stream_next_def op_simps set_client_def on_server_def)
  then have "session_run V (map (\<lambda>i. Stream_Next (now i) mac) [0..<Suc (length (item # items))]) (s, w) =
      session_run V (map (\<lambda>i. Stream_Next (now (Suc i)) mac) [0..<Suc (length items)]) (?s1, w)"
    by (simp add: session_run_def upt_conv_Cons map_Suc_upt [symmetric] comp_def del: session_step_op.simps upt_Suc)
  with Cons.IH [of ?s1 "ys @ [item]" ?c "\<lambda>i. now (Suc i)"] Cons.prems show ?case by (simp add: dict_get_set)
qed

definition delivering :: "session_server \<times> unit runner" where
  \<comment> \<open>a session that has started, with the result of its device and the end of the stream queued\<close>
  "delivering =
     (\<lparr>ss_clients = [(''9a:02:57:1e:8f:01'', \<lparr>sc_return_queue = [Endpoint (Some ''192.0.2.1''), Result STARTED, Result PASSED, End_Of_Stream],
         sc_last_streamed = 0, sc_init_request = refused_request\<rparr>)],
       ss_starting = [], ss_streams = [(''9a:02:57:1e:8f:01'', [])], ss_ended = []\<rparr>, example_runner)"

theorem session_delivers_queue_witness:
  "\<exists>s' w'. session_run runner_sessions (map (\<lambda>i. Stream_Next (int i) ''9a:02:57:1e:8f:01'') [0..<4]) delivering = (s', w') \<and>
     dict_get (ss_clients s') ''9a:02:57:1e:8f:01'' = None \<and> ss_ended s' = [(''9a:02:57:1e:8f:01'', [Endpoint (Some ''192.0.2.1''), Result STARTED, Result PASSED])]"
proof -
  let ?mac = "''9a:02:57:1e:8f:01''"
  let ?items = "[Endpoint (Some ''192.0.2.1''), Result STARTED, Result PASSED]"
  let ?c = "\<lparr>sc_return_queue = ?items @ [End_Of_Stream], sc_last_streamed = 0, sc_init_request = refused_request\<rparr>"
  have "ends_quietly runner_sessions (sc_init_request ?c)"
    by (auto simp: ends_quietly_def runner_sessions_def on_session_end_def read_op_def ret_op_def set_port_def modify_op_def split: option.splits)
  then obtain s' w' where run: "session_run runner_sessions (map (\<lambda>i. Stream_Next (int i) ?mac) [0..<Suc (length ?items)])
      (fst delivering, example_runner) = (s', w')" "dict_get (ss_clients s') ?mac = None" "ss_ended s' = ss_ended (fst delivering) @ [(?mac, [] @ ?items)]"
    using session_delivers_queue [of "fst delivering" ?mac "[]" ?c ?items runner_sessions int example_runner]
    by (auto simp: delivering_def)
  moreover have "delivering = (fst delivering, example_runner)" "ss_ended (fst delivering) = []" by (simp_all add: delivering_def)
  moreover have "Suc (length ?items) = 4" by simp
  ultimately show ?thesis by (metis append_Nil)
qed

subsection \<open>Order of the messages\<close>

fun is_endpoint :: "session_item \<Rightarrow> bool" where
  "is_endpoint (Endpoint ip) = True"
| "is_endpoint _ = False"

definition announced :: "string option \<Rightarrow> session_item list \<Rightarrow> bool" where
  "announced ip items \<longleftrightarrow> filter is_endpoint items = [Endpoint ip] \<and> subseq [Endpoint ip, Result STARTED] items"

fun phase_ok :: "string option \<Rightarrow> start_phase \<Rightarrow> session_item list \<Rightarrow> bool" where
  "phase_ok ip At_Endpoint q = (filter is_endpoint q = [])"
| "phase_ok ip At_Result q = (filter is_endpoint q = [Endpoint ip])"
| "phase_ok ip At_Callback q = announced ip q"

definition sessions_ok :: "string option \<Rightarrow> session_server \<times> 'w \<Rightarrow> bool" where
  "sessions_ok ip s =
     ((\<forall>mac phase rq. dict_get (ss_starting (fst s)) mac = Some (phase, rq) \<longrightarrow>
         dict_get (ss_streams (fst s)) mac = None \<and> (\<exists>c. dict_get (ss_clients (fst s)) mac = Some c \<and> phase_ok ip phase (sc_return_queue c))) \<and>
      (\<forall>mac ys. dict_get (ss_streams (fst s)) mac = Some ys \<longrightarrow>
         End_Of_Stream \<notin> set ys \<and> (\<exists>c. dict_get (ss_clients (fst s)) mac = Some c \<and> announced ip (ys @ sc_return_queue c))) \<and>
      (\<forall>(mac, ys)\<in>set (ss_ended (fst s)). End_Of_Stream \<notin> set ys \<and> (\<exists>q. announced ip (ys @ q))))"

lemma sessions_okD:
  "sessions_ok ip (s, w) \<Longrightarrow> dict_get (ss_starting s) mac = Some (phase, rq) \<Longrightarrow>
     dict_get (ss_streams s) mac = None \<and> (\<exists>c. dict_get (ss_clients s) mac = Some c \<and> phase_ok ip phase (sc_return_queue c))"
  "sessions_ok ip (s, w) \<Longrightarrow> dict_get (ss_streams s) mac = Some ys \<Longrightarrow>
     End_Of_Stream \<notin> set ys \<and> (\<exists>c. dict_get (ss_clients s) mac = Some c \<and> announced ip (ys @ sc_return_queue c))"
  unfolding sessions_ok_def fst_conv by blast+

lemma announced_more: "announced ip xs \<Longrightarrow> \<not> is_endpoint item \<Longrightarrow> announced ip (xs @ [item])"
  by (auto simp: announced_def intro: subseq_rev_drop_many)

lemma phase_more: "phase_ok ip phase q \<Longrightarrow> \<not> is_endpoint item \<Longrightarrow> phase_ok ip phase (q @ [item])"
  by (cases phase) (auto intro: announced_more)

lemma announced_started: "filter is_endpoint q = [Endpoint ip] \<Longrightarrow> announced ip (q @ [Result STARTED])"
proof -
  assume f: "filter is_endpoint q = [Endpoint ip]"
  then have "Endpoint ip \<in> set (filter is_endpoint q)" by simp
  then have "Endpoint ip \<in> set q" by simp
  then have "subseq [Endpoint ip] q" by (simp add: subseq_singleton_left)
  from list_emb_append_mono [OF this, of "[Result STARTED]" "[Result STARTED]"] f show ?thesis by (simp add: announced_def)
qed

lemma sessions_ok_zoom [keeps_intros]: "keeps (sessions_ok ip) (zoom_snd m)"
  by (auto simp: keeps_def sessions_ok_def zoom_snd_def split: prod.splits)

lemma send_reply_cases:
  "send_reply mac item (s, w) =
     (case dict_get (ss_clients s) mac of
        None \<Rightarrow> (Inl KeyError, (s, w))
      | Some c \<Rightarrow> (Inr (), (s\<lparr>ss_clients := dict_set mac (c\<lparr>sc_return_queue := sc_return_queue c @ [item]\<rparr>) (ss_clients s)\<rparr>, w)))"
  by (simp add: send_reply_def client_of_def set_client_def on_server_def op_simps dict_index_def split: option.splits)

lemma sessions_ok_reply:
  assumes "\<not> is_endpoint item"
  shows "keeps (sessions_ok ip) (send_reply mac item)"
  unfolding keeps_def
proof (intro allI impI)
  fix s :: "session_server \<times> 'a" assume I: "sessions_ok ip s"
  obtain s0 w where s: "s = (s0, w)" by fastforce
  show "sessions_ok ip (snd (send_reply mac item s))"
  proof (cases "dict_get (ss_clients s0) mac")
    case None
    with I show ?thesis by (simp add: s send_reply_cases)
  next
    case (Some c)
    with I assms show ?thesis
      by (fastforce simp: s send_reply_cases sessions_ok_def dict_get_set simp flip: append_assoc intro: phase_more announced_more)
  qed
qed

lemma sessions_ok_result [keeps_intros]: "keeps (sessions_ok ip) (session_device_result mac r)"
  unfolding session_device_result_def by (intro keeps_intros sessions_ok_reply) simp

lemma sessions_ok_close [keeps_intros]: "keeps (sessions_ok ip) (close_stream mac)"
  unfolding close_stream_def by (rule sessions_ok_reply) simp

lemma sessions_ok_client [keeps_intros]: "keeps (sessions_ok ip) (client_of mac)"
  unfolding client_of_def by (intro keeps_intros)

lemma sessions_ok_heartbeats: "keeps (sessions_ok ip) (send_device_heartbeats now)"
  unfolding send_device_heartbeats_def heartbeat_client_def by (intro keeps_intros sessions_ok_reply) simp

lemma sessions_ok_start: "keeps (sessions_ok ip) (init_session now rq)"
  unfolding keeps_def
proof (intro allI impI)
  fix s :: "session_server \<times> 'a" assume I: "sessions_ok ip s"
  obtain s0 w where s: "s = (s0, w)" by fastforce
  show "sessions_ok ip (snd (init_session now rq s))"
  proof (cases "dict_get (ss_clients s0) (sr_mac rq)")
    case None
    then have new: "sr_mac rq \<notin> set (dict_keys (ss_clients s0))" by (simp add: map_of_eq_None_iff)
    have "dict_get (ss_streams s0) (sr_mac rq) = None"
      using I None sessions_okD(2) [of ip s0 w "sr_mac rq"] unfolding s by (cases "dict_get (ss_streams s0) (sr_mac rq)") auto
    with I None new show ?thesis
      by (auto simp: s init_session_def Let_def op_simps set_client_def set_starting_def on_server_def sessions_ok_def dict_get_set)
  next
    case (Some c)
    then have "sr_mac rq \<in> set (dict_keys (ss_clients s0))" by (metis dict_keys_get option.simps(3))
    with I show ?thesis by (simp add: s init_session_def Let_def op_simps)
  qed
qed

lemma sessions_ok_phase:
  assumes I: "sessions_ok (sn_local_ip V) (s, w)" and at: "dict_get (ss_starting s) mac = Some (phase, rq)"
  shows "sessions_ok (sn_local_ip V) (snd (try_op (start_phase_op V mac phase rq) (\<lambda>e. then_op (set_starting mac None) (raise_op e)) (s, w)))"
proof -
  obtain c where c: "dict_get (ss_clients s) mac = Some c" "phase_ok (sn_local_ip V) phase (sc_return_queue c)" "dict_get (ss_streams s) mac = None"
    using sessions_okD(1) [OF I at] by blast
  have key: "mac \<in> set (dict_keys (ss_clients s))" using c(1) by (metis dict_keys_get option.simps(3))
  show ?thesis
  proof (cases phase)
    case At_Endpoint
    with I at c show ?thesis
      by (auto simp: try_op_def then_op_def bind_op_def send_reply_cases set_starting_def on_server_def modify_op_def sessions_ok_def dict_get_set)
  next
    case At_Result
    with I at c key show ?thesis
      by (auto simp: try_op_def then_op_def bind_op_def session_device_result_def read_op_def lift_op_def send_reply_cases set_starting_def
          on_server_def modify_op_def sessions_ok_def dict_get_set announced_started)
  next
    case At_Callback
    obtain r w' where "sn_on_session V rq w = (r, w')" by (cases "sn_on_session V rq w") auto
    with At_Callback I at c show ?thesis
      by (cases r) (auto simp: try_op_def then_op_def bind_op_def zoom_snd_def raise_op_def set_starting_def
          on_server_def modify_op_def sessions_ok_def dict_get_set dict_get_del split: if_splits)
  qed
qed

lemma sessions_ok_ended:
  assumes I: "sessions_ok ip (s, w)" and at: "dict_get (ss_streams s) mac = Some ys"
  shows "sessions_ok ip (snd (end_stream mac (s, w)))"
    and "dict_get (ss_starting (fst (snd (end_stream mac (s, w))))) mac = None \<and> dict_get (ss_streams (fst (snd (end_stream mac (s, w))))) mac = None"
proof -
  show "sessions_ok ip (snd (end_stream mac (s, w)))"
    using I at by (fastforce simp: sessions_ok_def end_stream_def on_server_def modify_op_def dict_get_del)
  show "dict_get (ss_starting (fst (snd (end_stream mac (s, w))))) mac = None \<and> dict_get (ss_streams (fst (snd (end_stream mac (s, w))))) mac = None"
    using I at by (cases "dict_get (ss_starting s) mac") (auto simp: sessions_ok_def end_stream_def on_server_def modify_op_def dict_get_del)
qed

lemma sessions_ok_reap:
  assumes I: "sessions_ok ip (s, w)" and "dict_get (ss_starting s) mac = None" "dict_get (ss_streams s) mac = None"
  shows "sessions_ok ip (snd (reap_session V mac (s, w)))"
proof -
  have delete: "sessions_ok ip (s\<lparr>ss_clients := dict_del mac (ss_clients s)\<rparr>, w')" for w'
    using assms by (fastforce simp: sessions_ok_def dict_get_del)
  have "sessions_ok ip (s, w')" for w' using I by (simp add: sessions_ok_def)
  with delete show ?thesis
    by (auto simp: reap_session_def op_simps client_of_def on_server_def split: option.splits sum.splits prod.splits)
qed

lemma sessions_ok_next: "sessions_ok ip (s, w) \<Longrightarrow> sessions_ok ip (snd (session_stream_next V now mac (s, w)))"
proof -
  assume I: "sessions_ok ip (s, w)"
  show ?thesis
  proof (cases "dict_get (ss_streams s) mac")
    case None
    with I show ?thesis by (simp add: session_stream_next_def read_op_def ret_op_def)
  next
    case (Some ys)
    obtain c where c: "dict_get (ss_clients s) mac = Some c" "announced ip (ys @ sc_return_queue c)" "End_Of_Stream \<notin> set ys"
      using sessions_okD(2) [OF I Some] by blast
    have idle: "dict_get (ss_starting s) mac = None"
      using sessions_okD(1) [OF I, of mac] Some by (cases "dict_get (ss_starting s) mac") auto
    show ?thesis
    proof (cases "sc_return_queue c")
      case Nil
      with I Some c show ?thesis by (simp add: session_stream_next_def read_op_def ret_op_def)
    next
      case (Cons item q)
      let ?s1 = "s\<lparr>ss_clients := dict_set mac (c\<lparr>sc_return_queue := q, sc_last_streamed := now\<rparr>) (ss_clients s)\<rparr>"
      let ?s2 = "?s1\<lparr>ss_streams := dict_del mac (ss_streams s), ss_ended := ss_ended s @ [(mac, ys)]\<rparr>"
      show ?thesis
      proof (cases "item = End_Of_Stream")
        case True
        have "sessions_ok ip (?s2, w)"
          using I c idle unfolding sessions_ok_def fst_conv by (auto simp: dict_get_set dict_get_del)
        from sessions_ok_reap [OF this, of mac V] idle Some c Cons True show ?thesis
          by (simp add: session_stream_next_def op_simps set_client_def end_stream_def on_server_def dict_get_del)
      next
        case False
        have "sessions_ok ip (?s1\<lparr>ss_streams := dict_set mac (ys @ [item]) (ss_streams s)\<rparr>, w)"
          using I c idle Cons False unfolding sessions_ok_def fst_conv by (auto simp: dict_get_set)
        with Some c Cons False show ?thesis
          by (simp add: session_stream_next_def op_simps set_client_def on_server_def)
      qed
    qed
  qed
qed

lemma sessions_ok_exit: "sessions_ok ip (s, w) \<Longrightarrow> sessions_ok ip (snd (session_stream_exit V mac (s, w)))"
proof (cases "dict_get (ss_streams s) mac")
  case (Some ys)
  assume I: "sessions_ok ip (s, w)"
  obtain s1 where e: "end_stream mac (s, w) = (Inr (), (s1, w))" by (simp add: end_stream_def on_server_def modify_op_def)
  have "sessions_ok ip (s1, w)" "dict_get (ss_starting s1) mac = None" "dict_get (ss_streams s1) mac = None"
    using sessions_ok_ended [OF I Some] e by simp_all
  with sessions_ok_reap [OF this, of V] Some e show ?thesis
    by (simp add: session_stream_exit_def read_op_def then_op_def bind_op_def ret_op_def)
qed (simp add: session_stream_exit_def read_op_def ret_op_def)

lemma sessions_ok_step:
  fixes V :: "'a session_env"
  shows "keeps (sessions_ok (sn_local_ip V)) (session_step_op V st)"
proof (cases st)
  case (Continue_Start mac)
  show ?thesis unfolding keeps_def
  proof (intro allI impI)
    fix s :: "session_server \<times> 'a" assume I: "sessions_ok (sn_local_ip V) s"
    then show "sessions_ok (sn_local_ip V) (snd (session_step_op V st s))"
      using sessions_ok_phase [of V "fst s" "snd s" mac] Continue_Start
      by (cases "dict_get (ss_starting (fst s)) mac"; cases s) (auto simp: continue_start_def read_op_def ret_op_def)
  qed
qed (auto simp: keeps_def sessions_ok_next sessions_ok_exit intro: keepsD [OF sessions_ok_start] keepsD [OF sessions_ok_result]
    keepsD [OF sessions_ok_close] keepsD [OF sessions_ok_heartbeats])

lemma session_run_ok: "sessions_ok (sn_local_ip V) (session_run V steps (session_server_init, w))"
proof (induction steps rule: rev_induct)
  case Nil
  show ?case by (simp add: session_run_def sessions_ok_def session_server_init_def)
next
  case (snoc st steps)
  then show ?case using keepsD [OF sessions_ok_step] by (simp add: session_run_def del: session_step_op.simps)
qed

lemma reap_keeps_streams: "ss_streams (fst (snd (reap_session V mac s))) = ss_streams (fst s) \<and> ss_ended (fst (snd (reap_session V mac s))) = ss_ended (fst s)"
  by (auto simp: reap_session_def op_simps client_of_def on_server_def split: option.splits sum.splits prod.splits)

lemma end_marker_ends:
  assumes "dict_get (ss_streams s) mac = Some ys" "dict_get (ss_clients s) mac = Some c" "sc_return_queue c = End_Of_Stream # q"
  shows "dict_get (ss_streams (fst (snd (session_stream_next V now mac (s, w))))) mac = None \<and>
    ss_ended (fst (snd (session_stream_next V now mac (s, w)))) = ss_ended s @ [(mac, ys)]"
proof -
  let ?s = "s\<lparr>ss_clients := dict_set mac (c\<lparr>sc_return_queue := q, sc_last_streamed := now\<rparr>) (ss_clients s), ss_streams := dict_del mac (ss_streams s),
      ss_ended := ss_ended s @ [(mac, ys)]\<rparr>"
  have "session_stream_next V now mac (s, w) = reap_session V mac (?s, w)"
    using assms by (simp add: session_stream_next_def read_op_def then_op_def bind_op_def set_client_def end_stream_def on_server_def modify_op_def)
  with reap_keeps_streams [of V mac "(?s, w)"] show ?thesis by (simp add: dict_get_del)
qed


text \<open>A session that is closed before it has received anything; the stream is resumed once more than there are messages.\<close>

definition open_sessions :: "unit session_env" where
  "open_sessions = \<lparr>sn_on_session = (\<lambda>_. ret_op ()), sn_on_session_end = None, sn_local_ip = Some ''192.0.2.1''\<rparr>"

definition closed_steps :: "session_step list" where
  "closed_steps = Start_Session 0 refused_request # replicate 3 (Continue_Start ''9a:02:57:1e:8f:01'') @ [Close_Stream ''9a:02:57:1e:8f:01''] @
     map (\<lambda>i. Stream_Next i ''9a:02:57:1e:8f:01'') [1, 2]"

definition closed_session :: "session_server \<times> unit" where
  "closed_session = session_run open_sessions closed_steps (session_server_init, ())"

lemma closed_before_end:
  "dict_get (ss_streams (fst closed_session)) ''9a:02:57:1e:8f:01'' = Some [Endpoint (Some ''192.0.2.1''), Result STARTED]"
  "map_option sc_return_queue (dict_get (ss_clients (fst closed_session)) ''9a:02:57:1e:8f:01'') = Some [End_Of_Stream]"
  "ss_ended (fst closed_session) = []"
  by code_simp+


end
