(* ===== verification/Traffic_Analyzer.thy ===== *)
theory Traffic_Analyzer
  imports Py_Values Threads Complex_Main
begin

text \<open>
  The counting of packets per rule of an access list: \<open>daq/acl_state_collector.py\<close>,
  \<open>daq/varz_state_collector.py\<close> and \<open>daq/traffic_analyzer.py\<close>. What the HTTP endpoints answer, with the
  text parsed into metrics, and the configuration of the controller are arguments; the messages that are
  protocol buffers in the code are records.
\<close>

subsection \<open>Metrics\<close>

record metric_sample =
  ms_labels :: "(string, string) dict"
  ms_value :: rat

record metric =
  mt_name :: string
  mt_samples :: "metric_sample list"

definition int_of_float :: "rat \<Rightarrow> int" where
  \<comment> \<open>\<open>int(x)\<close> of a float\<close>
  "int_of_float x = (if 0 \<le> x then floor x else ceiling x)"

type_synonym http_response = "int \<times> metric list"

definition get_metrics :: "http_response result \<Rightarrow> string list \<Rightarrow> (string, metric) dict result" where
  "get_metrics response target_metrics =
     bind_result response (\<lambda>(status_code, metrics).
       if status_code \<noteq> 200 then Inl GenericException
       else Inr (fold (\<lambda>m d. dict_set (mt_name m) m d) (filter (\<lambda>m. mt_name m \<in> set target_metrics) metrics) []))"

fun retry_get_metrics_from :: "(nat \<Rightarrow> http_response result) \<Rightarrow> string list \<Rightarrow> nat \<Rightarrow> nat \<Rightarrow> (string, metric) dict result" where
  \<comment> \<open>the tries that are left, and the number of the next one\<close>
  "retry_get_metrics_from responses target_metrics 0 retry = Inl GenericException"
| "retry_get_metrics_from responses target_metrics (Suc n) retry =
     (case get_metrics (responses retry) target_metrics of
        Inr metrics \<Rightarrow> Inr metrics
      | Inl _ \<Rightarrow> retry_get_metrics_from responses target_metrics n (Suc retry))"

definition retry_get_metrics :: "(nat \<Rightarrow> http_response result) \<Rightarrow> string list \<Rightarrow> nat \<Rightarrow> (string, metric) dict result" where
  "retry_get_metrics responses target_metrics retries = retry_get_metrics_from responses target_metrics retries 0"

definition report_metrics :: "(string, metric) dict \<Rightarrow> (string, string) dict \<Rightarrow> (string, metric_sample list) dict" where
  "report_metrics metrics label_matches =
     fold (\<lambda>m d. dict_set (mt_name m) (filter (\<lambda>s. set label_matches \<subseteq> set (ms_labels s)) (mt_samples m)) d) (map snd metrics) []"

subsection \<open>Counts of rules\<close>

record acl_rule_config =
  rl_cookie :: "int option"
  rl_description :: "string option"

record acl_config =
  ac_id :: string
  ac_rules :: "acl_rule_config list"

type_synonym switch_config = "(int, acl_config list) dict"

record rule_counts =
  rc_rules :: "(string, int) dict"
  rc_errors :: "string list"

definition verify_port_acl_config :: "(string, switch_config) dict \<Rightarrow> string \<Rightarrow> int \<Rightarrow> string + acl_config" where
  "verify_port_acl_config switch_configs switch port =
     (case dict_get switch_configs switch of
        None \<Rightarrow> Inl (''Switch not defined in Faucet dps config: '' @ switch)
      | Some ports \<Rightarrow>
          (case dict_get ports port of
             None \<Rightarrow> Inl (''Port not defined in Faucet dps config: '' @ switch @ '', '' @ show_int port)
           | Some [] \<Rightarrow> Inl (''No ACLs applied to port: '' @ switch @ '', '' @ show_int port)
           | Some [acl] \<Rightarrow> Inr acl
           | Some _ \<Rightarrow> Inl (''More than one ACLs were applied to port: '' @ switch @ '', '' @ show_int port)))"

fun find_sample :: "string \<Rightarrow> int \<Rightarrow> int \<Rightarrow> metric_sample list \<Rightarrow> int option result" where
  \<comment> \<open>the loop over the samples\<close>
  "find_sample switch port cookie [] = Inr None"
| "find_sample switch port cookie (s # ss) =
     (if dict_get (ms_labels s) ''cookie'' \<noteq> Some (show_int cookie) then find_sample switch port cookie ss
      else if dict_get (ms_labels s) ''dp_name'' \<noteq> Some switch then find_sample switch port cookie ss
      else bind_result (case dict_get (ms_labels s) ''in_port'' of None \<Rightarrow> Inl TypeError | Some p \<Rightarrow> val_int (Str p)) (\<lambda>p.
        if p \<noteq> port then find_sample switch port cookie ss else Inr (Some (int_of_float (ms_value s)))))"

definition no_sample_error :: "string \<Rightarrow> int \<Rightarrow> string \<Rightarrow> string \<Rightarrow> int \<Rightarrow> string" where
  "no_sample_error switch port acl_id description cookie =
     ''No ACL metric sample available for switch, port, ACL, rule: '' @ switch @ '', '' @ show_int port @ '', '' @ acl_id @ '', '' @
     description @ '' (cookie='' @ show_int cookie @ '')''"

definition count_rule :: "string \<Rightarrow> int \<Rightarrow> string \<Rightarrow> metric_sample list \<Rightarrow> acl_rule_config \<Rightarrow> rule_counts \<Rightarrow> rule_counts result" where
  \<comment> \<open>the body of the loop over the rules\<close>
  "count_rule switch port acl_id samples rule counts =
     (case (rl_cookie rule, rl_description rule) of
        (Some cookie, Some description) \<Rightarrow>
          if cookie = 0 \<or> description = [] then Inr counts
          else bind_result (find_sample switch port cookie samples) (\<lambda>sample.
            Inr (case sample of
                   Some n \<Rightarrow> counts\<lparr>rc_rules := dict_set description n (rc_rules counts)\<rparr>
                 | None \<Rightarrow> counts\<lparr>rc_errors := rc_errors counts @ [no_sample_error switch port acl_id description cookie]\<rparr>))
      | _ \<Rightarrow> Inr counts)"

definition acl_rule_counts :: "string \<Rightarrow> int \<Rightarrow> acl_config \<Rightarrow> metric_sample list \<Rightarrow> rule_counts result" where
  \<comment> \<open>\<open>_get_port_rule_counts\<close>\<close>
  "acl_rule_counts switch port acl samples =
     fold (\<lambda>rule r. bind_result r (count_rule switch port (ac_id acl) samples rule)) (ac_rules acl) (Inr \<lparr>rc_rules = [], rc_errors = []\<rparr>)"

definition get_port_rule_counts :: "(string, switch_config) dict \<Rightarrow> string \<Rightarrow> int \<Rightarrow> metric_sample list \<Rightarrow> rule_counts result" where
  "get_port_rule_counts switch_configs switch port samples =
     (case verify_port_acl_config switch_configs switch port of
        Inl error \<Rightarrow> Inr \<lparr>rc_rules = [], rc_errors = [error]\<rparr>
      | Inr acl \<Rightarrow> acl_rule_counts switch port acl samples)"

subsection \<open>The analyzer\<close>

record traffic_analyzer =
  ta_switch_configs :: "(string, switch_config) dict"
  ta_duts :: "string list"
  ta_placements :: "(string, string \<times> int) dict"
  ta_initialized :: bool
  ta_run :: bool
  ta_timer :: bool

type_synonym 'a analyzer_op = "(traffic_analyzer, 'a) op"

definition RULE_COUNT_METRIC :: string where "RULE_COUNT_METRIC = ''flow_packet_count_port_acl''"
definition DEVICE_LEARNING_METRIC :: string where "DEVICE_LEARNING_METRIC = ''learned_l2_port''"
definition SEC_SWITCH :: string where "SEC_SWITCH = ''sec''"

definition traffic_analyzer_init :: traffic_analyzer where
  "traffic_analyzer_init =
     \<lparr>ta_switch_configs = [], ta_duts = [], ta_placements = [], ta_initialized = False, ta_run = False, ta_timer = False\<rparr>"

definition initialize_analyzer :: "string list result \<Rightarrow> unit analyzer_op" where
  \<comment> \<open>\<open>initialize\<close> and \<open>_reload_device_specs\<close>, with the addresses in the file\<close>
  "initialize_analyzer specs =
     bind_op (lift_op specs) (\<lambda>macs. modify_op (\<lambda>t. t\<lparr>ta_duts := macs, ta_initialized := True\<rparr>))"

definition start_analyzer :: "unit analyzer_op" where
  \<comment> \<open>the thread that is started runs the first periodic task, as a timer that is due at once\<close>
  "start_analyzer = read_op (\<lambda>t. then_op (assert_op (ta_initialized t)) (modify_op (\<lambda>t. t\<lparr>ta_run := True, ta_timer := True\<rparr>)))"

definition stop_analyzer :: "unit analyzer_op" where
  "stop_analyzer = modify_op (\<lambda>t. t\<lparr>ta_run := False\<rparr>)"

definition reload_faucet_config :: "(string, switch_config) dict result \<Rightarrow> unit analyzer_op" where
  "reload_faucet_config config = bind_op (lift_op config) (\<lambda>c. modify_op (\<lambda>t. t\<lparr>ta_switch_configs := c\<rparr>))"

definition place_device :: "metric_sample \<Rightarrow> unit analyzer_op" where
  \<comment> \<open>the body of the loop of \<open>_update_device_placements\<close>\<close>
  "place_device sample =
     (if dict_get (ms_labels sample) ''dp_name'' \<noteq> Some SEC_SWITCH then ret_op ()
      else read_op (\<lambda>t. case dict_get (ms_labels sample) ''eth_src'' of
        None \<Rightarrow> ret_op ()
      | Some mac \<Rightarrow>
          if mac \<notin> set (ta_duts t) then ret_op ()
          else modify_op (\<lambda>t. t\<lparr>ta_placements := dict_set mac (SEC_SWITCH, int_of_float (ms_value sample)) (ta_placements t)\<rparr>)))"

definition update_device_placements :: "(nat \<Rightarrow> http_response result) \<Rightarrow> unit analyzer_op" where
  \<comment> \<open>after an exception the variable \<open>metrics\<close> has no value; without the metric \<open>None\<close> has no samples\<close>
  "update_device_placements responses =
     (case retry_get_metrics responses [DEVICE_LEARNING_METRIC] 3 of
        Inl _ \<Rightarrow> raise_op UnboundLocalError
      | Inr metrics \<Rightarrow>
          then_op (modify_op (\<lambda>t. t\<lparr>ta_placements := []\<rparr>))
            (case dict_get metrics DEVICE_LEARNING_METRIC of
               None \<Rightarrow> raise_op AttributeError
             | Some m \<Rightarrow> for_op (mt_samples m) place_device))"

definition periodic_tasks :: "(string, switch_config) dict result \<Rightarrow> (nat \<Rightarrow> http_response result) \<Rightarrow> unit analyzer_op" where
  \<comment> \<open>the timer runs; it is started again only after both tasks have returned\<close>
  "periodic_tasks config responses =
     then_op (modify_op (\<lambda>t. t\<lparr>ta_timer := False\<rparr>))
       (read_op (\<lambda>t. if \<not> ta_run t then ret_op ()
          else then_op (reload_faucet_config config)
              (then_op (update_device_placements responses) (modify_op (\<lambda>t. t\<lparr>ta_timer := True\<rparr>)))))"

definition get_rule_count_metric :: "(nat \<Rightarrow> http_response result) \<Rightarrow> string + metric" where
  "get_rule_count_metric responses =
     (case retry_get_metrics responses [RULE_COUNT_METRIC] 3 of
        Inl _ \<Rightarrow> Inl (''Could not retrieve metrics ['' @ CHR 0x27 # RULE_COUNT_METRIC @ CHR 0x27 # ''] after 3 retries'')
      | Inr metrics \<Rightarrow>
          (case dict_get metrics RULE_COUNT_METRIC of
             None \<Rightarrow> Inl (''No '' @ RULE_COUNT_METRIC @ '' metric available'')
           | Some m \<Rightarrow> Inr m))"

definition get_device_rule_counts :: "(nat \<Rightarrow> http_response result) \<Rightarrow> traffic_analyzer \<Rightarrow> (string + (string, rule_counts) dict) result" where
  "get_device_rule_counts responses t =
     (case get_rule_count_metric responses of
        Inl error \<Rightarrow> Inr (Inl error)
      | Inr m \<Rightarrow>
          bind_result (mapM_result (\<lambda>(mac, switch, port).
              bind_result (get_port_rule_counts (ta_switch_configs t) switch port (mt_samples m)) (\<lambda>c. Inr (mac, c))) (ta_placements t))
            (\<lambda>counts. Inr (Inr counts)))"

subsection \<open>Counts equal a reference\<close>

definition sample_of :: "string \<Rightarrow> int \<Rightarrow> int \<Rightarrow> metric_sample \<Rightarrow> bool" where
  "sample_of switch port cookie s =
     (dict_get (ms_labels s) ''cookie'' = Some (show_int cookie) \<and> dict_get (ms_labels s) ''dp_name'' = Some switch \<and>
      (case dict_get (ms_labels s) ''in_port'' of None \<Rightarrow> False | Some p \<Rightarrow> val_int (Str p) = Inr port))"

definition rule_count :: "string \<Rightarrow> int \<Rightarrow> int \<Rightarrow> metric_sample list \<Rightarrow> int option" where
  "rule_count switch port cookie samples = map_option (\<lambda>s. int_of_float (ms_value s)) (List.find (sample_of switch port cookie) samples)"

definition counted_rules :: "acl_rule_config list \<Rightarrow> (int \<times> string) list" where
  "counted_rules rules =
     List.map_filter (\<lambda>r. case (rl_cookie r, rl_description r) of
       (Some c, Some d) \<Rightarrow> if c \<noteq> 0 \<and> d \<noteq> [] then Some (c, d) else None
     | _ \<Rightarrow> None) rules"

definition ports_readable :: "metric_sample list \<Rightarrow> bool" where
  "ports_readable = list_all (\<lambda>s. case dict_get (ms_labels s) ''in_port'' of None \<Rightarrow> False | Some p \<Rightarrow> \<exists>n. val_int (Str p) = Inr n)"

lemma find_sample_first: "ports_readable samples \<Longrightarrow> find_sample switch port cookie samples = Inr (rule_count switch port cookie samples)"
  by (induction samples) (auto simp: ports_readable_def rule_count_def sample_of_def split: option.splits)

definition reference_counts :: "string \<Rightarrow> int \<Rightarrow> string \<Rightarrow> metric_sample list \<Rightarrow> (int \<times> string) list \<Rightarrow> rule_counts" where
  "reference_counts switch port acl_id samples rules =
     \<lparr>rc_rules = List.map_filter (\<lambda>(c, d). map_option (\<lambda>n. (d, n)) (rule_count switch port c samples)) rules,
      rc_errors = List.map_filter (\<lambda>(c, d). if rule_count switch port c samples = None
        then Some (no_sample_error switch port acl_id d c) else None) rules\<rparr>"

lemma counted_snoc:
  "counted_rules (rs @ [r]) = counted_rules rs @ (case (rl_cookie r, rl_description r) of
       (Some c, Some d) \<Rightarrow> if c \<noteq> 0 \<and> d \<noteq> [] then [(c, d)] else []
     | _ \<Rightarrow> [])"
  by (auto simp: counted_rules_def List.map_filter_def split: option.splits)

lemma reference_keys: "fst ` set (rc_rules (reference_counts switch port acl_id samples rules)) \<subseteq> snd ` set rules"
  by (force simp: reference_counts_def List.map_filter_def split: option.splits)

lemma count_rule_reference:
  assumes "ports_readable samples" "distinct (map snd (counted_rules (rs @ [r])))"
  shows "count_rule switch port acl_id samples r (reference_counts switch port acl_id samples (counted_rules rs)) =
    Inr (reference_counts switch port acl_id samples (counted_rules (rs @ [r])))"
proof (cases "\<exists>c d. rl_cookie r = Some c \<and> rl_description r = Some d \<and> c \<noteq> 0 \<and> d \<noteq> []")
  case True
  then obtain c d where r: "rl_cookie r = Some c" "rl_description r = Some d" "c \<noteq> 0" "d \<noteq> []" by blast
  let ?R = "reference_counts switch port acl_id samples (counted_rules rs)"
  have "d \<notin> snd ` set (counted_rules rs)" using assms(2) r by (simp add: counted_snoc)
  then have "d \<notin> set (dict_keys (rc_rules ?R))" using reference_keys [of switch port acl_id samples "counted_rules rs"] by auto
  then have "dict_set d n (rc_rules ?R) = rc_rules ?R @ [(d, n)]" for n by (rule dict_set_fresh)
  then show ?thesis using r
    by (cases "rule_count switch port c samples")
      (simp_all add: count_rule_def find_sample_first [OF assms(1)] counted_snoc, simp_all add: reference_counts_def List.map_filter_def)
next
  case False
  then show ?thesis by (auto simp: count_rule_def counted_snoc split: option.splits)
qed

text \<open>C18: the counts of a port equal a reference definition. When the rules have different descriptions and every
  sample names a port, each rule with a cookie and a description has the value of its first sample for
  the switch and the port, and one without such a sample has an error instead, in the order of the
  rules.\<close>

theorem rule_counts_match_samples:
  assumes "ports_readable samples" "distinct (map snd (counted_rules (ac_rules acl)))"
  shows "acl_rule_counts switch port acl samples =
    Inr (reference_counts switch port (ac_id acl) samples (counted_rules (ac_rules acl)))"
proof -
  have "fold (\<lambda>rule r. bind_result r (count_rule switch port (ac_id acl) samples rule)) rules (Inr \<lparr>rc_rules = [], rc_errors = []\<rparr>) =
      Inr (reference_counts switch port (ac_id acl) samples (counted_rules rules))" if "distinct (map snd (counted_rules rules))" for rules
    using that
  proof (induction rules rule: rev_induct)
    case Nil
    show ?case by (simp add: reference_counts_def counted_rules_def List.map_filter_def)
  next
    case (snoc r rules)
    have "distinct (map snd (counted_rules rules))" using snoc.prems by (simp add: counted_snoc)
    with snoc.IH count_rule_reference [OF assms(1) snoc.prems] show ?case by simp
  qed
  with assms(2) show ?thesis by (simp add: acl_rule_counts_def)
qed

definition example_samples :: "metric_sample list" where
  "example_samples =
     [\<lparr>ms_labels = [(''cookie'', ''7''), (''dp_name'', ''pri''), (''in_port'', ''1'')], ms_value = 3\<rparr>,
      \<lparr>ms_labels = [(''cookie'', ''7''), (''dp_name'', ''sec''), (''in_port'', ''2'')], ms_value = 12\<rparr>]"

definition example_acl :: acl_config where
  "example_acl = \<lparr>ac_id = ''acl'', ac_rules =
     [\<lparr>rl_cookie = Some 7, rl_description = Some ''dns''\<rparr>, \<lparr>rl_cookie = None, rl_description = Some ''arp''\<rparr>,
      \<lparr>rl_cookie = Some 8, rl_description = Some ''ntp''\<rparr>]\<rparr>"

theorem rule_counts_match_samples_witness:
  "acl_rule_counts ''sec'' 2 example_acl example_samples =
     Inr \<lparr>rc_rules = [(''dns'', 12)], rc_errors = [no_sample_error ''sec'' 2 ''acl'' ''ntp'' 8]\<rparr>"
proof -
  have "val_int (Str ''1'') = Inr 1" "val_int (Str ''2'') = Inr 2" by code_simp+
  then have readable: "ports_readable example_samples" by (simp add: ports_readable_def example_samples_def)
  have "distinct (map snd (counted_rules (ac_rules example_acl)))" by code_simp
  from rule_counts_match_samples [OF readable this, of "''sec''" 2]
  have "acl_rule_counts ''sec'' 2 example_acl example_samples =
    Inr (reference_counts ''sec'' 2 (ac_id example_acl) example_samples (counted_rules (ac_rules example_acl)))" .
  moreover have "reference_counts ''sec'' 2 (ac_id example_acl) example_samples (counted_rules (ac_rules example_acl)) =
    \<lparr>rc_rules = [(''dns'', 12)], rc_errors = [no_sample_error ''sec'' 2 ''acl'' ''ntp'' 8]\<rparr>" by code_simp
  ultimately show ?thesis by simp
qed

subsection \<open>An outage of the metrics\<close>

type_synonym analyzer_round = "(string, switch_config) dict result \<times> (nat \<Rightarrow> http_response result)"

definition analyzer_tick :: "analyzer_round \<Rightarrow> traffic_analyzer \<Rightarrow> traffic_analyzer" where
  \<comment> \<open>the timer runs, if there is one\<close>
  "analyzer_tick r t = (if ta_timer t then snd (periodic_tasks (fst r) (snd r) t) else t)"

lemma retries_exhausted:
  "(\<And>i. \<exists>e. get_metrics (responses i) target_metrics = Inl e) \<Longrightarrow> \<exists>e. retry_get_metrics_from responses target_metrics n k = Inl e"
proof (induction n arbitrary: k)
  case (Suc n)
  obtain e where "get_metrics (responses k) target_metrics = Inl e" using Suc.prems by blast
  with Suc show ?case by auto
qed auto

text \<open>One outage of the metrics ends the traffic analyzer. When a periodic task finds the controller's metrics
  unavailable, it raises on a variable without value before the timer is started again: whatever the
  controller answers later, the placements of the devices never change any more.\<close>

theorem metrics_outage_ends_updates:
  assumes "ta_timer t" "\<And>i. \<exists>e. get_metrics (responses i) [DEVICE_LEARNING_METRIC] = Inl e"
  shows "ta_placements (fold analyzer_tick later (analyzer_tick (config, responses) t)) = ta_placements t \<and>
    \<not> ta_timer (fold analyzer_tick later (analyzer_tick (config, responses) t))"
proof -
  obtain e where e: "retry_get_metrics responses [DEVICE_LEARNING_METRIC] 3 = Inl e"
    using retries_exhausted [of responses, OF assms(2), of 3 0] unfolding retry_get_metrics_def by blast
  have "ta_placements (analyzer_tick (config, responses) t) = ta_placements t \<and> \<not> ta_timer (analyzer_tick (config, responses) t)"
    using assms(1) e
    by (cases config) (auto simp: analyzer_tick_def periodic_tasks_def reload_faucet_config_def update_device_placements_def op_simps)
  moreover have "fold analyzer_tick later t' = t'" if "\<not> ta_timer t'" for t'
    using that by (induction later) (simp_all add: analyzer_tick_def)
  ultimately show ?thesis by simp
qed

definition running_analyzer :: traffic_analyzer where
  "running_analyzer = traffic_analyzer_init\<lparr>ta_duts := [''9a:02:57:1e:8f:01''], ta_initialized := True, ta_run := True, ta_timer := True\<rparr>"

definition learned_device :: http_response where
  "learned_device = (200, [\<lparr>mt_name = DEVICE_LEARNING_METRIC, mt_samples =
     [\<lparr>ms_labels = [(''dp_name'', ''sec''), (''eth_src'', ''9a:02:57:1e:8f:01'')], ms_value = 2\<rparr>]\<rparr>])"

theorem metrics_outage_ends_updates_witness:
  "ta_placements (analyzer_tick (Inr [], \<lambda>_. Inr learned_device) running_analyzer) = [(''9a:02:57:1e:8f:01'', (''sec'', 2))] \<and>
   ta_placements (fold analyzer_tick (replicate 9 (Inr [], \<lambda>_. Inr learned_device))
     (analyzer_tick (Inr [], \<lambda>_. Inr (503, [])) running_analyzer)) = []"
proof -
  have "ta_placements (analyzer_tick (Inr [], \<lambda>_. Inr learned_device) running_analyzer) = [(''9a:02:57:1e:8f:01'', (''sec'', 2))]"
    by code_simp
  moreover have "ta_timer running_analyzer" "ta_placements running_analyzer = []" by code_simp+
  moreover have "\<exists>e. get_metrics (Inr (503, [])) [DEVICE_LEARNING_METRIC] = Inl e" by (simp add: get_metrics_def)
  ultimately show ?thesis
    using metrics_outage_ends_updates [of running_analyzer "\<lambda>_. Inr (503, [])" "replicate 9 (Inr [], \<lambda>_. Inr learned_device)" "Inr []"]
    by simp
qed

end
