(* ===== verification/Combine_Reports.thy ===== *)
theory Combine_Reports
  imports Report
begin

text \<open>
  \<open>bin/python/combine_reports.py\<close>: the JSON reports of a device are read, the results of their tests are
  added up and written as tables. The files of the directory and the reading of a report are arguments;
  the reports of the cloud are not modelled.
\<close>

subsection \<open>Adding up\<close>

text \<open>What is read of a report; a test may lack its result or its category.\<close>

record json_report =
  jr_timestamp :: "string option"
  jr_missing_tests :: "string list"
  jr_modules :: "(string \<times> (string \<times> string option \<times> string option) list) list"

record aggregate =
  ag_tests :: "(string, (string option, int) dict) dict"
  ag_categories :: "(string option, (string option, int) dict) dict"
  ag_missing :: "(string, int) dict"
  ag_reports :: "(string, bool) dict"

definition aggregate_init :: aggregate where
  "aggregate_init = \<lparr>ag_tests = [], ag_categories = [], ag_missing = [], ag_reports = []\<rparr>"

definition increment :: "'k \<Rightarrow> ('k, int) dict \<Rightarrow> ('k, int) dict" where
  \<comment> \<open>\<open>d.setdefault(k, 0); d[k] += 1\<close>\<close>
  "increment k d = dict_set k ((case dict_get d k of Some n \<Rightarrow> n | None \<Rightarrow> 0) + 1) d"

definition increment_in :: "'a \<Rightarrow> 'k \<Rightarrow> ('a, ('k, int) dict) dict \<Rightarrow> ('a, ('k, int) dict) dict" where
  "increment_in a k d = dict_set a (increment k (case dict_get d a of Some row \<Rightarrow> row | None \<Rightarrow> [])) d"

definition add_test :: "string \<times> string option \<times> string option \<Rightarrow> aggregate \<Rightarrow> aggregate" where
  "add_test = (\<lambda>(test, result, category) a.
     a\<lparr>ag_tests := increment_in test result (ag_tests a), ag_categories := increment_in category result (ag_categories a)\<rparr>)"

definition add_report :: "json_report \<Rightarrow> aggregate \<Rightarrow> aggregate result" where
  "add_report r a =
     (case jr_timestamp r of
        None \<Rightarrow> Inl KeyError
      | Some t \<Rightarrow>
          Inr (fold add_test (concat (map snd (jr_modules r)))
            (fold (\<lambda>test a. a\<lparr>ag_missing := increment test (ag_missing a)\<rparr>) (jr_missing_tests r)
              (a\<lparr>ag_reports := dict_set t True (ag_reports a)\<rparr>))))"

definition combine :: "json_report list \<Rightarrow> aggregate result" where
  "combine reports = fold (\<lambda>r a. bind_result a (add_report r)) reports (Inr aggregate_init)"

subsection \<open>Tables\<close>

definition reduce_labels :: "(string option, int) dict list \<Rightarrow> string list result" where
  \<comment> \<open>the labels of all rows; a missing one cannot be put into a table\<close>
  "reduce_labels rows =
     (let labels = concat (map dict_keys rows) in
      if None \<in> set labels then Inl TypeError else Inr (sort (remdups (map the labels))))"

definition count_cell :: "(string option, int) dict \<Rightarrow> string \<Rightarrow> string" where
  "count_cell row label = show_int (case dict_get row (Some label) of Some n \<Rightarrow> n | None \<Rightarrow> 0)"

definition render_results :: "aggregate \<Rightarrow> string result" where
  "render_results a =
     bind_result (reduce_labels (map snd (ag_tests a))) (\<lambda>labels.
     bind_result (reduce_labels (map snd (ag_categories a))) (\<lambda>category_labels.
       if None \<in> set (dict_keys (ag_categories a)) then Inl AttributeError
       else Inr (join_with NL
         [md_of (''test'' # labels)
            (if ag_tests a = [] then [[''No results'']] else map (\<lambda>(test, row). test # map (count_cell row) labels) (ag_tests a)),
          md_of (''categories'' # category_labels)
            (if ag_categories a = [] then [[''No results'']]
             else map (\<lambda>(category, row). the category # map (count_cell row) category_labels) (ag_categories a)),
          md_of [''missing tests'', ''count'']
            (if ag_missing a = [] then [[''None'']]
             else map (\<lambda>test. [test, show_int (the (dict_get (ag_missing a) test))]) (sort (dict_keys (ag_missing a)))),
          md_of [''reports''] (map (\<lambda>r. [r]) (sort (dict_keys (ag_reports a))))])))"

subsection \<open>Files\<close>

definition decimal_digit :: "char \<Rightarrow> bool" where "decimal_digit c \<longleftrightarrow> c \<in> set ''0123456789''"

fun digits_rx :: "nat \<Rightarrow> rx" where
  "digits_rx 0 = Eps"
| "digits_rx (Suc n) = Cat (One decimal_digit) (digits_rx n)"

definition report_re :: "string \<Rightarrow> rx" where
  \<comment> \<open>the device is an address without separators, in which no character is special\<close>
  "report_re device =
     Cat Bol (Cat (lit (''report_'' @ device @ ''_''))
       (Cat (Group 1 (Cat (digits_rx 4) (Cat (lit ''-'') (Cat (digits_rx 2) (Cat (lit ''-'') (Cat (digits_rx 2) (Cat (lit ''T'') (digits_rx 6))))))))
         (Cat (lit ''.json'') Eol)))"

definition report_stamp :: "string \<Rightarrow> string \<Rightarrow> string option" where
  "report_stamp device name = (case rx_search (report_re device) name of None \<Rightarrow> None | Some g \<Rightarrow> dict_get g 1)"

definition in_range :: "string option \<Rightarrow> string option \<Rightarrow> string \<Rightarrow> bool" where
  "in_range start_str end_str stamp =
     (\<not> ((case start_str of Some s \<Rightarrow> s \<noteq> [] \<and> stamp < s | None \<Rightarrow> False) \<or>
         (case end_str of Some e \<Rightarrow> e \<noteq> [] \<and> stamp > e | None \<Rightarrow> False)))"

definition local_report_files :: "string \<Rightarrow> string list \<Rightarrow> string option \<Rightarrow> string option \<Rightarrow> nat \<Rightarrow> string list" where
  \<comment> \<open>the files that are read; the number of files is limited before the times are compared\<close>
  "local_report_files device names start_str end_str limit =
     (let files = rev (sort (filter (\<lambda>f. report_stamp device f \<noteq> None) names));
          chosen = (if limit \<noteq> 0 \<and> length files > limit then take limit files else files)
      in filter (\<lambda>f. in_range start_str end_str (the (report_stamp device f))) chosen)"

definition normalize_device :: "string \<Rightarrow> string" where
  \<comment> \<open>\<open>device.replace(':', '').lower()\<close>\<close>
  "normalize_device device =
     map (\<lambda>c. let n = of_char c :: nat in if 65 \<le> n \<and> n \<le> 90 then char_of (n + 32) else c) (filter (\<lambda>c. c \<noteq> CHR '':'') device)"

definition combine_main ::
    "(string \<Rightarrow> json_report result) \<Rightarrow> string list \<Rightarrow> string \<Rightarrow> string option \<Rightarrow> string option \<Rightarrow> nat \<Rightarrow> unit result \<times> string option" where
  \<comment> \<open>\<open>main\<close> for local reports: the outcome, and the tables if they were written\<close>
  "combine_main load names device start_str end_str limit =
     (case mapM_result load (local_report_files (normalize_device device) names start_str end_str limit) of
        Inl e \<Rightarrow> (Inl e, None)
      | Inr reports \<Rightarrow>
          (case bind_result (combine reports) render_results of
             Inl e \<Rightarrow> (Inl e, None)
           | Inr tables \<Rightarrow> (if limit = 0 \<or> limit = length reports then Inr () else Inl AssertionError, Some tables)))"

subsection \<open>Properties\<close>

definition occurrences :: "json_report list \<Rightarrow> (string \<times> string option \<times> string option) list" where
  "occurrences reports = concat (map (\<lambda>r. concat (map snd (jr_modules r))) reports)"

definition count_in :: "('a, ('k, int) dict) dict \<Rightarrow> 'a \<Rightarrow> 'k \<Rightarrow> int" where
  "count_in d a k = (case dict_get d a of None \<Rightarrow> 0 | Some row \<Rightarrow> (case dict_get row k of None \<Rightarrow> 0 | Some n \<Rightarrow> n))"

lemma count_increment:
  "count_in (increment_in a k d) a' k' = count_in d a' k' + (if a' = a \<and> k' = k then 1 else 0)"
  by (auto simp: count_in_def increment_in_def increment_def dict_get_set split: option.splits)

lemma counts_of_tests:
  "count_in (ag_tests (fold add_test ts a)) t r = count_in (ag_tests a) t r + int (length (filter (\<lambda>(t', r', c). t' = t \<and> r' = r) ts)) \<and>
   count_in (ag_categories (fold add_test ts a)) c r = count_in (ag_categories a) c r + int (length (filter (\<lambda>(t', r', c'). c' = c \<and> r' = r) ts)) \<and>
   ag_missing (fold add_test ts a) = ag_missing a"
proof (induction ts arbitrary: a)
  case (Cons x ts)
  obtain t' r' c' where "x = (t', r', c')" by (cases x) auto
  with Cons show ?case by (auto simp: add_test_def count_increment)
qed simp

lemma missing_fold:
  "(case dict_get (ag_missing (fold (\<lambda>test a. a\<lparr>ag_missing := increment test (ag_missing a)\<rparr>) ts a)) t of None \<Rightarrow> 0 | Some n \<Rightarrow> n) =
     (case dict_get (ag_missing a) t of None \<Rightarrow> 0 | Some n \<Rightarrow> n) + int (count_list ts t)"
  "ag_tests (fold (\<lambda>test a. a\<lparr>ag_missing := increment test (ag_missing a)\<rparr>) ts a) = ag_tests a"
  "ag_categories (fold (\<lambda>test a. a\<lparr>ag_missing := increment test (ag_missing a)\<rparr>) ts a) = ag_categories a"
  by (induction ts arbitrary: a) (auto simp: increment_def dict_get_set split: option.splits)

lemma combine_snoc: "combine (rs @ [r]) = bind_result (combine rs) (add_report r)"
  by (simp add: combine_def)

text \<open>The combined tables count right. When the reports can be combined, the number of a test and a result is the
  number of times the test has the result in all reports, and in the same way for categories; the
  number of a missing test is the number of times it is listed as missing.\<close>

theorem combined_counts:
  assumes "combine reports = Inr a"
  shows "count_in (ag_tests a) t r = int (length (filter (\<lambda>(t', r', c'). t' = t \<and> r' = r) (occurrences reports))) \<and>
    count_in (ag_categories a) c r = int (length (filter (\<lambda>(t', r', c'). c' = c \<and> r' = r) (occurrences reports))) \<and>
    (case dict_get (ag_missing a) t of None \<Rightarrow> 0 | Some n \<Rightarrow> n) = int (count_list (concat (map jr_missing_tests reports)) t)"
  using assms
proof (induction reports arbitrary: a rule: rev_induct)
  case Nil
  then show ?case by (auto simp: combine_def aggregate_init_def count_in_def occurrences_def)
next
  case (snoc rp reports)
  obtain b where b: "combine reports = Inr b" "add_report rp b = Inr a"
    using snoc.prems by (auto simp: combine_snoc bind_result_eq_Inr)
  obtain time where "jr_timestamp rp = Some time" using b(2) by (auto simp: add_report_def split: option.splits)
  with b(2) have a: "a = fold add_test (concat (map snd (jr_modules rp)))
      (fold (\<lambda>test a. a\<lparr>ag_missing := increment test (ag_missing a)\<rparr>) (jr_missing_tests rp) (b\<lparr>ag_reports := dict_set time True (ag_reports b)\<rparr>))"
    by (simp add: add_report_def)
  show ?case using snoc.IH [OF b(1)] unfolding a by (simp add: counts_of_tests missing_fold occurrences_def)
qed

definition example_json_reports :: "json_report list" where
  "example_json_reports =
     [\<lparr>jr_timestamp = Some ''2020-02-02T10:00:00'', jr_missing_tests = [''manual.test''],
       jr_modules = [(''base'', [(''base.ping'', Some ''pass'', Some ''Connectivity''), (''base.port'', Some ''fail'', Some ''Connectivity'')])]\<rparr>,
      \<lparr>jr_timestamp = Some ''2020-02-03T10:00:00'', jr_missing_tests = [],
       jr_modules = [(''base'', [(''base.ping'', Some ''pass'', Some ''Connectivity'')])]\<rparr>]"

theorem combined_counts_witness:
  "case combine example_json_reports of
     Inl e \<Rightarrow> False
   | Inr a \<Rightarrow> count_in (ag_tests a) ''base.ping'' (Some ''pass'') = 2 \<and> count_in (ag_categories a) (Some ''Connectivity'') (Some ''fail'') = 1"
proof -
  obtain a where a: "combine example_json_reports = Inr a"
    by (simp add: example_json_reports_def combine_def add_report_def)
  have "occurrences example_json_reports =
    [(''base.ping'', Some ''pass'', Some ''Connectivity''), (''base.port'', Some ''fail'', Some ''Connectivity''),
     (''base.ping'', Some ''pass'', Some ''Connectivity'')]" by (simp add: occurrences_def example_json_reports_def)
  with combined_counts [OF a, of "''base.ping''" "Some ''pass''" None] combined_counts [OF a, of "''base.ping''" "Some ''fail''" "Some ''Connectivity''"]
  show ?thesis by (simp add: a)
qed

text \<open>A limit hides older reports of the period. When the newest reports of a device, as many as the limit, are all
  later than the end of the period, no report at all is read and the assertion at the end fails, however
  many reports of the period there are.\<close>

theorem limit_hides_period:
  assumes "0 < limit" "end_str = Some e" "e \<noteq> []"
    and "rev (sort (filter (\<lambda>f. report_stamp (normalize_device device) f \<noteq> None) names)) = newest @ older" "length newest = limit" "older \<noteq> []"
    and "\<forall>f\<in>set newest. e < the (report_stamp (normalize_device device) f)"
  shows "fst (combine_main load names device start_str end_str limit) = Inl AssertionError"
proof -
  have "local_report_files (normalize_device device) names start_str end_str limit = []"
    using assms unfolding local_report_files_def by (auto simp: Let_def in_range_def filter_empty_conv)
  then show ?thesis using assms(1)
    by (simp add: combine_main_def combine_def aggregate_init_def render_results_def reduce_labels_def Let_def)
qed

definition two_reports :: "string list" where
  "two_reports = [''report_9a02571e8f01_2020-02-02T100000.json'', ''report_9a02571e8f01_2020-02-03T100000.json'', ''notes.txt'']"

theorem limit_hides_period_witness:
  "fst (combine_main (\<lambda>_. Inr (hd example_json_reports)) two_reports ''9A:02:57:1E:8F:01'' None (Some ''2020-02-02T235959'') 1) = Inl AssertionError \<and>
   fst (combine_main (\<lambda>_. Inr (hd example_json_reports)) two_reports ''9A:02:57:1E:8F:01'' None (Some ''2020-02-02T235959'') 0) = Inr ()"
proof -
  have "normalize_device ''9A:02:57:1E:8F:01'' = ''9a02571e8f01''" by code_simp
  moreover have "rev (sort (filter (\<lambda>f. report_stamp ''9a02571e8f01'' f \<noteq> None) two_reports)) =
    [''report_9a02571e8f01_2020-02-03T100000.json''] @ [''report_9a02571e8f01_2020-02-02T100000.json'']" by code_simp
  moreover have "''2020-02-02T235959'' < the (report_stamp ''9a02571e8f01'' ''report_9a02571e8f01_2020-02-03T100000.json'')" by code_simp
  moreover have "fst (combine_main (\<lambda>_. Inr (hd example_json_reports)) two_reports ''9A:02:57:1E:8F:01'' None (Some ''2020-02-02T235959'') 0) = Inr ()"
    by code_simp
  ultimately show ?thesis
    using limit_hides_period [of 1 "Some ''2020-02-02T235959''" "''2020-02-02T235959''" "''9A:02:57:1E:8F:01''" two_reports
        "[''report_9a02571e8f01_2020-02-03T100000.json'']" "[''report_9a02571e8f01_2020-02-02T100000.json'']"
        "\<lambda>_. Inr (hd example_json_reports)" None]
    by simp
qed

end
