(* ===== verification/Gateway_Life.thy ===== *)
theory Gateway_Life
  imports Gateways Generator
begin

text \<open>
  The hosts of a gateway (\<open>daq/base_gateway.py\<close>, \<open>daq/container_gateway.py\<close>, \<open>daq/external_gateway.py\<close>): how they are
  started, checked, and removed again. The emulator, the containers and the captures are the record
  \<open>gateway_env\<close>, whose operations work on a state of their own and may raise; the answers of the pings
  are as in \<open>Gateways\<close>.
\<close>

subsection \<open>State\<close>

datatype gateway_kind = Container_Gateway | External_Gateway

record gateway_hosts =
  gh_port_set :: int
  gh_ext_intf :: "string option"
  gh_targets :: "string list"
  gh_host :: "nat option"
  gh_host_intf :: "string option"
  gh_dummy :: "nat option"
  gh_fake_target :: "string option"
  gh_dhcp_monitor :: bool
  gh_scan_monitor :: bool

type_synonym ('w, 'a) gateway_op = "(gateway_hosts \<times> 'w, 'a) op"

record 'w gateway_env =
  gv_setup_tmpdir :: "string \<Rightarrow> ('w, unit) op"
  gv_add_host :: "string \<Rightarrow> int \<Rightarrow> ('w, nat) op"
  gv_activate :: "nat \<Rightarrow> ('w, unit) op"
  gv_interface :: "nat \<Rightarrow> ('w, string) op"
  gv_move_intf :: "string \<Rightarrow> nat \<Rightarrow> ('w, unit) op"
  gv_cmd :: "nat \<Rightarrow> string \<Rightarrow> ('w, unit) op"
  gv_ip :: "nat \<Rightarrow> string"
  gv_ping :: "nat \<Rightarrow> bool"
  gv_terminate :: "nat \<Rightarrow> ('w, unit) op"
  gv_remove_host :: "nat \<Rightarrow> ('w, unit) op"
  gv_start_scan :: "('w, unit) op"
  gv_scan_open :: bool
  gv_end_scan :: "('w, unit) op"
  gv_start_dhcp :: "('w, unit) op"
  gv_cleanup_dhcp :: "('w, unit) op"
  gv_initial_lease :: string
  gv_lease :: string

definition TEST_IP_FORMAT :: string where "TEST_IP_FORMAT = ''192.168.84.%d''"

definition on_gateway :: "(gateway_hosts \<Rightarrow> gateway_hosts) \<Rightarrow> ('w, unit) gateway_op" where
  "on_gateway f = modify_op (\<lambda>(g, w). (f g, w))"

definition host_port :: "gateway_hosts \<Rightarrow> int \<Rightarrow> int" where
  \<comment> \<open>\<open>_switch_port\<close>\<close>
  "host_port g offset = gh_port_set g * SET_SPACING + offset"

subsection \<open>Start\<close>

definition gateway_native :: "gateway_hosts \<Rightarrow> bool" where
  \<comment> \<open>\<open>bool(self._ext_intf)\<close>\<close>
  "gateway_native g = (gh_ext_intf g \<notin> {None, Some []})"

definition start_host :: "'w gateway_env \<Rightarrow> ('w, nat) gateway_op" where
  \<comment> \<open>the first part of \<open>_initialize\<close>: the host is kept only after it has been activated\<close>
  "start_host V =
     read_op (\<lambda>(g, w).
       let host_name = ''gw'' @ show_number True 2 10 (gh_port_set g);
           port = (if gateway_native g then 1 else host_port g GATEWAY_OFFSET)
       in then_op (zoom_snd (gv_setup_tmpdir V host_name))
         (bind_op (zoom_snd (gv_add_host V host_name port)) (\<lambda>host.
          then_op (zoom_snd (gv_activate V host))
         (then_op (on_gateway (\<lambda>g. g\<lparr>gh_host := Some host\<rparr>))
         (bind_op (zoom_snd (gv_interface V host)) (\<lambda>intf.
          then_op (on_gateway (\<lambda>g. g\<lparr>gh_host_intf := Some intf\<rparr>)) (ret_op host)))))))"

definition start_dummy :: "'w gateway_env \<Rightarrow> nat \<Rightarrow> ('w, unit) gateway_op" where
  "start_dummy V host =
     read_op (\<lambda>(g, w).
       bind_op (zoom_snd (gv_add_host V (''dummy'' @ show_number True 2 10 (gh_port_set g)) (host_port g DUMMY_OFFSET))) (\<lambda>dummy.
       then_op (zoom_snd (gv_cmd V dummy (''route add -net 0.0.0.0 gw '' @ gv_ip V host)))
         (on_gateway (\<lambda>g. g\<lparr>gh_dummy := Some dummy\<rparr>))))"

definition start_fake_target :: "'w gateway_env \<Rightarrow> nat \<Rightarrow> ('w, unit) gateway_op" where
  "start_fake_target V host =
     read_op (\<lambda>(g, w). bind_op (lift_op (format_numbers TEST_IP_FORMAT [gh_port_set g])) (\<lambda>fake.
       then_op (on_gateway (\<lambda>g. g\<lparr>gh_fake_target := Some fake\<rparr>))
         (zoom_snd (gv_cmd V host (''ip addr add '' @ fake @ '' dev '' @ the (gh_host_intf g))))))"

definition base_initialize :: "'w gateway_env \<Rightarrow> ('w, unit) gateway_op" where
  "base_initialize V =
     bind_op (start_host V) (\<lambda>host. read_op (\<lambda>(g, w).
       if gateway_native g then zoom_snd (gv_move_intf V (the (gh_ext_intf g)) host)
       else then_op (start_dummy V host) (then_op (start_fake_target V host) (lift_op (initialize_pings (gv_ping V))))))"

definition execute_script :: "'w gateway_env \<Rightarrow> string \<Rightarrow> string list \<Rightarrow> ('w, unit) gateway_op" where
  "execute_script V action args =
     read_op (\<lambda>(g, w). case gh_host g of
        None \<Rightarrow> raise_op AttributeError
      | Some host \<Rightarrow> zoom_snd (gv_cmd V host (''./'' @ action @ concat (map (\<lambda>a. '' '' @ a) args))))"

definition startup_scan :: "'w gateway_env \<Rightarrow> ('w, unit) gateway_op" where
  "startup_scan V =
     read_op (\<lambda>(g, w). then_op (assert_op (\<not> gh_scan_monitor g))
       (then_op (on_gateway (\<lambda>g. g\<lparr>gh_scan_monitor := True\<rparr>)) (zoom_snd (gv_start_scan V))))"

definition start_dhcp_monitor :: "'w gateway_env \<Rightarrow> ('w, unit) gateway_op" where
  "start_dhcp_monitor V = then_op (on_gateway (\<lambda>g. g\<lparr>gh_dhcp_monitor := True\<rparr>)) (zoom_snd (gv_start_dhcp V))"

definition initialize_hosts :: "gateway_kind \<Rightarrow> 'w gateway_env \<Rightarrow> ('w, unit) gateway_op" where
  \<comment> \<open>\<open>_initialize\<close> of the two kinds of gateway\<close>
  "initialize_hosts kind V =
     then_op (base_initialize V)
       (case kind of
          Container_Gateway \<Rightarrow>
            then_op (execute_script V ''change_lease_time'' [gv_initial_lease V]) (then_op (startup_scan V) (start_dhcp_monitor V))
        | External_Gateway \<Rightarrow> start_dhcp_monitor V)"

subsection \<open>End\<close>

definition scan_finalize :: "'w gateway_env \<Rightarrow> bool \<Rightarrow> ('w, unit) gateway_op" where
  "scan_finalize V forget_scan =
     read_op (\<lambda>(g, w). if \<not> gh_scan_monitor g then ret_op ()
       else then_op (assert_op (gv_scan_open V = forget_scan))
           (then_op (if forget_scan then zoom_snd (gv_end_scan V) else ret_op ())
             (on_gateway (\<lambda>g. g\<lparr>gh_scan_monitor := False\<rparr>))))"

definition terminate_host :: "'w gateway_env \<Rightarrow> nat option \<Rightarrow> (gateway_hosts \<Rightarrow> gateway_hosts) \<Rightarrow> ('w, unit) gateway_op" where
  \<comment> \<open>one of the two hosts; an exception is logged\<close>
  "terminate_host V host cleared =
     (case host of
        None \<Rightarrow> ret_op ()
      | Some h \<Rightarrow>
          try_op (then_op (zoom_snd (gv_terminate V h)) (then_op (zoom_snd (gv_remove_host V h)) (on_gateway cleared))) (\<lambda>_. ret_op ()))"

definition base_terminate :: "'w gateway_env \<Rightarrow> ('w, unit) gateway_op" where
  "base_terminate V =
     read_op (\<lambda>(g, w).
       then_op (assert_op (gh_targets g = []))
      (then_op (if gh_dhcp_monitor g then zoom_snd (gv_cleanup_dhcp V) else ret_op ())
      (then_op (terminate_host V (gh_host g) (\<lambda>g. g\<lparr>gh_host := None\<rparr>))
        (terminate_host V (gh_dummy g) (\<lambda>g. g\<lparr>gh_dummy := None\<rparr>)))))"

definition terminate_hosts :: "gateway_kind \<Rightarrow> 'w gateway_env \<Rightarrow> ('w, unit) gateway_op" where
  "terminate_hosts kind V =
     then_op (base_terminate V) (case kind of Container_Gateway \<Rightarrow> scan_finalize V True | External_Gateway \<Rightarrow> ret_op ())"

definition gateway_start :: "gateway_kind \<Rightarrow> 'w gateway_env \<Rightarrow> ('w, unit) gateway_op" where
  \<comment> \<open>\<open>initialize\<close>: after an exception the gateway is terminated\<close>
  "gateway_start kind V = try_op (initialize_hosts kind V) (\<lambda>e. then_op (terminate_hosts kind V) (raise_op e))"

definition container_activate :: "'w gateway_env \<Rightarrow> ('w, unit) gateway_op" where
  \<comment> \<open>what \<open>ContainerGateway.activate\<close> does besides marking the gateway\<close>
  "container_activate V = then_op (execute_script V ''change_lease_time'' [gv_lease V]) (scan_finalize V True)"

subsection \<open>Hosts in the network\<close>

text \<open>
  What a gateway relies on: \<open>hosts\<close> is the list of hosts the network has. A new host is put at its end,
  removing one leaves the list without it unless it is the first (\<open>network.py\<close> keeps that one), and
  nothing else changes the list.
\<close>

definition quiet :: "('w \<Rightarrow> nat list) \<Rightarrow> ('w, 'a) op \<Rightarrow> bool" where
  "quiet hosts m \<longleftrightarrow> (\<forall>w. hosts (snd (m w)) = hosts w)"

definition dropped :: "nat \<Rightarrow> nat list \<Rightarrow> nat list" where
  "dropped h hs = (if hs \<noteq> [] \<and> hd hs = h then hs else remove1 h hs)"

locale host_network =
  fixes V :: "'w gateway_env" and hosts :: "'w \<Rightarrow> nat list"
  assumes added: "gv_add_host V name port w = (Inr h, w') \<Longrightarrow> h \<notin> set (hosts w) \<and> hosts w' = hosts w @ [h]"
    and removed: "gv_remove_host V h w = (Inr u, w') \<Longrightarrow> hosts w' = dropped h (hosts w)"
    and quiet_ops: "quiet hosts (gv_setup_tmpdir V name)" "quiet hosts (gv_activate V h)" "quiet hosts (gv_interface V h)"
      "quiet hosts (gv_move_intf V i h)" "quiet hosts (gv_cmd V h c)" "quiet hosts (gv_terminate V h)" "quiet hosts (gv_start_scan V)"
      "quiet hosts (gv_end_scan V)" "quiet hosts (gv_start_dhcp V)" "quiet hosts (gv_cleanup_dhcp V)"
begin

definition holds :: "nat list \<Rightarrow> nat option \<Rightarrow> nat option \<Rightarrow> gateway_hosts \<times> 'w \<Rightarrow> bool" where
  \<comment> \<open>the hosts of the network and those of the gateway\<close>
  "holds hs host dummy st \<longleftrightarrow> hosts (snd st) = hs \<and> gh_host (fst st) = host \<and> gh_dummy (fst st) = dummy \<and> gh_targets (fst st) = []"

definition started :: "nat list \<Rightarrow> gateway_hosts \<times> 'w \<Rightarrow> bool" where
  "started hs st \<longleftrightarrow> (\<exists>h. h \<notin> set hs \<and> (holds (hs @ [h]) (Some h) None st \<or>
     (\<exists>d. d \<notin> set hs \<and> d \<noteq> h \<and> holds (hs @ [h, d]) (Some h) (Some d) st)))"

lemma step_quiet: "quiet hosts m \<Longrightarrow> ensures (holds hs H D) (zoom_snd m) (\<lambda>_. holds hs H D) (\<lambda>_. True)"
  by (auto simp: ensures_def holds_def quiet_def zoom_snd_def split_beta split: sum.splits prod.splits)

lemma step_set:
  "(\<And>g. gh_host g = H \<Longrightarrow> gh_dummy g = D \<Longrightarrow> gh_host (f g) = H' \<and> gh_dummy (f g) = D' \<and> gh_targets (f g) = gh_targets g) \<Longrightarrow>
   ensures (holds hs H D) (on_gateway f) (\<lambda>_. holds hs H' D') (\<lambda>_. True)"
  by (auto simp: ensures_def holds_def on_gateway_def op_simps)

lemma step_add: "ensures (holds hs H D) (zoom_snd (gv_add_host V name port)) (\<lambda>h st. h \<notin> set hs \<and> holds (hs @ [h]) H D st) (\<lambda>_. True)"
  by (auto simp: ensures_def holds_def zoom_snd_def split: sum.splits prod.splits dest: added)

lemma step_pure: "(b \<Longrightarrow> ensures P m Q R) \<Longrightarrow> ensures (\<lambda>st. b \<and> P st) m Q R"
  by (auto simp: ensures_def)

lemma step_lift: "ensures P (lift_op r) (\<lambda>_. P) (\<lambda>_. True)"
  by (auto simp: ensures_def lift_op_def split: sum.splits)

lemma start_host_holds:
  "ensures (holds hs None None) (start_host V) (\<lambda>h st. h \<notin> set hs \<and> holds (hs @ [h]) (Some h) None st) (\<lambda>_. True)"
  unfolding start_host_def Let_def
  by (rule ensures_read, simp only: split_beta,
      intro ensures_then [OF step_quiet [OF quiet_ops(1)]] ensures_bind [OF step_add] step_pure ensures_then [OF step_quiet [OF quiet_ops(2)]]
        ensures_then [OF step_set] ensures_bind [OF step_quiet [OF quiet_ops(3)]] ensures_ret) auto

lemma start_dummy_holds:
  "ensures (holds hs (Some h) None) (start_dummy V host) (\<lambda>_ st. \<exists>d. d \<notin> set hs \<and> holds (hs @ [d]) (Some h) (Some d) st) (\<lambda>_. True)"
proof -
  have "ensures (holds (hs @ [d]) (Some h) None) (then_op (zoom_snd (gv_cmd V d c)) (on_gateway (\<lambda>g. g\<lparr>gh_dummy := Some d\<rparr>)))
      (\<lambda>_ st. \<exists>d. d \<notin> set hs \<and> holds (hs @ [d]) (Some h) (Some d) st) (\<lambda>_. True)" if "d \<notin> set hs" for d c
    using that by (intro ensures_then [OF step_quiet [OF quiet_ops(5)]]) (auto simp: ensures_def holds_def on_gateway_def op_simps)
  then show ?thesis unfolding start_dummy_def
    by (intro ensures_read) (simp only: split_beta, intro ensures_bind [OF step_add] step_pure)
qed

lemma started_keeps:
  assumes "\<And>hs H D. ensures (holds hs H D) m (\<lambda>_. holds hs H D) (\<lambda>_. True)"
  shows "ensures (started hs) m (\<lambda>_. started hs) (\<lambda>_. True)"
  using assms unfolding started_def ensures_def by (fastforce split: prod.splits sum.splits)

lemma fake_target_holds: "ensures (holds hs H D) (start_fake_target V host) (\<lambda>_. holds hs H D) (\<lambda>_. True)"
  unfolding start_fake_target_def
  by (rule ensures_read, simp only: split_beta,
      intro ensures_bind [OF step_lift] ensures_then [OF step_set]) (auto intro: step_quiet quiet_ops)

lemma script_holds: "ensures (holds hs H D) (execute_script V action args) (\<lambda>_. holds hs H D) (\<lambda>_. True)"
proof -
  have "ensures (holds hs H D) (case x of None \<Rightarrow> raise_op AttributeError | Some host \<Rightarrow> zoom_snd (gv_cmd V host c)) (\<lambda>_. holds hs H D) (\<lambda>_. True)" for x c
    by (cases x) (simp_all add: step_quiet quiet_ops, simp add: ensures_def raise_op_def)
  then show ?thesis unfolding execute_script_def by (intro ensures_read) (simp only: split_beta)
qed

lemma base_initialize_started: "ensures (holds hs None None) (base_initialize V) (\<lambda>_. started hs) (\<lambda>_. True)"
  unfolding base_initialize_def
proof (intro ensures_bind [OF start_host_holds] step_pure)
  fix h assume h: "h \<notin> set hs"
  have native: "ensures (holds (hs @ [h]) (Some h) None) (zoom_snd (gv_move_intf V i h)) (\<lambda>_. started hs) (\<lambda>_. True)" for i
    using h step_quiet [OF quiet_ops(4), of "hs @ [h]" "Some h" None i h]
    unfolding ensures_def started_def by (fastforce split: prod.splits sum.splits)
  have "ensures (\<lambda>st. \<exists>d. d \<notin> set (hs @ [h]) \<and> holds ((hs @ [h]) @ [d]) (Some h) (Some d) st)
      (then_op (start_fake_target V h) (lift_op (initialize_pings (gv_ping V)))) (\<lambda>_. started hs) (\<lambda>_. True)"
  proof -
    have "ensures (started hs) (then_op (start_fake_target V h) (lift_op (initialize_pings (gv_ping V)))) (\<lambda>_. started hs) (\<lambda>_. True)"
      by (rule ensures_then [OF started_keeps [OF fake_target_holds] started_keeps [OF step_lift]])
    then show ?thesis using h unfolding ensures_def started_def by fastforce
  qed
  from ensures_then [OF start_dummy_holds this]
  have dummy: "ensures (holds (hs @ [h]) (Some h) None)
      (then_op (start_dummy V h) (then_op (start_fake_target V h) (lift_op (initialize_pings (gv_ping V))))) (\<lambda>_. started hs) (\<lambda>_. True)" .
  show "ensures (holds (hs @ [h]) (Some h) None)
      (read_op (\<lambda>(g, w). if gateway_native g then zoom_snd (gv_move_intf V (the (gh_ext_intf g)) h)
         else then_op (start_dummy V h) (then_op (start_fake_target V h) (lift_op (initialize_pings (gv_ping V))))))
      (\<lambda>_. started hs) (\<lambda>_. True)"
    by (rule ensures_read) (auto intro: native dummy)
qed

lemma monitors_hold:
  "ensures (holds hs H D) (startup_scan V) (\<lambda>_. holds hs H D) (\<lambda>_. True)"
  "ensures (holds hs H D) (start_dhcp_monitor V) (\<lambda>_. holds hs H D) (\<lambda>_. True)"
proof -
  have "ensures (holds hs H D) (assert_op b) (\<lambda>_. holds hs H D) (\<lambda>_. True)" for b by (auto simp: ensures_def op_simps)
  note check = this
  show "ensures (holds hs H D) (startup_scan V) (\<lambda>_. holds hs H D) (\<lambda>_. True)"
    unfolding startup_scan_def
    by (rule ensures_read, simp only: split_beta, intro ensures_then [OF check] ensures_then [OF step_set]) (auto intro: step_quiet quiet_ops)
  show "ensures (holds hs H D) (start_dhcp_monitor V) (\<lambda>_. holds hs H D) (\<lambda>_. True)"
    unfolding start_dhcp_monitor_def by (intro ensures_then [OF step_set]) (auto intro: step_quiet quiet_ops)
qed

lemma initialize_started: "ensures (holds hs None None) (initialize_hosts kind V) (\<lambda>_. started hs) (\<lambda>_. True)"
  unfolding initialize_hosts_def
  by (cases kind) (auto intro!: ensures_then [OF base_initialize_started] started_keeps ensures_then [OF script_holds]
      ensures_then [OF monitors_hold(1)] monitors_hold(2))

text \<open>When both hosts are gone, they have been taken out of the network.\<close>

definition gone :: "nat list \<Rightarrow> gateway_hosts \<times> 'w \<Rightarrow> bool" where
  "gone hs st \<longleftrightarrow> (gh_host (fst st) = None \<longrightarrow> gh_dummy (fst st) = None \<longrightarrow> hosts (snd st) = hs)"

lemma gone_quiet: "quiet hosts m \<Longrightarrow> keeps (gone hs) (zoom_snd m)"
  by (simp add: keeps_def gone_def quiet_def zoom_snd_def split_beta)

lemma first_removed:
  "ensures (holds hs (Some h) D) (terminate_host V (Some h) (\<lambda>g. g\<lparr>gh_host := None\<rparr>))
     (\<lambda>_ st. gh_dummy (fst st) = D \<and> (gh_host (fst st) = None \<longrightarrow> hosts (snd st) = dropped h hs)) (\<lambda>_. False)"
proof -
  have "hosts w' = hosts w" if "gv_terminate V h w = (r, w')" for w w' r
    using quiet_ops(6) [of h] that by (simp add: quiet_def) (metis snd_conv)
  then show ?thesis
    by (auto simp: ensures_def terminate_host_def holds_def op_simps on_gateway_def split: prod.splits sum.splits dest: removed)
qed

lemma second_removed:
  "ensures (\<lambda>st. gh_dummy (fst st) = Some d \<and> (gh_host (fst st) = None \<longrightarrow> hosts (snd st) = hs))
     (terminate_host V (Some d) (\<lambda>g. g\<lparr>gh_dummy := None\<rparr>)) (\<lambda>_. gone (dropped d hs)) (\<lambda>_. False)"
proof -
  have "hosts w' = hosts w" if "gv_terminate V d w = (r, w')" for w w' r
    using quiet_ops(6) [of d] that by (simp add: quiet_def) (metis snd_conv)
  then show ?thesis
    by (auto simp: ensures_def terminate_host_def gone_def op_simps on_gateway_def split: prod.splits sum.splits dest: removed)
qed

definition left_over :: "nat \<Rightarrow> nat option \<Rightarrow> nat list \<Rightarrow> nat list" where
  "left_over h D hs = (case D of None \<Rightarrow> dropped h hs | Some d \<Rightarrow> dropped d (dropped h hs))"

lemma base_terminate_gone: "ensures (holds hs (Some h) D) (base_terminate V) (\<lambda>_. gone (left_over h D hs)) (gone (left_over h D hs))"
proof -
  have start: "gone X st" if "holds hs (Some h) D st" for X st using that by (simp add: gone_def holds_def)
  have quiet_step: "ensures (holds hs (Some h) D) (if b then zoom_snd (gv_cleanup_dhcp V) else ret_op ()) (\<lambda>_. holds hs (Some h) D) (gone X)" for b X
    using quiet_ops(10) by (auto simp: ensures_def ret_op_def zoom_snd_def holds_def gone_def quiet_def split: prod.splits sum.splits) (metis snd_conv)+
  have check: "ensures (holds hs (Some h) D) (assert_op b) (\<lambda>_. holds hs (Some h) D) (gone X)" for b X
    using start by (auto simp: ensures_def op_simps)
  have rest: "ensures (\<lambda>st. gh_dummy (fst st) = D \<and> (gh_host (fst st) = None \<longrightarrow> hosts (snd st) = dropped h hs))
      (terminate_host V D (\<lambda>g. g\<lparr>gh_dummy := None\<rparr>)) (\<lambda>_. gone (left_over h D hs)) (gone X)" for X
  proof (cases D)
    case None
    then show ?thesis by (auto simp: terminate_host_def left_over_def gone_def intro!: ensures_ret)
  next
    case (Some d)
    then show ?thesis using ensures_weaken [OF second_removed [of d "dropped h hs"], of "gone X"] by (simp add: left_over_def)
  qed
  show ?thesis unfolding base_terminate_def
  proof (rule ensures_read)
    fix st assume st: "holds hs (Some h) D st"
    have "ensures (holds hs (Some h) D)
       (then_op (assert_op (gh_targets (fst st) = [])) (then_op (if gh_dhcp_monitor (fst st) then zoom_snd (gv_cleanup_dhcp V) else ret_op ())
         (then_op (terminate_host V (Some h) (\<lambda>g. g\<lparr>gh_host := None\<rparr>)) (terminate_host V D (\<lambda>g. g\<lparr>gh_dummy := None\<rparr>)))))
       (\<lambda>_. gone (left_over h D hs)) (gone (left_over h D hs))"
      by (intro ensures_then [OF check] ensures_then [OF quiet_step] ensures_then [OF ensures_weaken [OF first_removed]] rest) simp
    with st show "ensures (holds hs (Some h) D) ((\<lambda>(g, w). then_op (assert_op (gh_targets g = []))
        (then_op (if gh_dhcp_monitor g then zoom_snd (gv_cleanup_dhcp V) else ret_op ())
          (then_op (terminate_host V (gh_host g) (\<lambda>g. g\<lparr>gh_host := None\<rparr>)) (terminate_host V (gh_dummy g) (\<lambda>g. g\<lparr>gh_dummy := None\<rparr>))))) st)
       (\<lambda>_. gone (left_over h D hs)) (gone (left_over h D hs))"
      by (cases st) (simp add: holds_def)
  qed
qed

lemma terminate_gone:
  assumes "holds hs (Some h) D st"
  shows "gone (left_over h D hs) (snd (terminate_hosts kind V st))"
proof -
  have "keeps (gone X) (scan_finalize V b)" for X b
    unfolding scan_finalize_def by (intro keeps_intros gone_quiet quiet_ops) (auto simp: on_gateway_def modify_op_def keeps_def gone_def)
  then have "ensures (gone X) (case kind of Container_Gateway \<Rightarrow> scan_finalize V True | External_Gateway \<Rightarrow> ret_op ()) (\<lambda>_. gone X) (gone X)" for X
    by (cases kind) (auto intro: keeps_ensures keeps_basic)
  from ensures_snd [OF ensures_then [OF base_terminate_gone this] assms] show ?thesis by (simp add: terminate_hosts_def)
qed

lemma left_over_started:
  assumes "h \<notin> set hs"
  shows "left_over h None (hs @ [h]) = (if hs = [] then [h] else hs)"
    and "d \<notin> set hs \<Longrightarrow> d \<noteq> h \<Longrightarrow> left_over h (Some d) (hs @ [h, d]) = (if hs = [] then [h] else hs)"
  using assms by (cases hs; auto simp: left_over_def dropped_def remove1_append)+

lemma start_and_terminate:
  assumes "gateway_start kind V (g, w) = (Inr (), (g1, w1))" "gh_host g = None" "gh_dummy g = None" "gh_targets g = []"
    and "terminate_hosts kind V (g1, w1) = (r, (g2, w2))" "gh_host g2 = None" "gh_dummy g2 = None"
  shows "if hosts w = [] then \<exists>h. hosts w2 = [h] else hosts w2 = hosts w"
proof -
  have "initialize_hosts kind V (g, w) = (Inr (), (g1, w1))"
    using assms(1) by (auto simp: gateway_start_def op_simps split: prod.splits sum.splits)
  moreover have "holds (hosts w) None None (g, w)" using assms(2-4) by (simp add: holds_def)
  ultimately have "started (hosts w) (g1, w1)"
    using initialize_started [of "hosts w" kind] unfolding ensures_def by fastforce
  then obtain h D where h: "h \<notin> set (hosts w)" "left_over h D (hosts w1) = (if hosts w = [] then [h] else hosts w)"
    "holds (hosts w1) (Some h) D (g1, w1)"
    using left_over_started by (auto simp: started_def holds_def)
  from terminate_gone [OF h(3), of kind] assms(5-7) h(2) show ?thesis by (auto simp: gone_def)
qed

lemma failed_activation:
  assumes "gh_host g = None" "gh_dummy g = None" "gh_targets g = []" "\<not> gh_dhcp_monitor g" "\<not> gh_scan_monitor g"
    and "gv_setup_tmpdir V (''gw'' @ show_number True 2 10 (gh_port_set g)) w = (Inr (), w1)"
    and "gv_add_host V (''gw'' @ show_number True 2 10 (gh_port_set g)) (if gateway_native g then 1 else host_port g GATEWAY_OFFSET) w1 = (Inr h, w2)"
    and "gv_activate V h w2 = (Inl e, w3)"
  shows "gateway_start kind V (g, w) = (Inl e, (g, w3)) \<and> hosts w3 = hosts w @ [h]"
proof -
  have "start_host V (g, w) = (Inl e, (g, w3))"
    using assms(6-8) by (simp add: start_host_def Let_def op_simps)
  then have "initialize_hosts kind V (g, w) = (Inl e, (g, w3))" by (simp add: initialize_hosts_def base_initialize_def op_simps)
  moreover have "terminate_hosts kind V (g, w3) = (Inr (), (g, w3))"
    using assms(1-5) by (simp add: terminate_hosts_def base_terminate_def terminate_host_def scan_finalize_def op_simps split: gateway_kind.split)
  ultimately have "gateway_start kind V (g, w) = (Inl e, (g, w3))" by (simp add: gateway_start_def op_simps)
  moreover have "hosts w1 = hosts w" "hosts w3 = hosts w2" using quiet_ops(1, 2) assms(6, 8) by (metis quiet_def snd_conv)+
  ultimately show ?thesis using added [OF assms(7)] by simp
qed

end

end
