(* ===== verification/Network.thy ===== *)
theory Network
  imports Topology Gateway_Life
begin

text \<open>
  The bookkeeping of \<open>daq/network.py\<close>: hosts of the emulated network and their links to the primary
  switch, the tap of a remote device, and mirror interfaces. The objects of the emulator (hosts,
  interfaces) are numbers and its operations are the record \<open>mininet\<close>, each of which may raise; the
  lists and dictionaries that \<open>network.py\<close> itself changes are the state. Of the emulator it is used that
  a new host goes to the end of the list of hosts, and that a new link is entered with its interface
  and port. The theory provides the hosts that \<open>Gateway_Life\<close> relies on. (The direction of traffic and
  the classification of ports are with the runner.)
\<close>

record net_link =
  nl_intf1 :: nat
  nl_intf2 :: nat

record test_network =
  nw_hosts :: "nat list"
  nw_links :: "net_link list"
  nw_switch_links :: "(nat, net_link) dict"
  nw_intfs :: "(int, nat) dict"
  nw_ports :: "(nat, int) dict"
  nw_names :: "(string, nat) dict"
  nw_built :: bool
  nw_ext_intf :: string

type_synonym ('w, 'a) network_op = "(test_network \<times> 'w, 'a) op"

record 'w mininet =
  mi_add_host :: "string \<Rightarrow> ('w, unit) op"
  mi_add_link :: "nat \<Rightarrow> int option \<Rightarrow> ('w, net_link \<times> int) op"
  mi_config_default :: "nat \<Rightarrow> ('w, unit) op"
  mi_attach :: "nat \<Rightarrow> ('w, unit) op"
  mi_vsctl :: "string list \<Rightarrow> ('w, unit) op"
  mi_detach :: "nat \<Rightarrow> ('w, unit) op"
  mi_delete :: "nat \<Rightarrow> ('w, unit) op"
  mi_terminate :: "nat \<Rightarrow> ('w, unit) op"
  mi_cmd :: "string \<Rightarrow> ('w, unit) op"
  mi_make_pair :: "string \<Rightarrow> string \<Rightarrow> ('w, unit) op"
  mi_intf_name :: "nat \<Rightarrow> string"
  mi_intf_opts :: "nat \<Rightarrow> string"

definition on_network :: "(test_network \<Rightarrow> test_network) \<Rightarrow> ('w, unit) network_op" where
  "on_network f = modify_op (\<lambda>(n, w). (f n, w))"

subsection \<open>Hosts\<close>

definition mininet_add_host :: "'w mininet \<Rightarrow> string \<Rightarrow> ('w, nat) network_op" where
  \<comment> \<open>\<open>net.addHost\<close>, with a new number for the new host\<close>
  "mininet_add_host M name =
     then_op (zoom_snd (mi_add_host M name))
       (read_op (\<lambda>(n, w). let host = Suc (fold max (nw_hosts n) 0) in
          then_op (on_network (\<lambda>n. n\<lparr>nw_hosts := nw_hosts n @ [host]\<rparr>)) (ret_op host)))"

definition mininet_add_link :: "'w mininet \<Rightarrow> nat \<Rightarrow> int option \<Rightarrow> ('w, net_link) network_op" where
  \<comment> \<open>\<open>net.addLink\<close>\<close>
  "mininet_add_link M host port =
     bind_op (zoom_snd (mi_add_link M host port)) (\<lambda>(link, port_no).
       then_op (on_network (\<lambda>n. n\<lparr>nw_links := nw_links n @ [link], nw_intfs := dict_set port_no (nl_intf1 link) (nw_intfs n),
           nw_ports := dict_set (nl_intf1 link) port_no (nw_ports n),
           nw_names := dict_set (mi_intf_name M (nl_intf1 link)) (nl_intf1 link) (nw_names n)\<rparr>))
         (ret_op link))"

fun retry_from :: "nat \<Rightarrow> ('s, 'a) op \<Rightarrow> ('s, 'a) op" where
  \<comment> \<open>the tries that are left; the last one raises what it raises\<close>
  "retry_from 0 m = raise_op GenericException"
| "retry_from (Suc n) m = (if n = 0 then m else try_op m (\<lambda>_. retry_from n m))"

definition retry_func :: "('s, 'a) op \<Rightarrow> ('s, 'a) op" where
  "retry_func m = retry_from 3 m"

definition switch_attach :: "'w mininet \<Rightarrow> nat \<Rightarrow> ('w, unit) network_op" where
  "switch_attach M intf =
     then_op (retry_func (zoom_snd (mi_attach M intf))) (zoom_snd (mi_vsctl M [mi_intf_opts M intf]))"

definition network_add_host :: "'w mininet \<Rightarrow> string \<Rightarrow> int option \<Rightarrow> ('w, nat) network_op" where
  "network_add_host M name port =
     bind_op (mininet_add_host M name) (\<lambda>host.
       try_op
         (bind_op (retry_func (mininet_add_link M host port)) (\<lambda>switch_link.
          then_op (on_network (\<lambda>n. n\<lparr>nw_switch_links := dict_set host switch_link (nw_switch_links n)\<rparr>))
         (then_op (read_op (\<lambda>(n, w). if \<not> nw_built n then ret_op ()
             else then_op (zoom_snd (mi_config_default M host)) (switch_attach M (nl_intf1 switch_link))))
            (ret_op host))))
         (\<lambda>e. then_op (zoom_snd (mi_terminate M host)) (raise_op e)))"

definition get_host_interface :: "nat \<Rightarrow> ('w, nat) network_op" where
  "get_host_interface host = read_op (\<lambda>(n, w). bind_op (lift_op (dict_index (nw_switch_links n) host)) (\<lambda>l. ret_op (nl_intf2 l)))"

definition switch_del_intf :: "'w mininet \<Rightarrow> nat \<Rightarrow> ('w, unit) network_op" where
  "switch_del_intf M intf =
     read_op (\<lambda>(n, w).
       bind_op (lift_op (dict_index (nw_ports n) intf)) (\<lambda>port.
       bind_op (lift_op (dict_index (nw_intfs n) port)) (\<lambda>_.
       then_op (on_network (\<lambda>n. n\<lparr>nw_intfs := dict_del port (nw_intfs n), nw_ports := dict_del intf (nw_ports n)\<rparr>))
        (bind_op (lift_op (dict_index (nw_names n) (mi_intf_name M intf))) (\<lambda>_.
          on_network (\<lambda>n. n\<lparr>nw_names := dict_del (mi_intf_name M intf) (nw_names n)\<rparr>))))))"

fun list_index :: "'a \<Rightarrow> 'a list \<Rightarrow> nat result" where
  \<comment> \<open>\<open>xs.index(x)\<close>\<close>
  "list_index x [] = Inl ValueError"
| "list_index x (y # ys) = (if x = y then Inr 0 else bind_result (list_index x ys) (\<lambda>i. Inr (Suc i)))"

definition del_index :: "nat \<Rightarrow> 'a list \<Rightarrow> 'a list" where
  \<comment> \<open>\<open>del xs[i]\<close>\<close>
  "del_index i xs = take i xs @ drop (Suc i) xs"

definition remove_switch_link :: "'w mininet \<Rightarrow> nat \<Rightarrow> net_link \<Rightarrow> ('w, unit) network_op" where
  "remove_switch_link M host switch_link =
     then_op (on_network (\<lambda>n. n\<lparr>nw_switch_links := dict_del host (nw_switch_links n)\<rparr>))
    (then_op (zoom_snd (mi_detach M (nl_intf1 switch_link)))
    (then_op (switch_del_intf M (nl_intf1 switch_link))
    (then_op (zoom_snd (mi_delete M (nl_intf1 switch_link)))
      (read_op (\<lambda>(n, w). bind_op (lift_op (list_index switch_link (nw_links n))) (\<lambda>i.
         on_network (\<lambda>n. n\<lparr>nw_links := del_index i (nw_links n)\<rparr>)))))))"

definition network_remove_host :: "'w mininet \<Rightarrow> nat \<Rightarrow> ('w, unit) network_op" where
  "network_remove_host M host =
     read_op (\<lambda>(n, w).
       bind_op (lift_op (list_index host (nw_hosts n))) (\<lambda>index.
       then_op (if index \<noteq> 0 then on_network (\<lambda>n. n\<lparr>nw_hosts := del_index index (nw_hosts n)\<rparr>) else ret_op ())
         (case dict_get (nw_switch_links n) host of
            None \<Rightarrow> ret_op ()
          | Some switch_link \<Rightarrow> remove_switch_link M host switch_link)))"

subsection \<open>Remote taps and mirrors\<close>

record vxlan_endpoint =
  vx_ip :: "string option"
  vx_vni :: "int option"
  vx_port :: "int option"

definition configure_remote_tap :: "'w mininet \<Rightarrow> vxlan_endpoint \<Rightarrow> string \<Rightarrow> ('w, bool) network_op" where
  "configure_remote_tap M config remote_ip =
     (if vx_ip config = None then ret_op False
      else let vni = (case vx_vni config of Some v \<Rightarrow> v | None \<Rightarrow> 0);
               dst_port = show_int (case vx_port config of Some p \<Rightarrow> p | None \<Rightarrow> 4789)
           in read_op (\<lambda>(n, w).
             then_op (zoom_snd (mi_cmd M (''ip link add '' @ nw_ext_intf n @ '' type vxlan id '' @ show_int vni @ '' remote '' @ remote_ip @
               '' dstport '' @ dst_port @ '' srcport '' @ dst_port @ '' '' @ dst_port @ '' nolearning'')))
            (then_op (zoom_snd (mi_cmd M (''ip link set '' @ nw_ext_intf n @ '' up'')))
              (ret_op True))))"

definition create_mirror_interface :: "'w mininet \<Rightarrow> int \<Rightarrow> bool \<Rightarrow> ('w, string) network_op" where
  "create_mirror_interface M port delete =
     (let name = mirror_iface_name port; peer = name @ ''-ext'' in
      then_op
        (if delete then zoom_snd (mi_cmd M (''ip link del '' @ name))
         else then_op (zoom_snd (mi_make_pair M name peer))
             (then_op (zoom_snd (mi_cmd M (''ip link set '' @ name @ '' up'')))
             (then_op (zoom_snd (mi_cmd M (''ip link set '' @ peer @ '' up'')))
               (zoom_snd (mi_vsctl M [''add-port'', ''pri'', name, ''--'', ''set'', ''interface'', name,
                  ''ofport_request='' @ show_int (mirror_port port)])))))
        (ret_op name))"

subsection \<open>Properties\<close>

lemma list_index_first: "list_index x xs = Inr i \<Longrightarrow> i < length xs \<and> xs ! i = x \<and> (i = 0 \<longleftrightarrow> hd xs = x) \<and> del_index i xs = remove1 x xs"
proof (induction xs arbitrary: i)
  case (Cons y ys)
  then show ?case by (auto simp: del_index_def bind_result_eq_Inr split: if_splits)
qed simp

lemma list_index_found: "x \<in> set xs \<Longrightarrow> \<exists>i. list_index x xs = Inr i"
  by (induction xs) auto

lemma hosts_kept:
  "keeps (\<lambda>s. nw_hosts (fst s) = hs) (remove_switch_link M host l)"
proof -
  have world: "keeps (\<lambda>s. nw_hosts (fst s) = hs) (zoom_snd m)" for m :: "('a, unit) op"
    by (auto simp: keeps_def zoom_snd_def split: prod.splits)
  have net: "keeps (\<lambda>s. nw_hosts (fst s) = hs) (on_network f)" if "\<And>n. nw_hosts (f n) = nw_hosts n" for f
    using that by (auto simp: keeps_def on_network_def modify_op_def)
  show ?thesis unfolding remove_switch_link_def switch_del_intf_def
    by (intro keeps_intros world net) auto
qed

text \<open>The first host is never taken off the list of hosts. Removing a host that the network has leaves the list
  without it, whatever fails in the removal of its link - unless it is the first host, whose index the
  code takes for false: then the list is unchanged.\<close>

theorem first_host_stays_listed:
  assumes "host \<in> set (nw_hosts n)"
  shows "nw_hosts (fst (snd (network_remove_host M host (n, w)))) =
    (if host = hd (nw_hosts n) then nw_hosts n else remove1 host (nw_hosts n))"
proof -
  obtain i where i: "list_index host (nw_hosts n) = Inr i" using list_index_found [OF assms] by blast
  note first = list_index_first [OF i]
  let ?n1 = "if i \<noteq> 0 then n\<lparr>nw_hosts := del_index i (nw_hosts n)\<rparr> else n"
  have step: "network_remove_host M host (n, w) =
    (case dict_get (nw_switch_links n) host of None \<Rightarrow> ret_op () | Some l \<Rightarrow> remove_switch_link M host l) (?n1, w)"
    by (simp add: network_remove_host_def read_op_def bind_op_def then_op_def lift_op_def i on_network_def modify_op_def ret_op_def)
  have "nw_hosts (fst (snd (network_remove_host M host (n, w)))) = nw_hosts ?n1"
    using keepsD [OF hosts_kept [of "nw_hosts ?n1" M host], of "(?n1, w)"]
    unfolding step by (cases "dict_get (nw_switch_links n) host") (simp_all add: ret_op_def)
  with first show ?thesis by auto
qed

subsection \<open>Gateways\<close>

definition network_gateway :: "'w mininet \<Rightarrow> 'w gateway_env \<Rightarrow> (test_network \<times> 'w) gateway_env" where
  \<comment> \<open>what a gateway uses: the hosts of the network, and the rest outside\<close>
  "network_gateway M X =
     \<lparr>gv_setup_tmpdir = (\<lambda>name. zoom_snd (gv_setup_tmpdir X name)), gv_add_host = (\<lambda>name port. network_add_host M name (Some port)),
      gv_activate = (\<lambda>h. zoom_snd (gv_activate X h)), gv_interface = (\<lambda>h. bind_op (get_host_interface h) (\<lambda>i. ret_op (mi_intf_name M i))),
      gv_move_intf = (\<lambda>i h. zoom_snd (gv_move_intf X i h)), gv_cmd = (\<lambda>h c. zoom_snd (gv_cmd X h c)), gv_ip = gv_ip X, gv_ping = gv_ping X,
      gv_terminate = (\<lambda>h. zoom_snd (gv_terminate X h)), gv_remove_host = network_remove_host M, gv_start_scan = zoom_snd (gv_start_scan X),
      gv_scan_open = gv_scan_open X, gv_end_scan = zoom_snd (gv_end_scan X), gv_start_dhcp = zoom_snd (gv_start_dhcp X),
      gv_cleanup_dhcp = zoom_snd (gv_cleanup_dhcp X), gv_initial_lease = gv_initial_lease X, gv_lease = gv_lease X\<rparr>"

lemma keeps_hosts:
  "keeps (\<lambda>s. nw_hosts (fst s) = hs) (zoom_snd m)"
  "(\<And>n. nw_hosts (f n) = nw_hosts n) \<Longrightarrow> keeps (\<lambda>s. nw_hosts (fst s) = hs) (on_network f)"
  by (auto simp: keeps_def zoom_snd_def on_network_def modify_op_def split: prod.splits)

lemma retry_keeps: "keeps I m \<Longrightarrow> keeps I (retry_func m)"
proof -
  have "keeps I m \<Longrightarrow> keeps I (retry_from n m)" for n by (induction n) (auto intro: keeps_intros)
  then show "keeps I m \<Longrightarrow> keeps I (retry_func m)" by (simp add: retry_func_def)
qed

lemma fresh_host: "Suc (fold max hs 0) \<notin> set hs"
proof -
  have "x \<in> set hs \<Longrightarrow> x \<le> fold max hs a" "a \<le> fold max hs a" for x a
    by (induction hs arbitrary: a) (auto intro: le_trans [OF max.cobounded1] le_trans [OF max.cobounded2])
  then show ?thesis using not_less_eq_eq by blast
qed

lemma add_host_added:
  assumes "network_add_host M name port s = (Inr h, s')"
  shows "h \<notin> set (nw_hosts (fst s)) \<and> nw_hosts (fst s') = nw_hosts (fst s) @ [h]"
proof -
  obtain x s1 where a: "mininet_add_host M name s = (x, s1)" by (cases "mininet_add_host M name s") auto
  let ?link = "\<lambda>h. bind_op (retry_func (mininet_add_link M h port)) (\<lambda>switch_link.
          then_op (on_network (\<lambda>n. n\<lparr>nw_switch_links := dict_set h switch_link (nw_switch_links n)\<rparr>))
         (then_op (read_op (\<lambda>(n, w). if \<not> nw_built n then ret_op ()
             else then_op (zoom_snd (mi_config_default M h)) (switch_attach M (nl_intf1 switch_link))))
            (ret_op h)))"
  have k: "keeps (\<lambda>s. nw_hosts (fst s) = hs) (?link h)" for hs h
    unfolding mininet_add_link_def switch_attach_def
    by (intro keeps_bind keeps_then keeps_read keeps_if keeps_pair keeps_basic retry_keeps keeps_hosts) simp_all
  show ?thesis
  proof (cases x)
    case (Inl e)
    with a assms show ?thesis by (simp add: network_add_host_def bind_op_def)
  next
    case (Inr h')
    have l: "try_op (?link h') (\<lambda>e. then_op (zoom_snd (mi_terminate M h')) (raise_op e)) s1 = (Inr h, s')"
      using assms by (simp add: network_add_host_def bind_op_def [of "mininet_add_host M name"] a Inr)
    then have "?link h' s1 = (Inr h, s')"
      by (auto simp: try_op_def then_op_def bind_op_def raise_op_def split: prod.splits sum.splits)
    moreover from this have "h = h'" by (auto simp: op_simps on_network_def switch_attach_def split: prod.splits sum.splits if_splits)
    ultimately have "nw_hosts (fst s') = nw_hosts (fst s1)" using keepsD [OF k [of "nw_hosts (fst s1)" h'], of s1] by simp
    moreover have "h' \<notin> set (nw_hosts (fst s)) \<and> nw_hosts (fst s1) = nw_hosts (fst s) @ [h']"
      using a Inr fresh_host
      by (auto simp: mininet_add_host_def op_simps on_network_def Let_def split: prod.splits sum.splits)
    ultimately show ?thesis using \<open>h = h'\<close> by simp
  qed
qed

lemma remove_host_dropped:
  assumes "network_remove_host M h s = (Inr u, s')"
  shows "nw_hosts (fst s') = dropped h (nw_hosts (fst s))"
proof -
  obtain n w where s: "s = (n, w)" by fastforce
  have "list_index h xs = Inl ValueError" if "h \<notin> set xs" for xs :: "nat list" using that by (induction xs) auto
  then have "network_remove_host M h s = (Inl ValueError, s)" if "h \<notin> set (nw_hosts n)"
    using that unfolding s by (simp add: network_remove_host_def op_simps)
  then have "h \<in> set (nw_hosts n)" using assms by auto
  from first_host_stays_listed [OF this, of M w] this assms show ?thesis unfolding s by (cases "nw_hosts n") (auto simp: dropped_def)
qed

lemma quiet_zoom: "quiet (\<lambda>s. nw_hosts (fst s)) (zoom_snd m)"
  by (simp add: quiet_def zoom_snd_def split_beta)

interpretation net: host_network "network_gateway M X" "\<lambda>s. nw_hosts (fst s)" for M :: "'w mininet" and X
proof
  have "quiet (\<lambda>s. nw_hosts (fst s)) (bind_op (get_host_interface h) (\<lambda>i. ret_op (mi_intf_name M i)))" for h :: nat
    by (auto simp: quiet_def get_host_interface_def op_simps split: prod.splits sum.splits)
  then show "quiet (\<lambda>s. nw_hosts (fst s)) (gv_interface (network_gateway M X) h)" for h by (simp add: network_gateway_def)
qed (auto simp: network_gateway_def quiet_zoom dest: add_host_added remove_host_dropped)

definition quiet_mininet :: "unit mininet" where
  "quiet_mininet =
     \<lparr>mi_add_host = (\<lambda>_. ret_op ()), mi_add_link = (\<lambda>h _. ret_op (\<lparr>nl_intf1 = h, nl_intf2 = h\<rparr>, int h)), mi_config_default = (\<lambda>_. ret_op ()),
      mi_attach = (\<lambda>_. ret_op ()), mi_vsctl = (\<lambda>_. ret_op ()), mi_detach = (\<lambda>_. ret_op ()), mi_delete = (\<lambda>_. ret_op ()),
      mi_terminate = (\<lambda>_. ret_op ()), mi_cmd = (\<lambda>_. ret_op ()), mi_make_pair = (\<lambda>_ _. ret_op ()), mi_intf_name = (\<lambda>i. ''pri-eth'' @ show_nat i),
      mi_intf_opts = (\<lambda>_. [])\<rparr>"

definition two_hosts :: test_network where
  "two_hosts = \<lparr>nw_hosts = [3, 4], nw_links = [], nw_switch_links = [], nw_intfs = [], nw_ports = [], nw_names = [], nw_built = True, nw_ext_intf = ''sec-eth7''\<rparr>"

theorem first_host_stays_listed_witness:
  "nw_hosts (fst (snd (network_remove_host quiet_mininet 3 (two_hosts, ())))) = [3, 4] \<and>
   nw_hosts (fst (snd (network_remove_host quiet_mininet 4 (two_hosts, ())))) = [3]"
  using first_host_stays_listed [of 3 two_hosts quiet_mininet "()"] first_host_stays_listed [of 4 two_hosts quiet_mininet "()"]
  by (simp add: two_hosts_def)

text \<open>C32: a gateway leaves the network as it found it. When a gateway has come up and is terminated without an error,
  the hosts of the network are those from before it was started - unless it was the first, whose host
  stays in the list for good.\<close>

theorem gateway_leaves_network:
  assumes "gateway_start kind (network_gateway M X) (g, s) = (Inr (), (g1, s1))"
    and "gh_host g = None" "gh_dummy g = None" "gh_targets g = []"
    and "terminate_hosts kind (network_gateway M X) (g1, s1) = (r, (g2, s2))" "gh_host g2 = None" "gh_dummy g2 = None"
  shows "if nw_hosts (fst s) = [] then \<exists>h. nw_hosts (fst s2) = [h] else nw_hosts (fst s2) = nw_hosts (fst s)"
  by (rule net.start_and_terminate [OF assms])

text \<open>A network with one host, and a gateway of set 2 whose pings are answered.\<close>

definition quiet_outside :: "unit gateway_env" where
  "quiet_outside =
     \<lparr>gv_setup_tmpdir = (\<lambda>_. ret_op ()), gv_add_host = (\<lambda>_ _. ret_op 0), gv_activate = (\<lambda>_. ret_op ()), gv_interface = (\<lambda>_. ret_op []),
      gv_move_intf = (\<lambda>_ _. ret_op ()), gv_cmd = (\<lambda>_ _. ret_op ()), gv_ip = (\<lambda>_. ''10.20.0.1''), gv_ping = (\<lambda>_. True),
      gv_terminate = (\<lambda>_. ret_op ()), gv_remove_host = (\<lambda>_. ret_op ()), gv_start_scan = ret_op (), gv_scan_open = True,
      gv_end_scan = ret_op (), gv_start_dhcp = ret_op (), gv_cleanup_dhcp = ret_op (), gv_initial_lease = ''60s'', gv_lease = ''500s''\<rparr>"

definition new_gateway :: gateway_hosts where
  "new_gateway = \<lparr>gh_port_set = 2, gh_ext_intf = None, gh_targets = [], gh_host = None, gh_host_intf = None, gh_dummy = None,
     gh_fake_target = None, gh_dhcp_monitor = False, gh_scan_monitor = False\<rparr>"

definition one_host :: test_network where
  "one_host = two_hosts\<lparr>nw_hosts := [3]\<rparr>"

definition up_state :: "gateway_hosts \<times> test_network \<times> unit" where
  "up_state = snd (gateway_start Container_Gateway (network_gateway quiet_mininet quiet_outside) (new_gateway, (one_host, ())))"

definition down_state :: "gateway_hosts \<times> test_network \<times> unit" where
  "down_state = snd (terminate_hosts Container_Gateway (network_gateway quiet_mininet quiet_outside) up_state)"

theorem gateway_leaves_network_witness: "nw_hosts (fst (snd down_state)) = [3] \<and> nw_hosts (fst (snd up_state)) = [3, 4, 5]"
proof -
  let ?V = "network_gateway quiet_mininet quiet_outside"
  have up: "fst (gateway_start Container_Gateway ?V (new_gateway, (one_host, ()))) = Inr ()" "nw_hosts (fst (snd up_state)) = [3, 4, 5]" by code_simp+
  have down: "gh_host (fst down_state) = None" "gh_dummy (fst down_state) = None" by code_simp+
  obtain g1 s1 where u: "gateway_start Container_Gateway ?V (new_gateway, (one_host, ())) = (Inr (), (g1, s1))" "up_state = (g1, s1)"
    using up(1) unfolding up_state_def by (cases "gateway_start Container_Gateway ?V (new_gateway, (one_host, ()))") auto
  obtain r g2 s2 where d: "terminate_hosts Container_Gateway ?V (g1, s1) = (r, (g2, s2))" "down_state = (g2, s2)"
    unfolding down_state_def u(2) by (cases "terminate_hosts Container_Gateway ?V (g1, s1)") auto
  have "gh_host g2 = None" "gh_dummy g2 = None" using down unfolding d(2) fst_conv by this+
  from gateway_leaves_network [OF u(1) _ _ _ d(1) this] have "nw_hosts (fst s2) = nw_hosts one_host"
    by (simp add: new_gateway_def) (simp add: one_host_def)
  with up(2) show ?thesis unfolding d(2) snd_conv by (simp add: one_host_def)
qed

text \<open>A gateway whose host cannot be activated leaks it. The host is kept only after its activation, so when
  that raises, the gateway terminates without it: the exception is passed on and the host stays in the
  network.\<close>

theorem failed_activation_leaks_host:
  assumes "gh_host g = None" "gh_dummy g = None" "gh_targets g = []" "\<not> gh_dhcp_monitor g" "\<not> gh_scan_monitor g"
    and "gv_setup_tmpdir (network_gateway M X) (''gw'' @ show_number True 2 10 (gh_port_set g)) s = (Inr (), s1)"
    and "gv_add_host (network_gateway M X) (''gw'' @ show_number True 2 10 (gh_port_set g))
      (if gateway_native g then 1 else host_port g GATEWAY_OFFSET) s1 = (Inr h, s2)"
    and "gv_activate (network_gateway M X) h s2 = (Inl e, s3)"
  shows "gateway_start kind (network_gateway M X) (g, s) = (Inl e, (g, s3)) \<and> nw_hosts (fst s3) = nw_hosts (fst s) @ [h]"
  by (rule net.failed_activation [OF assms])

theorem failed_activation_leaks_host_witness:
  "nw_hosts (fst (snd (snd (gateway_start Container_Gateway
     (network_gateway quiet_mininet (quiet_outside\<lparr>gv_activate := (\<lambda>_. raise_op OSError)\<rparr>)) (new_gateway, (one_host, ())))))) = [3, 4]"
proof -
  let ?V = "network_gateway quiet_mininet (quiet_outside\<lparr>gv_activate := (\<lambda>_. raise_op OSError)\<rparr>)"
  let ?add = "network_add_host quiet_mininet ''gw02'' (Some 20) (one_host, ())"
  have a: "fst ?add = Inr 4" "nw_hosts (fst (snd ?add)) = [3, 4]" by code_simp+
  have n: "''gw'' @ show_number True 2 10 2 = ''gw02''" by code_simp
  have add: "gv_add_host ?V (''gw'' @ show_number True 2 10 (gh_port_set new_gateway))
      (if gateway_native new_gateway then 1 else host_port new_gateway GATEWAY_OFFSET) (one_host, ()) = (Inr 4, snd ?add)"
    using a(1) n by (simp add: gateway_native_def network_gateway_def new_gateway_def host_port_def GATEWAY_OFFSET_def SET_SPACING_def) (metis prod.collapse)
  have dir: "gv_setup_tmpdir ?V name (one_host, ()) = (Inr (), (one_host, ()))" for name
    by (simp add: network_gateway_def quiet_outside_def zoom_snd_def ret_op_def)
  have fails: "gv_activate ?V 4 (snd ?add) = (Inl OSError, snd ?add)"
    by (cases "snd ?add") (simp add: network_gateway_def zoom_snd_def raise_op_def)
  have "gh_host new_gateway = None" "gh_dummy new_gateway = None" "gh_targets new_gateway = []" "\<not> gh_dhcp_monitor new_gateway" "\<not> gh_scan_monitor new_gateway"
    by (simp_all add: new_gateway_def)
  from failed_activation_leaks_host [OF this dir add fails, of Container_Gateway] show ?thesis using a(2) by simp
qed

end
