(* ===== verification/Forchestrator.thy ===== *)
theory Forchestrator
  imports Faucet_Claims
begin

text \<open>
  \<open>daq/forchestrator.py\<close>: the second user of the event client, which logs what the events say. What its
  handler does with an event is to take it apart, and that may raise. The loop takes a number of rounds;
  without more rounds the result is \<open>None\<close>.
\<close>

definition port_learn_values :: "val \<Rightarrow> val list result" where
  \<comment> \<open>the sequence that \<open>as_port_learn\<close> returns: \<open>[None] * 4\<close> or a tuple\<close>
  "port_learn_values event =
     bind_result (as_port_learn event) (\<lambda>r. Inr (case r of
        None \<Rightarrow> replicate 4 Nil_val
      | Some (dpid, port_no, eth_src, vid) \<Rightarrow> [dpid, Num port_no, eth_src, vid]))"

definition unpack3 :: "val list \<Rightarrow> (val \<times> val \<times> val) result" where
  \<comment> \<open>\<open>(a, b, c) = xs\<close>\<close>
  "unpack3 xs = (case xs of [a, b, c] \<Rightarrow> Inr (a, b, c) | _ \<Rightarrow> Inl ValueError)"

definition log_event :: "val \<Rightarrow> unit result" where
  \<comment> \<open>the body of the loop after \<open>next_event\<close>; the format \<open>%d\<close> of the data path is not evaluated here\<close>
  "log_event event =
     bind_result (as_port_state event) (\<lambda>_.
     bind_result (bind_result (port_learn_values event) unpack3) (\<lambda>_.
     bind_result (as_config_change event) (\<lambda>_. Inr ())))"

fun forch_handle_events :: "int \<Rightarrow> nat \<Rightarrow> faucet_client \<Rightarrow> (bool result \<times> faucet_client) option" where
  "forch_handle_events now 0 c = None"
| "forch_handle_events now (Suc n) c =
     (case next_event now c of
        (Inl e, c1) \<Rightarrow> Some (Inl e, c1)
      | (Inr None, c1) \<Rightarrow> Some (Inr True, c1)
      | (Inr (Some event), c1) \<Rightarrow>
          (case log_event event of Inl e \<Rightarrow> Some (Inl e, c1) | Inr () \<Rightarrow> forch_handle_events now n c1))"

lemma log_event_raises: "\<exists>e. log_event event = Inl e"
proof (cases "as_port_state event")
  case (Inr s)
  then show ?thesis
    by (cases "as_port_learn event") (auto simp: log_event_def port_learn_values_def unpack3_def numeral_eq_Suc split: option.splits)
qed (simp add: log_event_def)

text \<open>The orchestrator does not survive its first event. Whatever event the client hands out, the four values of a
  learning event are unpacked into three names, so the handler raises, after one round, and the event is
  lost.\<close>

theorem first_event_ends_orchestrator:
  assumes "next_event now c = (Inr (Some event), c')"
  shows "\<exists>e. forch_handle_events now (Suc n) c = Some (Inl e, c')"
  using log_event_raises [of event] assms by auto

theorem first_event_ends_orchestrator_witness:
  "\<exists>e. forch_handle_events 0 1 ((new_client 5)\<lparr>fe_debounced_q := [make_port_state (Num 1) (Num 2) (Flag True) True]\<rparr>) =
     Some (Inl e, new_client 5)"
proof -
  have "next_event 0 ((new_client 5)\<lparr>fe_debounced_q := [make_port_state (Num 1) (Num 2) (Flag True) True]\<rparr>) =
      (Inr (Some (make_port_state (Num 1) (Num 2) (Flag True) True)), new_client 5)"
    by (simp add: next_event_def new_client_def)
  from first_event_ends_orchestrator [OF this, of 0] show ?thesis by simp
qed

end
