(* ===== verification/Test_Lists.thy ===== *)
theory Test_Lists
  imports Py_Regex Py_Text
begin

text \<open>
  The list of tests in \<open>daq/runner.py\<close>: files of commands that add and remove tests and include other
  files. Reading a file and the environment variables are arguments. Includes are followed to a depth;
  \<open>None\<close> is the result when they are nested deeper, so a file that includes itself gives \<open>None\<close> at every
  depth.
\<close>

subsection \<open>Commands\<close>

datatype test_cmd =
    Add_Test "string option" "string option"
  | Remove_Test "string option"
  | Include_Tests "string option"
  | No_Cmd

definition words :: "string \<Rightarrow> string list" where
  \<comment> \<open>\<open>s.split()\<close>\<close>
  "words s = filter (\<lambda>w. w \<noteq> []) (Py_Text.split_on (CHR '' '') (map (\<lambda>c. if is_space c then CHR '' '' else c) s))"

definition parse_test_line :: "string \<Rightarrow> test_cmd" where
  \<comment> \<open>the words of a line without its comment\<close>
  "parse_test_line line =
     (let cmd = words (strip_comment line);
          cmd_name = (case cmd of [] \<Rightarrow> None | c # _ \<Rightarrow> Some c);
          argument = (if length cmd > 1 then Some (cmd ! 1) else None);
          place = (if length cmd > 2 then Some (cmd ! 2) else None)
      in if cmd_name = Some ''add'' then Add_Test argument place
         else if cmd_name = Some ''remove'' then Remove_Test argument
         else if cmd_name = Some ''include'' then Include_Tests argument
         else No_Cmd)"

record test_ordering =
  to_first :: "string option list"
  to_last :: "string option list"
  to_body :: "string option list"

definition no_tests :: test_ordering where
  "no_tests = \<lparr>to_first = [], to_last = [], to_body = []\<rparr>"

fun exec_test_cmd :: "test_cmd \<Rightarrow> test_ordering \<Rightarrow> test_ordering" where
  \<comment> \<open>the branches of the loop but for the includes\<close>
  "exec_test_cmd (Add_Test argument place) t =
     (if place = Some ''first'' then t\<lparr>to_first := to_first t @ [argument]\<rparr>
      else if place = Some ''last'' then t\<lparr>to_last := to_last t @ [argument]\<rparr>
      else t\<lparr>to_body := to_body t @ [argument]\<rparr>)"
| "exec_test_cmd (Remove_Test argument) t =
     \<lparr>to_first = remove1 argument (to_first t), to_last = remove1 argument (to_last t), to_body = remove1 argument (to_body t)\<rparr>"
| "exec_test_cmd _ t = t"

definition env_prefix :: rx where
  \<comment> \<open>the pattern of a variable in braces after a dollar sign\<close>
  "env_prefix = Cat Bol (Group 0 (Cat (lit ''${'') (Cat (Group 1 (Many True 0 any_char)) (lit ''}''))))"

definition include_path :: "(string \<Rightarrow> string option) \<Rightarrow> string option \<Rightarrow> string result" where
  "include_path getenv argument =
     (case argument of
        None \<Rightarrow> Inl TypeError
      | Some a \<Rightarrow>
          (case rx_search env_prefix a of
             None \<Rightarrow> Inr a
           | Some g \<Rightarrow>
               (let found = the (dict_get g 0); env_var = butlast (drop 2 found) in
                case getenv env_var of
                  None \<Rightarrow> Inl TypeError
                | Some v \<Rightarrow> Inr (v @ drop (length found) a))))"

subsection \<open>Files\<close>

type_synonym test_files = "string \<Rightarrow> string list result"
type_synonym test_reader = "string \<Rightarrow> test_ordering \<Rightarrow> (unit result \<times> test_ordering) option"

fun run_test_lines :: "(string \<Rightarrow> string option) \<Rightarrow> test_reader \<Rightarrow> string list \<Rightarrow> test_ordering \<Rightarrow> (unit result \<times> test_ordering) option" where
  \<comment> \<open>the loop over the lines of a file, with the function that reads an included one\<close>
  "run_test_lines getenv rec [] t = Some (Inr (), t)"
| "run_test_lines getenv rec (line # lines) t =
     (case parse_test_line line of
        Include_Tests argument \<Rightarrow>
          (case include_path getenv argument of
             Inl e \<Rightarrow> Some (Inl e, t)
           | Inr file \<Rightarrow>
               (case rec file t of
                  None \<Rightarrow> None
                | Some (Inl e, t') \<Rightarrow> Some (Inl e, t')
                | Some (Inr _, t') \<Rightarrow> run_test_lines getenv rec lines t'))
      | cmd \<Rightarrow> run_test_lines getenv rec lines (exec_test_cmd cmd t))"

fun read_test_file :: "test_files \<Rightarrow> (string \<Rightarrow> string option) \<Rightarrow> nat \<Rightarrow> test_reader" where
  "read_test_file files getenv 0 file t = None"
| "read_test_file files getenv (Suc depth) file t =
     (case files file of
        Inl e \<Rightarrow> Some (Inl e, t)
      | Inr lines \<Rightarrow> run_test_lines getenv (read_test_file files getenv depth) lines t)"

definition test_sections :: "test_ordering \<Rightarrow> string option list" where
  "test_sections t = to_first t @ to_body t @ to_last t"

definition get_test_list :: "test_files \<Rightarrow> (string \<Rightarrow> string option) \<Rightarrow> bool \<Rightarrow> nat \<Rightarrow> string \<Rightarrow> string option list result option" where
  "get_test_list files getenv no_test depth test_file =
     (if no_test then Some (Inr [])
      else case read_test_file files getenv depth test_file no_tests of
        None \<Rightarrow> None
      | Some (Inl e, _) \<Rightarrow> Some (Inl e)
      | Some (Inr _, t) \<Rightarrow> Some (Inr (test_sections t)))"

definition init_test_list :: "bool \<Rightarrow> string option list \<Rightarrow> string option list" where
  \<comment> \<open>with \<open>keep_hold\<close> the test \<open>hold\<close> is the last one\<close>
  "init_test_list keep_hold test_list =
     (if keep_hold \<and> Some ''hold'' \<notin> set test_list then test_list @ [Some ''hold''] else test_list)"

subsection \<open>Modules\<close>

record module_metadata =
  md_name :: "string option"
  md_startup_cmd :: "string option"
  md_basedir :: string

definition add_metadata :: "module_metadata \<Rightarrow> (string, string \<times> string) dict \<Rightarrow> (string, string \<times> string) dict result" where
  "add_metadata m metadata =
     (case (md_name m, md_startup_cmd m) of
        (Some name, Some cmd) \<Rightarrow>
          if name \<in> set (dict_keys metadata) then Inl AssertionError else Inr (dict_set name (cmd, md_basedir m) metadata)
      | _ \<Rightarrow> Inl AssertionError)"

definition get_test_metadata :: "module_metadata list \<Rightarrow> (string, string \<times> string) dict result" where
  \<comment> \<open>the description files of the modules, in the order the directory lists them\<close>
  "get_test_metadata files = fold (\<lambda>m r. bind_result r (add_metadata m)) files (Inr [])"

subsection \<open>Properties\<close>

text \<open>The commands of a file with those of the included files in their places.\<close>

fun flat_lines :: "(string \<Rightarrow> string option) \<Rightarrow> (string \<Rightarrow> test_cmd list result option) \<Rightarrow> string list \<Rightarrow> test_cmd list result option" where
  "flat_lines getenv rec [] = Some (Inr [])"
| "flat_lines getenv rec (line # lines) =
     (case (case parse_test_line line of
              Include_Tests argument \<Rightarrow> (case include_path getenv argument of Inl e \<Rightarrow> Some (Inl e) | Inr file \<Rightarrow> rec file)
            | cmd \<Rightarrow> Some (Inr [cmd])) of
        Some (Inr cmds) \<Rightarrow> map_option (\<lambda>r. bind_result r (\<lambda>rest. Inr (cmds @ rest))) (flat_lines getenv rec lines)
      | Some (Inl e) \<Rightarrow> Some (Inl e)
      | None \<Rightarrow> None)"

fun flat_commands :: "test_files \<Rightarrow> (string \<Rightarrow> string option) \<Rightarrow> nat \<Rightarrow> string \<Rightarrow> test_cmd list result option" where
  "flat_commands files getenv 0 file = None"
| "flat_commands files getenv (Suc depth) file =
     (case files file of Inl e \<Rightarrow> Some (Inl e) | Inr lines \<Rightarrow> flat_lines getenv (flat_commands files getenv depth) lines)"

lemma run_flat_lines:
  assumes "flat_lines getenv frec lines = Some (Inr cmds)"
    and "\<And>fname cmds t. frec fname = Some (Inr cmds) \<Longrightarrow> rec fname t = Some (Inr (), fold exec_test_cmd cmds t)"
  shows "run_test_lines getenv rec lines t = Some (Inr (), fold exec_test_cmd cmds t)"
  using assms(1)
proof (induction lines arbitrary: cmds t)
  case (Cons line lines)
  then obtain c1 c2 where c: "cmds = c1 @ c2" "flat_lines getenv frec lines = Some (Inr c2)"
    "(case parse_test_line line of
        Include_Tests argument \<Rightarrow> (case include_path getenv argument of Inl e \<Rightarrow> Some (Inl e) | Inr fname \<Rightarrow> frec fname)
      | cmd \<Rightarrow> Some (Inr [cmd])) = Some (Inr c1)"
    by (auto simp: bind_result_eq_Inr split: option.splits sum.splits)
  note IH = Cons.IH [OF c(2)]
  show ?case
  proof (cases "parse_test_line line")
    case (Include_Tests argument)
    then obtain fname where "include_path getenv argument = Inr fname" "frec fname = Some (Inr c1)"
      using c(3) by (auto split: sum.splits)
    then show ?thesis using Include_Tests assms(2) IH c(1) by simp
  qed (use c IH in auto)
qed simp

lemma read_flat: "flat_commands files getenv depth fname = Some (Inr cmds) \<Longrightarrow>
    read_test_file files getenv depth fname t = Some (Inr (), fold exec_test_cmd cmds t)"
proof (induction depth arbitrary: fname cmds t)
  case (Suc depth)
  then show ?case by (auto intro!: run_flat_lines split: sum.splits)
qed simp

text \<open>C21: included files act as if their lines stood in the place of the include. When the files are readable, the
  list of tests is the result of carrying out the commands of all files in that order: a test that is
  added goes to the end of its section, one that is removed leaves every section, and the sections are
  put together at the end.\<close>

theorem includes_act_in_place:
  assumes "flat_commands files getenv depth test_file = Some (Inr cmds)"
  shows "get_test_list files getenv False depth test_file = Some (Inr (test_sections (fold exec_test_cmd cmds no_tests)))"
  using read_flat [OF assms] by (simp add: get_test_list_def)

definition example_test_files :: test_files where
  "example_test_files fname =
     (if fname = ''host_tests.conf'' then Inr [''include ${LIB}/all.conf'', ''remove nmap # slow'', ''add hold last'', ''add pass'']
      else if fname = ''subset/all.conf'' then Inr [''build misc'', ''add ping first'', ''add nmap''] else Inl OSError)"

theorem includes_act_in_place_witness:
  "get_test_list example_test_files (\<lambda>v. if v = ''LIB'' then Some ''subset'' else None) False 2 ''host_tests.conf'' =
     Some (Inr [Some ''ping'', Some ''pass'', Some ''hold''])"
proof -
  have flat: "flat_commands example_test_files (\<lambda>v. if v = ''LIB'' then Some ''subset'' else None) 2 ''host_tests.conf'' =
    Some (Inr [No_Cmd, Add_Test (Some ''ping'') (Some ''first''), Add_Test (Some ''nmap'') None, Remove_Test (Some ''nmap''),
      Add_Test (Some ''hold'') (Some ''last''), Add_Test (Some ''pass'') None])" by code_simp
  from includes_act_in_place [OF flat] show ?thesis by (simp add: no_tests_def test_sections_def)
qed

text \<open>Includes that do not lead back: the depth of a file bounds the nesting.\<close>

lemma run_lines_return:
  assumes "\<And>line argument fname t. line \<in> set lines \<Longrightarrow> parse_test_line line = Include_Tests argument \<Longrightarrow>
      include_path getenv argument = Inr fname \<Longrightarrow> \<exists>r. rec fname t = Some r"
  shows "\<exists>r. run_test_lines getenv rec lines t = Some r"
  using assms
proof (induction lines arbitrary: t)
  case (Cons line lines)
  have IH: "\<exists>r. run_test_lines getenv rec lines t' = Some r" for t' using Cons by (meson list.set_intros(2))
  show ?case
  proof (cases "parse_test_line line")
    case (Include_Tests argument)
    show ?thesis
    proof (cases "include_path getenv argument")
      case (Inr fname)
      obtain r t' where "rec fname t = Some (r, t')" using Cons.prems [OF _ Include_Tests Inr, of t] by auto
      then show ?thesis using Include_Tests Inr IH by (cases r) auto
    qed (use Include_Tests in simp)
  qed (use IH in auto)
qed simp

text \<open>Reading the list of tests returns unless includes form a cycle: when every file has a rank above those of the
  files it includes, following includes as deep as the rank of the first file is enough, and the result
  is a list or the exception of a file that cannot be read.\<close>

theorem test_list_returns:
  assumes "\<And>f lines line argument g. files f = Inr lines \<Longrightarrow> line \<in> set lines \<Longrightarrow> parse_test_line line = Include_Tests argument \<Longrightarrow>
      include_path getenv argument = Inr g \<Longrightarrow> rank g < (rank f :: nat)"
  shows "\<exists>r. get_test_list files getenv no_test (Suc (rank test_file)) test_file = Some r"
proof -
  have "\<exists>r. read_test_file files getenv (Suc n) fname t = Some r" if "rank fname \<le> n" for n fname t
    using that
  proof (induction n arbitrary: fname t)
    case 0
    show ?case
    proof (cases "files fname")
      case (Inr lines)
      have "\<exists>r. run_test_lines getenv (read_test_file files getenv 0) lines t = Some r"
        by (rule run_lines_return) (use assms [OF Inr] 0 in fastforce)
      with Inr show ?thesis by simp
    qed simp
  next
    case (Suc n)
    show ?case
    proof (cases "files fname")
      case (Inr lines)
      have "\<exists>r. run_test_lines getenv (read_test_file files getenv (Suc n)) lines t = Some r"
        by (rule run_lines_return) (use assms [OF Inr] Suc in fastforce)
      with Inr show ?thesis by (simp del: read_test_file.simps(2) add: read_test_file.simps(2) [of _ _ "Suc n"])
    qed simp
  qed
  from this [of test_file "rank test_file" no_tests] obtain r t where
    "read_test_file files getenv (Suc (rank test_file)) test_file no_tests = Some (r, t)" by auto
  then show ?thesis by (cases r) (auto simp: get_test_list_def simp del: read_test_file.simps)
qed

theorem test_list_returns_witness:
  "\<exists>r. get_test_list example_test_files (\<lambda>v. if v = ''LIB'' then Some ''subset'' else None) False 2 ''host_tests.conf'' = Some r"
proof -
  let ?env = "\<lambda>v. if v = ''LIB'' then Some ''subset'' else None"
  let ?rank = "\<lambda>f. if f = ''host_tests.conf'' then 1 else 0 :: nat"
  have parse: "parse_test_line ''include ${LIB}/all.conf'' = Include_Tests (Some ''${LIB}/all.conf'')"
    "parse_test_line ''remove nmap # slow'' = Remove_Test (Some ''nmap'')" "parse_test_line ''add hold last'' = Add_Test (Some ''hold'') (Some ''last'')"
    "parse_test_line ''add pass'' = Add_Test (Some ''pass'') None" "parse_test_line ''build misc'' = No_Cmd"
    "parse_test_line ''add ping first'' = Add_Test (Some ''ping'') (Some ''first'')" "parse_test_line ''add nmap'' = Add_Test (Some ''nmap'') None"
    by code_simp+
  have path: "include_path ?env (Some ''${LIB}/all.conf'') = Inr ''subset/all.conf''" by code_simp
  have "?rank g < ?rank f" if "example_test_files f = Inr lines" "line \<in> set lines" "parse_test_line line = Include_Tests argument"
    "include_path ?env argument = Inr g" for f lines line argument g
    using that parse path by (auto simp: example_test_files_def split: if_splits)
  from test_list_returns [of example_test_files ?env ?rank False "''host_tests.conf''", OF this] show ?thesis
    by (simp add: numeral_2_eq_2 del: read_test_file.simps)
qed

end
