(* ===== verification/Host_Config.thy ===== *)
theory Host_Config
  imports Configurator
begin

text \<open>
  The configuration of a device in \<open>daq/host.py\<close> and \<open>daq/runner.py\<close>: the base configuration of the
  site, over which the files of the device type, the device and the port are merged. The files are those
  of \<open>Configurator\<close>; merging changes the configuration in place, so every layer is merged into the result
  of the previous one.
\<close>

subsection \<open>Layers\<close>

definition MODULE_CONFIG :: string where "MODULE_CONFIG = ''module_config.json''"
definition DEVICE_CONFIG :: string where "DEVICE_CONFIG = ''device_config.json''"
definition TYPE_CONFIG :: string where "TYPE_CONFIG = ''type_config.json''"
definition PORT_CONFIG :: string where "PORT_CONFIG = ''port_config.json''"
definition SITE_CONFIG :: string where "SITE_CONFIG = ''site_config.json''"

text \<open>Operations that may not return, or raise.\<close>

definition bind_call :: "'a result option \<Rightarrow> ('a \<Rightarrow> 'b result option) \<Rightarrow> 'b result option" where
  "bind_call r f = (case r of None \<Rightarrow> None | Some (Inl e) \<Rightarrow> Some (Inl e) | Some (Inr x) \<Rightarrow> f x)"

definition load_layer :: "files \<Rightarrow> vdict \<Rightarrow> string option \<Rightarrow> string \<Rightarrow> vdict result option" where
  \<comment> \<open>\<open>_load_config\<close>\<close>
  "load_layer fs config path filename =
     (case path of
        None \<Rightarrow> Some (Inr config)
      | Some p \<Rightarrow>
          if p = [] then Some (Inr config)
          else if file_exists fs (path_join p MODULE_CONFIG) then Some (Inl GenericException)
          else if file_exists fs (path_join p filename) then merge_config fs {} config (path_join p filename)
          else Some (Inr config))"

record host_paths =
  hp_site_path :: "string option"
  hp_device_base :: "string option"
  hp_port_base :: "string option"

definition type_path :: "files \<Rightarrow> host_paths \<Rightarrow> string option result option" where
  "type_path fs h =
     bind_call (load_layer fs [] (hp_device_base h) DEVICE_CONFIG) (\<lambda>dev_config.
       Some (case dict_get dev_config ''device_type'' of
         None \<Rightarrow> Inr None
       | Some v \<Rightarrow>
           if \<not> truth v then Inr None
           else (case (v, hp_site_path h) of
             (Str t, Some site_path) \<Rightarrow> Inr (Some (abspath (working_dir fs) (path_join (path_join site_path ''device_types'') t)))
           | _ \<Rightarrow> Inl TypeError)))"

definition load_module_config :: "files \<Rightarrow> host_paths \<Rightarrow> vdict \<Rightarrow> vdict option \<Rightarrow> vdict result option" where
  \<comment> \<open>the base configuration of the runner, and the information on the run if it is merged\<close>
  "load_module_config fs h base run_info =
     (let config = (case run_info of None \<Rightarrow> base | Some info \<Rightarrow> dict_set ''run_info'' (Dict info) base) in
      bind_call (type_path fs h) (\<lambda>t.
      bind_call (load_layer fs config t TYPE_CONFIG) (\<lambda>c1.
      bind_call (load_layer fs c1 (hp_device_base h) DEVICE_CONFIG) (\<lambda>c2.
        load_layer fs c2 (hp_port_base h) PORT_CONFIG))))"

definition load_base_config :: "files \<Rightarrow> string \<Rightarrow> string \<Rightarrow> vdict result option" where
  \<comment> \<open>\<open>_load_base_config\<close> of the runner\<close>
  "load_base_config fs base_conf site_path =
     bind_call (load_config fs base_conf False) (\<lambda>base.
     bind_call (load_config fs (path_join site_path SITE_CONFIG) True) (\<lambda>site_config.
       if site_config \<noteq> [] then merge_config fs {} base (path_join site_path SITE_CONFIG) else Some (Inr base)))"

subsection \<open>Updates\<close>

definition write_module_config :: "unit result \<Rightarrow> vdict \<Rightarrow> string \<Rightarrow> files \<Rightarrow> files result" where
  \<comment> \<open>\<open>written\<close> says whether the directory and the file can be written; the file is there afterwards, with
    the configuration\<close>
  "write_module_config written config path fs =
     bind_result written (\<lambda>_.
       let f = path_join path MODULE_CONFIG in
       Inr (fs\<lparr>file_exists := (file_exists fs)(f := True), read_yaml := (read_yaml fs)(f := Inr (Dict config))\<rparr>))"

definition reload_config :: "files \<Rightarrow> host_paths \<Rightarrow> vdict \<Rightarrow> vdict \<Rightarrow> bool \<Rightarrow> vdict \<Rightarrow> (vdict result \<times> vdict) option" where
  \<comment> \<open>the new configuration, and the loaded one, which changes only while the device is ready\<close>
  "reload_config fs h base info device_ready loaded =
     (case load_module_config fs h base (if device_ready then Some info else None) of
        None \<Rightarrow> None
      | Some (Inl e) \<Rightarrow> Some (Inl e, loaded)
      | Some (Inr c) \<Rightarrow> Some (Inr c, if device_ready then c else loaded))"

definition dev_config_updated ::
    "unit result \<Rightarrow> files \<Rightarrow> host_paths \<Rightarrow> vdict \<Rightarrow> vdict \<Rightarrow> bool \<Rightarrow> vdict \<Rightarrow> vdict \<Rightarrow>
       ((vdict result \<times> vdict) option \<times> files) result" where
  "dev_config_updated written fs h base info device_ready loaded dev_config =
     (case hp_device_base h of
        None \<Rightarrow> Inl TypeError
      | Some path \<Rightarrow>
          bind_result (write_module_config written dev_config path fs)
            (\<lambda>fs'. Inr (reload_config fs' h base info device_ready loaded, fs')))"

subsection \<open>Properties\<close>

text \<open>The content of a layer that has no includes, empty if it is absent.\<close>

definition layer_content :: "files \<Rightarrow> string option \<Rightarrow> string \<Rightarrow> vdict \<Rightarrow> bool" where
  "layer_content fs path filename d =
     (wf_val (Dict d) \<and> dict_get d ''include'' = None \<and>
      (case path of
         None \<Rightarrow> d = []
       | Some p \<Rightarrow>
           if p = [] then d = []
           else \<not> file_exists fs (path_join p MODULE_CONFIG) \<and>
             (if file_exists fs (path_join p filename)
              then read_config fs (abspath (working_dir fs) (path_join p filename)) = Inr (Dict d) else d = [])))"

lemma load_layer_content:
  assumes "layer_content fs path filename d"
  shows "load_layer fs config path filename = Some (Inr (deep_merge_dict config d))"
proof (cases path)
  case (Some p)
  show ?thesis
  proof (cases "p \<noteq> [] \<and> file_exists fs (path_join p filename)")
    case True
    with assms Some show ?thesis
      by (simp add: load_layer_def layer_content_def merge_config.simps [of fs "{}"] config_dict_def)
  next
    case False
    with assms Some show ?thesis by (auto simp: load_layer_def layer_content_def)
  qed
qed (use assms in \<open>simp add: load_layer_def layer_content_def\<close>)

text \<open>A setting of a stack of layers: that of the first layer that decides it.\<close>

fun stacked :: "vdict list \<Rightarrow> string list \<Rightarrow> val \<Rightarrow> bool" where
  "stacked [] p v = False"
| "stacked [base] p v = (val_path (Dict base) p = Some v)"
| "stacked (layer # layers) p v = (val_path (Dict layer) p = Some v \<or> stacked layers p v \<and> \<not> decides (Dict layer) p)"

text \<open>C19: the files of a device override each other in the intended order. A setting of the loaded configuration is
  that of the port's file if it decides the setting, otherwise that of the device's file, then that of
  the file of the device type, then that of the base configuration with the information on the run.\<close>

theorem module_config_layers:
  assumes "type_path fs h = Some (Inr t)"
    and "layer_content fs t TYPE_CONFIG type_d" "layer_content fs (hp_device_base h) DEVICE_CONFIG device_d"
      "layer_content fs (hp_port_base h) PORT_CONFIG port_d"
  shows "\<exists>c. load_module_config fs h base run_info = Some (Inr c) \<and>
    (\<forall>p v. is_leaf v \<longrightarrow> (val_path (Dict c) p = Some v \<longleftrightarrow>
       stacked [port_d, device_d, type_d, case run_info of None \<Rightarrow> base | Some info \<Rightarrow> dict_set ''run_info'' (Dict info) base] p v))"
proof -
  let ?base = "case run_info of None \<Rightarrow> base | Some info \<Rightarrow> dict_set ''run_info'' (Dict info) base"
  let ?c = "deep_merge_dict (deep_merge_dict (deep_merge_dict ?base type_d) device_d) port_d"
  have "load_module_config fs h base run_info = Some (Inr ?c)"
    using assms by (simp add: load_module_config_def Let_def bind_call_def load_layer_content)
  moreover have "wf_val (Dict type_d)" "wf_val (Dict device_d)" "wf_val (Dict port_d)" using assms by (auto simp: layer_content_def)
  ultimately show ?thesis using merged_leaf by (intro exI [of _ ?c]) simp
qed

text \<open>C36: an update of the device configuration that can be written makes every later load fail. The update is written under a name that the
  loader takes for a file of an older version: the reload that follows raises, the loaded configuration
  is not changed, and so does every further load of the configuration of the device.\<close>

theorem config_update_breaks_reload:
  assumes "hp_device_base h = Some path" "path \<noteq> []"
  shows "\<exists>fs'. dev_config_updated (Inr ()) fs h base info device_ready loaded dev_config = Inr (Some (Inl GenericException, loaded), fs') \<and>
    (\<forall>base' run_info. load_module_config fs' h base' run_info = Some (Inl GenericException))"
proof -
  obtain fs' where fs': "write_module_config (Inr ()) dev_config path fs = Inr fs'" "file_exists fs' (path_join path MODULE_CONFIG)"
    by (simp add: write_module_config_def Let_def)
  have "load_module_config fs' h base' run_info = Some (Inl GenericException)" for base' run_info
    using assms fs'(2) by (simp add: load_module_config_def Let_def type_path_def load_layer_def bind_call_def)
  then show ?thesis using assms fs'(1) by (auto simp: dev_config_updated_def reload_config_def)
qed

definition device_files :: files where
  "device_files =
     \<lparr>read_yaml = (\<lambda>f. if f = ''/site/mac_addrs/9a02571e8f01/device_config.json'' then Inr (Dict [(''modules'', Dict [(''nmap'', Dict [(''enabled'', Flag False)])])])
         else Inl OSError),
      read_lines = (\<lambda>_. Inl OSError), file_exists = (\<lambda>f. f = ''/site/mac_addrs/9a02571e8f01/device_config.json''), working_dir = ''/root''\<rparr>"

definition device_paths :: host_paths where
  "device_paths = \<lparr>hp_site_path = Some ''/site'', hp_device_base = Some ''/site/mac_addrs/9a02571e8f01'', hp_port_base = None\<rparr>"

theorem config_update_breaks_reload_witness:
  "\<exists>fs'. dev_config_updated (Inr ()) device_files device_paths [] [] True [] [] = Inr (Some (Inl GenericException, []), fs') \<and>
     load_module_config fs' device_paths [] None = Some (Inl GenericException)"
  using config_update_breaks_reload [of device_paths "''/site/mac_addrs/9a02571e8f01''" device_files "[]" "[]" True "[]" "[]"]
  by (auto simp: device_paths_def)

theorem module_config_layers_witness:
  "\<exists>c. load_module_config device_files device_paths [(''modules'', Dict [(''nmap'', Dict [(''enabled'', Flag True), (''timeout_sec'', Num 60)])])] None =
       Some (Inr c) \<and>
     val_path (Dict c) [''modules'', ''nmap'', ''enabled''] = Some (Flag False) \<and>
     val_path (Dict c) [''modules'', ''nmap'', ''timeout_sec''] = Some (Num 60)"
proof -
  let ?d = "[(''modules'', Dict [(''nmap'', Dict [(''enabled'', Flag False)])])]"
  let ?b = "[(''modules'', Dict [(''nmap'', Dict [(''enabled'', Flag True), (''timeout_sec'', Num 60)])])]"
  have device: "layer_content device_files (hp_device_base device_paths) DEVICE_CONFIG ?d" by code_simp
  have none: "layer_content device_files None TYPE_CONFIG []" "layer_content device_files (hp_port_base device_paths) PORT_CONFIG []" by code_simp+
  have "type_path device_files device_paths = Some (Inr None)"
    by (simp add: type_path_def bind_call_def load_layer_content [OF device])
  from module_config_layers [OF this none(1) device none(2), of ?b None] obtain c where
    c: "load_module_config device_files device_paths ?b None = Some (Inr c)"
    "\<And>p v. is_leaf v \<Longrightarrow> val_path (Dict c) p = Some v \<longleftrightarrow> stacked [[], ?d, [], ?b] p v" by auto
  have "val_path (Dict c) [''modules'', ''nmap'', ''enabled''] = Some (Flag False)"
    "val_path (Dict c) [''modules'', ''nmap'', ''timeout_sec''] = Some (Num 60)"
    using c(2) [of "Flag False" "[''modules'', ''nmap'', ''enabled'']"] c(2) [of "Num 60" "[''modules'', ''nmap'', ''timeout_sec'']"] by simp_all
  with c(1) show ?thesis by blast
qed

end
