(* ===== verification/Cloud_Config.thy ===== *)
theory Cloud_Config
  imports Py_Values Threads
begin

text \<open>
  Configurations that can be changed from the cloud: the registration and the snapshots of
  \<open>daq/gcp.py\<close> and the queue of callbacks of \<open>daq/runner.py\<close>. The database is the map \<open>cl_docs\<close> from
  paths to documents; a snapshot of a document that it sends to a subscriber is an argument. Each
  subscription names the operation to be called, which works on a state of its own and may raise.
\<close>

record config_doc =
  cd_config :: val
  cd_saved :: int
  cd_timestamp :: int

record ('w) snapshot_handler =
  sh_path :: string
  sh_docs :: "config_doc list"
  sh_callback :: "val \<Rightarrow> ('w, unit) op"
  sh_immediate :: bool

record 'w cloud =
  cl_connected :: bool
  cl_client_name :: string
  cl_docs :: "(string, config_doc) dict"
  cl_callbacks :: "(string, (val \<Rightarrow> ('w, unit) op) \<times> bool) dict"
  cl_queue :: "'w snapshot_handler list"

type_synonym ('w, 'a) cloud_op = "('w cloud \<times> 'w, 'a) op"

definition on_cloud :: "('w cloud \<Rightarrow> 'w cloud) \<Rightarrow> ('w, unit) cloud_op" where
  "on_cloud f = modify_op (\<lambda>(c, w). (f c, w))"

definition config_path :: "'w cloud \<Rightarrow> string \<Rightarrow> string" where
  "config_path c path = ''origin/'' @ cl_client_name c @ ''/'' @ path @ ''/config/definition''"

definition register_config ::
    "int \<Rightarrow> string \<Rightarrow> val option \<Rightarrow> (val \<Rightarrow> ('w, unit) op) option \<Rightarrow> bool \<Rightarrow> ('w, unit) cloud_op" where
  \<comment> \<open>the time, the path, the configuration (none to release it) and the callback\<close>
  "register_config now path config callback immediate =
     read_op (\<lambda>(c, w). if \<not> cl_connected c then ret_op ()
       else then_op (assert_op (path \<noteq> []))
         (let full_path = config_path c path in
          then_op (on_cloud (\<lambda>c. c\<lparr>cl_callbacks := dict_del full_path (cl_callbacks c)\<rparr>))
         (then_op (on_cloud (\<lambda>c. c\<lparr>cl_docs := (case config of
              Some v \<Rightarrow> dict_set full_path \<lparr>cd_config = v, cd_saved = now, cd_timestamp = now\<rparr> (cl_docs c)
            | None \<Rightarrow> dict_del full_path (cl_docs c))\<rparr>))
            (case callback of
               None \<Rightarrow> ret_op ()
             | Some cb \<Rightarrow> then_op (assert_op (config \<noteq> None))
                 (on_cloud (\<lambda>c. c\<lparr>cl_callbacks := dict_set full_path (cb, immediate) (cl_callbacks c)\<rparr>))))))"

definition release_config :: "int \<Rightarrow> string \<Rightarrow> ('w, unit) cloud_op" where
  "release_config now path = register_config now path None None False"

definition on_snapshot :: "string \<Rightarrow> config_doc list \<Rightarrow> ('w, unit) cloud_op" where
  \<comment> \<open>the handler is queued for the main thread (\<open>_queue_callback\<close>)\<close>
  "on_snapshot full_path docs =
     read_op (\<lambda>(c, w). case dict_get (cl_callbacks c) full_path of
        None \<Rightarrow> ret_op ()
      | Some (cb, immediate) \<Rightarrow>
          on_cloud (\<lambda>c. c\<lparr>cl_queue := cl_queue c @
            [\<lparr>sh_path = full_path, sh_docs = docs, sh_callback = cb, sh_immediate = immediate\<rparr>]\<rparr>))"

definition update_saved :: "string \<Rightarrow> int \<Rightarrow> ('w, unit) cloud_op" where
  \<comment> \<open>\<open>doc.reference.update\<close>, which fails when the document is gone\<close>
  "update_saved full_path timestamp =
     read_op (\<lambda>(c, w). case dict_get (cl_docs c) full_path of
        None \<Rightarrow> raise_op GenericException
      | Some d \<Rightarrow> on_cloud (\<lambda>c. c\<lparr>cl_docs := dict_set full_path (d\<lparr>cd_saved := timestamp\<rparr>) (cl_docs c)\<rparr>))"

definition handle_doc :: "'w snapshot_handler \<Rightarrow> config_doc \<Rightarrow> ('w, unit) cloud_op" where
  "handle_doc h doc =
     (if sh_immediate h \<or> cd_saved doc \<noteq> cd_timestamp doc
      then then_op (zoom_snd (sh_callback h (cd_config doc))) (update_saved (sh_path h) (cd_timestamp doc))
      else ret_op ())"

definition run_handler :: "'w snapshot_handler \<Rightarrow> ('w, unit) cloud_op" where
  "run_handler h = for_op (sh_docs h) (handle_doc h)"

definition handle_queued_events :: "('w, unit) cloud_op" where
  "handle_queued_events =
     read_op (\<lambda>(c, w). then_op (on_cloud (\<lambda>c. c\<lparr>cl_queue := []\<rparr>)) (for_op (cl_queue c) run_handler))"

subsection \<open>Properties\<close>

text \<open>What the database sends: the document as it is.\<close>

definition snapshot_of :: "string \<Rightarrow> ('w, unit) cloud_op" where
  "snapshot_of full_path = read_op (\<lambda>(c, w). case dict_get (cl_docs c) full_path of None \<Rightarrow> ret_op () | Some d \<Rightarrow> on_snapshot full_path [d])"

definition deliver :: "string \<Rightarrow> 'w cloud \<times> 'w \<Rightarrow> 'w cloud \<times> 'w" where
  "deliver full_path s = snd (handle_queued_events (snd (snapshot_of full_path s)))"

lemma deliver_cases:
  assumes "cl_queue c = []" "dict_get (cl_docs c) p = Some d" "dict_get (cl_callbacks c) p = Some (cb, imm)"
  shows "deliver p (c, w) =
    (if imm \<or> cd_saved d \<noteq> cd_timestamp d
     then case cb (cd_config d) w of
       (Inl e, w') \<Rightarrow> (c, w')
     | (Inr _, w') \<Rightarrow> (c\<lparr>cl_docs := dict_set p (d\<lparr>cd_saved := cd_timestamp d\<rparr>) (cl_docs c)\<rparr>, w')
     else (c, w))"
proof -
  have c: "c\<lparr>cl_queue := []\<rparr> = c" using assms(1) by simp
  obtain r w' where "cb (cd_config d) w = (r, w')" by (cases "cb (cd_config d) w") auto
  then show ?thesis using assms c
    by (cases r) (auto simp: deliver_def snapshot_of_def on_snapshot_def handle_queued_events_def run_handler_def handle_doc_def update_saved_def
        on_cloud_def op_simps)
qed

text \<open>A change from the cloud is applied once. A configuration the program registered itself is not given back to it;
  a document whose time stamp was changed is given to the callback when its snapshot is handled, and
  after the callback has returned a further snapshot of the document has no effect.\<close>

theorem config_change_applied_once:
  assumes "cl_queue c = []" "dict_get (cl_docs c) p = Some d" "dict_get (cl_callbacks c) p = Some (cb, False)"
  shows "(cd_saved d = cd_timestamp d \<longrightarrow> deliver p (c, w) = (c, w)) \<and>
    (cd_saved d \<noteq> cd_timestamp d \<longrightarrow> (\<forall>w'. cb (cd_config d) w = (Inr (), w') \<longrightarrow>
       snd (deliver p (c, w)) = w' \<and> deliver p (deliver p (c, w)) = deliver p (c, w)))"
proof (intro conjI impI allI)
  assume "cd_saved d = cd_timestamp d"
  then show "deliver p (c, w) = (c, w)" using deliver_cases [OF assms] by simp
next
  fix w' assume d: "cd_saved d \<noteq> cd_timestamp d" "cb (cd_config d) w = (Inr (), w')"
  let ?c = "c\<lparr>cl_docs := dict_set p (d\<lparr>cd_saved := cd_timestamp d\<rparr>) (cl_docs c)\<rparr>"
  have first: "deliver p (c, w) = (?c, w')" using deliver_cases [OF assms, of w] d by simp
  show "snd (deliver p (c, w)) = w'" using first by simp
  have "dict_get (cl_docs ?c) p = Some (d\<lparr>cd_saved := cd_timestamp d\<rparr>)" by (simp add: dict_get_set)
  then have "deliver p (?c, w') = (?c, w')" using deliver_cases [of ?c p _ cb False w'] assms by simp
  with first show "deliver p (deliver p (c, w)) = deliver p (c, w)" by simp
qed

definition changed_config :: "val list cloud" where
  \<comment> \<open>a callback that keeps the configurations it is given\<close>
  "changed_config =
     \<lparr>cl_connected = True, cl_client_name = ''daq'', cl_docs = [(''p'', \<lparr>cd_config = Num 7, cd_saved = 1, cd_timestamp = 2\<rparr>)],
      cl_callbacks = [(''p'', (\<lambda>v. modify_op (\<lambda>w. w @ [v]), False))], cl_queue = []\<rparr>"

theorem config_change_applied_once_witness:
  "snd (deliver ''p'' (changed_config, [])) = [Num 7] \<and>
   deliver ''p'' (deliver ''p'' (changed_config, [])) = deliver ''p'' (changed_config, [])"
  using config_change_applied_once [of changed_config "''p''" "\<lparr>cd_config = Num 7, cd_saved = 1, cd_timestamp = 2\<rparr>"
      "\<lambda>v. modify_op (\<lambda>w. w @ [v])" "[]"]
  by (simp add: changed_config_def modify_op_def)

text \<open>A callback that raises takes the others with it. The queue is emptied before its handlers are called, so when
  one of them raises, the handlers queued after it are never run, now or later: the exception and the
  state that handler left are all that remains.\<close>

theorem failing_callback_drops_queue:
  assumes "cl_queue c = before @ h # after" "for_op before run_handler (c\<lparr>cl_queue := []\<rparr>, w) = (Inr (), s)" "run_handler h s = (Inl e, s')"
  shows "handle_queued_events (c, w) = (Inl e, s')"
proof -
  have "for_op (before @ h # after) run_handler x = (Inl e, s')" if "for_op before run_handler x = (Inr (), s)" for x
    using that
  proof (induction before arbitrary: x)
    case Nil
    then show ?case using assms(3) by (simp add: ret_op_def then_op_def bind_op_def)
  next
    case (Cons b before)
    then show ?case by (auto simp: then_op_def bind_op_def split: prod.splits sum.splits)
  qed
  then show ?thesis using assms(1, 2) by (simp add: handle_queued_events_def read_op_def on_cloud_def then_op_def bind_op_def modify_op_def)
qed

definition bad_handler :: "val list snapshot_handler" where
  "bad_handler = \<lparr>sh_path = ''p'', sh_docs = [\<lparr>cd_config = Num 1, cd_saved = 1, cd_timestamp = 2\<rparr>],
     sh_callback = (\<lambda>v. raise_op GenericException), sh_immediate = False\<rparr>"

definition good_handler :: "val list snapshot_handler" where
  "good_handler = bad_handler\<lparr>sh_callback := (\<lambda>v. modify_op (\<lambda>w. w @ [v]))\<rparr>"

definition two_updates :: "val list cloud" where
  "two_updates = changed_config\<lparr>cl_queue := [bad_handler, good_handler]\<rparr>"

theorem failing_callback_drops_queue_witness:
  "handle_queued_events (two_updates, []) = (Inl GenericException, (changed_config, []))"
proof -
  have q: "cl_queue two_updates = [] @ bad_handler # [good_handler]" by (simp add: two_updates_def)
  have c: "two_updates\<lparr>cl_queue := []\<rparr> = changed_config" by (simp add: two_updates_def changed_config_def)
  have r: "run_handler bad_handler (changed_config, []) = (Inl GenericException, (changed_config, []))"
    by (simp add: run_handler_def handle_doc_def bad_handler_def op_simps)
  show ?thesis by (rule failing_callback_drops_queue [OF q _ r]) (simp add: c op_simps)
qed

end
