(* ===== verification/Main_Loop.thy ===== *)
theory Main_Loop
  imports Runner_Example Stream_Monitor
begin

text \<open>
  The main loop of \<open>daq/runner.py\<close>: the stream monitor of \<open>Stream_Monitor\<close> with the handlers of \<open>Runner\<close>
  as its callbacks. A callback is named by the occasion it handles. The record \<open>loop_env\<close> has, for every
  step, the answers of what is outside the program, what the other threads do before the step (sessions
  and events that arrive, which take the lock of the runner), the callbacks waiting in the queue, what
  the step registers and forgets with the monitor, the results of reading and closing descriptors, and the results of
  polling. The theorems hold for all of them. The number of rounds is bounded; without more rounds the result is \<open>None\<close>.

  Beside the state of the runner, the loop keeps a log of what was done: by which part of the loop or by which
  other thread, on which occasion, with which answers and with which result. Nothing reads it but the
  theorems. The idle handler, the hook and the handler of the event socket hold the lock of the runner, so they are one
  step; reaping, the heartbeat and the last termination do not, and other threads act between their devices.
  What another thread does inside the work for one device, or inside a callback of a host's stream, is taken to come before or after it.
\<close>

datatype actor = Idler | Hook | Callback | Reaper | Beater | Terminator | OtherThread

datatype entry =
    Did actor nat occasion "unit result"
  | Polled "(int \<times> nat) list"
  | Ready "(int \<times> nat) list"
  | Closed int "unit result"
  | Triggered "nat list"
  | Caught py_error

record 'h loop_env =
  le_answers :: "nat \<Rightarrow> env \<times> 'h host_ops"
  le_others :: "nat \<Rightarrow> occasion list"
  le_queued :: "nat \<Rightarrow> occasion list"
  le_registers :: "nat \<Rightarrow> occasion stream_monitor \<Rightarrow> occasion stream_monitor"
  le_io :: "nat \<Rightarrow> unit result"
  le_close :: "nat \<Rightarrow> unit result"
  le_first_poll :: "nat \<Rightarrow> (int \<times> nat) list"
  le_second_poll :: "nat \<Rightarrow> occasion stream_monitor \<Rightarrow> (int \<times> nat) list"
  le_sock :: int

type_synonym 'h world = "'h runner \<times> nat \<times> entry list"
type_synonym ('h, 'a) world_op = "('h world, 'a) op"
type_synonym ('h, 'a) loop_op = "(occasion, 'h world, 'a) stream_op"
type_synonym 'h loop_state = "occasion stream_monitor \<times> 'h world"

subsection \<open>Steps\<close>

definition happens :: "'h loop_env \<Rightarrow> actor \<Rightarrow> (env \<Rightarrow> occasion) \<Rightarrow> ('h, unit) world_op" where
  \<comment> \<open>one occasion, with the answers for this step\<close>
  "happens L a occ = (\<lambda>(s, k, log). case le_answers L k of (E, H) \<Rightarrow>
     (case handle_occasion E H (occ E) s of (r, s') \<Rightarrow> (r, (s', Suc k, log @ [Did a k (occ E) r]))))"

definition note_entry :: "entry \<Rightarrow> ('h, unit) loop_op" where
  "note_entry e = modify_op (\<lambda>(m, (s, k, log)). (m, (s, k, log @ [e])))"

definition other_threads :: "'h loop_env \<Rightarrow> ('h, unit) world_op" where
  "other_threads L =
     read_op (\<lambda>(s, k, log). for_op (le_others L k) (\<lambda>occ. try_op (happens L OtherThread (\<lambda>_. occ)) (\<lambda>_. ret_op ())))"

definition register_step :: "'h loop_env \<Rightarrow> ('h, unit) loop_op" where
  "register_step L = modify_op (\<lambda>(m, (s, k, log)). (le_registers L k m, (s, k, log)))"

definition loop_call :: "'h loop_env \<Rightarrow> actor \<Rightarrow> (env \<Rightarrow> occasion) \<Rightarrow> ('h, unit) loop_op" where
  "loop_call L a occ =
     then_op (zoom_snd (other_threads L)) (then_op (register_step L) (zoom_snd (happens L a occ)))"

definition error_occasion :: "env \<Rightarrow> py_error \<Rightarrow> occasion \<Rightarrow> occasion" where
  \<comment> \<open>the error callbacks of captures and modules are given the exception\<close>
  "error_occasion E e occ =
     (case occ of
        HostStream h (PcapError _) \<Rightarrow> HostStream h (PcapError (exn_of E e))
      | HostStream h (ModuleError k _) \<Rightarrow> HostStream h (ModuleError k (exn_of E e))
      | _ \<Rightarrow> occ)"

definition loop_hook :: "'h loop_env \<Rightarrow> ('h, unit) loop_op" where
  "loop_hook L = read_op (\<lambda>(m, (s, k, log)). for_op (le_queued L k) (\<lambda>occ. loop_call L Hook (\<lambda>_. occ)))"

definition outside :: "'h loop_env \<Rightarrow> ('h, unit) world_op" where
  \<comment> \<open>reading from a descriptor\<close>
  "outside L = (\<lambda>(s, k, log). (le_io L k, (s, Suc k, log)))"

definition close_descriptor :: "'h loop_env \<Rightarrow> int \<Rightarrow> ('h, unit) world_op" where
  "close_descriptor L fd = (\<lambda>(s, k, log). (le_close L k, (s, Suc k, log @ [Closed fd (le_close L k)])))"

definition poll_again :: "'h loop_env \<Rightarrow> ('h, (int \<times> nat) list) loop_op" where
  \<comment> \<open>the poll that waits\<close>
  "poll_again L =
     then_op (zoom_snd (other_threads L))
       (\<lambda>(m, (s, k, log)). (Inr (le_second_poll L k m), (m, (s, Suc k, log @ [Ready (le_second_poll L k m)]))))"

definition create_stream_monitor :: "'h loop_env \<Rightarrow> (occasion, 'h world) stream_env" where
  \<comment> \<open>the stream monitor of the runner, with its idle handler and hook\<close>
  "create_stream_monitor L =
     \<lparr>sv_call = (\<lambda>occ. loop_call L Callback (\<lambda>_. occ)), sv_error = (\<lambda>occ e. loop_call L Callback (\<lambda>E. error_occasion E e occ)),
      sv_idle = Some (loop_call L Idler (\<lambda>_. Idle)), sv_hook = Some (loop_hook L),
      sv_flush = (\<lambda>fd. outside L), sv_copy = (\<lambda>fd sink. outside L), sv_close = close_descriptor L, sv_nonblock = (\<lambda>fd. ret_op ())\<rparr>"

subsection \<open>The loop\<close>

definition monitor_faucet_events :: "'h loop_env \<Rightarrow> ('h, unit) loop_op" where
  "monitor_faucet_events L =
     read_op (\<lambda>(m, (s, k, log)). if \<not> connected s then raise_op AttributeError
       else monitor_stream (create_stream_monitor L) ''faucet'' (le_sock L) (Some FaucetReady) None None None 10)"

definition for_triggered :: "'h loop_env \<Rightarrow> actor \<Rightarrow> (nat \<Rightarrow> occasion) \<Rightarrow> ('h, unit) loop_op" where
  \<comment> \<open>a loop over the devices that are under test when it starts\<close>
  "for_triggered L a occ =
     then_op (zoom_snd (other_threads L))
       (read_op (\<lambda>(m, (s, k, log)).
          then_op (note_entry (Triggered (get_triggered_devices s)))
            (for_op (get_triggered_devices s) (\<lambda>d. loop_call L a (\<lambda>_. occ d)))))"

definition loop_round :: "'h loop_env \<Rightarrow> ('h, bool) loop_op" where
  \<comment> \<open>the condition of the loop, and its body: \<open>_reap_stale_ports\<close> and \<open>_module_heartbeat\<close>\<close>
  "loop_round L =
     read_op (\<lambda>(m, (s, k, log)).
       then_op (note_entry (Polled (le_first_poll L k)))
      (bind_op (event_loop (create_stream_monitor L) (le_first_poll L k) (poll_again L)) (\<lambda>active.
         if \<not> active then ret_op False
         else then_op (for_triggered L Reaper ReapDevice)
             (then_op (for_triggered L Beater HeartbeatDevice) (ret_op True)))))"

fun loop_rounds :: "'h loop_env \<Rightarrow> nat \<Rightarrow> 'h loop_state \<Rightarrow> (unit result \<times> 'h loop_state) option" where
  "loop_rounds L 0 st = None"
| "loop_rounds L (Suc n) st =
     (case loop_round L st of
        (Inl e, st') \<Rightarrow> Some (Inl e, st')
      | (Inr active, st') \<Rightarrow> if active then loop_rounds L n st' else Some (Inr (), st'))"

definition guarded_loop :: "'h loop_env \<Rightarrow> nat \<Rightarrow> 'h loop_state \<Rightarrow> (unit result \<times> 'h loop_state) option" where
  \<comment> \<open>what is inside \<open>try\<close>\<close>
  "guarded_loop L n st =
     (case monitor_faucet_events L st of (Inl e, st') \<Rightarrow> Some (Inl e, st') | (Inr _, st') \<Rightarrow> loop_rounds L n st')"

definition keep_exception :: "unit result \<Rightarrow> ('h, unit) loop_op" where
  \<comment> \<open>\<open>self.exception = e\<close>\<close>
  "keep_exception r =
     (case r of
        Inl e \<Rightarrow> then_op (note_entry (Caught e)) (zoom_snd (modify_op (\<lambda>(s, k, log). (s\<lparr>failure := True\<rparr>, k, log))))
      | Inr _ \<Rightarrow> ret_op ())"

definition terminate :: "'h loop_env \<Rightarrow> ('h, unit) loop_op" where
  \<comment> \<open>\<open>_terminate\<close> at the end of the main loop\<close>
  "terminate L = then_op (for_triggered L Terminator TerminateDevice) (loop_call L Terminator (\<lambda>_. StopResults))"

definition main_loop :: "'h loop_env \<Rightarrow> nat \<Rightarrow> 'h loop_state \<Rightarrow> (unit result \<times> 'h loop_state) option" where
  "main_loop L n st =
     (case guarded_loop L n st of
        None \<Rightarrow> None
      | Some (r, st') \<Rightarrow> Some (then_op (keep_exception r) (terminate L) st'))"

subsection \<open>What the log says\<close>

text \<open>The runner's state is the one the logged steps lead to, when each of them has the logged result.\<close>

fun replay :: "'h loop_env \<Rightarrow> entry list \<Rightarrow> 'h runner \<Rightarrow> 'h runner option" where
  "replay L [] s = Some s"
| "replay L (Did a k occ r # es) s =
     (case le_answers L k of (E, H) \<Rightarrow> case handle_occasion E H occ s of (r', s') \<Rightarrow> if r' = r then replay L es s' else None)"
| "replay L (Triggered ds # es) s = (if ds = get_triggered_devices s then replay L es s else None)"
| "replay L (Caught e # es) s = replay L es (s\<lparr>failure := True\<rparr>)"
| "replay L (_ # es) s = replay L es s"

lemma replay_append: "replay L (xs @ ys) s = Option.bind (replay L xs s) (replay L ys)"
  by (induction L xs s rule: replay.induct) (auto split: prod.splits)

text \<open>What the main thread did, without the numbers of the steps.\<close>

fun erase :: "entry \<Rightarrow> entry" where
  "erase (Did a k occ r) = Did a 0 occ r"
| "erase e = e"

definition by_main :: "entry \<Rightarrow> bool" where
  "by_main e = (case e of Did a k occ r \<Rightarrow> a \<noteq> OtherThread | _ \<Rightarrow> True)"

definition visible :: "entry list \<Rightarrow> entry list" where
  "visible log = map erase (filter by_main log)"

lemma visible_append [simp]: "visible (xs @ ys) = visible xs @ visible ys" "visible [] = []"
  by (simp_all add: visible_def)

lemma visible_entry [simp]:
  "visible (Polled p # es) = Polled p # visible es" "visible (Ready p # es) = Ready p # visible es"
  "visible (Closed fd r # es) = Closed fd r # visible es" "visible (Triggered ds # es) = Triggered ds # visible es"
  "visible (Caught e # es) = Caught e # visible es" "a \<noteq> OtherThread \<Longrightarrow> visible (Did a k occ r # es) = Did a 0 occ r # visible es"
  by (simp_all add: visible_def by_main_def)

subsection \<open>Operations that write to the log\<close>

definition log_of :: "'h loop_state \<Rightarrow> entry list" where
  "log_of st = snd (snd (snd st))"

definition state_of :: "'h loop_state \<Rightarrow> 'h runner" where
  "state_of st = fst (snd st)"

definition logs :: "'h loop_env \<Rightarrow> ('h loop_state \<Rightarrow> bool) \<Rightarrow> ('h, 'a) loop_op \<Rightarrow> ('a result \<Rightarrow> entry list \<Rightarrow> 'h loop_state \<Rightarrow> bool) \<Rightarrow> bool" where
  \<comment> \<open>the operation adds entries to the log, which lead from the state before it to the state after it\<close>
  "logs L P m Q \<longleftrightarrow> (\<forall>st r st'. P st \<longrightarrow> m st = (r, st') \<longrightarrow>
     (\<exists>xs. log_of st' = log_of st @ xs \<and> replay L xs (state_of st) = Some (state_of st') \<and> Q r xs st'))"

lemma logsI:
  assumes "\<And>st r st'. P st \<Longrightarrow> m st = (r, st') \<Longrightarrow>
    \<exists>xs. log_of st' = log_of st @ xs \<and> replay L xs (state_of st) = Some (state_of st') \<and> Q r xs st'"
  shows "logs L P m Q"
  using assms unfolding logs_def by blast

lemma logsD:
  assumes "logs L P m Q" "P st" "m st = (r, st')"
  obtains xs where "log_of st' = log_of st @ xs" "replay L xs (state_of st) = Some (state_of st')" "Q r xs st'"
  using assms unfolding logs_def by blast

lemma logs_post: "logs L P m Q \<Longrightarrow> (\<And>r xs st. Q r xs st \<Longrightarrow> Q' r xs st) \<Longrightarrow> logs L P m Q'"
  unfolding logs_def by blast

lemma logs_pre: "logs L P m Q \<Longrightarrow> (\<And>st. P' st \<Longrightarrow> P st) \<Longrightarrow> logs L P' m Q"
  unfolding logs_def by blast

lemma logs_keeps: "logs L P m Q \<Longrightarrow> keeps I m \<Longrightarrow> logs L (\<lambda>st. P st \<and> I st) m (\<lambda>r xs st. Q r xs st \<and> I st)"
  unfolding logs_def keeps_def by (metis snd_conv)

lemma logs_silent:
  assumes "\<And>st r st'. P st \<Longrightarrow> m st = (r, st') \<Longrightarrow> log_of st' = log_of st \<and> state_of st' = state_of st \<and> Q r [] st'"
  shows "logs L P m Q"
  using assms by (intro logsI) (auto intro!: exI [of _ "[]"])

lemma logs_ret: "(\<And>st. P st \<Longrightarrow> Q (Inr x) [] st) \<Longrightarrow> logs L P (ret_op x) Q"
  by (rule logs_silent) (auto simp: ret_op_def)

lemma logs_raise: "(\<And>st. P st \<Longrightarrow> Q (Inl e) [] st) \<Longrightarrow> logs L P (raise_op e) Q"
  by (rule logs_silent) (auto simp: raise_op_def)

lemma logs_get: "(\<And>st. P st \<Longrightarrow> Q (Inr (f st)) [] st) \<Longrightarrow> logs L P (get_op f) Q"
  by (rule logs_silent) (auto simp: get_op_def)

lemma logs_lift: "(\<And>st. P st \<Longrightarrow> Q r [] st) \<Longrightarrow> logs L P (lift_op r) Q"
  by (rule logs_silent) (auto simp: lift_op_def)

lemma logs_read: "(\<And>st. P st \<Longrightarrow> logs L (\<lambda>st'. st' = st) (f st) Q) \<Longrightarrow> logs L P (read_op f) Q"
  by (simp add: logs_def read_op_def)

lemma logs_more:
  assumes "log_of st1 = log_of st @ xs" "replay L xs (state_of st) = Some (state_of st1)"
    and "logs L P m (\<lambda>r ys. Q r (xs @ ys))" "P st1" "m st1 = (r, st')"
  shows "\<exists>xs. log_of st' = log_of st @ xs \<and> replay L xs (state_of st) = Some (state_of st') \<and> Q r xs st'"
proof -
  obtain ys where "log_of st' = log_of st1 @ ys" "replay L ys (state_of st1) = Some (state_of st')" "Q r (xs @ ys) st'"
    using logsD [OF assms(3-5)] by blast
  with assms(1,2) show ?thesis by (intro exI [of _ "xs @ ys"]) (simp add: replay_append)
qed

lemma logs_bind:
  assumes "logs L P m R" "\<And>e xs st. R (Inl e) xs st \<Longrightarrow> Q (Inl e) xs st"
    and "\<And>x xs. logs L (R (Inr x) xs) (f x) (\<lambda>r ys. Q r (xs @ ys))"
  shows "logs L P (bind_op m f) Q"
proof (rule logsI)
  fix st r st' assume P: "P st" and run: "bind_op m f st = (r, st')"
  obtain r1 st1 where m: "m st = (r1, st1)" by (cases "m st")
  obtain xs where xs: "log_of st1 = log_of st @ xs" "replay L xs (state_of st) = Some (state_of st1)" "R r1 xs st1"
    using logsD [OF assms(1) P m] by blast
  show "\<exists>xs. log_of st' = log_of st @ xs \<and> replay L xs (state_of st) = Some (state_of st') \<and> Q r xs st'"
  proof (cases r1)
    case (Inl e)
    with m run have "r = Inl e" "st' = st1" by (auto simp: bind_op_def)
    with xs Inl assms(2) show ?thesis by blast
  next
    case (Inr x)
    with m run have "f x st1 = (r, st')" by (simp add: bind_op_def)
    with xs Inr logs_more [OF xs(1,2) assms(3)] show ?thesis by blast
  qed
qed

lemma logs_then:
  assumes "logs L P m R" "\<And>e xs st. R (Inl e) xs st \<Longrightarrow> Q (Inl e) xs st"
    and "\<And>x xs. logs L (R (Inr x) xs) n (\<lambda>r ys. Q r (xs @ ys))"
  shows "logs L P (then_op m n) Q"
  unfolding then_op_def by (rule logs_bind [OF assms])

lemma logs_try:
  assumes "logs L P m R" "\<And>x xs st. R (Inr x) xs st \<Longrightarrow> Q (Inr x) xs st"
    and "\<And>e xs. logs L (R (Inl e) xs) (h e) (\<lambda>r ys. Q r (xs @ ys))"
  shows "logs L P (try_op m h) Q"
proof (rule logsI)
  fix st r st' assume P: "P st" and run: "try_op m h st = (r, st')"
  obtain r1 st1 where m: "m st = (r1, st1)" by (cases "m st")
  obtain xs where xs: "log_of st1 = log_of st @ xs" "replay L xs (state_of st) = Some (state_of st1)" "R r1 xs st1"
    using logsD [OF assms(1) P m] by blast
  show "\<exists>xs. log_of st' = log_of st @ xs \<and> replay L xs (state_of st) = Some (state_of st') \<and> Q r xs st'"
  proof (cases r1)
    case (Inr x)
    with m run have "r = Inr x" "st' = st1" by (auto simp: try_op_def)
    with xs Inr assms(2) show ?thesis by blast
  next
    case (Inl e)
    with m run have "h e st1 = (r, st')" by (simp add: try_op_def)
    with xs Inl logs_more [OF xs(1,2) assms(3)] show ?thesis by blast
  qed
qed

lemma logs_at: "(\<And>st. P st \<Longrightarrow> logs L (\<lambda>st'. st' = st) m Q) \<Longrightarrow> logs L P m Q"
  unfolding logs_def by blast

text \<open>A loop whose body writes entries of one kind, and ends it when it raises.\<close>

lemma logs_for:
  assumes "\<And>x. x \<in> set xs \<Longrightarrow> logs L P (body x) (\<lambda>r ys st. P st \<and> list_all G (visible ys) \<and> (\<forall>e. r = Inl e \<longrightarrow> X x e ys))"
  shows "logs L P (for_op xs body) (\<lambda>r ys st. P st \<and> list_all G (visible ys) \<and> (\<forall>e. r = Inl e \<longrightarrow> (\<exists>x us vs. x \<in> set xs \<and> ys = us @ vs \<and> X x e vs)))"
  using assms
proof (induction xs)
  case Nil
  show ?case by (simp add: logs_ret)
next
  case (Cons x xs)
  let ?Q = "\<lambda>xs r ys st. P st \<and> list_all G (visible ys) \<and> (\<forall>e. r = Inl e \<longrightarrow> (\<exists>x us vs. x \<in> set xs \<and> ys = us @ vs \<and> X x e vs))"
  have first: "logs L P (body x) (\<lambda>r ys st. P st \<and> list_all G (visible ys) \<and> (\<forall>e. r = Inl e \<longrightarrow> X x e ys))" by (rule Cons.prems) simp
  have rest: "logs L P (for_op xs body) (?Q xs)" by (rule Cons.IH) (rule Cons.prems, simp)
  show ?case unfolding for_op.simps
  proof (rule logs_then [OF first])
    fix e ys st assume "P st \<and> list_all G (visible ys) \<and> (\<forall>e'. (Inl e :: unit result) = Inl e' \<longrightarrow> X x e' ys)"
    then show "?Q (x # xs) (Inl e) ys st" by (intro conjI allI impI exI [of _ x] exI [of _ "[]"] exI [of _ ys]; simp)
  next
    fix u ys
    show "logs L (\<lambda>st. P st \<and> list_all G (visible ys) \<and> (\<forall>e. (Inr u :: unit result) = Inl e \<longrightarrow> X x e ys)) (for_op xs body) (\<lambda>r zs. ?Q (x # xs) r (ys @ zs))"
    proof (rule logs_at)
      fix st assume st: "P st \<and> list_all G (visible ys) \<and> (\<forall>e. (Inr u :: unit result) = Inl e \<longrightarrow> X x e ys)"
      have step: "?Q (x # xs) r (ys @ zs) st'" if "?Q xs r zs st'" for r zs st'
        using that st by (auto, metis append.assoc)
      have pre: "logs L (\<lambda>st'. st' = st) (for_op xs body) (?Q xs)" by (rule logs_pre [OF rest]) (use st in simp)
      show "logs L (\<lambda>st'. st' = st) (for_op xs body) (\<lambda>r zs. ?Q (x # xs) r (ys @ zs))"
        by (rule logs_post [OF pre]) (rule step)
    qed
  qed
qed

subsection \<open>The steps in the log\<close>

lemma others_log:
  "\<exists>s' k' xs. for_op occs (\<lambda>occ. try_op (happens L OtherThread (\<lambda>_. occ)) (\<lambda>_. ret_op ())) (s, k, log) = (Inr (), (s', k', log @ xs)) \<and>
     replay L xs s = Some s' \<and> visible xs = []"
proof (induction occs arbitrary: s k log)
  case Nil
  show ?case by (simp add: ret_op_def)
next
  case (Cons occ occs)
  obtain E H where a: "le_answers L k = (E, H)" by fastforce
  obtain r s1 where h: "handle_occasion E H occ s = (r, s1)" by (cases "handle_occasion E H occ s")
  obtain s' k' xs where rest: "for_op occs (\<lambda>occ. try_op (happens L OtherThread (\<lambda>_. occ)) (\<lambda>_. ret_op ())) (s1, Suc k, log @ [Did OtherThread k occ r]) =
      (Inr (), (s', k', (log @ [Did OtherThread k occ r]) @ xs))" "replay L xs s1 = Some s'" "visible xs = []" using Cons by blast
  have "try_op (happens L OtherThread (\<lambda>_. occ)) (\<lambda>_. ret_op ()) (s, k, log) = (Inr (), (s1, Suc k, log @ [Did OtherThread k occ r]))"
    by (cases r) (simp_all add: try_op_def happens_def a h ret_op_def)
  with rest show ?case
    by (intro exI [of _ s'] exI [of _ k'] exI [of _ "Did OtherThread k occ r # xs"])
      (simp add: then_op_def bind_op_def a h visible_def by_main_def)
qed

lemma others_logs: fixes L :: "'h loop_env" shows "logs L P (zoom_snd (other_threads L)) (\<lambda>r xs st. r = Inr () \<and> visible xs = [])"
proof (rule logsI)
  fix st :: "'h loop_state" and r st' assume run: "zoom_snd (other_threads L) st = (r, st')"
  obtain m s k log where st: "st = (m, (s, k, log))" by (metis surj_pair)
  with run others_log [of "le_others L k" L s k log]
  show "\<exists>xs. log_of st' = log_of st @ xs \<and> replay L xs (state_of st) = Some (state_of st') \<and> r = Inr () \<and> visible xs = []"
    by (auto simp: zoom_snd_def other_threads_def read_op_def log_of_def state_of_def)
qed

definition did :: "'h loop_env \<Rightarrow> actor \<Rightarrow> (env \<Rightarrow> occasion) \<Rightarrow> unit result \<Rightarrow> entry list \<Rightarrow> bool" where
  "did L a occ r xs = (\<exists>k ys. xs = ys @ [Did a k (occ (fst (le_answers L k))) r] \<and> visible ys = [])"

lemma did_visible: "did L a occ r xs \<Longrightarrow> a \<noteq> OtherThread \<Longrightarrow> \<exists>k. visible xs = [Did a 0 (occ (fst (le_answers L k))) r]"
  by (auto simp: did_def)

lemma did_append: "visible ys = [] \<Longrightarrow> did L a occ r xs \<Longrightarrow> did L a occ r (ys @ xs)"
  unfolding did_def by (metis append.assoc append_Nil visible_append(1))

lemma happens_logs: fixes L :: "'h loop_env" shows "logs L P (zoom_snd (happens L a occ)) (\<lambda>r xs st. did L a occ r xs)"
proof (rule logsI)
  fix st :: "'h loop_state" and r st' assume run: "zoom_snd (happens L a occ) st = (r, st')"
  obtain m s k log where st: "st = (m, (s, k, log))" by (metis surj_pair)
  obtain E H where a: "le_answers L k = (E, H)" by fastforce
  obtain r1 s1 where h: "handle_occasion E H (occ E) s = (r1, s1)" by (cases "handle_occasion E H (occ E) s")
  show "\<exists>xs. log_of st' = log_of st @ xs \<and> replay L xs (state_of st) = Some (state_of st') \<and> did L a occ r xs"
    using run a h st
    by (intro exI [of _ "[Did a k (occ E) r]"]) (auto simp: zoom_snd_def happens_def log_of_def state_of_def did_def)
qed

lemma call_logs: "logs L P (loop_call L a occ) (\<lambda>r xs st. did L a occ r xs)"
  unfolding loop_call_def
proof (rule logs_then [OF others_logs])
  fix x :: unit and xs
  have reg: "logs L P (register_step L) (\<lambda>r ys st. r = Inr () \<and> ys = [])" for P
    by (rule logs_silent) (auto simp: register_step_def modify_op_def log_of_def state_of_def split: prod.splits)
  show "logs L (\<lambda>st. (Inr x :: unit result) = Inr () \<and> visible xs = []) (then_op (register_step L) (zoom_snd (happens L a occ))) (\<lambda>r ys st. did L a occ r (xs @ ys))"
    by (rule logs_at, rule logs_then [OF reg], simp, rule logs_at, rule logs_post [OF happens_logs]) (auto intro: did_append)
qed simp

lemma note_logs: "e = erase e \<Longrightarrow> by_main e \<Longrightarrow> (\<And>s. replay L [e] s = Some s) \<Longrightarrow> logs L P (note_entry e) (\<lambda>r xs st. r = Inr () \<and> xs = [e])"
  by (rule logsI) (auto simp: note_entry_def modify_op_def log_of_def state_of_def split: prod.splits)

text \<open>What a loop over devices writes: a step for each, up to the first that raises.\<close>

fun steps_of :: "actor \<Rightarrow> (nat \<Rightarrow> occasion) \<Rightarrow> nat list \<Rightarrow> unit result \<Rightarrow> entry list \<Rightarrow> bool" where
  "steps_of a occ [] r xs = (xs = [] \<and> r = Inr ())"
| "steps_of a occ (d # ds) r xs =
     (case xs of
        [] \<Rightarrow> False
      | x # ys \<Rightarrow> isl r \<and> x = Did a 0 (occ d) r \<and> ys = [] \<or> x = Did a 0 (occ d) (Inr ()) \<and> steps_of a occ ds r ys)"

lemma steps_done: "steps_of a occ ds (Inr ()) xs \<Longrightarrow> xs = map (\<lambda>d. Did a 0 (occ d) (Inr ())) ds"
  by (induction ds arbitrary: xs) (auto split: list.splits)

definition log_ends_with :: "actor \<Rightarrow> (nat \<Rightarrow> occasion) \<Rightarrow> unit result \<Rightarrow> entry list \<Rightarrow> bool" where
  "log_ends_with a occ r xs = (isl r \<longrightarrow> (\<exists>ys k d. xs = ys @ [Did a k (occ d) r]))"

lemma ends_append: "log_ends_with a occ r xs \<Longrightarrow> log_ends_with a occ r (ys @ xs)"
  unfolding log_ends_with_def by (metis append.assoc)

lemma devices_logs:
  assumes "a \<noteq> OtherThread"
  shows "logs L P (for_op ds (\<lambda>d. loop_call L a (\<lambda>_. occ d))) (\<lambda>r xs st. steps_of a occ ds r (visible xs) \<and> log_ends_with a occ r xs)"
proof (induction ds arbitrary: P)
  case Nil
  show ?case by (simp add: logs_ret log_ends_with_def)
next
  case (Cons d ds)
  have seen: "visible xs = [Did a 0 (occ d) r]" if "did L a (\<lambda>_. occ d) r xs" for r xs
    using did_visible [OF that assms] by simp
  show ?case unfolding for_op.simps
  proof (rule logs_then [OF call_logs])
    fix e xs assume x: "did L a (\<lambda>_. occ d) (Inl e) xs"
    then show "steps_of a occ (d # ds) (Inl e) (visible xs) \<and> log_ends_with a occ (Inl e) xs"
      using seen [OF x] by (auto simp: did_def log_ends_with_def)
  next
    fix u :: unit and xs
    show "logs L (\<lambda>st. did L a (\<lambda>_. occ d) (Inr u) xs) (for_op ds (\<lambda>d. loop_call L a (\<lambda>_. occ d)))
      (\<lambda>r ys st. steps_of a occ (d # ds) r (visible (xs @ ys)) \<and> log_ends_with a occ r (xs @ ys))"
      by (rule logs_at, rule logs_post [OF Cons.IH]) (auto simp: seen ends_append)
  qed
qed

definition devices_log :: "actor \<Rightarrow> (nat \<Rightarrow> occasion) \<Rightarrow> unit result \<Rightarrow> entry list \<Rightarrow> bool" where
  "devices_log a occ r xs = (\<exists>ds ys. xs = Triggered ds # ys \<and> steps_of a occ ds r ys)"

lemma triggered_logs:
  fixes L :: "'h loop_env"
  assumes "a \<noteq> OtherThread"
  shows "logs L P (for_triggered L a occ) (\<lambda>r xs st. devices_log a occ r (visible xs) \<and> log_ends_with a occ r xs)"
  unfolding for_triggered_def
proof (rule logs_then [OF others_logs])
  fix u :: unit and xs
  show "logs L (\<lambda>st. (Inr u :: unit result) = Inr () \<and> visible xs = [])
      (read_op (\<lambda>(m, (s, k, log)). then_op (note_entry (Triggered (get_triggered_devices s)))
         (for_op (get_triggered_devices s) (\<lambda>d. loop_call L a (\<lambda>_. occ d)))))
      (\<lambda>r ys st. devices_log a occ r (visible (xs @ ys)) \<and> log_ends_with a occ r (xs @ ys))"
  proof (rule logs_read)
    fix st :: "'h loop_state" assume x: "(Inr u :: unit result) = Inr () \<and> visible xs = []"
    obtain m s k log where st: "st = (m, (s, k, log))" by (metis surj_pair)
    have marked: "logs L (\<lambda>st'. st' = st) (note_entry (Triggered (get_triggered_devices s))) (\<lambda>r ys st. r = Inr () \<and> ys = [Triggered (get_triggered_devices s)])"
      by (rule logsI) (auto simp: note_entry_def modify_op_def log_of_def state_of_def st)
    have step: "devices_log a occ r (visible (xs @ [Triggered ds] @ ys)) \<and> log_ends_with a occ r (xs @ [Triggered ds] @ ys)"
      if "steps_of a occ ds r (visible ys) \<and> log_ends_with a occ r ys" for r ys ds
      using that x ends_append [of a occ r ys "xs @ [Triggered ds]"] by (simp add: devices_log_def)
    have "logs L (\<lambda>st'. st' = st) (then_op (note_entry (Triggered (get_triggered_devices s)))
         (for_op (get_triggered_devices s) (\<lambda>d. loop_call L a (\<lambda>_. occ d))))
      (\<lambda>r ys st. devices_log a occ r (visible (xs @ ys)) \<and> log_ends_with a occ r (xs @ ys))"
    proof (rule logs_then [OF marked])
      fix u :: unit and ys
      show "logs L (\<lambda>st. (Inr u :: unit result) = Inr () \<and> ys = [Triggered (get_triggered_devices s)])
        (for_op (get_triggered_devices s) (\<lambda>d. loop_call L a (\<lambda>_. occ d)))
        (\<lambda>r zs st. devices_log a occ r (visible (xs @ ys @ zs)) \<and> log_ends_with a occ r (xs @ ys @ zs))"
        by (rule logs_at, rule logs_post [OF devices_logs [OF assms]]) (use step in blast)
    qed simp
    then show "logs L (\<lambda>st'. st' = st) ((\<lambda>(m, (s, k, log)). then_op (note_entry (Triggered (get_triggered_devices s)))
         (for_op (get_triggered_devices s) (\<lambda>d. loop_call L a (\<lambda>_. occ d)))) st)
      (\<lambda>r ys st. devices_log a occ r (visible (xs @ ys)) \<and> log_ends_with a occ r (xs @ ys))" by (simp add: st)
  qed
qed simp

subsection \<open>The shape of the log\<close>

definition is_step :: "actor \<Rightarrow> entry \<Rightarrow> bool" where
  "is_step a e = (case e of Did a' k occ r \<Rightarrow> a' = a | _ \<Rightarrow> False)"

definition is_call :: "entry \<Rightarrow> bool" where
  \<comment> \<open>a callback of the monitor, or a descriptor that is closed after it hung up\<close>
  "is_call e = (is_step Callback e \<or> (case e of Closed fd r \<Rightarrow> True | _ \<Rightarrow> False))"

definition idle_part :: "(int \<times> nat) list \<Rightarrow> entry list \<Rightarrow> entry list \<Rightarrow> bool" where
  \<comment> \<open>the idle handler runs when nothing was ready, and no one else does; when it raises, the hook is left out\<close>
  "idle_part p idle hooks =
     ((if p = [] then \<exists>r. idle = [Did Idler 0 Idle r] \<and> (isl r \<longrightarrow> hooks = []) else idle = []) \<and> list_all (is_step Hook) hooks)"

definition polled_part :: "(int \<times> nat) list \<Rightarrow> entry list \<Rightarrow> bool" where
  "polled_part p xs = (\<exists>idle hooks fds calls. xs = idle @ hooks @ Ready fds # calls \<and> idle_part p idle hooks \<and> list_all is_call calls)"

definition stopped_part :: "(int \<times> nat) list \<Rightarrow> entry list \<Rightarrow> bool" where
  \<comment> \<open>the idle handler left no descriptor to monitor\<close>
  "stopped_part p xs = (p = [] \<and> xs = [Did Idler 0 Idle (Inr ())])"

lemma zoom_silent:
  assumes "\<And>s k log r w. m (s, k, log) = (r, w) \<Longrightarrow> \<exists>k'. w = (s, k', log)"
  shows "logs L P (zoom_snd m) (\<lambda>r xs st. xs = [])"
proof (rule logs_silent)
  fix st :: "'a loop_state" and r st' assume run: "zoom_snd m st = (r, st')"
  obtain mo s k log where st: "st = (mo, (s, k, log))" by (metis surj_pair)
  obtain r1 w where "m (s, k, log) = (r1, w)" by (cases "m (s, k, log)")
  with run st assms [of s k log r1 w] show "log_of st' = log_of st \<and> state_of st' = state_of st \<and> ([] :: entry list) = []"
    by (auto simp: zoom_snd_def log_of_def state_of_def)
qed

lemma monitor_logs: "logs L P (on_monitor f) (\<lambda>r xs st. xs = [])"
  by (rule logs_silent) (auto simp: on_monitor_def modify_op_def log_of_def state_of_def split: prod.splits)

lemma outside_logs: "logs L P (zoom_snd (outside L')) (\<lambda>r xs st. xs = [])"
  by (rule zoom_silent) (auto simp: outside_def)

lemma forget_logs: "logs L P (forget fd) (\<lambda>r xs st. xs = [])"
  by (rule logs_silent) (auto simp: forget_def on_monitor_def op_simps log_of_def state_of_def split: prod.splits if_splits sum.splits)

lemma entry_logs: "logs L P (stream_entry_of fd) (\<lambda>r xs st. xs = [])"
  by (rule logs_silent) (auto simp: stream_entry_of_def read_op_def lift_op_def log_of_def state_of_def split: prod.splits)

lemma callback_log: "did L Callback occ r xs \<Longrightarrow> list_all is_call (visible xs)"
  using did_visible [of L Callback occ r xs] by (auto simp: is_call_def is_step_def)

lemma calls_logs: "logs L P (loop_call L Callback occ) (\<lambda>r xs st. list_all is_call (visible xs))"
  by (rule logs_post [OF call_logs]) (rule callback_log)

text \<open>Sequences of operations that write entries of one kind.\<close>

lemma kind_bind:
  assumes "\<And>P. logs L P m (\<lambda>r xs st. list_all G (visible xs))" "\<And>x P. logs L P (f x) (\<lambda>r xs st. list_all G (visible xs))"
  shows "logs L P (bind_op m f) (\<lambda>r xs st. list_all G (visible xs))"
  by (rule logs_bind [OF assms(1)], simp, rule logs_at, rule logs_post [OF assms(2)]) simp

lemma kind_try:
  assumes "\<And>P. logs L P m (\<lambda>r xs st. list_all G (visible xs))" "\<And>x P. logs L P (h x) (\<lambda>r xs st. list_all G (visible xs))"
  shows "logs L P (try_op m h) (\<lambda>r xs st. list_all G (visible xs))"
  by (rule logs_try [OF assms(1)], simp, rule logs_at, rule logs_post [OF assms(2)]) simp

lemma kind_for:
  assumes "\<And>x P. logs L P (body x) (\<lambda>r xs st. list_all G (visible xs))"
  shows "logs L P (for_op xs body) (\<lambda>r xs st. list_all G (visible xs))"
  by (induction xs arbitrary: P) (auto simp: then_op_def intro!: logs_ret kind_bind assms)

lemma kind_empty: "logs L P m (\<lambda>r xs st. xs = []) \<Longrightarrow> logs L P m (\<lambda>r xs st. list_all G (visible xs))"
  by (erule logs_post) simp

lemma close_logs: "logs L P (zoom_snd (close_descriptor L fd)) (\<lambda>r xs st. xs = [Closed fd r])"
  by (rule logsI) (auto simp: zoom_snd_def close_descriptor_def log_of_def state_of_def split: prod.splits)

lemma error_calls: "logs L P (error_handler (create_stream_monitor L) e h) (\<lambda>r xs st. list_all is_call (visible xs))"
  by (cases h) (auto simp: error_handler_def create_stream_monitor_def intro!: logs_ret kind_try calls_logs)

lemma ready_calls: "logs L P (process_ready (create_stream_monitor L) x) (\<lambda>r xs st. list_all is_call (visible xs))"
proof -
  let ?V = "create_stream_monitor L" and ?kind = "\<lambda>(r :: unit result) xs st. list_all is_call (visible xs)"
  have callback: "logs L P (trigger_callback ?V fd) ?kind" for P fd
  proof -
    have "logs L P (case c of Some (Call cb) \<Rightarrow> sv_call ?V cb | Some (CopyTo sink) \<Rightarrow> zoom_snd (sv_copy ?V fd sink)
        | None \<Rightarrow> zoom_snd (sv_flush ?V fd)) ?kind" for P c
      by (auto simp: create_stream_monitor_def intro!: calls_logs kind_empty [OF outside_logs] split: option.split stream_callback.split)
    then show ?thesis unfolding trigger_callback_def
      by (intro kind_bind kind_try error_calls kind_empty [OF entry_logs])
  qed
  have close: "logs L P (zoom_snd (sv_close ?V fd)) ?kind" for P fd
    by (simp add: create_stream_monitor_def) (rule logs_post [OF close_logs], simp add: is_call_def)
  have hangup: "logs L P (trigger_hangup ?V fd) ?kind" for P fd
  proof -
    have "logs L P (case c of Some cb \<Rightarrow> sv_call ?V cb | None \<Rightarrow> ret_op ()) ?kind" for P c
      by (cases c) (auto simp: create_stream_monitor_def intro!: calls_logs logs_ret)
    then show ?thesis unfolding trigger_hangup_def then_op_def
      by (intro kind_bind kind_try error_calls kind_empty [OF entry_logs] kind_empty [OF forget_logs] close)
  qed
  have poll: "logs L P (process_poll_result ?V event fd) ?kind" for P event fd
    unfolding process_poll_result_def by (auto intro!: callback hangup logs_raise)
  obtain fd event where x: "x = (fd, event)" by fastforce
  have "logs L P (if b then process_poll_result ?V event fd else ret_op ()) ?kind" for P b
    by (auto intro!: poll logs_ret)
  then show ?thesis unfolding process_ready_def x by (auto intro!: logs_read)
qed

lemma hook_logs: "logs L P (loop_hook L) (\<lambda>r xs st. list_all (is_step Hook) (visible xs))"
proof -
  have "logs L P (loop_call L Hook occ) (\<lambda>r xs st. list_all (is_step Hook) (visible xs))" for P occ
    by (rule logs_post [OF call_logs]) (use did_visible [of L Hook occ] in \<open>force simp: is_step_def\<close>)
  then show ?thesis unfolding loop_hook_def by (auto intro!: logs_read kind_for)
qed

lemma idle_logs:
  "logs L P (try_op (idle_and_hook (create_stream_monitor L) (p = [])) (\<lambda>_. ret_op True))
     (\<lambda>r xs st. (\<exists>idle hooks. visible xs = idle @ hooks \<and> idle_part p idle hooks) \<and> (\<forall>e. r \<noteq> Inl e) \<and>
        (r = Inr False \<longrightarrow> stopped_part p (visible xs)))"
proof -
  let ?V = "create_stream_monitor L"
  let ?Q = "\<lambda>r xs (st :: 'a loop_state). (\<exists>idle hooks. visible xs = idle @ hooks \<and> idle_part p idle hooks) \<and> (r = Inr False \<longrightarrow> stopped_part p (visible xs))"
  have hook: "logs L P (then_op (loop_hook L) (ret_op True)) (\<lambda>r xs st. list_all (is_step Hook) (visible xs) \<and> r \<noteq> Inr False)" for P
    by (rule logs_then [OF hook_logs]) (auto intro!: logs_at [OF logs_ret])
  have "logs L P (idle_and_hook ?V (p = [])) ?Q"
  proof (cases "p = []")
    case False
    then have "idle_and_hook ?V (p = []) = then_op (loop_hook L) (ret_op True)"
      by (simp add: idle_and_hook_def create_stream_monitor_def)
    then show ?thesis using False by (auto intro!: logs_post [OF hook] simp: idle_part_def)
  next
    case True
    have run: "idle_and_hook ?V (p = []) = then_op (loop_call L Idler (\<lambda>_. Idle))
        (read_op (\<lambda>(m, w). if sm_callbacks m = [] then ret_op False else then_op (loop_hook L) (ret_op True)))"
      using True by (simp add: idle_and_hook_def create_stream_monitor_def Let_def)
    have seen: "visible xs = [Did Idler 0 Idle r]" if "did L Idler (\<lambda>_. Idle) r xs" for r xs
      using did_visible [OF that] by simp
    have rest: "logs L P (if b then ret_op False else then_op (loop_hook L) (ret_op True))
        (\<lambda>r xs st. list_all (is_step Hook) (visible xs) \<and> (r = Inr False \<longrightarrow> xs = []))" for P b
      by (auto intro!: logs_ret logs_post [OF hook])
    show ?thesis unfolding run
    proof (rule logs_then [OF call_logs])
      fix e xs st assume "did L Idler (\<lambda>_. Idle) (Inl e) xs"
      then have "visible xs = [Did Idler 0 Idle (Inl e)] @ []" using seen by simp
      moreover have "idle_part p [Did Idler 0 Idle (Inl e)] []" using True by (simp add: idle_part_def)
      ultimately show "?Q (Inl e) xs st" by blast
    next
      fix u :: unit and xs
      show "logs L (\<lambda>st. did L Idler (\<lambda>_. Idle) (Inr u) xs)
          (read_op (\<lambda>(m, w). if sm_callbacks m = [] then ret_op False else then_op (loop_hook L) (ret_op True))) (\<lambda>r ys. ?Q r (xs @ ys))"
      proof (rule logs_read)
        fix st assume x: "did L Idler (\<lambda>_. Idle) (Inr u) xs"
        have step: "?Q r (xs @ ys) st'" if "list_all (is_step Hook) (visible ys) \<and> (r = Inr False \<longrightarrow> ys = [])" for r ys st'
          using that True seen [OF x]
          by (intro conjI exI [of _ "[Did Idler 0 Idle (Inr ())]"] exI [of _ "visible ys"]) (auto simp: idle_part_def stopped_part_def)
        show "logs L (\<lambda>st'. st' = st) ((\<lambda>(m, w). if sm_callbacks m = [] then ret_op False else then_op (loop_hook L) (ret_op True)) st) (\<lambda>r ys. ?Q r (xs @ ys))"
          unfolding case_prod_beta by (rule logs_post [OF rest]) (rule step)
      qed
    qed
  qed
  then show ?thesis
  proof (rule logs_try)
    fix e xs
    show "logs L (?Q (Inl e) xs) (ret_op True) (\<lambda>r ys st. (\<exists>idle hooks. visible (xs @ ys) = idle @ hooks \<and> idle_part p idle hooks) \<and> (\<forall>e. r \<noteq> Inl e) \<and>
        (r = Inr False \<longrightarrow> stopped_part p (visible (xs @ ys))))"
      by (rule logs_ret) simp
  qed blast
qed

lemma poll_logs: "logs L P (poll_again L) (\<lambda>r xs st. \<exists>fds. r = Inr fds \<and> visible xs = [Ready fds] \<and> last xs = Ready fds \<and> xs \<noteq> [])"
  unfolding poll_again_def
proof (rule logs_then [OF others_logs])
  fix u :: unit and xs
  let ?poll = "\<lambda>(m, (s, k, log)). (Inr (le_second_poll L k m), (m, (s, Suc k, log @ [Ready (le_second_poll L k m)])))"
  have "logs L P ?poll (\<lambda>r ys st. \<exists>fds. r = Inr fds \<and> ys = [Ready fds])" for P
    by (rule logsI) (auto simp: log_of_def state_of_def split: prod.splits)
  then show "logs L (\<lambda>st. (Inr u :: unit result) = Inr () \<and> visible xs = []) ?poll
      (\<lambda>r ys st. \<exists>fds. r = Inr fds \<and> visible (xs @ ys) = [Ready fds] \<and> last (xs @ ys) = Ready fds \<and> xs @ ys \<noteq> [])"
    by (rule logs_at [OF logs_post]) auto
qed simp

lemma event_loop_logs:
  "logs L P (event_loop (create_stream_monitor L) p (poll_again L))
     (\<lambda>r xs st. polled_part p (visible xs) \<or> r = Inr False \<and> stopped_part p (visible xs))"
  unfolding event_loop_def
proof (rule logs_bind [OF idle_logs])
  let ?V = "create_stream_monitor L"
  fix go_on xs
  let ?calls = "\<lambda>ready. read_op (\<lambda>s. bind_op (lift_op (by_priority (sm_fd_priority (fst s)) ready)) (\<lambda>fds.
      then_op (for_op fds (process_ready ?V)) (get_op (\<lambda>(m, w). sm_callbacks m \<noteq> []))))"
  have calls: "logs L P (?calls ready) (\<lambda>r ys st. list_all is_call (visible ys))" for P ready
    unfolding then_op_def by (intro logs_read kind_bind kind_for ready_calls) (auto intro!: logs_lift logs_get)
  show "logs L (\<lambda>st. (\<exists>idle hooks. visible xs = idle @ hooks \<and> idle_part p idle hooks) \<and> (\<forall>e. (Inr go_on :: bool result) \<noteq> Inl e) \<and>
        ((Inr go_on :: bool result) = Inr False \<longrightarrow> stopped_part p (visible xs)))
      (if \<not> go_on then ret_op False else bind_op (poll_again L) ?calls)
      (\<lambda>r ys st. polled_part p (visible (xs @ ys)) \<or> r = Inr False \<and> stopped_part p (visible (xs @ ys)))"
  proof (rule logs_at)
    fix st
    assume x: "(\<exists>idle hooks. visible xs = idle @ hooks \<and> idle_part p idle hooks) \<and> (\<forall>e. (Inr go_on :: bool result) \<noteq> Inl e) \<and>
        ((Inr go_on :: bool result) = Inr False \<longrightarrow> stopped_part p (visible xs))"
    then obtain idle hooks where h: "visible xs = idle @ hooks" "idle_part p idle hooks" by blast
    have step: "polled_part p (visible (xs @ ys @ zs))" if "visible ys = [Ready fds]" "list_all is_call (visible zs)" for ys zs fds
      unfolding polled_part_def using that h by (intro exI [of _ idle] exI [of _ hooks] exI [of _ fds] exI [of _ "visible zs"]) simp
    have "logs L P (bind_op (poll_again L) ?calls) (\<lambda>r ys st. polled_part p (visible (xs @ ys)))" for P
    proof (rule logs_bind [OF poll_logs])
      fix ready ys
      show "logs L (\<lambda>st. \<exists>fds. (Inr ready :: (int \<times> nat) list result) = Inr fds \<and> visible ys = [Ready fds] \<and> last ys = Ready fds \<and> ys \<noteq> [])
          (?calls ready) (\<lambda>r zs st. polled_part p (visible (xs @ ys @ zs)))"
        by (rule logs_at, rule logs_post [OF calls]) (use step in blast)
    qed simp
    then have more: "logs L (\<lambda>st'. st' = st) (bind_op (poll_again L) ?calls)
        (\<lambda>r ys st. polled_part p (visible (xs @ ys)) \<or> r = Inr False \<and> stopped_part p (visible (xs @ ys)))"
      by (rule logs_post) blast
    have "logs L (\<lambda>st'. st' = st) (ret_op False) (\<lambda>r ys st. polled_part p (visible (xs @ ys)) \<or> r = Inr False \<and> stopped_part p (visible (xs @ ys)))"
      if "\<not> go_on" using x that by (intro logs_ret) simp
    with more show "logs L (\<lambda>st'. st' = st) (if \<not> go_on then ret_op False else bind_op (poll_again L) ?calls)
      (\<lambda>r ys st. polled_part p (visible (xs @ ys)) \<or> r = Inr False \<and> stopped_part p (visible (xs @ ys)))"
      by (cases go_on) simp_all
  qed
qed blast

definition full_round :: "entry list \<Rightarrow> bool" where
  \<comment> \<open>a round after which the loop goes on: every device under test is reaped, and then every one gets its heartbeat\<close>
  "full_round xs =
     (\<exists>p ys ds ds'. xs = Polled p # ys @ Triggered ds # map (\<lambda>d. Did Reaper 0 (ReapDevice d) (Inr ())) ds @
        Triggered ds' # map (\<lambda>d. Did Beater 0 (HeartbeatDevice d) (Inr ())) ds' \<and> polled_part p ys)"

definition last_round :: "unit result \<Rightarrow> entry list \<Rightarrow> bool" where
  \<comment> \<open>the round that ends the loop, with the result of the loop\<close>
  "last_round r xs =
     (\<exists>p ys zs. xs = Polled p # ys @ zs \<and>
        (r = Inr () \<and> stopped_part p ys \<and> zs = [] \<or> polled_part p ys \<and> zs = [] \<or>
         isl r \<and> polled_part p ys \<and> devices_log Reaper ReapDevice r zs \<or>
         isl r \<and> polled_part p ys \<and> (\<exists>us vs. zs = us @ vs \<and> devices_log Reaper ReapDevice (Inr ()) us \<and> devices_log Beater HeartbeatDevice r vs)))"

definition loop_log :: "unit result \<Rightarrow> entry list \<Rightarrow> bool" where
  \<comment> \<open>the log of the loop; it is empty when the event socket cannot be monitored\<close>
  "loop_log r xs = (isl r \<and> xs = [] \<or> (\<exists>rounds final. xs = concat rounds @ final \<and> list_all full_round rounds \<and> last_round r final))"

definition end_log :: "unit result \<Rightarrow> entry list \<Rightarrow> bool" where
  "end_log r xs =
     (isl r \<and> devices_log Terminator TerminateDevice r xs \<or>
      (\<exists>ys. xs = ys @ [Did Terminator 0 StopResults r] \<and> devices_log Terminator TerminateDevice (Inr ()) ys))"

lemma last_round_intros:
  "stopped_part p ys \<Longrightarrow> last_round (Inr ()) (Polled p # ys)" "polled_part p ys \<Longrightarrow> last_round r (Polled p # ys)"
  "polled_part p ys \<Longrightarrow> devices_log Reaper ReapDevice (Inl e) zs \<Longrightarrow> last_round (Inl e) (Polled p # ys @ zs)"
  "polled_part p ys \<Longrightarrow> devices_log Reaper ReapDevice (Inr ()) us \<Longrightarrow> devices_log Beater HeartbeatDevice (Inl e) vs \<Longrightarrow>
     last_round (Inl e) (Polled p # ys @ us @ vs)"
  unfolding last_round_def by (metis append_Nil2 sum.disc(1))+

lemma devices_done: "devices_log a occ (Inr ()) xs \<Longrightarrow> \<exists>ds. xs = Triggered ds # map (\<lambda>d. Did a 0 (occ d) (Inr ())) ds"
  by (auto simp: devices_log_def dest: steps_done)

definition round_log :: "bool result \<Rightarrow> entry list \<Rightarrow> bool" where
  "round_log r xs = (case r of Inr active \<Rightarrow> if active then full_round xs else last_round (Inr ()) xs | Inl e \<Rightarrow> last_round (Inl e) xs)"

lemma body_logs:
  "logs L P (then_op (for_triggered L Reaper ReapDevice) (then_op (for_triggered L Beater HeartbeatDevice) (ret_op True)))
     (\<lambda>r xs st. \<exists>us vs. visible xs = us @ vs \<and>
        (case r of
           Inr active \<Rightarrow> active \<and> devices_log Reaper ReapDevice (Inr ()) us \<and> devices_log Beater HeartbeatDevice (Inr ()) vs
         | Inl e \<Rightarrow> devices_log Reaper ReapDevice (Inl e) us \<and> vs = [] \<or>
                    devices_log Reaper ReapDevice (Inr ()) us \<and> devices_log Beater HeartbeatDevice (Inl e) vs))"
  (is "logs L P _ ?Q")
proof (rule logs_then [OF triggered_logs])
  fix e xs st assume "devices_log Reaper ReapDevice (Inl e) (visible xs) \<and> log_ends_with Reaper ReapDevice (Inl e) xs"
  then show "?Q (Inl e) xs st" by (intro exI [of _ "visible xs"] exI [of _ "[]"]) simp
next
  fix u :: unit and xs
  show "logs L (\<lambda>st. devices_log Reaper ReapDevice (Inr u) (visible xs) \<and> log_ends_with Reaper ReapDevice (Inr u) xs)
     (then_op (for_triggered L Beater HeartbeatDevice) (ret_op True)) (\<lambda>r ys. ?Q r (xs @ ys))"
  proof (rule logs_at)
    fix st assume x: "devices_log Reaper ReapDevice (Inr u) (visible xs) \<and> log_ends_with Reaper ReapDevice (Inr u) xs"
    have "logs L (\<lambda>st'. st' = st) (then_op (for_triggered L Beater HeartbeatDevice) (ret_op True))
       (\<lambda>r ys st. case r of Inr active \<Rightarrow> active \<and> devices_log Beater HeartbeatDevice (Inr ()) (visible ys)
          | Inl e \<Rightarrow> devices_log Beater HeartbeatDevice (Inl e) (visible ys))"
      by (rule logs_then [OF triggered_logs]) (auto intro!: logs_at [OF logs_ret])
    then show "logs L (\<lambda>st'. st' = st) (then_op (for_triggered L Beater HeartbeatDevice) (ret_op True)) (\<lambda>r ys. ?Q r (xs @ ys))"
      by (rule logs_post) (use x in \<open>auto split: sum.splits\<close>)
  qed
qed simp

lemma round_logs: "logs L P (loop_round L) (\<lambda>r xs st. round_log r (visible xs))"
  unfolding loop_round_def
proof (rule logs_read)
  fix st :: "'a loop_state"
  obtain m s k log where st: "st = (m, (s, k, log))" by (metis surj_pair)
  let ?p = "le_first_poll L k"
  let ?body = "\<lambda>active. if \<not> active then ret_op False
         else then_op (for_triggered L Reaper ReapDevice) (then_op (for_triggered L Beater HeartbeatDevice) (ret_op True))"
  let ?rest = "bind_op (event_loop (create_stream_monitor L) ?p (poll_again L)) ?body"
  have more: "round_log r (Polled ?p # ys @ zs)" if "polled_part ?p ys" "\<exists>us vs. zs = us @ vs \<and>
        (case r of Inr active \<Rightarrow> active \<and> devices_log Reaper ReapDevice (Inr ()) us \<and> devices_log Beater HeartbeatDevice (Inr ()) vs
         | Inl e \<Rightarrow> devices_log Reaper ReapDevice (Inl e) us \<and> vs = [] \<or>
                    devices_log Reaper ReapDevice (Inr ()) us \<and> devices_log Beater HeartbeatDevice (Inl e) vs)" for r ys zs
  proof (cases r)
    case (Inl e)
    with that last_round_intros(3,4) [OF that(1)] show ?thesis by (auto simp: round_log_def)
  next
    case (Inr active)
    with that obtain us vs where z: "zs = us @ vs" "active" "devices_log Reaper ReapDevice (Inr ()) us" "devices_log Beater HeartbeatDevice (Inr ()) vs" by auto
    obtain ds ds' where "us = Triggered ds # map (\<lambda>d. Did Reaper 0 (ReapDevice d) (Inr ())) ds" "vs = Triggered ds' # map (\<lambda>d. Did Beater 0 (HeartbeatDevice d) (Inr ())) ds'"
      using devices_done z(3,4) by metis
    with that(1) z(1,2) Inr show ?thesis unfolding round_log_def full_round_def by auto
  qed
  have loop: "logs L P ?rest (\<lambda>r ys st. round_log r (Polled ?p # visible ys))" for P
  proof (rule logs_bind [OF event_loop_logs])
    fix e ys st assume "polled_part ?p (visible ys) \<or> (Inl e :: bool result) = Inr False \<and> stopped_part ?p (visible ys)"
    then show "round_log (Inl e) (Polled ?p # visible ys)" using last_round_intros(2) by (simp add: round_log_def)
  next
    fix active ys
    show "logs L (\<lambda>st. polled_part ?p (visible ys) \<or> (Inr active :: bool result) = Inr False \<and> stopped_part ?p (visible ys)) (?body active)
       (\<lambda>r zs st. round_log r (Polled ?p # visible (ys @ zs)))"
    proof (rule logs_at)
      fix st assume y: "polled_part ?p (visible ys) \<or> (Inr active :: bool result) = Inr False \<and> stopped_part ?p (visible ys)"
      have "round_log (Inr False) (Polled ?p # visible ys)" using y last_round_intros(1,2) by (auto simp: round_log_def)
      moreover have "logs L (\<lambda>st'. st' = st) (?body True) (\<lambda>r zs st. round_log r (Polled ?p # visible (ys @ zs)))" if active
        unfolding not_True_eq_False if_False visible_append
        by (rule logs_post [OF body_logs], rule more) (use y that in auto)
      ultimately show "logs L (\<lambda>st'. st' = st) (?body active) (\<lambda>r zs st. round_log r (Polled ?p # visible (ys @ zs)))"
        by (cases active) (auto intro!: logs_ret)
    qed
  qed
  have marked: "logs L (\<lambda>st'. st' = st) (note_entry (Polled ?p)) (\<lambda>r ys st. r = Inr () \<and> ys = [Polled ?p])"
    by (rule note_logs) (simp_all add: by_main_def)
  have "logs L (\<lambda>st'. st' = st) (then_op (note_entry (Polled ?p)) ?rest) (\<lambda>r xs st. round_log r (visible xs))"
    by (rule logs_then [OF marked], simp, rule logs_at, rule logs_post [OF loop]) auto
  then show "logs L (\<lambda>st'. st' = st) ((\<lambda>(m, (s, k, log)). then_op (note_entry (Polled (le_first_poll L k)))
      (bind_op (event_loop (create_stream_monitor L) (le_first_poll L k) (poll_again L)) ?body)) st) (\<lambda>r xs st. round_log r (visible xs))"
    by (simp add: st)
qed

lemma rounds_log:
  assumes "loop_rounds L n st = Some (r, st')"
  shows "\<exists>xs rounds final. log_of st' = log_of st @ xs \<and> replay L xs (state_of st) = Some (state_of st') \<and>
    visible xs = concat rounds @ final \<and> list_all full_round rounds \<and> last_round r final"
  using assms
proof (induction n arbitrary: st)
  case (Suc n)
  obtain x st1 where x: "loop_round L st = (x, st1)" by (cases "loop_round L st")
  obtain xs where xs: "log_of st1 = log_of st @ xs" "replay L xs (state_of st) = Some (state_of st1)" "round_log x (visible xs)"
    using logsD [OF round_logs _ x, of "\<lambda>_. True"] by blast
  show ?case
  proof (cases "x = Inr True")
    case True
    with Suc.prems x have "loop_rounds L n st1 = Some (r, st')" by simp
    from Suc.IH [OF this] obtain ys rounds final where ys: "log_of st' = log_of st1 @ ys" "replay L ys (state_of st1) = Some (state_of st')"
      "visible ys = concat rounds @ final" "list_all full_round rounds" "last_round r final" by blast
    from True xs(3) have "full_round (visible xs)" by (simp add: round_log_def)
    with xs ys show ?thesis
      by (intro exI [of _ "xs @ ys"] exI [of _ "visible xs # rounds"] exI [of _ final]) (simp add: replay_append)
  next
    case False
    with Suc.prems x xs(3) have "st' = st1" "last_round r (visible xs)"
      by (auto simp: round_log_def split: sum.splits if_splits)
    with xs show ?thesis by (intro exI [of _ xs] exI [of _ "[]"] exI [of _ "visible xs"]) simp
  qed
qed simp

lemma socket_logs: "logs L P (monitor_faucet_events L) (\<lambda>r xs st. xs = [])"
  by (rule logs_silent)
    (auto simp: monitor_faucet_events_def monitor_stream_def on_monitor_def op_simps log_of_def state_of_def Let_def split: prod.splits if_splits)

lemma guarded_log:
  assumes "guarded_loop L n st = Some (r, st')"
  shows "\<exists>xs. log_of st' = log_of st @ xs \<and> replay L xs (state_of st) = Some (state_of st') \<and> loop_log r (visible xs)"
proof -
  obtain x st1 where x: "monitor_faucet_events L st = (x, st1)" by (cases "monitor_faucet_events L st")
  have same: "log_of st1 = log_of st" "state_of st1 = state_of st"
    by (rule logsD [where P = "\<lambda>_. True" and L = L, OF socket_logs TrueI x], simp)+
  show ?thesis
  proof (cases x)
    case (Inl e)
    with assms x same show ?thesis by (intro exI [of _ "[]"]) (auto simp: guarded_loop_def loop_log_def)
  next
    case (Inr u)
    with assms x have "loop_rounds L n st1 = Some (r, st')" by (simp add: guarded_loop_def)
    from rounds_log [OF this] same show ?thesis unfolding loop_log_def by metis
  qed
qed

lemma terminate_logs: "logs L P (terminate L) (\<lambda>r xs st. end_log r (visible xs))"
  unfolding terminate_def
proof (rule logs_then [OF triggered_logs])
  fix e xs st assume "devices_log Terminator TerminateDevice (Inl e) (visible xs) \<and> log_ends_with Terminator TerminateDevice (Inl e) xs"
  then show "end_log (Inl e) (visible xs)" by (simp add: end_log_def)
next
  fix u :: unit and xs
  have seen: "visible ys = [Did Terminator 0 StopResults r]" if "did L Terminator (\<lambda>_. StopResults) r ys" for r ys
    using did_visible [OF that] by simp
  show "logs L (\<lambda>st. devices_log Terminator TerminateDevice (Inr u) (visible xs) \<and> log_ends_with Terminator TerminateDevice (Inr u) xs)
      (loop_call L Terminator (\<lambda>_. StopResults)) (\<lambda>r ys st. end_log r (visible (xs @ ys)))"
    by (rule logs_at, rule logs_post [OF call_logs]) (auto simp: seen end_log_def)
qed simp

lemma exception_logs: "logs L P (keep_exception r) (\<lambda>r' xs st. r' = Inr () \<and> visible xs = (case r of Inl e \<Rightarrow> [Caught e] | Inr _ \<Rightarrow> []))"
proof (cases r)
  case (Inl e)
  then show ?thesis
    by (intro logsI exI [of _ "[Caught e]"]) (auto simp: keep_exception_def note_entry_def op_simps log_of_def state_of_def split: prod.splits)
next
  case (Inr u)
  then show ?thesis by (simp add: keep_exception_def logs_ret)
qed


subsection \<open>Handlers do not end the loop\<close>

definition registers_in_step :: "'h loop_env \<Rightarrow> bool" where
  \<comment> \<open>handlers use the monitor through its operations\<close>
  "registers_in_step L = (\<forall>k m (w :: 'h world). in_step (m, w) \<longrightarrow> in_step (le_registers L k m, w))"

definition polls_registered :: "'h loop_env \<Rightarrow> bool" where
  \<comment> \<open>polling reports descriptors that are registered\<close>
  "polls_registered L =
     (\<forall>k m (w :: 'h world). in_step (m, w) \<longrightarrow> (\<forall>(fd, event)\<in>set (le_second_poll L k m). fd \<in> set (sm_registered m)))"

definition closing_failed :: "py_error \<Rightarrow> entry list \<Rightarrow> bool" where
  \<comment> \<open>the last thing done was to close a descriptor, which raised\<close>
  "closing_failed e xs = (\<exists>ys fd. xs = ys @ [Closed fd (Inl e)])"

definition event_culprit :: "py_error \<Rightarrow> entry list \<Rightarrow> bool" where
  \<comment> \<open>or polling reported an event that was not asked for, and nothing but callbacks came after it\<close>
  "event_culprit e xs = (closing_failed e xs \<or>
     e = AssertionError \<and> (\<exists>ys fds zs. xs = ys @ Ready fds # zs \<and> list_all is_call (visible zs) \<and> list_ex (\<lambda>(fd, event). \<not> valid_event event) fds))"

definition device_culprit :: "py_error \<Rightarrow> entry list \<Rightarrow> bool" where
  \<comment> \<open>the last thing done was to reap a device or its heartbeat, which raised\<close>
  "device_culprit e xs = (log_ends_with Reaper ReapDevice (Inl e) xs \<or> log_ends_with Beater HeartbeatDevice (Inl e) xs)"

lemma culprit_append:
  "event_culprit e xs \<Longrightarrow> event_culprit e (ys @ xs)" "device_culprit e xs \<Longrightarrow> device_culprit e (ys @ xs)" "closing_failed e xs \<Longrightarrow> closing_failed e (ys @ xs)"
proof -
  show c: "closing_failed e xs \<Longrightarrow> closing_failed e (ys @ xs)" unfolding closing_failed_def by (metis append.assoc)
  show "event_culprit e xs \<Longrightarrow> event_culprit e (ys @ xs)" unfolding event_culprit_def using c by (metis append.assoc)
  show "device_culprit e xs \<Longrightarrow> device_culprit e (ys @ xs)" unfolding device_culprit_def by (auto intro: ends_append)
qed

lemma logs_also:
  assumes "logs L P m Q" "\<And>st r st' xs. P st \<Longrightarrow> m st = (r, st') \<Longrightarrow> log_of st' = log_of st @ xs \<Longrightarrow> R r xs st'"
  shows "logs L P m (\<lambda>r xs st. Q r xs st \<and> R r xs st)"
  using assms unfolding logs_def by metis

lemma call_in_step: "registers_in_step L \<Longrightarrow> keeps in_step (loop_call L a occ)"
  unfolding loop_call_def register_step_def
  by (intro keeps_then keeps_world keeps_modify) (auto simp: registers_in_step_def)

lemma callbacks_stay_in_step:
  assumes "registers_in_step L"
  shows "callbacks_in_step (create_stream_monitor L)"
proof -
  have "keeps in_step (loop_hook L)" unfolding loop_hook_def by (intro keeps_intros call_in_step assms)
  with call_in_step [OF assms] show ?thesis by (simp add: callbacks_in_step_def create_stream_monitor_def)
qed

lemma hangup_result:
  assumes "registers_in_step L" "in_step st" "fd \<in> set (dict_keys (sm_callbacks (fst st)))"
    and "trigger_hangup (create_stream_monitor L) fd st = (r, st')"
  shows "in_step st' \<and> (\<forall>e. r = Inl e \<longrightarrow> log_of st' = log_of st @ [Closed fd (Inl e)])"
proof -
  let ?V = "create_stream_monitor L"
  obtain entry where e: "stream_entry_of fd st = (Inr entry, st)" using entry_found [OF assms(2, 3)] by blast
  obtain m s k log where st: "st = (m, (s, k, log))" by (metis surj_pair)
  let ?st1 = "(m, (s, Suc k, log @ [Closed fd (le_close L k)]))"
  have c: "zoom_snd (sv_close ?V fd) st = (le_close L k, ?st1)"
    by (simp add: create_stream_monitor_def zoom_snd_def close_descriptor_def st)
  have s1: "in_step ?st1" using assms(2) by (simp add: in_step_def st)
  let ?rest = "try_op (then_op (forget fd) (case se_hangup entry of Some cb \<Rightarrow> sv_call ?V cb | None \<Rightarrow> ret_op ())) (\<lambda>e. error_handler ?V e (se_error entry))"
  have k: "keeps in_step (then_op (forget fd) (case se_hangup entry of Some cb \<Rightarrow> sv_call ?V cb | None \<Rightarrow> ret_op ()))"
    using callbacks_stay_in_step [OF assms(1)] by (intro keeps_intros) (auto simp: callbacks_in_step_def)
  have "ensures in_step ?rest (\<lambda>_. in_step) (\<lambda>_. False)"
    by (rule try_returns [OF k error_handler_returns [OF callbacks_stay_in_step [OF assms(1)]]])
  from ensures_result [OF this s1] obtain u s2 where "?rest ?st1 = (Inr u, s2)" "in_step s2" by blast
  then have s2: "?rest ?st1 = (Inr (), s2)" "in_step s2" by simp_all
  note run = assms(4) [unfolded trigger_hangup_def bind_op_def [of "stream_entry_of fd"] then_op_def [of "zoom_snd (sv_close ?V fd)"]
      bind_op_def [of "zoom_snd (sv_close ?V fd)"] e c]
  show ?thesis
  proof (cases "le_close L k")
    case (Inl a)
    with run c have "r = Inl a" "st' = ?st1" by (auto simp: bind_op_def)
    with Inl s1 show ?thesis by (simp add: log_of_def st)
  next
    case (Inr b)
    with run c s2 have "r = Inr ()" "st' = s2" by (auto simp: bind_op_def)
    with s2 show ?thesis by simp
  qed
qed

lemma ready_culprit:
  assumes "registers_in_step L"
  shows "logs L in_step (process_ready (create_stream_monitor L) x)
    (\<lambda>r xs st. in_step st \<and> list_all is_call (visible xs) \<and> (\<forall>e. r = Inl e \<longrightarrow> closing_failed e xs \<or> e = AssertionError \<and> \<not> valid_event (snd x)))"
proof -
  let ?V = "create_stream_monitor L"
  have "in_step st' \<and> (\<forall>e. r = Inl e \<longrightarrow> closing_failed e xs \<or> e = AssertionError \<and> \<not> valid_event (snd x))"
    if st: "in_step st" and run: "process_ready ?V x st = (r, st')" and log: "log_of st' = log_of st @ xs" for st r st' xs
  proof -
    obtain fd event where x: "x = (fd, event)" by fastforce
    consider "fd \<notin> set (dict_keys (sm_callbacks (fst st)))"
      | "fd \<in> set (dict_keys (sm_callbacks (fst st)))" "\<not> valid_event event"
      | "fd \<in> set (dict_keys (sm_callbacks (fst st)))" "bit event POLLIN" "\<not> bit event POLLNVAL"
      | "fd \<in> set (dict_keys (sm_callbacks (fst st)))" "\<not> bit event POLLIN" "\<not> bit event POLLNVAL" "bit event POLLHUP \<or> bit event POLLERR"
      by (auto simp: valid_event_def)
    then show ?thesis
    proof cases
      case 1
      with run x have "r = Inr ()" "st' = st" by (cases st; simp add: process_ready_def read_op_def ret_op_def)+
      with st show ?thesis by simp
    next
      case 2
      with run st x have "r = Inl AssertionError" "st' = st"
        by (cases st; auto simp: process_ready_def read_op_def process_poll_result_def valid_event_def raise_op_def split: if_splits)+
      with 2 st x show ?thesis by simp
    next
      case 3
      with run x have "trigger_callback ?V fd st = (r, st')"
        by (cases st) (simp add: process_ready_def read_op_def process_poll_result_def)
      with callback_returns [OF callbacks_stay_in_step [OF assms] st 3(1)] show ?thesis by auto
    next
      case 4
      with run x have "trigger_hangup ?V fd st = (r, st')"
        by (cases st) (simp add: process_ready_def read_op_def process_poll_result_def)
      from hangup_result [OF assms st 4(1) this] log show ?thesis unfolding closing_failed_def by auto
    qed
  qed
  from logs_also [OF ready_calls this] show ?thesis by (rule logs_post) auto
qed

lemma poll_registered:
  assumes "polls_registered L"
  shows "logs L in_step (poll_again L) (\<lambda>r xs st. in_step st \<and> (\<exists>fds ys. r = Inr fds \<and> xs = ys @ [Ready fds] \<and> fst ` set fds \<subseteq> set (sm_registered (fst st))))"
proof -
  have "in_step st' \<and> (\<exists>fds. r = Inr fds \<and> fst ` set fds \<subseteq> set (sm_registered (fst st')))"
    if st: "in_step st" and run: "poll_again L st = (r, st')" for st r st'
  proof -
    obtain m w where w: "st = (m, w)" by (cases st)
    obtain x w1 where o: "other_threads L w = (x, w1)" by (cases "other_threads L w")
    obtain s k log where w1: "w1 = (s, k, log)" by (metis surj_pair)
    obtain s0 k0 log0 where w0: "w = (s0, k0, log0)" by (metis surj_pair)
    have "x = Inr ()" using others_log [of "le_others L k0" L s0 k0 log0] o w0 by (auto simp: other_threads_def read_op_def)
    then have "r = Inr (le_second_poll L k m)" "st' = (m, (s, Suc k, log @ [Ready (le_second_poll L k m)]))"
      using run by (simp_all add: poll_again_def then_op_def bind_op_def zoom_snd_def w o w1)
    moreover have m: "in_step (m, v)" for v :: "'a world" using st by (simp add: in_step_def w)
    moreover have "\<forall>(fd, event)\<in>set (le_second_poll L k m). fd \<in> set (sm_registered m)"
      using assms m unfolding polls_registered_def by blast
    ultimately show ?thesis by force
  qed
  from logs_also [OF poll_logs this] show ?thesis
    by (rule logs_post) (auto, metis append_butlast_last_id)
qed

lemma idle_survives:
  fixes p :: "(int \<times> nat) list"
  assumes "registers_in_step L"
  shows "logs L in_step (try_op (idle_and_hook (create_stream_monitor L) (p = [])) (\<lambda>_. ret_op True))
    (\<lambda>r xs st. in_step st \<and> (\<forall>e. r \<noteq> Inl e) \<and> (r = Inr False \<longrightarrow> sm_callbacks (fst st) = []))"
proof -
  let ?V = "create_stream_monitor L"
  have k: "keeps in_step (try_op (idle_and_hook ?V (p = [])) (\<lambda>_. ret_op True))"
    by (intro keeps_try idle_keeps callbacks_stay_in_step assms keeps_basic)
  have "in_step st' \<and> (r = Inr False \<longrightarrow> sm_callbacks (fst st') = [])"
    if "in_step st" "try_op (idle_and_hook ?V (p = [])) (\<lambda>_. ret_op True) st = (r, st')" for st r st'
    using that keepsD [OF k that(1)] idle_result [of ?V "p = []" st st'] by auto
  then have "logs L in_step (try_op (idle_and_hook ?V (p = [])) (\<lambda>_. ret_op True))
      (\<lambda>r xs st. ((\<exists>idle hooks. visible xs = idle @ hooks \<and> idle_part p idle hooks) \<and> (\<forall>e. r \<noteq> Inl e) \<and> (r = Inr False \<longrightarrow> stopped_part p (visible xs))) \<and>
         in_step st \<and> (r = Inr False \<longrightarrow> sm_callbacks (fst st) = []))"
    by (intro logs_also [OF idle_logs]) blast
  then show ?thesis by (rule logs_post) auto
qed

lemma calls_culprit:
  assumes "registers_in_step L"
  shows "logs L (\<lambda>st. in_step st \<and> fst ` set polled \<subseteq> set (sm_registered (fst st)))
    (read_op (\<lambda>s. bind_op (lift_op (by_priority (sm_fd_priority (fst s)) polled)) (\<lambda>fds.
      then_op (for_op fds (process_ready (create_stream_monitor L))) (get_op (\<lambda>(m, w). sm_callbacks m \<noteq> [])))))
    (\<lambda>r ys st. in_step st \<and> (case r of Inl e \<Rightarrow> event_culprit e (Ready polled # ys) | Inr b \<Rightarrow> b = (sm_callbacks (fst st) \<noteq> [])))"
proof (rule logs_read)
  let ?V = "create_stream_monitor L"
  let ?Q = "\<lambda>r ys (st :: 'a loop_state). in_step st \<and> (case r of Inl e \<Rightarrow> event_culprit e (Ready polled # ys) | Inr b \<Rightarrow> b = (sm_callbacks (fst st) \<noteq> []))"
  fix st :: "'a loop_state" assume st: "in_step st \<and> fst ` set polled \<subseteq> set (sm_registered (fst st))"
  then have "fst ` set polled \<subseteq> set (dict_keys (sm_fd_priority (fst st)))" unfolding in_step_def by blast
  then obtain fds where fds: "by_priority (sm_fd_priority (fst st)) polled = Inr fds" "set fds = set polled" using by_priority_returns by blast
  let ?X = "\<lambda>x e ys. closing_failed e ys \<or> e = AssertionError \<and> \<not> valid_event (snd x)"
  have all: "logs L in_step (for_op fds (process_ready ?V)) (\<lambda>r ys st. in_step st \<and> list_all is_call (visible ys) \<and>
      (\<forall>e. r = Inl e \<longrightarrow> (\<exists>x us vs. x \<in> set fds \<and> ys = us @ vs \<and> ?X x e vs)))"
    by (rule logs_for) (rule ready_culprit [OF assms])
  have blame: "event_culprit e (Ready polled # ys)"
    if "list_all is_call (visible ys)" "x \<in> set fds" "ys = us @ vs" "?X x e vs" for e ys x us vs
  proof (cases "closing_failed e vs")
    case True
    then show ?thesis using culprit_append(3) [of e vs "Ready polled # us"] that(3) by (simp add: event_culprit_def)
  next
    case False
    with that fds(2) have "list_ex (\<lambda>(fd, event). \<not> valid_event event) polled" "e = AssertionError" by (auto simp: list_ex_iff case_prod_beta)
    with that(1) show ?thesis unfolding event_culprit_def by (metis append_Nil)
  qed
  have "logs L in_step (then_op (for_op fds (process_ready ?V)) (get_op (\<lambda>(m, w). sm_callbacks m \<noteq> []))) ?Q"
  proof (rule logs_then [OF all])
    fix e ys and st :: "'a loop_state" assume "in_step st \<and> list_all is_call (visible ys) \<and> (\<forall>e'. (Inl e :: unit result) = Inl e' \<longrightarrow> (\<exists>x us vs. x \<in> set fds \<and> ys = us @ vs \<and> ?X x e' vs))"
    then show "?Q (Inl e) ys st" using blame by auto
  qed (auto intro!: logs_get)
  then have "logs L (\<lambda>st'. st' = st) (then_op (for_op fds (process_ready ?V)) (get_op (\<lambda>(m, w). sm_callbacks m \<noteq> []))) ?Q"
    by (rule logs_pre) (use st in simp)
  moreover have "bind_op (lift_op (Inr fds)) f = f fds" for f :: "(int \<times> nat) list \<Rightarrow> ('a, bool) loop_op"
    by (auto simp: bind_op_def lift_op_def)
  ultimately show "logs L (\<lambda>st'. st' = st) (bind_op (lift_op (by_priority (sm_fd_priority (fst st)) polled)) (\<lambda>fds.
      then_op (for_op fds (process_ready ?V)) (get_op (\<lambda>(m, w). sm_callbacks m \<noteq> [])))) ?Q"
    by (simp only: fds(1))
qed

lemma event_loop_culprit:
  assumes "registers_in_step L" "polls_registered L"
  shows "logs L in_step (event_loop (create_stream_monitor L) p (poll_again L))
    (\<lambda>r xs st. in_step st \<and> (case r of Inl e \<Rightarrow> event_culprit e xs | Inr b \<Rightarrow> b = (sm_callbacks (fst st) \<noteq> [])))"
  (is "logs L in_step _ ?Q")
  unfolding event_loop_def
proof (rule logs_bind [OF idle_survives [OF assms(1)]])
  let ?V = "create_stream_monitor L"
  let ?calls = "\<lambda>polled. read_op (\<lambda>s. bind_op (lift_op (by_priority (sm_fd_priority (fst s)) polled)) (\<lambda>fds.
      then_op (for_op fds (process_ready ?V)) (get_op (\<lambda>(m, w). sm_callbacks m \<noteq> []))))"
  have step: "?Q r (us @ xs) st" if "?Q r xs st" for r xs st us
    using that culprit_append(1) by (auto split: sum.splits)
  have calls: "logs L in_step (bind_op (poll_again L) ?calls) ?Q"
  proof (rule logs_bind [OF poll_registered [OF assms(2)]])
    fix polled ys
    show "logs L (\<lambda>st. in_step st \<and> (\<exists>fds zs. (Inr polled :: (int \<times> nat) list result) = Inr fds \<and> ys = zs @ [Ready fds] \<and> fst ` set fds \<subseteq> set (sm_registered (fst st))))
        (?calls polled) (\<lambda>r zs. ?Q r (ys @ zs))"
    proof (rule logs_at)
      fix st :: "'a loop_state" assume "in_step st \<and> (\<exists>fds zs. (Inr polled :: (int \<times> nat) list result) = Inr fds \<and> ys = zs @ [Ready fds] \<and> fst ` set fds \<subseteq> set (sm_registered (fst st)))"
      then obtain us where st: "in_step st \<and> fst ` set polled \<subseteq> set (sm_registered (fst st))" "ys = us @ [Ready polled]" by auto
      have "logs L (\<lambda>st'. st' = st) (?calls polled) (\<lambda>r zs. ?Q r (Ready polled # zs))"
        by (rule logs_post [OF logs_pre [OF calls_culprit [OF assms(1)]]]) (use st(1) in auto)
      then show "logs L (\<lambda>st'. st' = st) (?calls polled) (\<lambda>r zs. ?Q r (ys @ zs))"
      proof (rule logs_post)
        have eq: "ys @ zs = us @ Ready polled # zs" for zs using st(2) by simp
        fix r zs and st :: "'a loop_state" assume "?Q r (Ready polled # zs) st"
        then show "?Q r (ys @ zs) st" unfolding eq by (rule step)
      qed
    qed
  qed auto
  fix go_on xs
  show "logs L (\<lambda>st. in_step st \<and> (\<forall>e. (Inr go_on :: bool result) \<noteq> Inl e) \<and> ((Inr go_on :: bool result) = Inr False \<longrightarrow> sm_callbacks (fst st) = []))
      (if \<not> go_on then ret_op False else bind_op (poll_again L) ?calls) (\<lambda>r ys. ?Q r (xs @ ys))"
  proof (cases go_on)
    case True
    have "logs L in_step (bind_op (poll_again L) ?calls) (\<lambda>r ys. ?Q r (xs @ ys))" by (rule logs_post [OF calls]) (rule step)
    with True show ?thesis by (auto intro: logs_pre)
  next
    case False
    then show ?thesis by (auto intro!: logs_ret)
  qed
qed blast

lemma round_culprit:
  assumes "registers_in_step L" "polls_registered L"
  shows "logs L in_step (loop_round L)
    (\<lambda>r xs st. in_step st \<and> (case r of Inl e \<Rightarrow> event_culprit e xs \<or> device_culprit e xs | Inr active \<Rightarrow> \<not> active \<longrightarrow> sm_callbacks (fst st) = []))"
  (is "logs L in_step _ ?Q")
  unfolding loop_round_def
proof (rule logs_read)
  fix st :: "'a loop_state" assume st: "in_step st"
  obtain m s k log where m: "st = (m, (s, k, log))" by (metis surj_pair)
  let ?p = "le_first_poll L k"
  let ?beat = "then_op (for_triggered L Beater HeartbeatDevice) (ret_op True)"
  let ?body = "\<lambda>active. if \<not> active then ret_op False else then_op (for_triggered L Reaper ReapDevice) ?beat"
  have step: "?Q r (us @ xs) st" if "?Q r xs st" for r xs st us
    using that culprit_append by (auto split: sum.splits)
  have kt: "keeps in_step (for_triggered L a occ)" for a occ
    unfolding for_triggered_def note_entry_def by (intro keeps_intros call_in_step [OF assms(1)]) (simp add: in_step_def case_prod_beta)
  have beat: "logs L in_step ?beat ?Q"
  proof (rule logs_then [OF logs_pre [OF logs_keeps [OF triggered_logs kt]]])
    show "logs L (\<lambda>st. (devices_log Beater HeartbeatDevice (Inr u) (visible xs) \<and> log_ends_with Beater HeartbeatDevice (Inr u) xs) \<and> in_step st) (ret_op True) (\<lambda>r ys. ?Q r (xs @ ys))" for u xs
      by (rule logs_ret) simp
  qed (auto simp: device_culprit_def)
  have body: "logs L in_step (?body True) ?Q"
    unfolding not_True_eq_False if_False
  proof (rule logs_then [OF logs_pre [OF logs_keeps [OF triggered_logs kt]]])
    show "logs L (\<lambda>st. (devices_log Reaper ReapDevice (Inr u) (visible xs) \<and> log_ends_with Reaper ReapDevice (Inr u) xs) \<and> in_step st) ?beat (\<lambda>r ys. ?Q r (xs @ ys))" for u xs
      by (rule logs_post [OF logs_pre [OF beat]]) (simp, rule step)
  qed (auto simp: device_culprit_def)
  have rest: "logs L in_step (bind_op (event_loop (create_stream_monitor L) ?p (poll_again L)) ?body) ?Q"
  proof (rule logs_bind [OF event_loop_culprit [OF assms]])
    fix active xs
    show "logs L (\<lambda>st. in_step st \<and> (case Inr active of Inl e \<Rightarrow> event_culprit e xs | Inr b \<Rightarrow> b = (sm_callbacks (fst st) \<noteq> [])))
        (?body active) (\<lambda>r ys. ?Q r (xs @ ys))"
    proof (cases active)
      case True
      then have same: "active = True" by simp
      have "logs L in_step (?body True) (\<lambda>r ys. ?Q r (xs @ ys))" by (rule logs_post [OF body]) (rule step)
      then show ?thesis unfolding same by (rule logs_pre) simp
    qed (auto intro!: logs_ret)
  qed auto
  have marked: "logs L (\<lambda>st'. st' = st) (note_entry (Polled ?p)) (\<lambda>r xs st. in_step st \<and> r = Inr ())"
  proof -
    have "keeps in_step (note_entry (Polled ?p) :: ('a, unit) loop_op)" by (simp add: keeps_def note_entry_def modify_op_def case_prod_beta in_step_def)
    moreover have "logs L (\<lambda>st'. st' = st) (note_entry (Polled ?p)) (\<lambda>r xs st. r = Inr () \<and> xs = [Polled ?p])"
      by (rule note_logs) (simp_all add: by_main_def)
    ultimately show ?thesis using st by (auto intro: logs_post [OF logs_pre [OF logs_keeps]])
  qed
  have "logs L (\<lambda>st'. st' = st) (then_op (note_entry (Polled ?p)) (bind_op (event_loop (create_stream_monitor L) ?p (poll_again L)) ?body)) ?Q"
  proof (rule logs_then [OF marked])
    show "logs L (\<lambda>st. in_step st \<and> (Inr u :: unit result) = Inr ()) (bind_op (event_loop (create_stream_monitor L) ?p (poll_again L)) ?body) (\<lambda>r ys. ?Q r (xs @ ys))" for u xs
      by (rule logs_post [OF logs_pre [OF rest]]) (simp, rule step)
  qed simp
  then show "logs L (\<lambda>st'. st' = st) ((\<lambda>(m, (s, k, log)). then_op (note_entry (Polled (le_first_poll L k)))
      (bind_op (event_loop (create_stream_monitor L) (le_first_poll L k) (poll_again L)) ?body)) st) ?Q" by (simp add: m)
qed

lemma rounds_culprit:
  assumes "registers_in_step L" "polls_registered L"
  shows "loop_rounds L n st = Some (r, st') \<Longrightarrow> in_step st \<Longrightarrow>
    (case r of Inl e \<Rightarrow> event_culprit e (log_of st') \<or> device_culprit e (log_of st') | Inr _ \<Rightarrow> sm_callbacks (fst st') = [])"
proof (induction n arbitrary: st)
  case (Suc n)
  obtain x st1 where x: "loop_round L st = (x, st1)" by (cases "loop_round L st")
  obtain xs where xs: "log_of st1 = log_of st @ xs" "in_step st1"
    "case x of Inl e \<Rightarrow> event_culprit e xs \<or> device_culprit e xs | Inr active \<Rightarrow> \<not> active \<longrightarrow> sm_callbacks (fst st1) = []"
    by (rule logsD [OF round_culprit [OF assms] Suc.prems(2) x]) blast
  show ?case
  proof (cases x)
    case (Inl e)
    with Suc.prems(1) x xs culprit_append [of e xs "log_of st"] show ?thesis by auto
  next
    case (Inr active)
    with Suc x xs show ?thesis by (auto split: if_splits)
  qed
qed simp

text \<open>C16: no handler ends the main loop. When the handlers use the monitor through its operations and polling reports descriptors
  that are registered, the loop of a connected runner ends without an exception only when no descriptor is left
  to be monitored. It ends with an exception only when the last thing the main thread did was to reap a stale port, the heartbeat of a
  device's modules or the closing of a descriptor that hung up, which raised this very exception, or when the last poll
  reported an event that was not asked for, on which the monitor asserts. The exceptions of the idle handler, of queued callbacks and of all callbacks and
  error callbacks of streams stay inside.\<close>

theorem main_loop_survives_handlers:
  assumes "registers_in_step L" "polls_registered L" "connected s0"
    and "guarded_loop L n (stream_monitor_init, (s0, k, [])) = Some (r, (m, (s, k', log)))"
  shows "case r of
      Inr _ \<Rightarrow> sm_callbacks m = []
    | Inl e \<Rightarrow>
        (\<exists>xs j d. log = xs @ [Did Reaper j (ReapDevice d) (Inl e)]) \<or>
        (\<exists>xs j d. log = xs @ [Did Beater j (HeartbeatDevice d) (Inl e)]) \<or>
        (\<exists>xs fd. log = xs @ [Closed fd (Inl e)]) \<or>
        e = AssertionError \<and>
          (\<exists>xs fds ys. log = xs @ Ready fds # ys \<and> list_all is_call (visible ys) \<and> list_ex (\<lambda>(fd, event). \<not> valid_event event) fds)"
proof -
  let ?start = "monitor_faucet_events L (stream_monitor_init, (s0, k, []))"
  have first: "fst ?start = Inr ()" "in_step (snd ?start)"
    using assms(3) by (simp_all add: monitor_faucet_events_def monitor_stream_def stream_monitor_init_def op_simps on_monitor_def in_step_def Let_def)
  then have "loop_rounds L n (snd ?start) = Some (r, (m, (s, k', log)))"
    using assms(4) by (cases ?start) (auto simp: guarded_loop_def)
  from rounds_culprit [OF assms(1,2) this first(2)] show ?thesis
    by (cases r) (auto simp: event_culprit_def closing_failed_def device_culprit_def log_ends_with_def log_of_def)
qed

subsection \<open>A run\<close>

text \<open>
  The runner with a device under test: in the first round nothing happens, and in the second one the heartbeat of the
  device's module raises.
\<close>

definition breaking_host :: "unit host_ops" where
  "breaking_host = working_host\<lparr>ho_heartbeat := [\<lambda>_ (_, g). ((Inl OSError, []), (), g)]\<rparr>"

definition beating_loop :: "unit loop_env" where
  "beating_loop =
     \<lparr>le_answers = (\<lambda>k. (busy_env, if k = 5 then breaking_host else working_host)), le_others = (\<lambda>_. []), le_queued = (\<lambda>_. []), le_registers = (\<lambda>_ m. m),
      le_io = (\<lambda>_. Inr ()), le_close = (\<lambda>_. Inr ()), le_first_poll = (\<lambda>_. [(5, 3)]), le_second_poll = (\<lambda>_ _. []), le_sock = 5\<rparr>"

lemma beating_simps:
  "le_answers beating_loop k = (busy_env, if k = 5 then breaking_host else working_host)" "le_others beating_loop k = []" "le_queued beating_loop k = []"
  "le_registers beating_loop k m = m" "le_first_poll beating_loop k = [(5, 3)]" "le_second_poll beating_loop k m = []" "le_sock beating_loop = 5"
  by (simp_all add: beating_loop_def)

definition beat_result :: "nat \<Rightarrow> unit result" where
  "beat_result k = (if k = 5 then Inl OSError else Inr ())"

lemma beating_occasions:
  "get_triggered_devices hosted_runner = [0]"
  "handle_occasion busy_env H (ReapDevice 0) hosted_runner = (Inr (), hosted_runner)"
  "handle_occasion busy_env (if k = 5 then breaking_host else working_host) (HeartbeatDevice 0) hosted_runner = (beat_result k, hosted_runner)"
  by (simp_all add: handle_occasion_def reap_stale_port_def device_heartbeat_def call_host_serving_def with_host_def serve_host_def call_host_gateway_def
      the_port_def hosted_runner_def chosen_runner_def created_runner_def get_triggered_devices_def tested_device_def new_device_object_def active_port_def
      new_port_info_def working_host_def breaking_host_def failing_host_def beat_result_def first_gateway_def op_simps Let_def)

lemma beating_round:
  assumes "sm_callbacks m \<noteq> []"
  shows "loop_round beating_loop (m, (hosted_runner, k, log)) =
    (case beat_result (Suc (Suc k)) of Inl e \<Rightarrow> Inl e | Inr _ \<Rightarrow> Inr True,
     (m, (hosted_runner, Suc (Suc (Suc k)), log @ [Polled [(5, 3)], Ready [], Triggered [0], Did Reaper (Suc k) (ReapDevice 0) (Inr ()), Triggered [0],
        Did Beater (Suc (Suc k)) (HeartbeatDevice 0) (beat_result (Suc (Suc k)))])))"
proof -
  let ?L = beating_loop
  have quiet: "other_threads ?L w = (Inr (), w)" for w
    by (cases w) (simp add: other_threads_def read_op_def beating_simps ret_op_def)
  then have others: "zoom_snd (other_threads ?L) st = (Inr (), st)" for st :: "unit loop_state"
    by (simp add: zoom_snd_def)
  have call: "loop_call ?L a (\<lambda>_. occ) (m, (hosted_runner, k, log)) = (r, (m, (hosted_runner, Suc k, log @ [Did a k occ r])))"
    if "handle_occasion busy_env (if k = 5 then breaking_host else working_host) occ hosted_runner = (r, hosted_runner)" for a occ k log r
    using that by (simp add: loop_call_def register_step_def happens_def quiet then_op_def bind_op_def modify_op_def zoom_snd_def beating_simps)
  have devices: "for_triggered ?L a occ (m, (hosted_runner, k, log)) =
      (r, (m, (hosted_runner, Suc k, log @ [Triggered [0], Did a k (occ 0) r])))"
    if "handle_occasion busy_env (if k = 5 then breaking_host else working_host) (occ 0) hosted_runner = (r, hosted_runner)" for a occ k log r
    by (cases r) (simp_all add: for_triggered_def others call [OF that] beating_occasions(1) then_op_def bind_op_def read_op_def note_entry_def modify_op_def ret_op_def)
  have events: "event_loop (create_stream_monitor ?L) [(5, 3)] (poll_again ?L) (m, (hosted_runner, k, log)) = (Inr True, (m, (hosted_runner, Suc k, log @ [Ready []])))"
    for k log
    using assms by (simp add: event_loop_def idle_and_hook_def create_stream_monitor_def loop_hook_def poll_again_def others by_priority_def beating_simps
        try_op_def then_op_def bind_op_def read_op_def lift_op_def get_op_def ret_op_def Let_def)
  show ?thesis
    by (cases "beat_result (Suc (Suc k))")
      (simp_all add: loop_round_def read_op_def then_op_def bind_op_def note_entry_def modify_op_def ret_op_def events beating_simps
        devices [where occ = ReapDevice, OF beating_occasions(2)] devices [where occ = HeartbeatDevice, OF beating_occasions(3)])
qed

lemma beating_run:
  "\<exists>m. guarded_loop beating_loop 2 (stream_monitor_init, (hosted_runner, 0, [])) = Some (Inl OSError, (m, (hosted_runner, 6,
     [Polled [(5, 3)], Ready [], Triggered [0], Did Reaper 1 (ReapDevice 0) (Inr ()), Triggered [0], Did Beater 2 (HeartbeatDevice 0) (Inr ()),
      Polled [(5, 3)], Ready [], Triggered [0], Did Reaper 4 (ReapDevice 0) (Inr ()), Triggered [0], Did Beater 5 (HeartbeatDevice 0) (Inl OSError)])))"
proof -
  have "connected hosted_runner" by (simp add: hosted_runner_def chosen_runner_def created_runner_def)
  then obtain m where "monitor_faucet_events beating_loop (stream_monitor_init, (hosted_runner, 0, [])) = (Inr (), (m, (hosted_runner, 0, [])))" "sm_callbacks m \<noteq> []"
    by (simp add: monitor_faucet_events_def monitor_stream_def stream_monitor_init_def op_simps on_monitor_def Let_def beating_simps)
  then show ?thesis
    by (simp add: guarded_loop_def numeral_2_eq_2 beating_round beat_result_def)
qed


theorem main_loop_survives_handlers_witness:
  "\<exists>m s k log xs j d. guarded_loop beating_loop 2 (stream_monitor_init, (hosted_runner, 0, [])) = Some (Inl OSError, (m, (s, k, log))) \<and>
     log = xs @ [Did Beater j (HeartbeatDevice d) (Inl OSError)]"
proof -
  obtain m where g: "guarded_loop beating_loop 2 (stream_monitor_init, (hosted_runner, 0, [])) = Some (Inl OSError, (m, (hosted_runner, 6,
     [Polled [(5, 3)], Ready [], Triggered [0], Did Reaper 1 (ReapDevice 0) (Inr ()), Triggered [0], Did Beater 2 (HeartbeatDevice 0) (Inr ()),
      Polled [(5, 3)], Ready [], Triggered [0], Did Reaper 4 (ReapDevice 0) (Inr ()), Triggered [0], Did Beater 5 (HeartbeatDevice 0) (Inl OSError)])))"
    (is "_ = Some (_, (_, (_, _, ?log)))") using beating_run by blast
  have "registers_in_step beating_loop" "polls_registered beating_loop" "connected hosted_runner"
    by (simp_all add: registers_in_step_def polls_registered_def beating_simps hosted_runner_def chosen_runner_def created_runner_def)
  from main_loop_survives_handlers [OF this g] have "\<exists>xs j d. ?log = xs @ [Did Beater j (HeartbeatDevice d) (Inl OSError)]"
    by (auto simp: append_eq_Cons_conv Cons_eq_append_conv)
  with g show ?thesis by blast
qed

end
