(* ===== verification/Module_Setup.thy ===== *)
theory Module_Setup
  imports Host_Config Generator
begin

text \<open>
  How a test module is set up (\<open>daq/test_modules\<close>, \<open>daq/host.py\<close>): the parameters a host gives to a module, its
  environment variables, the directories that are mapped into it, its address in the subnet of the
  device, and the connection of the switch port. The files are those of \<open>Configurator\<close>; addresses are
  numbers and subnets are validated ones (\<open>ip_network\<close> refuses others).
\<close>

subsection \<open>Addresses\<close>

record ip_net =
  nt_addr :: int
  nt_prefixlen :: nat

definition broadcast_address :: "ip_net \<Rightarrow> int" where
  "broadcast_address n = nt_addr n + 2 ^ (32 - nt_prefixlen n) - 1"

definition in_net :: "ip_net \<Rightarrow> int \<Rightarrow> bool" where
  "in_net n a \<longleftrightarrow> nt_addr n \<le> a \<and> a \<le> broadcast_address n"

definition overlaps :: "ip_net \<Rightarrow> ip_net \<Rightarrow> bool" where
  "overlaps a b \<longleftrightarrow> in_net a (nt_addr b) \<or> in_net a (broadcast_address b) \<or> in_net b (nt_addr a) \<or> in_net b (broadcast_address a)"

definition ip_add :: "int \<Rightarrow> int \<Rightarrow> int result" where
  \<comment> \<open>\<open>ip_address\<close> plus a number, refused outside the address space\<close>
  "ip_add a d = (if 0 \<le> a + d \<and> a + d < 2 ^ 32 then Inr (a + d) else Inl ValueError)"

definition host_net :: "int \<Rightarrow> ip_net" where
  \<comment> \<open>\<open>ip_network\<close> of an address\<close>
  "host_net a = \<lparr>nt_addr = a, nt_prefixlen = 32\<rparr>"

fun find_host_ip :: "int \<Rightarrow> ip_net list \<Rightarrow> (int \<times> nat) option result" where
  \<comment> \<open>the loop over the external subnets\<close>
  "find_host_ip target [] = Inr None"
| "find_host_ip target (subnet # subnets) =
     (if overlaps (host_net target) subnet
      then bind_result (ip_add (broadcast_address subnet) (-1)) (\<lambda>last_host.
           bind_result (ip_add target (if target = last_host then -1 else 1)) (\<lambda>new_ip.
             Inr (Some (new_ip, nt_prefixlen subnet))))
      else find_host_ip target subnets)"

definition get_host_ip :: "ip_net \<Rightarrow> ip_net list \<Rightarrow> int \<Rightarrow> (int \<times> nat) option result" where
  "get_host_ip runner_subnet external_subnets target =
     (if overlaps (host_net target) runner_subnet then Inr None else find_host_ip target external_subnets)"

subsection \<open>Parameters\<close>

type_synonym params = "(string, string option) dict"

record module_host =
  mh_switch_setup :: params
  mh_test_port :: int
  mh_target_ip :: "string option"
  mh_target_mac :: string
  mh_target_port :: "int option"
  mh_gateway_ip :: string
  mh_gateway_mac :: string
  mh_inst_config_path :: string
  mh_port_base :: "string option"
  mh_device_base :: "string option"
  mh_gw_base :: string
  mh_scan_base :: string

definition setup_value :: "params \<Rightarrow> string \<Rightarrow> string option" where
  \<comment> \<open>\<open>d.get(key)\<close>\<close>
  "setup_value d key = (case dict_get d key of Some v \<Rightarrow> v | None \<Rightarrow> None)"

definition get_switch_config :: "params \<Rightarrow> params" where
  "get_switch_config setup_d =
     [(''ip'', setup_value setup_d ''ip_addr''), (''model'', setup_value setup_d ''model''),
      (''username'', setup_value setup_d ''username''), (''password'', setup_value setup_d ''password'')]"

definition local_address :: "module_host \<Rightarrow> string option result" where
  "local_address h =
     (case dict_get (mh_switch_setup h) ''mods_addr'' of
        None \<Rightarrow> Inr None
      | Some None \<Rightarrow> Inl TypeError
      | Some (Some fmt) \<Rightarrow> bind_result (format_numbers fmt [mh_test_port h]) (\<lambda>s. Inr (Some s)))"

definition get_port_base :: "(string \<Rightarrow> bool) \<Rightarrow> files \<Rightarrow> string option \<Rightarrow> int option \<Rightarrow> string option" where
  \<comment> \<open>which paths are directories, and the settings \<open>test_config\<close> and target port\<close>
  "get_port_base is_dir fs test_config target_port =
     (case (test_config, target_port) of
        (Some c, Some port) \<Rightarrow>
          if c = [] \<or> port = 0 then None
          else let conf_base = abspath (working_dir fs) (path_join c (''port-'' @ show_number True 2 10 port))
               in if is_dir conf_base then Some conf_base else None
      | _ \<Rightarrow> None)"

definition type_aux_path :: "files \<Rightarrow> host_paths \<Rightarrow> string option result option" where
  "type_aux_path fs h =
     bind_call (type_path fs h) (\<lambda>t. Some (Inr (case t of
        None \<Rightarrow> None
      | Some p \<Rightarrow> if p \<noteq> [] \<and> file_exists fs (path_join p ''aux/'') then Some (path_join p ''aux/'') else None)))"

definition common_params :: "module_host \<Rightarrow> string option \<Rightarrow> string option \<Rightarrow> params" where
  "common_params h type_base ext_loip =
     [(''local_ip'', ext_loip), (''target_ip'', mh_target_ip h), (''target_mac'', Some (mh_target_mac h)),
      (''target_port'', case mh_target_port h of Some p \<Rightarrow> if p \<noteq> 0 then Some (show_int p) else None | None \<Rightarrow> None),
      (''gateway_ip'', Some (mh_gateway_ip h)), (''gateway_mac'', Some (mh_gateway_mac h)),
      (''inst_base'', Some (mh_inst_config_path h)), (''port_base'', mh_port_base h), (''device_base'', mh_device_base h),
      (''type_base'', type_base), (''gw_base'', Some (mh_gw_base h)), (''scan_base'', Some (mh_scan_base h))]"

definition get_module_params :: "module_host \<Rightarrow> string option \<Rightarrow> params result" where
  \<comment> \<open>with the directory of the device type\<close>
  "get_module_params h type_base =
     bind_result (local_address h) (\<lambda>ext_loip.
       let params = common_params h type_base ext_loip
       in Inr (if ext_loip = None \<or> ext_loip = Some [] then params
               else fold (\<lambda>(k, v) d. dict_set k v d) (get_switch_config (mh_switch_setup h)) params))"

subsection \<open>Environment and directories\<close>

definition opt_param :: "params \<Rightarrow> string \<Rightarrow> string option" where
  "opt_param params key = (case setup_value params key of Some v \<Rightarrow> Some v | None \<Rightarrow> Some [])"

definition get_env_vars :: "string \<Rightarrow> string \<Rightarrow> params \<Rightarrow> (string \<times> string option) list result" where
  \<comment> \<open>the name of the host and that of its DHCP mode, which is empty when there is none\<close>
  "get_env_vars host_name dhcp_mode params =
     bind_result (dict_index params ''target_ip'') (\<lambda>target_ip.
     bind_result (dict_index params ''target_mac'') (\<lambda>target_mac.
     bind_result (dict_index params ''gateway_ip'') (\<lambda>gateway_ip.
     bind_result (dict_index params ''gateway_mac'') (\<lambda>gateway_mac.
       Inr [(''TARGET_NAME'', Some host_name), (''TARGET_IP'', target_ip), (''TARGET_MAC'', target_mac),
            (''TARGET_PORT'', opt_param params ''target_port''), (''GATEWAY_IP'', gateway_ip), (''GATEWAY_MAC'', gateway_mac),
            (''LOCAL_IP'', opt_param params ''local_ip''), (''DHCP_MODE'', Some dhcp_mode)]))))"

definition str_of :: "string option \<Rightarrow> string" where
  "str_of v = (case v of Some s \<Rightarrow> s | None \<Rightarrow> ''None'')"

definition docker_env_vars :: "string \<Rightarrow> string \<Rightarrow> params \<Rightarrow> string list result" where
  "docker_env_vars host_name dhcp_mode params =
     bind_result (get_env_vars host_name dhcp_mode params) (\<lambda>vars. Inr (map (\<lambda>(k, v). k @ ''='' @ str_of v) vars))"

definition native_env_vars :: "string \<Rightarrow> string \<Rightarrow> string \<Rightarrow> params \<Rightarrow> (string \<times> string option) list result" where
  "native_env_vars basedir host_name dhcp_mode params =
     bind_result (get_env_vars host_name dhcp_mode params) (\<lambda>vars. Inr (vars @ [(''TEST_ROOT'', Some basedir)]))"

definition map_if_exists :: "files \<Rightarrow> string \<Rightarrow> params \<Rightarrow> string \<Rightarrow> (string \<times> string) option" where
  "map_if_exists fs basedir params kind =
     (case setup_value params (kind @ ''_base'') of
        None \<Rightarrow> None
      | Some base \<Rightarrow>
          if base \<noteq> [] \<and> file_exists fs base
          then Some (abspath (working_dir fs) base, path_join (path_join basedir ''config'') kind) else None)"

definition get_vol_maps :: "files \<Rightarrow> string \<Rightarrow> string \<Rightarrow> params \<Rightarrow> (string option \<times> string) list result" where
  \<comment> \<open>\<open>run_dir\<close> is the directory of the run, which is used as the name of its kind\<close>
  "get_vol_maps fs run_dir basedir params =
     bind_result (dict_index params ''scan_base'') (\<lambda>scan_base.
       Inr ((scan_base, path_join basedir ''scans'') #
         map (\<lambda>(src, dst). (Some src, dst))
           (List.map_filter (map_if_exists fs basedir params) [run_dir, ''port'', ''device'', ''type'', ''gw''])))"

definition docker_vol_maps :: "files \<Rightarrow> string \<Rightarrow> string \<Rightarrow> params \<Rightarrow> string list result" where
  "docker_vol_maps fs run_dir basedir params =
     bind_result (get_vol_maps fs run_dir basedir params) (\<lambda>maps. Inr (map (\<lambda>(src, dst). str_of src @ '':'' @ dst) maps))"

definition native_vol_maps :: "files \<Rightarrow> string \<Rightarrow> string \<Rightarrow> string \<Rightarrow> params \<Rightarrow> (string option \<times> string) list result" where
  "native_vol_maps fs lib_dir run_dir basedir params =
     bind_result (get_vol_maps fs run_dir basedir params) (\<lambda>maps. Inr (maps @
       [(Some (abspath (working_dir fs) (path_join (path_join lib_dir ''bin'') ''retry_cmd'')), ''/bin/retry_cmd''),
        (Some (abspath (working_dir fs) (path_join (path_join lib_dir ''bin'') ''reporting.sh'')), path_join basedir ''reporting.sh'')]))"

subsection \<open>The switch\<close>

datatype switch_model = ALLIED_TELESIS_X230 | CISCO_9300 | OVS_SWITCH

definition switch_model_value :: "string \<Rightarrow> switch_model result" where
  "switch_model_value name =
     (if name = ''ALLIED_TELESIS_X230'' then Inr ALLIED_TELESIS_X230 else if name = ''CISCO_9300'' then Inr CISCO_9300
      else if name = ''OVS_SWITCH'' then Inr OVS_SWITCH else Inl ValueError)"

record switch_info =
  si_ip_addr :: "string option"
  si_device_port :: int
  si_model :: switch_model
  si_username :: "string option"
  si_password :: "string option"

definition build_switch_info :: "params \<Rightarrow> int option \<Rightarrow> switch_info option result" where
  "build_switch_info setup_d target_port =
     (let config = get_switch_config setup_d; model = setup_value config ''model'' in
      case target_port of
        None \<Rightarrow> Inr None
      | Some port \<Rightarrow>
          if model = Some ''FAUX_SWITCH'' \<or> port = 0 then Inr None
          else bind_result (case model of None \<Rightarrow> Inr OVS_SWITCH | Some m \<Rightarrow> if m = [] then Inr OVS_SWITCH else switch_model_value m)
            (\<lambda>switch_model. Inr (Some \<lparr>si_ip_addr = setup_value config ''ip'', si_device_port = port, si_model = switch_model,
               si_username = setup_value config ''username'', si_password = setup_value config ''password''\<rparr>)))"

definition connect_port :: "(bool \<Rightarrow> switch_info \<Rightarrow> unit result) \<Rightarrow> params \<Rightarrow> int option \<Rightarrow> bool \<Rightarrow> bool result" where
  \<comment> \<open>with the remote call that connects or disconnects\<close>
  "connect_port stub setup_d target_port connect =
     bind_result (build_switch_info setup_d target_port) (\<lambda>info.
       case info of None \<Rightarrow> Inr False | Some i \<Rightarrow> bind_result (stub connect i) (\<lambda>_. Inr True))"

subsection \<open>Properties\<close>

lemma overlaps_host: "overlaps (host_net a) n \<longleftrightarrow> in_net n a \<or> nt_addr n = a \<or> broadcast_address n = a"
  by (auto simp: overlaps_def host_net_def in_net_def broadcast_address_def)

lemma find_host_ip_first:
  "List.find (overlaps (host_net t)) subnets = Some s \<Longrightarrow> find_host_ip t subnets = find_host_ip t [s]"
  by (induction subnets) (auto split: if_splits)

text \<open>C33: a module gets an address next to that of the device. When the device has a host address of an external subnet
  that is large enough for two hosts, the module is given another host address of that subnet, neither
  the address of the network nor that of the broadcast, with the length of its prefix.\<close>

theorem host_ip_in_subnet:
  assumes "\<not> overlaps (host_net t) runner_subnet" "List.find (overlaps (host_net t)) external_subnets = Some s"
    and "nt_addr s < t" "t < broadcast_address s" "nt_prefixlen s \<le> 30" "0 \<le> nt_addr s" "broadcast_address s < 2 ^ 32"
  shows "\<exists>ip. get_host_ip runner_subnet external_subnets t = Inr (Some (ip, nt_prefixlen s)) \<and>
    ip \<noteq> t \<and> nt_addr s < ip \<and> ip < broadcast_address s"
proof -
  let ?ip = "if t = broadcast_address s - 1 then t - 1 else t + 1"
  have "(2 :: int) ^ 2 \<le> 2 ^ (32 - nt_prefixlen s)" by (rule power_increasing) (use assms(5) in auto)
  then have size: "broadcast_address s \<ge> nt_addr s + 3" by (simp add: broadcast_address_def)
  have o: "overlaps (host_net t) s" using assms(3, 4) by (simp add: overlaps_host in_net_def)
  have "find_host_ip t [s] = Inr (Some (?ip, nt_prefixlen s))"
    using o assms(3, 4, 6, 7) size by (auto simp: ip_add_def)
  then have "get_host_ip runner_subnet external_subnets t = Inr (Some (?ip, nt_prefixlen s))"
    using assms(1) find_host_ip_first [OF assms(2)] by (simp add: get_host_ip_def)
  moreover have "?ip \<noteq> t" "nt_addr s < ?ip" "?ip < broadcast_address s" using assms(3, 4) size by auto
  ultimately show ?thesis by blast
qed

theorem host_ip_in_subnet_witness:
  "\<exists>ip. get_host_ip \<lparr>nt_addr = 169082880, nt_prefixlen = 16\<rparr> [\<lparr>nt_addr = 3232235520, nt_prefixlen = 30\<rparr>] 3232235522 = Inr (Some (ip, 30)) \<and>
     ip \<noteq> 3232235522 \<and> 3232235520 < ip \<and> ip < 3232235523"
  using host_ip_in_subnet [of 3232235522 "\<lparr>nt_addr = 169082880, nt_prefixlen = 16\<rparr>" "[\<lparr>nt_addr = 3232235520, nt_prefixlen = 30\<rparr>]"
      "\<lparr>nt_addr = 3232235520, nt_prefixlen = 30\<rparr>"]
  by (simp add: overlaps_def host_net_def in_net_def broadcast_address_def)

lemma set_map_filter: "set (List.map_filter f xs) = (\<Union>x\<in>set xs. set_option (f x))"
  by (induction xs) (auto simp: List.map_filter_simps split: option.splits)

definition base_keys :: "string list" where
  "base_keys = [''local_ip'', ''target_ip'', ''target_mac'', ''target_port'', ''gateway_ip'', ''gateway_mac'', ''inst_base'', ''port_base'',
     ''device_base'', ''type_base'', ''gw_base'', ''scan_base'', ''ip'', ''model'', ''username'', ''password'']"

lemma fold_set_get:
  "dict_get (fold (\<lambda>(k, v) d. dict_set k v d) kvs d) k \<noteq> None \<Longrightarrow> k \<in> fst ` set kvs \<or> dict_get d k \<noteq> None"
  by (induction kvs arbitrary: d) (fastforce simp: dict_get_set split: if_splits)+

lemma module_params_keys:
  assumes "get_module_params h type_base = Inr params" "dict_get params k \<noteq> None"
  shows "k \<in> set base_keys"
proof -
  obtain x where e: "params = common_params h type_base x \<or>
      params = fold (\<lambda>(k, v) d. dict_set k v d) (get_switch_config (mh_switch_setup h)) (common_params h type_base x)"
    using assms(1) by (auto simp: get_module_params_def Let_def bind_result_eq_Inr split: if_splits)
  have "k \<in> fst ` set (get_switch_config (mh_switch_setup h)) \<or> dict_get (common_params h type_base x) k \<noteq> None"
    using e assms(2) fold_set_get [of "get_switch_config (mh_switch_setup h)" "common_params h type_base x" k] by auto
  then have "k \<in> set (map fst (get_switch_config (mh_switch_setup h)) @ map fst (common_params h type_base x))"
    by (auto simp: map_of_eq_None_iff)
  moreover have "map fst (get_switch_config (mh_switch_setup h)) = drop 12 base_keys" "map fst (common_params h type_base x) = take 12 base_keys"
    by (simp_all add: get_switch_config_def common_params_def base_keys_def)
  ultimately show ?thesis by (metis Un_commute append_take_drop_id set_append)
qed

lemma fold_set_other:
  "k \<notin> fst ` set kvs \<Longrightarrow> dict_get (fold (\<lambda>(k, v) d. dict_set k v d) kvs d) k = dict_get d k"
  by (induction kvs arbitrary: d) (auto simp: dict_get_set)

lemma module_params_base:
  assumes "get_module_params h type_base = Inr params"
  shows "dict_get params ''port_base'' = Some (mh_port_base h)" "dict_get params ''device_base'' = Some (mh_device_base h)"
    "dict_get params ''type_base'' = Some type_base" "dict_get params ''gw_base'' = Some (Some (mh_gw_base h))"
    "dict_get params ''scan_base'' = Some (Some (mh_scan_base h))"
proof -
  obtain x where e: "params = common_params h type_base x \<or>
      params = fold (\<lambda>(k, v) d. dict_set k v d) (get_switch_config (mh_switch_setup h)) (common_params h type_base x)"
    using assms by (auto simp: get_module_params_def Let_def bind_result_eq_Inr split: if_splits)
  have "fst ` set (get_switch_config (mh_switch_setup h)) = {''ip'', ''model'', ''username'', ''password''}"
    by (auto simp: get_switch_config_def)
  then have "dict_get params k = dict_get (common_params h type_base x) k" if "k \<notin> {''ip'', ''model'', ''username'', ''password''}" for k
    using e that fold_set_other [of k "get_switch_config (mh_switch_setup h)" "common_params h type_base x"] by auto
  then show "dict_get params ''port_base'' = Some (mh_port_base h)" "dict_get params ''device_base'' = Some (mh_device_base h)"
    "dict_get params ''type_base'' = Some type_base" "dict_get params ''gw_base'' = Some (Some (mh_gw_base h))"
    "dict_get params ''scan_base'' = Some (Some (mh_scan_base h))"
    by (simp_all add: common_params_def)
qed

text \<open>The directories of the port, the device, the type and the gateway, as far as they exist.\<close>

fun mapped_dir :: "files \<Rightarrow> string \<Rightarrow> string \<times> string option \<Rightarrow> (string option \<times> string) list" where
  "mapped_dir fs basedir (kind, None) = []"
| "mapped_dir fs basedir (kind, Some base) =
     (if base \<noteq> [] \<and> file_exists fs base
      then [(Some (abspath (working_dir fs) base), path_join (path_join basedir ''config'') kind)] else [])"

definition device_dirs :: "module_host \<Rightarrow> string option \<Rightarrow> (string \<times> string option) list" where
  "device_dirs h type_base =
     [(''port'', mh_port_base h), (''device'', mh_device_base h), (''type'', type_base), (''gw'', Some (mh_gw_base h))]"

lemma map_if_exists_dir:
  "dict_get params (kind @ ''_base'') = Some base \<Longrightarrow>
     map (\<lambda>(src, dst). (Some src, dst)) (List.map_filter (map_if_exists fs basedir params) (kind # kinds)) =
       mapped_dir fs basedir (kind, base) @
       map (\<lambda>(src, dst). (Some src, dst)) (List.map_filter (map_if_exists fs basedir params) kinds)"
  by (cases base) (auto simp: map_if_exists_def setup_value_def List.map_filter_simps)

text \<open>C34: the name of the directory of the run is taken for the name of a parameter: its value is looked
  up under the name of the directory followed by \<open>_base\<close>. When there is no parameter of that name, as for
  \<open>/var/run/daq\<close> and any other directory but one called \<open>inst\<close>, \<open>port\<close>, \<open>device\<close>, \<open>type\<close>, \<open>gw\<close> or
  \<open>scan\<close>, what is mapped into a module is exactly the directory of the scans and those of the
  directories of the port, the device, the type and the gateway that exist, in this order: the
  configuration of the run (\<open>inst_base\<close>) is never mapped.\<close>

theorem run_config_not_mapped:
  assumes "get_module_params h type_base = Inr params" "run_dir @ ''_base'' \<notin> set base_keys"
  shows "get_vol_maps fs run_dir basedir params =
    Inr ((Some (mh_scan_base h), path_join basedir ''scans'') # concat (map (mapped_dir fs basedir) (device_dirs h type_base)))"
proof -
  have "dict_get params (run_dir @ ''_base'') = None" using module_params_keys [OF assms(1)] assms(2) by blast
  then have "map_if_exists fs basedir params run_dir = None" by (simp add: map_if_exists_def setup_value_def)
  then have "map (\<lambda>(src, dst). (Some src, dst))
      (List.map_filter (map_if_exists fs basedir params) [run_dir, ''port'', ''device'', ''type'', ''gw'']) =
    map (\<lambda>(src, dst). (Some src, dst))
      (List.map_filter (map_if_exists fs basedir params) [''port'', ''device'', ''type'', ''gw''])"
    by (simp only: List.map_filter_simps option.case)
  also have "\<dots> = concat (map (mapped_dir fs basedir) (device_dirs h type_base))"
    using module_params_base [OF assms(1)]
    by (simp add: map_if_exists_dir device_dirs_def del: mapped_dir.simps List.map_filter_simps)
      (simp add: List.map_filter_simps)
  finally show ?thesis
    using module_params_base(5) [OF assms(1)] by (simp only: get_vol_maps_def) (simp add: dict_index_def)
qed

definition example_module_host :: module_host where
  "example_module_host =
     \<lparr>mh_switch_setup = [], mh_test_port = 12, mh_target_ip = Some ''10.20.0.5'', mh_target_mac = ''9a:02:57:1e:8f:01'', mh_target_port = Some 1,
      mh_gateway_ip = ''10.20.0.1'', mh_gateway_mac = ''9a:02:57:1e:8f:99'', mh_inst_config_path = ''/var/run/daq/config'', mh_port_base = None,
      mh_device_base = None, mh_gw_base = ''/var/run/daq/gw01'', mh_scan_base = ''/var/run/daq/run-9a02571e8f01/scans''\<rparr>"

definition packaged_files :: files where
  \<comment> \<open>every file exists\<close>
  "packaged_files = \<lparr>read_yaml = (\<lambda>_. Inl OSError), read_lines = (\<lambda>_. Inl OSError), file_exists = (\<lambda>_. True), working_dir = ''/''\<rparr>"

theorem run_config_not_mapped_witness:
  "bind_result (get_module_params example_module_host None) (get_vol_maps packaged_files ''/var/run/daq'' ''/'') =
     Inr ((Some (mh_scan_base example_module_host), path_join ''/'' ''scans'') #
       concat (map (mapped_dir packaged_files ''/'') (device_dirs example_module_host None))) \<and>
   concat (map (mapped_dir packaged_files ''/'') (device_dirs example_module_host None)) =
     [(Some ''/var/run/daq/gw01'', ''/config/gw'')]"
proof -
  have "\<not> isl (get_module_params example_module_host None)" by code_simp
  then obtain params where p: "get_module_params example_module_host None = Inr params"
    by (cases "get_module_params example_module_host None") auto
  have "''/var/run/daq'' @ ''_base'' \<notin> set base_keys" by code_simp
  from run_config_not_mapped [OF p this]
  have "get_vol_maps packaged_files ''/var/run/daq'' ''/'' params =
     Inr ((Some (mh_scan_base example_module_host), path_join ''/'' ''scans'') #
       concat (map (mapped_dir packaged_files ''/'') (device_dirs example_module_host None)))" .
  moreover have "concat (map (mapped_dir packaged_files ''/'') (device_dirs example_module_host None)) =
     [(Some ''/var/run/daq/gw01'', ''/config/gw'')]" by code_simp
  ultimately show ?thesis by (simp add: p)
qed

end
