(* ===== verification/Spec2Isabelle.thy ===== *)
theory Spec2Isabelle
  imports Authenticator Topology_Templates Config_Text Host_Progress Generator_Claims Faucet_Claims Stream_Monitor Dhcp_Monitor Session_Claims
    Traffic_Analyzer Combine_Reports Network Forchestrator Test_Lists Host_Config Cloud_Config Main_Loop Module_Setup
begin

text \<open>
  Verification of DAQ, the device qualification system in \<open>src/\<close>.

  \<^bold>\<open>The program.\<close> DAQ plugs devices into a software-defined switch and tests them. The runner
  (\<open>daq/runner.py\<close>) receives events of the FAUCET controller, registers the devices, gives every group
  of devices a gateway (\<open>daq/base_gateway.py\<close>) with a set of switch ports, directs the traffic of a
  device to its gateway by rewriting the switch configuration (\<open>daq/topology.py\<close>), starts a host
  object per device that runs the tests (\<open>daq/host.py\<close>), and collects the results. Its settings are
  read by \<open>daq/configurator.py\<close>. One of the tests, \<open>subset/dot1x/authenticator\<close>, is an 802.1X
  authenticator of its own: it exchanges EAP frames with the device and RADIUS packets with a server.

  \<^bold>\<open>Shared.\<close> \<open>Py_Prelude\<close>: exceptions as values (\<open>'a result\<close>), byte strings, \<open>struct\<close>, dictionaries
  as association lists, and the locales \<open>codec\<close> and \<open>simulation\<close>. \<open>Py_Text\<close>, \<open>Py_Values\<close>: strings,
  integers and dynamically typed values. \<open>Threads\<close>: operations on a state that may raise (what they did
  before stays done), rules for invariants (\<open>keeps\<close>), pre- and postconditions (\<open>ensures\<close>) and frames
  (the locale \<open>step_frame\<close>), and the locale \<open>sender_loop\<close> for the two send threads of the authenticator.

  \<^bold>\<open>The 802.1X authenticator\<close> (\<open>subset/dot1x/authenticator\<close>), one group of definitions per module:
  \<open>Link_Layer\<close> (MAC addresses, Ethernet, EAPOL), \<open>Eap_Packets\<close> (\<open>eap.py\<close>), \<open>Eap_Messages\<close>
  (\<open>message_parser.py\<close>), \<open>Radius_Datatypes\<close>, \<open>Radius_Attributes\<close>, \<open>Radius_Packet\<close> (\<open>radius.py\<close>),
  \<open>Radius_Module\<close>, \<open>Eap_Module\<close> and \<open>Authenticator\<close> (the state machines and their timers). HMAC and
  MD5 are parameters. The lemmas show round trips of every format, that a parser fails only with its own
  exception, that a reply is accepted only with the authenticators the shared secret gives, and, over
  all runs of the authenticator, that only a datagram whose bytes hold such an accept authenticates a
  device. A handler is one atomic step of such a run; the finer interleaving of the threads is not modelled.

  \<^bold>\<open>Gateways and switches.\<close> \<open>Gateways\<close>: ports, targets and warm-up of a gateway, with the locale
  \<open>allocator\<close> for numbered resources. \<open>Topology\<close> translates \<open>topology.py\<close> definition by definition: the
  base configuration, the access lists, the templates of device types and the two operations that direct
  traffic; \<open>Topology_Rules\<close>, \<open>Topology_Traffic\<close> and \<open>Topology_Templates\<close> prove that the access lists
  equal a reference definition, or raise when a port set is out of range, that any sequence of port
  directions (without device specs and VLAN triggers) refines a table from ports to port
  sets, and that a device's traffic reaches only the ports it may.

  \<^bold>\<open>Configuration.\<close> \<open>Configurator\<close> and \<open>Config_Text\<close>: \<open>configurator.py\<close>. Reading a YAML file is a
  parameter. Includes are followed by a function that may diverge (\<open>partial_function\<close>); it is shown to
  return when finitely many files are readable, to merge the chain of included files in order, and to
  raise the error of the first file of the chain that fails.

  \<^bold>\<open>The runner.\<close> \<open>Devices\<close> has the state of \<open>runner.py\<close> and the registry of devices, \<open>Runner\<close> every
  handler, composed as in the code. Device, port, gateway and host objects are shared, so they live in
  stores and are referred to by number. The record \<open>env\<close> has the configuration and the answers of what is
  outside the program (containers, clock, session server, the element \<open>set.pop\<close> takes), \<open>host_ops\<close> the
  operations of a connected host, of an arbitrary type; a theorem about the runner holds for all of
  them. \<open>_target_set_finalize\<close> may handle the waiting events and handling an event may finalize a
  device; the handlers take this recursive call as an argument, and \<open>handle_faucet_events\<close> closes the
  recursion with a bound on the rounds. As many rounds as events wait are enough
  (\<open>Runner_Invariants.fuel_enough\<close>), because every nested call starts with fewer events.
  \<open>Runner_Invariants\<close> states in the locale \<open>runner_invariant\<close> what an invariant has to satisfy and shows
  once that every handler then keeps it; it is interpreted for the events, for the number of hosts
  (\<open>Runner_Properties\<close>) and for the ownership of gateway sets (\<open>Gateway_Sets\<close>). Runs start in the state of
  the constructor; the initialization, which connects the events, is an occasion of its own. \<open>Runner_Example\<close>
  is a run with a device under test and another one waiting, for the examples. \<open>Runner_Claims\<close> has the
  properties of results and two errors in the handling of devices that are not under test.

  \<^bold>\<open>Hosts, test modules and reports.\<close> \<open>Host\<close> translates \<open>host.py\<close> and \<open>test_modules\<close>: a host goes
  through its states, captures packets, runs one test module after the other, records results and is
  terminated; \<open>connected_host\<close> packs its operations as the \<open>host_ops\<close> of the runner. What is outside
  (containers, captures, pings, files) is the record \<open>host_env\<close>, which may change from step to step and
  in which everything may fail. What a host asks of the runner is done when its operation is over. A module that ends, a capture that breaks off, a search for an address
  that returns and a changed control configuration are events of the stream monitor. The locale
  \<open>host_contract\<close> (\<open>Host_Contract\<close>) says what a relation between hosts has to satisfy so that every
  handler of the runner moves all hosts along it; the locale \<open>host_frame\<close> (\<open>Host_Properties\<close>) gives such
  a contract from a few laws about single assignments, and is interpreted for the permitted changes of
  the state and for the order of the tests. \<open>Host_Claims\<close> draws the conclusions for all runs of the
  runner, \<open>Host_Progress\<close> shows that a host whose surroundings do not fail runs all its tests.
  \<open>Py_Regex\<close> models the regular expressions of Python as far as they are used (backtracking, greedy and
  lazy repetition, groups); \<open>Report\<close> translates \<open>report.py\<close> up to the markdown text, and
  \<open>Report_Properties\<close> shows which lines of a module's report are read as which result, that every
  required test is accounted for, and that the tables count right.

  \<^bold>\<open>Events of the controller.\<close> \<open>Py_Json\<close> has \<open>json.dumps\<close> and \<open>json.loads\<close>, with the round trip;
  nesting is bounded by twice the length of the text plus two, which is enough for every text.
  \<open>Faucet_Events\<close> translates \<open>faucet_event_client.py\<close>: the buffer of lines, the filter, the expansion of
  lists of ports and the timers that debounce ports. The loop of \<open>next_event\<close> takes a number of rounds;
  \<open>rounds\<close> counts one per line and one per port a line lists, and \<open>Faucet_Claims\<close> shows that this is
  enough, that the timers refine one timer per port, and what a line that is no JSON does.

  \<^bold>\<open>The topology generator.\<close> \<open>Generator\<close> translates \<open>generator.py\<close>, which writes the configuration of
  a network of two tiers of switches, over YAML documents as a datatype; \<open>Generator_Claims\<close> shows that
  the links between the tiers are symmetric and that flattening included files loses no section.

  \<^bold>\<open>Streams, sessions and DHCP.\<close> \<open>Stream_Monitor\<close> translates \<open>stream_monitor.py\<close>, the main loop: the
  callbacks are arbitrary operations that may register and forget descriptors and raise, and the theorem
  is that a round of the loop returns all the same and its tables stay in step. \<open>Main_Loop\<close> puts the
  handlers of the runner into it as \<open>main_loop\<close> does, and keeps a log of what the main thread and the other
  threads did: the final state is the one the logged occasions lead to, the log has the shape of the
  loop, and only reaping, heartbeats, closing a descriptor and an invalid poll event, found at the end of the
  log, can end the loop with an exception. Other threads act between the steps of the loop; those that do not hold
  the lock of the runner (reaping, heartbeats and the last termination) are a step per device. What
  another thread does inside the work for one device or inside a callback of a stream is not modelled. \<open>Dhcp_Monitor\<close>
  (\<open>dhcp_monitor.py\<close>) reads captured lines with the patterns of the code; its reports follow from the
  history of ACKs. \<open>Session_Server\<close> (\<open>session_server.py\<close>) has the threads of the gRPC server as steps
  that interleave freely; \<open>Session_Claims\<close> shows the order of the messages and their delivery for all
  interleavings, and connects the server with the runner's handler of a new session.

  \<^bold>\<open>Counters, combined reports and the network.\<close> \<open>Traffic_Analyzer\<close> has the two collectors
  (\<open>acl_state_collector.py\<close>, \<open>varz_state_collector.py\<close>) and \<open>traffic_analyzer.py\<close>: the counts of a port
  equal a reference definition. \<open>Combine_Reports\<close> (\<open>bin/python/combine_reports.py\<close>) adds up the results
  of several reports. \<open>Network\<close> has the lists of hosts and links that \<open>network.py\<close> keeps, over the
  operations of the emulator as a record, each of which may raise. \<open>Gateway_Life\<close> starts and removes the
  hosts of a gateway; what it relies on is the locale \<open>host_network\<close>, which \<open>Network\<close> interprets, so that a
  gateway leaves the network as it found it. \<open>Forchestrator\<close> (\<open>forchestrator.py\<close>)
  is the other client of the events.

  \<^bold>\<open>Test lists and layers of configuration.\<close> \<open>Test_Lists\<close> reads the files of test commands of
  \<open>runner.py\<close>. Includes are followed to a depth, and \<open>Test_Lists.test_list_returns\<close> shows that files whose
  includes decrease in rank are read when the depth is more than the rank of the first. \<open>Host_Config\<close>
  (\<open>host.py\<close>, \<open>runner.py\<close>) merges the files of site, device type, device and port; \<open>Module_Setup\<close> has the
  parameters, variables, directories and the address a test module gets; \<open>Cloud_Config\<close> has the
  configurations that are changed from the cloud (\<open>gcp.py\<close>) and the queue of callbacks of the runner.

  \<^bold>\<open>Not modelled.\<close> Log messages and their texts, published status messages (publishing is taken not to
  raise) and files written for people have no influence on the state. The conversion of reports to PDF,
  the start of mininet, Open vSwitch and Docker containers, the raw sockets of the authenticator, the
  HTTP server and the calls of Pub/Sub, Storage and Firestore hand over to libraries; what they answer
  is an argument where the program depends on it. The protocol buffers are generated code, the helper
  programs of the containers are test beds around sockets and TLS, and the start-up of the processes
  only puts the parts together.
\<close>

end
